(* ===== verification/Prelude.thy ===== *)
theory Prelude
  imports "HOL-Library.Word" "HOL-Library.Char_ord" "HOL-Library.List_Lexorder"
begin

text \<open>
  Shared ground of the development: the machine integer types the C++ sources use, byte
  buffers with writes and reads at fixed offsets, the little-endian integer codec that every
  wire format of the platform repeats (the \<open>put_le\<close> / \<open>get_le\<close> templates), character
  classes of the string validators, decimal rendering, and the two interfaces that several
  components share: \<open>wire_codec\<close> (a canonical encoder / decoder pair) and \<open>machine\<close> (a state
  machine with an invariant).
\<close>

unbundle bit_operations_syntax

section \<open>Machine types\<close>

type_synonym u8 = "8 word"
type_synonym u16 = "16 word"
type_synonym u32 = "32 word"
type_synonym u64 = "64 word"
type_synonym i32 = "32 word"
type_synonym bytes = "u8 list"

named_theorems buffer_simps \<open>reads and writes of byte buffers at fixed offsets\<close>
named_theorems codec_defs \<open>definitions of encoders and decoders to be unfolded together\<close>

section \<open>Byte buffers\<close>

definition bytes_at :: "nat \<Rightarrow> nat \<Rightarrow> 'a list \<Rightarrow> 'a list" where
  "bytes_at off n xs = take n (drop off xs)"

definition put_at :: "nat \<Rightarrow> 'a list \<Rightarrow> 'a list \<Rightarrow> 'a list" where
  "put_at off bs out = take off out @ bs @ drop (off + length bs) out"

text \<open>A sequence of writes, in the order the code issues them.\<close>

fun puts :: "(nat \<times> 'a list) list \<Rightarrow> 'a list \<Rightarrow> 'a list" where
  "puts [] out = out"
| "puts ((off, bs) # ws) out = puts ws (put_at off bs out)"

definition all_zero :: "bytes \<Rightarrow> bool" where
  "all_zero bs = list_all (\<lambda>b. b = 0) bs"

lemma length_bytes_at [simp]: "off + n \<le> length xs \<Longrightarrow> length (bytes_at off n xs) = n"
  by (simp add: bytes_at_def)

lemma nth_bytes_at: "off + n \<le> length xs \<Longrightarrow> i < n \<Longrightarrow> bytes_at off n xs ! i = xs ! (off + i)"
  by (simp add: bytes_at_def)

lemma length_put_at [simp]:
  "off + length bs \<le> length out \<Longrightarrow> length (put_at off bs out) = length out"
  by (simp add: put_at_def)

lemma nth_put_at:
  assumes "off + length bs \<le> length out" "i < length out"
  shows "put_at off bs out ! i = (if off \<le> i \<and> i < off + length bs then bs ! (i - off) else out ! i)"
  using assms by (auto simp: put_at_def nth_append)

lemma bytes_at_put_at_same [buffer_simps]:
  "off + length bs \<le> length out \<Longrightarrow> n = length bs \<Longrightarrow> bytes_at off n (put_at off bs out) = bs"
  by (simp add: bytes_at_def put_at_def)

lemma bytes_at_put_at_other [buffer_simps]:
  assumes "off + length bs \<le> length out" "off' + n \<le> length out"
    and "off' + n \<le> off \<or> off + length bs \<le> off'"
  shows "bytes_at off' n (put_at off bs out) = bytes_at off' n out"
proof (rule nth_equalityI)
  show "length (bytes_at off' n (put_at off bs out)) = length (bytes_at off' n out)"
    using assms by simp
next
  fix i assume "i < length (bytes_at off' n (put_at off bs out))"
  then have "i < n" using assms by simp
  then show "bytes_at off' n (put_at off bs out) ! i = bytes_at off' n out ! i"
    using assms by (auto simp: nth_bytes_at nth_put_at)
qed

lemma bytes_at_replicate [simp]: "off + n \<le> m \<Longrightarrow> bytes_at off n (replicate m x) = replicate n x"
  by (simp add: bytes_at_def)

lemma bytes_at_all [simp]: "bytes_at 0 (length xs) xs = xs"
  by (simp add: bytes_at_def)

lemma drop_eq_bytes_at: "drop off bs = bytes_at off (length bs - off) bs"
  by (simp add: bytes_at_def)

lemma bytes_at_add: "bytes_at off (m + n) xs = bytes_at off m xs @ bytes_at (off + m) n xs"
  by (simp add: bytes_at_def take_add add.commute)

lemma bytes_at_append_left: "off + n \<le> length xs \<Longrightarrow> bytes_at off n (xs @ ys) = bytes_at off n xs"
  by (simp add: bytes_at_def)

lemma bytes_at_append_right:
  "length xs \<le> off \<Longrightarrow> bytes_at off n (xs @ ys) = bytes_at (off - length xs) n ys"
  by (simp add: bytes_at_def)

lemma all_zero_replicate [simp]: "all_zero (replicate n 0)"
  by (simp add: all_zero_def list_all_iff)

lemma all_zero_Nil [simp]: "all_zero []"
  by (simp add: all_zero_def)

lemma all_zero_bytes_at_nth:
  assumes "all_zero (bytes_at off n xs)" "off + n \<le> length xs" "off \<le> i" "i < off + n"
  shows "xs ! i = 0"
proof -
  have "bytes_at off n xs ! (i - off) = xs ! i"
    using assms by (simp add: nth_bytes_at)
  moreover have "bytes_at off n xs ! (i - off) \<in> set (bytes_at off n xs)"
    using assms by (intro nth_mem) simp
  ultimately show ?thesis using assms(1) by (auto simp: all_zero_def list_all_iff)
qed

text \<open>
  Writing back what was read at the same place: the canonicity proofs of the wire formats
  compare a received frame with its re-encoding index by index through this lemma.
\<close>

lemma nth_put_at_bytes_at:
  assumes "off + n \<le> length xs" "length out = length xs" "i < length xs"
  shows "put_at off (bytes_at off n xs) out ! i =
    (if off \<le> i \<and> i < off + n then xs ! i else out ! i)"
  using assms by (auto simp: nth_put_at nth_bytes_at)

text \<open>
  Whole write sequences. \<open>writes_ok\<close> says that every write is inside the buffer and that no two
  writes overlap; it is decided by comparing the offsets once. A field written by such a
  sequence reads back (\<open>bytes_at_puts\<close>), a region no write touches keeps what it held
  (\<open>bytes_at_puts_other\<close>), and a buffer whose writes are its own contents is unchanged
  (\<open>puts_eq\<close>).
\<close>

fun apart :: "nat \<Rightarrow> nat \<Rightarrow> (nat \<times> 'a list) list \<Rightarrow> bool" where
  "apart off n [] = True"
| "apart off n ((o', bs) # ws) = ((off + n \<le> o' \<or> o' + length bs \<le> off) \<and> apart off n ws)"

fun writes_ok :: "nat \<Rightarrow> (nat \<times> 'a list) list \<Rightarrow> bool" where
  "writes_ok len [] = True"
| "writes_ok len ((off, bs) # ws) =
     (off + length bs \<le> len \<and> apart off (length bs) ws \<and> writes_ok len ws)"

lemma length_puts [simp]: "writes_ok (length out) ws \<Longrightarrow> length (puts ws out) = length out"
  by (induction ws out rule: puts.induct) simp_all

lemma bytes_at_puts_other:
  assumes "writes_ok (length out) ws" "apart off n ws" "off + n \<le> length out"
  shows "bytes_at off n (puts ws out) = bytes_at off n out"
  using assms by (induction ws out rule: puts.induct) (auto simp: bytes_at_put_at_other)

lemma bytes_at_puts:
  assumes "writes_ok (length out) ws" "(off, bs) \<in> set ws" "n = length bs"
  shows "bytes_at off n (puts ws out) = bs"
  using assms
proof (induction ws out rule: puts.induct)
  case (2 o' b ws out)
  show ?case
  proof (cases "(off, bs) = (o', b)")
    case True
    with 2 have "apart off n ws" "writes_ok (length (put_at o' b out)) ws" by auto
    then have "bytes_at off n (puts ws (put_at o' b out)) = bytes_at off n (put_at o' b out)"
      using 2 True by (intro bytes_at_puts_other) auto
    with True 2 show ?thesis by (simp add: bytes_at_put_at_same)
  next
    case False
    with 2 show ?thesis by auto
  qed
qed simp

lemma puts_eq:
  assumes "length out = length bs"
    and "\<And>off b. (off, b) \<in> set ws \<Longrightarrow> off + length b \<le> length bs \<and> b = bytes_at off (length b) bs"
    and "\<And>i. i < length bs \<Longrightarrow> bs ! i = out ! i \<or> (\<exists>(off, b) \<in> set ws. off \<le> i \<and> i < off + length b)"
  shows "puts ws out = bs"
  using assms
proof (induction ws out rule: puts.induct)
  case (1 out)
  then show ?case by (auto intro: nth_equalityI)
next
  case (2 o' b ws out)
  have b: "o' + length b \<le> length bs" "b = bytes_at o' (length b) bs"
    using "2.prems"(2) by auto
  have i: "bs ! i = put_at o' b out ! i \<or> (\<exists>(off, b) \<in> set ws. off \<le> i \<and> i < off + length b)"
    if "i < length bs" for i
  proof -
    have "b ! (i - o') = bs ! i" if "o' \<le> i" "i < o' + length b"
      using that b nth_bytes_at [of o' "length b" bs "i - o'"] by simp
    then show ?thesis
      using "2.prems"(3) [OF that] b that "2.prems"(1) by (auto simp: nth_put_at)
  qed
  show ?case unfolding puts.simps
    using "2.prems"(1,2) b i by (intro "2.IH") auto
qed

text \<open>
  Records written by appending fields: \<open>blocks_at\<close> says that the fields stand one after the
  other from an offset on; it holds of their concatenation, and it determines a buffer.
\<close>

fun blocks_at :: "nat \<Rightarrow> 'a list list \<Rightarrow> 'a list \<Rightarrow> bool" where
  "blocks_at off [] xs = True"
| "blocks_at off (b # bs) xs = (bytes_at off (length b) xs = b \<and> blocks_at (off + length b) bs xs)"

lemma blocks_at_append: "blocks_at (length pre) bs (pre @ concat bs @ post)"
proof (induction bs arbitrary: pre)
  case (Cons b bs)
  have "blocks_at (length (pre @ b)) bs ((pre @ b) @ concat bs @ post)" by (rule Cons.IH)
  then show ?case by (simp add: bytes_at_def)
qed simp

lemma blocks_at_concat: "blocks_at 0 bs (concat bs @ post)"
  using blocks_at_append [of "[]"] by simp

lemma concat_blocks_at: "blocks_at off bs xs \<Longrightarrow> concat bs = bytes_at off (sum_list (map length bs)) xs"
proof (induction bs arbitrary: off)
  case (Cons b bs)
  then have "b = bytes_at off (length b) xs" "concat bs = bytes_at (off + length b) (sum_list (map length bs)) xs"
    by simp_all
  then have "concat (b # bs) = bytes_at off (length b) xs @ bytes_at (off + length b) (sum_list (map length bs)) xs"
    by simp
  then show ?case by (simp add: bytes_at_def take_add add.commute)
qed (simp add: bytes_at_def)

text \<open>The interval of a list of boundaries an index falls into: the case split of those proofs.\<close>

lemma intervals:
  "lo \<le> (i :: nat) \<Longrightarrow> i < last (lo # his) \<Longrightarrow> \<exists>(l, h) \<in> set (zip (lo # his) his). l \<le> i \<and> i < h"
proof (induction his arbitrary: lo)
  case (Cons h his)
  then show ?case using Cons.IH [of h] by (cases "i < h") auto
qed simp

section \<open>Little-endian integers\<close>

text \<open>\<open>put_le\<close>: byte \<open>index\<close> of the output is \<open>value >> (index * 8)\<close> truncated to 8 bits.\<close>

definition le_bytes :: "nat \<Rightarrow> 'a::len word \<Rightarrow> bytes" where
  "le_bytes n w = map (\<lambda>i. ucast (drop_bit (8 * i) w)) [0..<n]"

text \<open>\<open>get_le\<close>: \<open>value |= input[index] << (index * 8)\<close>, for increasing \<open>index\<close>.\<close>

primrec le_from :: "nat \<Rightarrow> bytes \<Rightarrow> 'a::len word" where
  "le_from i [] = 0"
| "le_from i (b # bs) = push_bit (8 * i) (ucast b) OR le_from (Suc i) bs"

definition le_word :: "bytes \<Rightarrow> 'a::len word" where
  "le_word bs = le_from 0 bs"

definition get_le :: "nat \<Rightarrow> nat \<Rightarrow> bytes \<Rightarrow> 'a::len word" where
  "get_le off n bs = le_word (bytes_at off n bs)"

lemma length_le_bytes [simp]: "length (le_bytes n w) = n"
  by (simp add: le_bytes_def)

lemma bit_ucast_u8: "bit (ucast (b :: u8) :: 'a::len word) k \<longleftrightarrow> k < LENGTH('a) \<and> bit b k"
  by (simp add: bit_ucast_iff)

lemma bit_le_from:
  "bit (le_from i bs :: 'a::len word) k \<longleftrightarrow>
     k < LENGTH('a) \<and> 8 * i \<le> k \<and> k < 8 * (i + length bs) \<and> bit (bs ! (k div 8 - i)) (k mod 8)"
proof (induction bs arbitrary: i)
  case Nil
  then show ?case by simp
next
  case (Cons b bs)
  have b8: "bit b m \<Longrightarrow> m < 8" for m
    using bit_imp_le_length [of b m] by simp
  consider (low) "k < 8 * i" | (here) "8 * i \<le> k" "k < 8 * Suc i" | (up) "8 * Suc i \<le> k"
    by linarith
  then show ?case
  proof cases
    case low
    then show ?thesis by (simp add: Cons.IH bit_or_iff bit_push_bit_iff)
  next
    case here
    then have d: "k div 8 = i" and m: "k mod 8 = k - 8 * i"
      by (simp_all add: div_nat_eqI minus_mult_div_eq_mod [symmetric])
    from here show ?thesis
      by (auto simp: Cons.IH bit_or_iff bit_push_bit_iff bit_ucast_u8 d m)
  next
    case up
    then have "\<not> bit b (k - 8 * i)" by (auto dest!: b8)
    moreover have "Suc i \<le> k div 8" using up by (simp add: less_eq_div_iff_mult_less_eq mult.commute)
    then have "k div 8 - i = Suc (k div 8 - Suc i)" by linarith
    ultimately show ?thesis using up
      by (auto simp: Cons.IH bit_or_iff bit_push_bit_iff bit_ucast_u8)
  qed
qed

lemma bit_le_word:
  "bit (le_word bs :: 'a::len word) k \<longleftrightarrow>
     k < LENGTH('a) \<and> k < 8 * length bs \<and> bit (bs ! (k div 8)) (k mod 8)"
  by (simp add: le_word_def bit_le_from)

lemma le_word_le_bytes [simp]:
  assumes "8 * n = LENGTH('a::len)"
  shows "le_word (le_bytes n w) = (w :: 'a word)"
proof (rule bit_word_eqI)
  fix k assume k: "k < LENGTH('a)"
  then have "k div 8 < n" "8 * (k div 8) + k mod 8 = k" using assms by auto
  then show "bit (le_word (le_bytes n w) :: 'a word) k \<longleftrightarrow> bit w k"
    using k assms mod_less_divisor [of 8 k]
    by (simp add: bit_le_word le_bytes_def bit_ucast_iff bit_drop_bit_eq add.commute
        del: mod_less_divisor)
qed

lemma le_bytes_le_word [simp]:
  assumes "8 * n = LENGTH('a::len)" "length bs = n"
  shows "le_bytes n (le_word bs :: 'a word) = bs"
proof (rule nth_equalityI)
  show "length (le_bytes n (le_word bs :: 'a word)) = length bs" using assms by simp
next
  fix i assume "i < length (le_bytes n (le_word bs :: 'a word))"
  then have i: "i < n" by simp
  show "le_bytes n (le_word bs :: 'a word) ! i = bs ! i"
  proof (rule bit_word_eqI)
    fix k assume "k < LENGTH(8)"
    then have k: "k < 8" by simp
    then have "(8 * i + k) div 8 = i" "(8 * i + k) mod 8 = k" by auto
    moreover have "8 * i + k < LENGTH('a)" using i k assms by linarith
    ultimately show "bit (le_bytes n (le_word bs :: 'a word) ! i) k \<longleftrightarrow> bit (bs ! i) k"
      using i k assms by (simp add: le_bytes_def bit_ucast_iff bit_drop_bit_eq bit_le_word)
  qed
qed

lemma le_bytes_get_le [simp]:
  "8 * n = LENGTH('a::len) \<Longrightarrow> off + n \<le> length bs \<Longrightarrow>
   le_bytes n (get_le off n bs :: 'a word) = bytes_at off n bs"
  by (simp add: get_le_def)

lemma get_le_eqD:
  fixes w :: "'a::len word"
  assumes "get_le off n bs = w" "8 * n = LENGTH('a)" "off + n \<le> length bs"
  shows "le_bytes n w = bytes_at off n bs"
  using assms by auto

lemma le_bytes_0 [simp]: "le_bytes n 0 = replicate n 0"
  by (simp add: le_bytes_def map_replicate_const)

lemma le_word_replicate_0 [simp]: "le_word (replicate n 0) = 0"
  by (rule bit_word_eqI) (auto simp: bit_le_word)

lemma all_zero_iff: "all_zero bs \<longleftrightarrow> bs = replicate (length bs) 0"
proof
  assume "all_zero bs"
  then show "bs = replicate (length bs) 0"
    by (intro replicate_length_same [symmetric]) (simp add: all_zero_def list_all_iff)
qed (metis all_zero_replicate)

lemma get_le_eq_0:
  assumes "8 * n = LENGTH('a::len)" "off + n \<le> length bs"
  shows "get_le off n bs = (0 :: 'a word) \<longleftrightarrow> all_zero (bytes_at off n bs)"
proof
  assume "get_le off n bs = (0 :: 'a word)"
  from get_le_eqD [OF this assms] show "all_zero (bytes_at off n bs)" by (metis all_zero_replicate le_bytes_0)
next
  assume "all_zero (bytes_at off n bs)"
  then have "bytes_at off n bs = replicate n 0" using assms by (simp add: all_zero_iff)
  then show "get_le off n bs = (0 :: 'a word)" by (simp add: get_le_def)
qed

lemma unat_ucast_up:
  "LENGTH('a::len) \<le> LENGTH('b::len) \<Longrightarrow> unat (ucast (w :: 'a word) :: 'b word) = unat w"
  by (simp add: unsigned_ucast_eq take_bit_nat_eq_self_iff)
    (meson unsigned_less less_le_trans power_increasing one_le_numeral)

section \<open>Characters and strings\<close>

text \<open>
  A \<open>std::string\<close> is modelled as a HOL \<open>string\<close>: its characters are bytes. The relation
  \<open>operator<\<close> of \<open>std::string\<close> (unsigned byte order, shorter prefix first) is \<open><\<close> of
  \<open>List_Lexorder\<close> over \<open>Char_ord\<close>.
\<close>

definition byte_of :: "char \<Rightarrow> u8" where
  "byte_of c = word_of_nat (of_char c)"

definition char_of_byte :: "u8 \<Rightarrow> char" where
  "char_of_byte b = char_of (unat b)"

definition bytes_of :: "string \<Rightarrow> bytes" where
  "bytes_of s = map byte_of s"

definition str_of :: "bytes \<Rightarrow> string" where
  "str_of bs = map char_of_byte bs"

lemma of_char_less_256 [simp]: "(of_char c :: nat) < 256"
  using of_char_mod_256 [of c, where 'a = nat] by (metis mod_less_divisor zero_less_numeral)

lemma char_of_byte_of [simp]: "char_of_byte (byte_of c) = c"
  by (simp add: char_of_byte_def byte_of_def unat_of_nat)

lemma byte_of_char_of [simp]: "byte_of (char_of_byte b) = b"
proof -
  have "unat b < 256" using unsigned_less [of b, where ?'a = nat] by simp
  then show ?thesis by (simp add: char_of_byte_def byte_of_def)
qed

lemma length_bytes_of [simp]: "length (bytes_of s) = length s"
  by (simp add: bytes_of_def)

lemma length_str_of [simp]: "length (str_of bs) = length bs"
  by (simp add: str_of_def)

lemma str_of_bytes_of [simp]: "str_of (bytes_of s) = s"
  by (simp add: str_of_def bytes_of_def comp_def)

lemma bytes_of_str_of [simp]: "bytes_of (str_of bs) = bs"
  by (simp add: str_of_def bytes_of_def comp_def)

lemma str_of_append [simp]: "str_of (xs @ ys) = str_of xs @ str_of ys"
  by (simp add: str_of_def)

lemma bytes_of_append [simp]: "bytes_of (xs @ ys) = bytes_of xs @ bytes_of ys"
  by (simp add: bytes_of_def)

lemma str_of_Nil [simp]: "str_of [] = []"
  by (simp add: str_of_def)

lemma bytes_of_Nil [simp]: "bytes_of [] = []"
  by (simp add: bytes_of_def)

lemma bytes_of_inject [simp]: "bytes_of s = bytes_of t \<longleftrightarrow> s = t"
  by (metis str_of_bytes_of)

text \<open>The character classes of the validators.\<close>

definition code :: "char \<Rightarrow> nat" where
  "code c = of_char c"

definition is_digit :: "char \<Rightarrow> bool" where
  "is_digit c \<longleftrightarrow> 48 \<le> code c \<and> code c \<le> 57"

definition is_lower :: "char \<Rightarrow> bool" where
  "is_lower c \<longleftrightarrow> 97 \<le> code c \<and> code c \<le> 122"

definition is_upper :: "char \<Rightarrow> bool" where
  "is_upper c \<longleftrightarrow> 65 \<le> code c \<and> code c \<le> 90"

definition is_hex_lower :: "char \<Rightarrow> bool" where
  "is_hex_lower c \<longleftrightarrow> is_digit c \<or> (97 \<le> code c \<and> code c \<le> 102)"

definition hex_char :: "nat \<Rightarrow> char" where
  "hex_char n = ''0123456789abcdef'' ! n"

text \<open>\<open>hex[value >> 4]\<close>, \<open>hex[value & 0x0f]\<close> for every byte: the repeated hex rendering.\<close>

definition hex_of_bytes :: "bytes \<Rightarrow> string" where
  "hex_of_bytes bs = concat (map (\<lambda>b. [hex_char (unat (drop_bit 4 b)), hex_char (unat (b AND 15))]) bs)"

text \<open>\<open>std::to_string\<close> of an unsigned value.\<close>

fun dec_string :: "nat \<Rightarrow> string" where
  "dec_string n = (if n < 10 then [char_of (48 + n)] else dec_string (n div 10) @ [char_of (48 + n mod 10)])"

declare dec_string.simps [simp del]

text \<open>\<open>std::to_string\<close> of a signed value.\<close>

definition dec_string_int :: "int \<Rightarrow> string" where
  "dec_string_int z = (if z < 0 then ''-'' @ dec_string (nat (- z)) else dec_string (nat z))"

section \<open>Interface: a canonical wire format\<close>

text \<open>
  The contract every frame of the platform is meant to satisfy: what the encoder writes for an
  acceptable message is read back as that message, and the decoder accepts nothing else.
\<close>

locale wire_codec =
  fixes encode :: "'m \<Rightarrow> bytes"
    and decode :: "bytes \<Rightarrow> 'm option"
    and acceptable :: "'m \<Rightarrow> bool"
  assumes decode_encode: "acceptable m \<Longrightarrow> decode (encode m) = Some m"
    and decode_acceptable: "decode bs = Some m \<Longrightarrow> acceptable m"
    and encode_decode: "decode bs = Some m \<Longrightarrow> encode m = bs"
begin

lemma decode_iff: "decode bs = Some m \<longleftrightarrow> acceptable m \<and> encode m = bs"
  using decode_encode decode_acceptable encode_decode by blast

lemma encode_injective: "acceptable m \<Longrightarrow> acceptable m' \<Longrightarrow> encode m = encode m' \<Longrightarrow> m = m'"
  using decode_encode by (metis option.inject)

lemma decode_injective: "decode bs = Some m \<Longrightarrow> decode bs' = Some m \<Longrightarrow> bs = bs'"
  using encode_decode by blast

lemma rejected_iff: "decode bs = None \<longleftrightarrow> (\<forall>m. acceptable m \<longrightarrow> encode m \<noteq> bs)"
  using decode_iff by (metis not_Some_eq)

end

section \<open>Interface: a state machine with an invariant\<close>

locale machine =
  fixes step :: "'s \<Rightarrow> 'e \<Rightarrow> 's"
    and inv :: "'s \<Rightarrow> bool"
  assumes step_inv: "inv s \<Longrightarrow> inv (step s e)"
begin

lemma run_inv: "inv s \<Longrightarrow> inv (foldl step s es)"
  by (induction es arbitrary: s) (simp_all add: step_inv)

lemma run_prefix_inv: "inv s \<Longrightarrow> inv (foldl step s (take n es))"
  by (rule run_inv)

end

section \<open>Interface: a state that only moves forward\<close>

text \<open>
  Anti-rollback state: every step moves along a preorder, so no sequence of steps, whatever the
  order, returns to an older state.
\<close>

locale ratchet = machine step inv
  for step :: "'s \<Rightarrow> 'e \<Rightarrow> 's" and inv :: "'s \<Rightarrow> bool" +
  fixes newer :: "'s \<Rightarrow> 's \<Rightarrow> bool" and good :: "'e \<Rightarrow> bool"
  assumes newer_refl: "newer s s"
    and newer_trans: "newer s t \<Longrightarrow> newer t u \<Longrightarrow> newer s u"
    and step_newer: "inv s \<Longrightarrow> good e \<Longrightarrow> newer s (step s e)"
begin

lemma run_newer: "inv s \<Longrightarrow> \<forall>e \<in> set es. good e \<Longrightarrow> newer s (foldl step s es)"
proof (induction es arbitrary: s)
  case (Cons e es)
  then have "newer s (step s e)" "newer (step s e) (foldl step (step s e) es)"
    using step_newer step_inv by auto
  then show ?case using newer_trans by simp
qed (simp add: newer_refl)

lemma later_newer:
  assumes "inv s" "m \<le> n" "\<forall>e \<in> set es. good e"
  shows "newer (foldl step s (take m es)) (foldl step s (take n es))"
proof -
  have "take n es = take m es @ take (n - m) (drop m es)"
    using assms(2) by (metis le_add_diff_inverse take_add)
  moreover have "\<forall>e \<in> set (take (n - m) (drop m es)). good e"
    using assms(3) by (auto dest!: in_set_takeD in_set_dropD)
  ultimately show ?thesis using assms(1) run_newer [OF run_inv] by simp
qed

end

section \<open>Interface: an atomic store\<close>

text \<open>
  What a durable store promises its clients whatever fails during a commit: a committed value
  that was acknowledged is read back, and an unacknowledged commit leaves the old value or the
  new one, never neither. \<open>follows v w\<close> says which values may replace which.
\<close>

locale atomic_store =
  fixes commit :: "'s \<Rightarrow> 'v \<Rightarrow> 'f \<Rightarrow> 's \<times> bool"
    and lookup :: "'s \<Rightarrow> 'v option"
    and follows :: "'v \<Rightarrow> 'v \<Rightarrow> bool"
  assumes commit_acknowledged:
      "lookup s = Some v \<Longrightarrow> follows v w \<Longrightarrow> snd (commit s w f) \<Longrightarrow> lookup (fst (commit s w f)) = Some w"
    and commit_atomic:
      "lookup s = Some v \<Longrightarrow> follows v w \<Longrightarrow> lookup (fst (commit s w f)) \<in> {Some v, Some w}"
begin

text \<open>A client that always commits a follower of what it reads never loses its value.\<close>

fun commits :: "('v \<Rightarrow> 'e \<Rightarrow> 'v option) \<Rightarrow> 's \<Rightarrow> ('e \<times> 'f) list \<Rightarrow> 's" where
  "commits decide s [] = s"
| "commits decide s ((e, f) # es) =
     (case lookup s of None \<Rightarrow> s
      | Some v \<Rightarrow> (case decide v e of None \<Rightarrow> commits decide s es
                   | Some w \<Rightarrow> commits decide (fst (commit s w f)) es))"

lemma commits_never_lost:
  assumes "lookup s = Some v" "P v"
    and follow: "\<And>v e w. P v \<Longrightarrow> decide v e = Some w \<Longrightarrow> follows v w \<and> P w"
  shows "\<exists>w. lookup (commits decide s es) = Some w \<and> P w"
  using assms(1,2)
proof (induction es arbitrary: s v)
  case (Cons ef es)
  obtain e f where ef: "ef = (e, f)" by fastforce
  show ?case
  proof (cases "decide v e")
    case None
    with Cons ef show ?thesis by simp
  next
    case (Some w)
    then have w: "follows v w" "P w" using follow Cons.prems by blast+
    have "lookup (fst (commit s w f)) = Some v \<or> lookup (fst (commit s w f)) = Some w"
      using commit_atomic [OF Cons.prems(1) w(1)] by simp
    then show ?thesis using Cons w Some ef by auto
  qed
qed auto

end

end
