(* ===== verification/Identifiers.thy ===== *)
theory Identifiers
  imports Prelude
begin

text \<open>
  The string validators the platform repeats: application identifiers (a loose form in
  \<open>release_state.cpp\<close>, \<open>state_store.cpp\<close> and \<open>package_verifier.cpp\<close>, a strict form in
  \<open>session_control.cpp\<close>), lower-case hexadecimal tokens, display text, and the fixed
  application names of the platform.
\<close>

section \<open>Application identifiers\<close>

definition dot :: char where "dot = CHR ''.''"
definition dash :: char where "dash = CHR ''-''"

text \<open>
  The character loop of the loose validator: \<open>separator\<close> says that the last character was
  \<open>.\<close> or \<open>-\<close>, \<open>has_separator\<close> that one of them occurred.
\<close>

fun app_id_loop :: "bool \<Rightarrow> bool \<Rightarrow> string \<Rightarrow> bool" where
  "app_id_loop separator has_separator [] = (has_separator \<and> \<not> separator)"
| "app_id_loop separator has_separator (c # cs) =
     (if c = dot \<or> c = dash
      then (if separator then False else app_id_loop True True cs)
      else if is_lower c \<or> is_digit c then app_id_loop False has_separator cs
      else False)"

definition state_app_id :: "string \<Rightarrow> bool" where
  "state_app_id v =
     (if v = [] \<or> 96 < length v \<or> hd v = dot \<or> last v = dot then False
      else app_id_loop False False v)"

definition safe_app_id :: "string \<Rightarrow> bool" where
  "safe_app_id v =
     (if v = [] \<or> 96 < length v \<or> hd v = dot \<or> last v = dot then False
      else app_id_loop False False v)"

definition package_app_id :: "string \<Rightarrow> bool" where
  "package_app_id v =
     (if v = [] \<or> 96 < length v \<or> hd v = dot \<or> last v = dot then False
      else app_id_loop False False v)"

text \<open>The strict form: at most 95 characters, and a dot must occur.\<close>

fun session_app_id_loop :: "bool \<Rightarrow> bool \<Rightarrow> string \<Rightarrow> bool" where
  "session_app_id_loop separator has_dot [] = (has_dot \<and> \<not> separator)"
| "session_app_id_loop separator has_dot (c # cs) =
     (if c = dot \<or> c = dash
      then (if separator then False else session_app_id_loop True (has_dot \<or> c = dot) cs)
      else if is_lower c \<or> is_digit c then session_app_id_loop False has_dot cs
      else False)"

definition kSessionControlAppIdSize :: nat where
  "kSessionControlAppIdSize = 96"

definition valid_session_app_id :: "string \<Rightarrow> bool" where
  "valid_session_app_id v =
     (if v = [] \<or> kSessionControlAppIdSize \<le> length v \<or> hd v = dot \<or> last v = dot then False
      else session_app_id_loop False False v)"

lemma dot_dash_classes [simp]:
  "\<not> is_lower dot" "\<not> is_digit dot" "\<not> is_lower dash" "\<not> is_digit dash" "dot \<noteq> dash" "dash \<noteq> dot"
  by (simp_all add: dot_def dash_def is_lower_def is_digit_def code_def)

lemma app_id_loop_False:
  "app_id_loop sep False cs \<longleftrightarrow> app_id_loop sep True cs \<and> (dot \<in> set cs \<or> dash \<in> set cs)"
  by (induction cs arbitrary: sep) auto

lemma session_app_id_loop_True: "session_app_id_loop sep True cs \<longleftrightarrow> app_id_loop sep True cs"
  by (induction cs arbitrary: sep) auto

lemma session_app_id_loop_False:
  "session_app_id_loop sep False cs \<longleftrightarrow> app_id_loop sep True cs \<and> dot \<in> set cs"
  by (induction cs arbitrary: sep) (auto simp: session_app_id_loop_True)

lemma app_id_loop_chars:
  "app_id_loop sep has cs \<Longrightarrow> c \<in> set cs \<Longrightarrow> c = dot \<or> c = dash \<or> is_lower c \<or> is_digit c"
  by (induction sep has cs rule: app_id_loop.induct) (auto split: if_splits)

text \<open>The strict validator is the loose one, restricted.\<close>

lemma valid_session_app_id_iff:
  "valid_session_app_id v \<longleftrightarrow> package_app_id v \<and> length v < 96 \<and> dot \<in> set v"
  by (auto simp: valid_session_app_id_def package_app_id_def kSessionControlAppIdSize_def
      app_id_loop_False session_app_id_loop_False)

lemma app_id_validators_agree: "state_app_id = package_app_id" "safe_app_id = package_app_id"
  by (simp_all add: fun_eq_iff state_app_id_def safe_app_id_def package_app_id_def)

lemma package_app_id_nonempty: "package_app_id v \<Longrightarrow> v \<noteq> []"
  by (auto simp: package_app_id_def)

lemma package_app_id_length: "package_app_id v \<Longrightarrow> length v \<le> 96"
  by (auto simp: package_app_id_def split: if_splits)

lemma valid_session_app_id_nonempty [simp]: "\<not> valid_session_app_id []"
  by (simp add: valid_session_app_id_def)

lemma valid_session_app_id_length: "valid_session_app_id v \<Longrightarrow> length v < 96"
  by (simp add: valid_session_app_id_iff)

text \<open>
  An identifier that any validator accepts is a safe single path component: it is neither
  empty, \<open>.\<close> nor \<open>..\<close>, and it contains no slash and no null byte.
\<close>

definition safe_component_name :: "string \<Rightarrow> bool" where
  "safe_component_name v \<longleftrightarrow> v \<noteq> [] \<and> v \<noteq> ''.'' \<and> v \<noteq> ''..'' \<and> CHR ''/'' \<notin> set v \<and> CHR 0x00 \<notin> set v"

lemma package_app_id_safe_component:
  assumes "package_app_id v"
  shows "safe_component_name v"
proof -
  have loop: "app_id_loop False False v" and ends: "v \<noteq> []" "hd v \<noteq> dot"
    using assms by (auto simp: package_app_id_def split: if_splits)
  have chars: "c \<in> set v \<Longrightarrow> c = dot \<or> c = dash \<or> is_lower c \<or> is_digit c" for c
    using app_id_loop_chars [OF loop] .
  have "CHR ''/'' \<notin> set v" "CHR 0x00 \<notin> set v"
    using chars [of "CHR ''/''"] chars [of "CHR 0x00"]
    by (auto simp: dot_def dash_def is_lower_def is_digit_def code_def)
  with ends show ?thesis by (auto simp: safe_component_name_def dot_def)
qed

section \<open>Tokens and display text\<close>

definition hex_token :: "nat \<Rightarrow> string \<Rightarrow> bool" where
  "hex_token n v \<longleftrightarrow> length v = n \<and> list_all is_hex_lower v"

definition is_control :: "char \<Rightarrow> bool" where
  "is_control c \<longleftrightarrow> code c < 0x20 \<or> code c = 0x7f"

text \<open>The names \<open>sessiond\<close> treats specially.\<close>

definition app_platform :: string where "app_platform = ''top.lvgl.platform''"
definition app_desktop :: string where "app_desktop = ''top.lvgl.desktop''"
definition app_installer :: string where "app_installer = ''top.lvgl.installer''"
definition app_game2048 :: string where "app_game2048 = ''top.lvgl.game2048''"

definition reserved_application_id :: "string \<Rightarrow> bool" where
  "reserved_application_id v \<longleftrightarrow> v = app_platform \<or> v = app_desktop \<or> v = app_installer"

lemma hex_char_lower [simp]: "n < 16 \<Longrightarrow> is_hex_lower (hex_char n)"
proof -
  have "list_all is_hex_lower ''0123456789abcdef''"
    by (simp add: is_hex_lower_def is_digit_def code_def)
  then show "n < 16 \<Longrightarrow> is_hex_lower (hex_char n)"
    unfolding hex_char_def list_all_length by simp
qed

lemma hex_of_bytes_token: "hex_token (2 * length bs) (hex_of_bytes bs)"
proof (induction bs)
  case Nil
  then show ?case by (simp add: hex_token_def hex_of_bytes_def)
next
  case (Cons b bs)
  have "unat (drop_bit 4 b) < 16"
  proof -
    have "unat b < 256" using unsigned_less [of b, where ?'a = nat] by simp
    then show ?thesis by (subst unat_drop_bit_eq) (simp add: drop_bit_eq_div)
  qed
  moreover have "unat (b AND 15) < 16"
    using word_and_le1 [of b 15] by (simp add: word_le_nat_alt)
  ultimately show ?case using Cons by (simp add: hex_token_def hex_of_bytes_def)
qed

section \<open>Properties\<close>


text \<open>The application ids the session accepts are the installable ones that also contain a dot and
  are shorter than 96 characters, and every installable id is a single safe path component.\<close>

theorem session_ids_are_installable:
  "(valid_session_app_id v \<longleftrightarrow> package_app_id v \<and> length v < 96 \<and> dot \<in> set v) \<and>
   (if package_app_id v then safe_component_name v else True)"
  using valid_session_app_id_iff package_app_id_safe_component by simp

end
