(* ===== verification/Json.thy ===== *)
theory Json
  imports Prelude
begin

text \<open>
  The JSON documents of package manifests and of device profiles, as the code sees them through
  RapidJSON, and the canonical rendering of \<open>platform/src/package/package_verifier.cpp\<close>. The
  parser itself is third-party code: the verifier takes it as a parameter. A number is an integer
  (what \<open>IsInt64\<close> or \<open>IsUint64\<close> accept, by its value) or another number, which the code never
  reads.
\<close>

datatype json =
    JNull
  | JBool bool
  | JString string
  | JInt int
  | JDouble
  | JArray "json list"
  | JObject "(string \<times> json) list"

section \<open>Accessors\<close>

fun is_object :: "json \<Rightarrow> bool" where
  "is_object (JObject _) = True"
| "is_object _ = False"

definition has_exact_members :: "json \<Rightarrow> string list \<Rightarrow> bool" where
  "has_exact_members v names =
     (case v of JObject ms \<Rightarrow>
        if length ms \<noteq> length names then False
        else list_all (\<lambda>name. map_of ms name \<noteq> None) names
      | _ \<Rightarrow> False)"

definition json_member :: "json \<Rightarrow> string \<Rightarrow> json option" where
  "json_member v name = (case v of JObject ms \<Rightarrow> map_of ms name | _ \<Rightarrow> None)"

text \<open>\<open>string_value\<close>: a string of bounded size without a null byte.\<close>

definition string_value :: "json option \<Rightarrow> nat \<Rightarrow> bool \<Rightarrow> string option" where
  "string_value v maximum allow_empty =
     (case v of Some (JString s) \<Rightarrow>
        if maximum < length s \<or> (\<not> allow_empty \<and> s = []) then None
        else if CHR 0x00 \<in> set s then None else Some s
      | _ \<Rightarrow> None)"

text \<open>\<open>IsUint\<close> / \<open>GetUint\<close> and \<open>IsUint64\<close> / \<open>GetUint64\<close>.\<close>

definition uint_value :: "json option \<Rightarrow> int option" where
  "uint_value v =
     (case v of Some (JInt n) \<Rightarrow> if 0 \<le> n \<and> n < 2 ^ 32 then Some n else None | _ \<Rightarrow> None)"

definition uint64_value :: "json option \<Rightarrow> int option" where
  "uint64_value v =
     (case v of Some (JInt n) \<Rightarrow> if 0 \<le> n \<and> n < 2 ^ 64 then Some n else None | _ \<Rightarrow> None)"

section \<open>The canonical rendering\<close>

definition canonical_char :: "char \<Rightarrow> string" where
  "canonical_char c =
     (if c = CHR 0x22 then [CHR 0x5C, CHR 0x22]
      else if c = CHR 0x5C then [CHR 0x5C, CHR 0x5C]
      else if c = CHR 0x08 then [CHR 0x5C, CHR ''b'']
      else if c = CHR 0x0C then [CHR 0x5C, CHR ''f'']
      else if c = CHR 0x0A then [CHR 0x5C, CHR ''n'']
      else if c = CHR 0x0D then [CHR 0x5C, CHR ''r'']
      else if c = CHR 0x09 then [CHR 0x5C, CHR ''t'']
      else if code c < 0x20
      then [CHR 0x5C, CHR ''u'', CHR ''0'', CHR ''0'', hex_char (code c div 16), hex_char (code c mod 16)]
      else [c])"

definition canonical_string :: "string \<Rightarrow> string" where
  "canonical_string s = [CHR 0x22] @ concat (map canonical_char s) @ [CHR 0x22]"

definition json_safe_max :: int where "json_safe_max = 9007199254740991"

definition canonical_int :: "int \<Rightarrow> string option" where
  "canonical_int n =
     (if - (2 ^ 63) \<le> n \<and> n < 2 ^ 63
      then (if n < - json_safe_max \<or> json_safe_max < n then None else Some (dec_string_int n))
      else if 0 \<le> n \<and> n < 2 ^ 64
      then (if json_safe_max < n then None else Some (dec_string_int n))
      else None)"

text \<open>
  The arguments \<open>first\<close> and \<open>previous\<close> of the loops are the local variables of the same names.
\<close>

fun canonical_json :: "json \<Rightarrow> string option"
  and canonical_items :: "bool \<Rightarrow> json list \<Rightarrow> string option"
  and canonical_members :: "bool \<Rightarrow> string \<Rightarrow> (string \<times> json) list \<Rightarrow> string option" where
  "canonical_json JNull = Some ''null''"
| "canonical_json (JBool b) = Some (if b then ''true'' else ''false'')"
| "canonical_json (JString s) = Some (canonical_string s)"
| "canonical_json (JInt n) = canonical_int n"
| "canonical_json JDouble = None"
| "canonical_json (JArray vs) =
     (case canonical_items True vs of None \<Rightarrow> None | Some t \<Rightarrow> Some (''['' @ t @ '']''))"
| "canonical_json (JObject ms) =
     (case canonical_members True [] ms of None \<Rightarrow> None | Some t \<Rightarrow> Some (''{'' @ t @ ''}''))"
| "canonical_items first [] = Some []"
| "canonical_items first (v # vs) =
     (case canonical_json v of None \<Rightarrow> None
      | Some t \<Rightarrow> (case canonical_items False vs of None \<Rightarrow> None
          | Some ts \<Rightarrow> Some ((if first then [] else '','') @ t @ ts)))"
| "canonical_members first previous [] = Some []"
| "canonical_members first previous ((name, v) # ms) =
     (if \<not> first \<and> name \<le> previous then None
      else case canonical_json v of None \<Rightarrow> None
      | Some t \<Rightarrow> (case canonical_members False name ms of None \<Rightarrow> None
          | Some ts \<Rightarrow> Some ((if first then [] else '','') @ canonical_string name @ '':'' @ t @ ts)))"

text \<open>In a canonical document every object has strictly increasing, hence distinct, member names.\<close>

lemma canonical_members_sorted:
  "canonical_members first previous ms = Some t \<Longrightarrow>
     sorted_wrt (<) (map fst ms) \<and> (\<not> first \<longrightarrow> (\<forall>name \<in> fst ` set ms. previous < name))"
proof (induction ms arbitrary: first previous t)
  case (Cons m ms)
  obtain name v where m: "m = (name, v)" by fastforce
  with Cons.prems obtain ts where "canonical_members False name ms = Some ts"
    and f: "\<not> first \<longrightarrow> previous < name"
    by (auto split: option.splits if_splits)
  with Cons.IH [OF this(1)] m show ?case by fastforce
qed simp

lemma canonical_object_distinct:
  "canonical_json (JObject ms) = Some t \<Longrightarrow> distinct (map fst ms)"
  by (auto split: option.splits dest!: canonical_members_sorted simp: strict_sorted_iff)

end
