(* ===== verification/Crypto.thy ===== *)
theory Crypto
  imports Prelude
begin

text \<open>
  The cryptographic provider (\<open>platform/src/crypto/crypto_provider.cpp\<close>). The OpenSSL library it
  loads at run time is not code of the repository: its digest and verification calls are the
  parameters of an \<open>evp_library\<close>. A digest call sequence yields the bytes \<open>EVP_DigestFinal_ex\<close>
  wrote, or nothing when one of the calls failed; the provider accepts it only at the size of
  the digest type.
\<close>

record evp_library =
  evp_sha256 :: "bytes \<Rightarrow> bytes option"
  evp_sha512 :: "bytes \<Rightarrow> bytes option"
  evp_verify :: "bytes \<Rightarrow> bytes \<Rightarrow> bytes \<Rightarrow> bool"

definition digest :: "nat \<Rightarrow> (bytes \<Rightarrow> bytes option) \<Rightarrow> bytes \<Rightarrow> bytes option" where
  "digest n evp data =
     (case evp data of None \<Rightarrow> None | Some d \<Rightarrow> if length d = n then Some d else None)"

definition sha256 :: "evp_library \<Rightarrow> bytes \<Rightarrow> bytes option" where
  "sha256 crypto data = digest 32 (evp_sha256 crypto) data"

definition sha512 :: "evp_library \<Rightarrow> bytes \<Rightarrow> bytes option" where
  "sha512 crypto data = digest 64 (evp_sha512 crypto) data"

definition verify_ed25519 :: "evp_library \<Rightarrow> bytes \<Rightarrow> bytes \<Rightarrow> bytes \<Rightarrow> bool" where
  "verify_ed25519 crypto key message signature = evp_verify crypto key message signature"

lemma sha256_length: "sha256 crypto data = Some d \<Longrightarrow> length d = 32"
  by (simp add: sha256_def digest_def split: option.splits if_splits)

lemma sha512_length: "sha512 crypto data = Some d \<Longrightarrow> length d = 64"
  by (simp add: sha512_def digest_def split: option.splits if_splits)

end
