(* ===== verification/Package_Verifier.thy ===== *)
theory Package_Verifier
  imports Identifiers Json Crypto "HOL-Library.Monad_Syntax"
begin

text \<open>
  The package verifier (\<open>platform/src/package/package_verifier.cpp\<close>): the 64-byte header, the
  canonical JSON manifest, the entry table, the payload hashes and the signature envelope of an
  application package, and the trust store that fixes the only production key
  (\<open>platform/src/trust/trust_store.cpp\<close>). Offsets and sizes stay 64-bit words. A read the C++
  would make outside the package buffer, where its behaviour is undefined, is the result
  \<open>Out_of_bounds\<close>, which the code does not have: it is unreachable for buffers of at least 96
  bytes, and reachable for shorter ones.
\<close>

section \<open>Data\<close>

definition kHeaderSize :: nat where "kHeaderSize = 64"
definition kSignatureSize :: nat where "kSignatureSize = 96"
definition kMaximumPackageSize :: nat where "kMaximumPackageSize = 268435456"
definition kMaximumManifestSize :: nat where "kMaximumManifestSize = 65536"
definition kMaximumFiles :: nat where "kMaximumFiles = 256"
definition kMaximumPathSize :: nat where "kMaximumPathSize = 240"
definition kDevelopmentFlag :: u32 where "kDevelopmentFlag = 1"
definition kPackageMagic :: bytes where "kPackageMagic = bytes_of ''LVAPP001''"
definition kSignatureMagic :: bytes where "kSignatureMagic = bytes_of ''LVSIG001''"
definition kSignatureDomain :: bytes where
  "kSignatureDomain = bytes_of ''LVAPP-SIGN-V1'' @ [0, 0, 0]"
definition kEd25519SpkiPrefix :: bytes where
  "kEd25519SpkiPrefix = [0x30, 0x2a, 0x30, 0x05, 0x06, 0x03, 0x2b, 0x65, 0x70, 0x03, 0x21, 0x00]"

lemmas package_constants = kHeaderSize_def kSignatureSize_def kMaximumPackageSize_def
  kMaximumManifestSize_def kMaximumFiles_def kMaximumPathSize_def

datatype package_status =
    Pkg_verified | Pkg_crypto_unavailable | Pkg_invalid_header | Pkg_invalid_layout
  | Pkg_invalid_manifest | Pkg_invalid_path | Pkg_invalid_entry | Pkg_content_hash_mismatch
  | Pkg_development_rejected | Pkg_signer_untrusted | Pkg_signature_invalid
  | Out_of_bounds

record trusted_key =
  tk_key :: bytes
  tk_production :: bool

record package_file =
  pf_path :: string
  pf_role :: string
  pf_mode :: u16
  pf_size :: u64
  pf_offset :: u64
  pf_sha256 :: bytes

record resource_limits =
  rl_memory_mib :: u32
  rl_cpu_seconds :: u32
  rl_maximum_files :: u32
  rl_data_mib :: u32

record package_manifest =
  pm_app_id :: string
  pm_name :: string
  pm_version :: string
  pm_entry :: string
  pm_sdk_abi :: string
  pm_minimum_platform_version :: string
  pm_signing_key_id :: string
  pm_release_counter :: u64
  pm_security_epoch :: u32
  pm_supported_profiles :: "string list"
  pm_supported_machines :: "string list"
  pm_capabilities :: "string list"
  pm_files :: "package_file list"
  pm_limits :: resource_limits

definition no_manifest :: package_manifest where
  "no_manifest = \<lparr>pm_app_id = [], pm_name = [], pm_version = [], pm_entry = [], pm_sdk_abi = [],
     pm_minimum_platform_version = [], pm_signing_key_id = [], pm_release_counter = 0,
     pm_security_epoch = 0, pm_supported_profiles = [], pm_supported_machines = [],
     pm_capabilities = [], pm_files = [],
     pm_limits = \<lparr>rl_memory_mib = 0, rl_cpu_seconds = 0, rl_maximum_files = 0, rl_data_mib = 0\<rparr>\<rparr>"

record package_verification =
  pv_status :: package_status
  pv_detail :: string
  pv_development :: bool
  pv_signature_verified :: bool
  pv_unsigned_size :: u64
  pv_payload_start :: u64
  pv_manifest :: package_manifest

definition pv_ok :: "package_verification \<Rightarrow> bool" where
  "pv_ok v \<longleftrightarrow> pv_status v = Pkg_verified"

definition package_failure :: "package_status \<Rightarrow> string \<Rightarrow> package_verification" where
  "package_failure status detail = \<lparr>pv_status = status, pv_detail = detail,
     pv_development = False, pv_signature_verified = False, pv_unsigned_size = 0,
     pv_payload_start = 0, pv_manifest = no_manifest\<rparr>"

definition checked_add :: "u64 \<Rightarrow> u64 \<Rightarrow> u64 option" where
  "checked_add left right = (if right > (- 1) - left then None else Some (left + right))"

section \<open>Field validators\<close>

fun semantic_version_loop :: "nat \<Rightarrow> bool \<Rightarrow> string \<Rightarrow> bool" where
  "semantic_version_loop dots digit [] = (dots = 2 \<and> digit)"
| "semantic_version_loop dots digit (c # cs) =
     (if c = dot then (if \<not> digit then False else semantic_version_loop (dots + 1) False cs)
      else if is_digit c then semantic_version_loop dots True cs
      else False)"

definition semantic_version :: "string \<Rightarrow> bool" where
  "semantic_version v = (if v = [] \<or> 32 < length v then False else semantic_version_loop 0 False v)"

definition slash :: char where "slash = CHR ''/''"

fun has_double_slash :: "string \<Rightarrow> bool" where
  "has_double_slash (a # b # cs) = ((a = slash \<and> b = slash) \<or> has_double_slash (b # cs))"
| "has_double_slash _ = False"

definition path_char :: "char \<Rightarrow> bool" where
  "path_char c \<longleftrightarrow> \<not> (code c < 0x20 \<or> code c = 0x7f \<or> c \<in> set [CHR '':'', CHR ''*'', CHR ''?'', CHR 0x22, CHR ''<'', CHR ''>'', CHR ''|''])"

definition valid_segment :: "string \<Rightarrow> bool" where
  "valid_segment s \<longleftrightarrow> \<not> (s = [] \<or> s = ''.'' \<or> s = ''..'' \<or> last s = dot) \<and> list_all path_char s"

text \<open>The loop over the segments, from the position \<open>start\<close> on.\<close>

function valid_segments :: "string \<Rightarrow> bool" where
  "valid_segments [] = True"
| "valid_segments (c # cs) =
     (let segment = takeWhile (\<lambda>x. x \<noteq> slash) (c # cs);
          rest = dropWhile (\<lambda>x. x \<noteq> slash) (c # cs)
      in if \<not> valid_segment segment then False
         else case rest of [] \<Rightarrow> True | _ # rest' \<Rightarrow> valid_segments rest')"
  by pat_completeness auto
termination
proof (relation "measure length")
  fix c cs segment rest s rest'
  assume "rest = dropWhile (\<lambda>x. x \<noteq> slash) (c # cs)" "rest = s # rest'"
  then have "length (s # rest') \<le> length (c # cs)"
    using length_dropWhile_le [of "\<lambda>x. x \<noteq> slash" "c # cs"] by metis
  then show "(rest', c # cs) \<in> measure length" by simp
qed simp

definition valid_path :: "string \<Rightarrow> bool" where
  "valid_path p =
     (if p = [] \<or> kMaximumPathSize < length p \<or> hd p = slash \<or> last p = slash \<or>
         CHR 0x5C \<in> set p \<or> has_double_slash p \<or> CHR 0x00 \<in> set p
      then False else valid_segments p)"

definition lowercase_hex :: "string \<Rightarrow> nat \<Rightarrow> bool" where
  "lowercase_hex v n \<longleftrightarrow> length v = n \<and> list_all (\<lambda>c. is_digit c \<or> (97 \<le> code c \<and> code c \<le> 102)) v"

definition hex_nibble :: "char \<Rightarrow> u8" where
  "hex_nibble c = (if code c \<le> 57 then word_of_nat (code c - 48) else word_of_nat (code c - 97 + 10))"

fun hex_pairs :: "string \<Rightarrow> bytes" where
  "hex_pairs (a # b # cs) = (push_bit 4 (hex_nibble a) OR hex_nibble b) # hex_pairs cs"
| "hex_pairs _ = []"

definition decode_hex_32 :: "string \<Rightarrow> bytes option" where
  "decode_hex_32 v = (if \<not> lowercase_hex v 64 then None else Some (hex_pairs v))"

fun sorted_strings :: "string \<Rightarrow> json list \<Rightarrow> string list option" where
  "sorted_strings previous [] = Some []"
| "sorted_strings previous (item # items) =
     (case string_value (Some item) 255 False of None \<Rightarrow> None
      | Some current \<Rightarrow>
          if previous \<noteq> [] \<and> current \<le> previous then None
          else (case sorted_strings current items of None \<Rightarrow> None | Some rest \<Rightarrow> Some (current # rest)))"

definition sorted_string_array :: "json option \<Rightarrow> bool \<Rightarrow> string list option" where
  "sorted_string_array v allow_empty =
     (case v of Some (JArray items) \<Rightarrow>
        if (\<not> allow_empty \<and> items = []) \<or> 64 < length items then None
        else sorted_strings [] items
      | _ \<Rightarrow> None)"

section \<open>The manifest\<close>

definition require :: "bool \<Rightarrow> unit option" where
  "require b = (if b then Some () else None)"

definition manifest_members :: "string list" where
  "manifest_members = [''appId'', ''capabilities'', ''entry'', ''files'', ''formatVersion'', ''limits'',
     ''minPlatformVersion'', ''name'', ''onlinePolicy'', ''releaseCounter'', ''sdkAbi'',
     ''securityEpoch'', ''signingKeyId'', ''supportedMachines'', ''supportedProfiles'', ''version'']"

definition allowed_capabilities :: "string list" where
  "allowed_capabilities = [''audio.output'', ''dictionary.lookup'', ''haptics'', ''microphone'',
     ''network'', ''scanner'', ''storage.private'']"

definition parse_limits :: "json \<Rightarrow> resource_limits option" where
  "parse_limits limits = do {
     require (has_exact_members limits [''cpuSeconds'', ''dataMiB'', ''maxFiles'', ''memoryMiB'']);
     memory \<leftarrow> uint_value (json_member limits ''memoryMiB'');
     require (8 \<le> memory \<and> memory \<le> 512);
     cpu \<leftarrow> uint_value (json_member limits ''cpuSeconds'');
     require (1 \<le> cpu \<and> cpu \<le> 86400);
     max_files \<leftarrow> uint_value (json_member limits ''maxFiles'');
     require (1 \<le> max_files \<and> max_files \<le> int kMaximumFiles);
     data \<leftarrow> uint_value (json_member limits ''dataMiB'');
     require (1 \<le> data \<and> data \<le> 4096);
     Some \<lparr>rl_memory_mib = word_of_int memory, rl_cpu_seconds = word_of_int cpu,
           rl_maximum_files = word_of_int max_files, rl_data_mib = word_of_int data\<rparr> }"

definition parse_file :: "string \<Rightarrow> json \<Rightarrow> package_file option" where
  "parse_file previous item = do {
     require (has_exact_members item [''mode'', ''path'', ''role'', ''sha256'', ''size'']);
     mode \<leftarrow> uint_value (json_member item ''mode'');
     require (mode = 420 \<or> mode = 493);
     size_value \<leftarrow> uint64_value (json_member item ''size'');
     require (size_value \<le> int kMaximumPackageSize);
     path \<leftarrow> string_value (json_member item ''path'') kMaximumPathSize False;
     role \<leftarrow> string_value (json_member item ''role'') 16 False;
     hash \<leftarrow> string_value (json_member item ''sha256'') 64 False;
     require (valid_path path);
     require (\<not> (previous \<noteq> [] \<and> path \<le> previous));
     require (role = ''asset'' \<or> role = ''executable'');
     sha \<leftarrow> decode_hex_32 hash;
     Some \<lparr>pf_path = path, pf_role = role, pf_mode = word_of_int mode,
           pf_size = word_of_int size_value, pf_offset = 0, pf_sha256 = sha\<rparr> }"

fun parse_files :: "string \<Rightarrow> string \<Rightarrow> bool \<Rightarrow> json list \<Rightarrow> (package_file list \<times> bool) option" where
  "parse_files entry previous entry_found [] = Some ([], entry_found)"
| "parse_files entry previous entry_found (item # items) =
     (case parse_file previous item of None \<Rightarrow> None
      | Some f \<Rightarrow>
          let found = (if pf_path f = entry
                then pf_role f = ''executable'' \<and> pf_mode f = 493 else entry_found)
          in (case parse_files entry (pf_path f) found items of None \<Rightarrow> None
              | Some (fs, result) \<Rightarrow> Some (f # fs, result)))"

definition parse_manifest :: "json \<Rightarrow> package_manifest option" where
  "parse_manifest d = do {
     require (has_exact_members d manifest_members);
     format \<leftarrow> uint_value (json_member d ''formatVersion'');
     require (format = 1);
     counter \<leftarrow> uint64_value (json_member d ''releaseCounter'');
     require (counter \<noteq> 0 \<and> counter \<le> json_safe_max);
     epoch \<leftarrow> uint_value (json_member d ''securityEpoch'');
     app \<leftarrow> string_value (json_member d ''appId'') 96 False;
     name \<leftarrow> string_value (json_member d ''name'') 64 False;
     version \<leftarrow> string_value (json_member d ''version'') 32 False;
     entry \<leftarrow> string_value (json_member d ''entry'') kMaximumPathSize False;
     abi \<leftarrow> string_value (json_member d ''sdkAbi'') 16 False;
     minimum \<leftarrow> string_value (json_member d ''minPlatformVersion'') 32 False;
     key \<leftarrow> string_value (json_member d ''signingKeyId'') 32 False;
     require (package_app_id app \<and> semantic_version version \<and> semantic_version minimum \<and>
       abi = ''1.0'' \<and> valid_path entry \<and> lowercase_hex key 32);
     profiles \<leftarrow> sorted_string_array (json_member d ''supportedProfiles'') False;
     machines \<leftarrow> sorted_string_array (json_member d ''supportedMachines'') False;
     capabilities \<leftarrow> sorted_string_array (json_member d ''capabilities'') True;
     require (list_all (\<lambda>c. c \<in> set allowed_capabilities) capabilities);
     limits_value \<leftarrow> json_member d ''limits'';
     online \<leftarrow> json_member d ''onlinePolicy'';
     require (has_exact_members online [''mode'']);
     limits \<leftarrow> parse_limits limits_value;
     mode \<leftarrow> string_value (json_member online ''mode'') 32 False;
     require (mode = ''offline-v1'');
     files_value \<leftarrow> json_member d ''files'';
     items \<leftarrow> (case files_value of JArray items \<Rightarrow> Some items | _ \<Rightarrow> None);
     require (items \<noteq> [] \<and> length items \<le> kMaximumFiles);
     (files, entry_found) \<leftarrow> parse_files entry [] False items;
     require entry_found;
     Some \<lparr>pm_app_id = app, pm_name = name, pm_version = version, pm_entry = entry,
           pm_sdk_abi = abi, pm_minimum_platform_version = minimum, pm_signing_key_id = key,
           pm_release_counter = word_of_int counter, pm_security_epoch = word_of_int epoch,
           pm_supported_profiles = profiles, pm_supported_machines = machines,
           pm_capabilities = capabilities, pm_files = files, pm_limits = limits\<rparr> }"

section \<open>The entry table\<close>

text \<open>
  One record of the table is 56 bytes followed by the path; \<open>table_entry\<close> is the loop body. The loop carries \<open>cursor\<close>,
  \<open>expected_offset\<close> and \<open>previous\<close>; it walks the manifest's files, whose number is the entry
  count by then. The result is the error, or the final cursor and offset and the files with
  their payload offsets.
\<close>

definition in_buffer :: "nat \<Rightarrow> nat \<Rightarrow> bytes \<Rightarrow> bool" where
  "in_buffer off n bs \<longleftrightarrow> off + n \<le> length bs"

definition table_entry :: "evp_library \<Rightarrow> bytes \<Rightarrow> u64 \<Rightarrow> u64 \<Rightarrow> u64 \<Rightarrow> u64 \<Rightarrow> string \<Rightarrow> package_file \<Rightarrow>
    (package_status \<times> string) + (u64 \<times> u64 \<times> string \<times> package_file)" where
  "table_entry crypto bs payload_start payload_size cursor expected_offset previous f =
     (if cursor > payload_start \<or> payload_start - cursor < 56
      then Inl (Pkg_invalid_entry, ''PACKAGE_TABLE_TRUNCATED'')
      else if \<not> in_buffer (unat cursor) 56 bs then Inl (Out_of_bounds, [])
      else
        let entry = unat cursor;
            path_size = get_le entry 2 bs :: u16;
            mode = get_le (entry + 2) 2 bs :: u16;
            entry_flags = get_le (entry + 4) 4 bs :: u32;
            file_size = get_le (entry + 8) 8 bs :: u64;
            offset = get_le (entry + 16) 8 bs :: u64;
            cursor = cursor + 56
        in if path_size = 0 \<or> kMaximumPathSize < unat path_size \<or> cursor > payload_start \<or>
              ucast path_size > payload_start - cursor \<or> entry_flags \<noteq> 0 \<or>
              (mode \<noteq> 420 \<and> mode \<noteq> 493) \<or> offset \<noteq> expected_offset \<or> offset > payload_size \<or>
              file_size > payload_size - offset
        then Inl (Pkg_invalid_entry, ''PACKAGE_ENTRY_INVALID'')
        else if \<not> in_buffer (unat cursor) (unat path_size) bs then Inl (Out_of_bounds, [])
        else
          let path = str_of (bytes_at (unat cursor) (unat path_size) bs)
          in if \<not> valid_path path then Inl (Pkg_invalid_path, ''PACKAGE_PATH_INVALID'')
          else if previous \<noteq> [] \<and> path \<le> previous
          then Inl (Pkg_invalid_entry, ''PACKAGE_ENTRY_ORDER_INVALID'')
          else if pf_path f \<noteq> path \<or> pf_mode f \<noteq> mode \<or> pf_size f \<noteq> file_size \<or>
                  pf_sha256 f \<noteq> bytes_at (entry + 24) 32 bs
          then Inl (Pkg_invalid_entry, ''PACKAGE_MANIFEST_TABLE_MISMATCH'')
          else if \<not> in_buffer (unat payload_start + unat offset) (unat file_size) bs
          then Inl (Out_of_bounds, [])
          else case sha256 crypto (bytes_at (unat payload_start + unat offset) (unat file_size) bs) of
            None \<Rightarrow> Inl (Pkg_crypto_unavailable, ''PACKAGE_CRYPTO_UNAVAILABLE'')
          | Some actual \<Rightarrow>
              if actual \<noteq> pf_sha256 f
              then Inl (Pkg_content_hash_mismatch, ''PACKAGE_CONTENT_HASH_MISMATCH'')
              else Inr (cursor + ucast path_size, expected_offset + file_size, path,
                        f\<lparr>pf_offset := offset\<rparr>))"

fun table_loop :: "evp_library \<Rightarrow> bytes \<Rightarrow> u64 \<Rightarrow> u64 \<Rightarrow> u64 \<Rightarrow> u64 \<Rightarrow> string \<Rightarrow> package_file list \<Rightarrow>
    (package_status \<times> string) + (u64 \<times> u64 \<times> package_file list)" where
  "table_loop crypto bs payload_start payload_size cursor expected_offset previous [] =
     Inr (cursor, expected_offset, [])"
| "table_loop crypto bs payload_start payload_size cursor expected_offset previous (f # fs) =
     (case table_entry crypto bs payload_start payload_size cursor expected_offset previous f of
        Inl e \<Rightarrow> Inl e
      | Inr (cursor', expected', path, f') \<Rightarrow>
          (case table_loop crypto bs payload_start payload_size cursor' expected' path fs of
             Inl e \<Rightarrow> Inl e
           | Inr (c, x, rest) \<Rightarrow> Inr (c, x, f' # rest)))"

section \<open>The signature\<close>

definition key_id :: "evp_library \<Rightarrow> bytes \<Rightarrow> bytes option" where
  "key_id crypto key =
     (case sha256 crypto (kEd25519SpkiPrefix @ key) of None \<Rightarrow> None | Some d \<Rightarrow> Some (take 16 d))"

text \<open>
  The search of the signer. When the digest fails, the code compares an all-zero identifier but
  returns \<open>crypto_unavailable\<close> on either branch.
\<close>

fun find_signer :: "evp_library \<Rightarrow> bytes \<Rightarrow> trusted_key list \<Rightarrow> (package_status \<times> string) + trusted_key option" where
  "find_signer crypto envelope_key_id [] = Inr None"
| "find_signer crypto envelope_key_id (k # ks) =
     (case key_id crypto (tk_key k) of
        None \<Rightarrow> Inl (Pkg_crypto_unavailable, ''PACKAGE_CRYPTO_UNAVAILABLE'')
      | Some i \<Rightarrow> if i = envelope_key_id then Inr (Some k)
                  else find_signer crypto envelope_key_id ks)"

text \<open>What the signature covers: the domain string and the SHA-512 of the unsigned bytes.\<close>

definition signed_message :: "bytes \<Rightarrow> bytes" where
  "signed_message unsigned_digest = kSignatureDomain @ unsigned_digest"

definition verify_signature ::
    "bytes \<Rightarrow> evp_library \<Rightarrow> trusted_key list \<Rightarrow> nat \<Rightarrow> string \<Rightarrow> (package_status \<times> string) + unit" where
  "verify_signature bs crypto trusted_keys envelope signing_key_id =
     (if \<not> in_buffer envelope 96 bs then Inl (Out_of_bounds, [])
      else if bytes_at envelope 8 bs \<noteq> kSignatureMagic \<or>
         get_le (envelope + 8) 2 bs \<noteq> (1 :: u16) \<or> get_le (envelope + 10) 2 bs \<noteq> (1 :: u16) \<or>
         get_le (envelope + 92) 4 bs \<noteq> (0 :: u32)
      then Inl (Pkg_signature_invalid, ''PACKAGE_SIGNATURE_ENVELOPE_INVALID'')
      else let envelope_key_id = bytes_at (envelope + 12) 16 bs
      in if hex_of_bytes envelope_key_id \<noteq> signing_key_id
      then Inl (Pkg_signature_invalid, ''PACKAGE_SIGNATURE_KEY_ID_MISMATCH'')
      else case find_signer crypto envelope_key_id trusted_keys of
        Inl e \<Rightarrow> Inl e
      | Inr None \<Rightarrow> Inl (Pkg_signer_untrusted, ''PACKAGE_SIGNER_UNTRUSTED'')
      | Inr (Some signer) \<Rightarrow>
          if \<not> tk_production signer then Inl (Pkg_signer_untrusted, ''PACKAGE_SIGNER_UNTRUSTED'')
          else case sha512 crypto (take envelope bs) of
            None \<Rightarrow> Inl (Pkg_crypto_unavailable, ''PACKAGE_CRYPTO_UNAVAILABLE'')
          | Some unsigned_digest \<Rightarrow>
              if \<not> verify_ed25519 crypto (tk_key signer) (signed_message unsigned_digest)
                     (bytes_at (envelope + 28) 64 bs)
              then Inl (Pkg_signature_invalid, ''PACKAGE_SIGNATURE_INVALID'')
              else Inr ())"

section \<open>The whole package\<close>

definition package_layout_ok :: "bytes \<Rightarrow> bool \<Rightarrow> bool" where
  "package_layout_ok bs development =
     (let manifest_size = get_le 16 4 bs :: u32;
          entry_count = get_le 20 4 bs :: u32;
          table_size = get_le 24 8 bs :: u64;
          payload_size = get_le 32 8 bs :: u64;
          unsigned_size = get_le 40 8 bs :: u64;
          total_size = get_le 48 8 bs :: u64
      in manifest_size > 0 \<and> unat manifest_size \<le> kMaximumManifestSize \<and>
         entry_count > 0 \<and> unat entry_count \<le> kMaximumFiles \<and>
         get_le 56 4 bs = (1 :: u32) \<and> get_le 60 4 bs = (0 :: u32) \<and>
         (case checked_add (word_of_nat kHeaderSize) (ucast manifest_size) of None \<Rightarrow> False
          | Some a \<Rightarrow> (case checked_add a table_size of None \<Rightarrow> False
          | Some b \<Rightarrow> (case checked_add b payload_size of None \<Rightarrow> False
          | Some expected_unsigned \<Rightarrow>
              expected_unsigned = unsigned_size \<and> unat total_size = length bs \<and>
              total_size = unsigned_size + (if development then 0 else word_of_nat kSignatureSize)))))"

definition verify_package ::
    "(bytes \<Rightarrow> json option) \<Rightarrow> evp_library \<Rightarrow> bytes \<Rightarrow> trusted_key list \<Rightarrow> bool \<Rightarrow> package_verification" where
  "verify_package parse crypto bs trusted_keys allow_development =
     (if length bs < kHeaderSize \<or> kMaximumPackageSize + kSignatureSize < length bs \<or>
         bytes_at 0 8 bs \<noteq> kPackageMagic \<or> get_le 8 2 bs \<noteq> (1 :: u16) \<or>
         get_le 10 2 bs \<noteq> (word_of_nat kHeaderSize :: u16)
      then package_failure Pkg_invalid_header ''PACKAGE_HEADER_INVALID''
      else let flags = get_le 12 4 bs :: u32 in
      if flags \<noteq> 0 \<and> flags \<noteq> kDevelopmentFlag
      then package_failure Pkg_invalid_header ''PACKAGE_FLAGS_INVALID''
      else let development = (flags = kDevelopmentFlag) in
      if development \<and> \<not> allow_development
      then (package_failure Pkg_development_rejected ''PACKAGE_DEVELOPMENT_REJECTED'')
             \<lparr>pv_development := True\<rparr>
      else if \<not> package_layout_ok bs development
      then package_failure Pkg_invalid_layout ''PACKAGE_LAYOUT_INVALID''
      else
        let manifest_size = get_le 16 4 bs :: u32;
            entry_count = get_le 20 4 bs :: u32;
            table_size = get_le 24 8 bs :: u64;
            payload_size = get_le 32 8 bs :: u64;
            unsigned_size = get_le 40 8 bs :: u64;
            manifest_bytes = bytes_at kHeaderSize (unat manifest_size) bs
        in if \<not> in_buffer kHeaderSize (unat manifest_size) bs then package_failure Out_of_bounds []
        else case parse manifest_bytes of
          None \<Rightarrow> package_failure Pkg_invalid_manifest ''PACKAGE_MANIFEST_NON_CANONICAL''
        | Some document \<Rightarrow>
            if \<not> is_object document \<or> map_option bytes_of (canonical_json document) \<noteq> Some manifest_bytes
            then package_failure Pkg_invalid_manifest ''PACKAGE_MANIFEST_NON_CANONICAL''
            else case parse_manifest document of
              None \<Rightarrow> package_failure Pkg_invalid_manifest ''PACKAGE_MANIFEST_INVALID''
            | Some manifest \<Rightarrow>
              if length (pm_files manifest) \<noteq> unat entry_count
              then package_failure Pkg_invalid_manifest ''PACKAGE_MANIFEST_FILE_COUNT_MISMATCH''
              else if development \<and> pm_signing_key_id manifest \<noteq> replicate 32 (CHR ''0'')
              then package_failure Pkg_invalid_manifest ''PACKAGE_DEVELOPMENT_KEY_ID_INVALID''
              else if \<not> development \<and> pm_signing_key_id manifest = replicate 32 (CHR ''0'')
              then package_failure Pkg_invalid_manifest ''PACKAGE_SIGNING_KEY_ID_INVALID''
              else
                let table_start = word_of_nat kHeaderSize + ucast manifest_size :: u64;
                    payload_start = table_start + table_size
                in case table_loop crypto bs payload_start payload_size table_start 0 []
                          (pm_files manifest) of
                  Inl (status, detail) \<Rightarrow> package_failure status detail
                | Inr (cursor, expected_offset, files) \<Rightarrow>
                    if cursor \<noteq> payload_start \<or> expected_offset \<noteq> payload_size
                    then package_failure Pkg_invalid_entry ''PACKAGE_TABLE_SIZE_MISMATCH''
                    else
                      let result = \<lparr>pv_status = Pkg_verified,
                            pv_detail = ''PACKAGE_DEVELOPMENT_STRUCTURALLY_VERIFIED'',
                            pv_development = development, pv_signature_verified = False,
                            pv_unsigned_size = unsigned_size, pv_payload_start = payload_start,
                            pv_manifest = manifest\<lparr>pm_files := files\<rparr>\<rparr>
                      in if development then result
                      else case verify_signature bs crypto trusted_keys (unat unsigned_size)
                                  (pm_signing_key_id manifest) of
                        Inl (status, detail) \<Rightarrow> package_failure status detail
                      | Inr _ \<Rightarrow> result\<lparr>pv_detail := ''PACKAGE_VERIFIED'',
                                        pv_signature_verified := True\<rparr>)"

section \<open>The trust store\<close>

definition trust_nibble :: "char \<Rightarrow> u8" where
  "trust_nibble c = (if is_digit c then word_of_nat (code c - 48)
     else if 97 \<le> code c \<and> code c \<le> 102 then word_of_nat (code c - 97 + 10) else 0xff)"

fun decode_key_pairs :: "string \<Rightarrow> bytes option" where
  "decode_key_pairs [] = Some []"
| "decode_key_pairs [_] = None"
| "decode_key_pairs (a # b # cs) =
     (let high = trust_nibble a; low = trust_nibble b in
      if high = 0xff \<or> low = 0xff then None
      else case decode_key_pairs cs of None \<Rightarrow> None
           | Some rest \<Rightarrow> Some ((push_bit 4 high OR low) # rest))"

definition decode_public_key :: "string \<Rightarrow> bytes option" where
  "decode_public_key hex = (if length hex \<noteq> 64 then None else decode_key_pairs hex)"

text \<open>
  \<open>OfficialTrustStore\<close>: \<open>None\<close> when the key the build configured
  (\<open>kOfficialReleasePublicKeyHex\<close>) does not decode.
\<close>

type_synonym trust_store = "bytes option"

definition compiled_trust_store :: "string \<Rightarrow> trust_store" where
  "compiled_trust_store hex = decode_public_key hex"

definition trust_verify ::
    "trust_store \<Rightarrow> (bytes \<Rightarrow> json option) \<Rightarrow> evp_library \<Rightarrow> bytes \<Rightarrow> package_verification" where
  "trust_verify store parse crypto bs =
     (case store of
        None \<Rightarrow> package_failure Pkg_signer_untrusted ''TRUST_OFFICIAL_KEY_UNCONFIGURED''
      | Some key \<Rightarrow> verify_package parse crypto bs [\<lparr>tk_key = key, tk_production = True\<rparr>] False)"

section \<open>Bounds\<close>

text \<open>Files laid out one after the other in the payload, each with the recorded hash.\<close>

fun files_placed :: "evp_library \<Rightarrow> bytes \<Rightarrow> nat \<Rightarrow> nat \<Rightarrow> package_file list \<Rightarrow> nat \<Rightarrow> bool" where
  "files_placed crypto bs start off [] last_off = (off = last_off)"
| "files_placed crypto bs start off (f # fs) last_off =
     (unat (pf_offset f) = off \<and>
      sha256 crypto (bytes_at (start + off) (unat (pf_size f)) bs) = Some (pf_sha256 f) \<and>
      files_placed crypto bs start (off + unat (pf_size f)) fs last_off)"

definition same_files :: "package_file list \<Rightarrow> package_file list \<Rightarrow> bool" where
  "same_files fs gs \<longleftrightarrow> list_all2 (\<lambda>f g. g = f\<lparr>pf_offset := pf_offset g\<rparr>) fs gs"

lemma u64_room:
  fixes a b s :: u64
  assumes "\<not> a > s" "\<not> b > s - a"
  shows "unat a + unat b \<le> unat s" "unat (a + b) = unat a + unat b"
proof -
  show le: "unat a + unat b \<le> unat s"
    using assms by (simp add: not_less word_le_nat_alt unat_sub)
  then have "unat a + unat b < 2 ^ 64"
    using unsigned_less [of s, where ?'a = nat] by simp
  then show "unat (a + b) = unat a + unat b"
    by (simp add: unat_word_ariths)
qed


lemma table_entry_in_bounds:
  assumes room: "unat payload_start + unat payload_size \<le> length bs"
  shows "table_entry crypto bs payload_start payload_size cursor expected previous f \<noteq> Inl (Out_of_bounds, d)"
proof (cases "cursor > payload_start \<or> payload_start - cursor < 56")
  case False
  then have c56: "unat (cursor + 56) = unat cursor + 56" "unat cursor + 56 \<le> unat payload_start"
    using u64_room [of payload_start cursor 56] by simp_all
  let ?p = "get_le (unat cursor) 2 bs :: u16" and ?o = "get_le (unat cursor + 16) 8 bs :: u64"
    and ?z = "get_le (unat cursor + 8) 8 bs :: u64"
  have b1: "in_buffer (unat cursor) 56 bs" using c56 room by (simp add: in_buffer_def)
  have b2: "in_buffer (unat (cursor + 56)) (unat ?p) bs"
    if "\<not> cursor + 56 > payload_start" "\<not> ucast ?p > payload_start - (cursor + 56)"
    using u64_room(1) [OF that] room by (simp add: in_buffer_def unat_ucast_up)
  have b3: "in_buffer (unat payload_start + unat ?o) (unat ?z) bs"
    if "\<not> ?o > payload_size" "\<not> ?z > payload_size - ?o"
    using u64_room(1) [OF that] room by (simp add: in_buffer_def)
  show ?thesis
  proof
    assume "table_entry crypto bs payload_start payload_size cursor expected previous f = Inl (Out_of_bounds, d)"
    then show False
      using False b1 b2 b3
      by (simp add: table_entry_def Let_def split: if_split_asm option.split_asm)
  qed
qed (simp add: table_entry_def)

lemma table_entry_Inr:
  assumes r: "table_entry crypto bs payload_start payload_size cursor expected previous f = Inr (c, x, path, g)"
  shows "g = f\<lparr>pf_offset := expected\<rparr>" "path = pf_path f" "valid_path path"
    "previous = [] \<or> previous < path" "x = expected + pf_size f"
    "unat x = unat expected + unat (pf_size f)" "unat x \<le> unat payload_size"
    "sha256 crypto (bytes_at (unat payload_start + unat expected) (unat (pf_size f)) bs) = Some (pf_sha256 f)"
proof -
  let ?o = "get_le (unat cursor + 16) 8 bs :: u64" and ?z = "get_le (unat cursor + 8) 8 bs :: u64"
  have all: "?o = expected" "\<not> ?o > payload_size" "\<not> ?z > payload_size - ?o" "pf_size f = ?z"
     "g = f\<lparr>pf_offset := expected\<rparr> \<and> path = pf_path f \<and> valid_path path \<and> 
      (previous = [] \<or> previous < path) \<and> x = expected + pf_size f \<and>
      sha256 crypto (bytes_at (unat payload_start + unat expected) (unat (pf_size f)) bs) = Some (pf_sha256 f)"
    using r by (simp_all add: table_entry_def Let_def split: if_split_asm option.split_asm) auto
  then show "g = f\<lparr>pf_offset := expected\<rparr>" "path = pf_path f" "valid_path path"
    "previous = [] \<or> previous < path" "x = expected + pf_size f"
    "sha256 crypto (bytes_at (unat payload_start + unat expected) (unat (pf_size f)) bs) = Some (pf_sha256 f)"
    by blast+
  show "unat x = unat expected + unat (pf_size f)" "unat x \<le> unat payload_size"
    using u64_room [OF all(2,3)] all by simp_all
qed

lemma table_loop_in_bounds:
  assumes "unat payload_start + unat payload_size \<le> length bs"
  shows "table_loop crypto bs payload_start payload_size cursor expected previous fs \<noteq> Inl (Out_of_bounds, d)"
  using table_entry_in_bounds [OF assms]
  by (induction fs arbitrary: cursor expected previous) (auto split: sum.splits)

lemma table_loop_Inr:
  assumes "table_loop crypto bs payload_start payload_size cursor expected previous fs = Inr (c, x, gs)"
  shows "same_files fs gs \<and> files_placed crypto bs (unat payload_start) (unat expected) gs (unat x) \<and>
    sorted_wrt (<) (map pf_path gs) \<and> list_all (\<lambda>g. valid_path (pf_path g)) gs \<and>
    (previous = [] \<or> list_all (\<lambda>g. previous < pf_path g) gs)"
  using assms
proof (induction fs arbitrary: cursor expected previous c x gs)
  case Nil
  then show ?case by (simp add: same_files_def)
next
  case (Cons f fs)
  then obtain c' x' path g hs where e: "table_entry crypto bs payload_start payload_size cursor expected previous f = Inr (c', x', path, g)"
    and l: "table_loop crypto bs payload_start payload_size c' x' path fs = Inr (c, x, hs)" and gs: "gs = g # hs"
    by (auto split: sum.splits)
  note E = table_entry_Inr [OF e] and L = Cons.IH [OF l]
  have "path \<noteq> []" using E(3) by (auto simp: valid_path_def)
  with L have later: "list_all (\<lambda>h. path < pf_path h) hs" by simp
  then have "previous = [] \<or> list_all (\<lambda>h. previous < pf_path h) hs"
    using E(4) by (auto simp: list_all_iff intro: less_trans)
  with E L later gs show ?case
    by (auto simp: same_files_def list_all_iff)
qed

lemma checked_add_SomeD: "checked_add a b = Some c \<Longrightarrow> unat c = unat a + unat b"
  using u64_room(2) [of "- 1" a b] by (auto simp: checked_add_def not_less split: if_splits)

lemma package_layout_okD:
  assumes "package_layout_ok bs dev" and room: "dev \<or> 96 \<le> length bs"
  defines "ms \<equiv> get_le 16 4 bs :: u32" and "ts \<equiv> get_le 24 8 bs :: u64"
    and "ps \<equiv> get_le 32 8 bs :: u64" and "us \<equiv> get_le 40 8 bs :: u64"
  shows "unat (64 + ucast ms + ts) = 64 + unat ms + unat ts"
    "unat us = 64 + unat ms + unat ts + unat ps"
    "length bs = unat us + (if dev then 0 else 96)"
proof -
  obtain a b where a: "checked_add 64 (ucast ms) = Some a" and b: "checked_add a ts = Some b"
    and u: "checked_add b ps = Some us" and len: "unat (get_le 48 8 bs :: u64) = length bs"
    and total: "get_le 48 8 bs = us + (if dev then 0 else 96)"
    using assms(1) unfolding package_layout_ok_def Let_def kHeaderSize_def kSignatureSize_def
        of_nat_numeral ms_def ts_def ps_def us_def by (auto split: option.splits)
  have ab: "a = 64 + ucast ms" "b = a + ts"
    using a b by (simp_all add: checked_add_def split: if_splits)
  have ms: "unat (ucast ms :: u64) = unat ms" by (rule unat_ucast_up) simp
  have na: "unat a = 64 + unat ms" using checked_add_SomeD [OF a] ms by simp
  show 1: "unat (64 + ucast ms + ts) = 64 + unat ms + unat ts"
    using checked_add_SomeD [OF b] na ab by simp
  show 2: "unat us = 64 + unat ms + unat ts + unat ps"
    using checked_add_SomeD [OF u] ab 1 by simp
  show "length bs = unat us + (if dev then 0 else 96)"
  proof (cases dev)
    case True
    with len total show ?thesis by simp
  next
    case False
    with len total have l: "length bs = (unat us + 96) mod 2 ^ 64"
      by (simp add: unat_word_ariths)
    have "unat us < 2 ^ 64" using unsigned_less [of us, where ?'a = nat] by simp
    moreover have "(unat us + 96) mod 2 ^ 64 = (unat us + 96 - 2 ^ 64) mod 2 ^ 64" if "2 ^ 64 \<le> unat us + 96"
      using that by (rule le_mod_geq)
    ultimately have "unat us + 96 < 2 ^ 64"
      using room False l by (cases "unat us + 96 < 2 ^ 64") simp_all
    with l False show ?thesis by simp
  qed
qed

text \<open>No read of the verifier leaves a buffer of at least 96 bytes.\<close>

lemma verify_signature_in_bounds:
  "in_buffer envelope 96 bs \<Longrightarrow> verify_signature bs crypto keys envelope k \<noteq> Inl (Out_of_bounds, d)"
proof -
  have "find_signer crypto i keys \<noteq> Inl (Out_of_bounds, d)" for i
    by (induction keys) (auto split: option.splits)
  then show "in_buffer envelope 96 bs \<Longrightarrow> ?thesis"
    by (auto simp: verify_signature_def Let_def split: option.splits sum.splits if_splits)
qed

lemma package_failure_status [simp]: "pv_status (package_failure s d) = s"
  by (simp add: package_failure_def)

text \<open>On any file of at least 96 bytes the verifier reads only inside it.\<close>

lemma long_package_in_bounds:
  assumes "96 \<le> length bs"
  shows "pv_status (verify_package parse crypto bs keys dev) \<noteq> Out_of_bounds"
proof
  assume oob: "pv_status (verify_package parse crypto bs keys dev) = Out_of_bounds"
  let ?dev = "get_le 12 4 bs = kDevelopmentFlag"
  let ?ms = "get_le 16 4 bs :: u32" and ?ts = "get_le 24 8 bs :: u64"
    and ?ps = "get_le 32 8 bs :: u64" and ?us = "get_le 40 8 bs :: u64"
  from oob have lay: "package_layout_ok bs ?dev"
    by (simp add: verify_package_def Let_def split: if_splits)
  note L = package_layout_okD [OF lay disjI2 [OF assms]]
  have m: "in_buffer 64 (unat ?ms) bs" using L(2,3) by (simp add: in_buffer_def split: if_splits)
  have t: "table_loop crypto bs (64 + ucast ?ms + ?ts) ?ps c x p fs \<noteq> Inl (Out_of_bounds, d)" for c x p fs d
    using L by (intro table_loop_in_bounds) (simp split: if_splits)
  have s: "verify_signature bs crypto keys (unat ?us) k \<noteq> Inl (Out_of_bounds, d)" if "\<not> ?dev" for k d
    using that L by (intro verify_signature_in_bounds) (simp add: in_buffer_def)
  from oob lay m t s show False
    by (simp add: verify_package_def Let_def kHeaderSize_def split: if_splits option.splits sum.splits prod.splits)
qed


section \<open>What a verified package is\<close>

text \<open>The signature of a trusted production key over everything before the envelope.\<close>

definition signed_package :: "evp_library \<Rightarrow> trusted_key list \<Rightarrow> bytes \<Rightarrow> string \<Rightarrow> bool" where
  "signed_package crypto keys bs signing_key_id \<longleftrightarrow>
     (\<exists>k \<in> set keys. tk_production k \<and>
       map_option hex_of_bytes (key_id crypto (tk_key k)) = Some signing_key_id \<and>
       (\<exists>d. sha512 crypto (take (length bs - 96) bs) = Some d \<and>
            verify_ed25519 crypto (tk_key k) (signed_message d) (bytes_at (length bs - 68) 64 bs)))"

definition package_contents :: "(bytes \<Rightarrow> json option) \<Rightarrow> evp_library \<Rightarrow> bytes \<Rightarrow> package_verification \<Rightarrow> bool" where
  "package_contents parse crypto bs v \<longleftrightarrow>
     (let n = unat (get_le 16 4 bs :: u32); start = unat (pv_payload_start v);
          files = pm_files (pv_manifest v) in
      (\<exists>document m. parse (bytes_at 64 n bs) = Some document \<and>
         canonical_json document = Some (str_of (bytes_at 64 n bs)) \<and>
         parse_manifest document = Some m \<and> pv_manifest v = m\<lparr>pm_files := files\<rparr> \<and>
         same_files (pm_files m) files) \<and>
      start \<le> unat (pv_unsigned_size v) \<and>
      files_placed crypto bs start 0 files (unat (pv_unsigned_size v) - start) \<and>
      sorted_wrt (<) (map pf_path files) \<and> list_all (\<lambda>f. valid_path (pf_path f)) files)"

lemma find_signer_sound:
  "find_signer crypto i keys = Inr (Some k) \<Longrightarrow> k \<in> set keys \<and> key_id crypto (tk_key k) = Some i"
  by (induction keys) (auto split: option.splits if_splits)

lemma verify_signature_sound:
  assumes "verify_signature bs crypto keys envelope signing_key_id = Inr u" "length bs = envelope + 96"
  shows "signed_package crypto keys bs signing_key_id"
proof -
  from assms obtain k d where "find_signer crypto (bytes_at (envelope + 12) 16 bs) keys = Inr (Some k)"
    "hex_of_bytes (bytes_at (envelope + 12) 16 bs) = signing_key_id" "tk_production k"
    "sha512 crypto (take envelope bs) = Some d"
    "verify_ed25519 crypto (tk_key k) (signed_message d) (bytes_at (envelope + 28) 64 bs)"
    by (auto simp: verify_signature_def Let_def split: if_splits sum.splits option.splits)
  moreover have "envelope + 28 = length bs - 68" "envelope = length bs - 96" using assms(2) by simp_all
  ultimately show ?thesis
    unfolding signed_package_def by (metis find_signer_sound option.simps(9))
qed

lemma errors_not_verified:
  "table_loop crypto bs ps sz c x p fs \<noteq> Inl (Pkg_verified, d)"
  "verify_signature bs crypto keys e k \<noteq> Inl (Pkg_verified, d)"
proof -
  have "table_entry crypto bs ps sz c x p f \<noteq> Inl (Pkg_verified, d)" for c x p f
    by (simp add: table_entry_def Let_def split: option.split)
  then show "table_loop crypto bs ps sz c x p fs \<noteq> Inl (Pkg_verified, d)"
    by (induction fs arbitrary: c x p) (auto split: sum.splits)
  have "find_signer crypto i keys \<noteq> Inl (Pkg_verified, d)" for i
    by (induction keys) (auto split: option.splits)
  then show "verify_signature bs crypto keys e k \<noteq> Inl (Pkg_verified, d)"
    by (auto simp: verify_signature_def Let_def split: option.splits sum.splits if_splits)
qed

lemma verify_package_okD:
  assumes v: "verify_package parse crypto bs keys allow = v" and "pv_ok v"
  obtains document m cursor files where
    "pv_development v = (get_le 12 4 bs = kDevelopmentFlag)" "pv_development v \<Longrightarrow> allow"
    "package_layout_ok bs (pv_development v)"
    "pv_unsigned_size v = get_le 40 8 bs" "pv_payload_start v = 64 + ucast (get_le 16 4 bs :: u32) + get_le 24 8 bs"
    "parse (bytes_at 64 (unat (get_le 16 4 bs :: u32)) bs) = Some document"
    "canonical_json document = Some (str_of (bytes_at 64 (unat (get_le 16 4 bs :: u32)) bs))"
    "parse_manifest document = Some m" "pv_manifest v = m\<lparr>pm_files := files\<rparr>"
    "table_loop crypto bs (pv_payload_start v) (get_le 32 8 bs) (64 + ucast (get_le 16 4 bs :: u32)) 0 []
       (pm_files m) = Inr (cursor, get_le 32 8 bs, files)"
    "pv_signature_verified v = (\<not> pv_development v)"
    "\<not> pv_development v \<Longrightarrow> verify_signature bs crypto keys (unat (get_le 40 8 bs :: u64)) (pm_signing_key_id m) = Inr ()"
proof -
  let ?dev = "get_le 12 4 bs = kDevelopmentFlag"
  let ?mb = "bytes_at 64 (unat (get_le 16 4 bs :: u32)) bs"
  note [simp] = pv_ok_def errors_not_verified
  from assms have assms: "verify_package parse crypto bs keys allow = v" "pv_status v = Pkg_verified"
    by (simp_all)
  then have ok: "pv_status (verify_package parse crypto bs keys allow) = Pkg_verified" by simp
  from ok obtain document where doc: "parse ?mb = Some document"
    "map_option bytes_of (canonical_json document) = Some ?mb"
    by (simp add: verify_package_def Let_def kHeaderSize_def split: if_split_asm option.split_asm)
  with ok obtain m where m: "parse_manifest document = Some m"
    by (simp add: verify_package_def Let_def kHeaderSize_def split: if_split_asm option.split_asm)
  let ?start = "64 + ucast (get_le 16 4 bs :: u32) + get_le 24 8 bs :: u64"
  from ok doc m obtain cursor files where
    t: "table_loop crypto bs ?start (get_le 32 8 bs) (64 + ucast (get_le 16 4 bs :: u32)) 0 [] (pm_files m) =
       Inr (cursor, get_le 32 8 bs, files)"
    by (simp add: verify_package_def Let_def kHeaderSize_def split: if_split_asm sum.split_asm prod.split_asm)
  have str: "canonical_json document = Some (str_of ?mb)"
    using doc(2) by (auto simp flip: bytes_of_inject)
  have lay: "package_layout_ok bs ?dev" "?dev \<Longrightarrow> allow"
    using ok by (simp_all add: verify_package_def Let_def split: if_split_asm)
  have sig: "verify_signature bs crypto keys (unat (get_le 40 8 bs :: u64)) (pm_signing_key_id m) = Inr ()"
    if "\<not> ?dev"
    using ok doc m t that
    by (simp add: verify_package_def Let_def kHeaderSize_def split: if_split_asm sum.split_asm prod.split_asm)
  have result: "v = \<lparr>pv_status = Pkg_verified,
      pv_detail = (if ?dev then ''PACKAGE_DEVELOPMENT_STRUCTURALLY_VERIFIED'' else ''PACKAGE_VERIFIED''),
      pv_development = ?dev, pv_signature_verified = (\<not> ?dev), pv_unsigned_size = get_le 40 8 bs,
      pv_payload_start = ?start, pv_manifest = m\<lparr>pm_files := files\<rparr>\<rparr>"
  proof (cases ?dev)
    case True
    with assms doc m t show ?thesis
      by (simp add: verify_package_def Let_def kHeaderSize_def split: if_split_asm) auto
  next
    case False
    with assms doc m t sig show ?thesis
      by (simp add: verify_package_def Let_def kHeaderSize_def split: if_split_asm) auto
  qed
  have fields: "pv_development v = ?dev" "pv_signature_verified v = (\<not> ?dev)"
    "pv_unsigned_size v = get_le 40 8 bs" "pv_payload_start v = ?start"
    "pv_manifest v = m\<lparr>pm_files := files\<rparr>"
    by (simp_all add: result)
  show ?thesis
    using lay sig t by (intro that [OF fields(1) _ _ fields(3,4) doc(1) str m fields(5) _ _ _])
      (simp_all add: fields)
qed

text \<open>C1. What an accepted package is: its declared size is its length (a signature envelope apart), its
  manifest is the canonical text in the header's range and parses to the returned manifest, its
  files lie one after the other inside the payload with the digests the manifest names and in
  strictly increasing path order; and unless it is an unsigned development package, which only a
  caller that allows them gets, a trusted production key of the named id signed all its bytes.\<close>

theorem verify_package_sound:
  assumes "96 \<le> length bs" and "pv_ok (verify_package parse crypto bs keys allow)"
  shows "let v = verify_package parse crypto bs keys allow in
    length bs = unat (pv_unsigned_size v) + (if pv_development v then 0 else 96) \<and>
    package_contents parse crypto bs v \<and>
    (if pv_development v then allow \<and> \<not> pv_signature_verified v
     else pv_signature_verified v \<and> signed_package crypto keys bs (pm_signing_key_id (pv_manifest v)))"
proof -
  obtain v where v: "verify_package parse crypto bs keys allow = v" "pv_ok v"
    using assms(2) by blast
  obtain document m cursor files where a: "pv_development v \<Longrightarrow> allow" and lay: "package_layout_ok bs (pv_development v)"
    and us: "pv_unsigned_size v = get_le 40 8 bs"
    and start: "pv_payload_start v = 64 + ucast (get_le 16 4 bs :: u32) + get_le 24 8 bs"
    and doc: "parse (bytes_at 64 (unat (get_le 16 4 bs :: u32)) bs) = Some document"
      "canonical_json document = Some (str_of (bytes_at 64 (unat (get_le 16 4 bs :: u32)) bs))"
      "parse_manifest document = Some m" "pv_manifest v = m\<lparr>pm_files := files\<rparr>"
    and t: "table_loop crypto bs (pv_payload_start v) (get_le 32 8 bs) (64 + ucast (get_le 16 4 bs :: u32)) 0 []
       (pm_files m) = Inr (cursor, get_le 32 8 bs, files)"
    and sv: "pv_signature_verified v = (\<not> pv_development v)"
    and sig: "\<not> pv_development v \<Longrightarrow> verify_signature bs crypto keys (unat (get_le 40 8 bs :: u64)) (pm_signing_key_id m) = Inr ()"
    using verify_package_okD [OF v] by metis
  note L = package_layout_okD [OF lay disjI2 [OF assms(1)]]
  from L us have len: "length bs = unat (pv_unsigned_size v) + (if pv_development v then 0 else 96)" by simp
  have sp: "signed_package crypto keys bs (pm_signing_key_id (pv_manifest v))" if "\<not> pv_development v"
    using verify_signature_sound [OF sig [OF that]] len us that doc(4) by simp
  from t have f: "pm_files (pv_manifest v) = files" using doc(4) by simp
  have start': "unat (pv_payload_start v) \<le> unat (pv_unsigned_size v)"
    "unat (pv_unsigned_size v) - unat (pv_payload_start v) = unat (get_le 32 8 bs :: u64)"
    using L(1,2) us start by simp_all
  have "package_contents parse crypto bs v"
    using table_loop_Inr [OF t] doc start' f unfolding package_contents_def Let_def by auto
  with len sp sv a v show ?thesis by (simp add: Let_def)
qed

text \<open>
  The size check of \<open>verify_package\<close> wraps around: a file of 64 to 95 bytes passes it when its
  unsigned size is its length minus 96 in 64 bits, and its manifest may then reach beyond its end.
\<close>

definition short_package :: "nat \<Rightarrow> bytes" where
  "short_package n = kPackageMagic @ [1, 0, 64, 0] @ le_bytes 4 (0 :: u32) @ le_bytes 4 (500 :: u32) @
     le_bytes 4 (1 :: u32) @ le_bytes 8 (word_of_nat n - 660 :: u64) @ le_bytes 8 (0 :: u64) @
     le_bytes 8 (word_of_nat n - 96 :: u64) @ le_bytes 8 (word_of_nat n :: u64) @
     le_bytes 4 (1 :: u32) @ le_bytes 4 (0 :: u32) @ replicate (n - 64) 0"

lemma short_package_fields:
  assumes "64 \<le> n"
  shows "length (short_package n) = n" "bytes_at 0 8 (short_package n) = kPackageMagic"
    "get_le 8 2 (short_package n) = (1 :: u16)" "get_le 10 2 (short_package n) = (64 :: u16)"
    "get_le 12 4 (short_package n) = (0 :: u32)" "get_le 16 4 (short_package n) = (500 :: u32)"
    "get_le 20 4 (short_package n) = (1 :: u32)" "get_le 24 8 (short_package n) = (word_of_nat n - 660 :: u64)"
    "get_le 32 8 (short_package n) = (0 :: u64)" "get_le 40 8 (short_package n) = (word_of_nat n - 96 :: u64)"
    "get_le 48 8 (short_package n) = (word_of_nat n :: u64)" "get_le 56 4 (short_package n) = (1 :: u32)"
    "get_le 60 4 (short_package n) = (0 :: u32)"
  using assms by (simp_all add: short_package_def get_le_def bytes_at_def kPackageMagic_def) (simp_all add: le_word_def)

text \<open>The table size that makes the sum of the sections wrap around.\<close>

lemma short_package_sums:
  assumes "64 \<le> n" "n < 96"
  shows "checked_add 64 500 = Some 564" "checked_add 564 (word_of_nat n - 660) = Some (word_of_nat n - 96)"
    "checked_add (word_of_nat n - 96) 0 = Some (word_of_nat n - 96)" "unat (word_of_nat n :: u64) = n"
proof -
  have "\<forall>n \<in> set [64..<96]. \<not> (- 565 :: u64) < word_of_nat n - 660" by code_simp
  then have "\<not> (- 565 :: u64) < word_of_nat n - 660" using assms by (metis atLeastLessThan_iff set_upt)
  then show "checked_add 564 (word_of_nat n - 660) = Some (word_of_nat n - 96)" by (simp add: checked_add_def)
  show "checked_add 64 500 = Some 564" by (simp add: checked_add_def)
  show "checked_add (word_of_nat n - 96) 0 = Some (word_of_nat n - 96)" by (simp add: checked_add_def)
  show "unat (word_of_nat n :: u64) = n" using assms by (simp add: unat_of_nat take_bit_nat_eq_self)
qed

lemma short_package_overflows:
  assumes "64 \<le> n" "n < 96"
  shows "pv_status (verify_package parse crypto (short_package n) keys dev) = Out_of_bounds"
proof -
  note f = short_package_fields [OF assms(1)] short_package_sums [OF assms]
  have "package_layout_ok (short_package n) False"
    by (simp add: package_layout_ok_def Let_def f package_constants kSignatureSize_def)
  then show ?thesis
    using assms by (simp add: verify_package_def Let_def f package_constants kDevelopmentFlag_def in_buffer_def)
qed

text \<open>C28. The lengths at which the verifier reads outside a file, whatever the JSON parser and the
  cryptographic library answer and whatever keys are trusted: \<open>verify_package\<close> reads only inside every file
  of at least 96 bytes, and every shorter one it does not refuse for its length alone (64 to 95 bytes) leaves it
  room to read past the end: for each of these lengths there is a file on which it does.\<close>

theorem verify_package_in_bounds:
  "(\<exists>bs. length bs = n \<and> pv_status (verify_package parse crypto bs keys dev) = Out_of_bounds) \<longleftrightarrow> 64 \<le> n \<and> n < 96"
proof
  assume "\<exists>bs. length bs = n \<and> pv_status (verify_package parse crypto bs keys dev) = Out_of_bounds"
  then obtain bs where bs: "length bs = n" "pv_status (verify_package parse crypto bs keys dev) = Out_of_bounds" by blast
  then have "\<not> 96 \<le> n" using long_package_in_bounds [of bs parse crypto keys dev] by auto
  moreover have "\<not> n < 64" using bs by (auto simp: verify_package_def kHeaderSize_def package_failure_def)
  ultimately show "64 \<le> n \<and> n < 96" by simp
next
  assume "64 \<le> n \<and> n < 96"
  then show "\<exists>bs. length bs = n \<and> pv_status (verify_package parse crypto bs keys dev) = Out_of_bounds"
    using short_package_overflows [of n parse crypto keys dev] short_package_fields(1) [of n] by blast
qed

text \<open>What the trust store adds: a package it accepts is signed, never a development package.\<close>

lemma trust_verify_ok:
  assumes "pv_ok (trust_verify store parse crypto bs)"
  shows "\<not> pv_development (trust_verify store parse crypto bs)"
    "pv_signature_verified (trust_verify store parse crypto bs)"
proof -
  from assms obtain key where s: "store = Some key"
    by (cases store) (auto simp: trust_verify_def pv_ok_def)
  then have "pv_ok (verify_package parse crypto bs [\<lparr>tk_key = key, tk_production = True\<rparr>] False)"
    using assms by (simp add: trust_verify_def)
  from verify_package_okD [OF refl this] s
  show "\<not> pv_development (trust_verify store parse crypto bs)"
    "pv_signature_verified (trust_verify store parse crypto bs)"
    by (simp_all add: trust_verify_def) metis+
qed

section \<open>What a parsed manifest satisfies\<close>

lemma require_eq_Some [simp]: "require b = Some u \<longleftrightarrow> b"
  by (simp add: require_def)

lemma parse_manifest_valid:
  assumes "parse_manifest d = Some m"
  shows "package_app_id (pm_app_id m)" "semantic_version (pm_version m)"
    "semantic_version (pm_minimum_platform_version m)" "lowercase_hex (pm_signing_key_id m) 32"
    "pm_release_counter m \<noteq> 0" "valid_path (pm_entry m)"
    "list_all (\<lambda>c. c \<in> set allowed_capabilities) (pm_capabilities m)"
proof -
  obtain counter where c: "pm_release_counter m = word_of_int counter" "counter \<noteq> 0"
      "counter \<le> json_safe_max" "uint64_value (json_member d ''releaseCounter'') = Some counter"
    using assms by (auto simp: parse_manifest_def Option.bind_eq_Some_conv)
  from c(4) have "0 \<le> counter" by (auto simp: uint64_value_def split: option.splits json.splits if_splits)
  with c have "uint (pm_release_counter m) = counter"
    by (simp add: json_safe_max_def unsigned_of_int take_bit_int_eq_self)
  with c(2) show "pm_release_counter m \<noteq> 0" by auto
qed (use assms in \<open>auto simp: parse_manifest_def Option.bind_eq_Some_conv\<close>)

end
