(* ===== verification/Rollback_Policy.thy ===== *)
theory Rollback_Policy
  imports Package_Verifier
begin

text \<open>
  The install policy (\<open>platform/src/package/rollback_policy.cpp\<close>): whether an authenticated
  package may be installed on this platform, given the high-water mark of the application it
  replaces, and how the mark advances.
\<close>

section \<open>Versions\<close>

datatype version = Version (major: u32) (minor: u32) (patch: u32)

text \<open>\<open>operator>=\<close> of \<open>std::array\<close> is lexicographic.\<close>

instantiation version :: linorder
begin

fun less_eq_version :: "version \<Rightarrow> version \<Rightarrow> bool" where
  "less_eq_version (Version a b c) (Version a' b' c') \<longleftrightarrow>
     a < a' \<or> (a = a' \<and> (b < b' \<or> (b = b' \<and> c \<le> c')))"

definition less_version :: "version \<Rightarrow> version \<Rightarrow> bool" where
  "less_version v w \<longleftrightarrow> v \<le> w \<and> v \<noteq> w"

instance
proof
  fix v w u :: version
  show "v < w \<longleftrightarrow> v \<le> w \<and> \<not> w \<le> v"
    by (cases v; cases w) (auto simp: less_version_def)
  show "v \<le> v" by (cases v) simp
  show "v \<le> w \<Longrightarrow> w \<le> u \<Longrightarrow> v \<le> u" by (cases v; cases w; cases u) auto
  show "v \<le> w \<Longrightarrow> w \<le> v \<Longrightarrow> v = w" by (cases v; cases w) auto
  show "v \<le> w \<or> w \<le> v" by (cases v; cases w) auto
qed

end

text \<open>The digit loop, with the overflow guard on \<open>number\<close>.\<close>

fun version_digits :: "u64 \<Rightarrow> string \<Rightarrow> u64 option" where
  "version_digits number [] = Some number"
| "version_digits number (c # cs) =
     (if \<not> is_digit c then None
      else let digit = word_of_nat (code c - 48) :: u32 in
        if number > ucast (((- 1) - digit) div 10 :: u32) then None
        else version_digits (number * 10 + ucast digit) cs)"

definition version_component :: "string \<Rightarrow> u32 option" where
  "version_component s = (if s = [] then None else map_option ucast (version_digits 0 s))"

text \<open>The loop over the three parts: \<open>rest\<close> is the string from \<open>start\<close> on.\<close>

definition before_dot :: "string \<Rightarrow> string" where
  "before_dot rest = takeWhile (\<lambda>c. c \<noteq> dot) rest"

definition after_dot :: "string \<Rightarrow> string" where
  "after_dot rest = tl (dropWhile (\<lambda>c. c \<noteq> dot) rest)"

definition parse_version :: "string \<Rightarrow> version option" where
  "parse_version v = do {
     require (dot \<in> set v);
     a \<leftarrow> version_component (before_dot v);
     let rest = after_dot v;
     require (dot \<in> set rest);
     b \<leftarrow> version_component (before_dot rest);
     let rest' = after_dot rest;
     require (dot \<notin> set rest');
     c \<leftarrow> version_component rest';
     Some (Version a b c) }"

definition version_at_least :: "string \<Rightarrow> string \<Rightarrow> bool" where
  "version_at_least actual minimum =
     (case parse_version actual of None \<Rightarrow> False
      | Some a \<Rightarrow> (case parse_version minimum of None \<Rightarrow> False | Some m \<Rightarrow> m \<le> a))"

text \<open>The decimal value of a digit string, and what the digit loop computes.\<close>

definition decimal :: "nat \<Rightarrow> string \<Rightarrow> nat" where
  "decimal n s = foldl (\<lambda>k c. k * 10 + (code c - 48)) n s"

lemma decimal_Nil [simp]: "decimal n [] = n"
  by (simp add: decimal_def)

lemma decimal_Cons [simp]: "decimal n (c # cs) = decimal (n * 10 + (code c - 48)) cs"
  by (simp add: decimal_def)

lemma decimal_ge: "n \<le> decimal n s"
proof (induction s arbitrary: n)
  case (Cons c s)
  show ?case using Cons.IH [of "n * 10 + (code c - 48)"] by simp
qed simp

lemma digit_guard:
  fixes number :: u64 and digit :: u32
  assumes "unat number < 2 ^ 32" "unat digit < 10"
  shows "number > ucast (((- 1) - digit) div 10 :: u32) \<longleftrightarrow> 2 ^ 32 \<le> unat number * 10 + unat digit"
proof -
  have m: "unat ((- 1) - digit) = 2 ^ 32 - 1 - unat digit"
    by (subst unat_sub) (simp_all add: unsigned_minus_1_eq_mask mask_eq_exp_minus_1 word_order.extremum)
  have "unat (ucast (((- 1) - digit) div 10 :: u32) :: u64) = (2 ^ 32 - 1 - unat digit) div 10"
    by (subst unat_ucast_up) (simp_all add: unat_div m)
  then show ?thesis using assms by (simp add: word_less_nat_alt) linarith
qed

lemma version_digits_spec:
  "unat number < 2 ^ 32 \<Longrightarrow>
   version_digits number s =
     (if list_all is_digit s \<and> decimal (unat number) s < 2 ^ 32
      then Some (word_of_nat (decimal (unat number) s)) else None)"
proof (induction s arbitrary: number)
  case Nil
  then show ?case by simp
next
  case (Cons c s)
  show ?case
  proof (cases "is_digit c")
    case True
    define d where "d = (word_of_nat (code c - 48) :: u32)"
    have small: "k < 10 \<Longrightarrow> unat (word_of_nat k :: u32) = k" for k by (simp add: unat_of_nat)
    have lt: "code c - 48 < 10" using True by (auto simp: is_digit_def)
    have d: "unat d = code c - 48" "unat d < 10"
      unfolding d_def small [OF lt] using lt by simp_all
    have d64: "unat (ucast d :: u64) = unat d" by (rule unat_ucast_up) simp
    have next_number: "unat (number * 10 + ucast d) = unat number * 10 + unat d"
      using Cons.prems d d64 by (simp add: unat_word_ariths)
    show ?thesis
      using True Cons digit_guard [OF Cons.prems d(2)] next_number d
        decimal_ge [of "unat number * 10 + unat d" s]
      by (simp add: Let_def d_def [symmetric] not_less)
  qed simp
qed

lemma version_component_spec:
  "version_component s =
     (if s \<noteq> [] \<and> list_all is_digit s \<and> decimal 0 s < 2 ^ 32
      then Some (word_of_nat (decimal 0 s)) else None)"
proof -
  have "n < 2 ^ 32 \<Longrightarrow> (ucast (word_of_nat n :: u64) :: u32) = word_of_nat n" for n
    by (simp add: word_unat_eq_iff unsigned_ucast_eq unat_of_nat take_bit_eq_mod)
  then show ?thesis by (simp add: version_component_def version_digits_spec)
qed

section \<open>The policy\<close>

datatype policy_status =
    Policy_allowed | Policy_package_not_authenticated | Policy_incompatible_sdk
  | Policy_platform_too_old | Policy_unsupported_profile | Policy_unsupported_machine
  | Policy_capability_denied | Policy_application_id_mismatch | Policy_signer_changed
  | Policy_security_epoch_rollback | Policy_release_counter_rollback
  | Policy_release_counter_collision | Policy_invalid_input

record policy_context =
  pc_platform_version :: string
  pc_sdk_abi :: string
  pc_profile_id :: string
  pc_machine :: string
  pc_allowed_capabilities :: "string list"

record high_water_mark =
  hw_app_id :: string
  hw_signing_key_id :: string
  hw_release_counter :: u64
  hw_security_epoch :: u32
  hw_package_digest :: bytes

record policy_decision =
  pd_status :: policy_status
  pd_detail :: string

definition decision :: "policy_status \<Rightarrow> string \<Rightarrow> policy_decision" where
  "decision status detail = \<lparr>pd_status = status, pd_detail = detail\<rparr>"

definition evaluate_install_policy ::
    "package_verification \<Rightarrow> bytes \<Rightarrow> policy_context \<Rightarrow> high_water_mark option \<Rightarrow> policy_decision" where
  "evaluate_install_policy candidate package_digest context mark =
     (let manifest = pv_manifest candidate in
      if \<not> pv_ok candidate \<or> pv_development candidate \<or> \<not> pv_signature_verified candidate
      then decision Policy_package_not_authenticated ''POLICY_PACKAGE_NOT_AUTHENTICATED''
      else if pc_platform_version context = [] \<or> pc_sdk_abi context = [] \<or>
              pm_app_id manifest = [] \<or> pm_release_counter manifest = 0
      then decision Policy_invalid_input ''POLICY_INPUT_INVALID''
      else if pm_sdk_abi manifest \<noteq> pc_sdk_abi context
      then decision Policy_incompatible_sdk ''POLICY_SDK_INCOMPATIBLE''
      else if \<not> version_at_least (pc_platform_version context) (pm_minimum_platform_version manifest)
      then decision Policy_platform_too_old ''POLICY_PLATFORM_TOO_OLD''
      else if pc_profile_id context \<noteq> [] \<and> pc_profile_id context \<notin> set (pm_supported_profiles manifest)
      then decision Policy_unsupported_profile ''POLICY_PROFILE_UNSUPPORTED''
      else if pc_machine context \<noteq> [] \<and> pc_machine context \<notin> set (pm_supported_machines manifest)
      then decision Policy_unsupported_machine ''POLICY_MACHINE_UNSUPPORTED''
      else if \<not> list_all (\<lambda>c. c \<in> set (pc_allowed_capabilities context)) (pm_capabilities manifest)
      then decision Policy_capability_denied ''POLICY_CAPABILITY_DENIED''
      else case mark of
        None \<Rightarrow> decision Policy_allowed ''POLICY_INSTALL_ALLOWED''
      | Some installed \<Rightarrow>
          if hw_app_id installed \<noteq> pm_app_id manifest
          then decision Policy_application_id_mismatch ''POLICY_APPLICATION_ID_MISMATCH''
          else if hw_signing_key_id installed \<noteq> pm_signing_key_id manifest
          then decision Policy_signer_changed ''POLICY_SIGNER_CHANGED''
          else if pm_security_epoch manifest < hw_security_epoch installed
          then decision Policy_security_epoch_rollback ''POLICY_SECURITY_EPOCH_ROLLBACK''
          else if pm_release_counter manifest < hw_release_counter installed
          then decision Policy_release_counter_rollback ''POLICY_RELEASE_COUNTER_ROLLBACK''
          else if pm_release_counter manifest = hw_release_counter installed \<and>
                  package_digest \<noteq> hw_package_digest installed
          then decision Policy_release_counter_collision ''POLICY_RELEASE_COUNTER_COLLISION''
          else decision Policy_allowed ''POLICY_INSTALL_ALLOWED'')"

definition candidate_mark :: "package_verification \<Rightarrow> bytes \<Rightarrow> high_water_mark" where
  "candidate_mark candidate package_digest =
     (let manifest = pv_manifest candidate in
      \<lparr>hw_app_id = pm_app_id manifest, hw_signing_key_id = pm_signing_key_id manifest,
       hw_release_counter = pm_release_counter manifest,
       hw_security_epoch = pm_security_epoch manifest, hw_package_digest = package_digest\<rparr>)"

definition advance_high_water_mark ::
    "package_verification \<Rightarrow> bytes \<Rightarrow> high_water_mark option \<Rightarrow> high_water_mark" where
  "advance_high_water_mark candidate package_digest current =
     (let manifest = pv_manifest candidate in
      case current of
        None \<Rightarrow> candidate_mark candidate package_digest
      | Some c \<Rightarrow>
          if pm_app_id manifest \<noteq> hw_app_id c \<or> pm_signing_key_id manifest \<noteq> hw_signing_key_id c \<or>
             pm_release_counter manifest \<le> hw_release_counter c \<or>
             pm_security_epoch manifest < hw_security_epoch c
          then c else candidate_mark candidate package_digest)"

section \<open>Installing in sequence\<close>

text \<open>One installation attempt: the mark advances when the policy allows the package.\<close>

definition policy_step ::
    "high_water_mark option \<Rightarrow> package_verification \<times> bytes \<times> policy_context \<Rightarrow> high_water_mark option" where
  "policy_step mark attempt =
     (case attempt of (candidate, package_digest, context) \<Rightarrow>
       if pd_status (evaluate_install_policy candidate package_digest context mark) = Policy_allowed
       then Some (advance_high_water_mark candidate package_digest mark) else mark)"

text \<open>The order the policy promises: same application and signer, nothing goes back, and one
  release counter never names two packages.\<close>

definition mark_le :: "high_water_mark \<Rightarrow> high_water_mark \<Rightarrow> bool" where
  "mark_le a b \<longleftrightarrow> hw_app_id a = hw_app_id b \<and> hw_signing_key_id a = hw_signing_key_id b \<and>
     hw_release_counter a \<le> hw_release_counter b \<and> hw_security_epoch a \<le> hw_security_epoch b \<and>
     (hw_release_counter a = hw_release_counter b \<longrightarrow> a = b)"

definition mark_newer :: "high_water_mark option \<Rightarrow> high_water_mark option \<Rightarrow> bool" where
  "mark_newer s t = (case s of None \<Rightarrow> True | Some a \<Rightarrow> (case t of None \<Rightarrow> False | Some b \<Rightarrow> mark_le a b))"

lemma mark_le_trans: "mark_le a b \<Longrightarrow> mark_le b c \<Longrightarrow> mark_le a c"
  unfolding mark_le_def by (metis order.trans order.antisym)

lemma mark_newer_trans: "mark_newer s t \<Longrightarrow> mark_newer t u \<Longrightarrow> mark_newer s u"
  by (auto simp: mark_newer_def intro: mark_le_trans split: option.splits)

lemma mark_le_refl: "mark_le a a"
  by (simp add: mark_le_def)

lemma advance_newer: "mark_le a (advance_high_water_mark candidate package_digest (Some a))"
  by (auto simp: advance_high_water_mark_def mark_le_def candidate_mark_def Let_def)

interpretation policy_ratchet: ratchet policy_step "\<lambda>_. True" mark_newer "\<lambda>_. True"
proof
  fix s t u :: "high_water_mark option" and e :: "package_verification \<times> bytes \<times> policy_context"
  show "mark_newer s s" by (simp add: mark_newer_def mark_le_def split: option.split)
  show "mark_newer s t \<Longrightarrow> mark_newer t u \<Longrightarrow> mark_newer s u" by (rule mark_newer_trans)
  show "mark_newer s (policy_step s e)"
    by (cases s; cases e) (auto simp: policy_step_def mark_newer_def mark_le_refl advance_newer)
qed simp

section \<open>Properties\<close>


text \<open>A version component is the exact decimal value of a non-empty digit string below two to the
  32: no overflow is accepted, however long the string.\<close>

lemma version_component_exact:
  "version_component s =
     (if s \<noteq> [] \<and> list_all is_digit s \<and> decimal 0 s < 2 ^ 32
      then Some (word_of_nat (decimal 0 s)) else None)"
  by (rule version_component_spec)

text \<open>Along any sequence of installation attempts the high-water mark never goes back: it keeps its
  application and signer, its release counter and security epoch do not decrease, and one release
  counter never stands for two packages.\<close>

lemma high_water_never_lowered:
  "mark_newer (foldl policy_step mark (take n attempts)) (foldl policy_step mark (take (n + k) attempts))"
  by (rule policy_ratchet.later_newer) simp_all

end
