(* ===== verification/Release_State.thy ===== *)
theory Release_State
  imports Rollback_Policy
begin

text \<open>
  The anti-rollback state of an application (\<open>platform/src/storage/release_state.cpp\<close>): its
  checksummed encoding, the choice between the two slots it is stored in, the state after an
  activation and the state after a rollback.
\<close>

section \<open>Data\<close>

definition kDigestBlockSize :: nat where "kDigestBlockSize = 192"
definition kChecksumSize :: nat where "kChecksumSize = 32"
definition kMaximumStateSize :: nat where "kMaximumStateSize = 512"
definition kStateMagic :: bytes where "kStateMagic = bytes_of ''LVSTATE1''"

lemmas state_sizes = kDigestBlockSize_def kChecksumSize_def kMaximumStateSize_def kHeaderSize_def

datatype release_status =
    Release_valid | Release_invalid_layout | Release_invalid_value | Release_checksum_mismatch
  | Release_crypto_unavailable | Release_split_brain | Release_no_valid_slot

record release_state =
  rs_app_id :: string
  rs_signing_key_id :: string
  rs_generation :: u64
  rs_current_release :: u64
  rs_previous_release :: u64
  rs_high_release :: u64
  rs_quarantined_release :: u64
  rs_high_security_epoch :: u32
  rs_consecutive_launch_failures :: u16
  rs_current_digest :: bytes
  rs_previous_digest :: bytes
  rs_high_digest :: bytes

definition zeros64 :: bytes where "zeros64 = replicate 64 0"

definition no_state :: release_state where
  "no_state = \<lparr>rs_app_id = [], rs_signing_key_id = [], rs_generation = 0, rs_current_release = 0,
     rs_previous_release = 0, rs_high_release = 0, rs_quarantined_release = 0,
     rs_high_security_epoch = 0, rs_consecutive_launch_failures = 0, rs_current_digest = zeros64,
     rs_previous_digest = zeros64, rs_high_digest = zeros64\<rparr>"

record encoded_state =
  er_status :: release_status
  er_detail :: string
  er_bytes :: bytes

record decoded_state =
  dr_status :: release_status
  dr_detail :: string
  dr_state :: release_state

record selected_state =
  sr_decoded :: decoded_state
  sr_slot :: nat
  sr_redundancy_degraded :: bool

definition er_ok :: "encoded_state \<Rightarrow> bool" where
  "er_ok e \<longleftrightarrow> er_status e = Release_valid"

definition dr_ok :: "decoded_state \<Rightarrow> bool" where
  "dr_ok d \<longleftrightarrow> dr_status d = Release_valid"

section \<open>Validity\<close>

definition state_key_id :: "string \<Rightarrow> bool" where
  "state_key_id v \<longleftrightarrow> length v = 32 \<and> list_all (\<lambda>c. is_digit c \<or> (97 \<le> code c \<and> code c \<le> 102)) v"

definition zero_digest :: "bytes \<Rightarrow> bool" where
  "zero_digest d \<longleftrightarrow> list_all (\<lambda>b. b = 0) d"

definition valid_state :: "release_state \<Rightarrow> bool" where
  "valid_state s =
     (if \<not> state_app_id (rs_app_id s) \<or> \<not> state_key_id (rs_signing_key_id s) \<or> rs_generation s = 0 \<or>
         rs_current_release s = 0 \<or> rs_high_release s < rs_current_release s \<or>
         rs_previous_release s > rs_high_release s \<or>
         rs_quarantined_release s > rs_high_release s \<or>
         rs_consecutive_launch_failures s > 3 \<or> zero_digest (rs_current_digest s) \<or>
         zero_digest (rs_high_digest s)
      then False
      else if (rs_previous_release s = 0) \<noteq> zero_digest (rs_previous_digest s) then False
      else if rs_high_release s = rs_current_release s \<and> rs_high_digest s \<noteq> rs_current_digest s
      then False
      else if rs_previous_release s = rs_current_release s \<or>
              rs_quarantined_release s = rs_current_release s
      then False
      else True)"

text \<open>The digests are arrays of 64 bytes.\<close>

definition state_typed :: "release_state \<Rightarrow> bool" where
  "state_typed s \<longleftrightarrow> length (rs_current_digest s) = 64 \<and> length (rs_previous_digest s) = 64 \<and>
     length (rs_high_digest s) = 64"

section \<open>Encoding\<close>

definition state_body :: "release_state \<Rightarrow> bytes" where
  "state_body s =
     kStateMagic @ le_bytes 2 (1 :: u16) @ le_bytes 2 (word_of_nat kHeaderSize :: u16) @
     le_bytes 4 (word_of_nat (kHeaderSize + kDigestBlockSize + length (rs_app_id s) +
       length (rs_signing_key_id s) + kChecksumSize) :: u32) @
     le_bytes 8 (rs_generation s) @ le_bytes 8 (rs_current_release s) @
     le_bytes 8 (rs_previous_release s) @ le_bytes 8 (rs_high_release s) @
     le_bytes 8 (rs_quarantined_release s) @ le_bytes 4 (rs_high_security_epoch s) @
     le_bytes 2 (rs_consecutive_launch_failures s) @
     [word_of_nat (length (rs_app_id s))] @ [word_of_nat (length (rs_signing_key_id s))] @
     rs_current_digest s @ rs_previous_digest s @ rs_high_digest s @
     bytes_of (rs_app_id s) @ bytes_of (rs_signing_key_id s)"

definition encode_release_state :: "release_state \<Rightarrow> evp_library \<Rightarrow> encoded_state" where
  "encode_release_state s crypto =
     (if \<not> valid_state s then \<lparr>er_status = Release_invalid_value, er_detail = ''STATE_VALUE_INVALID'', er_bytes = []\<rparr>
      else if kMaximumStateSize < kHeaderSize + kDigestBlockSize + length (rs_app_id s) +
                length (rs_signing_key_id s) + kChecksumSize
      then \<lparr>er_status = Release_invalid_layout, er_detail = ''STATE_SIZE_INVALID'', er_bytes = []\<rparr>
      else case sha256 crypto (state_body s) of
        None \<Rightarrow> \<lparr>er_status = Release_crypto_unavailable, er_detail = ''STATE_CRYPTO_UNAVAILABLE'', er_bytes = []\<rparr>
      | Some checksum \<Rightarrow>
          \<lparr>er_status = Release_valid, er_detail = ''STATE_ENCODED'', er_bytes = state_body s @ checksum\<rparr>)"

definition decode_failure :: "release_status \<Rightarrow> string \<Rightarrow> decoded_state" where
  "decode_failure status detail = \<lparr>dr_status = status, dr_detail = detail, dr_state = no_state\<rparr>"

definition decode_release_state :: "bytes \<Rightarrow> evp_library \<Rightarrow> decoded_state" where
  "decode_release_state bs crypto =
     (if length bs < kHeaderSize + kDigestBlockSize + kChecksumSize \<or> kMaximumStateSize < length bs \<or>
         bytes_at 0 8 bs \<noteq> kStateMagic \<or> get_le 8 2 bs \<noteq> (1 :: u16) \<or>
         unat (get_le 10 2 bs :: u16) \<noteq> kHeaderSize \<or> unat (get_le 12 4 bs :: u32) \<noteq> length bs
      then decode_failure Release_invalid_layout ''STATE_LAYOUT_INVALID''
      else let app_size = unat (bs ! 62); key_size = unat (bs ! 63) in
      if app_size = 0 \<or> 96 < app_size \<or> key_size \<noteq> 32 \<or>
         kHeaderSize + kDigestBlockSize + app_size + key_size + kChecksumSize \<noteq> length bs
      then decode_failure Release_invalid_layout ''STATE_LENGTH_INVALID''
      else case sha256 crypto (take (length bs - kChecksumSize) bs) of
        None \<Rightarrow> decode_failure Release_crypto_unavailable ''STATE_CRYPTO_UNAVAILABLE''
      | Some checksum \<Rightarrow>
          if checksum \<noteq> bytes_at (length bs - kChecksumSize) kChecksumSize bs
          then decode_failure Release_checksum_mismatch ''STATE_CHECKSUM_MISMATCH''
          else let state = \<lparr>rs_app_id = str_of (bytes_at 256 app_size bs),
                rs_signing_key_id = str_of (bytes_at (256 + app_size) key_size bs),
                rs_generation = get_le 16 8 bs, rs_current_release = get_le 24 8 bs,
                rs_previous_release = get_le 32 8 bs, rs_high_release = get_le 40 8 bs,
                rs_quarantined_release = get_le 48 8 bs, rs_high_security_epoch = get_le 56 4 bs,
                rs_consecutive_launch_failures = get_le 60 2 bs,
                rs_current_digest = bytes_at 64 64 bs, rs_previous_digest = bytes_at 128 64 bs,
                rs_high_digest = bytes_at 192 64 bs\<rparr>
          in if \<not> valid_state state then decode_failure Release_invalid_value ''STATE_VALUE_INVALID''
             else \<lparr>dr_status = Release_valid, dr_detail = ''STATE_DECODED'', dr_state = state\<rparr>)"

section \<open>Selection\<close>

definition select_release_state :: "bytes \<Rightarrow> bytes \<Rightarrow> evp_library \<Rightarrow> selected_state" where
  "select_release_state slot_a slot_b crypto =
     (let a = decode_release_state slot_a crypto; b = decode_release_state slot_b crypto in
      if \<not> dr_ok a \<and> \<not> dr_ok b
      then \<lparr>sr_decoded = decode_failure Release_no_valid_slot ''STATE_NO_VALID_SLOT'', sr_slot = 0,
            sr_redundancy_degraded = True\<rparr>
      else if dr_ok a \<and> dr_ok b \<and> rs_generation (dr_state a) = rs_generation (dr_state b) \<and> slot_a \<noteq> slot_b
      then \<lparr>sr_decoded = decode_failure Release_split_brain ''STATE_SPLIT_BRAIN'', sr_slot = 0,
            sr_redundancy_degraded = False\<rparr>
      else if dr_ok a \<and> (\<not> dr_ok b \<or> rs_generation (dr_state a) \<ge> rs_generation (dr_state b))
      then \<lparr>sr_decoded = a, sr_slot = 1, sr_redundancy_degraded = (\<not> dr_ok b)\<rparr>
      else \<lparr>sr_decoded = b, sr_slot = 2, sr_redundancy_degraded = (\<not> dr_ok a)\<rparr>)"

definition sr_ok :: "selected_state \<Rightarrow> bool" where
  "sr_ok s \<longleftrightarrow> dr_ok (sr_decoded s)"

section \<open>Transitions\<close>

text \<open>The new state of \<open>activation_state_for\<close>, before its final check.\<close>

definition activated_state :: "package_verification \<Rightarrow> bytes \<Rightarrow> release_state option \<Rightarrow> release_state" where
  "activated_state candidate package_digest current =
     (let manifest = pv_manifest candidate;
          counter = pm_release_counter manifest; epoch = pm_security_epoch manifest;
          fresh = no_state\<lparr>rs_app_id := pm_app_id manifest,
            rs_signing_key_id := pm_signing_key_id manifest,
            rs_generation := (case current of None \<Rightarrow> 1 | Some c \<Rightarrow> rs_generation c + 1),
            rs_current_release := counter, rs_current_digest := package_digest,
            rs_high_release := counter, rs_high_security_epoch := epoch,
            rs_high_digest := package_digest\<rparr>;
          carried = (case current of None \<Rightarrow> fresh
            | Some c \<Rightarrow>
                let high = max counter (rs_high_release c) in
                fresh\<lparr>rs_previous_release := rs_current_release c,
                      rs_previous_digest := rs_current_digest c,
                      rs_high_release := high,
                      rs_high_security_epoch := max epoch (rs_high_security_epoch c),
                      rs_high_digest := (if high = rs_high_release c then rs_high_digest c else package_digest),
                      rs_quarantined_release := rs_quarantined_release c\<rparr>);
          forgotten = (if rs_previous_release carried = rs_current_release carried
            then carried\<lparr>rs_previous_release := 0, rs_previous_digest := zeros64\<rparr> else carried)
      in if rs_quarantined_release forgotten = rs_current_release forgotten
         then forgotten\<lparr>rs_quarantined_release := 0\<rparr> else forgotten)"

definition activation_state_for ::
    "package_verification \<Rightarrow> bytes \<Rightarrow> release_state option \<Rightarrow> release_state option" where
  "activation_state_for candidate package_digest current =
     (let manifest = pv_manifest candidate; counter = pm_release_counter manifest;
          make = (let next_state = activated_state candidate package_digest current in
            if rs_generation next_state = 0 then None
            else if valid_state next_state then Some next_state else None)
      in if \<not> pv_ok candidate \<or> pv_development candidate \<or> \<not> pv_signature_verified candidate \<or>
            counter = 0 \<or> zero_digest package_digest
      then None
      else case current of
        None \<Rightarrow> make
      | Some c \<Rightarrow>
          if \<not> valid_state c \<or> rs_app_id c \<noteq> pm_app_id manifest \<or>
             rs_signing_key_id c \<noteq> pm_signing_key_id manifest \<or>
             counter < rs_high_release c \<or> pm_security_epoch manifest < rs_high_security_epoch c \<or>
             counter = rs_quarantined_release c \<or>
             (counter = rs_high_release c \<and> package_digest \<noteq> rs_high_digest c)
          then None
          else if counter = rs_current_release c \<and> package_digest = rs_current_digest c
          then Some c
          else make)"

definition rollback_release :: "release_state \<Rightarrow> bool \<Rightarrow> release_state option" where
  "rollback_release current record_launch_failure =
     (if \<not> valid_state current \<or> rs_previous_release current = 0 \<or> rs_generation current = - 1
      then None
      else let next_state = current\<lparr>rs_generation := rs_generation current + 1,
             rs_quarantined_release := rs_current_release current,
             rs_current_release := rs_previous_release current,
             rs_current_digest := rs_previous_digest current,
             rs_previous_release := 0, rs_previous_digest := zeros64,
             rs_consecutive_launch_failures :=
               (if record_launch_failure
                then min 3 (rs_consecutive_launch_failures current + 1) else 0)\<rparr>
      in if valid_state next_state then Some next_state else None)"

definition rollback_failed_release :: "release_state \<Rightarrow> release_state option" where
  "rollback_failed_release current = rollback_release current True"

section \<open>The encoding round trip\<close>

lemma state_key_id_length: "state_key_id v \<Longrightarrow> length v = 32"
  by (simp add: state_key_id_def)

lemma valid_state_ids:
  "valid_state s \<Longrightarrow> rs_app_id s \<noteq> [] \<and> length (rs_app_id s) \<le> 96 \<and> length (rs_signing_key_id s) = 32"
  by (auto simp: valid_state_def app_id_validators_agree dest: package_app_id_length
      package_app_id_nonempty state_key_id_length split: if_splits)

lemma length_kStateMagic [simp]: "length kStateMagic = 8"
  by (simp add: kStateMagic_def)

definition state_blocks :: "release_state \<Rightarrow> bytes list" where
  "state_blocks s = [kStateMagic, le_bytes 2 (1 :: u16), le_bytes 2 (word_of_nat kHeaderSize :: u16),
     le_bytes 4 (word_of_nat (kHeaderSize + kDigestBlockSize + length (rs_app_id s) +
       length (rs_signing_key_id s) + kChecksumSize) :: u32),
     le_bytes 8 (rs_generation s), le_bytes 8 (rs_current_release s),
     le_bytes 8 (rs_previous_release s), le_bytes 8 (rs_high_release s),
     le_bytes 8 (rs_quarantined_release s), le_bytes 4 (rs_high_security_epoch s),
     le_bytes 2 (rs_consecutive_launch_failures s),
     [word_of_nat (length (rs_app_id s))], [word_of_nat (length (rs_signing_key_id s))],
     rs_current_digest s, rs_previous_digest s, rs_high_digest s,
     bytes_of (rs_app_id s), bytes_of (rs_signing_key_id s)]"

lemma state_body_blocks: "state_body s = concat (state_blocks s)"
  by (simp add: state_body_def state_blocks_def)

lemma length_state_body:
  "state_typed s \<Longrightarrow> length (state_body s) = 256 + length (rs_app_id s) + length (rs_signing_key_id s)"
  by (simp add: state_body_def state_typed_def)

definition storable_state :: "evp_library \<Rightarrow> release_state \<Rightarrow> bool" where
  "storable_state crypto s \<longleftrightarrow> valid_state s \<and> state_typed s \<and> sha256 crypto (state_body s) \<noteq> None"

lemma encode_storable:
  assumes "storable_state crypto s"
  obtains checksum where "sha256 crypto (state_body s) = Some checksum" "length checksum = 32"
    "encode_release_state s crypto =
       \<lparr>er_status = Release_valid, er_detail = ''STATE_ENCODED'', er_bytes = state_body s @ checksum\<rparr>"
proof -
  from assms obtain checksum where c: "sha256 crypto (state_body s) = Some checksum"
    by (auto simp: storable_state_def)
  with assms valid_state_ids [of s] show ?thesis
    by (intro that [OF c sha256_length [OF c]])
      (auto simp: encode_release_state_def storable_state_def state_sizes)
qed

lemma decode_encode_release_state:
  assumes "storable_state crypto s"
  shows "decode_release_state (er_bytes (encode_release_state s crypto)) crypto =
    \<lparr>dr_status = Release_valid, dr_detail = ''STATE_DECODED'', dr_state = s\<rparr>"
proof -
  obtain checksum where c: "sha256 crypto (state_body s) = Some checksum" "length checksum = 32"
    and e: "er_bytes (encode_release_state s crypto) = state_body s @ checksum"
    by (rule encode_storable [OF assms]) simp
  let ?n = "length (rs_app_id s)"
  define bs where "bs = state_body s @ checksum"
  have blocks: "blocks_at 0 (state_blocks s @ [checksum]) bs"
    using blocks_at_concat [of "state_blocks s @ [checksum]" "[]"] by (simp add: bs_def state_body_blocks)
  have v: "valid_state s" and t: "length (rs_current_digest s) = 64" "length (rs_previous_digest s) = 64"
    "length (rs_high_digest s) = 64" "state_typed s"
    using assms by (simp_all add: storable_state_def state_typed_def)
  have n: "?n \<noteq> 0" "?n \<le> 96" "length (rs_signing_key_id s) = 32" using valid_state_ids [OF v] by simp_all
  have len: "length bs = 320 + ?n" using n c length_state_body [OF t(4)] by (simp add: bs_def)
  have f: "bytes_at 0 8 bs = kStateMagic" "get_le 8 2 bs = (1 :: u16)" "get_le 10 2 bs = (64 :: u16)"
    "get_le 12 4 bs = (word_of_nat (320 + ?n) :: u32)"
    "get_le 16 8 bs = rs_generation s" "get_le 24 8 bs = rs_current_release s"
    "get_le 32 8 bs = rs_previous_release s" "get_le 40 8 bs = rs_high_release s"
    "get_le 48 8 bs = rs_quarantined_release s" "get_le 56 4 bs = rs_high_security_epoch s"
    "get_le 60 2 bs = rs_consecutive_launch_failures s"
    "bytes_at 64 64 bs = rs_current_digest s" "bytes_at 128 64 bs = rs_previous_digest s"
    "bytes_at 192 64 bs = rs_high_digest s" "bytes_at 256 ?n bs = bytes_of (rs_app_id s)"
    "bytes_at (256 + ?n) 32 bs = bytes_of (rs_signing_key_id s)"
    "bytes_at (288 + ?n) 32 bs = checksum"
    using blocks t n c by (simp_all add: state_blocks_def get_le_def state_sizes add.commute)
  have b: "bs ! 62 = word_of_nat ?n" "bs ! 63 = (32 :: u8)"
    using blocks t n len nth_bytes_at [of 62 1 bs 0] nth_bytes_at [of 63 1 bs 0]
    by (simp_all add: state_blocks_def)
  have u32: "m < 2 ^ 32 \<Longrightarrow> unat (word_of_nat m :: u32) = m" for m by (simp add: unat_of_nat)
  have "320 + ?n < 2 ^ 32" using n by simp
  then have size: "unat (word_of_nat (320 + ?n) :: u32) = 320 + ?n" by (rule u32)
  have sizes: "unat (word_of_nat ?n :: u8) = ?n"
    "length bs - 32 = 288 + ?n" "take (288 + ?n) bs = state_body s"
    using n len length_state_body [OF t(4)] by (simp_all add: unat_of_nat bs_def)
  have eta: "\<lparr>rs_app_id = rs_app_id s, rs_signing_key_id = rs_signing_key_id s,
      rs_generation = rs_generation s, rs_current_release = rs_current_release s,
      rs_previous_release = rs_previous_release s, rs_high_release = rs_high_release s,
      rs_quarantined_release = rs_quarantined_release s,
      rs_high_security_epoch = rs_high_security_epoch s,
      rs_consecutive_launch_failures = rs_consecutive_launch_failures s,
      rs_current_digest = rs_current_digest s, rs_previous_digest = rs_previous_digest s,
      rs_high_digest = rs_high_digest s\<rparr> = s" by simp
  show ?thesis
    unfolding e bs_def [symmetric] decode_release_state_def f b Let_def size sizes state_sizes
    using len n c v by (simp add: sizes f eta)
qed

lemma decode_release_stateD:
  assumes "dr_ok (decode_release_state bs crypto)"
  defines "s \<equiv> dr_state (decode_release_state bs crypto)"
  shows "length bs = 288 + unat (bs ! 62) + 32" "unat (bs ! 63) = 32" "unat (bs ! 62) \<le> 96"
    "bytes_at 0 8 bs = kStateMagic" "get_le 8 2 bs = (1 :: u16)" "unat (get_le 10 2 bs :: u16) = 64"
    "unat (get_le 12 4 bs :: u32) = length bs"
    "sha256 crypto (take (length bs - 32) bs) = Some (bytes_at (length bs - 32) 32 bs)"
    "s = \<lparr>rs_app_id = str_of (bytes_at 256 (unat (bs ! 62)) bs),
                rs_signing_key_id = str_of (bytes_at (256 + unat (bs ! 62)) 32 bs),
                rs_generation = get_le 16 8 bs, rs_current_release = get_le 24 8 bs,
                rs_previous_release = get_le 32 8 bs, rs_high_release = get_le 40 8 bs,
                rs_quarantined_release = get_le 48 8 bs, rs_high_security_epoch = get_le 56 4 bs,
                rs_consecutive_launch_failures = get_le 60 2 bs,
                rs_current_digest = bytes_at 64 64 bs, rs_previous_digest = bytes_at 128 64 bs,
                rs_high_digest = bytes_at 192 64 bs\<rparr>" "valid_state s"
  using assms unfolding decode_release_state_def dr_ok_def decode_failure_def Let_def state_sizes
  by (simp_all split: if_split_asm option.split_asm)

lemma decode_release_state_storable:
  assumes "dr_ok (decode_release_state bs crypto)"
  defines "s \<equiv> dr_state (decode_release_state bs crypto)"
  shows "storable_state crypto s \<and> er_bytes (encode_release_state s crypto) = bs"
proof -
  note d = decode_release_stateD [OF assms(1), folded s_def]
  let ?n = "unat (bs ! 62)"
  have n: "length (rs_app_id s) = ?n" "length (rs_signing_key_id s) = 32"
    using d(1,9) by simp_all
  have "(get_le 10 2 bs :: u16) = 64" "(get_le 12 4 bs :: u32) = word_of_nat (length bs)"
    using d(6) by (simp_all add: word_unat_eq_iff d(7) [symmetric])
  note fixed = get_le_eqD [OF d(5)] get_le_eqD [OF this(1)] get_le_eqD [OF this(2)]
  have b: "bytes_at 62 1 bs = [bs ! 62]" "bytes_at 63 1 bs = [bs ! 63]"
    using d(1) by (simp_all add: bytes_at_def take_Suc_conv_app_nth hd_drop_conv_nth)
  have ids: "word_of_nat ?n = bs ! 62" "(32 :: u8) = bs ! 63"
    using d(2) by (simp_all add: word_unat_eq_iff)
  have "blocks_at 0 (state_blocks s) bs"
    unfolding state_blocks_def n using d(1,3,4) fixed b ids
    by (simp add: d(9) state_sizes add.commute add.left_commute)
  from concat_blocks_at [OF this] have body: "state_body s = take (length bs - 32) bs"
    using n d(1) by (simp add: state_body_blocks state_blocks_def bytes_at_def d(9) state_sizes)
  have typed: "state_typed s" using d(1,9) by (simp add: state_typed_def)
  have st: "storable_state crypto s" using d(8,10) typed body by (simp add: storable_state_def)
  have "er_bytes (encode_release_state s crypto) = take (length bs - 32) bs @ bytes_at (length bs - 32) 32 bs"
    by (rule encode_storable [OF st]) (use d(8) body in simp)
  then show ?thesis using st by (simp add: bytes_at_def)
qed

interpretation release_codec: wire_codec "\<lambda>s. er_bytes (encode_release_state s crypto)"
  "\<lambda>bs. if dr_ok (decode_release_state bs crypto) then Some (dr_state (decode_release_state bs crypto)) else None"
  "storable_state crypto" for crypto
  using decode_release_state_storable decode_encode_release_state
  by unfold_locales (auto simp: dr_ok_def split: if_splits)

section \<open>Transitions in sequence\<close>

datatype release_event = Activate package_verification bytes | Rollback bool

text \<open>
  One attempt to change the state: \<open>sessiond\<close> and the installer persist the state a transition
  yields and keep the old one when it yields none.
\<close>

definition release_step :: "release_state option \<Rightarrow> release_event \<Rightarrow> release_state option" where
  "release_step s e =
     (case e of
        Activate candidate package_digest \<Rightarrow>
          (case activation_state_for candidate package_digest s of None \<Rightarrow> s | Some t \<Rightarrow> Some t)
      | Rollback record_failure \<Rightarrow>
          (case s of None \<Rightarrow> None
           | Some c \<Rightarrow> (case rollback_release c record_failure of None \<Rightarrow> s | Some t \<Rightarrow> Some t)))"

definition release_inv :: "release_state option \<Rightarrow> bool" where
  "release_inv s = (case s of None \<Rightarrow> True | Some c \<Rightarrow> valid_state c)"

lemma activated_state_fields:
  assumes "s = Some c"
  shows "rs_app_id (activated_state candidate d s) = pm_app_id (pv_manifest candidate)"
    "rs_signing_key_id (activated_state candidate d s) = pm_signing_key_id (pv_manifest candidate)"
    "rs_generation (activated_state candidate d s) = rs_generation c + 1"
    "rs_current_release (activated_state candidate d s) = pm_release_counter (pv_manifest candidate)"
    "rs_current_digest (activated_state candidate d s) = d"
    "rs_high_release (activated_state candidate d s) =
       max (pm_release_counter (pv_manifest candidate)) (rs_high_release c)"
    "rs_high_security_epoch (activated_state candidate d s) =
       max (pm_security_epoch (pv_manifest candidate)) (rs_high_security_epoch c)"
    "rs_previous_release (activated_state candidate d s) =
       (if rs_current_release c = pm_release_counter (pv_manifest candidate) then 0 else rs_current_release c)"
    "rs_high_digest (activated_state candidate d s) =
       (if max (pm_release_counter (pv_manifest candidate)) (rs_high_release c) = rs_high_release c
        then rs_high_digest c else d)"
  using assms by (simp_all add: activated_state_def Let_def)

text \<open>What a successful activation over an existing state is.\<close>

lemma activation_Some:
  assumes "activation_state_for candidate d (Some c) = Some t"
  obtains (same) "t = c" "valid_state c"
      "pm_release_counter (pv_manifest candidate) = rs_current_release c" "d = rs_current_digest c"
  | (fresh) "t = activated_state candidate d (Some c)" "valid_state c" "valid_state t"
      "rs_generation c \<noteq> - 1" "rs_app_id c = pm_app_id (pv_manifest candidate)"
      "rs_signing_key_id c = pm_signing_key_id (pv_manifest candidate)"
      "rs_high_release c \<le> pm_release_counter (pv_manifest candidate)"
      "rs_high_security_epoch c \<le> pm_security_epoch (pv_manifest candidate)"
      "pm_release_counter (pv_manifest candidate) \<noteq> rs_quarantined_release c"
      "pm_release_counter (pv_manifest candidate) = rs_high_release c \<longrightarrow> d = rs_high_digest c"
proof (cases "t = c \<and> pm_release_counter (pv_manifest candidate) = rs_current_release c \<and> d = rs_current_digest c")
  case True
  with assms show ?thesis
    by (intro same) (auto simp: activation_state_for_def Let_def split: if_splits)
next
  case False
  have "rs_generation c + 1 = 0 \<longleftrightarrow> rs_generation c = - 1"
    by (metis add.left_inverse add_right_imp_eq)
  with False assms show ?thesis
    by (intro fresh) (auto simp: activation_state_for_def Let_def not_less activated_state_fields(3) [OF refl]
        split: if_splits)
qed

lemma rollback_Some:
  assumes "rollback_release c b = Some t"
  shows "valid_state c" "valid_state t" "rs_generation c \<noteq> - 1" "rs_previous_release c \<noteq> 0"
    "rs_app_id t = rs_app_id c" "rs_signing_key_id t = rs_signing_key_id c"
    "rs_generation t = rs_generation c + 1" "rs_current_release t = rs_previous_release c"
    "rs_current_digest t = rs_previous_digest c" "rs_previous_release t = 0"
    "rs_high_release t = rs_high_release c" "rs_high_digest t = rs_high_digest c"
    "rs_high_security_epoch t = rs_high_security_epoch c"
    "rs_quarantined_release t = rs_current_release c"
    "rs_consecutive_launch_failures t =
       (if b then min 3 (rs_consecutive_launch_failures c + 1) else 0)"
  using assms by (auto simp: rollback_release_def Let_def split: if_splits)

lemma release_step_inv: "release_inv s \<Longrightarrow> release_inv (release_step s e)"
proof -
  have "activation_state_for candidate d None = Some t \<Longrightarrow> valid_state t" for candidate d t
    by (auto simp: activation_state_for_def Let_def split: if_splits)
  then show "release_inv s \<Longrightarrow> release_inv (release_step s e)"
    by (cases s; cases e) (auto simp: release_inv_def release_step_def rollback_Some(2)
        elim: activation_Some split: option.splits)
qed

text \<open>The order in which release states follow each other.\<close>

definition state_le :: "release_state \<Rightarrow> release_state \<Rightarrow> bool" where
  "state_le a b \<longleftrightarrow> rs_app_id a = rs_app_id b \<and> rs_signing_key_id a = rs_signing_key_id b \<and>
     rs_generation a \<le> rs_generation b \<and> rs_high_release a \<le> rs_high_release b \<and>
     rs_high_security_epoch a \<le> rs_high_security_epoch b \<and>
     (rs_high_release a = rs_high_release b \<longrightarrow> rs_high_digest a = rs_high_digest b) \<and>
     (rs_generation a = rs_generation b \<longrightarrow> a = b)"

definition state_newer :: "release_state option \<Rightarrow> release_state option \<Rightarrow> bool" where
  "state_newer s t = (case s of None \<Rightarrow> True | Some a \<Rightarrow> (case t of None \<Rightarrow> False | Some b \<Rightarrow> state_le a b))"

lemma state_le_refl: "state_le a a"
  by (simp add: state_le_def)

lemma state_le_trans:
  assumes ab: "state_le a b" and bc: "state_le b c"
  shows "state_le a c"
proof -
  have g: "rs_generation a \<le> rs_generation b" "rs_generation b \<le> rs_generation c"
    and h: "rs_high_release a \<le> rs_high_release b" "rs_high_release b \<le> rs_high_release c"
    and e: "rs_high_security_epoch a \<le> rs_high_security_epoch b"
      "rs_high_security_epoch b \<le> rs_high_security_epoch c"
    using ab bc by (simp_all add: state_le_def)
  have "a = c" if "rs_generation a = rs_generation c"
  proof -
    have "rs_generation a = rs_generation b" "rs_generation b = rs_generation c" using g that by auto
    with ab bc show ?thesis by (simp add: state_le_def)
  qed
  moreover have "rs_high_digest a = rs_high_digest c" if "rs_high_release a = rs_high_release c"
  proof -
    have "rs_high_release a = rs_high_release b" "rs_high_release b = rs_high_release c" using h that by auto
    with ab bc show ?thesis by (simp add: state_le_def)
  qed
  ultimately show ?thesis
    using ab bc order.trans [OF g] order.trans [OF h] order.trans [OF e] by (simp add: state_le_def)
qed

lemma generation_step: "(w :: u64) \<noteq> - 1 \<Longrightarrow> w < w + 1"
proof -
  assume "w \<noteq> - 1"
  then have "1 + w \<noteq> 0" by (metis add_eq_0_iff)
  then show "w < w + 1" by (simp add: word_less_nat_alt unatSuc add.commute)
qed

lemma activation_le:
  assumes "activation_state_for candidate d (Some c) = Some t"
  shows "state_le c t"
  using assms
proof (cases rule: activation_Some)
  case fresh
  then have "rs_generation c < rs_generation t"
    by (simp add: activated_state_fields generation_step)
  with fresh show ?thesis
    by (auto simp: state_le_def activated_state_fields max_def)
qed (simp add: state_le_refl)

lemma rollback_le:
  assumes "rollback_release c b = Some t"
  shows "state_le c t"
proof -
  have "rs_generation c < rs_generation c + 1" using rollback_Some(3) [OF assms] by (rule generation_step)
  with rollback_Some [OF assms] show ?thesis by (auto simp: state_le_def)
qed

interpretation release_ratchet: ratchet release_step release_inv state_newer "\<lambda>_. True"
proof
  fix s t u :: "release_state option" and e
  show "release_inv s \<Longrightarrow> release_inv (release_step s e)" by (rule release_step_inv)
  show "state_newer s s" by (simp add: state_newer_def state_le_refl split: option.split)
  show "state_newer s t \<Longrightarrow> state_newer t u \<Longrightarrow> state_newer s u"
    by (auto simp: state_newer_def intro: state_le_trans split: option.splits)
  show "state_newer s (release_step s e)"
    by (cases s; cases e) (auto simp: release_step_def state_newer_def state_le_refl
        intro: activation_le rollback_le split: option.split)
qed

text \<open>
  A release that has been rolled back never runs again: it is neither the current nor the
  previous one, and it can only be below the high-water mark or quarantined at it.
\<close>

definition retired :: "u64 \<Rightarrow> release_state option \<Rightarrow> bool" where
  "retired r s = (case s of None \<Rightarrow> False | Some c \<Rightarrow>
     valid_state c \<and> rs_current_release c \<noteq> r \<and> rs_previous_release c \<noteq> r \<and> r \<noteq> 0 \<and>
     r \<le> rs_high_release c \<and>
     (r = rs_high_release c \<longrightarrow> rs_quarantined_release c = r \<and> rs_previous_release c = 0))"

lemma retired_step:
  assumes "retired r s"
  shows "retired r (release_step s e)"
proof -
  from assms obtain c where s: "s = Some c" and c: "valid_state c" "rs_current_release c \<noteq> r"
    "rs_previous_release c \<noteq> r" "r \<noteq> 0" "r \<le> rs_high_release c"
    "r = rs_high_release c \<longrightarrow> rs_quarantined_release c = r \<and> rs_previous_release c = 0"
    by (auto simp: retired_def split: option.splits)
  have act: "retired r (Some t)" if "activation_state_for candidate d (Some c) = Some t" for candidate d t
    using that
  proof (cases rule: activation_Some)
    case same
    with c show ?thesis by (simp add: retired_def)
  next
    case fresh
    with c have ne: "pm_release_counter (pv_manifest candidate) \<noteq> r" by auto
    with c fresh have "r < pm_release_counter (pv_manifest candidate)" by auto
    with c fresh ne show ?thesis
      by (auto simp: retired_def activated_state_fields max_def)
  qed
  have "retired r (Some t)" if "rollback_release c b = Some t" for b t
    using rollback_Some [OF that] c by (auto simp: retired_def)
  with act s assms show ?thesis
    by (cases e) (auto simp: release_step_def split: option.split)
qed

interpretation retirement: machine release_step "retired r" for r
  by unfold_locales (rule retired_step)

lemma rollback_retires:
  assumes "rollback_release c b = Some t"
  shows "retired (rs_current_release c) (Some t)"
proof -
  have "rs_current_release c \<noteq> 0" "rs_current_release c \<le> rs_high_release c"
    "rs_previous_release c \<noteq> rs_current_release c"
    using rollback_Some(1) [OF assms] by (auto simp: valid_state_def split: if_splits)
  with rollback_Some [OF assms] show ?thesis by (auto simp: retired_def)
qed

section \<open>Selection between the slots\<close>

text \<open>
  The selected state is valid, and no slot holds a newer valid one; two valid slots of one
  generation with different contents are refused.
\<close>

lemma select_newest:
  assumes "sr_ok (select_release_state a b crypto)"
  defines "s \<equiv> dr_state (sr_decoded (select_release_state a b crypto))"
  shows "valid_state s"
    "dr_ok (decode_release_state a crypto) \<Longrightarrow> rs_generation (dr_state (decode_release_state a crypto)) \<le> rs_generation s"
    "dr_ok (decode_release_state b crypto) \<Longrightarrow> rs_generation (dr_state (decode_release_state b crypto)) \<le> rs_generation s"
    "s = dr_state (decode_release_state a crypto) \<and> dr_ok (decode_release_state a crypto) \<or>
     s = dr_state (decode_release_state b crypto) \<and> dr_ok (decode_release_state b crypto)"
  using assms decode_release_stateD(10) [of a crypto] decode_release_stateD(10) [of b crypto]
  by (auto simp: select_release_state_def sr_ok_def Let_def decode_failure_def dr_ok_def split: if_splits)

section \<open>Properties\<close>


text \<open>The release-state file is canonical and checksummed: \<open>decode_release_state\<close> accepts exactly the
  bytes \<open>encode_release_state\<close> writes for a state that \<open>valid_state\<close> admits, and returns that state.\<close>

theorem release_state_format:
  "dr_ok (decode_release_state bs crypto) \<and> dr_state (decode_release_state bs crypto) = s \<longleftrightarrow>
     storable_state crypto s \<and> er_bytes (encode_release_state s crypto) = bs"
  using release_codec.decode_iff [of bs crypto s] by (simp split: if_splits)

text \<open>C29. Along any sequence of activations and rollbacks from the empty state, the state at any time is
  valid and no older than the states before it: same application and signer, generation, high
  release and security epoch never decrease, one high release never stands for two packages.\<close>

theorem release_never_goes_back:
  "release_inv (foldl release_step None (take (n + k) events)) \<and>
   state_newer (foldl release_step None (take n events)) (foldl release_step None (take (n + k) events))"
proof -
  have start: "release_inv None" by (simp add: release_inv_def)
  show ?thesis
    using release_ratchet.run_inv [OF start] release_ratchet.later_newer [OF start, of n "n + k"] by simp
qed

text \<open>C27. A release that was rolled back stays retired through every later sequence of activations and
  rollbacks: it is never again the current release nor the one a rollback would return to.\<close>

theorem rolled_back_never_again:
  "case rollback_release c record_failure of None \<Rightarrow> True
   | Some t \<Rightarrow> retired (rs_current_release c) (foldl release_step (Some t) events)"
  by (simp add: rollback_retires retirement.run_inv split: option.split)

end
