(* ===== verification/State_Store.thy ===== *)
theory State_Store
  imports Release_State
begin

text \<open>
  The durable two-slot store of release states (\<open>platform/src/storage/state_store.cpp\<close>). The
  file system is the state: the directories on the way to an application's directory, each
  absent, trusted or not, and the files \<open>state.a\<close> and \<open>state.b\<close>. The calls that open, create and
  write fail by the faults of an operation, so that the properties range over every such failure
  and, because a slot changes by an atomic rename only, over every crash between the calls. The
  calls that read a directory or a slot fail by the view the operation runs on
  (\<open>hide_slots\<close>, \<open>restore_slots\<close>): a slot whose \<open>openat\<close>, \<open>fstat\<close> or \<open>read\<close> fails looks like a
  damaged one, and keeps its contents.
\<close>

section \<open>The file system\<close>

datatype dir_state = Dir_absent | Dir_untrusted | Dir_trusted

datatype slot_file = Slot_missing | Slot_unreadable | Slot_bytes bytes

record app_directory =
  ad_dir :: dir_state
  ad_slot_a :: slot_file
  ad_slot_b :: slot_file

record state_root =
  sd_root :: dir_state
  sd_apps :: dir_state
  sd_application :: "string \<Rightarrow> app_directory"

text \<open>
  The outcome of one \<open>write_slot\<close>: no random suffix; failure before the rename (the slot keeps
  its contents); failure of the directory sync after the rename (the slot has the new contents,
  the caller sees an error); success.
\<close>

datatype slot_write = Slot_written | Slot_random_failed | Slot_failed_before | Slot_failed_after

text \<open>
  The outcome of \<open>ensure_directory_at\<close> on a directory that is trusted or missing: it opens; it
  fails, and a missing directory stays missing; a missing directory is created, but its sync or
  its opening fails.
\<close>

datatype dir_open = Dir_opens | Dir_open_fails | Dir_created_unsynced

record store_faults =
  sf_apps :: dir_open
  sf_application :: dir_open
  sf_first :: slot_write
  sf_second :: slot_write
  sf_parent_sync_ok :: bool

datatype store_status =
    Store_written | Store_written_degraded | Store_loaded | Store_loaded_degraded | Store_not_found
  | Store_uninitialized | Store_invalid_argument | Store_root_untrusted | Store_path_rejected
  | Store_state_invalid | Store_io_error | Store_random_unavailable | Store_unsupported_platform

record store_result =
  st_status :: store_status
  st_detail :: string
  st_selected :: selected_state

definition no_selection :: selected_state where
  "no_selection = \<lparr>sr_decoded = decode_failure Release_invalid_layout [], sr_slot = 0,
     sr_redundancy_degraded = False\<rparr>"

definition store_result :: "store_status \<Rightarrow> string \<Rightarrow> store_result" where
  "store_result status detail = \<lparr>st_status = status, st_detail = detail, st_selected = no_selection\<rparr>"

definition st_ok :: "store_result \<Rightarrow> bool" where
  "st_ok r \<longleftrightarrow> st_status r = Store_written \<or> st_status r = Store_written_degraded \<or>
     st_status r = Store_loaded \<or> st_status r = Store_loaded_degraded"

section \<open>Opening\<close>

datatype open_status = Opened | Open_missing | Open_untrusted

text \<open>\<open>open_directory_at\<close> / \<open>ensure_directory_at\<close> followed by \<open>trusted_directory\<close>.\<close>

definition open_directory :: "bool \<Rightarrow> dir_open \<Rightarrow> dir_state \<Rightarrow> dir_state \<times> open_status" where
  "open_directory create outcome d =
     (case d of
        Dir_trusted \<Rightarrow> (Dir_trusted, if outcome = Dir_opens then Opened else Open_untrusted)
      | Dir_untrusted \<Rightarrow> (Dir_untrusted, Open_untrusted)
      | Dir_absent \<Rightarrow>
          if \<not> create then (Dir_absent, Open_missing)
          else (case outcome of Dir_opens \<Rightarrow> (Dir_trusted, Opened)
                | Dir_open_fails \<Rightarrow> (Dir_absent, Open_untrusted)
                | Dir_created_unsynced \<Rightarrow> (Dir_trusted, Open_untrusted)))"

definition open_store ::
    "string \<Rightarrow> string \<Rightarrow> bool \<Rightarrow> dir_open \<Rightarrow> dir_open \<Rightarrow> state_root \<Rightarrow> state_root \<times> open_status" where
  "open_store store_root app_id create apps_open application_open fs =
     (if store_root = [] \<or> hd store_root \<noteq> slash then (fs, Open_untrusted)
      else if sd_root fs \<noteq> Dir_trusted then (fs, Open_untrusted)
      else case open_directory create apps_open (sd_apps fs) of (apps, status) \<Rightarrow>
        let fs = fs\<lparr>sd_apps := apps\<rparr> in
        if status \<noteq> Opened then (fs, status)
        else case open_directory create application_open (ad_dir (sd_application fs app_id)) of (d, status) \<Rightarrow>
          (fs\<lparr>sd_application := (sd_application fs)(app_id := (sd_application fs app_id)\<lparr>ad_dir := d\<rparr>)\<rparr>, status))"

section \<open>Slots\<close>

definition write_slot :: "slot_write \<Rightarrow> bytes \<Rightarrow> slot_file \<Rightarrow> slot_file" where
  "write_slot outcome bs old =
     (if outcome = Slot_written \<or> outcome = Slot_failed_after then Slot_bytes bs else old)"

definition set_slot :: "bool \<Rightarrow> slot_write \<Rightarrow> bytes \<Rightarrow> app_directory \<Rightarrow> app_directory" where
  "set_slot is_b outcome bs d =
     (if is_b then d\<lparr>ad_slot_b := write_slot outcome bs (ad_slot_b d)\<rparr>
      else d\<lparr>ad_slot_a := write_slot outcome bs (ad_slot_a d)\<rparr>)"

text \<open>One slot of the directory of an application.\<close>

definition put_slot :: "string \<Rightarrow> bool \<Rightarrow> slot_write \<Rightarrow> bytes \<Rightarrow> state_root \<Rightarrow> state_root" where
  "put_slot app is_b outcome bs fs =
     fs\<lparr>sd_application := (sd_application fs)(app := set_slot is_b outcome bs (sd_application fs app))\<rparr>"

datatype slot_read = Read_ok bytes | Read_missing | Read_invalid

definition read_slot :: "slot_file \<Rightarrow> slot_read" where
  "read_slot f =
     (case f of Slot_missing \<Rightarrow> Read_missing | Slot_unreadable \<Rightarrow> Read_invalid
      | Slot_bytes bs \<Rightarrow> if length bs = 0 \<or> 512 < length bs then Read_invalid else Read_ok bs)"

definition slot_contents :: "slot_read \<Rightarrow> bytes" where
  "slot_contents r = (case r of Read_ok bs \<Rightarrow> bs | _ \<Rightarrow> [])"

section \<open>Persist and load\<close>

definition persist_release_state ::
    "string \<Rightarrow> release_state \<Rightarrow> evp_library \<Rightarrow> store_faults \<Rightarrow> state_root \<Rightarrow> store_result \<times> state_root" where
  "persist_release_state store_root state crypto faults fs =
     (let app = rs_app_id state in
      if store_root = [] \<or> \<not> safe_app_id app
      then (store_result Store_invalid_argument ''STATE_STORE_ARGUMENT_INVALID'', fs)
      else let encoded = encode_release_state state crypto in
      if \<not> er_ok encoded then (store_result Store_state_invalid ''STATE_STORE_STATE_INVALID'', fs)
      else case open_store store_root app True (sf_apps faults) (sf_application faults) fs of (fs, opened) \<Rightarrow>
      if opened \<noteq> Opened then (store_result Store_root_untrusted ''STATE_STORE_PATH_UNTRUSTED'', fs)
      else
        let first_is_b = (rs_generation state mod 2 = 0);
            fs = put_slot app first_is_b (sf_first faults) (er_bytes encoded) fs
        in if sf_first faults = Slot_random_failed
        then (store_result Store_random_unavailable ''STATE_STORE_RANDOM_UNAVAILABLE'', fs)
        else if sf_first faults \<noteq> Slot_written
        then (store_result Store_io_error ''STATE_STORE_FIRST_SLOT_FAILED'', fs)
        else
          let fs = put_slot app (\<not> first_is_b) (sf_second faults) (er_bytes encoded) fs
          in if \<not> sf_parent_sync_ok faults
          then (store_result Store_written_degraded ''STATE_STORE_PARENT_SYNC_DEGRADED'', fs)
          else if sf_second faults \<noteq> Slot_written
          then (store_result Store_written_degraded ''STATE_STORE_SECOND_SLOT_DEGRADED'', fs)
          else (store_result Store_written ''STATE_STORE_WRITTEN'', fs))"

definition load_release_state :: "string \<Rightarrow> string \<Rightarrow> evp_library \<Rightarrow> state_root \<Rightarrow> store_result" where
  "load_release_state store_root app_id crypto fs =
     (if store_root = [] \<or> \<not> safe_app_id app_id
      then store_result Store_invalid_argument ''STATE_STORE_ARGUMENT_INVALID''
      else case snd (open_store store_root app_id False Dir_opens Dir_opens fs) of
        Open_missing \<Rightarrow> store_result Store_not_found ''STATE_STORE_NOT_FOUND''
      | Open_untrusted \<Rightarrow> store_result Store_root_untrusted ''STATE_STORE_PATH_UNTRUSTED''
      | Opened \<Rightarrow>
          let slot_a = read_slot (ad_slot_a (sd_application fs app_id));
              slot_b = read_slot (ad_slot_b (sd_application fs app_id))
          in if slot_a = Read_missing \<and> slot_b = Read_missing
          then store_result Store_uninitialized ''STATE_STORE_UNINITIALIZED''
          else let selected = select_release_state (slot_contents slot_a) (slot_contents slot_b) crypto
          in if \<not> sr_ok selected \<or> rs_app_id (dr_state (sr_decoded selected)) \<noteq> app_id
          then (store_result Store_state_invalid ''STATE_STORE_INVALID'')\<lparr>st_selected := selected\<rparr>
          else if sr_redundancy_degraded selected
          then \<lparr>st_status = Store_loaded_degraded, st_detail = ''STATE_STORE_LOADED_DEGRADED'', st_selected = selected\<rparr>
          else \<lparr>st_status = Store_loaded, st_detail = ''STATE_STORE_LOADED'', st_selected = selected\<rparr>)"

text \<open>The state a load yields.\<close>

definition loaded_state :: "string \<Rightarrow> string \<Rightarrow> evp_library \<Rightarrow> state_root \<Rightarrow> release_state option" where
  "loaded_state store_root app_id crypto fs =
     (let r = load_release_state store_root app_id crypto fs in
      if st_ok r then Some (dr_state (sr_decoded (st_selected r))) else None)"

section \<open>Crash safety\<close>

lemma select_new:
  assumes old: "sr_ok (select_release_state a b crypto)"
    and new: "decode_release_state e crypto = \<lparr>dr_status = Release_valid, dr_detail = d, dr_state = t\<rparr>"
    and gen: "rs_generation (dr_state (sr_decoded (select_release_state a b crypto))) < rs_generation t"
  shows "sr_ok (select_release_state e b crypto) \<and> dr_state (sr_decoded (select_release_state e b crypto)) = t"
    "sr_ok (select_release_state a e crypto) \<and> dr_state (sr_decoded (select_release_state a e crypto)) = t"
proof -
  have "dr_ok (decode_release_state b crypto) \<Longrightarrow> rs_generation (dr_state (decode_release_state b crypto)) < rs_generation t"
    "dr_ok (decode_release_state a crypto) \<Longrightarrow> rs_generation (dr_state (decode_release_state a crypto)) < rs_generation t"
    using select_newest(2,3) [OF old] gen by auto
  moreover have "dr_ok (decode_release_state e crypto)" "dr_state (decode_release_state e crypto) = t"
    by (simp_all add: new dr_ok_def)
  ultimately show
    "sr_ok (select_release_state e b crypto) \<and> dr_state (sr_decoded (select_release_state e b crypto)) = t"
    "sr_ok (select_release_state a e crypto) \<and> dr_state (sr_decoded (select_release_state a e crypto)) = t"
    by (auto simp: select_release_state_def Let_def sr_ok_def)
qed

lemma select_same:
  assumes "decode_release_state e crypto = \<lparr>dr_status = Release_valid, dr_detail = d, dr_state = t\<rparr>"
  shows "sr_ok (select_release_state e e crypto) \<and> dr_state (sr_decoded (select_release_state e e crypto)) = t"
  using assms by (simp add: select_release_state_def Let_def sr_ok_def dr_ok_def)

text \<open>Writing the selected state again changes neither choice.\<close>

lemma select_again:
  assumes old: "sr_ok (select_release_state a b crypto)"
  defines "s \<equiv> dr_state (sr_decoded (select_release_state a b crypto))"
  defines "e \<equiv> er_bytes (encode_release_state s crypto)"
  shows "sr_ok (select_release_state e b crypto) \<and> dr_state (sr_decoded (select_release_state e b crypto)) = s"
    "sr_ok (select_release_state a e crypto) \<and> dr_state (sr_decoded (select_release_state a e crypto)) = s"
proof -
  let ?A = "decode_release_state a crypto" and ?B = "decode_release_state b crypto"
  have canon: "dr_ok (decode_release_state x crypto) \<Longrightarrow> dr_state (decode_release_state x crypto) = s \<Longrightarrow> x = e" for x
    using decode_release_state_storable [of x crypto] by (auto simp: e_def)
  have new: "decode_release_state e crypto = \<lparr>dr_status = Release_valid, dr_detail = ''STATE_DECODED'', dr_state = s\<rparr>"
    using select_newest(4) [OF old] decode_release_state_storable [of a crypto]
      decode_release_state_storable [of b crypto] decode_encode_release_state [of crypto s]
    by (auto simp: e_def s_def)
  have ab: "dr_ok ?A \<and> dr_ok ?B \<and> rs_generation (dr_state ?A) = rs_generation (dr_state ?B) \<Longrightarrow> a = b"
    using old by (auto simp: select_release_state_def Let_def sr_ok_def decode_failure_def dr_ok_def split: if_splits)
  have A: "a = e" if "dr_ok ?A" "rs_generation (dr_state ?A) = rs_generation s"
    using that select_newest(4) [OF old] ab canon by (auto simp: s_def)
  have B: "b = e" if "dr_ok ?B" "rs_generation (dr_state ?B) = rs_generation s"
    using that select_newest(4) [OF old] ab canon by (auto simp: s_def)
  have le: "dr_ok ?A \<Longrightarrow> rs_generation (dr_state ?A) \<le> rs_generation s"
    "dr_ok ?B \<Longrightarrow> rs_generation (dr_state ?B) \<le> rs_generation s"
    using select_newest(2,3) [OF old] by (simp_all add: s_def)
  have eok: "dr_ok (decode_release_state e crypto)" "dr_state (decode_release_state e crypto) = s"
    by (simp_all add: new dr_ok_def)
  have Bs: "dr_ok ?B \<Longrightarrow> rs_generation s = rs_generation (dr_state ?B) \<Longrightarrow> e = b"
    and As: "dr_ok ?A \<Longrightarrow> rs_generation (dr_state ?A) = rs_generation s \<Longrightarrow> a = e"
    using A B by auto
  show "sr_ok (select_release_state e b crypto) \<and> dr_state (sr_decoded (select_release_state e b crypto)) = s"
    using eok le(2) Bs by (auto simp: select_release_state_def Let_def sr_ok_def)
  show "sr_ok (select_release_state a e crypto) \<and> dr_state (sr_decoded (select_release_state a e crypto)) = s"
    using eok le(1) As by (auto simp: select_release_state_def Let_def sr_ok_def)
qed

text \<open>The directories of an application are in place and its two slots hold these bytes.\<close>

definition slots_of :: "string \<Rightarrow> state_root \<Rightarrow> bytes \<times> bytes" where
  "slots_of app fs = (slot_contents (read_slot (ad_slot_a (sd_application fs app))),
     slot_contents (read_slot (ad_slot_b (sd_application fs app))))"

definition store_open :: "string \<Rightarrow> string \<Rightarrow> state_root \<Rightarrow> bool" where
  "store_open store_root app fs \<longleftrightarrow> store_root \<noteq> [] \<and> hd store_root = slash \<and> sd_root fs = Dir_trusted \<and>
     sd_apps fs = Dir_trusted \<and> ad_dir (sd_application fs app) = Dir_trusted"

lemma open_store_open [simp]:
  "store_open store_root app fs \<Longrightarrow> open_store store_root app create apps_open app_open fs =
     (fs, if apps_open = Dir_opens \<and> app_open = Dir_opens then Opened else Open_untrusted)"
  by (cases fs; cases "sd_application fs app")
    (auto simp: store_open_def open_store_def open_directory_def fun_eq_iff)

lemma open_store_not_created:
  "snd (open_store store_root app False Dir_opens Dir_opens fs) = Opened \<longleftrightarrow> store_open store_root app fs"
  by (auto simp: store_open_def open_store_def open_directory_def Let_def split: dir_state.splits if_splits)

lemma decode_empty: "\<not> dr_ok (decode_release_state [] crypto)"
  by (simp add: decode_release_state_def state_sizes dr_ok_def decode_failure_def)

lemma loaded_state_iff:
  "loaded_state store_root app crypto fs = Some s \<longleftrightarrow>
     safe_app_id app \<and> store_open store_root app fs \<and> rs_app_id s = app \<and>
     (case slots_of app fs of (a, b) \<Rightarrow>
       sr_ok (select_release_state a b crypto) \<and> dr_state (sr_decoded (select_release_state a b crypto)) = s)"
proof -
  have none: "\<not> sr_ok (select_release_state [] [] crypto)"
    using decode_empty by (simp add: select_release_state_def Let_def sr_ok_def decode_failure_def dr_ok_def)
  have "store_root \<noteq> []" if "store_open store_root app fs" using that by (simp add: store_open_def)
  with none show ?thesis
    using open_store_not_created [of store_root app fs]
    by (cases "snd (open_store store_root app False Dir_opens Dir_opens fs)")
      (auto simp: loaded_state_def load_release_state_def Let_def store_result_def st_ok_def slots_of_def
        slot_contents_def split: if_splits)
qed

lemma encoded_slot:
  assumes "storable_state crypto t"
  defines "e \<equiv> er_bytes (encode_release_state t crypto)"
  shows "er_ok (encode_release_state t crypto)" "slot_contents (read_slot (Slot_bytes e)) = e"
    "decode_release_state e crypto = \<lparr>dr_status = Release_valid, dr_detail = ''STATE_DECODED'', dr_state = t\<rparr>"
    "safe_app_id (rs_app_id t)"
proof -
  have v: "valid_state t" "state_typed t" using assms(1) by (simp_all add: storable_state_def)
  show "er_ok (encode_release_state t crypto)"
    by (rule encode_storable [OF assms(1)]) (simp add: er_ok_def)
  obtain checksum where "length checksum = 32" "e = state_body t @ checksum"
    unfolding e_def by (rule encode_storable [OF assms(1)]) simp
  then have "length e = 320 + length (rs_app_id t)"
    using valid_state_ids [OF v(1)] length_state_body [OF v(2)] by simp
  then show "slot_contents (read_slot (Slot_bytes e)) = e"
    using valid_state_ids [OF v(1)] by (simp add: read_slot_def slot_contents_def)
  show "decode_release_state e crypto = \<lparr>dr_status = Release_valid, dr_detail = ''STATE_DECODED'', dr_state = t\<rparr>"
    unfolding e_def by (rule decode_encode_release_state [OF assms(1)])
  show "safe_app_id (rs_app_id t)"
    using v(1) by (simp add: valid_state_def app_id_validators_agree split: if_splits)
qed

text \<open>What one slot write does to the opened store.\<close>

lemma store_open_put [simp]:
  "store_open store_root app (put_slot app is_b outcome bs fs) = store_open store_root app fs"
  by (simp add: store_open_def put_slot_def set_slot_def)

lemma slots_of_put:
  assumes "slot_contents (read_slot (Slot_bytes bs)) = bs" "slots_of app fs = (a, b)"
  shows "slots_of app (put_slot app is_b outcome bs fs) =
    (if outcome = Slot_written \<or> outcome = Slot_failed_after
     then (if is_b then (a, bs) else (bs, b)) else (a, b))"
  using assms by (simp add: slots_of_def put_slot_def set_slot_def write_slot_def)

definition state_follows :: "evp_library \<Rightarrow> release_state \<Rightarrow> release_state \<Rightarrow> bool" where
  "state_follows crypto s t \<longleftrightarrow> storable_state crypto t \<and> rs_app_id t = rs_app_id s \<and>
     (rs_generation s < rs_generation t \<or> t = s)"

lemma persist_follows:
  fixes faults :: store_faults
  assumes loaded: "loaded_state store_root app crypto fs = Some s"
    and follows: "state_follows crypto s t"
  defines "p \<equiv> persist_release_state store_root t crypto faults fs"
  shows "loaded_state store_root app crypto (snd p) \<in> {Some s, Some t}"
    "st_ok (fst p) \<Longrightarrow> loaded_state store_root app crypto (snd p) = Some t"
proof -
  obtain a b where ab: "slots_of app fs = (a, b)" by fastforce
  define e where "e = er_bytes (encode_release_state t crypto)"
  from loaded ab have so: "store_open store_root app fs" and app: "rs_app_id s = app" "safe_app_id app"
    and old: "sr_ok (select_release_state a b crypto)" "dr_state (sr_decoded (select_release_state a b crypto)) = s"
    by (simp_all add: loaded_state_iff)
  have st: "storable_state crypto t" and t: "rs_app_id t = app" and gen: "rs_generation s < rs_generation t \<or> t = s"
    using follows app by (simp_all add: state_follows_def)
  note enc = encoded_slot [OF st, folded e_def]
  have new: "sr_ok (select_release_state e b crypto) \<and> dr_state (sr_decoded (select_release_state e b crypto)) = t"
    "sr_ok (select_release_state a e crypto) \<and> dr_state (sr_decoded (select_release_state a e crypto)) = t"
    using gen select_new [OF old(1) enc(3)] select_again [OF old(1)] old(2) by (auto simp: e_def)
  note same = select_same [OF enc(3)]
  have root: "store_root \<noteq> []" using so by (simp add: store_open_def)
  define fs1 where "fs1 = put_slot app (rs_generation t mod 2 = 0) (sf_first faults) e fs"
  define fs2 where "fs2 = put_slot app (rs_generation t mod 2 \<noteq> 0) (sf_second faults) e fs1"
  let ?yields = "\<lambda>fs u. loaded_state store_root app crypto fs = Some u"
  have so12: "store_open store_root app fs1" "store_open store_root app fs2"
    using so by (simp_all add: fs1_def fs2_def)
  have s1: "slots_of app fs1 = (if sf_first faults = Slot_written \<or> sf_first faults = Slot_failed_after
     then (if rs_generation t mod 2 = 0 then (a, e) else (e, b)) else (a, b))"
    unfolding fs1_def by (rule slots_of_put [OF enc(2) ab])
  have y1: "?yields fs1 t" if "sf_first faults = Slot_written \<or> sf_first faults = Slot_failed_after"
    using that new old gen so12 app t s1 by (simp add: loaded_state_iff)
  have y1': "?yields fs1 s" if "\<not> (sf_first faults = Slot_written \<or> sf_first faults = Slot_failed_after)"
    using that old so12 app s1 by (simp add: loaded_state_iff)
  have y2: "?yields fs2 t" if w: "sf_first faults = Slot_written"
  proof -
    have "slots_of app fs2 \<in> {slots_of app fs1, (e, e)}"
      unfolding fs2_def using slots_of_put [OF enc(2), of app fs1] s1 w by (cases "rs_generation t mod 2 = 0") auto
    then show ?thesis using y1 w so12 app t same by (auto simp: loaded_state_iff)
  qed
  define opens where "opens \<longleftrightarrow> sf_apps faults = Dir_opens \<and> sf_application faults = Dir_opens"
  have p: "snd p = (if \<not> opens then fs else if sf_first faults = Slot_written then fs2 else fs1)"
    "st_ok (fst p) \<longleftrightarrow> opens \<and> sf_first faults = Slot_written"
    using so app t enc(1,4) root unfolding p_def persist_release_state_def Let_def e_def [symmetric]
    by (auto simp: opens_def fs1_def fs2_def store_result_def st_ok_def)
  show "loaded_state store_root app crypto (snd p) \<in> {Some s, Some t}"
    "st_ok (fst p) \<Longrightarrow> loaded_state store_root app crypto (snd p) = Some t"
    using p y1 y1' y2 loaded by (auto split: if_splits)
qed

interpretation state_store: atomic_store
  "\<lambda>fs t faults. (snd (persist_release_state store_root t crypto faults fs),
                  st_ok (fst (persist_release_state store_root t crypto faults fs)))"
  "loaded_state store_root app crypto" "state_follows crypto" for store_root app crypto
  by unfold_locales (use persist_follows in \<open>simp_all\<close>)

text \<open>What a commit does to the stored state of any application, whatever is committed.\<close>

lemma encode_ok_storable:
  assumes "er_ok (encode_release_state t crypto)" "state_typed t"
  shows "storable_state crypto t"
  using assms by (auto simp: storable_state_def encode_release_state_def er_ok_def split: if_splits option.splits)

lemma persist_general:
  fixes faults :: store_faults
  assumes loaded: "loaded_state store_root app crypto fs = Some s"
    and t: "rs_app_id t = app" "rs_generation s < rs_generation t \<or> t = s" "state_typed t"
  defines "p \<equiv> persist_release_state store_root t crypto faults fs"
  shows "loaded_state store_root app crypto (snd p) \<in> {Some s, Some t}"
    "st_ok (fst p) \<Longrightarrow> loaded_state store_root app crypto (snd p) = Some t"
proof -
  have "loaded_state store_root app crypto (snd p) \<in> {Some s, Some t} \<and>
    (st_ok (fst p) \<longrightarrow> loaded_state store_root app crypto (snd p) = Some t)"
  proof (cases "er_ok (encode_release_state t crypto)")
    case True
    then have "state_follows crypto s t"
      using encode_ok_storable [OF True t(3)] t loaded by (auto simp: state_follows_def loaded_state_iff)
    from persist_follows [OF loaded this, of faults] show ?thesis by (simp add: p_def)
  next
    case False
    then show ?thesis
      using loaded by (simp add: p_def persist_release_state_def Let_def store_result_def st_ok_def)
  qed
  then show "loaded_state store_root app crypto (snd p) \<in> {Some s, Some t}"
    "st_ok (fst p) \<Longrightarrow> loaded_state store_root app crypto (snd p) = Some t" by simp_all
qed

lemma open_store_other:
  assumes "app' \<noteq> app" "store_open store_root app' fs"
  shows "store_open store_root app' (fst (open_store store_root app create apps_open app_open fs)) \<and>
    slots_of app' (fst (open_store store_root app create apps_open app_open fs)) = slots_of app' fs"
  using assms by (auto simp: open_store_def open_directory_def store_open_def slots_of_def Let_def
      split: dir_state.splits dir_open.splits if_splits)

lemma persist_other:
  fixes faults :: store_faults
  assumes loaded: "loaded_state store_root app' crypto fs = Some s" and "app' \<noteq> rs_app_id t"
  shows "loaded_state store_root app' crypto (snd (persist_release_state store_root t crypto faults fs)) = Some s"
proof -
  have put: "store_open store_root app' (put_slot (rs_app_id t) b out bs f) = store_open store_root app' f"
    "slots_of app' (put_slot (rs_app_id t) b out bs f) = slots_of app' f" for b out bs f
    using assms(2) by (simp_all add: put_slot_def store_open_def slots_of_def)
  obtain f opened where o: "open_store store_root (rs_app_id t) True (sf_apps faults) (sf_application faults) fs = (f, opened)"
    by fastforce
  have "store_open store_root app' f" "slots_of app' f = slots_of app' fs"
    using open_store_other [OF assms(2), of store_root fs True "sf_apps faults" "sf_application faults"] loaded o
    by (simp_all add: loaded_state_iff)
  then have "store_open store_root app' f2 \<and> slots_of app' f2 = slots_of app' fs"
    if "f2 = snd (persist_release_state store_root t crypto faults fs)" for f2
    using loaded that by (auto simp: persist_release_state_def Let_def o put loaded_state_iff)
  then show ?thesis using loaded by (simp add: loaded_state_iff)
qed

section \<open>Reads that fail\<close>

text \<open>
  What a load sees while the calls that read fail: whether the directory of an application opens
  and its two slots are read. The failure lasts for the operation; \<open>restore_slots\<close> gives what is
  stored after an operation on the view, where a slot that was not written keeps its contents.
\<close>

record slot_reads =
  sl_open :: bool
  sl_a :: bool
  sl_b :: bool

definition slot_reads_work :: "slot_reads \<Rightarrow> bool" where
  "slot_reads_work reads \<longleftrightarrow> sl_open reads \<and> sl_a reads \<and> sl_b reads"

definition hide_slots :: "(string \<Rightarrow> slot_reads) \<Rightarrow> state_root \<Rightarrow> state_root" where
  "hide_slots reads fs = fs\<lparr>sd_application := (\<lambda>app.
     let d = sd_application fs app in
     d\<lparr>ad_dir := if sl_open (reads app) then ad_dir d else Dir_untrusted,
       ad_slot_a := if sl_a (reads app) then ad_slot_a d else Slot_unreadable,
       ad_slot_b := if sl_b (reads app) then ad_slot_b d else Slot_unreadable\<rparr>)\<rparr>"

definition restore_slot :: "bool \<Rightarrow> slot_file \<Rightarrow> slot_file \<Rightarrow> slot_file" where
  "restore_slot read_ok stored later = (if read_ok \<or> later \<noteq> Slot_unreadable then later else stored)"

definition restore_slots :: "(string \<Rightarrow> slot_reads) \<Rightarrow> state_root \<Rightarrow> state_root \<Rightarrow> state_root" where
  "restore_slots reads fs later = later\<lparr>sd_application := (\<lambda>app.
     let d = sd_application fs app; d' = sd_application later app in
     d'\<lparr>ad_dir := if sl_open (reads app) then ad_dir d' else ad_dir d,
        ad_slot_a := restore_slot (sl_a (reads app)) (ad_slot_a d) (ad_slot_a d'),
        ad_slot_b := restore_slot (sl_b (reads app)) (ad_slot_b d) (ad_slot_b d')\<rparr>)\<rparr>"

text \<open>An application whose reads work is seen, and left, as it is stored.\<close>

lemma loaded_state_cong:
  assumes "sd_root fs = sd_root fs'" "sd_apps fs = sd_apps fs'" "sd_application fs app = sd_application fs' app"
  shows "loaded_state store_root app crypto fs = loaded_state store_root app crypto fs'"
proof -
  have "loaded_state store_root app crypto fs = Some s \<longleftrightarrow> loaded_state store_root app crypto fs' = Some s" for s
    using assms by (simp add: loaded_state_iff store_open_def slots_of_def)
  then show ?thesis by (metis not_None_eq)
qed

lemma slot_reads_work_seen:
  assumes "slot_reads_work (reads app)"
  shows "loaded_state store_root app crypto (hide_slots reads fs) = loaded_state store_root app crypto fs"
    "loaded_state store_root app crypto (restore_slots reads fs later) = loaded_state store_root app crypto later"
  by (rule loaded_state_cong; use assms in \<open>simp add: hide_slots_def restore_slots_def restore_slot_def slot_reads_work_def\<close>)+

section \<open>Properties\<close>

text \<open>C26. A commit of the two-slot store is atomic whatever fails during it: after
  \<open>persist_release_state\<close> of a successor of the stored state, loading gives the old state or the
  new one, and gives the new one when the call reported success.\<close>

theorem persist_atomic:
  assumes "loaded_state store_root app crypto fs = Some s" and "state_follows crypto s t"
  shows "case persist_release_state store_root t crypto faults fs of (r, fs') \<Rightarrow>
    (if st_ok r then loaded_state store_root app crypto fs' = Some t
     else loaded_state store_root app crypto fs' = Some s \<or> loaded_state store_root app crypto fs' = Some t)"
  using state_store.commit_atomic [OF assms, of faults] state_store.commit_acknowledged [OF assms, of faults]
  by (cases "persist_release_state store_root t crypto faults fs") auto

definition sample_state :: release_state where
  "sample_state = no_state\<lparr>rs_app_id := ''top.lvgl.game2048'', rs_signing_key_id := replicate 32 (CHR ''1''),
     rs_generation := 1, rs_current_release := 1, rs_high_release := 1,
     rs_current_digest := replicate 64 2, rs_high_digest := replicate 64 2\<rparr>"

definition sample_hashes :: evp_library where
  "sample_hashes = \<lparr>evp_sha256 = (\<lambda>_. Some (replicate 32 1)), evp_sha512 = (\<lambda>_. Some (replicate 64 2)),
     evp_verify = (\<lambda>key message signature. True)\<rparr>"

definition sample_store :: state_root where
  "sample_store = \<lparr>sd_root = Dir_trusted, sd_apps = Dir_trusted, sd_application = (\<lambda>_.
     \<lparr>ad_dir = Dir_trusted, ad_slot_a = Slot_bytes (er_bytes (encode_release_state sample_state sample_hashes)),
      ad_slot_b = Slot_missing\<rparr>)\<rparr>"

lemma sample_state_storable:
  "storable_state sample_hashes sample_state"
  "storable_state sample_hashes (sample_state\<lparr>rs_generation := 2\<rparr>)"
  by code_simp+

lemma sample_store_loaded:
  "loaded_state ''/userdata'' ''top.lvgl.game2048'' sample_hashes sample_store = Some sample_state"
proof -
  have "slots_of ''top.lvgl.game2048'' sample_store = (er_bytes (encode_release_state sample_state sample_hashes), [])"
    using encoded_slot(2) [OF sample_state_storable(1)]
    by (simp add: slots_of_def sample_store_def read_slot_def slot_contents_def)
  moreover have "safe_app_id ''top.lvgl.game2048''" "rs_app_id sample_state = ''top.lvgl.game2048''"
    by code_simp+
  moreover have "store_open ''/userdata'' ''top.lvgl.game2048'' sample_store"
    by (simp add: store_open_def sample_store_def slash_def)
  ultimately show ?thesis
    using encoded_slot(3) [OF sample_state_storable(1)] decode_empty [of sample_hashes]
    by (simp add: loaded_state_iff select_release_state_def Let_def sr_ok_def dr_ok_def)
qed

lemma persist_atomic_witness:
  "case persist_release_state ''/userdata'' (sample_state\<lparr>rs_generation := 2\<rparr>) sample_hashes
     \<lparr>sf_apps = Dir_opens, sf_application = Dir_opens, sf_first = Slot_written, sf_second = Slot_failed_before, sf_parent_sync_ok = True\<rparr> sample_store of (r, fs') \<Rightarrow>
    (if st_ok r then loaded_state ''/userdata'' ''top.lvgl.game2048'' sample_hashes fs' = Some (sample_state\<lparr>rs_generation := 2\<rparr>)
     else loaded_state ''/userdata'' ''top.lvgl.game2048'' sample_hashes fs' = Some sample_state \<or>
       loaded_state ''/userdata'' ''top.lvgl.game2048'' sample_hashes fs' = Some (sample_state\<lparr>rs_generation := 2\<rparr>))"
  by (rule persist_atomic [OF sample_store_loaded])
    (simp add: state_follows_def sample_state_storable, simp add: sample_state_def)

end
