(* ===== verification/Release_Staging.thy ===== *)
theory Release_Staging
  imports State_Store
begin

text \<open>
  The payload store (\<open>platform/src/storage/safe_path.cpp\<close>): a verified package is unpacked into a
  fresh staging directory, which one rename without replacement turns into the release. The
  releases of an application are trees of files; a tree maps the components of a relative path to
  a directory or a file. The system calls that can fail do so by the faults of the operation. What
  a failed attempt leaves behind in its own staging directory is not modelled beyond the directory
  itself: its random name is never opened again.
\<close>

section \<open>Trees\<close>

datatype node = Directory | File u16 bytes

type_synonym tree = "string list \<Rightarrow> node option"

text \<open>The loop over the components, from the position \<open>start\<close> on.\<close>

function split_path :: "string \<Rightarrow> string list" where
  "split_path [] = []"
| "split_path (c # cs) =
     (let component = takeWhile (\<lambda>x. x \<noteq> slash) (c # cs);
          rest = dropWhile (\<lambda>x. x \<noteq> slash) (c # cs)
      in component # (case rest of [] \<Rightarrow> [] | _ # rest' \<Rightarrow> split_path rest'))"
  by pat_completeness auto
termination
proof (relation "measure length")
  fix c cs component rest s rest'
  assume "rest = dropWhile (\<lambda>x. x \<noteq> slash) (c # cs)" "rest = s # rest'"
  then have "length (s # rest') \<le> length (c # cs)"
    using length_dropWhile_le [of "\<lambda>x. x \<noteq> slash" "c # cs"] by metis
  then show "(rest', c # cs) \<in> measure length" by simp
qed simp

text \<open>\<open>ensure_directory_at\<close> below the stage; \<open>None\<close> when a file is in the way.\<close>

definition ensure_directory :: "string list \<Rightarrow> tree \<Rightarrow> tree option" where
  "ensure_directory path t =
     (case t path of None \<Rightarrow> Some (t(path \<mapsto> Directory)) | Some Directory \<Rightarrow> Some t | Some (File _ _) \<Rightarrow> None)"

text \<open>The parent directories of the last component.\<close>

fun ensure_parents :: "string list \<Rightarrow> string list \<Rightarrow> tree \<Rightarrow> tree option" where
  "ensure_parents prefix [] t = Some t"
| "ensure_parents prefix [_] t = Some t"
| "ensure_parents prefix (c # d # cs) t =
     (case ensure_directory (prefix @ [c]) t of None \<Rightarrow> None
      | Some t' \<Rightarrow> ensure_parents (prefix @ [c]) (d # cs) t')"

text \<open>\<open>openat\<close> with \<open>O_CREAT | O_EXCL\<close>, write, mode and sync; \<open>ok\<close> says that the calls succeed.\<close>

definition create_exclusive :: "bool \<Rightarrow> string list \<Rightarrow> u16 \<Rightarrow> bytes \<Rightarrow> tree \<Rightarrow> tree option" where
  "create_exclusive ok path mode bs t =
     (if t path \<noteq> None \<or> \<not> ok then None else Some (t(path \<mapsto> File mode bs)))"

definition create_file :: "bool \<Rightarrow> package_file \<Rightarrow> bytes \<Rightarrow> tree \<Rightarrow> tree option" where
  "create_file ok f payload t =
     (let components = split_path (pf_path f) in
      if components = [] then None
      else case ensure_parents [] components t of None \<Rightarrow> None
      | Some t' \<Rightarrow> create_exclusive ok components (pf_mode f) payload t')"

definition package_name :: "string list" where "package_name = [''.package.lvapp'']"
definition marker_name :: "string list" where "marker_name = [''.package.sha512'']"

definition create_package_copy :: "bool \<Rightarrow> bytes \<Rightarrow> bytes \<Rightarrow> tree \<Rightarrow> tree option" where
  "create_package_copy ok bs package_digest t =
     (case create_exclusive ok package_name 256 bs t of None \<Rightarrow> None
      | Some t' \<Rightarrow> create_exclusive ok marker_name 256 package_digest t')"

definition release_package_matches :: "tree \<Rightarrow> bytes \<Rightarrow> bytes \<Rightarrow> bool" where
  "release_package_matches t bs package_digest \<longleftrightarrow>
     (case t package_name of
        Some (File mode stored) \<Rightarrow> mode AND 146 = 0 \<and> stored = bs \<and>
          (case t marker_name of Some (File _ marker) \<Rightarrow> marker = package_digest | _ \<Rightarrow> False)
      | _ \<Rightarrow> False)"

section \<open>The store\<close>

record app_releases =
  ar_dir :: dir_state
  ar_releases_dir :: dir_state
  ar_releases :: "string \<Rightarrow> tree option"

record payload_root =
  pr_root :: dir_state
  pr_apps :: dir_state
  pr_app :: "string \<Rightarrow> app_releases"

datatype rename_outcome = Rename_ok | Rename_exists | Rename_failed

text \<open>
  The faults of one staging: the opening of the root, the opening or creation of \<open>apps\<close>, the
  application's directory and \<open>releases\<close>, the look-up of the release and the reading of its
  package, the random suffix (with its value), the creation and the opening of the stage, the
  writes of each file, of the package copy, the rename, the final syncs.
\<close>

record stage_faults =
  sg_root_ok :: bool
  sg_directories :: "dir_open \<times> dir_open \<times> dir_open"
  sg_lookup_ok :: bool
  sg_match_ok :: bool
  sg_random :: "bytes option"
  sg_stage_ok :: bool
  sg_stage_open_ok :: bool
  sg_file_ok :: "nat \<Rightarrow> bool"
  sg_copy_ok :: bool
  sg_rename :: rename_outcome
  sg_sync_ok :: bool

datatype storage_result_status =
    Staged_committed | Staged_already_present | Staged_invalid_argument
  | Staged_package_not_authenticated | Staged_root_untrusted | Staged_path_rejected
  | Staged_release_collision | Staged_random_unavailable | Staged_io_error
  | Staged_unsupported_platform

record storage_result =
  so_status :: storage_result_status
  so_detail :: string
  so_release_path :: string

definition staged :: "storage_result_status \<Rightarrow> string \<Rightarrow> storage_result" where
  "staged status detail = \<lparr>so_status = status, so_detail = detail, so_release_path = []\<rparr>"

definition staged_ok :: "storage_result \<Rightarrow> bool" where
  "staged_ok r \<longleftrightarrow> so_status r = Staged_committed \<or> so_status r = Staged_already_present"

definition safe_component :: "string \<Rightarrow> bool" where
  "safe_component v =
     (if v = [] \<or> 128 < length v \<or> v = ''.'' \<or> v = ''..'' then False
      else list_all (\<lambda>c. is_lower c \<or> is_digit c \<or> c = dot \<or> c = dash) v)"

definition release_name_of :: "u64 \<Rightarrow> string" where
  "release_name_of counter = dec_string (unat counter)"

definition stage_name_of :: "u64 \<Rightarrow> bytes \<Rightarrow> string" where
  "stage_name_of counter random = ''.stage-'' @ dec_string (unat counter) @ ''-'' @ hex_of_bytes random"

definition release_path_of :: "string \<Rightarrow> string \<Rightarrow> string \<Rightarrow> string" where
  "release_path_of store_root app name = store_root @ ''/apps/'' @ app @ ''/releases/'' @ name"

section \<open>Staging\<close>

text \<open>The loop over the manifest's files; the index selects the fault.\<close>

fun unpack_files :: "(nat \<Rightarrow> bool) \<Rightarrow> nat \<Rightarrow> bytes \<Rightarrow> u64 \<Rightarrow> package_file list \<Rightarrow> tree \<Rightarrow>
    (storage_result_status \<times> string) + tree" where
  "unpack_files file_ok n bs payload_start [] t = Inr t"
| "unpack_files file_ok n bs payload_start (f # fs) t =
     (let room = length bs - unat payload_start in
      if room < unat (pf_offset f) \<or> room - unat (pf_offset f) < unat (pf_size f)
      then Inl (Staged_invalid_argument, ''STORAGE_FILE_RANGE_INVALID'')
      else case create_file (file_ok n) f
          (bytes_at (unat payload_start + unat (pf_offset f)) (unat (pf_size f)) bs) t of
        None \<Rightarrow> Inl (Staged_io_error, ''STORAGE_FILE_WRITE_FAILED'')
      | Some t' \<Rightarrow> unpack_files file_ok (Suc n) bs payload_start fs t')"

definition set_release :: "string \<Rightarrow> string \<Rightarrow> tree option \<Rightarrow> payload_root \<Rightarrow> payload_root" where
  "set_release app name t fs =
     fs\<lparr>pr_app := (pr_app fs)(app := (pr_app fs app)\<lparr>ar_releases := (ar_releases (pr_app fs app))(name := t)\<rparr>)\<rparr>"

text \<open>\<open>apps\<close>, the application's directory and its \<open>releases\<close>, each created when missing.\<close>

definition open_releases ::
    "dir_open \<times> dir_open \<times> dir_open \<Rightarrow> string \<Rightarrow> payload_root \<Rightarrow> payload_root \<times> bool" where
  "open_releases opens app fs =
     (case opens of (apps_open, application_open, releases_open) \<Rightarrow>
      case open_directory True apps_open (pr_apps fs) of (apps, status) \<Rightarrow>
      let fs = fs\<lparr>pr_apps := apps\<rparr> in
      if status \<noteq> Opened then (fs, False)
      else case open_directory True application_open (ar_dir (pr_app fs app)) of (d, status) \<Rightarrow>
      let fs = fs\<lparr>pr_app := (pr_app fs)(app := (pr_app fs app)\<lparr>ar_dir := d\<rparr>)\<rparr> in
      if status \<noteq> Opened then (fs, False)
      else case open_directory True releases_open (ar_releases_dir (pr_app fs app)) of (d, status) \<Rightarrow>
      (fs\<lparr>pr_app := (pr_app fs)(app := (pr_app fs app)\<lparr>ar_releases_dir := d\<rparr>)\<rparr>, status = Opened))"

definition stage_verified_release ::
    "string \<Rightarrow> bytes \<Rightarrow> package_verification \<Rightarrow> bytes \<Rightarrow> stage_faults \<Rightarrow> payload_root \<Rightarrow>
     storage_result \<times> payload_root" where
  "stage_verified_release store_root bs verification package_digest faults fs =
     (let manifest = pv_manifest verification; app = pm_app_id manifest;
          counter = pm_release_counter manifest in
      if store_root = [] \<or> bs = [] \<or> \<not> safe_component app \<or> counter = 0
      then (staged Staged_invalid_argument ''STORAGE_ARGUMENT_INVALID'', fs)
      else if \<not> pv_ok verification \<or> pv_development verification \<or> \<not> pv_signature_verified verification
      then (staged Staged_package_not_authenticated ''STORAGE_PACKAGE_NOT_AUTHENTICATED'', fs)
      else if length bs < unat (pv_payload_start verification)
      then (staged Staged_invalid_argument ''STORAGE_PACKAGE_LAYOUT_INVALID'', fs)
      else if hd store_root \<noteq> slash
      then (staged Staged_invalid_argument ''STORAGE_ROOT_MUST_BE_ABSOLUTE'', fs)
      else if pr_root fs \<noteq> Dir_trusted \<or> \<not> sg_root_ok faults
      then (staged Staged_root_untrusted ''STORAGE_ROOT_UNTRUSTED'', fs)
      else case open_releases (sg_directories faults) app fs of (fs, opened) \<Rightarrow>
      if \<not> opened then (staged Staged_path_rejected ''STORAGE_DIRECTORY_REJECTED'', fs)
      else
        let name = release_name_of counter; releases = ar_releases (pr_app fs app);
            present = (\<lambda>status detail. \<lparr>so_status = status, so_detail = detail,
              so_release_path = release_path_of store_root app name\<rparr>)
        in if \<not> sg_lookup_ok faults
        then (staged Staged_path_rejected ''STORAGE_RELEASE_PATH_REJECTED'', fs)
        else case releases name of
          Some t \<Rightarrow>
            if sg_match_ok faults \<and> release_package_matches t bs package_digest
            then (present Staged_already_present ''STORAGE_RELEASE_ALREADY_PRESENT'', fs)
            else (staged Staged_release_collision ''STORAGE_RELEASE_COLLISION'', fs)
        | None \<Rightarrow>
          (case sg_random faults of
             None \<Rightarrow> (staged Staged_random_unavailable ''STORAGE_RANDOM_UNAVAILABLE'', fs)
           | Some random \<Rightarrow>
             let stage = stage_name_of counter random in
             if releases stage \<noteq> None \<or> \<not> sg_stage_ok faults
             then (staged Staged_io_error ''STORAGE_STAGE_CREATE_FAILED'', fs)
             else if \<not> sg_stage_open_ok faults
             then (staged Staged_path_rejected ''STORAGE_STAGE_REJECTED'', set_release app stage (Some Map.empty) fs)
             else case unpack_files (sg_file_ok faults) 0 bs (pv_payload_start verification)
                         (pm_files manifest) Map.empty of
               Inl (status, detail) \<Rightarrow> (staged status detail, set_release app stage (Some Map.empty) fs)
             | Inr t \<Rightarrow>
               (case create_package_copy (sg_copy_ok faults) bs package_digest t of
                  None \<Rightarrow> (staged Staged_io_error ''STORAGE_METADATA_WRITE_FAILED'',
                           set_release app stage (Some t) fs)
                | Some t' \<Rightarrow>
                  (case sg_rename faults of
                     Rename_exists \<Rightarrow> (staged Staged_release_collision ''STORAGE_RELEASE_ALREADY_EXISTS'',
                                       set_release app stage (Some t') fs)
                   | Rename_failed \<Rightarrow> (staged Staged_io_error ''STORAGE_RELEASE_COMMIT_FAILED'',
                                       set_release app stage (Some t') fs)
                   | Rename_ok \<Rightarrow>
                       let fs = set_release app name (Some t') fs in
                       if \<not> sg_sync_ok faults
                       then (staged Staged_io_error ''STORAGE_DIRECTORY_SYNC_FAILED'', fs)
                       else (present Staged_committed ''STORAGE_RELEASE_COMMITTED'', fs)))))"

section \<open>What a staged release is\<close>

definition file_slice :: "bytes \<Rightarrow> u64 \<Rightarrow> package_file \<Rightarrow> bytes" where
  "file_slice bs payload_start f = bytes_at (unat payload_start + unat (pf_offset f)) (unat (pf_size f)) bs"

text \<open>Every file of the manifest with its mode and its bytes of the payload, the package itself
  and its digest.\<close>

definition release_complete :: "bytes \<Rightarrow> bytes \<Rightarrow> u64 \<Rightarrow> package_file list \<Rightarrow> tree \<Rightarrow> bool" where
  "release_complete bs package_digest payload_start files t \<longleftrightarrow>
     list_all (\<lambda>f. t (split_path (pf_path f)) = Some (File (pf_mode f) (file_slice bs payload_start f))) files \<and>
     t package_name = Some (File 256 bs) \<and> t marker_name = Some (File 256 package_digest)"

text \<open>Files are only ever added: what a path holds as a file, it keeps.\<close>

definition keeps_files :: "tree \<Rightarrow> tree \<Rightarrow> bool" where
  "keeps_files t t' \<longleftrightarrow> (\<forall>p m b. t p = Some (File m b) \<longrightarrow> t' p = Some (File m b))"

lemma keeps_files_refl [simp]: "keeps_files t t"
  by (simp add: keeps_files_def)

lemma keeps_files_trans: "keeps_files t t' \<Longrightarrow> keeps_files t' t'' \<Longrightarrow> keeps_files t t''"
  by (simp add: keeps_files_def)

lemma ensure_directory_keeps: "ensure_directory p t = Some t' \<Longrightarrow> keeps_files t t'"
  by (auto simp: ensure_directory_def keeps_files_def split: option.splits node.splits)

lemma ensure_parents_keeps: "ensure_parents prefix cs t = Some t' \<Longrightarrow> keeps_files t t'"
  by (induction prefix cs t rule: ensure_parents.induct)
    (auto split: option.splits intro: keeps_files_trans ensure_directory_keeps)

lemma create_exclusive_keeps:
  "create_exclusive ok p m b t = Some t' \<Longrightarrow> keeps_files t t' \<and> t' p = Some (File m b)"
  by (auto simp: create_exclusive_def keeps_files_def split: if_splits)

lemma create_file_keeps:
  "create_file ok f payload t = Some t' \<Longrightarrow>
   keeps_files t t' \<and> t' (split_path (pf_path f)) = Some (File (pf_mode f) payload)"
  by (auto simp: create_file_def Let_def split: if_splits option.splits
      dest: ensure_parents_keeps create_exclusive_keeps intro: keeps_files_trans)

lemma unpack_files_complete:
  "unpack_files ok n bs start fs t = Inr t' \<Longrightarrow>
   keeps_files t t' \<and>
   list_all (\<lambda>f. t' (split_path (pf_path f)) = Some (File (pf_mode f) (file_slice bs start f))) fs"
proof (induction ok n bs start fs t rule: unpack_files.induct)
  case (2 ok n bs start f fs t)
  then obtain u where u: "create_file (ok n) f (file_slice bs start f) t = Some u"
    and r: "unpack_files ok (Suc n) bs start fs u = Inr t'"
    by (auto simp: Let_def file_slice_def split: if_splits option.splits)
  from 2 u r have ih: "keeps_files u t'"
    "list_all (\<lambda>f. t' (split_path (pf_path f)) = Some (File (pf_mode f) (file_slice bs start f))) fs"
    by (auto simp: Let_def file_slice_def split: if_splits option.splits)
  with create_file_keeps [OF u] show ?case
    by (auto intro: keeps_files_trans simp: keeps_files_def)
qed simp

lemma create_package_copy_complete:
  assumes "create_package_copy ok bs d t = Some t'"
  shows "keeps_files t t'" "t' package_name = Some (File 256 bs)" "t' marker_name = Some (File 256 d)"
proof -
  from assms obtain u where u: "create_exclusive ok package_name 256 bs t = Some u"
    and v: "create_exclusive ok marker_name 256 d u = Some t'"
    by (auto simp: create_package_copy_def split: option.splits)
  note ku = create_exclusive_keeps [OF u] and kv = create_exclusive_keeps [OF v]
  show "keeps_files t t'" using ku kv keeps_files_trans by blast
  show "t' package_name = Some (File 256 bs)" using ku kv by (simp add: keeps_files_def)
  show "t' marker_name = Some (File 256 d)" using kv by simp
qed

lemma staged_release_complete:
  assumes "unpack_files ok 0 bs start fs Map.empty = Inr t" "create_package_copy ok' bs d t = Some t'"
  shows "release_complete bs d start fs t'"
  using unpack_files_complete [OF assms(1)] create_package_copy_complete [OF assms(2)]
  by (auto simp: release_complete_def keeps_files_def list_all_iff)

text \<open>A staging directory never has the name of a release.\<close>

lemma dec_string_digits: "list_all is_digit (dec_string n) \<and> dec_string n \<noteq> []"
proof (induction n rule: dec_string.induct)
  case (1 n)
  have d: "k < 10 \<Longrightarrow> is_digit (char_of (48 + k))" for k :: nat
    by (simp add: is_digit_def code_def)
  show ?case
    using 1 d [of n] d [of "n mod 10"] by (subst (1 2) dec_string.simps) simp
qed

lemma stage_name_fresh: "stage_name_of c r \<noteq> release_name_of c'"
proof
  assume e: "stage_name_of c r = release_name_of c'"
  have "hd (stage_name_of c r) = dot" by (simp add: stage_name_of_def dot_def)
  moreover have "is_digit (hd (release_name_of c'))"
    using dec_string_digits [of "unat c'"] by (cases "dec_string (unat c')") (auto simp: release_name_of_def)
  ultimately show False using e by simp
qed

lemma unpack_files_errors:
  "unpack_files ok n bs start fs t \<noteq> Inl (Staged_committed, e)"
  "unpack_files ok n bs start fs t \<noteq> Inl (Staged_already_present, e)"
  by (induction ok n bs start fs t rule: unpack_files.induct) (auto simp: Let_def split: option.splits)

lemma open_releases_keeps:
  "ar_releases (pr_app (fst (open_releases opens app fs)) a) = ar_releases (pr_app fs a)"
  by (auto simp: open_releases_def Let_def split: prod.splits)

lemma ar_releases_set_release [simp]:
  "ar_releases (pr_app (set_release app name t fs) a) b =
     (if a = app \<and> b = name then t else ar_releases (pr_app fs a) b)"
  by (simp add: set_release_def)

text \<open>
  Whatever fails, a release of the store is either what it was, or it is new and complete; it is
  complete when the staging reports success.
\<close>

lemma stage_atomic:
  fixes verification faults fs
  defines "m \<equiv> pv_manifest verification"
  assumes s: "stage_verified_release store_root bs verification d faults fs = (r, fs')"
  shows "let name = release_name_of (pm_release_counter m);
      old = ar_releases (pr_app fs (pm_app_id m)) name;
      new = ar_releases (pr_app fs' (pm_app_id m)) name in
    (new = old \<or> old = None \<and> (\<exists>t. new = Some t \<and>
       release_complete bs d (pv_payload_start verification) (pm_files m) t)) \<and>
    (so_status r = Staged_committed \<longrightarrow> old = None \<and> (\<exists>t. new = Some t \<and>
       release_complete bs d (pv_payload_start verification) (pm_files m) t)) \<and>
    (so_status r = Staged_already_present \<longrightarrow> new = old \<and> (\<exists>t. old = Some t \<and> release_package_matches t bs d))"
proof -
  obtain fs1 opened where o: "open_releases (sg_directories faults) (pm_app_id m) fs = (fs1, opened)"
    by fastforce
  have keep: "ar_releases (pr_app fs1 a) = ar_releases (pr_app fs a)" for a
    using open_releases_keeps [of "sg_directories faults" "pm_app_id m" fs a] o by simp
  note [simp] = stage_name_fresh [THEN not_sym] unpack_files_errors
  show ?thesis
    using s keep unfolding stage_verified_release_def Let_def m_def [symmetric] o prod.case
    by (auto split: if_splits option.splits sum.splits rename_outcome.splits prod.splits simp: staged_def
        intro: staged_release_complete)
qed

section \<open>Properties\<close>

text \<open>C30. Staging is atomic under every fault: a release directory of the application is either left as
  it was or appears complete (every declared file with its bytes and mode, the package and its
  digest), it is complete when the call reports that it committed, and when it reports that the
  release was already there, the copy of the package in it and its digest are those of this package
  (the files beside them are not compared).\<close>

theorem staging_atomic:
  "let m = pv_manifest v;
       p = stage_verified_release store_root bs v d faults fs;
       old = ar_releases (pr_app fs (pm_app_id m)) (release_name_of (pm_release_counter m));
       new = ar_releases (pr_app (snd p) (pm_app_id m)) (release_name_of (pm_release_counter m));
       created = (old = None \<and> (\<exists>t. new = Some t \<and>
         release_complete bs d (pv_payload_start v) (pm_files m) t))
   in (case so_status (fst p) of
         Staged_committed \<Rightarrow> created
       | Staged_already_present \<Rightarrow> new = old \<and> (\<exists>t. old = Some t \<and> release_package_matches t bs d)
       | _ \<Rightarrow> new = old \<or> created)"
proof -
  obtain r fs' where r: "stage_verified_release store_root bs v d faults fs = (r, fs')" by fastforce
  show ?thesis
    using stage_atomic [OF r] r by (auto simp: Let_def split: storage_result_status.split)
qed

end
