(* ===== verification/Package_Installer.thy ===== *)
theory Package_Installer
  imports Release_Staging
begin

text \<open>
  The installation of a package (\<open>platform/src/package/package_installer.cpp\<close>): verification by
  the compiled trust store, digest, the stored state, policy, staging, state transition, commit.
  The world of an installation is the payload store and the state store; its environment the
  parser, the cryptographic library and the faults of the calls.
\<close>

section \<open>Data\<close>

datatype installer_outcome =
    Installed | Already_installed | Installed_state_degraded | Trust_rejected | Digest_failed
  | State_unavailable | Policy_rejected | Storage_failed | Transition_failed | State_commit_failed

record installer_result =
  in_status :: installer_outcome
  in_detail :: string
  in_verification :: package_verification
  in_active_state :: "release_state option"

definition in_ok :: "installer_result \<Rightarrow> bool" where
  "in_ok r \<longleftrightarrow> in_status r = Installed \<or> in_status r = Already_installed \<or>
     in_status r = Installed_state_degraded"

record install_world =
  wo_payload :: payload_root
  wo_state :: state_root

record install_environment =
  en_parse :: "bytes \<Rightarrow> json option"
  en_crypto :: evp_library
  en_trust :: trust_store
  en_payload_root :: string
  en_state_root :: string

definition high_water_from :: "release_state \<Rightarrow> high_water_mark" where
  "high_water_from s =
     \<lparr>hw_app_id = rs_app_id s, hw_signing_key_id = rs_signing_key_id s,
      hw_release_counter = rs_high_release s, hw_security_epoch = rs_high_security_epoch s,
      hw_package_digest = rs_high_digest s\<rparr>"

section \<open>The installation\<close>

text \<open>The part after the state has been loaded, for a package of digest \<open>package_digest\<close>.\<close>

definition install_loaded ::
    "install_environment \<Rightarrow> policy_context \<Rightarrow> bytes \<Rightarrow> stage_faults \<times> store_faults \<Rightarrow> install_world \<Rightarrow>
     package_verification \<Rightarrow> bytes \<Rightarrow> release_state option \<Rightarrow> installer_result \<times> install_world" where
  "install_loaded env ctx bs faults w v package_digest current =
     (let crypto = en_crypto env;
          result = (\<lambda>status detail active. \<lparr>in_status = status, in_detail = detail,
            in_verification = v, in_active_state = active\<rparr>);
          policy = evaluate_install_policy v package_digest ctx (map_option high_water_from current)
      in if pd_status policy \<noteq> Policy_allowed then (result Policy_rejected (pd_detail policy) None, w)
      else case stage_verified_release (en_payload_root env) bs v package_digest (fst faults) (wo_payload w) of
        (storage, payload) \<Rightarrow>
          let w = w\<lparr>wo_payload := payload\<rparr>
          in if \<not> staged_ok storage then (result Storage_failed (so_detail storage) None, w)
          else case activation_state_for v package_digest current of
            None \<Rightarrow> (result Transition_failed ''INSTALLER_STATE_TRANSITION_REJECTED'' None, w)
          | Some next_state \<Rightarrow>
            (case persist_release_state (en_state_root env) next_state crypto (snd faults) (wo_state w) of
              (stored, state_fs) \<Rightarrow>
              (if \<not> st_ok stored then result State_commit_failed (st_detail stored) (Some next_state)
               else if st_status stored = Store_written_degraded
               then result Installed_state_degraded ''INSTALLER_INSTALLED_STATE_DEGRADED'' (Some next_state)
               else if so_status storage = Staged_already_present \<and> current \<noteq> None \<and>
                       rs_generation (the current) = rs_generation next_state
               then result Already_installed ''INSTALLER_ALREADY_INSTALLED'' (Some next_state)
               else result Installed ''INSTALLER_INSTALLED'' (Some next_state),
               w\<lparr>wo_state := state_fs\<rparr>)))"

definition install_official_package ::
    "install_environment \<Rightarrow> policy_context \<Rightarrow> bytes \<Rightarrow> stage_faults \<times> store_faults \<Rightarrow> install_world \<Rightarrow>
     installer_result \<times> install_world" where
  "install_official_package env ctx bs faults w =
     (let crypto = en_crypto env;
          v = trust_verify (en_trust env) (en_parse env) crypto bs;
          app = pm_app_id (pv_manifest v);
          fail = (\<lambda>status detail. (\<lparr>in_status = status, in_detail = detail,
            in_verification = v, in_active_state = None\<rparr>, w))
      in if \<not> pv_ok v then fail Trust_rejected (pv_detail v)
      else case sha512 crypto bs of
        None \<Rightarrow> fail Digest_failed ''INSTALLER_DIGEST_FAILED''
      | Some package_digest \<Rightarrow>
        let load = load_release_state (en_state_root env) app crypto (wo_state w)
        in if st_status load = Store_loaded \<or> st_status load = Store_loaded_degraded
        then install_loaded env ctx bs faults w v package_digest (Some (dr_state (sr_decoded (st_selected load))))
        else if st_status load \<noteq> Store_not_found
        then fail State_unavailable
          (if st_status load = Store_uninitialized then ''INSTALLER_REPAIR_REQUIRED'' else st_detail load)
        else install_loaded env ctx bs faults w v package_digest None)"

section \<open>Installing never rolls back\<close>

lemma loaded_storable:
  assumes "loaded_state store_root app crypto fs = Some s"
  shows "storable_state crypto s"
proof -
  obtain a b where "slots_of app fs = (a, b)" by fastforce
  then have "sr_ok (select_release_state a b crypto)" "dr_state (sr_decoded (select_release_state a b crypto)) = s"
    using assms by (simp_all add: loaded_state_iff)
  with select_newest(4) [of a b crypto] show ?thesis
    using decode_release_state_storable [of a crypto] decode_release_state_storable [of b crypto] by auto
qed

lemma activated_state_typed:
  "length d = 64 \<Longrightarrow> state_typed c \<Longrightarrow> state_typed (activated_state v d (Some c))"
  by (simp add: activated_state_def Let_def state_typed_def no_state_def zeros64_def)

lemma activation_follows:
  assumes "activation_state_for v d (Some c) = Some t" "length d = 64" "state_typed c"
  shows "rs_app_id t = rs_app_id c" "rs_generation c < rs_generation t \<or> t = c" "state_typed t" "state_le c t"
    "rs_current_release t = pm_release_counter (pv_manifest v)" "rs_app_id t = pm_app_id (pv_manifest v)"
proof -
  show "state_le c t" using assms(1) by (rule activation_le)
  from assms(1) have "(rs_generation c < rs_generation t \<or> t = c) \<and> state_typed t \<and> rs_app_id t = rs_app_id c \<and>
      rs_current_release t = pm_release_counter (pv_manifest v) \<and> rs_app_id t = pm_app_id (pv_manifest v)"
  proof (cases rule: activation_Some)
    case same
    then have "rs_app_id c = pm_app_id (pv_manifest v)"
      using assms(1) by (auto simp: activation_state_for_def Let_def split: if_splits)
    with same assms show ?thesis by simp
  next
    case fresh
    then show ?thesis
      using assms activated_state_typed
      by (auto simp: activated_state_fields generation_step)
  qed
  then show "rs_app_id t = rs_app_id c" "rs_generation c < rs_generation t \<or> t = c" "state_typed t"
    "rs_current_release t = pm_release_counter (pv_manifest v)" "rs_app_id t = pm_app_id (pv_manifest v)"
    by blast+
qed

text \<open>
  The two ways an installation can end: the state store is untouched, or the transition of the
  loaded state was committed with some faults.
\<close>

lemma install_loaded_cases:
  fixes env ctx bs faults w v d current
  obtains (untouched) r w' where "install_loaded env ctx bs faults w v d current = (r, w')"
      "wo_state w' = wo_state w" "\<not> in_ok r"
  | (committed) r w' next_state where
      "install_loaded env ctx bs faults w v d current = (r, w')"
      "activation_state_for v d current = Some next_state"
      "wo_state w' = snd (persist_release_state (en_state_root env) next_state (en_crypto env) (snd faults) (wo_state w))"
      "in_ok r \<longleftrightarrow> st_ok (fst (persist_release_state (en_state_root env) next_state (en_crypto env) (snd faults) (wo_state w)))"
      "in_active_state r = Some next_state"
proof (cases "activation_state_for v d current")
  case None
  show ?thesis
    by (rule untouched [OF surjective_pairing])
      (simp_all add: install_loaded_def Let_def None in_ok_def split: prod.split)
next
  case (Some next_state)
  obtain storage payload where st: "stage_verified_release (en_payload_root env) bs v d (fst faults) (wo_payload w) = (storage, payload)"
    by fastforce
  obtain stored fs where p: "persist_release_state (en_state_root env) next_state (en_crypto env) (snd faults) (wo_state w) = (stored, fs)"
    by fastforce
  show ?thesis
  proof (cases "pd_status (evaluate_install_policy v d ctx (map_option high_water_from current)) = Policy_allowed \<and> staged_ok storage")
    case True
    then show ?thesis
      by (intro committed [OF surjective_pairing Some])
        (simp_all add: install_loaded_def Let_def Some st p in_ok_def)
  next
    case False
    then show ?thesis
      by (intro untouched [OF surjective_pairing]) (auto simp: install_loaded_def Let_def Some st in_ok_def)
  qed
qed

lemma install_cases:
  fixes env ctx bs faults w
  defines "v \<equiv> trust_verify (en_trust env) (en_parse env) (en_crypto env) bs"
  obtains (untouched) r w' where "install_official_package env ctx bs faults w = (r, w')"
      "wo_state w' = wo_state w" "\<not> in_ok r"
  | (committed) r w' d next_state where
      "install_official_package env ctx bs faults w = (r, w')"
      "sha512 (en_crypto env) bs = Some d" "pv_ok v"
      "activation_state_for v d (loaded_state (en_state_root env) (pm_app_id (pv_manifest v)) (en_crypto env) (wo_state w)) = Some next_state"
      "wo_state w' = snd (persist_release_state (en_state_root env) next_state (en_crypto env) (snd faults) (wo_state w))"
      "in_ok r \<longleftrightarrow> st_ok (fst (persist_release_state (en_state_root env) next_state (en_crypto env) (snd faults) (wo_state w)))"
      "in_active_state r = Some next_state"
proof -
  define load where "load = load_release_state (en_state_root env) (pm_app_id (pv_manifest v)) (en_crypto env) (wo_state w)"
  define current where "current = loaded_state (en_state_root env) (pm_app_id (pv_manifest v)) (en_crypto env) (wo_state w)"
  show ?thesis
  proof (cases "pv_ok v \<and> (\<exists>d. sha512 (en_crypto env) bs = Some d \<and>
      install_official_package env ctx bs faults w = install_loaded env ctx bs faults w v d current)")
    case True
    then obtain d where d: "pv_ok v" "sha512 (en_crypto env) bs = Some d"
      and i: "install_official_package env ctx bs faults w = install_loaded env ctx bs faults w v d current" by blast
    show ?thesis
    proof (cases rule: install_loaded_cases [of env ctx bs faults w v d current])
      case (untouched r w')
      show ?thesis by (rule that(1) [of r w']) (simp_all add: untouched i)
    next
      case (committed r w' next_state)
      show ?thesis by (rule that(2) [of r w' d next_state]) (simp_all add: committed i d current_def [symmetric])
    qed
  next
    case False
    have "st_status load = Store_loaded \<or> st_status load = Store_loaded_degraded \<Longrightarrow>
        current = Some (dr_state (sr_decoded (st_selected load)))"
      "st_status load = Store_not_found \<Longrightarrow> current = None"
      by (simp_all add: current_def loaded_state_def load_def st_ok_def Let_def)
    with False show ?thesis
      by (intro untouched [OF surjective_pairing])
        (auto simp: install_official_package_def Let_def v_def [symmetric] load_def [symmetric] in_ok_def
          split: option.splits)
  qed
qed

text \<open>
  Whatever the package, its faults and the context: no application's stored state goes back, so
  neither its high-water mark nor its signer nor its security epoch can be lowered.
\<close>

lemma install_state_newer:
  "state_newer (loaded_state (en_state_root env) app (en_crypto env) (wo_state w))
     (loaded_state (en_state_root env) app (en_crypto env)
        (wo_state (snd (install_official_package env ctx bs faults w))))"
proof (cases "loaded_state (en_state_root env) app (en_crypto env) (wo_state w)")
  case None
  then show ?thesis by (simp add: state_newer_def)
next
  case (Some s)
  show ?thesis
  proof (cases rule: install_cases [of env ctx bs faults w])
    case (untouched r w')
    with Some show ?thesis by (simp add: state_newer_def state_le_refl)
  next
    case (committed r w' d next_state)
    let ?v = "trust_verify (en_trust env) (en_parse env) (en_crypto env) bs"
    show ?thesis
    proof (cases "app = rs_app_id next_state")
      case False
      from persist_other [OF Some this] committed Some show ?thesis
        by (simp add: state_newer_def state_le_refl)
    next
      case True
      have st: "storable_state (en_crypto env) s" by (rule loaded_storable [OF Some])
      let ?current = "loaded_state (en_state_root env) (pm_app_id (pv_manifest ?v)) (en_crypto env) (wo_state w)"
      have "rs_app_id next_state = pm_app_id (pv_manifest ?v)"
        using committed(4) by (cases ?current)
          (auto simp: activation_state_for_def activated_state_def Let_def split: if_splits)
      with True Some have cur: "?current = Some s" by simp
      note f = activation_follows [OF committed(4) [unfolded cur] sha512_length [OF committed(2)]]
      have typed: "state_typed s" using st by (simp add: storable_state_def)
      have "loaded_state (en_state_root env) app (en_crypto env) (wo_state w') \<in> {Some s, Some next_state}"
        unfolding committed(5)
        by (rule persist_general(1) [OF Some True [symmetric] f(2,3)]) (use typed in simp_all)
      then show ?thesis
        using Some f(4) [OF typed] committed(1) by (auto simp: state_newer_def state_le_refl)
    qed
  qed
qed

definition install_step ::
    "install_environment \<Rightarrow> install_world \<Rightarrow> policy_context \<times> bytes \<times> stage_faults \<times> store_faults \<Rightarrow> install_world" where
  "install_step env w attempt = (case attempt of (ctx, bs, faults) \<Rightarrow>
     snd (install_official_package env ctx bs faults w))"

definition world_newer :: "install_environment \<Rightarrow> string \<Rightarrow> install_world \<Rightarrow> install_world \<Rightarrow> bool" where
  "world_newer env app w w' =
     state_newer (loaded_state (en_state_root env) app (en_crypto env) (wo_state w))
       (loaded_state (en_state_root env) app (en_crypto env) (wo_state w'))"

interpretation install_ratchet: ratchet "install_step env" "\<lambda>_. True" "world_newer env app" "\<lambda>_. True" for env app
proof
  fix s t u :: install_world and e
  show "world_newer env app s s" by (simp add: world_newer_def release_ratchet.newer_refl)
  show "world_newer env app s t \<Longrightarrow> world_newer env app t u \<Longrightarrow> world_newer env app s u"
    unfolding world_newer_def by (rule release_ratchet.newer_trans)
  show "world_newer env app s (install_step env s e)"
    by (cases e) (simp add: world_newer_def install_step_def install_state_newer)
qed simp

section \<open>Reads that fail\<close>

text \<open>The world as an operation sees it while reads of the stored states fail, and what it leaves.\<close>

definition hide_world :: "(string \<Rightarrow> slot_reads) \<Rightarrow> install_world \<Rightarrow> install_world" where
  "hide_world reads w = w\<lparr>wo_state := hide_slots reads (wo_state w)\<rparr>"

definition restore_world :: "(string \<Rightarrow> slot_reads) \<Rightarrow> install_world \<Rightarrow> install_world \<Rightarrow> install_world" where
  "restore_world reads w later = later\<lparr>wo_state := restore_slots reads (wo_state w) (wo_state later)\<rparr>"

lemma world_newer_seen:
  assumes "slot_reads_work (reads app)" "world_newer env app (hide_world reads w) later"
  shows "world_newer env app w (restore_world reads w later)"
  using assms(2) slot_reads_work_seen [of reads app] assms(1) by (simp add: world_newer_def hide_world_def restore_world_def)

text \<open>A commit reported as complete leaves the same bytes in both slots.\<close>

lemma persist_written:
  assumes "persist_release_state store_root t crypto faults fs = (stored, later)" "st_status stored = Store_written"
    and "state_typed t"
  shows "store_open store_root (rs_app_id t) later" "storable_state crypto t"
    "ad_slot_a (sd_application later (rs_app_id t)) = Slot_bytes (er_bytes (encode_release_state t crypto))"
    "ad_slot_b (sd_application later (rs_app_id t)) = Slot_bytes (er_bytes (encode_release_state t crypto))"
proof -
  obtain f opened where o: "open_store store_root (rs_app_id t) True (sf_apps faults) (sf_application faults) fs = (f, opened)"
    by fastforce
  note p = assms(1) [unfolded persist_release_state_def Let_def o prod.case]
  have ok: "er_ok (encode_release_state t crypto)" "opened = Opened"
    using p assms(2) by (auto simp: store_result_def split: if_split_asm)
  have "store_open store_root (rs_app_id t) f"
    using o ok(2) by (auto simp: open_store_def open_directory_def store_open_def Let_def
        split: if_split_asm dir_state.split_asm dir_open.split_asm)
  then show "store_open store_root (rs_app_id t) later"
    using p assms(2) by (auto simp: store_result_def split: if_split_asm)
  show "storable_state crypto t" by (rule encode_ok_storable [OF ok(1) assms(3)])
  show "ad_slot_a (sd_application later (rs_app_id t)) = Slot_bytes (er_bytes (encode_release_state t crypto))"
    "ad_slot_b (sd_application later (rs_app_id t)) = Slot_bytes (er_bytes (encode_release_state t crypto))"
    using p assms(2) by (auto simp: store_result_def put_slot_def set_slot_def write_slot_def split: if_split_asm)
qed

lemma restored_written:
  assumes "persist_release_state store_root t crypto faults (hide_slots reads fs) = (stored, later)"
    and "st_status stored = Store_written" "state_typed t"
  shows "loaded_state store_root (rs_app_id t) crypto (restore_slots reads fs later) = Some t"
proof -
  define e where "e = er_bytes (encode_release_state t crypto)"
  note w = persist_written [OF assms, folded e_def]
  note enc = encoded_slot [OF w(2), folded e_def]
  let ?app = "rs_app_id t"
  have slots: "slots_of ?app (restore_slots reads fs later) = (e, e)"
    using w(3,4) enc(2) by (simp add: slots_of_def restore_slots_def restore_slot_def Let_def)
  have "sl_open (reads ?app)"
    using assms(1,2) by (auto simp: persist_release_state_def open_store_def open_directory_def hide_slots_def Let_def
        store_result_def split: if_split_asm dir_state.split_asm dir_open.split_asm prod.split_asm)
  then have "store_open store_root ?app (restore_slots reads fs later)"
    using w(1) by (simp add: store_open_def restore_slots_def Let_def)
  then show ?thesis using slots enc(4) select_same [OF enc(3)] by (simp add: loaded_state_iff)
qed

lemma install_loaded_written:
  assumes "install_loaded env ctx bs faults w v d current = (r, later)"
    and "in_status r = Installed \<or> in_status r = Already_installed"
  obtains t stored fs where "activation_state_for v d current = Some t"
    "persist_release_state (en_state_root env) t (en_crypto env) (snd faults) (wo_state w) = (stored, fs)"
    "st_status stored = Store_written" "wo_state later = fs"
proof -
  obtain t where t: "activation_state_for v d current = Some t"
    using assms by (auto simp: install_loaded_def Let_def split: if_split_asm prod.split_asm option.split_asm)
  obtain stored fs where p: "persist_release_state (en_state_root env) t (en_crypto env) (snd faults) (wo_state w) = (stored, fs)"
    by fastforce
  have s: "st_ok stored" "st_status stored \<noteq> Store_written_degraded" "wo_state later = fs"
    using assms by (auto simp: install_loaded_def Let_def t p split: if_split_asm prod.split_asm)
  then have "st_status stored = Store_written"
    using p by (auto simp: persist_release_state_def Let_def store_result_def st_ok_def split: if_split_asm prod.split_asm)
  then show thesis using that t p s(3) by blast
qed

lemma install_written:
  assumes "install_official_package env ctx bs faults w = (r, later)"
    and "in_status r = Installed \<or> in_status r = Already_installed"
  defines "v \<equiv> trust_verify (en_trust env) (en_parse env) (en_crypto env) bs"
  defines "current \<equiv> loaded_state (en_state_root env) (pm_app_id (pv_manifest v)) (en_crypto env) (wo_state w)"
  obtains d where "sha512 (en_crypto env) bs = Some d" "install_loaded env ctx bs faults w v d current = (r, later)"
proof -
  define load where "load = load_release_state (en_state_root env) (pm_app_id (pv_manifest v)) (en_crypto env) (wo_state w)"
  have "st_status load = Store_loaded \<or> st_status load = Store_loaded_degraded \<Longrightarrow>
      current = Some (dr_state (sr_decoded (st_selected load)))"
    "st_status load = Store_not_found \<Longrightarrow> current = None"
    by (simp_all add: current_def loaded_state_def load_def st_ok_def Let_def)
  then show thesis
    using assms(1,2) that unfolding install_official_package_def Let_def v_def [symmetric] load_def [symmetric]
    by (auto split: if_split_asm option.split_asm)
qed

section \<open>Properties\<close>


text \<open>Whatever packages are offered, in whatever order, with whatever faults of staging and of the
  state store in between, no application's stored release state ever goes back: its signer stays,
  its high-water release and security epoch do not decrease, and it is never lost.\<close>

lemma installations_never_roll_back:
  "world_newer env app (foldl (install_step env) w (take n attempts))
     (foldl (install_step env) w (take (n + k) attempts))"
  by (rule install_ratchet.later_newer) simp_all

text \<open>The slots do not protect against a read that fails: when the newer slot of an application cannot
  be read, the state is loaded from the older one, as after the loss of a slot; a package that the older
  state allows is then installed, both slots are written over, and the stored high-water release has
  gone down, with every reported error handled as the code means to.\<close>

lemma unread_slot_rolls_back:
  fixes env reads w bs
  defines "m \<equiv> pv_manifest (trust_verify (en_trust env) (en_parse env) (en_crypto env) bs)"
  defines "loaded \<equiv> loaded_state (en_state_root env) (pm_app_id m) (en_crypto env)"
  assumes newer: "loaded (wo_state w) = Some s"
    and older: "loaded (hide_slots reads (wo_state w)) = Some old"
    and lower: "rs_high_release old < rs_high_release s" "pm_release_counter m < rs_high_release s"
    and install: "install_official_package env ctx bs faults (hide_world reads w) = (r, later)"
    and installed: "in_status r = Installed \<or> in_status r = Already_installed"
  shows "(\<exists>t. loaded (wo_state (restore_world reads w later)) = Some t \<and>
      rs_current_release t = pm_release_counter m \<and> rs_high_release t < rs_high_release s) \<and>
    \<not> world_newer env (pm_app_id m) w (restore_world reads w later)"
proof -
  define v where "v = trust_verify (en_trust env) (en_parse env) (en_crypto env) bs"
  have m: "m = pv_manifest v" by (simp add: m_def v_def)
  have seen: "loaded_state (en_state_root env) (pm_app_id m) (en_crypto env) (wo_state (hide_world reads w)) = Some old"
    using older by (simp add: loaded_def hide_world_def)
  obtain d where d: "sha512 (en_crypto env) bs = Some d"
    "install_loaded env ctx bs faults (hide_world reads w) v d (Some old) = (r, later)"
    by (rule install_written [OF install installed]) (use seen in \<open>simp add: m v_def\<close>)
  obtain t stored fs where t: "activation_state_for v d (Some old) = Some t"
    "persist_release_state (en_state_root env) t (en_crypto env) (snd faults) (hide_slots reads (wo_state w)) = (stored, fs)"
    "st_status stored = Store_written" "wo_state later = fs"
    by (rule install_loaded_written [OF d(2) installed]) (simp add: hide_world_def)
  have "state_typed old" using loaded_storable [OF seen] by (simp add: storable_state_def)
  note a = activation_follows [OF t(1) sha512_length [OF d(1)] this]
  have "loaded (wo_state (restore_world reads w later)) = Some t"
    using restored_written [OF t(2,3) a(3)] a(6) t(4) by (simp add: loaded_def restore_world_def m)
  moreover have "rs_high_release t < rs_high_release s"
    using t(1) lower by (cases rule: activation_Some) (simp_all add: activated_state_fields m max_def)
  ultimately show ?thesis
    using newer a(5) by (auto simp: world_newer_def loaded_def state_newer_def state_le_def m)
qed

end
