(* ===== verification/Package_Sample.thy ===== *)
theory Package_Sample
  imports Package_Verifier
begin

text \<open>
  A concrete production package of one file, byte for byte, with a toy cryptographic library:
  the verifier accepts it, so the properties of accepted packages are not vacuous.
\<close>

unbundle bit_operations_syntax

definition sample_document :: json where
  "sample_document = JObject
    [(''appId'', JString ''a.b''), (''capabilities'', JArray []), (''entry'', JString ''run''),
     (''files'', JArray [JObject [(''mode'', JInt 493), (''path'', JString ''run''), (''role'', JString ''executable''),
        (''sha256'', JString (concat (replicate 32 ''01''))), (''size'', JInt 3)]]),
     (''formatVersion'', JInt 1),
     (''limits'', JObject [(''cpuSeconds'', JInt 1), (''dataMiB'', JInt 1), (''maxFiles'', JInt 1), (''memoryMiB'', JInt 8)]),
     (''minPlatformVersion'', JString ''1.0.0''), (''name'', JString ''x''),
     (''onlinePolicy'', JObject [(''mode'', JString ''offline-v1'')]),
     (''releaseCounter'', JInt 1), (''sdkAbi'', JString ''1.0''), (''securityEpoch'', JInt 0),
     (''signingKeyId'', JString (concat (replicate 16 ''01''))),
     (''supportedMachines'', JArray [JString ''m'']), (''supportedProfiles'', JArray [JString ''p'']),
     (''version'', JString ''1.0.0'')]"

definition sample_crypto :: evp_library where
  "sample_crypto = \<lparr>evp_sha256 = (\<lambda>_. Some (replicate 32 1)), evp_sha512 = (\<lambda>_. Some (replicate 64 2)),
     evp_verify = (\<lambda>key message signature. signature = replicate 64 7)\<rparr>"

definition sample_text :: string where
  "sample_text = the (canonical_json sample_document)"

lemma s1: "canonical_json sample_document \<noteq> None" by code_simp


definition sample_manifest :: package_manifest where "sample_manifest = the (parse_manifest sample_document)"
lemma of_nat_kMaximumPackageSize [code_unfold]: "int kMaximumPackageSize = 268435456" by (simp add: package_constants)

definition sample_entry :: bytes where
  "sample_entry = le_bytes 2 (3 :: u16) @ le_bytes 2 (493 :: u16) @ le_bytes 4 (0 :: u32) @ le_bytes 8 (3 :: u64) @
     le_bytes 8 (0 :: u64) @ replicate 32 1 @ bytes_of ''run''"


definition sample_header :: bytes where
  "sample_header = kPackageMagic @ [1, 0, 64, 0] @ le_bytes 4 (0 :: u32) @ le_bytes 4 (520 :: u32) @
     le_bytes 4 (1 :: u32) @ le_bytes 8 (59 :: u64) @ le_bytes 8 (3 :: u64) @ le_bytes 8 (646 :: u64) @
     le_bytes 8 (742 :: u64) @ le_bytes 4 (1 :: u32) @ le_bytes 4 (0 :: u32)"

definition sample_envelope :: bytes where
  "sample_envelope = kSignatureMagic @ [1, 0, 1, 0] @ replicate 16 1 @ replicate 64 7 @ replicate 4 0"

definition sample_package :: bytes where
  "sample_package = sample_header @ bytes_of sample_text @ sample_entry @ bytes_of ''abc'' @ sample_envelope"

lemma sample_lengths:
  "length sample_header = 64" "length sample_text = 520" "length sample_entry = 59" "length sample_envelope = 96"
  by code_simp+

lemma sample_in_header: "off + n \<le> 64 \<Longrightarrow> bytes_at off n sample_package = bytes_at off n sample_header"
  by (simp add: sample_package_def bytes_at_append_left sample_lengths)

lemma sample_in_text: "bytes_at 64 520 sample_package = bytes_of sample_text"
  using bytes_at_all [of "bytes_of sample_text"]
  by (simp add: sample_package_def bytes_at_append_left bytes_at_append_right sample_lengths)

lemma sample_in_entry: "584 \<le> off \<Longrightarrow> off + n \<le> 643 \<Longrightarrow> bytes_at off n sample_package = bytes_at (off - 584) n sample_entry"
  by (simp add: sample_package_def bytes_at_append_left bytes_at_append_right sample_lengths)

lemma sample_in_envelope: "646 \<le> off \<Longrightarrow> off + n \<le> 742 \<Longrightarrow> bytes_at off n sample_package = bytes_at (off - 646) n sample_envelope"
  by (simp add: sample_package_def bytes_at_append_left bytes_at_append_right sample_lengths)

lemma sample_header_fields:
  "bytes_at 0 8 sample_header = kPackageMagic"
  "get_le 8 2 sample_header = (1 :: u16)" "get_le 10 2 sample_header = (64 :: u16)"
  "get_le 12 4 sample_header = (0 :: u32)" "get_le 16 4 sample_header = (520 :: u32)"
  "get_le 20 4 sample_header = (1 :: u32)" "get_le 24 8 sample_header = (59 :: u64)"
  "get_le 32 8 sample_header = (3 :: u64)" "get_le 40 8 sample_header = (646 :: u64)"
  "get_le 48 8 sample_header = (742 :: u64)" "get_le 56 4 sample_header = (1 :: u32)"
  "get_le 60 4 sample_header = (0 :: u32)"
  by code_simp+

lemma sample_entry_fields:
  "get_le 0 2 sample_entry = (3 :: u16)" "get_le 2 2 sample_entry = (493 :: u16)"
  "get_le 4 4 sample_entry = (0 :: u32)" "get_le 8 8 sample_entry = (3 :: u64)"
  "get_le 16 8 sample_entry = (0 :: u64)" "bytes_at 24 32 sample_entry = replicate 32 1"
  "bytes_at 56 3 sample_entry = bytes_of ''run''" "valid_path ''run''"
  by code_simp+

lemma sample_envelope_fields:
  "bytes_at 0 8 sample_envelope = kSignatureMagic" "get_le 8 2 sample_envelope = (1 :: u16)"
  "get_le 10 2 sample_envelope = (1 :: u16)" "get_le 92 4 sample_envelope = (0 :: u32)"
  "bytes_at 12 16 sample_envelope = replicate 16 1" "bytes_at 28 64 sample_envelope = replicate 64 7"
  by code_simp+

lemma sample_document_ok:
  "canonical_json sample_document = Some sample_text" "is_object sample_document"
  "parse_manifest sample_document = Some sample_manifest"
  "pm_files sample_manifest = [\<lparr>pf_path = ''run'', pf_role = ''executable'', pf_mode = 493, pf_size = 3,
     pf_offset = 0, pf_sha256 = replicate 32 1\<rparr>]"
  "pm_signing_key_id sample_manifest = hex_of_bytes (replicate 16 1)"
  "hex_of_bytes (replicate 16 1) \<noteq> replicate 32 (CHR ''0'')"
  by code_simp+

lemma length_sample_package: "length sample_package = 742"
  by (simp add: sample_package_def sample_lengths)

lemma sample_table:
  "table_loop sample_crypto sample_package 643 3 584 0 [] (pm_files sample_manifest) =
    Inr (643, 3, pm_files sample_manifest)"
  by (simp add: sample_document_ok table_entry_def Let_def get_le_def sample_in_entry in_buffer_def length_sample_package
    sample_entry_fields [unfolded get_le_def] package_constants sha256_def digest_def sample_crypto_def)

lemma sample_signature:
  "verify_signature sample_package sample_crypto [\<lparr>tk_key = replicate 32 9, tk_production = True\<rparr>] 646
     (pm_signing_key_id sample_manifest) = Inr ()"
  by (simp add: verify_signature_def sample_document_ok Let_def get_le_def sample_in_envelope in_buffer_def length_sample_package
    sample_envelope_fields [unfolded get_le_def] key_id_def sha256_def sha512_def digest_def sample_crypto_def verify_ed25519_def)

lemma sample_files:
  "length (pm_files sample_manifest) = Suc 0" "pm_signing_key_id sample_manifest \<noteq> replicate 32 (CHR ''0'')"
  by (simp_all add: sample_document_ok(4-6))

lemma sample_verified:
  "pv_ok (verify_package (\<lambda>_. Some sample_document) sample_crypto sample_package
     [\<lparr>tk_key = replicate 32 9, tk_production = True\<rparr>] False)"
  by (simp add: verify_package_def Let_def package_layout_ok_def length_sample_package sample_in_text package_constants get_le_def
     sample_in_header sample_header_fields [unfolded get_le_def]
      kDevelopmentFlag_def checked_add_def in_buffer_def sample_document_ok(1-3) sample_files sample_table sample_signature pv_ok_def)

section \<open>Witnesses\<close>

lemma verify_package_sound_witness:
  "let v = verify_package (\<lambda>_. Some sample_document) sample_crypto sample_package
       [\<lparr>tk_key = replicate 32 9, tk_production = True\<rparr>] False in
   length sample_package = unat (pv_unsigned_size v) + (if pv_development v then 0 else 96) \<and>
   package_contents (\<lambda>_. Some sample_document) sample_crypto sample_package v \<and>
   (if pv_development v then False \<and> \<not> pv_signature_verified v
    else pv_signature_verified v \<and> signed_package sample_crypto
      [\<lparr>tk_key = replicate 32 9, tk_production = True\<rparr>] sample_package (pm_signing_key_id (pv_manifest v)))"
  by (rule verify_package_sound [OF _ sample_verified]) (simp add: length_sample_package)

end
