(* ===== verification/App_Registry.thy ===== *)
theory App_Registry
  imports Identifiers
begin

text \<open>
  The registry document \<open>sessiond\<close> hands to the desktop
  (\<open>platform/src/session/application_registry.cpp\<close>): a 16-byte header and one variable-length
  record per application, in strictly increasing order of the identifiers. The desktop's side
  (\<open>src/session/app_registry.cpp\<close>) is the list of descriptors it derives from it.
\<close>

section \<open>Data\<close>

definition kMaximumRegistryApplications :: nat where "kMaximumRegistryApplications = 64"
definition kMaximumRegistrySize :: nat where "kMaximumRegistrySize = 65536"
definition kRegistryMagic :: bytes where "kRegistryMagic = bytes_of ''LVREG01'' @ [0]"
definition kRegistryHeaderSize :: nat where "kRegistryHeaderSize = 16"
definition kRegistryRecordSize :: nat where "kRegistryRecordSize = 24"

lemmas registry_sizes = kMaximumRegistryApplications_def kMaximumRegistrySize_def
  kRegistryHeaderSize_def kRegistryRecordSize_def

record registered_application =
  ra_app_id :: string
  ra_name :: string
  ra_version :: string
  ra_release_counter :: u64
  ra_security_epoch :: u32
  ra_capability_count :: u32

datatype registry_status =
    Registry_valid | Registry_invalid_layout | Registry_invalid_value | Registry_non_canonical

record registry_document =
  rd_status :: registry_status
  rd_detail :: string
  rd_applications :: "registered_application list"
  rd_bytes :: bytes

definition registry_failure :: "registry_status \<Rightarrow> string \<Rightarrow> registry_document" where
  "registry_failure status detail =
     \<lparr>rd_status = status, rd_detail = detail, rd_applications = [], rd_bytes = []\<rparr>"

section \<open>Validity\<close>

definition registry_text :: "string \<Rightarrow> nat \<Rightarrow> bool" where
  "registry_text v maximum =
     (if v = [] \<or> maximum < length v then False
      else list_all (\<lambda>c. \<not> (code c = 0 \<or> code c < 0x20 \<or> code c = 0x7f)) v)"

fun registry_version_loop :: "nat \<Rightarrow> bool \<Rightarrow> string \<Rightarrow> bool" where
  "registry_version_loop dots digit [] = (dots = 2 \<and> digit)"
| "registry_version_loop dots digit (c # cs) =
     (if c = dot then (if \<not> digit \<or> 2 < dots + 1 then False else registry_version_loop (dots + 1) False cs)
      else if is_digit c then registry_version_loop dots True cs
      else False)"

definition registry_version :: "string \<Rightarrow> bool" where
  "registry_version v = (if \<not> registry_text v 32 then False else registry_version_loop 0 False v)"

definition valid_application :: "registered_application \<Rightarrow> bool" where
  "valid_application a \<longleftrightarrow> valid_session_app_id (ra_app_id a) \<and> registry_text (ra_name a) 64 \<and>
     registry_version (ra_version a) \<and> ra_release_counter a \<noteq> 0 \<and> ra_capability_count a \<le> 64"

section \<open>Encoding\<close>

definition application_blocks :: "registered_application \<Rightarrow> bytes list" where
  "application_blocks a =
     [le_bytes 2 (word_of_nat (length (ra_app_id a)) :: u16),
      le_bytes 2 (word_of_nat (length (ra_name a)) :: u16),
      le_bytes 2 (word_of_nat (length (ra_version a)) :: u16),
      le_bytes 2 (1 :: u16), le_bytes 8 (ra_release_counter a), le_bytes 4 (ra_security_epoch a),
      le_bytes 4 (ra_capability_count a),
      bytes_of (ra_app_id a), bytes_of (ra_name a), bytes_of (ra_version a)]"

text \<open>The checks of the first loop: the total size so far and the identifier before.\<close>

fun registry_total :: "nat \<Rightarrow> string \<Rightarrow> registered_application list \<Rightarrow> (registry_status \<times> string) + nat" where
  "registry_total used previous [] = Inr used"
| "registry_total used previous (a # as) =
     (if \<not> valid_application a then Inl (Registry_invalid_value, ''REGISTRY_APPLICATION_INVALID'')
      else if previous \<noteq> [] \<and> ra_app_id a \<le> previous
      then Inl (Registry_non_canonical, ''REGISTRY_ORDER_INVALID'')
      else let strings = length (ra_app_id a) + length (ra_name a) + length (ra_version a) in
        if kMaximumRegistrySize - used - kRegistryRecordSize < strings
        then Inl (Registry_invalid_value, ''REGISTRY_SIZE_INVALID'')
        else registry_total (used + kRegistryRecordSize + strings) (ra_app_id a) as)"

definition encode_application_registry :: "registered_application list \<Rightarrow> registry_document" where
  "encode_application_registry as =
     (if as = [] \<or> kMaximumRegistryApplications < length as
      then registry_failure Registry_invalid_value ''REGISTRY_COUNT_INVALID''
      else case registry_total kRegistryHeaderSize [] as of
        Inl (status, detail) \<Rightarrow> registry_failure status detail
      | Inr total_size \<Rightarrow>
          \<lparr>rd_status = Registry_valid, rd_detail = ''REGISTRY_VALID'', rd_applications = as,
           rd_bytes = kRegistryMagic @ le_bytes 2 (1 :: u16) @ le_bytes 2 (word_of_nat (length as) :: u16) @
             le_bytes 4 (word_of_nat total_size :: u32) @
             concat (map (\<lambda>a. concat (application_blocks a)) as)\<rparr>)"

section \<open>Decoding\<close>

text \<open>The loop over the records: \<open>found\<close> is \<open>result.applications\<close>.\<close>

fun registry_records :: "bytes \<Rightarrow> nat \<Rightarrow> nat \<Rightarrow> registered_application list \<Rightarrow>
    (registry_status \<times> string) + (nat \<times> registered_application list)" where
  "registry_records bs 0 cursor found = Inr (cursor, found)"
| "registry_records bs (Suc n) cursor found =
     (if length bs - cursor < kRegistryRecordSize
      then Inl (Registry_invalid_layout, ''REGISTRY_RECORD_TRUNCATED'')
      else
        let app_size = unat (get_le cursor 2 bs :: u16);
            name_size = unat (get_le (cursor + 2) 2 bs :: u16);
            version_size = unat (get_le (cursor + 4) 2 bs :: u16);
            flags = get_le (cursor + 6) 2 bs :: u16;
            at = cursor + kRegistryRecordSize;
            strings = app_size + name_size + version_size
        in if flags \<noteq> 1 \<or> length bs - at < strings
        then Inl (Registry_invalid_layout, ''REGISTRY_RECORD_INVALID'')
        else
          let a = \<lparr>ra_app_id = str_of (bytes_at at app_size bs),
                   ra_name = str_of (bytes_at (at + app_size) name_size bs),
                   ra_version = str_of (bytes_at (at + app_size + name_size) version_size bs),
                   ra_release_counter = get_le (cursor + 8) 8 bs,
                   ra_security_epoch = get_le (cursor + 16) 4 bs,
                   ra_capability_count = get_le (cursor + 20) 4 bs\<rparr>
          in if \<not> valid_application a then Inl (Registry_invalid_value, ''REGISTRY_APPLICATION_INVALID'')
          else if found \<noteq> [] \<and> ra_app_id a \<le> ra_app_id (last found)
          then Inl (Registry_non_canonical, ''REGISTRY_ORDER_INVALID'')
          else registry_records bs n (at + strings) (found @ [a]))"

definition decode_application_registry :: "bytes \<Rightarrow> registry_document" where
  "decode_application_registry bs =
     (if length bs < kRegistryHeaderSize \<or> kMaximumRegistrySize < length bs \<or>
         bytes_at 0 8 bs \<noteq> kRegistryMagic \<or> get_le 8 2 bs \<noteq> (1 :: u16) \<or>
         unat (get_le 12 4 bs :: u32) \<noteq> length bs
      then registry_failure Registry_invalid_layout ''REGISTRY_LAYOUT_INVALID''
      else let count = unat (get_le 10 2 bs :: u16) in
      if count = 0 \<or> kMaximumRegistryApplications < count
      then registry_failure Registry_invalid_value ''REGISTRY_COUNT_INVALID''
      else case registry_records bs count kRegistryHeaderSize [] of
        Inl (status, detail) \<Rightarrow> registry_failure status detail
      | Inr (cursor, applications) \<Rightarrow>
          if cursor \<noteq> length bs then registry_failure Registry_invalid_layout ''REGISTRY_TRAILING_DATA''
          else \<lparr>rd_status = Registry_valid, rd_detail = ''REGISTRY_VALID'',
                rd_applications = applications, rd_bytes = bs\<rparr>)"

definition rd_ok :: "registry_document \<Rightarrow> bool" where
  "rd_ok d \<longleftrightarrow> rd_status d = Registry_valid"

section \<open>The desktop's list\<close>

datatype desktop_app = App_none | App_launcher | App_game_2048

record app_descriptor =
  ap_id :: desktop_app
  ap_stable_id :: string
  ap_name :: string
  ap_executable :: string
  ap_symbol :: string
  ap_summary :: string

text \<open>The first entry is the desktop itself; its texts are the UTF-8 bytes of the source's literals.\<close>

definition launcher_descriptor :: app_descriptor where
  "launcher_descriptor = \<lparr>ap_id = App_launcher, ap_stable_id = ''top.lvgl.desktop'',
     ap_name = str_of [0xe5, 0xba, 0x94, 0xe7, 0x94, 0xa8], ap_executable = ''lvgl-desktop'',
     ap_symbol = str_of [0xef, 0x80, 0x95],
     ap_summary = str_of [0xe9, 0x80, 0x89, 0xe6, 0x8b, 0xa9, 0xe5, 0xba, 0x94, 0xe7, 0x94, 0xa8]\<rparr>"

definition application_descriptor :: "registered_application \<Rightarrow> app_descriptor" where
  "application_descriptor a = \<lparr>ap_id = App_none, ap_stable_id = ra_app_id a, ap_name = ra_name a,
     ap_executable = [], ap_symbol = str_of [0xef, 0x82, 0x85], ap_summary = ra_version a\<rparr>"

text \<open>
  \<open>load_registry\<close> and \<open>app_registry\<close> on the target: \<open>None\<close> when the inherited descriptor is
  missing, not a root-owned read-only regular file, or unreadable.
\<close>

definition load_registry :: "bytes option \<Rightarrow> app_descriptor list" where
  "load_registry contents =
     (case contents of None \<Rightarrow> []
      | Some bs \<Rightarrow>
          if length bs = 0 \<or> kMaximumRegistrySize < length bs then []
          else let parsed = decode_application_registry bs in
            if \<not> rd_ok parsed then []
            else launcher_descriptor # map application_descriptor (rd_applications parsed))"

definition desktop_registry :: "bytes option \<Rightarrow> app_descriptor list" where
  "desktop_registry contents =
     (if load_registry contents \<noteq> [] then load_registry contents else [launcher_descriptor])"

definition find_app :: "bytes option \<Rightarrow> string \<Rightarrow> app_descriptor option" where
  "find_app contents stable_id =
     find (\<lambda>a. ap_stable_id a = stable_id) (desktop_registry contents)"

section \<open>Round trip\<close>

lemma registry_text_length: "registry_text v n \<Longrightarrow> v \<noteq> [] \<and> length v \<le> n"
  by (simp add: registry_text_def split: if_splits)

lemma valid_application_sizes:
  assumes "valid_application a"
  shows "length (ra_app_id a) < 96" "length (ra_name a) \<le> 64" "length (ra_version a) \<le> 32" "ra_app_id a \<noteq> []"
  using assms registry_text_length valid_session_app_id_length
  by (auto simp: valid_application_def registry_version_def split: if_splits)

definition application_size :: "registered_application \<Rightarrow> nat" where
  "application_size a = 24 + length (ra_app_id a) + length (ra_name a) + length (ra_version a)"

lemma length_application_blocks [simp]: "length (concat (application_blocks a)) = application_size a"
  by (simp add: application_blocks_def application_size_def)

lemma application_size_bound: "valid_application a \<Longrightarrow> application_size a \<le> 216"
  using valid_application_sizes [of a] by (simp add: application_size_def)

lemma registry_errors [simp]:
  "registry_total used previous as \<noteq> Inl (Registry_valid, d)"
  "registry_records bs n cursor found \<noteq> Inl (Registry_valid, d)"
proof -
  show "registry_total used previous as \<noteq> Inl (Registry_valid, d)"
    by (induction used previous as rule: registry_total.induct) (auto simp: Let_def)
  show "registry_records bs n cursor found \<noteq> Inl (Registry_valid, d)"
    by (induction n arbitrary: cursor found) (simp_all add: Let_def)
qed

text \<open>The registries the desktop can be given.\<close>

definition registry_acceptable :: "registered_application list \<Rightarrow> bool" where
  "registry_acceptable as \<longleftrightarrow> as \<noteq> [] \<and> length as \<le> 64 \<and> list_all valid_application as \<and>
     sorted_wrt (<) (map ra_app_id as)"

definition registry_size :: "registered_application list \<Rightarrow> nat" where
  "registry_size as = sum_list (map application_size as)"

lemma registry_size_bound:
  "list_all valid_application as \<Longrightarrow> registry_size as \<le> 216 * length as"
  using application_size_bound by (induction as) (fastforce simp: registry_size_def)+

lemma registry_total_ok:
  assumes "list_all valid_application as" "sorted_wrt (<) (map ra_app_id as)"
    "previous = [] \<or> list_all (\<lambda>a. previous < ra_app_id a) as" "t + registry_size as \<le> 65536"
  shows "registry_total t previous as = Inr (t + registry_size as)"
  using assms
proof (induction as arbitrary: t previous)
  case (Cons a as)
  have "list_all (\<lambda>b. ra_app_id a < ra_app_id b) as" using Cons.prems(2) by (simp add: list_all_iff)
  moreover have "\<not> (previous \<noteq> [] \<and> ra_app_id a \<le> previous)" using Cons.prems(3) by auto
  ultimately show ?case
    using Cons.prems Cons.IH [of "ra_app_id a" "t + application_size a"]
    by (simp add: registry_sizes registry_size_def application_size_def Let_def add_ac)
qed (simp add: registry_size_def)

lemma registry_records_encoded:
  assumes "bs = pre @ concat (map (\<lambda>a. concat (application_blocks a)) as) @ post"
    and "list_all valid_application as" "sorted_wrt (<) (map ra_app_id as)"
    and "found = [] \<or> list_all (\<lambda>a. ra_app_id (last found) < ra_app_id a) as"
  shows "registry_records bs (length as) (length pre) found = Inr (length pre + registry_size as, found @ as)"
  using assms
proof (induction as arbitrary: pre found)
  case (Cons a as)
  let ?c = "length pre"
  have va: "valid_application a" using Cons.prems(2) by simp
  note sz = valid_application_sizes [OF va]
  have "blocks_at ?c (application_blocks a) bs"
    using blocks_at_append [of pre "application_blocks a"] Cons.prems(1) by simp
  then have f: "bytes_at ?c 2 bs = le_bytes 2 (word_of_nat (length (ra_app_id a)) :: u16)"
      "bytes_at (?c + 2) 2 bs = le_bytes 2 (word_of_nat (length (ra_name a)) :: u16)"
      "bytes_at (?c + 4) 2 bs = le_bytes 2 (word_of_nat (length (ra_version a)) :: u16)"
      "bytes_at (?c + 6) 2 bs = le_bytes 2 (1 :: u16)"
      "bytes_at (?c + 8) 8 bs = le_bytes 8 (ra_release_counter a)"
      "bytes_at (?c + 16) 4 bs = le_bytes 4 (ra_security_epoch a)"
      "bytes_at (?c + 20) 4 bs = le_bytes 4 (ra_capability_count a)"
      "bytes_at (?c + 24) (length (ra_app_id a)) bs = bytes_of (ra_app_id a)"
      "bytes_at (?c + 24 + length (ra_app_id a)) (length (ra_name a)) bs = bytes_of (ra_name a)"
      "bytes_at (?c + 24 + length (ra_app_id a) + length (ra_name a)) (length (ra_version a)) bs = bytes_of (ra_version a)"
    by (simp_all add: application_blocks_def add.assoc del: add_2_eq_Suc add_2_eq_Suc')
  have u: "unat (word_of_nat (length (ra_app_id a)) :: u16) = length (ra_app_id a)"
    "unat (word_of_nat (length (ra_name a)) :: u16) = length (ra_name a)"
    "unat (word_of_nat (length (ra_version a)) :: u16) = length (ra_version a)"
    using sz by (simp_all add: unat_of_nat)
  have room: "?c + application_size a \<le> length bs"
    using Cons.prems(1) by simp
  have order: "\<not> (found \<noteq> [] \<and> ra_app_id a \<le> ra_app_id (last found))"
    using Cons.prems(4) by auto
  have rec_ext: "\<lparr>ra_app_id = ra_app_id a, ra_name = ra_name a, ra_version = ra_version a,
    ra_release_counter = ra_release_counter a, ra_security_epoch = ra_security_epoch a,
    ra_capability_count = ra_capability_count a\<rparr> = a" by simp
  have later: "list_all (\<lambda>b. ra_app_id (last (found @ [a])) < ra_app_id b) as"
    using Cons.prems(3) by (simp add: list_all_iff)
  have "registry_records bs (length as) (length (pre @ concat (application_blocks a))) (found @ [a]) =
      Inr (length (pre @ concat (application_blocks a)) + registry_size as, (found @ [a]) @ as)"
    using Cons.prems later by (intro Cons.IH) simp_all
  then have ih: "registry_records bs (length as) (?c + application_size a) (found @ [a]) =
      Inr (?c + application_size a + registry_size as, found @ a # as)" by simp
  have e: "?c + application_size a = ?c + 24 + (length (ra_app_id a) + length (ra_name a) + length (ra_version a))"
    by (simp add: application_size_def)
  have fit: "\<not> length bs - ?c < 24"
    "\<not> length bs - (?c + 24) < length (ra_app_id a) + length (ra_name a) + length (ra_version a)"
    using room unfolding application_size_def by linarith+
  have size: "registry_size (a # as) = application_size a + registry_size as"
    by (simp add: registry_size_def)
  show ?case
    using order va ih fit
    unfolding registry_records.simps length_Cons Let_def registry_sizes get_le_def f e size
    by (simp add: u f rec_ext application_size_def del: add_2_eq_Suc add_2_eq_Suc')
qed (simp add: registry_size_def)

lemma registry_recordsD:
  assumes "registry_records bs n cursor found = Inr (last_cursor, as)" "cursor \<le> length bs"
    and "found = [] \<or> True"
  obtains new where "as = found @ new" "length new = n" "list_all valid_application new"
    "sorted_wrt (<) (map ra_app_id new)" "found = [] \<or> list_all (\<lambda>a. ra_app_id (last found) < ra_app_id a) new"
    "last_cursor = cursor + registry_size new" "last_cursor \<le> length bs"
    "concat (map (\<lambda>a. concat (application_blocks a)) new) = bytes_at cursor (registry_size new) bs"
  using assms(1,2)
proof (induction n arbitrary: cursor found thesis)
  case 0
  then show ?case by (simp add: registry_size_def bytes_at_def)
next
  case (Suc n)
  define x y z where "x = unat (get_le cursor 2 bs :: u16)" and "y = unat (get_le (cursor + 2) 2 bs :: u16)"
    and "z = unat (get_le (cursor + 4) 2 bs :: u16)"
  define a where "a = \<lparr>ra_app_id = str_of (bytes_at (cursor + 24) x bs),
      ra_name = str_of (bytes_at (cursor + 24 + x) y bs),
      ra_version = str_of (bytes_at (cursor + 24 + x + y) z bs),
      ra_release_counter = get_le (cursor + 8) 8 bs, ra_security_epoch = get_le (cursor + 16) 4 bs,
      ra_capability_count = get_le (cursor + 20) 4 bs\<rparr>"
  have room: "\<not> length bs - cursor < 24" and flag: "get_le (cursor + 6) 2 bs = (1 :: u16)"
    and strings: "\<not> length bs - (cursor + 24) < x + y + z" and va: "valid_application a"
    and order: "found = [] \<or> ra_app_id (last found) < ra_app_id a"
    and step: "registry_records bs n (cursor + 24 + (x + y + z)) (found @ [a]) = Inr (last_cursor, as)"
    using Suc.prems(2) unfolding registry_records.simps Let_def registry_sizes x_def [symmetric]
      y_def [symmetric] z_def [symmetric] a_def [symmetric] by (auto split: if_splits)
  have inside: "cursor + 24 + (x + y + z) \<le> length bs" using room strings Suc.prems(3) by linarith
  from Suc.IH [OF _ step inside] obtain new where new: "as = (found @ [a]) @ new" "length new = n"
    "list_all valid_application new" "sorted_wrt (<) (map ra_app_id new)"
    "found @ [a] = [] \<or> list_all (\<lambda>b. ra_app_id (last (found @ [a])) < ra_app_id b) new"
    "last_cursor = cursor + 24 + (x + y + z) + registry_size new" "last_cursor \<le> length bs"
    "concat (map (\<lambda>a. concat (application_blocks a)) new) = bytes_at (cursor + 24 + (x + y + z)) (registry_size new) bs"
    by metis
  have len: "length (ra_app_id a) = x" "length (ra_name a) = y" "length (ra_version a) = z"
    using inside by (simp_all add: a_def)
  then have size: "application_size a = 24 + (x + y + z)" by (simp add: application_size_def)
  have w: "word_of_nat x = (get_le cursor 2 bs :: u16)" "word_of_nat y = (get_le (cursor + 2) 2 bs :: u16)"
    "word_of_nat z = (get_le (cursor + 4) 2 bs :: u16)" by (simp_all add: x_def y_def z_def)
  have one: "le_bytes 2 (1 :: u16) = bytes_at (cursor + 6) 2 bs"
    using get_le_eqD [OF flag] inside by simp
  have "blocks_at cursor (application_blocks a) bs"
    using inside unfolding application_blocks_def len w one
    by (simp add: a_def add.assoc del: add_2_eq_Suc add_2_eq_Suc')
  from concat_blocks_at [OF this] have blocks: "concat (application_blocks a) = bytes_at cursor (application_size a) bs"
    by (simp add: length_concat [symmetric] del: length_concat)
  have "concat (map (\<lambda>a. concat (application_blocks a)) (a # new)) = bytes_at cursor (registry_size (a # new)) bs"
    using new(8) blocks by (simp add: registry_size_def size bytes_at_add add.assoc)
  moreover have "sorted_wrt (<) (map ra_app_id (a # new))"
    using new(4,5) by (simp add: list_all_iff)
  moreover have "found = [] \<or> list_all (\<lambda>b. ra_app_id (last found) < ra_app_id b) (a # new)"
    using order new(5) by (auto simp: list_all_iff intro: less_trans)
  ultimately show ?case
    using new va by (intro Suc.prems(1) [of "a # new"]) (simp_all add: registry_size_def size)
qed

lemma registry_roundtrip:
  assumes "registry_acceptable as"
  shows "rd_ok (encode_application_registry as)"
    "decode_application_registry (rd_bytes (encode_application_registry as)) = encode_application_registry as"
proof -
  define bs where "bs = rd_bytes (encode_application_registry as)"
  let ?body = "concat (map (\<lambda>a. concat (application_blocks a)) as)"
  have size: "registry_size as \<le> 216 * 64"
    using assms registry_size_bound [of as] by (simp add: registry_acceptable_def)
  have "registry_total 16 [] as = Inr (16 + registry_size as)"
    using assms size by (intro registry_total_ok) (simp_all add: registry_acceptable_def)
  then have enc: "encode_application_registry as =
      \<lparr>rd_status = Registry_valid, rd_detail = ''REGISTRY_VALID'', rd_applications = as, rd_bytes = bs\<rparr>"
    and bs: "bs = concat [kRegistryMagic, le_bytes 2 (1 :: u16), le_bytes 2 (word_of_nat (length as) :: u16),
       le_bytes 4 (word_of_nat (16 + registry_size as) :: u32)] @ ?body"
    using assms unfolding bs_def encode_application_registry_def
    by (simp_all add: registry_acceptable_def registry_sizes)
  then show "rd_ok (encode_application_registry as)" by (simp add: rd_ok_def)
  have magic: "length kRegistryMagic = 8" by (simp add: kRegistryMagic_def)
  have blen: "length ?body = registry_size as"
    by (induction as) (simp_all add: registry_size_def del: length_concat)
  then have len: "length bs = 16 + registry_size as" by (simp add: bs magic)
  have "blocks_at 0 [kRegistryMagic, le_bytes 2 (1 :: u16), le_bytes 2 (word_of_nat (length as) :: u16),
       le_bytes 4 (word_of_nat (16 + registry_size as) :: u32)] bs"
    unfolding bs by (rule blocks_at_concat)
  then have f: "bytes_at 0 8 bs = kRegistryMagic" "get_le 8 2 bs = (1 :: u16)"
      "get_le 10 2 bs = (word_of_nat (length as) :: u16)"
      "get_le 12 4 bs = (word_of_nat (16 + registry_size as) :: u32)"
    by (simp_all add: magic get_le_def)
  have u16: "n < 2 ^ 16 \<Longrightarrow> unat (word_of_nat n :: u16) = n" for n by (simp add: unat_of_nat)
  have u32: "n < 2 ^ 32 \<Longrightarrow> unat (word_of_nat n :: u32) = n" for n by (simp add: unat_of_nat)
  have u: "unat (word_of_nat (length as) :: u16) = length as"
    "unat (word_of_nat (16 + registry_size as) :: u32) = 16 + registry_size as"
  proof -
    have "length as < 2 ^ 16" "16 + registry_size as < 2 ^ 32"
      using assms size by (simp_all add: registry_acceptable_def)
    then show "unat (word_of_nat (length as) :: u16) = length as"
      "unat (word_of_nat (16 + registry_size as) :: u32) = 16 + registry_size as"
      using u16 u32 by blast+
  qed
  have f4: "unat (get_le 12 4 bs :: u32) = 16 + registry_size as" by (simp only: f(4) u(2))
  have recs: "registry_records bs (length as) 16 [] = Inr (16 + registry_size as, as)"
    using registry_records_encoded [of bs "concat [kRegistryMagic, le_bytes 2 (1 :: u16),
       le_bytes 2 (word_of_nat (length as) :: u16), le_bytes 4 (word_of_nat (16 + registry_size as) :: u32)]"
       as "[]" "[]"] assms by (simp add: bs magic registry_acceptable_def)
  show "decode_application_registry (rd_bytes (encode_application_registry as)) = encode_application_registry as"
    using assms size unfolding bs_def [symmetric] unfolding enc
    by (simp add: decode_application_registry_def f(1-3) f4 u(1) Let_def registry_sizes recs len
        registry_acceptable_def)
qed

lemma registry_canonical:
  assumes "rd_ok (decode_application_registry bs)"
  defines "as \<equiv> rd_applications (decode_application_registry bs)"
  shows "registry_acceptable as" "rd_bytes (encode_application_registry as) = bs"
proof -
  let ?n = "unat (get_le 10 2 bs :: u16)"
  have hdr: "length bs \<ge> 16" "bytes_at 0 8 bs = kRegistryMagic" "get_le 8 2 bs = (1 :: u16)"
    "unat (get_le 12 4 bs :: u32) = length bs" "?n \<noteq> 0" "?n \<le> 64"
    and recs: "registry_records bs ?n 16 [] = Inr (length bs, as)"
    using assms unfolding decode_application_registry_def rd_ok_def registry_failure_def Let_def registry_sizes
    by (auto split: if_splits sum.splits)
  obtain new where new: "as = new" "length new = ?n" "list_all valid_application new"
    "sorted_wrt (<) (map ra_app_id new)" "length bs = 16 + registry_size new"
    "concat (map (\<lambda>a. concat (application_blocks a)) new) = bytes_at 16 (registry_size new) bs"
    by (rule registry_recordsD [OF recs hdr(1)]) simp_all
  then show acc: "registry_acceptable as"
    using hdr(5,6) by (auto simp: registry_acceptable_def)
  have w: "word_of_nat (length as) = (get_le 10 2 bs :: u16)"
    "word_of_nat (16 + registry_size as) = (get_le 12 4 bs :: u32)"
  proof -
    have n: "length as = ?n" "16 + registry_size as = unat (get_le 12 4 bs :: u32)"
      using new hdr(4) by simp_all
    show "word_of_nat (length as) = (get_le 10 2 bs :: u16)" unfolding n by simp
    show "word_of_nat (16 + registry_size as) = (get_le 12 4 bs :: u32)" unfolding n by simp
  qed
  have "registry_total 16 [] as = Inr (16 + registry_size as)"
    using acc registry_size_bound [of as] by (intro registry_total_ok) (simp_all add: registry_acceptable_def)
  then have "rd_bytes (encode_application_registry as) =
      kRegistryMagic @ le_bytes 2 (1 :: u16) @ le_bytes 2 (word_of_nat (length as) :: u16) @
      le_bytes 4 (word_of_nat (16 + registry_size as) :: u32) @ concat (map (\<lambda>a. concat (application_blocks a)) as)"
    using acc unfolding encode_application_registry_def by (simp add: registry_acceptable_def registry_sizes)
  also have "\<dots> = bytes_at 0 8 bs @ bytes_at 8 2 bs @ bytes_at 10 2 bs @ bytes_at 12 4 bs @ bytes_at 16 (registry_size as) bs"
    using hdr(1,2) get_le_eqD [OF hdr(3)] new unfolding w by simp
  also have "\<dots> = concat [bytes_at 0 8 bs, bytes_at 8 2 bs, bytes_at 10 2 bs, bytes_at 12 4 bs, bytes_at 16 (registry_size as) bs]"
    by simp
  also have "\<dots> = bs"
    using concat_blocks_at [of 0 "[bytes_at 0 8 bs, bytes_at 8 2 bs, bytes_at 10 2 bs, bytes_at 12 4 bs, bytes_at 16 (registry_size as) bs]" bs]
      hdr(1) new(1,5) by (simp add: bytes_at_def)
  finally show "rd_bytes (encode_application_registry as) = bs" .
qed

interpretation registry_codec: wire_codec "\<lambda>as. rd_bytes (encode_application_registry as)"
  "\<lambda>bs. if rd_ok (decode_application_registry bs) then Some (rd_applications (decode_application_registry bs)) else None"
  registry_acceptable
proof
  fix as assume "registry_acceptable as"
  then show "(if rd_ok (decode_application_registry (rd_bytes (encode_application_registry as)))
      then Some (rd_applications (decode_application_registry (rd_bytes (encode_application_registry as)))) else None) = Some as"
    using registry_roundtrip [of as]
    by (auto simp: encode_application_registry_def registry_failure_def rd_ok_def split: if_splits sum.splits)
qed (use registry_canonical in \<open>auto split: if_splits\<close>)

section \<open>Properties\<close>


text \<open>The registry file format is canonical: \<open>decode_application_registry\<close> accepts exactly what
  \<open>encode_application_registry\<close> writes for one to 64 valid applications in increasing order of id.\<close>

lemma registry_format:
  "rd_ok (decode_application_registry bs) \<and> rd_applications (decode_application_registry bs) = as \<longleftrightarrow>
     registry_acceptable as \<and> rd_bytes (encode_application_registry as) = bs"
  using registry_codec.decode_iff [of bs as] by (simp split: if_splits)

end
