(* ===== verification/Errors.thy ===== *)
theory Errors
  imports Prelude
begin

text \<open>
  The error codes of \<open>platform/include/lvgl_platform/error.h\<close>: a domain and a 16-bit number;
  \<open>ok\<close> is the pair \<open>(none, 0)\<close>.
\<close>

datatype error_domain =
    Domain_none | Domain_profile | Domain_trust | Domain_package | Domain_policy
  | Domain_storage | Domain_runtime | Domain_display | Domain_input | Domain_application

datatype error_code = Error_code (error_domain: error_domain) (error_number: u16)

definition error_ok :: "error_code \<Rightarrow> bool" where
  "error_ok e \<longleftrightarrow> error_domain e = Domain_none \<and> error_number e = 0"

definition errors_ok :: error_code where
  "errors_ok = Error_code Domain_none 0"

definition profile_invalid :: error_code where
  "profile_invalid = Error_code Domain_profile 1"

definition profile_unsupported_schema :: error_code where
  "profile_unsupported_schema = Error_code Domain_profile 2"

definition profile_no_match :: error_code where
  "profile_no_match = Error_code Domain_profile 3"

definition profile_ambiguous :: error_code where
  "profile_ambiguous = Error_code Domain_profile 4"

definition input_frame_invalid :: error_code where
  "input_frame_invalid = Error_code Domain_input 1"

definition input_session_mismatch :: error_code where
  "input_session_mismatch = Error_code Domain_input 2"

definition input_sequence_replayed :: error_code where
  "input_sequence_replayed = Error_code Domain_input 3"

definition input_timestamp_stale :: error_code where
  "input_timestamp_stale = Error_code Domain_input 4"

definition input_contact_invalid :: error_code where
  "input_contact_invalid = Error_code Domain_input 5"

lemmas error_defs = errors_ok_def profile_invalid_def profile_unsupported_schema_def
  profile_no_match_def profile_ambiguous_def input_frame_invalid_def input_session_mismatch_def
  input_sequence_replayed_def input_timestamp_stale_def input_contact_invalid_def

lemma error_ok_iff: "error_ok e \<longleftrightarrow> e = errors_ok"
  by (cases e) (simp add: error_ok_def errors_ok_def)

lemma error_ok_simps [simp]:
  "error_ok errors_ok"
  "\<not> error_ok profile_invalid" "\<not> error_ok profile_unsupported_schema"
  "\<not> error_ok profile_no_match" "\<not> error_ok profile_ambiguous"
  "\<not> error_ok input_frame_invalid" "\<not> error_ok input_session_mismatch"
  "\<not> error_ok input_sequence_replayed" "\<not> error_ok input_timestamp_stale"
  "\<not> error_ok input_contact_invalid"
  by (simp_all add: error_ok_def error_defs)

end
