(* ===== verification/Touch_Protocol.thy ===== *)
theory Touch_Protocol
  imports Errors
begin

text \<open>
  The touch channel: the 56-byte frame of \<open>platform/src/ipc/touch_protocol.cpp\<close>, its
  validation, freshness, sequence and contact guards, and the router of
  \<open>platform/src/session/touch_router.cpp\<close> that composes them. A pointer and a size are one
  byte list; the null pointer is the empty list, which the size check rejects as well.
\<close>

section \<open>Frames\<close>

definition kTouchFrameMagic :: u32 where
  "kTouchFrameMagic = 0x4C565450"

definition kTouchProtocolVersion :: u16 where
  "kTouchProtocolVersion = 1"

definition kTouchFrameWireSize :: nat where
  "kTouchFrameWireSize = 56"

definition kMaxTouchContactId :: u32 where
  "kMaxTouchContactId = 31"

text \<open>
  \<open>enum class TouchPhase : uint32_t\<close>. A value cast from the wire need not be an enumerator, so
  the other 32-bit values are a constructor of their own.
\<close>

datatype touch_phase = Touch_start | Touch_move | Touch_end | Touch_cancel | Touch_unknown u32

definition touch_phase_of :: "u32 \<Rightarrow> touch_phase" where
  "touch_phase_of w = (if w = 1 then Touch_start else if w = 2 then Touch_move
     else if w = 3 then Touch_end else if w = 4 then Touch_cancel else Touch_unknown w)"

fun touch_phase_value :: "touch_phase \<Rightarrow> u32" where
  "touch_phase_value Touch_start = 1"
| "touch_phase_value Touch_move = 2"
| "touch_phase_value Touch_end = 3"
| "touch_phase_value Touch_cancel = 4"
| "touch_phase_value (Touch_unknown w) = w"

fun valid_phase :: "touch_phase \<Rightarrow> bool" where
  "valid_phase (Touch_unknown _) = False"
| "valid_phase _ = True"

record touch_frame =
  tf_session_nonce :: u64
  tf_sequence :: u64
  tf_monotonic_us :: u64
  tf_phase :: touch_phase
  tf_contact_id :: u32
  tf_x :: i32
  tf_y :: i32
  tf_flags :: u32

definition default_touch_frame :: touch_frame where
  "default_touch_frame = \<lparr>tf_session_nonce = 0, tf_sequence = 0, tf_monotonic_us = 0,
     tf_phase = Touch_cancel, tf_contact_id = 0, tf_x = 0, tf_y = 0, tf_flags = 0\<rparr>"

record touch_decode_result =
  td_frame :: touch_frame
  td_error :: error_code

definition valid_touch_frame :: "touch_frame \<Rightarrow> i32 \<Rightarrow> i32 \<Rightarrow> bool" where
  "valid_touch_frame f width height \<longleftrightarrow>
     tf_session_nonce f \<noteq> 0 \<and> tf_sequence f \<noteq> 0 \<and> tf_monotonic_us f \<noteq> 0 \<and>
     valid_phase (tf_phase f) \<and> tf_contact_id f \<le> kMaxTouchContactId \<and> 0 < sint width \<and>
     0 < sint height \<and> 0 \<le> sint (tf_x f) \<and> 0 \<le> sint (tf_y f) \<and> sint (tf_x f) < sint width \<and>
     sint (tf_y f) < sint height \<and> tf_flags f = 0"

definition touch_timestamp_fresh :: "touch_frame \<Rightarrow> u64 \<Rightarrow> u64 \<Rightarrow> u64 \<Rightarrow> bool" where
  "touch_timestamp_fresh f now maximum_age_us maximum_future_us =
     (if tf_monotonic_us f = 0 \<or> now = 0 then False
      else if now < tf_monotonic_us f then tf_monotonic_us f - now \<le> maximum_future_us
      else now - tf_monotonic_us f \<le> maximum_age_us)"

definition touch_writes :: "touch_frame \<Rightarrow> (nat \<times> bytes) list" where
  "touch_writes f =
     [(0, le_bytes 4 kTouchFrameMagic),
      (4, le_bytes 2 kTouchProtocolVersion),
      (6, le_bytes 2 (word_of_nat kTouchFrameWireSize :: u16)),
      (8, le_bytes 8 (tf_session_nonce f)),
      (16, le_bytes 8 (tf_sequence f)),
      (24, le_bytes 8 (tf_monotonic_us f)),
      (32, le_bytes 4 (touch_phase_value (tf_phase f))),
      (36, le_bytes 4 (tf_contact_id f)),
      (40, le_bytes 4 (tf_x f)),
      (44, le_bytes 4 (tf_y f)),
      (48, le_bytes 4 (tf_flags f)),
      (52, le_bytes 4 (0 :: u32))]"

definition encode_touch_frame :: "touch_frame \<Rightarrow> bytes" where
  "encode_touch_frame f = puts (touch_writes f) (replicate kTouchFrameWireSize 0)"

definition parse_touch_frame :: "bytes \<Rightarrow> touch_frame" where
  "parse_touch_frame bs = \<lparr>
     tf_session_nonce = get_le 8 8 bs,
     tf_sequence = get_le 16 8 bs,
     tf_monotonic_us = get_le 24 8 bs,
     tf_phase = touch_phase_of (get_le 32 4 bs),
     tf_contact_id = get_le 36 4 bs,
     tf_x = get_le 40 4 bs,
     tf_y = get_le 44 4 bs,
     tf_flags = get_le 48 4 bs\<rparr>"

definition decode_touch_frame :: "bytes \<Rightarrow> i32 \<Rightarrow> i32 \<Rightarrow> touch_decode_result" where
  "decode_touch_frame bs width height =
     (if length bs \<noteq> kTouchFrameWireSize
      then \<lparr>td_frame = default_touch_frame, td_error = input_frame_invalid\<rparr>
      else if get_le 0 4 bs \<noteq> kTouchFrameMagic \<or> get_le 4 2 bs \<noteq> kTouchProtocolVersion \<or>
        get_le 6 2 bs \<noteq> (word_of_nat kTouchFrameWireSize :: u16) \<or> get_le 52 4 bs \<noteq> (0 :: u32)
      then \<lparr>td_frame = default_touch_frame, td_error = input_frame_invalid\<rparr>
      else let frame = parse_touch_frame bs in
        if \<not> valid_touch_frame frame width height
        then \<lparr>td_frame = frame, td_error = input_frame_invalid\<rparr>
        else \<lparr>td_frame = frame, td_error = errors_ok\<rparr>)"

definition decoded_touch_frame :: "i32 \<Rightarrow> i32 \<Rightarrow> bytes \<Rightarrow> touch_frame option" where
  "decoded_touch_frame width height bs =
     (let r = decode_touch_frame bs width height in
      if error_ok (td_error r) then Some (td_frame r) else None)"

lemma touch_phase_of_value [simp]: "valid_phase p \<Longrightarrow> touch_phase_of (touch_phase_value p) = p"
  by (cases p) (simp_all add: touch_phase_of_def)

lemma touch_phase_value_of [simp]: "touch_phase_value (touch_phase_of w) = w"
  by (simp add: touch_phase_of_def)

lemma touch_writes_ok: "writes_ok 56 (touch_writes f)"
  by (simp add: touch_writes_def)

lemma length_encode_touch_frame [simp]: "length (encode_touch_frame f) = 56"
  using touch_writes_ok [of f] by (simp add: encode_touch_frame_def kTouchFrameWireSize_def)

lemma touch_field:
  assumes "(off, bs) \<in> set (touch_writes f)" "n = length bs"
  shows "get_le off n (encode_touch_frame f) = le_word bs"
  using bytes_at_puts [of "replicate 56 0" "touch_writes f" off bs n] touch_writes_ok [of f] assms
  by (simp add: get_le_def encode_touch_frame_def kTouchFrameWireSize_def)

lemma parse_encode_touch_frame:
  assumes "valid_phase (tf_phase f)"
  shows "parse_touch_frame (encode_touch_frame f) = f"
  using assms by (simp add: parse_touch_frame_def touch_field touch_writes_def)

lemma encode_touch_frame_header:
  "get_le 0 4 (encode_touch_frame f) = kTouchFrameMagic"
  "get_le 4 2 (encode_touch_frame f) = kTouchProtocolVersion"
  "get_le 6 2 (encode_touch_frame f) = (word_of_nat kTouchFrameWireSize :: u16)"
  "get_le 52 4 (encode_touch_frame f) = (0 :: u32)"
  by (simp_all add: touch_field touch_writes_def)

lemma encode_parse_touch_frame:
  assumes len: "length bs = 56"
    and magic: "get_le 0 4 bs = kTouchFrameMagic" and version: "get_le 4 2 bs = kTouchProtocolVersion"
    and size: "get_le 6 2 bs = (word_of_nat kTouchFrameWireSize :: u16)"
    and pad: "get_le 52 4 bs = (0 :: u32)"
  shows "encode_touch_frame (parse_touch_frame bs) = bs"
proof -
  note fixed = get_le_eqD [OF magic] get_le_eqD [OF version] get_le_eqD [OF size]
  have zero: "replicate 4 0 = bytes_at 52 4 bs" using get_le_eqD [OF pad] len by simp
  show ?thesis unfolding encode_touch_frame_def kTouchFrameWireSize_def
  proof (rule puts_eq)
    fix off b assume "(off, b) \<in> set (touch_writes (parse_touch_frame bs))"
    then show "off + length b \<le> length bs \<and> b = bytes_at off (length b) bs"
      using len by (auto simp: touch_writes_def parse_touch_frame_def fixed zero)
  next
    fix i assume "i < length bs"
    then show "bs ! i = replicate 56 0 ! i \<or>
        (\<exists>(off, b) \<in> set (touch_writes (parse_touch_frame bs)). off \<le> i \<and> i < off + length b)"
      using len by (simp add: touch_writes_def) linarith
  qed (simp add: len)
qed

interpretation touch_codec: wire_codec encode_touch_frame "decoded_touch_frame width height"
  "\<lambda>f. valid_touch_frame f width height"
proof unfold_locales
  fix f assume v: "valid_touch_frame f width height"
  then have "parse_touch_frame (encode_touch_frame f) = f"
    by (intro parse_encode_touch_frame) (simp add: valid_touch_frame_def)
  with v show "decoded_touch_frame width height (encode_touch_frame f) = Some f"
    by (simp add: decoded_touch_frame_def decode_touch_frame_def Let_def kTouchFrameWireSize_def
        encode_touch_frame_header [unfolded kTouchFrameWireSize_def])
next
  fix bs f assume "decoded_touch_frame width height bs = Some f"
  then show "valid_touch_frame f width height"
    by (auto simp: decoded_touch_frame_def decode_touch_frame_def Let_def split: if_splits)
next
  fix bs f assume d: "decoded_touch_frame width height bs = Some f"
  then have "f = parse_touch_frame bs"
    by (auto simp: decoded_touch_frame_def decode_touch_frame_def Let_def split: if_splits)
  moreover have "encode_touch_frame (parse_touch_frame bs) = bs"
    using d by (intro encode_parse_touch_frame)
      (auto simp: decoded_touch_frame_def decode_touch_frame_def Let_def kTouchFrameWireSize_def
        split: if_splits)
  ultimately show "encode_touch_frame f = bs" by simp
qed

section \<open>Properties\<close>


text \<open>The touch frame format is canonical: \<open>decode_touch_frame\<close> accepts exactly the 56 bytes that
  \<open>encode_touch_frame\<close> writes for a frame that \<open>valid_touch_frame\<close> admits on this screen, and returns
  that frame.\<close>

lemma touch_wire_format:
  "decoded_touch_frame width height bs = Some f \<longleftrightarrow>
     valid_touch_frame f width height \<and> encode_touch_frame f = bs"
  by (rule touch_codec.decode_iff)

end
