(* ===== verification/Touch_Router.thy ===== *)
theory Touch_Router
  imports Touch_Protocol
begin

text \<open>
  The stateful half of the touch channel: \<open>TouchSequenceGuard\<close>, \<open>TouchContactGuard\<close>
  (\<open>touch_protocol.cpp\<close>) and \<open>TouchRouter\<close> (\<open>touch_router.cpp\<close>), with the abstract view of
  what they promise: accepted frames carry the session's nonce and strictly increasing
  sequence numbers, and per contact they follow start, move*, end or cancel.
\<close>

section \<open>Guards\<close>

record sequence_guard =
  sg_session_nonce :: u64
  sg_last_sequence :: u64

definition sequence_reset :: "u64 \<Rightarrow> sequence_guard" where
  "sequence_reset nonce = \<lparr>sg_session_nonce = nonce, sg_last_sequence = 0\<rparr>"

definition sequence_accept :: "sequence_guard \<Rightarrow> touch_frame \<Rightarrow> error_code \<times> sequence_guard" where
  "sequence_accept g f =
     (if sg_session_nonce g = 0 \<or> tf_session_nonce f \<noteq> sg_session_nonce g
      then (input_session_mismatch, g)
      else if tf_sequence f \<le> sg_last_sequence g then (input_sequence_replayed, g)
      else (errors_ok, g\<lparr>sg_last_sequence := tf_sequence f\<rparr>))"

record contact_guard =
  cg_active_contacts :: u32

definition contacts_reset :: contact_guard where
  "contacts_reset = \<lparr>cg_active_contacts = 0\<rparr>"

definition contact_mask :: "nat \<Rightarrow> u32" where
  "contact_mask n = push_bit n 1"

definition contact_accept :: "contact_guard \<Rightarrow> touch_frame \<Rightarrow> error_code \<times> contact_guard" where
  "contact_accept g f =
     (if kMaxTouchContactId < tf_contact_id f then (input_contact_invalid, g)
      else let mask = contact_mask (unat (tf_contact_id f));
               active = (cg_active_contacts g AND mask \<noteq> 0)
           in case tf_phase f of
                Touch_start \<Rightarrow>
                  (if active then (input_contact_invalid, g)
                   else (errors_ok, g\<lparr>cg_active_contacts := cg_active_contacts g OR mask\<rparr>))
              | Touch_move \<Rightarrow> (if active then errors_ok else input_contact_invalid, g)
              | Touch_end \<Rightarrow>
                  (if \<not> active then (input_contact_invalid, g)
                   else (errors_ok, g\<lparr>cg_active_contacts := cg_active_contacts g AND NOT mask\<rparr>))
              | Touch_cancel \<Rightarrow>
                  (if \<not> active then (input_contact_invalid, g)
                   else (errors_ok, g\<lparr>cg_active_contacts := cg_active_contacts g AND NOT mask\<rparr>))
              | Touch_unknown _ \<Rightarrow> (input_contact_invalid, g))"

section \<open>The router\<close>

record touch_router =
  tr_width :: i32
  tr_height :: i32
  tr_sequence :: sequence_guard
  tr_contacts :: contact_guard

definition new_touch_router :: "u64 \<Rightarrow> i32 \<Rightarrow> i32 \<Rightarrow> touch_router" where
  "new_touch_router nonce width height = \<lparr>tr_width = width, tr_height = height,
     tr_sequence = sequence_reset nonce, tr_contacts = contacts_reset\<rparr>"

record touch_route_result =
  rr_frame :: touch_frame
  rr_error :: error_code

definition kMaximumAgeUs :: u64 where
  "kMaximumAgeUs = 2000000"

definition kMaximumFutureUs :: u64 where
  "kMaximumFutureUs = 100000"

definition route :: "touch_router \<Rightarrow> bytes \<Rightarrow> u64 \<Rightarrow> touch_route_result \<times> touch_router" where
  "route r bs now =
     (let decoded = decode_touch_frame bs (tr_width r) (tr_height r);
          frame = td_frame decoded;
          result = (\<lambda>e. \<lparr>rr_frame = frame, rr_error = e\<rparr>)
      in if \<not> error_ok (td_error decoded) then (result (td_error decoded), r)
         else if \<not> touch_timestamp_fresh frame now kMaximumAgeUs kMaximumFutureUs
         then (result input_timestamp_stale, r)
         else let (e, sequence) = sequence_accept (tr_sequence r) frame;
                  r1 = r\<lparr>tr_sequence := sequence\<rparr>
              in if \<not> error_ok e then (result e, r1)
                 else let (e', contacts) = contact_accept (tr_contacts r1) frame
                      in (result e', r1\<lparr>tr_contacts := contacts\<rparr>))"

text \<open>
  A session: datagrams arrive with the time of their arrival, and the daemon forwards the frame
  of every successful route (the touch branch of \<open>run_foreground\<close>).
\<close>

fun route_all :: "touch_router \<Rightarrow> (bytes \<times> u64) list \<Rightarrow> touch_frame list \<times> touch_router" where
  "route_all r [] = ([], r)"
| "route_all r ((bs, now) # input) =
     (let (result, r') = route r bs now;
          (forwarded, r'') = route_all r' input
      in (if error_ok (rr_error result) then rr_frame result # forwarded else forwarded, r''))"

section \<open>The contact set\<close>

text \<open>Abstract view: the set of contact numbers that are down.\<close>

definition active_contacts :: "contact_guard \<Rightarrow> nat set" where
  "active_contacts g = {i. bit (cg_active_contacts g) i}"

fun contact_step :: "nat set \<Rightarrow> touch_phase \<Rightarrow> nat \<Rightarrow> nat set option" where
  "contact_step s Touch_start i = (if i \<in> s then None else Some (insert i s))"
| "contact_step s Touch_move i = (if i \<in> s then Some s else None)"
| "contact_step s Touch_end i = (if i \<in> s then Some (s - {i}) else None)"
| "contact_step s Touch_cancel i = (if i \<in> s then Some (s - {i}) else None)"
| "contact_step s (Touch_unknown _) i = None"

lemma mask_bit: "bit (contact_mask n) k \<longleftrightarrow> k = n \<and> k < 32"
  by (auto simp: contact_mask_def bit_push_bit_iff bit_1_iff simp del: push_bit_of_1)

lemma and_mask_nonzero:
  assumes "n < 32"
  shows "(w :: u32) AND contact_mask n \<noteq> 0 \<longleftrightarrow> bit w n"
proof -
  have "w AND contact_mask n \<noteq> 0 \<longleftrightarrow> (\<exists>k. bit (w AND contact_mask n) k)"
    by (metis bit_0_eq bit_eq_iff bot_apply bot_bool_def)
  also have "\<dots> \<longleftrightarrow> bit w n" using assms by (auto simp: bit_and_iff mask_bit)
  finally show ?thesis .
qed

lemma contact_id_bound: "tf_contact_id f \<le> kMaxTouchContactId \<longleftrightarrow> unat (tf_contact_id f) < 32"
  by (auto simp: kMaxTouchContactId_def word_le_nat_alt)

lemma active_or_mask: "n < 32 \<Longrightarrow>
   active_contacts (g\<lparr>cg_active_contacts := cg_active_contacts g OR contact_mask n\<rparr>)
     = insert n (active_contacts g)"
  by (auto simp: active_contacts_def bit_or_iff mask_bit)

lemma active_and_not_mask: "n < 32 \<Longrightarrow>
   active_contacts (g\<lparr>cg_active_contacts := cg_active_contacts g AND NOT (contact_mask n)\<rparr>)
     = active_contacts g - {n}"
  by (auto simp: active_contacts_def bit_and_iff bit_not_iff mask_bit dest: bit_imp_le_length)

lemma contact_accept_refines:
  "contact_accept g f = (e, g') \<Longrightarrow>
   (if tf_contact_id f \<le> kMaxTouchContactId
    then contact_step (active_contacts g) (tf_phase f) (unat (tf_contact_id f)) else None)
   = (if error_ok e then Some (active_contacts g') else None)"
  and contact_accept_rejects: "contact_accept g f = (e, g') \<Longrightarrow> \<not> error_ok e \<Longrightarrow> g' = g"
proof -
  have in_active: "i \<in> active_contacts g \<longleftrightarrow> cg_active_contacts g AND contact_mask i \<noteq> 0"
    if "i < 32" for i using that by (simp add: active_contacts_def and_mask_nonzero)
  { assume a: "contact_accept g f = (e, g')"
    show "(if tf_contact_id f \<le> kMaxTouchContactId
      then contact_step (active_contacts g) (tf_phase f) (unat (tf_contact_id f)) else None)
      = (if error_ok e then Some (active_contacts g') else None)"
    proof (cases "tf_contact_id f \<le> kMaxTouchContactId")
      case True
      then have "unat (tf_contact_id f) < 32" by (simp add: contact_id_bound)
      with True a show ?thesis
        by (cases "tf_phase f") (auto simp: contact_accept_def Let_def in_active active_or_mask
            active_and_not_mask split: if_splits)
    next
      case False
      then have "kMaxTouchContactId < tf_contact_id f" by simp
      with a show ?thesis by (auto simp: contact_accept_def)
    qed }
  { assume "contact_accept g f = (e, g')" "\<not> error_ok e"
    then show "g' = g"
      by (auto simp: contact_accept_def Let_def split: if_splits touch_phase.splits) }
qed

section \<open>What a session forwards\<close>

lemma route_cases:
  assumes "route r bs now = (result, r')"
  obtains (rejected) "\<not> error_ok (rr_error result)" "tr_contacts r' = tr_contacts r"
      "sg_last_sequence (tr_sequence r) \<le> sg_last_sequence (tr_sequence r')"
      "sg_session_nonce (tr_sequence r') = sg_session_nonce (tr_sequence r)"
      "tr_width r' = tr_width r" "tr_height r' = tr_height r"
  | (accepted) frame where "error_ok (rr_error result)" "rr_frame result = frame"
      "decoded_touch_frame (tr_width r) (tr_height r) bs = Some frame"
      "touch_timestamp_fresh frame now kMaximumAgeUs kMaximumFutureUs"
      "tf_session_nonce frame = sg_session_nonce (tr_sequence r)"
      "sg_last_sequence (tr_sequence r) < tf_sequence frame"
      "sg_last_sequence (tr_sequence r') = tf_sequence frame"
      "sg_session_nonce (tr_sequence r') = sg_session_nonce (tr_sequence r)"
      "contact_accept (tr_contacts r) frame = (rr_error result, tr_contacts r')"
      "tr_width r' = tr_width r" "tr_height r' = tr_height r"
proof (cases "error_ok (rr_error result)")
  case True
  with assms show ?thesis
    by (intro accepted [OF _ refl])
      (auto simp: route_def Let_def sequence_accept_def decoded_touch_frame_def
        split: if_splits prod.splits)
next
  case False
  with assms have "tr_contacts r' = tr_contacts r"
    by (auto simp: route_def Let_def split: if_splits prod.splits dest: contact_accept_rejects)
  with False assms show ?thesis
    by (intro rejected) (auto simp: route_def Let_def sequence_accept_def
        split: if_splits prod.splits)
qed

lemma route_all_sequences:
  "route_all r input = (forwarded, r') \<Longrightarrow>
   sorted_wrt (<) (map tf_sequence forwarded) \<and>
   (\<forall>f \<in> set forwarded. sg_last_sequence (tr_sequence r) < tf_sequence f \<and>
      tf_session_nonce f = sg_session_nonce (tr_sequence r) \<and>
      valid_touch_frame f (tr_width r) (tr_height r))"
proof (induction input arbitrary: r forwarded r')
  case Nil
  then show ?case by simp
next
  case (Cons a input)
  obtain bs now where a: "a = (bs, now)" by (cases a)
  obtain result r1 where step: "route r bs now = (result, r1)" by (cases "route r bs now")
  obtain fs r2 where rest: "route_all r1 input = (fs, r2)" by (cases "route_all r1 input")
  note IH = Cons.IH [OF rest]
  from step show ?case
  proof (cases rule: route_cases)
    case rejected
    with Cons.prems IH show ?thesis by (auto simp: a step rest order_le_less_trans)
  next
    case (accepted frame)
    then have "valid_touch_frame frame (tr_width r) (tr_height r)"
      by (blast intro: touch_codec.decode_acceptable)
    with accepted Cons.prems IH show ?thesis by (force simp: a step rest)
  qed
qed

text \<open>A contact's phases as the receiving application sees them: start, move*, end or cancel.\<close>

fun lifecycle :: "bool \<Rightarrow> touch_phase list \<Rightarrow> bool" where
  "lifecycle down [] = True"
| "lifecycle down (Touch_start # ps) = (\<not> down \<and> lifecycle True ps)"
| "lifecycle down (Touch_move # ps) = (down \<and> lifecycle True ps)"
| "lifecycle down (Touch_end # ps) = (down \<and> lifecycle False ps)"
| "lifecycle down (Touch_cancel # ps) = (down \<and> lifecycle False ps)"
| "lifecycle down (Touch_unknown _ # ps) = False"

definition phases_of :: "u32 \<Rightarrow> touch_frame list \<Rightarrow> touch_phase list" where
  "phases_of c fs = map tf_phase (filter (\<lambda>f. tf_contact_id f = c) fs)"

lemma contact_step_lifecycle:
  assumes "contact_step s p i = Some s'"
  shows "lifecycle (i \<in> s) (p # ps) \<longleftrightarrow> lifecycle (i \<in> s') ps"
    and "j \<noteq> i \<Longrightarrow> j \<in> s' \<longleftrightarrow> j \<in> s"
  using assms by (cases p; auto split: if_splits)+

lemma route_all_lifecycle:
  "route_all r input = (forwarded, r') \<Longrightarrow>
   lifecycle (unat c \<in> active_contacts (tr_contacts r)) (phases_of c forwarded)"
proof (induction input arbitrary: r forwarded r')
  case Nil
  then show ?case by (simp add: phases_of_def)
next
  case (Cons a input)
  obtain bs now where a: "a = (bs, now)" by (cases a)
  obtain result r1 where step: "route r bs now = (result, r1)" by (cases "route r bs now")
  obtain fs r2 where rest: "route_all r1 input = (fs, r2)" by (cases "route_all r1 input")
  note IH = Cons.IH [OF rest]
  from step show ?case
  proof (cases rule: route_cases)
    case rejected
    with Cons.prems IH show ?thesis by (simp add: a step rest)
  next
    case (accepted frame)
    then have fwd: "forwarded = frame # fs" using Cons.prems by (simp add: a step rest)
    from contact_accept_refines [OF accepted(9)] accepted(1)
    have s: "contact_step (active_contacts (tr_contacts r)) (tf_phase frame)
        (unat (tf_contact_id frame)) = Some (active_contacts (tr_contacts r1))"
      by (simp split: if_splits)
    show ?thesis
    proof (cases "tf_contact_id frame = c")
      case True
      then show ?thesis using IH contact_step_lifecycle(1) [OF s] by (simp add: fwd phases_of_def)
    next
      case False
      then have "unat c \<noteq> unat (tf_contact_id frame)" by (auto simp: word_unat_eq_iff)
      with contact_step_lifecycle(2) [OF s this] False IH show ?thesis
        by (simp add: fwd phases_of_def)
    qed
  qed
qed

section \<open>Properties\<close>


text \<open>The contact guard refines the touch automaton: a frame with a contact id below 32 is accepted
  exactly when the automaton of that contact has a step (start when up; move, end or cancel when
  down), the guard's bit set then holds exactly the contacts that are down, and a rejected frame
  leaves it as it was.\<close>

theorem contact_guard_refines:
  "case contact_accept g f of (e, g') \<Rightarrow>
     (if tf_contact_id f \<le> kMaxTouchContactId
      then contact_step (active_contacts g) (tf_phase f) (unat (tf_contact_id f)) else None)
     = (if error_ok e then Some (active_contacts g') else None) \<and>
     (if error_ok e then True else g' = g)"
proof -
  obtain e g' where "contact_accept g f = (e, g')" by fastforce
  then show ?thesis
    using contact_accept_refines [of g f e g'] contact_accept_rejects [of g f e g'] by simp
qed

text \<open>C32. No replay and no foreign frame: whatever bytes arrive and in whatever order, the frames the
  router forwards have strictly increasing sequence numbers, all above the last one it had
  accepted, carry the nonce of its session, and lie on the screen.\<close>

theorem routed_frames_never_replayed:
  "sorted_wrt (<) (map tf_sequence (fst (route_all r input))) \<and>
   list_all (\<lambda>f. sg_last_sequence (tr_sequence r) < tf_sequence f \<and>
      tf_session_nonce f = sg_session_nonce (tr_sequence r) \<and>
      valid_touch_frame f (tr_width r) (tr_height r)) (fst (route_all r input))"
  using route_all_sequences [OF surjective_pairing] by (simp add: list_all_iff)

text \<open>C33. Whatever the launcher sends, the frames a router forwards for a contact follow the order of gestures, from
  the contact as the router had it: start, then moves, then one end or cancel, and again; the last gesture may
  be unfinished.\<close>

theorem routed_contacts_well_formed:
  "lifecycle (unat c \<in> active_contacts (tr_contacts r)) (phases_of c (fst (route_all r input)))"
  by (rule route_all_lifecycle [OF surjective_pairing])

end
