(* ===== verification/Installer_Protocol.thy ===== *)
theory Installer_Protocol
  imports Identifiers
begin

text \<open>
  The packets between the installer application and \<open>sessiond\<close>
  (\<open>platform/src/ipc/installer_protocol.cpp\<close>): a 160-byte request and a 768-byte response. A
  response carries either a candidate of the inbox, an installed application, or neither; the
  three layouts share one frame, which is modelled as \<open>installer_frame\<close> between the bytes and
  the response. The round trips are proved once for the frame and lifted to the responses.
\<close>

section \<open>Data\<close>

definition kInstallerRequestSize :: nat where "kInstallerRequestSize = 160"
definition kInstallerResponseSize :: nat where "kInstallerResponseSize = 768"
definition kInstallerMagic :: bytes where "kInstallerMagic = bytes_of ''LVINST2'' @ [0]"
definition kInstallerVersion :: u16 where "kInstallerVersion = 2"
definition kTokenLimit :: nat where "kTokenLimit = 128"
definition kAppIdLimit :: nat where "kAppIdLimit = 96"
definition kNameLimit :: nat where "kNameLimit = 96"
definition kVersionLimit :: nat where "kVersionLimit = 32"
definition kDetailLimit :: nat where "kDetailLimit = 256"

lemmas installer_limits = kInstallerRequestSize_def kInstallerResponseSize_def kTokenLimit_def
  kAppIdLimit_def kNameLimit_def kVersionLimit_def kDetailLimit_def

datatype installer_command =
    Inst_scan | Inst_candidate | Inst_install | Inst_installed_scan | Inst_installed_candidate
  | Inst_rollback | Inst_remove | Inst_command_unknown u16

definition installer_command_of :: "u16 \<Rightarrow> installer_command" where
  "installer_command_of w = (if w = 1 then Inst_scan else if w = 2 then Inst_candidate
     else if w = 3 then Inst_install else if w = 4 then Inst_installed_scan
     else if w = 5 then Inst_installed_candidate else if w = 6 then Inst_rollback
     else if w = 7 then Inst_remove else Inst_command_unknown w)"

fun installer_command_value :: "installer_command \<Rightarrow> u16" where
  "installer_command_value Inst_scan = 1"
| "installer_command_value Inst_candidate = 2"
| "installer_command_value Inst_install = 3"
| "installer_command_value Inst_installed_scan = 4"
| "installer_command_value Inst_installed_candidate = 5"
| "installer_command_value Inst_rollback = 6"
| "installer_command_value Inst_remove = 7"
| "installer_command_value (Inst_command_unknown w) = w"

datatype installer_status =
    Status_ready | Status_empty | Status_invalid_request | Status_rejected | Status_not_found
  | Status_unavailable | Status_io_error | Status_unknown u16

definition installer_status_of :: "u16 \<Rightarrow> installer_status" where
  "installer_status_of w = (if w = 0 then Status_ready else if w = 1 then Status_empty
     else if w = 2 then Status_invalid_request else if w = 3 then Status_rejected
     else if w = 4 then Status_not_found else if w = 5 then Status_unavailable
     else if w = 6 then Status_io_error else Status_unknown w)"

fun installer_status_value :: "installer_status \<Rightarrow> u16" where
  "installer_status_value Status_ready = 0"
| "installer_status_value Status_empty = 1"
| "installer_status_value Status_invalid_request = 2"
| "installer_status_value Status_rejected = 3"
| "installer_status_value Status_not_found = 4"
| "installer_status_value Status_unavailable = 5"
| "installer_status_value Status_io_error = 6"
| "installer_status_value (Status_unknown w) = w"

fun valid_installer_command :: "installer_command \<Rightarrow> bool" where
  "valid_installer_command (Inst_command_unknown _) = False"
| "valid_installer_command _ = True"

definition valid_installer_status :: "installer_status \<Rightarrow> bool" where
  "valid_installer_status s \<longleftrightarrow>
     installer_status_value Status_ready \<le> installer_status_value s \<and>
     installer_status_value s \<le> installer_status_value Status_io_error"

record inbox_candidate =
  cd_token :: string
  cd_app_id :: string
  cd_name :: string
  cd_version :: string
  cd_detail :: string
  cd_release_counter :: u64
  cd_security_epoch :: u32
  cd_package_size :: u64
  cd_installable :: bool

record installed_candidate =
  ia_token :: string
  ia_app_id :: string
  ia_name :: string
  ia_version :: string
  ia_detail :: string
  ia_current_release :: u64
  ia_previous_release :: u64
  ia_security_epoch :: u32
  ia_policy_trusted :: bool
  ia_current_verified :: bool
  ia_rollback_available :: bool

record installer_request =
  iq_command :: installer_command
  iq_request_id :: u64
  iq_index :: u32
  iq_token :: string

record installer_response =
  ir_command :: installer_command
  ir_status :: installer_status
  ir_request_id :: u64
  ir_count :: u32
  ir_detail :: string
  ir_candidate :: inbox_candidate
  ir_installed :: installed_candidate

definition no_candidate :: inbox_candidate where
  "no_candidate = \<lparr>cd_token = [], cd_app_id = [], cd_name = [], cd_version = [], cd_detail = [],
     cd_release_counter = 0, cd_security_epoch = 0, cd_package_size = 0, cd_installable = False\<rparr>"

definition no_installed :: installed_candidate where
  "no_installed = \<lparr>ia_token = [], ia_app_id = [], ia_name = [], ia_version = [], ia_detail = [],
     ia_current_release = 0, ia_previous_release = 0, ia_security_epoch = 0,
     ia_policy_trusted = False, ia_current_verified = False, ia_rollback_available = False\<rparr>"

section \<open>Validators\<close>

definition valid_token :: "string \<Rightarrow> bool" where
  "valid_token t \<longleftrightarrow> length t = kTokenLimit \<and>
     list_all (\<lambda>c. is_digit c \<or> (97 \<le> code c \<and> code c \<le> 102)) t"

definition valid_text :: "string \<Rightarrow> nat \<Rightarrow> bool \<Rightarrow> bool" where
  "valid_text t maximum allow_empty =
     (if (t = [] \<and> \<not> allow_empty) \<or> maximum < length t then False
      else list_all (\<lambda>c. 0x20 \<le> code c \<and> code c \<noteq> 0x7f) t)"

definition valid_candidate :: "inbox_candidate \<Rightarrow> bool" where
  "valid_candidate c \<longleftrightarrow> valid_token (cd_token c) \<and> valid_session_app_id (cd_app_id c) \<and>
     valid_text (cd_name c) kNameLimit False \<and> valid_text (cd_version c) kVersionLimit False \<and>
     valid_text (cd_detail c) kDetailLimit False \<and> cd_release_counter c \<noteq> 0 \<and>
     cd_package_size c \<noteq> 0"

definition valid_installed :: "installed_candidate \<Rightarrow> bool" where
  "valid_installed c \<longleftrightarrow> valid_token (ia_token c) \<and> valid_session_app_id (ia_app_id c) \<and>
     valid_text (ia_name c) kNameLimit False \<and> valid_text (ia_version c) kVersionLimit False \<and>
     valid_text (ia_detail c) kDetailLimit False \<and>
     (if ia_policy_trusted c then ia_current_release c \<noteq> 0
      else ia_current_release c = 0 \<and> ia_previous_release c = 0) \<and>
     (\<not> ia_current_verified c \<or> ia_policy_trusted c) \<and>
     (\<not> ia_rollback_available c \<or> (ia_policy_trusted c \<and> ia_previous_release c \<noteq> 0))"

definition empty_candidate :: "inbox_candidate \<Rightarrow> bool" where
  "empty_candidate c \<longleftrightarrow> cd_token c = [] \<and> cd_app_id c = [] \<and> cd_name c = [] \<and> cd_version c = [] \<and>
     cd_detail c = [] \<and> cd_release_counter c = 0 \<and> cd_security_epoch c = 0 \<and>
     cd_package_size c = 0 \<and> \<not> cd_installable c"

definition empty_installed :: "installed_candidate \<Rightarrow> bool" where
  "empty_installed c \<longleftrightarrow> ia_token c = [] \<and> ia_app_id c = [] \<and> ia_name c = [] \<and> ia_version c = [] \<and>
     ia_detail c = [] \<and> ia_current_release c = 0 \<and> ia_previous_release c = 0 \<and>
     ia_security_epoch c = 0 \<and> \<not> ia_policy_trusted c \<and> \<not> ia_current_verified c \<and>
     \<not> ia_rollback_available c"

definition index_command :: "installer_command \<Rightarrow> bool" where
  "index_command c \<longleftrightarrow> c = Inst_candidate \<or> c = Inst_installed_candidate"

definition token_command :: "installer_command \<Rightarrow> bool" where
  "token_command c \<longleftrightarrow> c = Inst_install \<or> c = Inst_rollback \<or> c = Inst_remove"

definition count_command :: "installer_command \<Rightarrow> bool" where
  "count_command c \<longleftrightarrow> c = Inst_scan \<or> c = Inst_installed_scan"

section \<open>The request\<close>

definition installer_request_writes :: "installer_request \<Rightarrow> (nat \<times> bytes) list" where
  "installer_request_writes q =
     [(0, kInstallerMagic),
      (8, le_bytes 2 kInstallerVersion),
      (10, le_bytes 2 (installer_command_value (iq_command q))),
      (16, le_bytes 8 (iq_request_id q)),
      (24, le_bytes 4 (iq_index q)),
      (28, le_bytes 2 (word_of_nat (length (iq_token q)) :: u16)),
      (32, bytes_of (iq_token q))]"

definition encode_installer_request :: "installer_request \<Rightarrow> bytes" where
  "encode_installer_request q =
     (let has_token = token_command (iq_command q) in
      if \<not> valid_installer_command (iq_command q) \<or> iq_request_id q = 0 \<or>
         (\<not> index_command (iq_command q) \<and> iq_index q \<noteq> 0) \<or>
         (if has_token then \<not> valid_token (iq_token q) else iq_token q \<noteq> [])
      then replicate kInstallerRequestSize 0
      else puts (installer_request_writes q) (replicate kInstallerRequestSize 0))"

definition decode_installer_request :: "bytes \<Rightarrow> installer_request option" where
  "decode_installer_request bs =
     (if length bs \<noteq> kInstallerRequestSize \<or> bytes_at 0 8 bs \<noteq> kInstallerMagic \<or>
         get_le 8 2 bs \<noteq> kInstallerVersion \<or> get_le 12 4 bs \<noteq> (0 :: u32) \<or>
         get_le 30 2 bs \<noteq> (0 :: u16)
      then None
      else let command = installer_command_of (get_le 10 2 bs);
               request_id = get_le 16 8 bs;
               index = get_le 24 4 bs;
               token_size = unat (get_le 28 2 bs :: u16)
           in if \<not> valid_installer_command command \<or> request_id = 0 \<or> kTokenLimit < token_size \<or>
                 \<not> all_zero (drop (32 + token_size) bs)
              then None
              else let token = str_of (bytes_at 32 token_size bs);
                       has_token = token_command command
                   in if (\<not> index_command command \<and> index \<noteq> 0) \<or>
                         (if has_token then \<not> valid_token token else token \<noteq> [])
                      then None
                      else Some \<lparr>iq_command = command, iq_request_id = request_id,
                                 iq_index = index, iq_token = token\<rparr>)"

definition installer_request_acceptable :: "installer_request \<Rightarrow> bool" where
  "installer_request_acceptable q \<longleftrightarrow> valid_installer_command (iq_command q) \<and>
     iq_request_id q \<noteq> 0 \<and> (index_command (iq_command q) \<or> iq_index q = 0) \<and>
     (if token_command (iq_command q) then valid_token (iq_token q) else iq_token q = [])"

section \<open>The response\<close>

record installer_frame =
  if_command :: installer_command
  if_status :: installer_status
  if_flags :: u16
  if_request_id :: u64
  if_count :: u32
  if_release :: u64
  if_package_size :: u64
  if_epoch :: u32
  if_token :: string
  if_app_id :: string
  if_name :: string
  if_version :: string
  if_detail :: string

definition response_candidate :: "installer_response \<Rightarrow> bool" where
  "response_candidate r \<longleftrightarrow> ir_command r = Inst_candidate \<and> ir_status r = Status_ready"

definition response_installed :: "installer_response \<Rightarrow> bool" where
  "response_installed r \<longleftrightarrow> ir_command r = Inst_installed_candidate \<and> ir_status r = Status_ready"

text \<open>The values \<open>encode_installer_response\<close> selects with its conditional expressions.\<close>

definition response_frame :: "installer_response \<Rightarrow> installer_frame" where
  "response_frame r =
     (let candidate = response_candidate r; installed = response_installed r;
          c = ir_candidate r; i = ir_installed r in
      \<lparr>if_command = ir_command r, if_status = ir_status r,
       if_flags = (if candidate then (if cd_installable c then 1 else 0)
          else if installed
          then (if ia_current_verified i then 1 else 0) OR
               (if ia_rollback_available i then 2 else 0) OR
               (if ia_policy_trusted i then 4 else 0)
          else 0),
       if_request_id = ir_request_id r, if_count = ir_count r,
       if_release = (if candidate then cd_release_counter c
          else if installed then ia_current_release i else 0),
       if_package_size = (if candidate then cd_package_size c
          else if installed then ia_previous_release i else 0),
       if_epoch = (if candidate then cd_security_epoch c
          else if installed then ia_security_epoch i else 0),
       if_token = (if candidate then cd_token c else if installed then ia_token i else []),
       if_app_id = (if candidate then cd_app_id c else if installed then ia_app_id i else []),
       if_name = (if candidate then cd_name c else if installed then ia_name i else []),
       if_version = (if candidate then cd_version c else if installed then ia_version i else []),
       if_detail = ir_detail r\<rparr>)"

definition frame_writes :: "installer_frame \<Rightarrow> (nat \<times> bytes) list" where
  "frame_writes f =
     [(0, kInstallerMagic),
      (8, le_bytes 2 kInstallerVersion),
      (10, le_bytes 2 (installer_command_value (if_command f))),
      (12, le_bytes 2 (installer_status_value (if_status f))),
      (14, le_bytes 2 (if_flags f)),
      (16, le_bytes 8 (if_request_id f)),
      (24, le_bytes 4 (if_count f)),
      (32, le_bytes 8 (if_release f)),
      (40, le_bytes 8 (if_package_size f)),
      (48, le_bytes 4 (if_epoch f)),
      (52, le_bytes 2 (word_of_nat (length (if_token f)) :: u16)),
      (54, le_bytes 2 (word_of_nat (length (if_app_id f)) :: u16)),
      (56, le_bytes 2 (word_of_nat (length (if_name f)) :: u16)),
      (58, le_bytes 2 (word_of_nat (length (if_version f)) :: u16)),
      (60, le_bytes 2 (word_of_nat (length (if_detail f)) :: u16)),
      (80, bytes_of (if_token f)),
      (208, bytes_of (if_app_id f)),
      (304, bytes_of (if_name f)),
      (400, bytes_of (if_version f)),
      (432, bytes_of (if_detail f))]"

definition encode_installer_response :: "installer_response \<Rightarrow> bytes" where
  "encode_installer_response r =
     (let candidate = response_candidate r; installed = response_installed r in
      if \<not> valid_installer_command (ir_command r) \<or> \<not> valid_installer_status (ir_status r) \<or>
         ir_request_id r = 0 \<or> \<not> valid_text (ir_detail r) kDetailLimit False \<or>
         (candidate \<and> \<not> valid_candidate (ir_candidate r)) \<or>
         (installed \<and> \<not> valid_installed (ir_installed r)) \<or>
         (\<not> candidate \<and> \<not> empty_candidate (ir_candidate r)) \<or>
         (\<not> installed \<and> \<not> empty_installed (ir_installed r)) \<or>
         (\<not> count_command (ir_command r) \<and> ir_count r \<noteq> 0)
      then replicate kInstallerResponseSize 0
      else puts (frame_writes (response_frame r)) (replicate kInstallerResponseSize 0))"

text \<open>The first half of \<open>decode_installer_response\<close>: the raw fields and their paddings.\<close>

definition decode_installer_frame :: "bytes \<Rightarrow> installer_frame option" where
  "decode_installer_frame bs =
     (if length bs \<noteq> kInstallerResponseSize \<or> bytes_at 0 8 bs \<noteq> kInstallerMagic \<or>
         get_le 8 2 bs \<noteq> kInstallerVersion \<or> \<not> all_zero (bytes_at 28 4 bs) \<or>
         \<not> all_zero (bytes_at 62 18 bs)
      then None
      else let command = installer_command_of (get_le 10 2 bs);
               status = installer_status_of (get_le 12 2 bs);
               flags = get_le 14 2 bs;
               request_id = get_le 16 8 bs;
               token_size = unat (get_le 52 2 bs :: u16);
               app_size = unat (get_le 54 2 bs :: u16);
               name_size = unat (get_le 56 2 bs :: u16);
               version_size = unat (get_le 58 2 bs :: u16);
               detail_size = unat (get_le 60 2 bs :: u16)
           in if \<not> valid_installer_command command \<or> \<not> valid_installer_status status \<or>
                 request_id = 0 \<or> flags > 7 \<or>
                 kTokenLimit < token_size \<or> kAppIdLimit < app_size \<or> kNameLimit < name_size \<or>
                 kVersionLimit < version_size \<or> kDetailLimit < detail_size \<or>
                 \<not> all_zero (bytes_at (80 + token_size) (kTokenLimit - token_size) bs) \<or>
                 \<not> all_zero (bytes_at (208 + app_size) (kAppIdLimit - app_size) bs) \<or>
                 \<not> all_zero (bytes_at (304 + name_size) (kNameLimit - name_size) bs) \<or>
                 \<not> all_zero (bytes_at (400 + version_size) (kVersionLimit - version_size) bs) \<or>
                 \<not> all_zero (drop (432 + detail_size) bs)
              then None
              else Some \<lparr>if_command = command, if_status = status, if_flags = flags,
                         if_request_id = request_id, if_count = get_le 24 4 bs,
                         if_release = get_le 32 8 bs, if_package_size = get_le 40 8 bs,
                         if_epoch = get_le 48 4 bs,
                         if_token = str_of (bytes_at 80 token_size bs),
                         if_app_id = str_of (bytes_at 208 app_size bs),
                         if_name = str_of (bytes_at 304 name_size bs),
                         if_version = str_of (bytes_at 400 version_size bs),
                         if_detail = str_of (bytes_at 432 detail_size bs)\<rparr>)"

text \<open>The second half: the candidate, the installed application, or neither.\<close>

definition frame_response :: "installer_frame \<Rightarrow> installer_response option" where
  "frame_response f =
     (let decoded = \<lparr>ir_command = if_command f, ir_status = if_status f,
                     ir_request_id = if_request_id f, ir_count = if_count f,
                     ir_detail = if_detail f, ir_candidate = no_candidate,
                     ir_installed = no_installed\<rparr>;
          finish = (\<lambda>r. if \<not> valid_text (ir_detail r) kDetailLimit False then None else Some r)
      in if response_candidate decoded then
           let c = \<lparr>cd_token = if_token f, cd_app_id = if_app_id f, cd_name = if_name f,
                    cd_version = if_version f, cd_detail = if_detail f,
                    cd_release_counter = if_release f, cd_security_epoch = if_epoch f,
                    cd_package_size = if_package_size f, cd_installable = (if_flags f = 1)\<rparr>
           in if if_flags f > 1 \<or> \<not> valid_candidate c \<or> if_count f \<noteq> 0 then None
              else finish (decoded\<lparr>ir_candidate := c\<rparr>)
         else if response_installed decoded then
           let i = \<lparr>ia_token = if_token f, ia_app_id = if_app_id f, ia_name = if_name f,
                    ia_version = if_version f, ia_detail = if_detail f,
                    ia_current_release = if_release f, ia_previous_release = if_package_size f,
                    ia_security_epoch = if_epoch f,
                    ia_policy_trusted = (if_flags f AND 4 \<noteq> 0),
                    ia_current_verified = (if_flags f AND 1 \<noteq> 0),
                    ia_rollback_available = (if_flags f AND 2 \<noteq> 0)\<rparr>
           in if \<not> valid_installed i \<or> if_count f \<noteq> 0 then None
              else finish (decoded\<lparr>ir_installed := i\<rparr>)
         else if if_flags f \<noteq> 0 \<or> if_token f \<noteq> [] \<or> if_app_id f \<noteq> [] \<or> if_name f \<noteq> [] \<or>
                 if_version f \<noteq> [] \<or> if_release f \<noteq> 0 \<or> if_package_size f \<noteq> 0 \<or>
                 if_epoch f \<noteq> 0 \<or> (\<not> count_command (if_command f) \<and> if_count f \<noteq> 0)
         then None
         else finish decoded)"

definition decode_installer_response :: "bytes \<Rightarrow> installer_response option" where
  "decode_installer_response bs =
     (case decode_installer_frame bs of None \<Rightarrow> None | Some f \<Rightarrow> frame_response f)"

section \<open>Round trips\<close>

lemma installer_command_roundtrip [simp]:
  "valid_installer_command c \<Longrightarrow> installer_command_of (installer_command_value c) = c"
  "installer_command_value (installer_command_of w) = w"
  by (cases c; simp add: installer_command_of_def) (simp add: installer_command_of_def)

lemma installer_status_value_of [simp]: "installer_status_value (installer_status_of w) = w"
  by (simp add: installer_status_of_def)

definition known_installer_status :: "installer_status \<Rightarrow> bool" where
  "known_installer_status s \<longleftrightarrow> valid_installer_status s \<and>
     installer_status_of (installer_status_value s) = s"

lemma known_installer_status_of [simp]:
  "known_installer_status (installer_status_of w) \<longleftrightarrow> valid_installer_status (installer_status_of w)"
  by (simp add: known_installer_status_def)

lemma known_installer_status_simps [simp]:
  "known_installer_status Status_ready" "known_installer_status Status_empty"
  "known_installer_status Status_invalid_request" "known_installer_status Status_rejected"
  "known_installer_status Status_not_found" "known_installer_status Status_unavailable"
  "known_installer_status Status_io_error"
  by (simp_all add: known_installer_status_def valid_installer_status_def installer_status_of_def)

lemma valid_text_length: "valid_text t m e \<Longrightarrow> length t \<le> m"
  by (simp add: valid_text_def split: if_splits)

lemma valid_token_length: "valid_token t \<Longrightarrow> length t = 128"
  by (simp add: valid_token_def kTokenLimit_def)

lemma length_kInstallerMagic [simp]: "length kInstallerMagic = 8"
  by (simp add: kInstallerMagic_def)

lemma encode_installer_request_eq:
  "installer_request_acceptable q \<Longrightarrow>
   encode_installer_request q = puts (installer_request_writes q) (replicate 160 0)"
  by (auto simp: installer_request_acceptable_def encode_installer_request_def Let_def
      kInstallerRequestSize_def split: if_splits)

lemma request_token_length:
  "installer_request_acceptable q \<Longrightarrow> length (iq_token q) \<le> 128"
  by (auto simp: installer_request_acceptable_def dest: valid_token_length split: if_splits)

lemma decode_encode_installer_request:
  assumes ok: "installer_request_acceptable q"
  shows "decode_installer_request (encode_installer_request q) = Some q"
proof -
  let ?n = "length (iq_token q)" and ?e = "encode_installer_request q"
  have n: "?n \<le> 128" using ok by (rule request_token_length)
  have w: "writes_ok 160 (installer_request_writes q)" using n by (simp add: installer_request_writes_def)
  have field: "bytes_at off n ?e = bs" if "(off, bs) \<in> set (installer_request_writes q)" "n = length bs" for off bs n
    using bytes_at_puts [of "replicate 160 0" "installer_request_writes q" off bs n] w that
    by (simp add: encode_installer_request_eq [OF ok])
  have pad: "bytes_at off n ?e = replicate n 0" if "apart off n (installer_request_writes q)" "off + n \<le> 160" for off n
    using bytes_at_puts_other [of "replicate 160 0" "installer_request_writes q" off n] w that
    by (simp add: encode_installer_request_eq [OF ok])
  have header: "bytes_at 0 8 ?e = kInstallerMagic" "get_le 8 2 ?e = kInstallerVersion"
    "get_le 10 2 ?e = installer_command_value (iq_command q)" "get_le 16 8 ?e = iq_request_id q"
    "get_le 24 4 ?e = iq_index q" "get_le 28 2 ?e = (word_of_nat ?n :: u16)"
    "bytes_at 32 ?n ?e = bytes_of (iq_token q)"
    by (simp_all add: get_le_def field installer_request_writes_def)
  have zeros: "get_le 12 4 ?e = (0 :: u32)" "get_le 30 2 ?e = (0 :: u16)"
    using pad [of 12 4] pad [of 30 2] by (simp_all add: get_le_def installer_request_writes_def)
  have len: "length ?e = 160" using w by (simp add: encode_installer_request_eq [OF ok])
  have "drop (32 + ?n) ?e = replicate (128 - ?n) 0"
    using n by (simp add: drop_eq_bytes_at len) (intro pad; simp add: installer_request_writes_def)
  then have tail: "all_zero (drop (32 + ?n) ?e)" by simp
  have size: "unat (word_of_nat ?n :: u16) = ?n" using n by (simp add: unat_of_nat)
  show ?thesis
    using ok n unfolding decode_installer_request_def header zeros Let_def size
    by (auto simp: len tail header installer_request_acceptable_def installer_limits split: if_splits)
qed

lemma decode_installer_requestD:
  assumes "decode_installer_request bs = Some q"
  shows "length bs = 160" "bytes_at 0 8 bs = kInstallerMagic" "get_le 8 2 bs = kInstallerVersion"
    "get_le 12 4 bs = (0 :: u32)" "get_le 30 2 bs = (0 :: u16)"
    "unat (get_le 28 2 bs :: u16) \<le> 128" "all_zero (drop (32 + unat (get_le 28 2 bs :: u16)) bs)"
    "iq_command q = installer_command_of (get_le 10 2 bs)" "iq_request_id q = get_le 16 8 bs"
    "iq_index q = get_le 24 4 bs" "iq_token q = str_of (bytes_at 32 (unat (get_le 28 2 bs :: u16)) bs)"
    "installer_request_acceptable q"
  using assms by (auto simp: decode_installer_request_def installer_request_acceptable_def Let_def
      installer_limits split: if_splits)

lemma encode_decode_installer_request:
  assumes "decode_installer_request bs = Some q"
  shows "encode_installer_request q = bs"
proof -
  let ?n = "unat (get_le 28 2 bs :: u16)"
  note d = decode_installer_requestD [OF assms]
  have size: "length (iq_token q) = ?n" using d(1,6,11) by simp
  have wsize: "(word_of_nat ?n :: u16) = get_le 28 2 bs" by simp
  have version: "le_bytes 2 kInstallerVersion = bytes_at 8 2 bs"
    using get_le_eqD [OF d(3)] d(1) by simp
  have zero: "bs ! i = 0" if "i \<in> {12..<16} \<or> i \<in> {30..<32} \<or> 32 + ?n \<le> i" "i < 160" for i
  proof -
    have z: "all_zero (bytes_at 12 4 bs)" "all_zero (bytes_at 30 2 bs)"
      using d(1,4,5) by (simp_all add: get_le_eq_0)
    have t: "all_zero (bytes_at (32 + ?n) (128 - ?n) bs)"
      using d(1,7) by (simp add: drop_eq_bytes_at)
    show ?thesis
      using that d(1,6) all_zero_bytes_at_nth [OF z(1), of i] all_zero_bytes_at_nth [OF z(2), of i]
        all_zero_bytes_at_nth [OF t, of i] by auto
  qed
  show ?thesis unfolding encode_installer_request_eq [OF d(12)]
  proof (rule puts_eq)
    fix off b assume "(off, b) \<in> set (installer_request_writes q)"
    then show "off + length b \<le> length bs \<and> b = bytes_at off (length b) bs"
      using d(1,6) by (auto simp: installer_request_writes_def d(2,8-11) version size wsize)
  next
    fix i assume i: "i < length bs"
    have "i < 12 \<or> i \<in> {12..<16} \<or> i \<in> {16..<30} \<or> i \<in> {30..<32} \<or> (32 \<le> i \<and> i < 32 + ?n) \<or> 32 + ?n \<le> i"
      by auto
    then show "bs ! i = replicate 160 0 ! i \<or>
        (\<exists>(off, b) \<in> set (installer_request_writes q). off \<le> i \<and> i < off + length b)"
      using zero [of i] i d(1) by (elim disjE) (simp_all add: installer_request_writes_def size, linarith+)
  qed (simp add: d(1))
qed

interpretation installer_request_codec: wire_codec encode_installer_request decode_installer_request
  installer_request_acceptable
  by unfold_locales
    (simp_all add: decode_encode_installer_request decode_installer_requestD(12)
      encode_decode_installer_request)

text \<open>What the frame of an encoded response satisfies.\<close>

definition frame_ok :: "installer_frame \<Rightarrow> bool" where
  "frame_ok f \<longleftrightarrow> valid_installer_command (if_command f) \<and> known_installer_status (if_status f) \<and>
     if_request_id f \<noteq> 0 \<and> if_flags f \<le> 7 \<and> length (if_token f) \<le> 128 \<and>
     length (if_app_id f) \<le> 96 \<and> length (if_name f) \<le> 96 \<and> length (if_version f) \<le> 32 \<and>
     length (if_detail f) \<le> 256"

definition encode_frame :: "installer_frame \<Rightarrow> bytes" where
  "encode_frame f = puts (frame_writes f) (replicate 768 0)"

lemma frame_writes_ok: "frame_ok f \<Longrightarrow> writes_ok 768 (frame_writes f)"
  by (simp add: frame_writes_def frame_ok_def)

lemma frame_field:
  assumes "frame_ok f" "(off, bs) \<in> set (frame_writes f)" "n = length bs"
  shows "bytes_at off n (encode_frame f) = bs"
  using bytes_at_puts [of "replicate 768 0" "frame_writes f" off bs n] frame_writes_ok assms
  by (simp add: encode_frame_def)

lemma frame_pad:
  assumes "frame_ok f" "apart off n (frame_writes f)" "off + n \<le> 768"
  shows "bytes_at off n (encode_frame f) = replicate n 0"
  using bytes_at_puts_other [of "replicate 768 0" "frame_writes f" off n] frame_writes_ok assms
  by (simp add: encode_frame_def)

lemma length_encode_frame: "frame_ok f \<Longrightarrow> length (encode_frame f) = 768"
  using frame_writes_ok [of f] by (simp add: encode_frame_def)

lemma decode_encode_frame:
  assumes ok: "frame_ok f"
  shows "decode_installer_frame (encode_frame f) = Some f"
proof -
  let ?e = "encode_frame f"
  note field = frame_field [OF ok] and pad = frame_pad [OF ok]
  have sz: "length (if_token f) \<le> 128" "length (if_app_id f) \<le> 96" "length (if_name f) \<le> 96"
    "length (if_version f) \<le> 32" "length (if_detail f) \<le> 256"
    using ok by (simp_all add: frame_ok_def)
  have header: "bytes_at 0 8 ?e = kInstallerMagic" "get_le 8 2 ?e = kInstallerVersion"
    "get_le 10 2 ?e = installer_command_value (if_command f)"
    "get_le 12 2 ?e = installer_status_value (if_status f)" "get_le 14 2 ?e = if_flags f"
    "get_le 16 8 ?e = if_request_id f" "get_le 24 4 ?e = if_count f" "get_le 32 8 ?e = if_release f"
    "get_le 40 8 ?e = if_package_size f" "get_le 48 4 ?e = if_epoch f"
    "get_le 52 2 ?e = (word_of_nat (length (if_token f)) :: u16)"
    "get_le 54 2 ?e = (word_of_nat (length (if_app_id f)) :: u16)"
    "get_le 56 2 ?e = (word_of_nat (length (if_name f)) :: u16)"
    "get_le 58 2 ?e = (word_of_nat (length (if_version f)) :: u16)"
    "get_le 60 2 ?e = (word_of_nat (length (if_detail f)) :: u16)"
    by (simp_all add: get_le_def field frame_writes_def)
  have texts: "bytes_at 80 (length (if_token f)) ?e = bytes_of (if_token f)"
    "bytes_at 208 (length (if_app_id f)) ?e = bytes_of (if_app_id f)"
    "bytes_at 304 (length (if_name f)) ?e = bytes_of (if_name f)"
    "bytes_at 400 (length (if_version f)) ?e = bytes_of (if_version f)"
    "bytes_at 432 (length (if_detail f)) ?e = bytes_of (if_detail f)"
    by (intro field; simp add: frame_writes_def)+
  have size: "unat (word_of_nat (length (if_token f)) :: u16) = length (if_token f)"
    "unat (word_of_nat (length (if_app_id f)) :: u16) = length (if_app_id f)"
    "unat (word_of_nat (length (if_name f)) :: u16) = length (if_name f)"
    "unat (word_of_nat (length (if_version f)) :: u16) = length (if_version f)"
    "unat (word_of_nat (length (if_detail f)) :: u16) = length (if_detail f)"
    using sz by (simp_all add: unat_of_nat)
  have zeros: "bytes_at 28 4 ?e = replicate 4 0" "bytes_at 62 18 ?e = replicate 18 0"
    "bytes_at (80 + length (if_token f)) (128 - length (if_token f)) ?e = replicate (128 - length (if_token f)) 0"
    "bytes_at (208 + length (if_app_id f)) (96 - length (if_app_id f)) ?e = replicate (96 - length (if_app_id f)) 0"
    "bytes_at (304 + length (if_name f)) (96 - length (if_name f)) ?e = replicate (96 - length (if_name f)) 0"
    "bytes_at (400 + length (if_version f)) (32 - length (if_version f)) ?e = replicate (32 - length (if_version f)) 0"
    "bytes_at (432 + length (if_detail f)) (336 - length (if_detail f)) ?e = replicate (336 - length (if_detail f)) 0"
    using sz by (intro pad; simp add: frame_writes_def)+
  have tail: "drop (432 + length (if_detail f)) ?e = replicate (336 - length (if_detail f)) 0"
    using zeros(7) sz by (simp add: drop_eq_bytes_at length_encode_frame [OF ok])
  have "valid_installer_status (if_status f)" "installer_status_of (installer_status_value (if_status f)) = if_status f"
    "\<not> 7 < if_flags f"
    using ok by (simp_all add: frame_ok_def known_installer_status_def not_less)
  then show ?thesis
    using ok sz unfolding decode_installer_frame_def header Let_def size installer_limits zeros tail texts
    by (simp add: length_encode_frame frame_ok_def)
qed

lemma decode_frameD:
  assumes "decode_installer_frame bs = Some f"
  shows "length bs = 768" "bytes_at 0 8 bs = kInstallerMagic" "get_le 8 2 bs = kInstallerVersion"
    "all_zero (bytes_at 28 4 bs)" "all_zero (bytes_at 62 18 bs)"
    "if_command f = installer_command_of (get_le 10 2 bs)"
    "if_status f = installer_status_of (get_le 12 2 bs)" "if_flags f = get_le 14 2 bs"
    "if_request_id f = get_le 16 8 bs" "if_count f = get_le 24 4 bs" "if_release f = get_le 32 8 bs"
    "if_package_size f = get_le 40 8 bs" "if_epoch f = get_le 48 4 bs"
    "if_token f = str_of (bytes_at 80 (unat (get_le 52 2 bs :: u16)) bs)"
    "if_app_id f = str_of (bytes_at 208 (unat (get_le 54 2 bs :: u16)) bs)"
    "if_name f = str_of (bytes_at 304 (unat (get_le 56 2 bs :: u16)) bs)"
    "if_version f = str_of (bytes_at 400 (unat (get_le 58 2 bs :: u16)) bs)"
    "if_detail f = str_of (bytes_at 432 (unat (get_le 60 2 bs :: u16)) bs)"
    "unat (get_le 52 2 bs :: u16) \<le> 128" "unat (get_le 54 2 bs :: u16) \<le> 96"
    "unat (get_le 56 2 bs :: u16) \<le> 96" "unat (get_le 58 2 bs :: u16) \<le> 32"
    "unat (get_le 60 2 bs :: u16) \<le> 256"
    "all_zero (bytes_at (80 + unat (get_le 52 2 bs :: u16)) (128 - unat (get_le 52 2 bs :: u16)) bs)"
    "all_zero (bytes_at (208 + unat (get_le 54 2 bs :: u16)) (96 - unat (get_le 54 2 bs :: u16)) bs)"
    "all_zero (bytes_at (304 + unat (get_le 56 2 bs :: u16)) (96 - unat (get_le 56 2 bs :: u16)) bs)"
    "all_zero (bytes_at (400 + unat (get_le 58 2 bs :: u16)) (32 - unat (get_le 58 2 bs :: u16)) bs)"
    "all_zero (drop (432 + unat (get_le 60 2 bs :: u16)) bs)"
    "valid_installer_command (if_command f)" "valid_installer_status (if_status f)"
    "if_request_id f \<noteq> 0" "if_flags f \<le> 7"
  using assms by (simp_all add: decode_installer_frame_def Let_def installer_limits not_less split: if_splits) (auto)

lemma decode_frame_ok:
  assumes "decode_installer_frame bs = Some f"
  shows "frame_ok f"
  using decode_frameD [OF assms] by (simp add: frame_ok_def)

lemma frame_sizes:
  assumes "decode_installer_frame bs = Some f"
  shows "length (if_token f) = unat (get_le 52 2 bs :: u16)" "length (if_app_id f) = unat (get_le 54 2 bs :: u16)"
    "length (if_name f) = unat (get_le 56 2 bs :: u16)" "length (if_version f) = unat (get_le 58 2 bs :: u16)"
    "length (if_detail f) = unat (get_le 60 2 bs :: u16)"
  using decode_frameD(1,14-23) [OF assms] by simp_all

lemma frame_zero:
  assumes "decode_installer_frame bs = Some f"
    and "28 \<le> i \<and> i < 32 \<or> 62 \<le> i \<and> i < 80 \<or> 80 + length (if_token f) \<le> i \<and> i < 208 \<or>
      208 + length (if_app_id f) \<le> i \<and> i < 304 \<or> 304 + length (if_name f) \<le> i \<and> i < 400 \<or>
      400 + length (if_version f) \<le> i \<and> i < 432 \<or> 432 + length (if_detail f) \<le> i \<and> i < 768"
  shows "bs ! i = 0"
proof -
  note d = decode_frameD [OF assms(1)] and s = frame_sizes [OF assms(1)]
  note nth = all_zero_bytes_at_nth [of _ _ bs i]
  have t: "all_zero (bytes_at (432 + length (if_detail f)) (336 - length (if_detail f)) bs)"
    using d(1,28) s(5) by (simp add: drop_eq_bytes_at)
  from assms(2) show ?thesis
    using nth [OF d(4)] nth [OF d(5)] nth [OF d(24)] nth [OF d(25)] nth [OF d(26)] nth [OF d(27)]
      nth [OF t] d(1,19-23) s by (elim disjE) simp_all
qed

lemma encode_decode_frame:
  assumes "decode_installer_frame bs = Some f"
  shows "encode_frame f = bs"
proof -
  note d = decode_frameD [OF assms] and s = frame_sizes [OF assms]
  have version: "le_bytes 2 kInstallerVersion = bytes_at 8 2 bs"
    using get_le_eqD [OF d(3)] d(1) by simp
  have inv: "word_of_nat (unat w) = w" for w :: u16 by simp
  show ?thesis unfolding encode_frame_def
  proof (rule puts_eq)
    fix off b assume "(off, b) \<in> set (frame_writes f)"
    then show "off + length b \<le> length bs \<and> b = bytes_at off (length b) bs"
      unfolding frame_writes_def s inv using d(1,19-23)
      by (elim set_ConsD [THEN disjE] emptyE) (simp_all add: d(2,6-18) version)
  next
    fix i assume i: "i < length bs"
    have "i < last (0 # [28, 32, 62, 80, 80 + length (if_token f), 208, 208 + length (if_app_id f),
        304, 304 + length (if_name f), 400, 400 + length (if_version f), 432, 432 + length (if_detail f), 768])"
      using i d(1) by simp
    from intervals [OF le0 this]
    consider (head) "i < 28" | (mid) "32 \<le> i" "i < 62"
      | (strings) "80 \<le> i \<and> i < 80 + length (if_token f) \<or>
      208 \<le> i \<and> i < 208 + length (if_app_id f) \<or> 304 \<le> i \<and> i < 304 + length (if_name f) \<or>
      400 \<le> i \<and> i < 400 + length (if_version f) \<or> 432 \<le> i \<and> i < 432 + length (if_detail f)"
      | (zero) "bs ! i = 0"
      using frame_zero [OF assms, of i] by auto
    then show "bs ! i = replicate 768 0 ! i \<or>
        (\<exists>(off, b) \<in> set (frame_writes f). off \<le> i \<and> i < off + length b)"
    proof cases
      case head
      then show ?thesis by (simp add: frame_writes_def) linarith
    next
      case mid
      then show ?thesis by (simp add: frame_writes_def) linarith
    next
      case strings
      then show ?thesis by (simp add: frame_writes_def)
    next
      case zero
      with i d(1) show ?thesis by simp
    qed
  qed (simp add: d(1))
qed

interpretation installer_frame_codec: wire_codec encode_frame decode_installer_frame frame_ok
  by unfold_locales (simp_all add: decode_encode_frame decode_frame_ok encode_decode_frame)

section \<open>Responses\<close>

text \<open>
  The responses the channel carries: the ones the encoder accepts whose candidate repeats the
  detail text of the response, which is sent once.
\<close>

definition installer_response_acceptable :: "installer_response \<Rightarrow> bool" where
  "installer_response_acceptable r \<longleftrightarrow> valid_installer_command (ir_command r) \<and>
     known_installer_status (ir_status r) \<and> ir_request_id r \<noteq> 0 \<and>
     valid_text (ir_detail r) 256 False \<and>
     (if response_candidate r
      then valid_candidate (ir_candidate r) \<and> cd_detail (ir_candidate r) = ir_detail r
      else ir_candidate r = no_candidate) \<and>
     (if response_installed r
      then valid_installed (ir_installed r) \<and> ia_detail (ir_installed r) = ir_detail r
      else ir_installed r = no_installed) \<and>
     (count_command (ir_command r) \<or> ir_count r = 0)"

lemma empty_candidate_iff: "empty_candidate c \<longleftrightarrow> c = no_candidate"
  by (cases c) (auto simp: empty_candidate_def no_candidate_def)

lemma empty_installed_iff: "empty_installed c \<longleftrightarrow> c = no_installed"
  by (cases c) (auto simp: empty_installed_def no_installed_def)

lemma encode_installer_response_eq:
  "installer_response_acceptable r \<Longrightarrow>
   encode_installer_response r = encode_frame (response_frame r)"
  unfolding installer_response_acceptable_def encode_installer_response_def encode_frame_def
    Let_def known_installer_status_def empty_candidate_iff empty_installed_iff installer_limits
  by (rule if_not_P) (simp split: if_splits)

lemma installed_flags_le: "(if a then 1 else 0) OR (if b then 2 else 0) OR (if c then 4 else 0 :: u16) \<le> 7"
  by (simp add: word_le_nat_alt)

lemma installed_flag_bits:
  fixes a b c :: bool
  defines "w \<equiv> (if a then 1 else 0) OR (if b then 2 else 0) OR (if c then 4 else 0 :: u16)"
  shows "w AND 4 \<noteq> 0 \<longleftrightarrow> c" "w AND 1 \<noteq> 0 \<longleftrightarrow> a" "w AND 2 \<noteq> 0 \<longleftrightarrow> b"
  by (simp_all add: w_def)

lemma u16_le_7: "w \<le> (7 :: u16) \<Longrightarrow> w \<in> {0, 1, 2, 3, 4, 5, 6, 7}"
  by (simp add: word_le_nat_alt word_unat_eq_iff) arith

lemma u16_le_1: "w \<le> (1 :: u16) \<Longrightarrow> w \<noteq> 1 \<Longrightarrow> w = 0"
  by (simp add: word_le_nat_alt word_unat_eq_iff)

lemma installed_flags_of_bits:
  "w \<le> 7 \<Longrightarrow> (if w AND 1 \<noteq> 0 then 1 else 0) OR (if w AND 2 \<noteq> 0 then 2 else 0) OR
     (if w AND 4 \<noteq> 0 then 4 else 0) = (w :: u16)"
  by (drule u16_le_7) auto

lemma response_frame_ok:
  assumes "installer_response_acceptable r"
  shows "frame_ok (response_frame r)"
proof -
  have "length (cd_token (ir_candidate r)) \<le> 128 \<and> length (cd_app_id (ir_candidate r)) \<le> 96 \<and>
    length (cd_name (ir_candidate r)) \<le> 96 \<and> length (cd_version (ir_candidate r)) \<le> 32"
    if "response_candidate r"
    using that assms by (auto simp: installer_response_acceptable_def valid_candidate_def installer_limits
        dest: valid_token_length valid_text_length valid_session_app_id_length)
  moreover have "length (ia_token (ir_installed r)) \<le> 128 \<and> length (ia_app_id (ir_installed r)) \<le> 96 \<and>
    length (ia_name (ir_installed r)) \<le> 96 \<and> length (ia_version (ir_installed r)) \<le> 32"
    if "response_installed r"
    using that assms by (auto simp: installer_response_acceptable_def valid_installed_def installer_limits
        dest: valid_token_length valid_text_length valid_session_app_id_length)
  ultimately show ?thesis
    using assms valid_text_length [of "ir_detail r" 256 False]
    by (simp add: frame_ok_def response_frame_def Let_def installer_response_acceptable_def
        installed_flags_le)
qed

lemma response_kind:
  obtains (candidate) "ir_command r = Inst_candidate" "ir_status r = Status_ready"
    "response_candidate r" "\<not> response_installed r"
  | (installed) "ir_command r = Inst_installed_candidate" "ir_status r = Status_ready"
    "\<not> response_candidate r" "response_installed r"
  | (plain) "\<not> response_candidate r" "\<not> response_installed r"
  by (cases "response_candidate r"; cases "response_installed r")
    (auto simp: response_candidate_def response_installed_def)

lemma frame_response_frame:
  assumes "installer_response_acceptable r"
  shows "frame_response (response_frame r) = Some r"
proof (cases rule: response_kind [of r])
  case candidate
  with assms show ?thesis
    by (cases r; cases "ir_candidate r")
      (auto simp: frame_response_def response_frame_def Let_def installer_response_acceptable_def
        response_candidate_def response_installed_def installer_limits count_command_def)
next
  case installed
  with assms show ?thesis
    by (cases r; cases "ir_installed r")
      (simp add: frame_response_def response_frame_def Let_def installer_response_acceptable_def
        response_candidate_def response_installed_def installer_limits count_command_def
        installed_flag_bits)
next
  case plain
  then have k: "response_candidate (r\<lparr>ir_candidate := c, ir_installed := i\<rparr>) = False"
    "response_installed (r\<lparr>ir_candidate := c, ir_installed := i\<rparr>) = False" for c :: inbox_candidate and i :: installed_candidate
    by (simp_all add: response_candidate_def response_installed_def)
  from plain assms k show ?thesis
    by (cases r) (auto simp: frame_response_def response_frame_def Let_def
        installer_response_acceptable_def installer_limits)
qed

lemma frame_response_command:
  "frame_response f = Some r \<Longrightarrow> if_command f = ir_command r \<and> if_status f = ir_status r"
  by (auto simp: frame_response_def Let_def split: if_splits)

lemma frame_responseD:
  assumes "frame_response f = Some r" "frame_ok f"
  shows "installer_response_acceptable r \<and> response_frame r = f"
proof (cases rule: response_kind [of r])
  case candidate
  with assms frame_response_command [OF assms(1)] show ?thesis
    by (cases f) (auto simp: frame_response_def response_frame_def Let_def
        installer_response_acceptable_def response_candidate_def response_installed_def
        installer_limits frame_ok_def not_less u16_le_1 split: if_splits)
next
  case installed
  define i where "i = \<lparr>ia_token = if_token f, ia_app_id = if_app_id f, ia_name = if_name f,
    ia_version = if_version f, ia_detail = if_detail f, ia_current_release = if_release f,
    ia_previous_release = if_package_size f, ia_security_epoch = if_epoch f,
    ia_policy_trusted = (if_flags f AND 4 \<noteq> 0), ia_current_verified = (if_flags f AND 1 \<noteq> 0),
    ia_rollback_available = (if_flags f AND 2 \<noteq> 0)\<rparr>"
  have r: "r = \<lparr>ir_command = Inst_installed_candidate, ir_status = Status_ready,
      ir_request_id = if_request_id f, ir_count = 0, ir_detail = if_detail f,
      ir_candidate = no_candidate, ir_installed = i\<rparr>"
    and ok: "valid_installed i" "valid_text (if_detail f) 256 False" "if_count f = 0"
    using assms(1) installed frame_response_command [OF assms(1)]
    by (simp_all add: frame_response_def Let_def response_candidate_def response_installed_def
        installer_limits i_def split: if_split_asm)
  have "if_flags f \<le> 7" using assms(2) by (simp add: frame_ok_def)
  from installed_flags_of_bits [OF this]
  have flags: "(if ia_current_verified i then 1 else 0) OR (if ia_rollback_available i then 2 else 0) OR
    (if ia_policy_trusted i then 4 else 0) = if_flags f"
    by (simp only: i_def installed_candidate.select_convs)
  have fields: "ia_token i = if_token f" "ia_app_id i = if_app_id f" "ia_name i = if_name f"
    "ia_version i = if_version f" "ia_detail i = if_detail f" "ia_current_release i = if_release f"
    "ia_previous_release i = if_package_size f" "ia_security_epoch i = if_epoch f"
    by (simp_all only: i_def installed_candidate.select_convs)
  from installed frame_response_command [OF assms(1)] ok assms(2) show ?thesis
    unfolding response_frame_def Let_def
    by (simp add: flags fields r installer_response_acceptable_def response_candidate_def
        response_installed_def count_command_def frame_ok_def)
next
  case plain
  have no: "\<not> (if_command f = Inst_candidate \<and> if_status f = Status_ready)"
    "\<not> (if_command f = Inst_installed_candidate \<and> if_status f = Status_ready)"
    using plain frame_response_command [OF assms(1)]
    by (simp_all add: response_candidate_def response_installed_def)
  have r: "r = \<lparr>ir_command = if_command f, ir_status = if_status f, ir_request_id = if_request_id f,
      ir_count = if_count f, ir_detail = if_detail f, ir_candidate = no_candidate,
      ir_installed = no_installed\<rparr>"
    and ok: "valid_text (if_detail f) 256 False" "count_command (if_command f) \<or> if_count f = 0"
      "if_flags f = 0" "if_token f = []" "if_app_id f = []" "if_name f = []" "if_version f = []"
      "if_release f = 0" "if_package_size f = 0" "if_epoch f = 0"
    using assms(1) unfolding frame_response_def Let_def response_candidate_def response_installed_def
      installer_response.select_convs if_not_P [OF no(1)] if_not_P [OF no(2)] installer_limits
    by (auto split: if_splits)
  from ok assms(2) plain show ?thesis
    unfolding response_frame_def Let_def if_not_P [OF plain(1)] if_not_P [OF plain(2)]
    by (cases f) (simp add: r installer_response_acceptable_def frame_ok_def)
qed

interpretation installer_response_codec: wire_codec encode_installer_response
  decode_installer_response installer_response_acceptable
proof
  fix r assume "installer_response_acceptable r"
  then show "decode_installer_response (encode_installer_response r) = Some r"
    by (simp add: decode_installer_response_def encode_installer_response_eq
        decode_encode_frame response_frame_ok frame_response_frame)
next
  fix bs r assume "decode_installer_response bs = Some r"
  then obtain f where f: "decode_installer_frame bs = Some f" "frame_response f = Some r"
    by (auto simp: decode_installer_response_def split: option.splits)
  with frame_responseD [OF f(2) decode_frame_ok [OF f(1)]]
  show "installer_response_acceptable r" "encode_installer_response r = bs"
    by (simp_all add: encode_installer_response_eq encode_decode_frame)
qed

section \<open>Properties\<close>


text \<open>Installer requests and responses are canonical: each decoder accepts exactly what its encoder
  writes for an acceptable message, unused fields and padding included.\<close>

lemma installer_wire_format:
  "(decode_installer_request bs = Some q \<longleftrightarrow> installer_request_acceptable q \<and> encode_installer_request q = bs) \<and>
   (decode_installer_response bs = Some p \<longleftrightarrow> installer_response_acceptable p \<and> encode_installer_response p = bs)"
  using installer_request_codec.decode_iff installer_response_codec.decode_iff by blast

end
