(* ===== verification/Storage_Protocol.thy ===== *)
theory Storage_Protocol
  imports Identifiers
begin

text \<open>
  The storage broker's packets and quota rule (\<open>platform/src/ipc/storage_protocol.cpp\<close>): a
  96-byte header that binds command, status, sizes and request id, the record name in the
  header, then the data.
\<close>

section \<open>Data\<close>

definition kStorageRecordNameSize :: nat where "kStorageRecordNameSize = 64"
definition kStorageHeaderSize :: nat where "kStorageHeaderSize = 96"
definition kMaximumStorageRecordSize :: nat where "kMaximumStorageRecordSize = 65536"
definition kMaximumStoragePacketSize :: nat where "kMaximumStoragePacketSize = 65632"
definition kStorageMagic :: bytes where "kStorageMagic = bytes_of ''LVSTOR1'' @ [0]"
definition kStorageVersion :: u16 where "kStorageVersion = 1"

datatype storage_command = Storage_read | Storage_write | Storage_command_unknown u16

definition storage_command_of :: "u16 \<Rightarrow> storage_command" where
  "storage_command_of w = (if w = 1 then Storage_read else if w = 2 then Storage_write
     else Storage_command_unknown w)"

fun storage_command_value :: "storage_command \<Rightarrow> u16" where
  "storage_command_value Storage_read = 1"
| "storage_command_value Storage_write = 2"
| "storage_command_value (Storage_command_unknown w) = w"

datatype storage_status =
    Storage_ok | Storage_invalid_request | Storage_not_found | Storage_quota_exceeded
  | Storage_corrupt | Storage_io_error | Storage_status_unknown u16

definition storage_status_of :: "u16 \<Rightarrow> storage_status" where
  "storage_status_of w = (if w = 0 then Storage_ok else if w = 1 then Storage_invalid_request
     else if w = 2 then Storage_not_found else if w = 3 then Storage_quota_exceeded
     else if w = 4 then Storage_corrupt else if w = 5 then Storage_io_error
     else Storage_status_unknown w)"

fun storage_status_value :: "storage_status \<Rightarrow> u16" where
  "storage_status_value Storage_ok = 0"
| "storage_status_value Storage_invalid_request = 1"
| "storage_status_value Storage_not_found = 2"
| "storage_status_value Storage_quota_exceeded = 3"
| "storage_status_value Storage_corrupt = 4"
| "storage_status_value Storage_io_error = 5"
| "storage_status_value (Storage_status_unknown w) = w"

fun valid_storage_command :: "storage_command \<Rightarrow> bool" where
  "valid_storage_command (Storage_command_unknown _) = False"
| "valid_storage_command _ = True"

text \<open>\<open>status >= ok && status <= io_error\<close>, on the 16-bit value.\<close>

definition valid_storage_status :: "storage_status \<Rightarrow> bool" where
  "valid_storage_status s \<longleftrightarrow> 0 \<le> storage_status_value s \<and> storage_status_value s \<le> 5"

record storage_request =
  sq_command :: storage_command
  sq_request_id :: u64
  sq_record :: string
  sq_maximum_size :: u32
  sq_data :: bytes

record storage_response =
  sp_command :: storage_command
  sp_status :: storage_status
  sp_request_id :: u64
  sp_data :: bytes

section \<open>Record names and quota\<close>

fun contains_dotdot :: "string \<Rightarrow> bool" where
  "contains_dotdot (a # b # cs) = ((a = dot \<and> b = dot) \<or> contains_dotdot (b # cs))"
| "contains_dotdot _ = False"

definition valid_storage_record_name :: "string \<Rightarrow> bool" where
  "valid_storage_record_name v =
     (if v = [] \<or> kStorageRecordNameSize < length v \<or> hd v = dot \<or> contains_dotdot v then False
      else list_all (\<lambda>c. is_lower c \<or> is_digit c \<or> c = dot \<or> c = CHR ''_'' \<or> c = dash) v)"

definition storage_write_within_quota ::
    "u32 \<Rightarrow> u64 \<Rightarrow> bool \<Rightarrow> u64 \<Rightarrow> u64 \<Rightarrow> u32 \<Rightarrow> u64 \<Rightarrow> bool" where
  "storage_write_within_quota current_files current_bytes record_exists existing_size new_size
     maximum_files maximum_bytes =
     (if maximum_files = 0 \<or> maximum_bytes = 0 \<or> new_size = 0 \<or>
         word_of_nat kMaximumStorageRecordSize < new_size \<or>
         (record_exists \<and> (current_files = 0 \<or> existing_size = 0 \<or> current_bytes < existing_size)) \<or>
         (\<not> record_exists \<and> existing_size \<noteq> 0)
      then False
      else let retained = current_bytes - existing_size
           in if maximum_bytes < retained \<or> maximum_bytes - retained < new_size then False
              else if record_exists then current_files \<le> maximum_files
              else current_files < maximum_files)"

text \<open>
  The rule as plain arithmetic: the write is allowed exactly if the totals after it are within
  the limits. The unsigned subtractions of the code never wrap.
\<close>

definition quota_spec :: "nat \<Rightarrow> nat \<Rightarrow> bool \<Rightarrow> nat \<Rightarrow> nat \<Rightarrow> nat \<Rightarrow> nat \<Rightarrow> bool" where
  "quota_spec files used present old new maximum_files maximum_bytes \<longleftrightarrow>
     0 < new \<and> new \<le> 65536 \<and>
     (if present then 0 < files \<and> 0 < old \<and> old \<le> used \<and> files \<le> maximum_files
      else old = 0 \<and> files + 1 \<le> maximum_files) \<and>
     used + new \<le> maximum_bytes + old"

lemma unat_diff_le: "b \<le> (a :: 'a::len word) \<Longrightarrow> unat (a - b) = unat a - unat b"
  by (simp add: unat_sub)

lemma storage_write_within_quota_spec:
  "storage_write_within_quota cf cb ex es ns mf mb \<longleftrightarrow>
     quota_spec (unat cf) (unat cb) ex (unat es) (unat ns) (unat mf) (unat mb)"
proof -
  have max_size: "unat (word_of_nat kMaximumStorageRecordSize :: u64) = 65536"
    by (simp add: kMaximumStorageRecordSize_def)
  have zero: "w = 0 \<longleftrightarrow> unat w = 0" for w :: "'b::len word" by (simp add: unat_eq_0)
  have nats: "unat (cb - es) = unat cb - unat es" if "unat es \<le> unat cb"
    using that by (simp add: unat_sub word_le_nat_alt)
  have nats': "unat (mb - (cb - es)) = unat mb - unat (cb - es)" if "unat (cb - es) \<le> unat mb"
    using that by (simp add: unat_sub word_le_nat_alt)
  show ?thesis
  proof (cases "unat es \<le> unat cb \<and> unat (cb - es) \<le> unat mb")
    case True
    then show ?thesis
      unfolding storage_write_within_quota_def quota_spec_def Let_def word_less_nat_alt
        word_le_nat_alt zero max_size
      using nats nats' by auto
  next
    case False
    then show ?thesis
      unfolding storage_write_within_quota_def quota_spec_def Let_def word_less_nat_alt
        word_le_nat_alt zero max_size
      using nats by auto
  qed
qed

section \<open>Packets\<close>

definition storage_header_writes ::
    "storage_command \<Rightarrow> storage_status \<Rightarrow> u16 \<Rightarrow> u32 \<Rightarrow> u32 \<Rightarrow> u64 \<Rightarrow> (nat \<times> bytes) list" where
  "storage_header_writes command status name_size data_size maximum_size request_id =
     [(0, kStorageMagic),
      (8, le_bytes 2 kStorageVersion),
      (10, le_bytes 2 (storage_command_value command)),
      (12, le_bytes 2 (storage_status_value status)),
      (14, le_bytes 2 name_size),
      (16, le_bytes 4 data_size),
      (20, le_bytes 4 maximum_size),
      (24, le_bytes 8 request_id)]"

record storage_header =
  sh_command :: storage_command
  sh_status :: storage_status
  sh_name_size :: u16
  sh_data_size :: u32
  sh_maximum_size :: u32
  sh_request_id :: u64

definition decode_storage_header :: "bytes \<Rightarrow> storage_header option" where
  "decode_storage_header bs =
     (if length bs < kStorageHeaderSize \<or> kMaximumStoragePacketSize < length bs \<or>
         bytes_at 0 8 bs \<noteq> kStorageMagic \<or> get_le 8 2 bs \<noteq> kStorageVersion
      then None
      else let h = \<lparr>sh_command = storage_command_of (get_le 10 2 bs),
                    sh_status = storage_status_of (get_le 12 2 bs),
                    sh_name_size = get_le 14 2 bs,
                    sh_data_size = get_le 16 4 bs,
                    sh_maximum_size = get_le 20 4 bs,
                    sh_request_id = get_le 24 8 bs\<rparr>
           in if valid_storage_command (sh_command h) \<and> valid_storage_status (sh_status h) \<and>
                 unat (sh_data_size h) \<le> kMaximumStorageRecordSize \<and>
                 length bs = kStorageHeaderSize + unat (sh_data_size h)
              then Some h else None)"

definition zero_padding :: "bytes \<Rightarrow> nat \<Rightarrow> bool" where
  "zero_padding bs begin = all_zero (bytes_at begin (kStorageHeaderSize - begin) bs)"

definition encode_storage_request :: "storage_request \<Rightarrow> bytes" where
  "encode_storage_request q =
     (let write = (sq_command q = Storage_write) in
      if \<not> valid_storage_command (sq_command q) \<or> sq_request_id q = 0 \<or>
         \<not> valid_storage_record_name (sq_record q) \<or> sq_maximum_size q = 0 \<or>
         kMaximumStorageRecordSize < unat (sq_maximum_size q) \<or>
         (write \<and> (sq_data q = [] \<or> unat (sq_maximum_size q) < length (sq_data q))) \<or>
         (\<not> write \<and> sq_data q \<noteq> [])
      then []
      else puts
        (storage_header_writes (sq_command q) Storage_ok (word_of_nat (length (sq_record q)))
           (word_of_nat (length (sq_data q))) (sq_maximum_size q) (sq_request_id q) @
         [(32, bytes_of (sq_record q)), (kStorageHeaderSize, sq_data q)])
        (replicate (kStorageHeaderSize + length (sq_data q)) 0))"

definition decode_storage_request :: "bytes \<Rightarrow> storage_request option" where
  "decode_storage_request bs =
     (case decode_storage_header bs of None \<Rightarrow> None
      | Some h \<Rightarrow>
        let name_size = unat (sh_name_size h) in
        if sh_status h \<noteq> Storage_ok \<or> sh_request_id h = 0 \<or> name_size = 0 \<or>
           kStorageRecordNameSize < name_size \<or> sh_maximum_size h = 0 \<or>
           kMaximumStorageRecordSize < unat (sh_maximum_size h) \<or>
           sh_maximum_size h < sh_data_size h \<or> \<not> zero_padding bs (32 + name_size)
        then None
        else let name = str_of (bytes_at 32 name_size bs);
                 write = (sh_command h = Storage_write)
             in if \<not> valid_storage_record_name name \<or> (write \<and> sh_data_size h = 0) \<or>
                   (\<not> write \<and> sh_data_size h \<noteq> 0)
                then None
                else Some \<lparr>sq_command = sh_command h, sq_request_id = sh_request_id h,
                           sq_record = name, sq_maximum_size = sh_maximum_size h,
                           sq_data = bytes_at kStorageHeaderSize (unat (sh_data_size h)) bs\<rparr>)"

definition encode_storage_response :: "storage_response \<Rightarrow> bytes" where
  "encode_storage_response p =
     (if \<not> valid_storage_command (sp_command p) \<or> \<not> valid_storage_status (sp_status p) \<or>
         sp_request_id p = 0 \<or> kMaximumStorageRecordSize < length (sp_data p) \<or>
         (sp_status p \<noteq> Storage_ok \<and> sp_data p \<noteq> []) \<or>
         (sp_command p = Storage_write \<and> sp_data p \<noteq> [])
      then []
      else puts
        (storage_header_writes (sp_command p) (sp_status p) 0 (word_of_nat (length (sp_data p))) 0
           (sp_request_id p) @
         [(kStorageHeaderSize, sp_data p)])
        (replicate (kStorageHeaderSize + length (sp_data p)) 0))"

definition decode_storage_response :: "bytes \<Rightarrow> storage_response option" where
  "decode_storage_response bs =
     (case decode_storage_header bs of None \<Rightarrow> None
      | Some h \<Rightarrow>
        if sh_request_id h = 0 \<or> sh_name_size h \<noteq> 0 \<or> sh_maximum_size h \<noteq> 0 \<or>
           \<not> zero_padding bs 32 \<or> (sh_status h \<noteq> Storage_ok \<and> sh_data_size h \<noteq> 0) \<or>
           (sh_command h = Storage_write \<and> sh_data_size h \<noteq> 0)
        then None
        else Some \<lparr>sp_command = sh_command h, sp_status = sh_status h,
                   sp_request_id = sh_request_id h,
                   sp_data = bytes_at kStorageHeaderSize (unat (sh_data_size h)) bs\<rparr>)"

section \<open>Round trips\<close>

lemma storage_command_roundtrip [simp]:
  "valid_storage_command c \<Longrightarrow> storage_command_of (storage_command_value c) = c"
  "storage_command_value (storage_command_of w) = w"
  by (cases c; simp add: storage_command_of_def) (simp add: storage_command_of_def)

lemma valid_storage_status_simps [simp]:
  "valid_storage_status Storage_ok" "valid_storage_status Storage_invalid_request"
  "valid_storage_status Storage_not_found" "valid_storage_status Storage_quota_exceeded"
  "valid_storage_status Storage_corrupt" "valid_storage_status Storage_io_error"
  by (simp_all add: valid_storage_status_def)

lemma storage_status_value_of [simp]: "storage_status_value (storage_status_of w) = w"
  by (simp add: storage_status_of_def)

lemma length_kStorageMagic [simp]: "length kStorageMagic = 8"
  by (simp add: kStorageMagic_def)

lemma decode_storage_header_puts:
  assumes ws_def: "ws = storage_header_writes c s ns ds ms i @ rest"
    and w: "writes_ok N ws" and N: "N = 96 + unat ds" "unat ds \<le> 65536"
    and v: "valid_storage_command c" "valid_storage_status s" "storage_status_of (storage_status_value s) = s"
  shows "decode_storage_header (puts ws (replicate N 0)) = Some \<lparr>sh_command = c, sh_status = s,
    sh_name_size = ns, sh_data_size = ds, sh_maximum_size = ms, sh_request_id = i\<rparr>"
proof -
  define e where "e = puts ws (replicate N 0)"
  have field: "bytes_at off n e = bs" if "(off, bs) \<in> set (storage_header_writes c s ns ds ms i)" "n = length bs" for off bs n
    using bytes_at_puts [of "replicate N 0" ws off bs n] w that by (simp add: e_def ws_def)
  have "bytes_at 0 8 e = kStorageMagic" "get_le 8 2 e = kStorageVersion"
    "get_le 10 2 e = storage_command_value c" "get_le 12 2 e = storage_status_value s"
    "get_le 14 2 e = ns" "get_le 16 4 e = ds" "get_le 20 4 e = ms" "get_le 24 8 e = i"
    by (simp_all add: field storage_header_writes_def get_le_def)
  moreover have "length e = N" using w by (simp add: e_def)
  ultimately show ?thesis
    using N v unfolding e_def [symmetric] by (simp add: decode_storage_header_def kStorageHeaderSize_def
        kMaximumStoragePacketSize_def kMaximumStorageRecordSize_def)
qed

lemma decode_storage_headerD:
  assumes "decode_storage_header bs = Some h"
  shows "length bs = 96 + unat (sh_data_size h)" "unat (sh_data_size h) \<le> 65536"
    "valid_storage_command (sh_command h)" "valid_storage_status (sh_status h)"
    "(off, b) \<in> set (storage_header_writes (sh_command h) (sh_status h) (sh_name_size h)
       (sh_data_size h) (sh_maximum_size h) (sh_request_id h)) \<Longrightarrow>
     off + length b \<le> length bs \<and> b = bytes_at off (length b) bs"
proof -
  have h: "h = \<lparr>sh_command = storage_command_of (get_le 10 2 bs),
      sh_status = storage_status_of (get_le 12 2 bs), sh_name_size = get_le 14 2 bs,
      sh_data_size = get_le 16 4 bs, sh_maximum_size = get_le 20 4 bs, sh_request_id = get_le 24 8 bs\<rparr>"
    and len: "96 \<le> length bs" and magic: "bytes_at 0 8 bs = kStorageMagic"
    and version: "get_le 8 2 bs = kStorageVersion"
    and rest: "valid_storage_command (sh_command h)" "valid_storage_status (sh_status h)"
      "unat (sh_data_size h) \<le> 65536" "length bs = 96 + unat (sh_data_size h)"
    using assms by (auto simp: decode_storage_header_def Let_def kStorageHeaderSize_def
        kMaximumStoragePacketSize_def kMaximumStorageRecordSize_def split: if_splits)
  from rest show "length bs = 96 + unat (sh_data_size h)" "unat (sh_data_size h) \<le> 65536"
    "valid_storage_command (sh_command h)" "valid_storage_status (sh_status h)"
    by simp_all
  have v: "le_bytes 2 kStorageVersion = bytes_at 8 2 bs"
    using len by (intro get_le_eqD [OF version]) simp_all
  assume "(off, b) \<in> set (storage_header_writes (sh_command h) (sh_status h) (sh_name_size h)
       (sh_data_size h) (sh_maximum_size h) (sh_request_id h))"
  then show "off + length b \<le> length bs \<and> b = bytes_at off (length b) bs"
    using len unfolding h by (auto simp: storage_header_writes_def v magic)
qed

definition storage_request_acceptable :: "storage_request \<Rightarrow> bool" where
  "storage_request_acceptable q \<longleftrightarrow> valid_storage_command (sq_command q) \<and> sq_request_id q \<noteq> 0 \<and>
     valid_storage_record_name (sq_record q) \<and> sq_maximum_size q \<noteq> 0 \<and>
     unat (sq_maximum_size q) \<le> 65536 \<and>
     (if sq_command q = Storage_write
      then sq_data q \<noteq> [] \<and> length (sq_data q) \<le> unat (sq_maximum_size q) else sq_data q = [])"

definition storage_response_acceptable :: "storage_response \<Rightarrow> bool" where
  "storage_response_acceptable p \<longleftrightarrow> valid_storage_command (sp_command p) \<and>
     sp_status p \<in> {Storage_ok, Storage_invalid_request, Storage_not_found, Storage_quota_exceeded,
       Storage_corrupt, Storage_io_error} \<and>
     sp_request_id p \<noteq> 0 \<and> length (sp_data p) \<le> 65536 \<and>
     (sp_data p \<noteq> [] \<longrightarrow> sp_status p = Storage_ok \<and> sp_command p \<noteq> Storage_write)"

lemma valid_storage_record_name_length:
  "valid_storage_record_name v \<Longrightarrow> v \<noteq> [] \<and> length v \<le> 64"
  by (auto simp: valid_storage_record_name_def kStorageRecordNameSize_def split: if_splits)

lemma encode_storage_request_eq:
  assumes "storage_request_acceptable q"
  shows "encode_storage_request q = puts
    (storage_header_writes (sq_command q) Storage_ok (word_of_nat (length (sq_record q)))
       (word_of_nat (length (sq_data q))) (sq_maximum_size q) (sq_request_id q) @
     [(32, bytes_of (sq_record q)), (96, sq_data q)]) (replicate (96 + length (sq_data q)) 0)"
  using assms by (auto simp: encode_storage_request_def storage_request_acceptable_def Let_def
      kMaximumStorageRecordSize_def kStorageHeaderSize_def split: if_splits)

lemma decode_encode_storage_request:
  assumes ok: "storage_request_acceptable q"
  shows "decode_storage_request (encode_storage_request q) = Some q"
proof -
  let ?N = "96 + length (sq_data q)" and ?n = "length (sq_record q)" and ?e = "encode_storage_request q"
  let ?ws = "storage_header_writes (sq_command q) Storage_ok (word_of_nat ?n)
       (word_of_nat (length (sq_data q))) (sq_maximum_size q) (sq_request_id q) @
     [(32, bytes_of (sq_record q)), (96, sq_data q)]"
  have n: "?n \<noteq> 0" "?n \<le> 64" and d: "length (sq_data q) \<le> unat (sq_maximum_size q)"
    "length (sq_data q) \<le> 65536"
    using ok valid_storage_record_name_length [of "sq_record q"]
    by (auto simp: storage_request_acceptable_def split: if_splits)
  have w: "writes_ok ?N ?ws" using n by (simp add: storage_header_writes_def)
  have sizes: "unat (word_of_nat ?n :: u16) = ?n"
    "unat (word_of_nat (length (sq_data q)) :: u32) = length (sq_data q)"
    using n d by (simp_all add: unat_of_nat)
  have header: "decode_storage_header ?e = Some \<lparr>sh_command = sq_command q, sh_status = Storage_ok,
      sh_name_size = word_of_nat ?n, sh_data_size = word_of_nat (length (sq_data q)),
      sh_maximum_size = sq_maximum_size q, sh_request_id = sq_request_id q\<rparr>"
    unfolding encode_storage_request_eq [OF ok]
    using w d ok by (intro decode_storage_header_puts [OF refl])
      (simp_all add: sizes storage_request_acceptable_def storage_status_of_def)
  have fields: "bytes_at 32 ?n ?e = bytes_of (sq_record q)"
    "bytes_at 96 (length (sq_data q)) ?e = sq_data q"
    unfolding encode_storage_request_eq [OF ok] using w by (intro bytes_at_puts; simp)+
  have "bytes_at (32 + ?n) (64 - ?n) ?e = bytes_at (32 + ?n) (64 - ?n) (replicate ?N 0)"
    unfolding encode_storage_request_eq [OF ok]
    using w n by (intro bytes_at_puts_other) (simp_all add: storage_header_writes_def)
  then have pad: "zero_padding ?e (32 + ?n)"
    using n by (simp add: zero_padding_def kStorageHeaderSize_def)
  have le: "\<not> sq_maximum_size q < word_of_nat (length (sq_data q))"
    using d by (simp add: word_less_nat_alt sizes)
  have dz: "(word_of_nat (length (sq_data q)) :: u32) = 0 \<longleftrightarrow> sq_data q = []"
    using sizes(2) by (metis length_0_conv unat_eq_zero)
  show ?thesis
    using ok n unfolding decode_storage_request_def header
    by (auto simp: Let_def sizes fields pad le dz kStorageRecordNameSize_def kStorageHeaderSize_def
        kMaximumStorageRecordSize_def storage_request_acceptable_def split: if_splits)
qed

lemma decode_storage_requestD:
  assumes "decode_storage_request bs = Some q"
  obtains h where "decode_storage_header bs = Some h"
    "sh_status h = Storage_ok" "unat (sh_name_size h) \<noteq> 0" "unat (sh_name_size h) \<le> 64"
    "zero_padding bs (32 + unat (sh_name_size h))" "sq_command q = sh_command h"
    "sq_request_id q = sh_request_id h" "sq_maximum_size q = sh_maximum_size h"
    "sq_record q = str_of (bytes_at 32 (unat (sh_name_size h)) bs)"
    "sq_data q = bytes_at 96 (unat (sh_data_size h)) bs" "storage_request_acceptable q"
proof -
  obtain h where h: "decode_storage_header bs = Some h"
    using assms by (auto simp: decode_storage_request_def split: option.splits)
  note hd = decode_storage_headerD [OF h]
  have len: "length (bytes_at 96 (unat (sh_data_size h)) bs) = unat (sh_data_size h)"
    using hd(1) by simp
  then have nil: "bytes_at 96 (unat (sh_data_size h)) bs = [] \<longleftrightarrow> sh_data_size h = 0"
    by (metis length_0_conv unat_eq_zero)
  show ?thesis
    using assms h hd(3) len nil
    by (intro that [OF h]) (auto simp: decode_storage_request_def Let_def storage_request_acceptable_def
        kStorageRecordNameSize_def kStorageHeaderSize_def kMaximumStorageRecordSize_def
        word_less_nat_alt split: if_splits)
qed

lemma encode_decode_storage_request:
  assumes "decode_storage_request bs = Some q"
  shows "encode_storage_request q = bs"
proof -
  from assms obtain h where h: "decode_storage_header bs = Some h" "sh_status h = Storage_ok"
    "unat (sh_name_size h) \<noteq> 0" "unat (sh_name_size h) \<le> 64"
    "zero_padding bs (32 + unat (sh_name_size h))" "sq_command q = sh_command h"
    "sq_request_id q = sh_request_id h" "sq_maximum_size q = sh_maximum_size h"
    "sq_record q = str_of (bytes_at 32 (unat (sh_name_size h)) bs)"
    "sq_data q = bytes_at 96 (unat (sh_data_size h)) bs" and ok: "storage_request_acceptable q"
    by (rule decode_storage_requestD)
  note hd = decode_storage_headerD [OF h(1)]
  have sizes: "length (sq_record q) = unat (sh_name_size h)" "length (sq_data q) = unat (sh_data_size h)"
    using hd(1) h(4,9,10) by simp_all
  have zero: "bs ! i = 0" if "32 + unat (sh_name_size h) \<le> i" "i < 96" for i
    using h(4,5) hd(1) that
    by (intro all_zero_bytes_at_nth [of "32 + unat (sh_name_size h)" "64 - unat (sh_name_size h)"])
      (simp_all add: zero_padding_def kStorageHeaderSize_def)
  show ?thesis unfolding encode_storage_request_eq [OF ok]
  proof (rule puts_eq)
    fix off b
    assume "(off, b) \<in> set (storage_header_writes (sq_command q) Storage_ok
        (word_of_nat (length (sq_record q))) (word_of_nat (length (sq_data q))) (sq_maximum_size q)
        (sq_request_id q) @ [(32, bytes_of (sq_record q)), (96, sq_data q)])"
    then show "off + length b \<le> length bs \<and> b = bytes_at off (length b) bs"
      using hd(5) [of off b] hd(1) h by (auto simp: sizes)
  next
    fix i assume i: "i < length bs"
    have "i < 32 \<or> 32 \<le> i \<and> i < 32 + unat (sh_name_size h) \<or> 32 + unat (sh_name_size h) \<le> i \<and> i < 96 \<or> 96 \<le> i"
      by linarith
    then show "bs ! i = replicate (96 + length (sq_data q)) 0 ! i \<or>
        (\<exists>(off, b) \<in> set (storage_header_writes (sq_command q) Storage_ok
        (word_of_nat (length (sq_record q))) (word_of_nat (length (sq_data q))) (sq_maximum_size q)
        (sq_request_id q) @ [(32, bytes_of (sq_record q)), (96, sq_data q)]). off \<le> i \<and> i < off + length b)"
      using zero [of i] i hd(1) by (elim disjE) (simp_all add: sizes storage_header_writes_def, linarith)
  qed (simp add: hd(1) sizes)
qed

interpretation storage_request_codec: wire_codec encode_storage_request decode_storage_request
  storage_request_acceptable
  by unfold_locales (blast intro: decode_encode_storage_request encode_decode_storage_request
      elim: decode_storage_requestD)+

lemma storage_status_known_iff:
  "storage_status_of (storage_status_value s) = s \<and> valid_storage_status s \<longleftrightarrow>
   s \<in> {Storage_ok, Storage_invalid_request, Storage_not_found, Storage_quota_exceeded,
     Storage_corrupt, Storage_io_error}"
proof (cases s)
  case (Storage_status_unknown w)
  have "w \<le> 5 \<Longrightarrow> w = 0 \<or> w = 1 \<or> w = 2 \<or> w = 3 \<or> w = 4 \<or> w = 5"
    by (simp add: word_le_nat_alt word_unat_eq_iff) arith
  then show ?thesis
    using Storage_status_unknown by (auto simp: storage_status_of_def valid_storage_status_def)
qed (simp_all add: storage_status_of_def)

lemma storage_status_of_known:
  "valid_storage_status (storage_status_of w) \<Longrightarrow>
   storage_status_of w \<in> {Storage_ok, Storage_invalid_request, Storage_not_found,
     Storage_quota_exceeded, Storage_corrupt, Storage_io_error}"
  using storage_status_known_iff [of "storage_status_of w"] by simp

lemma encode_storage_response_eq:
  assumes "storage_response_acceptable p"
  shows "encode_storage_response p = puts
    (storage_header_writes (sp_command p) (sp_status p) 0 (word_of_nat (length (sp_data p))) 0
       (sp_request_id p) @ [(96, sp_data p)]) (replicate (96 + length (sp_data p)) 0)"
  using assms by (auto simp: encode_storage_response_def storage_response_acceptable_def
      kMaximumStorageRecordSize_def kStorageHeaderSize_def split: if_splits)

lemma decode_encode_storage_response:
  assumes ok: "storage_response_acceptable p"
  shows "decode_storage_response (encode_storage_response p) = Some p"
proof -
  let ?N = "96 + length (sp_data p)" and ?e = "encode_storage_response p"
  let ?ws = "storage_header_writes (sp_command p) (sp_status p) 0 (word_of_nat (length (sp_data p))) 0
       (sp_request_id p) @ [(96, sp_data p)]"
  have d: "length (sp_data p) \<le> 65536"
    using ok by (simp add: storage_response_acceptable_def)
  have w: "writes_ok ?N ?ws" by (simp add: storage_header_writes_def)
  have sizes: "unat (word_of_nat (length (sp_data p)) :: u32) = length (sp_data p)"
    using d by (simp add: unat_of_nat)
  have st: "valid_storage_status (sp_status p)" "storage_status_of (storage_status_value (sp_status p)) = sp_status p"
    using ok storage_status_known_iff [of "sp_status p"]
    unfolding storage_response_acceptable_def by blast+
  have header: "decode_storage_header ?e = Some \<lparr>sh_command = sp_command p, sh_status = sp_status p,
      sh_name_size = 0, sh_data_size = word_of_nat (length (sp_data p)),
      sh_maximum_size = 0, sh_request_id = sp_request_id p\<rparr>"
    unfolding encode_storage_response_eq [OF ok]
    using w d ok st by (intro decode_storage_header_puts [OF refl])
      (simp_all add: sizes storage_response_acceptable_def)
  have field: "bytes_at 96 (length (sp_data p)) ?e = sp_data p"
    unfolding encode_storage_response_eq [OF ok] using w by (intro bytes_at_puts) simp_all
  have "bytes_at 32 64 ?e = bytes_at 32 64 (replicate ?N 0)"
    unfolding encode_storage_response_eq [OF ok]
    using w by (intro bytes_at_puts_other) (simp_all add: storage_header_writes_def)
  then have pad: "zero_padding ?e 32"
    by (simp add: zero_padding_def kStorageHeaderSize_def)
  have dz: "(word_of_nat (length (sp_data p)) :: u32) = 0 \<longleftrightarrow> sp_data p = []"
    using sizes by (metis length_0_conv unat_eq_zero)
  show ?thesis
    using ok unfolding decode_storage_response_def header
    by (auto simp: sizes field pad dz kStorageHeaderSize_def storage_response_acceptable_def)
qed

lemma decode_storage_responseD:
  assumes "decode_storage_response bs = Some p"
  obtains h where "decode_storage_header bs = Some h" "sh_name_size h = 0" "sh_maximum_size h = 0"
    "zero_padding bs 32" "sp_command p = sh_command h" "sp_status p = sh_status h"
    "sp_request_id p = sh_request_id h" "sp_data p = bytes_at 96 (unat (sh_data_size h)) bs"
    "storage_response_acceptable p"
proof -
  obtain h where h: "decode_storage_header bs = Some h"
    using assms by (auto simp: decode_storage_response_def split: option.splits)
  note hd = decode_storage_headerD [OF h]
  have len: "length (bytes_at 96 (unat (sh_data_size h)) bs) = unat (sh_data_size h)"
    using hd(1) by simp
  then have nil: "bytes_at 96 (unat (sh_data_size h)) bs = [] \<longleftrightarrow> sh_data_size h = 0"
    by (metis length_0_conv unat_eq_zero)
  have "sh_status h = storage_status_of (get_le 12 2 bs)"
    using h by (auto simp: decode_storage_header_def Let_def split: if_splits)
  then have st: "sh_status h \<in> {Storage_ok, Storage_invalid_request, Storage_not_found,
     Storage_quota_exceeded, Storage_corrupt, Storage_io_error}"
    using hd(4) storage_status_of_known by metis
  show ?thesis
    using assms h hd(2,3) len nil st
    by (intro that [OF h]) (auto simp: decode_storage_response_def storage_response_acceptable_def
        kStorageHeaderSize_def split: if_splits)
qed

lemma encode_decode_storage_response:
  assumes "decode_storage_response bs = Some p"
  shows "encode_storage_response p = bs"
proof -
  from assms obtain h where h: "decode_storage_header bs = Some h" "sh_name_size h = 0"
    "sh_maximum_size h = 0" "zero_padding bs 32" "sp_command p = sh_command h"
    "sp_status p = sh_status h" "sp_request_id p = sh_request_id h"
    "sp_data p = bytes_at 96 (unat (sh_data_size h)) bs" and ok: "storage_response_acceptable p"
    by (rule decode_storage_responseD)
  note hd = decode_storage_headerD [OF h(1)]
  have size: "length (sp_data p) = unat (sh_data_size h)" using hd(1) h(8) by simp
  have zero: "bs ! i = 0" if "32 \<le> i" "i < 96" for i
    using h(4) hd(1) that
    by (intro all_zero_bytes_at_nth [of 32 64]) (simp_all add: zero_padding_def kStorageHeaderSize_def)
  show ?thesis unfolding encode_storage_response_eq [OF ok]
  proof (rule puts_eq)
    fix off b
    assume "(off, b) \<in> set (storage_header_writes (sp_command p) (sp_status p) 0
        (word_of_nat (length (sp_data p))) 0 (sp_request_id p) @ [(96, sp_data p)])"
    then show "off + length b \<le> length bs \<and> b = bytes_at off (length b) bs"
      using hd(5) [of off b] hd(1) h by (auto simp: size)
  next
    fix i assume i: "i < length bs"
    have "i < 32 \<or> 32 \<le> i \<and> i < 96 \<or> 96 \<le> i" by linarith
    then show "bs ! i = replicate (96 + length (sp_data p)) 0 ! i \<or>
        (\<exists>(off, b) \<in> set (storage_header_writes (sp_command p) (sp_status p) 0
        (word_of_nat (length (sp_data p))) 0 (sp_request_id p) @ [(96, sp_data p)]).
          off \<le> i \<and> i < off + length b)"
      using zero [of i] i hd(1) by (elim disjE) (simp_all add: size storage_header_writes_def, linarith)
  qed (simp add: hd(1) size)
qed

interpretation storage_response_codec: wire_codec encode_storage_response decode_storage_response
  storage_response_acceptable
  by unfold_locales (blast intro: decode_encode_storage_response encode_decode_storage_response
      elim: decode_storage_responseD)+

section \<open>Properties\<close>


text \<open>Both storage packets are canonical: a request (a response) is decoded exactly when it is what
  the encoder writes for an acceptable message, so no two packets mean the same message.\<close>

lemma storage_wire_format:
  "(decode_storage_request bs = Some q \<longleftrightarrow> storage_request_acceptable q \<and> encode_storage_request q = bs) \<and>
   (decode_storage_response bs = Some p \<longleftrightarrow> storage_response_acceptable p \<and> encode_storage_response p = bs)"
  using storage_request_codec.decode_iff storage_response_codec.decode_iff by blast

text \<open>The quota test on machine words means what it says over the natural numbers: no sum of it
  wraps around, whatever sizes it is given.\<close>

lemma storage_quota_exact:
  "storage_write_within_quota cf cb ex es ns mf mb \<longleftrightarrow>
     quota_spec (unat cf) (unat cb) ex (unat es) (unat ns) (unat mf) (unat mb)"
  by (rule storage_write_within_quota_spec)

end
