(* ===== verification/Session_Control.thy ===== *)
theory Session_Control
  imports Identifiers
begin

text \<open>
  The 128-byte control message an application sends to \<open>sessiond\<close>
  (\<open>platform/src/session/session_control.cpp\<close>). The client that sends it and the older 16-byte message are in
  \<open>App_Control\<close>, its handling by the session in \<open>Session_Supervisor\<close>.
\<close>

section \<open>The control message\<close>

definition kSessionControlMagic :: u32 where "kSessionControlMagic = 0x4c565343"
definition kSessionControlVersion :: u16 where "kSessionControlVersion = 1"
definition kSessionControlSize :: nat where "kSessionControlSize = 128"

datatype session_control_command =
    Control_ready | Control_exit_session | Control_launch_application | Control_home
  | Control_unknown u32

definition control_command_of :: "u32 \<Rightarrow> session_control_command" where
  "control_command_of w = (if w = 1 then Control_ready else if w = 2 then Control_exit_session
     else if w = 3 then Control_launch_application else if w = 4 then Control_home
     else Control_unknown w)"

fun control_command_value :: "session_control_command \<Rightarrow> u32" where
  "control_command_value Control_ready = 1"
| "control_command_value Control_exit_session = 2"
| "control_command_value Control_launch_application = 3"
| "control_command_value Control_home = 4"
| "control_command_value (Control_unknown w) = w"

record session_control_message =
  sc_command :: session_control_command
  sc_result :: u32
  sc_app_id :: string

definition control_id_size :: "session_control_message \<Rightarrow> nat" where
  "control_id_size m =
     (if sc_command m = Control_launch_application \<and> valid_session_app_id (sc_app_id m)
      then length (sc_app_id m) else 0)"

definition control_writes :: "session_control_message \<Rightarrow> (nat \<times> bytes) list" where
  "control_writes m =
     (let app_id_size = control_id_size m in
      [(0, le_bytes 4 kSessionControlMagic),
       (4, le_bytes 2 kSessionControlVersion),
       (6, le_bytes 2 (word_of_nat kSessionControlSize :: u16)),
       (8, le_bytes 4 (control_command_value (sc_command m))),
       (12, le_bytes 4 (sc_result m)),
       (16, le_bytes 2 (word_of_nat app_id_size :: u16))] @
      (if app_id_size \<noteq> 0 then [(20, bytes_of (take app_id_size (sc_app_id m)))] else []))"

definition encode_session_control :: "session_control_message \<Rightarrow> bytes" where
  "encode_session_control m = puts (control_writes m) (replicate kSessionControlSize 0)"

definition known_control_command :: "session_control_command \<Rightarrow> bool" where
  "known_control_command c \<longleftrightarrow> c = Control_ready \<or> c = Control_exit_session \<or>
     c = Control_launch_application \<or> c = Control_home"

definition decode_session_control :: "bytes \<Rightarrow> session_control_message option" where
  "decode_session_control bs =
     (if length bs \<noteq> kSessionControlSize \<or> get_le 0 4 bs \<noteq> kSessionControlMagic \<or>
         get_le 4 2 bs \<noteq> kSessionControlVersion \<or>
         get_le 6 2 bs \<noteq> (word_of_nat kSessionControlSize :: u16)
      then None
      else let command = control_command_of (get_le 8 4 bs);
               result = get_le 12 4 bs;
               app_id_size = unat (get_le 16 2 bs :: u16)
           in if get_le 18 2 bs \<noteq> (0 :: u16) \<or> kSessionControlAppIdSize \<le> app_id_size \<or>
                 \<not> all_zero (drop (20 + app_id_size) bs) \<or>
                 \<not> known_control_command command \<or> result \<noteq> (0 :: u32)
              then None
              else let app_id = str_of (bytes_at 20 app_id_size bs)
                   in if ((command = Control_launch_application) = (app_id = [])) \<or>
                         (app_id \<noteq> [] \<and> \<not> valid_session_app_id app_id)
                      then None
                      else Some \<lparr>sc_command = command, sc_result = result, sc_app_id = app_id\<rparr>)"

text \<open>The messages the channel carries.\<close>

definition control_acceptable :: "session_control_message \<Rightarrow> bool" where
  "control_acceptable m \<longleftrightarrow> known_control_command (sc_command m) \<and> sc_result m = 0 \<and>
     (if sc_command m = Control_launch_application then valid_session_app_id (sc_app_id m)
      else sc_app_id m = [])"

lemma control_command_roundtrip [simp]:
  "known_control_command c \<Longrightarrow> control_command_of (control_command_value c) = c"
  "control_command_value (control_command_of w) = w"
  by (auto simp: known_control_command_def control_command_of_def)

lemma control_id_size_bound: "control_id_size m < 96"
  by (auto simp: control_id_size_def dest: valid_session_app_id_length)

lemma control_writes_ok: "writes_ok 128 (control_writes m)"
  using control_id_size_bound [of m] by (simp add: control_writes_def Let_def min_def)

lemma length_encode_session_control [simp]: "length (encode_session_control m) = 128"
  using control_writes_ok [of m] by (simp add: encode_session_control_def kSessionControlSize_def)

lemma control_field:
  assumes "(off, bs) \<in> set (control_writes m)" "n = length bs"
  shows "bytes_at off n (encode_session_control m) = bs"
  using bytes_at_puts [of "replicate 128 0" "control_writes m" off bs n] control_writes_ok [of m] assms
  by (simp add: encode_session_control_def kSessionControlSize_def)

lemma control_pad:
  assumes "apart off n (control_writes m)" "off + n \<le> 128"
  shows "bytes_at off n (encode_session_control m) = replicate n 0"
  using bytes_at_puts_other [of "replicate 128 0" "control_writes m" off n] control_writes_ok [of m] assms
  by (simp add: encode_session_control_def kSessionControlSize_def)

lemma decode_encode_session_control:
  assumes ok: "control_acceptable m"
  shows "decode_session_control (encode_session_control m) = Some m"
proof -
  let ?n = "control_id_size m" and ?e = "encode_session_control m"
  have n: "?n < 96" by (rule control_id_size_bound)
  have header: "get_le 0 4 ?e = kSessionControlMagic" "get_le 4 2 ?e = kSessionControlVersion"
    "get_le 6 2 ?e = (word_of_nat kSessionControlSize :: u16)"
    "get_le 8 4 ?e = control_command_value (sc_command m)" "get_le 12 4 ?e = sc_result m"
    "get_le 16 2 ?e = (word_of_nat ?n :: u16)"
    by (simp_all add: get_le_def control_field control_writes_def Let_def)
  have size: "unat (word_of_nat ?n :: u16) = ?n"
    using n by (simp add: unat_of_nat)
  have "bytes_at 18 2 ?e = replicate 2 0"
    using n by (intro control_pad) (simp_all add: control_writes_def Let_def)
  then have pad: "get_le 18 2 ?e = (0 :: u16)" by (simp add: get_le_def)
  have "drop (20 + ?n) ?e = replicate (108 - ?n) 0"
    using n by (simp add: drop_eq_bytes_at) (intro control_pad; simp add: control_writes_def Let_def)
  then have tail: "all_zero (drop (20 + ?n) ?e)" by simp
  have id: "str_of (bytes_at 20 ?n ?e) = sc_app_id m"
  proof (cases "?n = 0")
    case True
    with ok show ?thesis
      by (auto simp: control_acceptable_def control_id_size_def bytes_at_def split: if_splits)
  next
    case False
    then have "bytes_at 20 ?n ?e = bytes_of (take ?n (sc_app_id m))"
      by (intro control_field) (auto simp: control_writes_def Let_def control_id_size_def split: if_splits)
    with False show ?thesis by (auto simp: control_id_size_def split: if_splits)
  qed
  have "sc_command m = Control_launch_application \<longleftrightarrow> sc_app_id m \<noteq> []"
    using ok by (auto simp: control_acceptable_def split: if_splits)
  then show ?thesis
    using ok n unfolding decode_session_control_def header size Let_def pad
    by (auto simp: tail id control_acceptable_def kSessionControlSize_def kSessionControlAppIdSize_def
        split: if_splits)
qed

lemma decode_session_control_acceptable:
  "decode_session_control bs = Some m \<Longrightarrow> control_acceptable m"
  by (auto simp: decode_session_control_def control_acceptable_def Let_def split: if_splits)

lemma encode_decode_session_control:
  assumes d: "decode_session_control bs = Some m"
  shows "encode_session_control m = bs"
proof -
  let ?n = "unat (get_le 16 2 bs :: u16)"
  have len: "length bs = 128" and magic: "get_le 0 4 bs = kSessionControlMagic"
    and version: "get_le 4 2 bs = kSessionControlVersion"
    and size: "get_le 6 2 bs = (word_of_nat kSessionControlSize :: u16)"
    and pad: "get_le 18 2 bs = (0 :: u16)" and n: "?n < 96"
    and tail: "all_zero (drop (20 + ?n) bs)"
    and m: "m = \<lparr>sc_command = control_command_of (get_le 8 4 bs), sc_result = get_le 12 4 bs,
      sc_app_id = str_of (bytes_at 20 ?n bs)\<rparr>"
    using d by (auto simp: decode_session_control_def Let_def kSessionControlSize_def
        kSessionControlAppIdSize_def split: if_splits)
  have "control_acceptable m" using d by (rule decode_session_control_acceptable)
  moreover have "length (sc_app_id m) = ?n" using m len n by simp
  ultimately have idsize: "control_id_size m = ?n"
    by (auto simp: control_acceptable_def control_id_size_def split: if_splits)
  have fields: "sc_command m = control_command_of (get_le 8 4 bs)" "sc_result m = get_le 12 4 bs"
    "sc_app_id m = str_of (bytes_at 20 ?n bs)"
    by (simp_all add: m)
  have wsize: "(word_of_nat ?n :: u16) = get_le 16 2 bs" by simp
  note fixed = get_le_eqD [OF magic] get_le_eqD [OF version] get_le_eqD [OF size]
  have zero: "bs ! i = 0" if "i = 18 \<or> i = 19 \<or> 20 + ?n \<le> i" "i < 128" for i
  proof (cases "20 + ?n \<le> i")
    case True
    with that len tail n show ?thesis
      by (intro all_zero_bytes_at_nth [of "20 + ?n" "108 - ?n"]) (simp_all add: drop_eq_bytes_at)
  next
    case False
    have "all_zero (bytes_at 18 2 bs)" using pad len by (simp add: get_le_eq_0)
    then show ?thesis using False that len by (intro all_zero_bytes_at_nth [of 18 2]) auto
  qed
  show ?thesis unfolding encode_session_control_def kSessionControlSize_def
  proof (rule puts_eq)
    fix off b assume "(off, b) \<in> set (control_writes m)"
    then show "off + length b \<le> length bs \<and> b = bytes_at off (length b) bs"
      using len n by (auto simp: control_writes_def Let_def idsize wsize fields fixed split: if_splits)
  next
    fix i assume i: "i < length bs"
    have "i < 18 \<or> i = 18 \<or> i = 19 \<or> (20 \<le> i \<and> i < 20 + ?n) \<or> 20 + ?n \<le> i" by linarith
    then show "bs ! i = replicate 128 0 ! i \<or>
        (\<exists>(off, b) \<in> set (control_writes m). off \<le> i \<and> i < off + length b)"
      using zero [of i] i len n by (auto simp: control_writes_def Let_def idsize fields)
  qed (simp add: len)
qed

interpretation control_codec: wire_codec encode_session_control decode_session_control
  control_acceptable
  by unfold_locales
    (simp_all add: decode_encode_session_control decode_session_control_acceptable
      encode_decode_session_control)

section \<open>Properties\<close>


text \<open>The control message format is canonical: \<open>decode_session_control\<close> accepts exactly the 128 bytes
  that \<open>encode_session_control\<close> writes for an acceptable message.\<close>

lemma control_wire_format:
  "decode_session_control bs = Some m \<longleftrightarrow> control_acceptable m \<and> encode_session_control m = bs"
  by (rule control_codec.decode_iff)

end
