(* ===== verification/Game_2048.thy ===== *)
theory Game_2048
  imports Prelude
begin

unbundle bit_operations_syntax

text \<open>
  The model of the game (\<open>apps/game-2048/game_2048_model.cpp\<close>): the board of 16 cells in rows, the
  collapse of a line, the xorshift generator, moves with their tile motions, undo, restoring. The
  array \<open>motions\<close> with its \<open>motion_count\<close> is the list of its first \<open>motion_count\<close> entries.
\<close>

section \<open>Data\<close>

datatype move_direction = Move_left | Move_right | Move_up | Move_down
datatype game_phase = Playing | Won | Lost

record line_move =
  lm_values :: "u16 list"
  lm_score_delta :: u32
  lm_merge_mask :: u8
  lm_changed :: bool

record tile_motion =
  tm_from :: nat
  tm_to :: nat
  tm_value :: u16
  tm_merged :: bool

record move_outcome =
  mo_changed :: bool
  mo_score_delta :: u32
  mo_motions :: "tile_motion list"
  mo_spawned_cell :: nat
  mo_spawned_value :: u16

record game_snapshot =
  sn_board :: "u16 list"
  sn_score :: u32
  sn_phase :: game_phase
  sn_random_state :: u64

record game_2048 =
  gm_board :: "u16 list"
  gm_score :: u32
  gm_best_score :: u32
  gm_phase :: game_phase
  gm_random_state :: u64
  gm_undo :: game_snapshot
  gm_undo_valid :: bool

record persistent_game_state =
  ps_board :: "u16 list"
  ps_score :: u32
  ps_best_score :: u32
  ps_phase :: game_phase
  ps_random_state :: u64
  ps_undo_board :: "u16 list"
  ps_undo_score :: u32
  ps_undo_phase :: game_phase
  ps_undo_random_state :: u64
  ps_undo_valid :: bool

section \<open>Lines\<close>

text \<open>The loop of \<open>collapse_line\<close> over the compact values, from the position \<open>output\<close> on.\<close>

fun collapse_loop :: "u16 list \<Rightarrow> nat \<Rightarrow> line_move \<Rightarrow> line_move" where
  "collapse_loop [] pos r = r"
| "collapse_loop [v] pos r = r\<lparr>lm_values := (lm_values r)[pos := v]\<rparr>"
| "collapse_loop (v # w # vs) pos r =
     (if w = v
      then let doubled = (if v \<le> 32767 then v * 2 else v) in
        collapse_loop vs (Suc pos)
          (r\<lparr>lm_score_delta := lm_score_delta r + ucast doubled,
             lm_merge_mask := lm_merge_mask r OR push_bit pos 1,
             lm_values := (lm_values r)[pos := doubled]\<rparr>)
      else collapse_loop (w # vs) (Suc pos) (r\<lparr>lm_values := (lm_values r)[pos := v]\<rparr>))"

definition collapse_line :: "u16 list \<Rightarrow> line_move" where
  "collapse_line input =
     (let r = collapse_loop (filter (\<lambda>v. v \<noteq> 0) input) 0
        \<lparr>lm_values = replicate 4 0, lm_score_delta = 0, lm_merge_mask = 0, lm_changed = False\<rparr>
      in r\<lparr>lm_changed := (lm_values r \<noteq> input)\<rparr>)"

fun cell :: "move_direction \<Rightarrow> nat \<Rightarrow> nat \<Rightarrow> nat" where
  "cell Move_left line offset = line * 4 + offset"
| "cell Move_right line offset = line * 4 + (3 - offset)"
| "cell Move_up line offset = offset * 4 + line"
| "cell Move_down line offset = (3 - offset) * 4 + line"

section \<open>Chance\<close>

definition xorshift :: "u64 \<Rightarrow> u64" where
  "xorshift state =
     (let value = state XOR drop_bit 12 state;
          value = value XOR push_bit 25 value
      in value XOR drop_bit 27 value)"

definition game_random :: "u64 \<Rightarrow> u64 \<times> u64" where
  "game_random state = (let value = xorshift state in (value * 2685821657736338717, value))"

text \<open>\<open>spawn\<close>: the new tile and its cell, when there is an empty one.\<close>

definition empty_cells :: "u16 list \<Rightarrow> nat list" where
  "empty_cells board = filter (\<lambda>i. board ! i = 0) [0..<16]"

definition spawn :: "game_2048 \<Rightarrow> (nat \<times> u16) option \<times> game_2048" where
  "spawn g =
     (let empty = empty_cells (gm_board g); count = length empty
      in if count = 0 then (None, g)
      else case game_random (gm_random_state g) of
        (r1, state) \<Rightarrow>
          let selected = empty ! (unat (r1 mod word_of_nat count)) in
          (case game_random state of
            (r2, state) \<Rightarrow>
              let value = (if r2 mod 10 = 0 then 4 else 2)
              in (Some (selected, value),
                  g\<lparr>gm_random_state := state, gm_board := (gm_board g)[selected := value]\<rparr>)))"

section \<open>Phases and boards\<close>

definition phase_for_board :: "u16 list \<Rightarrow> game_phase" where
  "phase_for_board board =
     (if list_ex (\<lambda>v. v \<ge> 2048) board then Won
      else if list_ex (\<lambda>v. v = 0) board then Playing
      else if list_ex (\<lambda>row. list_ex (\<lambda>column.
          let index = row * 4 + column in
          (column < 3 \<and> board ! index = board ! (index + 1)) \<or>
          (row < 3 \<and> board ! index = board ! (index + 4))) [0..<4]) [0..<4]
      then Playing else Lost)"

definition valid_tile :: "u16 \<Rightarrow> bool" where
  "valid_tile v \<longleftrightarrow> v = 0 \<or> (v \<ge> 2 \<and> v AND (v - 1) = 0)"

definition valid_board :: "u16 list \<Rightarrow> bool" where
  "valid_board board \<longleftrightarrow> list_all valid_tile board"

section \<open>Moves\<close>

fun motion_loop :: "move_direction \<Rightarrow> nat \<Rightarrow> u16 list \<Rightarrow> nat list \<Rightarrow> nat \<Rightarrow> tile_motion list" where
  "motion_loop d line vals [] destination = []"
| "motion_loop d line vals [s] destination =
     [\<lparr>tm_from = cell d line s, tm_to = cell d line destination, tm_value = vals ! s, tm_merged = False\<rparr>]"
| "motion_loop d line vals (s # t # sources) destination =
     (if vals ! t = vals ! s
      then \<lparr>tm_from = cell d line s, tm_to = cell d line destination, tm_value = vals ! s, tm_merged = True\<rparr>
         # \<lparr>tm_from = cell d line t, tm_to = cell d line destination, tm_value = vals ! s, tm_merged = True\<rparr>
         # motion_loop d line vals sources (Suc destination)
      else \<lparr>tm_from = cell d line s, tm_to = cell d line destination, tm_value = vals ! s, tm_merged = False\<rparr>
         # motion_loop d line vals (t # sources) (Suc destination))"

text \<open>One iteration of the loop over the lines: the next board, the score and the motions.\<close>

definition line_values :: "move_direction \<Rightarrow> u16 list \<Rightarrow> nat \<Rightarrow> u16 list" where
  "line_values d board line = map (\<lambda>offset. board ! cell d line offset) [0..<4]"

definition put_line :: "move_direction \<Rightarrow> nat \<Rightarrow> u16 list \<Rightarrow> u16 list \<Rightarrow> u16 list" where
  "put_line d line vals next =
     foldl (\<lambda>next offset. next[cell d line offset := vals ! offset]) next [0..<4]"

definition move_line ::
    "move_direction \<Rightarrow> u16 list \<Rightarrow> u16 list \<times> u32 \<times> tile_motion list \<Rightarrow> nat \<Rightarrow>
     u16 list \<times> u32 \<times> tile_motion list" where
  "move_line d board acc line =
     (case acc of (next, delta, motions) \<Rightarrow>
       let vals = line_values d board line;
           sources = filter (\<lambda>offset. vals ! offset \<noteq> 0) [0..<4];
           collapsed = collapse_line vals
       in (put_line d line (lm_values collapsed) next, delta + lm_score_delta collapsed,
           motions @ motion_loop d line vals sources 0))"

definition slide :: "move_direction \<Rightarrow> u16 list \<Rightarrow> u16 list \<times> u32 \<times> tile_motion list" where
  "slide d board = foldl (move_line d board) (board, 0, []) [0..<4]"

definition no_outcome :: move_outcome where
  "no_outcome = \<lparr>mo_changed = False, mo_score_delta = 0, mo_motions = [], mo_spawned_cell = 255,
     mo_spawned_value = 0\<rparr>"

definition game_move :: "move_direction \<Rightarrow> game_2048 \<Rightarrow> move_outcome \<times> game_2048" where
  "game_move d g =
     (if gm_phase g = Lost then (no_outcome, g)
      else case slide d (gm_board g) of (next, delta, motions) \<Rightarrow>
        if next = gm_board g
        then (no_outcome\<lparr>mo_score_delta := delta\<rparr>, g\<lparr>gm_phase := phase_for_board (gm_board g)\<rparr>)
        else
          let before = \<lparr>sn_board = gm_board g, sn_score = gm_score g, sn_phase = gm_phase g,
                sn_random_state = gm_random_state g\<rparr>;
              score = gm_score g + delta;
              g = g\<lparr>gm_board := next, gm_score := score, gm_best_score := max (gm_best_score g) score,
                gm_undo := before, gm_undo_valid := True\<rparr>
          in case spawn g of (tile, g) \<Rightarrow>
            (\<lparr>mo_changed = True, mo_score_delta = delta, mo_motions = motions,
              mo_spawned_cell = (case tile of None \<Rightarrow> 255 | Some (c, _) \<Rightarrow> c),
              mo_spawned_value = (case tile of None \<Rightarrow> 0 | Some (_, v) \<Rightarrow> v)\<rparr>,
             g\<lparr>gm_phase := phase_for_board (gm_board g)\<rparr>))"

section \<open>The other operations\<close>

definition game_reset :: "game_2048 \<Rightarrow> game_2048" where
  "game_reset g =
     snd (spawn (snd (spawn (g\<lparr>gm_board := replicate 16 0, gm_score := 0, gm_phase := Playing,
       gm_undo_valid := False\<rparr>))))"

definition new_game :: "u64 \<Rightarrow> game_2048" where
  "new_game seed = game_reset
     \<lparr>gm_board = replicate 16 0, gm_score = 0, gm_best_score = 0, gm_phase = Playing,
      gm_random_state = (if seed = 0 then 1 else seed),
      gm_undo = \<lparr>sn_board = replicate 16 0, sn_score = 0, sn_phase = Playing, sn_random_state = 1\<rparr>,
      gm_undo_valid = False\<rparr>"

definition game_undo :: "game_2048 \<Rightarrow> bool \<times> game_2048" where
  "game_undo g =
     (if \<not> gm_undo_valid g then (False, g)
      else (True, g\<lparr>gm_board := sn_board (gm_undo g), gm_score := sn_score (gm_undo g),
        gm_phase := sn_phase (gm_undo g), gm_random_state := sn_random_state (gm_undo g),
        gm_undo_valid := False\<rparr>))"

definition set_best_score :: "u32 \<Rightarrow> game_2048 \<Rightarrow> game_2048" where
  "set_best_score value' g = g\<lparr>gm_best_score := max value' (gm_score g)\<rparr>"

definition persistent_state :: "game_2048 \<Rightarrow> persistent_game_state" where
  "persistent_state g =
     \<lparr>ps_board = gm_board g, ps_score = gm_score g, ps_best_score = gm_best_score g,
      ps_phase = gm_phase g, ps_random_state = gm_random_state g,
      ps_undo_board = sn_board (gm_undo g), ps_undo_score = sn_score (gm_undo g),
      ps_undo_phase = sn_phase (gm_undo g), ps_undo_random_state = sn_random_state (gm_undo g),
      ps_undo_valid = gm_undo_valid g\<rparr>"

definition restore_state :: "persistent_game_state \<Rightarrow> game_2048 \<Rightarrow> bool \<times> game_2048" where
  "restore_state s g =
     (if \<not> valid_board (ps_board s) \<or> ps_random_state s = 0 \<or> ps_best_score s < ps_score s \<or>
         phase_for_board (ps_board s) \<noteq> ps_phase s \<or> \<not> valid_board (ps_undo_board s) \<or>
         ps_undo_random_state s = 0 \<or> ps_undo_score s > ps_best_score s \<or>
         phase_for_board (ps_undo_board s) \<noteq> ps_undo_phase s
      then (False, g)
      else (True,
        \<lparr>gm_board = ps_board s, gm_score = ps_score s, gm_best_score = ps_best_score s,
         gm_phase = ps_phase s, gm_random_state = ps_random_state s,
         gm_undo = \<lparr>sn_board = ps_undo_board s, sn_score = ps_undo_score s,
           sn_phase = ps_undo_phase s, sn_random_state = ps_undo_random_state s\<rparr>,
         gm_undo_valid = ps_undo_valid s\<rparr>))"


section \<open>Collapsing a line: the rule of the game\<close>

text \<open>The rule: from the near end on, two equal neighbours become their double, once.\<close>

definition doubled :: "u16 \<Rightarrow> u16" where
  "doubled v = (if v \<le> 32767 then v * 2 else v)"

fun merge_tiles :: "u16 list \<Rightarrow> u16 list" where
  "merge_tiles [] = []"
| "merge_tiles [v] = [v]"
| "merge_tiles (v # w # vs) = (if w = v then doubled v # merge_tiles vs else v # merge_tiles (w # vs))"

fun merge_score :: "u16 list \<Rightarrow> u32" where
  "merge_score [] = 0"
| "merge_score [v] = 0"
| "merge_score (v # w # vs) = (if w = v then ucast (doubled v) + merge_score vs else merge_score (w # vs))"

lemma length_merge_tiles: "length (merge_tiles vs) \<le> length vs"
  by (induction vs rule: merge_tiles.induct) (auto simp: le_SucI)

lemma collapse_loop_merge:
  "pos + length vs \<le> length (lm_values r) \<Longrightarrow>
   lm_values (collapse_loop vs pos r) =
     take pos (lm_values r) @ merge_tiles vs @ drop (pos + length (merge_tiles vs)) (lm_values r) \<and>
   lm_score_delta (collapse_loop vs pos r) = lm_score_delta r + merge_score vs"
proof (induction vs pos r rule: collapse_loop.induct)
  case (2 v pos r)
  then show ?case by (simp add: upd_conv_take_nth_drop)
next
  case (3 v w vs pos r)
  have upd: "take (Suc pos) ((lm_values r)[pos := x]) = take pos (lm_values r) @ [x]"
    "drop (Suc pos + k) ((lm_values r)[pos := x]) = drop (Suc pos + k) (lm_values r)" for x k
    using 3(3) by (simp_all add: take_Suc_conv_app_nth)
  show ?case
  proof (cases "w = v")
    case True
    with 3(1) [OF True refl] 3(3) upd show ?thesis by (simp add: doubled_def Let_def add.assoc)
  next
    case False
    with 3(2) [OF False] 3(3) upd show ?thesis by simp
  qed
qed simp

lemma collapse_line_merge:
  assumes "length vals = 4"
  shows "lm_values (collapse_line vals) =
      merge_tiles (filter (\<lambda>v. v \<noteq> 0) vals) @
      replicate (4 - length (merge_tiles (filter (\<lambda>v. v \<noteq> 0) vals))) 0"
    "lm_score_delta (collapse_line vals) = merge_score (filter (\<lambda>v. v \<noteq> 0) vals)"
    "length (lm_values (collapse_line vals)) = 4"
proof -
  let ?f = "filter (\<lambda>v. v \<noteq> 0) vals"
  have "length ?f \<le> 4" using assms length_filter_le [of _ vals] by metis
  moreover have "length (merge_tiles ?f) \<le> length ?f" by (rule length_merge_tiles)
  moreover note collapse_loop_merge [of 0 ?f "\<lparr>lm_values = replicate 4 0, lm_score_delta = 0, lm_merge_mask = 0, lm_changed = False\<rparr>"]
  ultimately show "lm_values (collapse_line vals) = merge_tiles ?f @ replicate (4 - length (merge_tiles ?f)) 0"
    "lm_score_delta (collapse_line vals) = merge_score ?f" "length (lm_values (collapse_line vals)) = 4"
    by (simp_all add: collapse_line_def Let_def)
qed

text \<open>Tiles are zero or powers of two from 2 on, and doubling keeps them so.\<close>

lemma valid_tile_double: "valid_tile v \<Longrightarrow> v \<noteq> 0 \<Longrightarrow> valid_tile (doubled v)"
proof -
  assume v: "valid_tile v" "v \<noteq> 0"
  show "valid_tile (doubled v)"
  proof (cases "v \<le> 32767")
    case True
    then have n: "unat v \<le> 32767" by (simp add: word_le_nat_alt)
    then have two: "unat (v * 2) = 2 * unat v" by (subst unat_mult_lem [THEN iffD1]) simp_all
    have pos: "0 < unat v" using v by (simp add: unat_gt_0)
    have sub: "unat (v - 1) = unat v - 1" using v(2) by (simp add: unat_minus_one)
    have "v * 2 \<noteq> 0" using two pos by (metis mult_is_0 not_gr_zero unat_0 zero_neq_numeral)
    then have sub2: "unat (v * 2 - 1) = 2 * (unat v - 1) + 1" using two pos by (simp add: unat_minus_one)
    have "unat (v AND (v - 1)) = 0" using v by (simp add: valid_tile_def)
    then have "unat v AND (unat v - 1) = 0" by (simp add: unsigned_and_eq sub)
    moreover have "(2 * n) AND (2 * m + 1) = 2 * (n AND m)" for n m :: nat
      by (subst and_rec) simp
    ultimately have "unat (v * 2 AND (v * 2 - 1)) = 0"
      by (simp add: unsigned_and_eq two sub2)
    then have "v * 2 AND (v * 2 - 1) = 0" by (simp add: unat_eq_zero)
    moreover have "2 \<le> v * 2" using two pos by (simp add: word_le_nat_alt)
    ultimately show ?thesis using True by (simp add: doubled_def valid_tile_def)
  qed (use v in \<open>simp add: doubled_def\<close>)
qed

lemma merge_tiles_valid: "list_all (\<lambda>v. valid_tile v \<and> v \<noteq> 0) vs \<Longrightarrow> list_all valid_tile (merge_tiles vs)"
  by (induction vs rule: merge_tiles.induct) (auto simp: valid_tile_double)

lemma collapse_line_valid:
  assumes "length vals = 4" "list_all valid_tile vals"
  shows "list_all valid_tile (lm_values (collapse_line vals))"
proof -
  have "list_all (\<lambda>v. valid_tile v \<and> v \<noteq> 0) (filter (\<lambda>v. v \<noteq> 0) vals)"
    using assms(2) by (auto simp: list_all_iff)
  from merge_tiles_valid [OF this] show ?thesis
    by (auto simp: collapse_line_merge assms(1) list_all_iff valid_tile_def)
qed

text \<open>Without saturation no tile value is lost.\<close>

definition total :: "u16 list \<Rightarrow> nat" where
  "total vs = sum_list (map unat vs)"

lemma total_simps [simp]:
  "total [] = 0" "total (v # vs) = unat v + total vs" "total (vs @ ws) = total vs + total ws"
  "total (replicate n 0) = 0"
  by (simp_all add: total_def sum_list_replicate)

lemma unat_doubled: "v \<le> 32767 \<Longrightarrow> unat (doubled v) = 2 * unat v"
  by (simp add: doubled_def word_le_nat_alt unat_mult_lem [THEN iffD1])

lemma total_merge: "list_all (\<lambda>v. v \<le> 32767) vs \<Longrightarrow> total (merge_tiles vs) = total vs"
  by (induction vs rule: merge_tiles.induct) (auto simp: unat_doubled)

lemma total_filter: "total (filter (\<lambda>v. v \<noteq> 0) vs) = total vs"
  by (induction vs) auto

lemma collapse_line_total:
  assumes "length vals = 4" "list_all (\<lambda>v. v \<le> 32767) vals"
  shows "total (lm_values (collapse_line vals)) = total vals"
proof -
  have "list_all (\<lambda>v. v \<le> 32767) (filter (\<lambda>v. v \<noteq> 0) vals)"
    using assms(2) by (auto simp: list_all_iff)
  from total_merge [OF this] show ?thesis by (simp add: collapse_line_merge assms(1) total_filter)
qed

section \<open>The slide of a board\<close>

lemma cells_lt: "l < 4 \<Longrightarrow> k < 4 \<Longrightarrow> cell d l k < 16"
  by (cases d) auto

lemma less_4: "(l :: nat) < 4 \<longleftrightarrow> l = 0 \<or> l = 1 \<or> l = 2 \<or> l = 3"
  by auto

lemma less_16_cell:
  assumes "i < 16"
  obtains l k where "l < 4" "k < 4" "i = cell d l k"
proof -
  have m: "i div 4 < 4" "i mod 4 < 4" using assms by auto
  have e: "i = i div 4 * 4 + i mod 4" by simp
  show thesis
  proof (cases d)
    case Move_left
    with m e that [of "i div 4" "i mod 4"] show thesis by simp
  next
    case Move_right
    with m e that [of "i div 4" "3 - i mod 4"] show thesis by simp
  next
    case Move_up
    with m e that [of "i mod 4" "i div 4"] show thesis by simp
  next
    case Move_down
    with m e that [of "i mod 4" "3 - i div 4"] show thesis by simp
  qed
qed

lemma cell_div_mod:
  assumes "l < 4" "k < 4"
  shows "cell d l k div 4 = (case d of Move_left \<Rightarrow> l | Move_right \<Rightarrow> l | Move_up \<Rightarrow> k | Move_down \<Rightarrow> 3 - k)"
    "cell d l k mod 4 = (case d of Move_left \<Rightarrow> k | Move_right \<Rightarrow> 3 - k | Move_up \<Rightarrow> l | Move_down \<Rightarrow> l)"
proof -
  have q: "(x * 4 + y) div 4 = x \<and> (x * 4 + y) mod 4 = y" if "y < 4" for x y :: nat
    using that by (simp add: div_mult_self3)
  have "3 - k < 4" by simp
  note q [OF assms(2), of l] q [OF assms(1), of k] q [OF assms(1), of "3 - k"] q [OF this, of l]
  then show "cell d l k div 4 = (case d of Move_left \<Rightarrow> l | Move_right \<Rightarrow> l | Move_up \<Rightarrow> k | Move_down \<Rightarrow> 3 - k)"
    "cell d l k mod 4 = (case d of Move_left \<Rightarrow> k | Move_right \<Rightarrow> 3 - k | Move_up \<Rightarrow> l | Move_down \<Rightarrow> l)"
    by (cases d; simp only: cell.simps move_direction.case)+
qed

lemma cell_inject:
  assumes "l < 4" "k < 4" "l' < 4" "k' < 4"
  shows "cell d l k = cell d l' k' \<longleftrightarrow> l = l' \<and> k = k'"
proof
  assume "cell d l k = cell d l' k'"
  then have "cell d l k div 4 = cell d l' k' div 4" "cell d l k mod 4 = cell d l' k' mod 4" by simp_all
  then show "l = l' \<and> k = k'" using assms unfolding cell_div_mod [OF assms(1,2)] cell_div_mod [OF assms(3,4)]
    by (cases d) simp_all
qed simp

lemma upt_4: "[0..<4] = [0, 1, 2, 3 :: nat]"
  by (simp add: upt_rec)

lemma length_put_line [simp]: "length (put_line d l vals next) = length next"
  by (simp add: put_line_def upt_4)

lemma put_line_nth:
  assumes "length next = 16" "l < 4" "l' < 4" "k < 4"
  shows "put_line d l vals next ! cell d l' k = (if l' = l then vals ! k else next ! cell d l' k)"
proof -
  have c: "cell d l i < 16" if "i < 4" for i using cells_lt [OF assms(2) that] .
  show ?thesis
    using assms c by (auto simp: put_line_def upt_4 nth_list_update cell_inject less_4)
qed

text \<open>Every line of the next board is the collapse of that line of the board.\<close>

lemma slide_lines:
  assumes "length board = 16"
  shows "length (fst (slide d board)) = 16"
    "l < 4 \<Longrightarrow> k < 4 \<Longrightarrow> fst (slide d board) ! cell d l k = lm_values (collapse_line (line_values d board l)) ! k"
    "fst (snd (slide d board)) = (\<Sum>l\<leftarrow>[0..<4]. lm_score_delta (collapse_line (line_values d board l)))"
    "snd (snd (slide d board)) = concat (map (\<lambda>l. motion_loop d l (line_values d board l)
       (filter (\<lambda>k. line_values d board l ! k \<noteq> 0) [0..<4]) 0) [0..<4])"
proof -
  note u = upt_4
  show "length (fst (slide d board)) = 16"
    using assms by (simp add: slide_def move_line_def u Let_def)
  show "l < 4 \<Longrightarrow> k < 4 \<Longrightarrow> fst (slide d board) ! cell d l k = lm_values (collapse_line (line_values d board l)) ! k"
    using assms by (auto simp: slide_def move_line_def u put_line_nth Let_def less_4)
  show "fst (snd (slide d board)) = (\<Sum>l\<leftarrow>[0..<4]. lm_score_delta (collapse_line (line_values d board l)))"
    by (simp add: slide_def move_line_def u Let_def add.assoc)
  show "snd (snd (slide d board)) = concat (map (\<lambda>l. motion_loop d l (line_values d board l)
       (filter (\<lambda>k. line_values d board l ! k \<noteq> 0) [0..<4]) 0) [0..<4])"
    by (simp add: slide_def move_line_def u Let_def)
qed

lemma length_line_values [simp]: "length (line_values d board l) = 4"
  by (simp add: line_values_def)

lemma length_collapse [simp]: "length (lm_values (collapse_line (line_values d board l))) = 4"
  by (rule collapse_line_merge) simp

lemma line_values_nth: "k < 4 \<Longrightarrow> line_values d board l ! k = board ! cell d l k"
  by (simp add: line_values_def)

lemma line_values_all:
  "list_all P board \<Longrightarrow> length board = 16 \<Longrightarrow> l < 4 \<Longrightarrow> list_all P (line_values d board l)"
  by (auto simp: line_values_def list_all_length cells_lt)

lemma slide_all:
  assumes "length board = 16" "\<And>l. l < 4 \<Longrightarrow> list_all P (lm_values (collapse_line (line_values d board l)))"
  shows "list_all P (fst (slide d board))"
proof (unfold list_all_length, intro allI impI)
  fix i assume "i < length (fst (slide d board))"
  then obtain l k where "l < 4" "k < 4" "i = cell d l k"
    using slide_lines(1) [OF assms(1), of d] less_16_cell [of i d thesis] by auto
  then show "P (fst (slide d board) ! i)"
    using assms(2) slide_lines(2) [OF assms(1)]
    by (simp add: list_all_length)
qed

lemma slide_valid: "length board = 16 \<Longrightarrow> valid_board board \<Longrightarrow> valid_board (fst (slide d board))"
  unfolding valid_board_def by (intro slide_all collapse_line_valid) (simp_all add: line_values_all)

lemma slide_eq_iff:
  assumes "length board = 16"
  shows "fst (slide d board) = board \<longleftrightarrow>
    (\<forall>l < 4. lm_values (collapse_line (line_values d board l)) = line_values d board l)"
proof
  assume e: "fst (slide d board) = board"
  show "\<forall>l < 4. lm_values (collapse_line (line_values d board l)) = line_values d board l"
  proof (intro allI impI nth_equalityI)
    fix l k :: nat
    assume "l < 4" "k < length (lm_values (collapse_line (line_values d board l)))"
    then show "lm_values (collapse_line (line_values d board l)) ! k = line_values d board l ! k"
      using slide_lines(2) [OF assms, of l k d] e by (simp add: line_values_nth)
  qed simp
next
  assume l: "\<forall>l < 4. lm_values (collapse_line (line_values d board l)) = line_values d board l"
  show "fst (slide d board) = board"
  proof (rule nth_equalityI)
    fix i assume "i < length (fst (slide d board))"
    then obtain l k where "l < 4" "k < 4" "i = cell d l k"
      using slide_lines(1) [OF assms, of d] less_16_cell [of i d thesis] by auto
    then show "fst (slide d board) ! i = board ! i"
      using l slide_lines(2) [OF assms] by (simp add: line_values_nth)
  qed (simp add: slide_lines assms)
qed

text \<open>A slide by the rule of the game, stated without the loop: the line a move makes of a line, and its score.\<close>

definition moved_line :: "u16 list \<Rightarrow> u16 list" where
  "moved_line vals = (let tiles = merge_tiles (filter (\<lambda>v. v \<noteq> 0) vals) in tiles @ replicate (4 - length tiles) 0)"

definition line_score :: "u16 list \<Rightarrow> u32" where
  "line_score vals = merge_score (filter (\<lambda>v. v \<noteq> 0) vals)"

lemma slide_rule:
  assumes "length board = 16"
  shows "l < 4 \<Longrightarrow> line_values d (fst (slide d board)) l = moved_line (line_values d board l)"
    "fst (snd (slide d board)) = (\<Sum>l\<leftarrow>[0..<4]. line_score (line_values d board l))"
proof -
  note rule = collapse_line_merge [OF length_line_values]
  have "line_values d (fst (slide d board)) l = lm_values (collapse_line (line_values d board l))" if "l < 4" for l
    using slide_lines(2) [OF assms that] by (intro nth_equalityI) (simp_all add: line_values_nth)
  then show "l < 4 \<Longrightarrow> line_values d (fst (slide d board)) l = moved_line (line_values d board l)"
    by (simp add: rule(1) moved_line_def Let_def)
  show "fst (snd (slide d board)) = (\<Sum>l\<leftarrow>[0..<4]. line_score (line_values d board l))"
    by (simp add: slide_lines(3) [OF assms] rule(2) line_score_def)
qed

lemma total_lines:
  assumes "length board = 16"
  shows "total board = (\<Sum>l\<leftarrow>[0..<4]. total (line_values d board l))"
proof -
  obtain a0 a1 a2 a3 a4 a5 a6 a7 a8 a9 aa ab ac ad ae af where
    "board = [a0, a1, a2, a3, a4, a5, a6, a7, a8, a9, aa, ab, ac, ad, ae, af]"
    using assms by (auto simp: numeral_eq_Suc length_Suc_conv)
  then show ?thesis by (cases d) (simp_all add: line_values_def upt_4)
qed

lemma slide_total:
  assumes "length board = 16" "list_all (\<lambda>v. v \<le> 32767) board"
  shows "total (fst (slide d board)) = total board"
proof -
  have "total (line_values d (fst (slide d board)) l) = total (line_values d board l)" if "l < 4" for l
  proof -
    have "line_values d (fst (slide d board)) l = lm_values (collapse_line (line_values d board l))"
      using slide_lines(2) [OF assms(1) that]
      by (intro nth_equalityI) (simp_all add: line_values_nth)
    then show ?thesis using collapse_line_total line_values_all [OF assms(2,1) that] by simp
  qed
  then show ?thesis
    using total_lines [OF assms(1), of d] total_lines [OF slide_lines(1) [OF assms(1)], of d d] by (simp add: upt_4)
qed

end
