(* ===== verification/Game_Play.thy ===== *)
theory Game_Play
  imports Game_2048
begin

unbundle bit_operations_syntax

text \<open>
  What the game of \<open>Game_2048\<close> guarantees: when it is lost, which states it can be in, what its
  moves and their motions do.
\<close>

section \<open>When the game is lost\<close>

lemma collapse_stuck:
  "lm_values (collapse_line [a, b, c, e]) = [a, b, c, e] \<longleftrightarrow>
     (a = 0 \<longrightarrow> b = 0) \<and> (b = 0 \<longrightarrow> c = 0) \<and> (c = 0 \<longrightarrow> e = 0) \<and>
     (b \<noteq> 0 \<longrightarrow> a \<noteq> b) \<and> (c \<noteq> 0 \<longrightarrow> b \<noteq> c) \<and> (e \<noteq> 0 \<longrightarrow> c \<noteq> e)"
  by (cases "a = 0"; cases "b = 0"; cases "c = 0"; cases "e = 0") (auto simp: collapse_line_merge numeral_eq_Suc)

lemma stuck_both_ways:
  assumes "lm_values (collapse_line [a, b, c, e]) = [a, b, c, e]"
    "lm_values (collapse_line [e, c, b, a]) = [e, c, b, a]"
  shows "(a = 0) = (b = 0)" "(b = 0) = (c = 0)" "(c = 0) = (e = 0)"
  using assms unfolding collapse_stuck by blast+

lemma stuck_neighbours:
  assumes "lm_values (collapse_line [a, b, c, e]) = [a, b, c, e]" "a \<noteq> 0" "b \<noteq> 0" "c \<noteq> 0" "e \<noteq> 0"
  shows "a \<noteq> b" "b \<noteq> c" "c \<noteq> e"
  using assms unfolding collapse_stuck by blast+

lemma directions_all:
  "list_all P [Move_left, Move_right, Move_up, Move_down] \<longleftrightarrow> (\<forall>d. P d)"
proof -
  have "(\<forall>d. P d) \<longleftrightarrow> P Move_left \<and> P Move_right \<and> P Move_up \<and> P Move_down"
    by (metis move_direction.exhaust)
  then show ?thesis by simp
qed

lemma phase_lost_stuck:
  assumes "length board = 16" "list_ex (\<lambda>v. v \<noteq> 0) board"
  shows "phase_for_board board = Lost \<longleftrightarrow>
    list_all (\<lambda>v. v < 2048) board \<and>
    list_all (\<lambda>d. fst (slide d board) = board) [Move_left, Move_right, Move_up, Move_down]"
proof -
  obtain a0 a1 a2 a3 a4 a5 a6 a7 a8 a9 aa ab ac ad ae af where b:
    "board = [a0, a1, a2, a3, a4, a5, a6, a7, a8, a9, aa, ab, ac, ad, ae, af]"
    using assms(1) by (auto simp: numeral_eq_Suc length_Suc_conv)
  have four: "(\<forall>l < 4. P l) \<longleftrightarrow> P 0 \<and> P 1 \<and> P 2 \<and> P (3 :: nat)" for P
    by (auto simp: less_4)
  have stuck: "list_all (\<lambda>d. fst (slide d board) = board) [Move_left, Move_right, Move_up, Move_down] \<longleftrightarrow>
      list_all (\<lambda>v. v \<noteq> 0) board \<and>
      a0 \<noteq> a1 \<and> a1 \<noteq> a2 \<and> a2 \<noteq> a3 \<and> a4 \<noteq> a5 \<and> a5 \<noteq> a6 \<and> a6 \<noteq> a7 \<and> a8 \<noteq> a9 \<and> a9 \<noteq> aa \<and> aa \<noteq> ab \<and>
      ac \<noteq> ad \<and> ad \<noteq> ae \<and> ae \<noteq> af \<and> a0 \<noteq> a4 \<and> a4 \<noteq> a8 \<and> a8 \<noteq> ac \<and> a1 \<noteq> a5 \<and> a5 \<noteq> a9 \<and> a9 \<noteq> ad \<and>
      a2 \<noteq> a6 \<and> a6 \<noteq> aa \<and> aa \<noteq> ae \<and> a3 \<noteq> a7 \<and> a7 \<noteq> ab \<and> ab \<noteq> af" (is "?L \<longleftrightarrow> ?R")
  proof
    assume ?L
    then have e: "\<forall>l < 4. lm_values (collapse_line (line_values d board l)) = line_values d board l" for d
      using slide_eq_iff [OF assms(1)] by (cases d) simp_all
    note L = e [of Move_left, unfolded four] e [of Move_right, unfolded four]
      e [of Move_up, unfolded four] e [of Move_down, unfolded four]
    note L = L [unfolded b line_values_def upt_4, simplified]
    have zero: "(a0 = 0) = (a1 = 0)" "(a1 = 0) = (a2 = 0)" "(a2 = 0) = (a3 = 0)"
      "(a4 = 0) = (a5 = 0)" "(a5 = 0) = (a6 = 0)" "(a6 = 0) = (a7 = 0)"
      "(a8 = 0) = (a9 = 0)" "(a9 = 0) = (aa = 0)" "(aa = 0) = (ab = 0)"
      "(ac = 0) = (ad = 0)" "(ad = 0) = (ae = 0)" "(ae = 0) = (af = 0)"
      "(a3 = 0) = (a7 = 0)" "(a7 = 0) = (ab = 0)" "(ab = 0) = (af = 0)"
      by (rule stuck_both_ways [of a0 a1 a2 a3] stuck_both_ways [of a4 a5 a6 a7] stuck_both_ways [of a8 a9 aa ab]
          stuck_both_ways [of ac ad ae af] stuck_both_ways [of a3 a7 ab af]; use L in simp)+
    have all: "list_all (\<lambda>v. v \<noteq> 0) board"
      using assms(2) by (simp add: b zero)
    note nz = all [unfolded b, simplified]
    have "a0 \<noteq> a1" "a1 \<noteq> a2" "a2 \<noteq> a3" "a4 \<noteq> a5" "a5 \<noteq> a6" "a6 \<noteq> a7" "a8 \<noteq> a9" "a9 \<noteq> aa" "aa \<noteq> ab"
      "ac \<noteq> ad" "ad \<noteq> ae" "ae \<noteq> af" "a0 \<noteq> a4" "a4 \<noteq> a8" "a8 \<noteq> ac" "a1 \<noteq> a5" "a5 \<noteq> a9" "a9 \<noteq> ad"
      "a2 \<noteq> a6" "a6 \<noteq> aa" "aa \<noteq> ae" "a3 \<noteq> a7" "a7 \<noteq> ab" "ab \<noteq> af"
      by (rule stuck_neighbours [of a0 a1 a2 a3] stuck_neighbours [of a4 a5 a6 a7] stuck_neighbours [of a8 a9 aa ab]
          stuck_neighbours [of ac ad ae af] stuck_neighbours [of a0 a4 a8 ac] stuck_neighbours [of a1 a5 a9 ad]
          stuck_neighbours [of a2 a6 aa ae] stuck_neighbours [of a3 a7 ab af]; use L nz in simp)+
    with all show ?R by blast
  next
    assume ?R
    then have "\<forall>l < 4. lm_values (collapse_line (line_values d board l)) = line_values d board l" for d
      unfolding four b line_values_def upt_4 by (cases d) (auto simp: collapse_stuck)
    then show ?L using slide_eq_iff [OF assms(1)] by simp
  qed
  have small: "list_ex (\<lambda>v. 2048 \<le> v) board \<longleftrightarrow> \<not> list_all (\<lambda>v. v < 2048) board"
    by (auto simp: list_ex_iff list_all_iff not_less)
  have zero: "list_ex (\<lambda>v. v = 0) board \<longleftrightarrow> \<not> list_all (\<lambda>v. v \<noteq> 0) board"
    by (auto simp: list_ex_iff list_all_iff)
  show ?thesis
    unfolding stuck phase_for_board_def small zero
    by (simp add: b upt_4) blast
qed

section \<open>The invariant of the game\<close>

lemma xor_zero_iff: "(x :: 'a::len word) XOR y = 0 \<longleftrightarrow> x = y"
  by (auto simp: bit_eq_iff bit_xor_iff)

lemma xor_shift_nonzero:
  fixes x :: "'a::len word"
  assumes "0 < n" "x \<noteq> 0"
  shows "x XOR drop_bit n x \<noteq> 0" "x XOR push_bit n x \<noteq> 0"
proof -
  show "x XOR drop_bit n x \<noteq> 0"
  proof
    assume "x XOR drop_bit n x = 0"
    then have "x = drop_bit n x" by (simp add: xor_zero_iff)
    then have "unat x = unat x div 2 ^ n" by (metis unat_drop_bit_eq drop_bit_eq_div)
    moreover have "(2 :: nat) \<le> 2 ^ n" using assms(1) self_le_power [of "2 :: nat" n] by simp
    then have "unat x div 2 ^ n < unat x" using assms(2) by (intro div_less_dividend) (simp_all add: unat_gt_0)
    ultimately show False by simp
  qed
  show "x XOR push_bit n x \<noteq> 0"
  proof
    assume "x XOR push_bit n x = 0"
    then have e: "x = push_bit n x" by (simp add: xor_zero_iff)
    have "\<not> bit x k" for k
    proof (induction k rule: less_induct)
      case (less k)
      have "bit x k \<longleftrightarrow> bit (push_bit n x) k" using e by simp
      then show ?case using less [of "k - n"] assms(1) by (auto simp: bit_push_bit_iff)
    qed
    then have "x = 0" by (simp add: bit_eq_iff)
    with assms(2) show False ..
  qed
qed

lemma xorshift_nonzero: "state \<noteq> 0 \<Longrightarrow> xorshift state \<noteq> 0"
  unfolding xorshift_def Let_def by (intro xor_shift_nonzero) simp_all

lemma empty_cells_nth: "i < length (empty_cells board) \<Longrightarrow>
    empty_cells board ! i < 16 \<and> board ! (empty_cells board ! i) = 0"
  using nth_mem [of i "empty_cells board"] by (auto simp: empty_cells_def)

text \<open>A new tile is 2 or 4 and lands in an empty cell; nothing else of the game changes.\<close>

lemma spawn_cases:
  obtains (full) "spawn g = (None, g)" "empty_cells (gm_board g) = []"
  | (tile) c v state where
      "spawn g = (Some (c, v), g\<lparr>gm_random_state := state, gm_board := (gm_board g)[c := v]\<rparr>)"
      "c < 16" "gm_board g ! c = 0" "v = 2 \<or> v = 4" "state = xorshift (xorshift (gm_random_state g))"
proof (cases "empty_cells (gm_board g) = []")
  case True
  then show ?thesis by (intro full) (simp_all add: spawn_def)
next
  case False
  let ?n = "length (empty_cells (gm_board g))"
  have n: "0 < ?n" "?n \<le> 16"
    using False length_filter_le [of _ "[0..<16]"] by (simp_all add: empty_cells_def)
  then have u: "unat (word_of_nat ?n :: u64) = ?n" by (simp add: unat_of_nat)
  have "unat (r mod word_of_nat ?n) < ?n" for r :: u64
    using n u by (simp add: unat_mod)
  then show ?thesis
    using False empty_cells_nth
    by (intro tile [of "empty_cells (gm_board g) !
          unat (fst (game_random (gm_random_state g)) mod word_of_nat ?n)"
          "if fst (game_random (snd (game_random (gm_random_state g)))) mod 10 = 0 then 4 else 2"])
      (auto simp: spawn_def game_random_def Let_def)
qed

definition game_inv :: "game_2048 \<Rightarrow> bool" where
  "game_inv g \<longleftrightarrow>
     length (gm_board g) = 16 \<and> valid_board (gm_board g) \<and> gm_random_state g \<noteq> 0 \<and>
     gm_score g \<le> gm_best_score g \<and> gm_phase g = phase_for_board (gm_board g) \<and>
     length (sn_board (gm_undo g)) = 16 \<and> valid_board (sn_board (gm_undo g)) \<and>
     sn_random_state (gm_undo g) \<noteq> 0 \<and> sn_score (gm_undo g) \<le> gm_best_score g \<and>
     sn_phase (gm_undo g) = phase_for_board (sn_board (gm_undo g))"

lemma valid_board_update: "valid_board b \<Longrightarrow> valid_tile v \<Longrightarrow> valid_board (b[c := v])"
  by (auto simp: valid_board_def list_all_iff dest: set_update_subset_insert [THEN subsetD])

lemma valid_tiles [simp]: "valid_tile 0" "valid_tile 2" "valid_tile 4"
  by (simp_all add: valid_tile_def)

text \<open>What a spawn keeps: everything but the board and the generator.\<close>

lemma spawn_keeps:
  assumes "spawn g = (tile, g')"
  shows "gm_score g' = gm_score g" "gm_best_score g' = gm_best_score g" "gm_phase g' = gm_phase g"
    "gm_undo g' = gm_undo g" "gm_undo_valid g' = gm_undo_valid g"
    "length (gm_board g') = length (gm_board g)"
    "valid_board (gm_board g) \<Longrightarrow> valid_board (gm_board g')"
    "gm_random_state g \<noteq> 0 \<Longrightarrow> gm_random_state g' \<noteq> 0"
  using assms by (cases rule: spawn_cases [of g]; auto simp: valid_board_update xorshift_nonzero)+

lemma game_move_cases:
  obtains (lost) "gm_phase g = Lost" "game_move d g = (no_outcome, g)"
  | (same) "gm_phase g \<noteq> Lost" "fst (slide d (gm_board g)) = gm_board g"
      "game_move d g = (no_outcome\<lparr>mo_score_delta := fst (snd (slide d (gm_board g)))\<rparr>,
         g\<lparr>gm_phase := phase_for_board (gm_board g)\<rparr>)"
  | (moved) tile g' where "gm_phase g \<noteq> Lost" "fst (slide d (gm_board g)) \<noteq> gm_board g"
      "spawn (g\<lparr>gm_board := fst (slide d (gm_board g)), gm_score := gm_score g + fst (snd (slide d (gm_board g))),
         gm_best_score := max (gm_best_score g) (gm_score g + fst (snd (slide d (gm_board g)))),
         gm_undo := \<lparr>sn_board = gm_board g, sn_score = gm_score g, sn_phase = gm_phase g,
           sn_random_state = gm_random_state g\<rparr>, gm_undo_valid := True\<rparr>) = (tile, g')"
      "snd (game_move d g) = g'\<lparr>gm_phase := phase_for_board (gm_board g')\<rparr>"
      "fst (game_move d g) = \<lparr>mo_changed = True, mo_score_delta = fst (snd (slide d (gm_board g))),
         mo_motions = snd (snd (slide d (gm_board g))),
         mo_spawned_cell = (case tile of None \<Rightarrow> 255 | Some (c, _) \<Rightarrow> c),
         mo_spawned_value = (case tile of None \<Rightarrow> 0 | Some (_, v) \<Rightarrow> v)\<rparr>"
proof (cases "gm_phase g = Lost")
  case True
  then show ?thesis by (intro lost) (simp_all add: game_move_def)
next
  case False
  obtain nx delta motions where s: "slide d (gm_board g) = (nx, delta, motions)" by (metis prod_cases3)
  show ?thesis
  proof (cases "nx = gm_board g")
    case True
    then show ?thesis using False s by (intro same) (simp_all add: game_move_def)
  next
    case 2: False
    obtain tile g' where sp: "spawn (g\<lparr>gm_board := nx, gm_score := gm_score g + delta,
        gm_best_score := max (gm_best_score g) (gm_score g + delta),
        gm_undo := \<lparr>sn_board = gm_board g, sn_score = gm_score g, sn_phase = gm_phase g,
          sn_random_state = gm_random_state g\<rparr>, gm_undo_valid := True\<rparr>) = (tile, g')"
      by fastforce
    then show ?thesis using False 2 s by (intro moved [of tile g']) (simp_all add: game_move_def Let_def)
  qed
qed

lemma game_move_inv:
  assumes "game_inv g"
  shows "game_inv (snd (game_move d g))"
proof (cases rule: game_move_cases [of g d])
  case (moved tile g')
  note k = spawn_keeps [OF moved(3)]
  have "length (fst (slide d (gm_board g))) = 16" "valid_board (fst (slide d (gm_board g)))"
    using assms slide_lines(1) slide_valid by (simp_all add: game_inv_def)
  then show ?thesis using assms k moved(4) by (auto simp: game_inv_def le_max_iff_disj)
qed (use assms in \<open>simp_all add: game_inv_def\<close>)

lemma empty_board: "valid_board (replicate 16 0)" "phase_for_board (replicate 16 0) = Playing"
  by code_simp+

text \<open>\<open>reset\<close> leaves the phase at playing: two spawns cannot do otherwise.\<close>

lemma phase_playing: "list_ex (\<lambda>v. v = 0) b \<Longrightarrow> list_all (\<lambda>v. v < 2048) b \<Longrightarrow> phase_for_board b = Playing"
  by (auto simp: phase_for_board_def list_ex_iff list_all_iff not_le)

lemma spawn_tiles:
  assumes "spawn g = (tile, g')" "gm_board g = b"
  obtains c v where "gm_board g' = b \<or> gm_board g' = b[c := v]" "v = 2 \<or> v = 4"
proof (cases rule: spawn_cases [of g])
  case full
  with assms have "gm_board g' = b" by auto
  then show ?thesis by (intro that [where v = 2 and c = 0]) simp_all
next
  case (tile c v state)
  with assms show ?thesis by (intro that [where c = c and v = v]) auto
qed

lemma game_reset_inv:
  assumes "gm_random_state g \<noteq> 0" "length (sn_board (gm_undo g)) = 16" "valid_board (sn_board (gm_undo g))"
    "sn_random_state (gm_undo g) \<noteq> 0" "sn_score (gm_undo g) \<le> gm_best_score g"
    "sn_phase (gm_undo g) = phase_for_board (sn_board (gm_undo g))"
  shows "game_inv (game_reset g)" "gm_best_score (game_reset g) = gm_best_score g"
proof -
  let ?g = "g\<lparr>gm_board := replicate 16 0, gm_score := 0, gm_phase := Playing, gm_undo_valid := False\<rparr>"
  obtain t1 g1 t2 g2 where s: "spawn ?g = (t1, g1)" "spawn g1 = (t2, g2)" by fastforce
  obtain c v where b1: "gm_board g1 = replicate 16 0 \<or> gm_board g1 = (replicate 16 0)[c := v]" "v = 2 \<or> v = 4"
    by (rule spawn_tiles [OF s(1) refl]) auto
  obtain c' v' where b2: "gm_board g2 = gm_board g1 \<or> gm_board g2 = (gm_board g1)[c' := v']" "v' = 2 \<or> v' = 4"
    by (rule spawn_tiles [OF s(2) refl])
  have up: "set (b[k := x]) \<subseteq> {0, 2, 4}" if "set b \<subseteq> {0, 2, 4 :: u16}" "x = 2 \<or> x = 4" for b k x
    using that set_update_subset_insert [of b k x] by blast
  have "set (replicate 16 (0 :: u16)) \<subseteq> {0, 2, 4}" by simp
  then have "set (gm_board g1) \<subseteq> {0, 2, 4}" using b1 up by metis
  then have "set (gm_board g2) \<subseteq> {0, 2, 4}" using b2 up by metis
  then have small: "list_all (\<lambda>x. x < 2048) (gm_board g2)" by (auto simp: list_all_iff)
  define i :: nat where "i = (if 0 \<noteq> c \<and> 0 \<noteq> c' then 0 else if 1 \<noteq> c \<and> 1 \<noteq> c' then 1 else 2)"
  have "i < 16" "i \<noteq> c" "i \<noteq> c'" by (auto simp: i_def)
  then have "gm_board g2 ! i = 0" "length (gm_board g2) = 16" using b1 b2 by auto
  then have "list_ex (\<lambda>x. x = 0) (gm_board g2)" using \<open>i < 16\<close> by (auto simp: list_ex_length)
  then have "phase_for_board (gm_board g2) = Playing" using small by (rule phase_playing)
  then show "game_inv (game_reset g)" "gm_best_score (game_reset g) = gm_best_score g"
    using assms spawn_keeps [OF s(1)] spawn_keeps [OF s(2)] empty_board(1)
    by (simp_all add: game_reset_def s game_inv_def)
qed

lemma new_game_inv: "game_inv (new_game seed)"
  unfolding new_game_def by (rule game_reset_inv) (simp_all add: empty_board)

lemma game_undo_inv: "game_inv g \<Longrightarrow> game_inv (snd (game_undo g))"
  by (simp add: game_undo_def game_inv_def)

lemma restore_state_inv:
  "game_inv g \<Longrightarrow> length (ps_board s) = 16 \<Longrightarrow> length (ps_undo_board s) = 16 \<Longrightarrow>
   game_inv (snd (restore_state s g))"
  by (auto simp: restore_state_def game_inv_def)

text \<open>A persisted game of the invariant is restored exactly, in place of any game.\<close>

lemma restore_persistent:
  "game_inv g \<Longrightarrow> restore_state (persistent_state g) h = (True, g)"
  by (simp add: restore_state_def persistent_state_def game_inv_def not_less)

section \<open>The motions describe the move\<close>

text \<open>
  The motions of one line: they start at its tiles in order, carry their values, and end at the
  cell that holds the value, or its double for the two tiles of a merge.
\<close>

lemma motion_loop_from: "map tm_from (motion_loop d l vals srcs dest) = map (cell d l) srcs"
  by (induction d l vals srcs dest rule: motion_loop.induct) simp_all

lemma motion_loop_to:
  assumes "m \<in> set (motion_loop d l vals srcs dest)"
  shows "\<exists>s k. s \<in> set srcs \<and> tm_from m = cell d l s \<and> tm_value m = vals ! s \<and>
    tm_to m = cell d l (dest + k) \<and> k < length (merge_tiles (map (\<lambda>s. vals ! s) srcs)) \<and>
    merge_tiles (map (\<lambda>s. vals ! s) srcs) ! k = (if tm_merged m then doubled (tm_value m) else tm_value m)"
  using assms
proof (induction d l vals srcs dest rule: motion_loop.induct)
  case (3 d l vals s t srcs dest)
  show ?case
  proof (cases "vals ! t = vals ! s")
    case True
    then consider "m \<in> {\<lparr>tm_from = cell d l s, tm_to = cell d l dest, tm_value = vals ! s, tm_merged = True\<rparr>,
         \<lparr>tm_from = cell d l t, tm_to = cell d l dest, tm_value = vals ! s, tm_merged = True\<rparr>}"
      | "m \<in> set (motion_loop d l vals srcs (Suc dest))"
      using 3(3) by auto
    then show ?thesis
    proof cases
      case 1
      with True show ?thesis by (intro exI [of _ "if tm_from m = cell d l s then s else t"] exI [of _ 0]) auto
    next
      case 2
      from 3(1) [OF True 2] obtain u k where "u \<in> set srcs" "tm_from m = cell d l u" "tm_value m = vals ! u"
        "tm_to m = cell d l (Suc dest + k)" "k < length (merge_tiles (map (\<lambda>s. vals ! s) srcs))"
        "merge_tiles (map (\<lambda>s. vals ! s) srcs) ! k = (if tm_merged m then doubled (tm_value m) else tm_value m)"
        by blast
      with True show ?thesis by (intro exI [of _ u] exI [of _ "Suc k"]) auto
    qed
  next
    case False
    then consider "m = \<lparr>tm_from = cell d l s, tm_to = cell d l dest, tm_value = vals ! s, tm_merged = False\<rparr>"
      | "m \<in> set (motion_loop d l vals (t # srcs) (Suc dest))"
      using 3(3) by auto
    then show ?thesis
    proof cases
      case 1
      with False show ?thesis by (intro exI [of _ s] exI [of _ 0]) auto
    next
      case 2
      from 3(2) [OF False 2] obtain u k where "u \<in> set (t # srcs)" "tm_from m = cell d l u" "tm_value m = vals ! u"
        "tm_to m = cell d l (Suc dest + k)" "k < length (merge_tiles (map (\<lambda>s. vals ! s) (t # srcs)))"
        "merge_tiles (map (\<lambda>s. vals ! s) (t # srcs)) ! k = (if tm_merged m then doubled (tm_value m) else tm_value m)"
        by blast
      with False show ?thesis by (intro exI [of _ u] exI [of _ "Suc k"]) auto
    qed
  qed
qed auto

definition line_sources :: "u16 list \<Rightarrow> nat list" where
  "line_sources vals = filter (\<lambda>k. vals ! k \<noteq> 0) [0..<4]"

lemma line_sources_values: "length vals = 4 \<Longrightarrow> map (\<lambda>s. vals ! s) (line_sources vals) = filter (\<lambda>v. v \<noteq> 0) vals"
proof -
  assume "length vals = 4"
  then have "vals = map (\<lambda>s. vals ! s) [0..<4]" by (metis map_nth)
  then show ?thesis by (metis (no_types, lifting) line_sources_def filter_map comp_apply filter_cong)
qed

text \<open>Of a whole move: every tile moves once, and the board after the slide is what the motions say.\<close>

definition motion_of :: "u16 list \<Rightarrow> u16 list \<Rightarrow> tile_motion \<Rightarrow> bool" where
  "motion_of board next m \<longleftrightarrow> tm_from m < 16 \<and> tm_to m < 16 \<and> tm_value m = board ! tm_from m \<and>
     next ! tm_to m = (if tm_merged m then doubled (tm_value m) else tm_value m)"

lemma slide_motion_of:
  assumes "length board = 16" "m \<in> set (snd (snd (slide d board)))"
  shows "motion_of board (fst (slide d board)) m"
proof -
  from assms obtain l where l: "l < 4"
    and m: "m \<in> set (motion_loop d l (line_values d board l) (line_sources (line_values d board l)) 0)"
    by (auto simp: slide_lines line_sources_def)
  let ?vals = "line_values d board l"
  let ?merged = "merge_tiles (filter (\<lambda>v. v \<noteq> 0) ?vals)"
  from motion_loop_to [OF m] obtain s k where s: "s \<in> set (line_sources ?vals)" "tm_from m = cell d l s"
      "tm_value m = ?vals ! s" "tm_to m = cell d l k" "k < length ?merged"
      "?merged ! k = (if tm_merged m then doubled (tm_value m) else tm_value m)"
    by (auto simp: line_sources_values)
  have "s < 4" using s(1) by (simp add: line_sources_def)
  moreover have "k < 4"
    using s(5) length_merge_tiles [of "filter (\<lambda>v. v \<noteq> 0) ?vals"] length_filter_le [of "\<lambda>v. v \<noteq> 0" ?vals] by simp
  moreover have "lm_values (collapse_line ?vals) ! k = ?merged ! k"
    using s(5) by (simp add: collapse_line_merge nth_append)
  ultimately show ?thesis
    using s l slide_lines(2) [OF assms(1)] by (simp add: motion_of_def cells_lt line_values_nth)
qed

lemma slide_motion_sources:
  assumes "length board = 16"
  shows "distinct (map tm_from (snd (snd (slide d board))))"
    "set (map tm_from (snd (snd (slide d board)))) = {i. i < 16 \<and> board ! i \<noteq> 0}"
proof -
  let ?srcs = "\<lambda>l. map (cell d l) (line_sources (line_values d board l))"
  have e: "map tm_from (snd (snd (slide d board))) = concat (map ?srcs [0..<4])"
    unfolding slide_lines(4) [OF assms] by (simp add: map_concat comp_def motion_loop_from line_sources_def)
  have in4: "s \<in> set (line_sources vals) \<Longrightarrow> s < 4" for s vals by (simp add: line_sources_def)
  have "distinct (?srcs l)" if "l < 4" for l
    using that by (auto simp: distinct_map inj_on_def cell_inject line_sources_def)
  moreover have "set (?srcs l) \<inter> set (?srcs l') = {}" if "l < 4" "l' < 4" "l \<noteq> l'" for l l'
    using that by (auto simp: cell_inject dest!: in4)
  ultimately show "distinct (map tm_from (snd (snd (slide d board))))"
    unfolding e upt_4 by (simp add: Int_Un_distrib)
  show "set (map tm_from (snd (snd (slide d board)))) = {i. i < 16 \<and> board ! i \<noteq> 0}"
  proof (intro equalityI subsetI)
    fix i assume "i \<in> set (map tm_from (snd (snd (slide d board))))"
    then obtain l s where "l < 4" "s < 4" "line_values d board l ! s \<noteq> 0" "i = cell d l s"
      unfolding e by (auto simp: line_sources_def)
    then show "i \<in> {i. i < 16 \<and> board ! i \<noteq> 0}" by (simp add: cells_lt line_values_nth)
  next
    fix i assume i: "i \<in> {i. i < 16 \<and> board ! i \<noteq> 0}"
    then obtain l s where "l < 4" "s < 4" "i = cell d l s" using less_16_cell [of i d thesis] by auto
    with i show "i \<in> set (map tm_from (snd (snd (slide d board))))"
      unfolding e by (auto simp: line_sources_def line_values_nth intro!: bexI [of _ l] imageI)
  qed
qed

text \<open>A slide that changes the board leaves an empty cell.\<close>

lemma merge_tiles_full: "length (merge_tiles vs) = length vs \<Longrightarrow> merge_tiles vs = vs"
proof (induction vs rule: merge_tiles.induct)
  case (3 v w vs)
  then show ?case using length_merge_tiles [of vs] by (auto split: if_splits)
qed simp_all

lemma collapse_full:
  assumes "length vals = 4" "list_all (\<lambda>v. v \<noteq> 0) (lm_values (collapse_line vals))"
  shows "lm_values (collapse_line vals) = vals"
proof -
  let ?f = "filter (\<lambda>v. v \<noteq> 0) vals"
  have "4 \<le> length (merge_tiles ?f)"
    using assms by (cases "4 - length (merge_tiles ?f)") (simp_all add: collapse_line_merge)
  moreover have "length (merge_tiles ?f) \<le> length ?f" by (rule length_merge_tiles)
  moreover have "length ?f \<le> 4" using assms(1) length_filter_le [of "\<lambda>v. v \<noteq> 0" vals] by simp
  ultimately have l: "length (merge_tiles ?f) = length ?f" "length ?f = length vals" using assms(1) by simp_all
  have "\<forall>v \<in> set vals. v \<noteq> 0"
    using l(2) length_filter_less [of _ vals "\<lambda>v. v \<noteq> 0"] by (metis less_irrefl)
  then have "?f = vals" by (rule filter_True)
  with merge_tiles_full [OF l(1)] show ?thesis using assms(1) by (simp add: collapse_line_merge(1))
qed

lemma slide_changed_empty:
  assumes "length board = 16" "fst (slide d board) \<noteq> board"
  shows "empty_cells (fst (slide d board)) \<noteq> []"
proof
  assume "empty_cells (fst (slide d board)) = []"
  then have nz: "i < 16 \<Longrightarrow> fst (slide d board) ! i \<noteq> 0" for i
    by (auto simp: empty_cells_def filter_empty_conv)
  have "lm_values (collapse_line (line_values d board l)) = line_values d board l" if l: "l < 4" for l
  proof (rule collapse_full)
    have "k < 4 \<Longrightarrow> lm_values (collapse_line (line_values d board l)) ! k \<noteq> 0" for k
      using nz [OF cells_lt [OF l, of k d]] slide_lines(2) [OF assms(1) l, of k d] by simp
    then show "list_all (\<lambda>v. v \<noteq> 0) (lm_values (collapse_line (line_values d board l)))"
      by (simp add: list_all_length)
  qed simp
  then show False using assms slide_eq_iff by blast
qed

text \<open>A game in play, for the witnesses.\<close>

definition sample_game :: game_2048 where
  "sample_game = \<lparr>gm_board = [0, 2, 2, 4, 0, 0, 0, 0, 0, 0, 0, 0, 0, 0, 0, 0], gm_score = 4,
     gm_best_score = 8, gm_phase = Playing, gm_random_state = 7,
     gm_undo = \<lparr>sn_board = replicate 16 0, sn_score = 0, sn_phase = Playing, sn_random_state = 1\<rparr>,
     gm_undo_valid = False\<rparr>"

lemma sample_game_moves: "length (gm_board sample_game) = 16" "mo_changed (fst (game_move Move_left sample_game))"
  by code_simp+

section \<open>Properties\<close>

text \<open>The collapse loop implements the rule of the game: the tiles of a line move to its near end, two
  equal neighbours become their double once (a tile of 32768 stays), and the score is the sum of
  the tiles so made.\<close>

lemma collapse_line_is_rule:
  assumes "length vals = 4"
  shows "lm_values (collapse_line vals) =
      merge_tiles (filter (\<lambda>v. v \<noteq> 0) vals) @
      replicate (4 - length (merge_tiles (filter (\<lambda>v. v \<noteq> 0) vals))) 0 \<and>
    lm_score_delta (collapse_line vals) = merge_score (filter (\<lambda>v. v \<noteq> 0) vals)"
  using collapse_line_merge [OF assms] by simp

lemma collapse_line_is_rule_witness:
  "lm_values (collapse_line [2, 0, 2, 4]) =
     merge_tiles (filter (\<lambda>v. v \<noteq> 0) [2, 0, 2, 4]) @
     replicate (4 - length (merge_tiles (filter (\<lambda>v. v \<noteq> 0) [2, 0, 2, 4]))) 0 \<and>
   lm_score_delta (collapse_line [2, 0, 2, 4]) = merge_score (filter (\<lambda>v. v \<noteq> 0) [2, 0, 2, 4])"
  by (rule collapse_line_is_rule) simp

text \<open>The game is lost exactly when nothing can move: for a board with a tile, the phase is lost if
  and only if no tile has reached 2048 and none of the four moves changes the board.\<close>

theorem lost_iff_stuck:
  assumes "length board = 16" and "list_ex (\<lambda>v. v \<noteq> 0) board"
  shows "phase_for_board board = Lost \<longleftrightarrow>
    list_all (\<lambda>v. v < 2048) board \<and>
    list_all (\<lambda>d. fst (slide d board) = board) [Move_left, Move_right, Move_up, Move_down]"
  by (rule phase_lost_stuck [OF assms])

lemma lost_iff_stuck_witness:
  "phase_for_board [2, 4, 2, 4, 4, 2, 4, 2, 2, 4, 2, 4, 4, 2, 4, 2 :: u16] = Lost \<longleftrightarrow>
    list_all (\<lambda>v. v < 2048) [2, 4, 2, 4, 4, 2, 4, 2, 2, 4, 2, 4, 4, 2, 4, 2 :: u16] \<and>
    list_all (\<lambda>d. fst (slide d [2, 4, 2, 4, 4, 2, 4, 2, 2, 4, 2, 4, 4, 2, 4, 2]) =
      [2, 4, 2, 4, 4, 2, 4, 2, 2, 4, 2, 4, 4, 2, 4, 2]) [Move_left, Move_right, Move_up, Move_down]"
  by (rule lost_iff_stuck) simp_all

text \<open>C35. What a move that changes the board does, animation included. Each line becomes what the rule of the
  game makes of it: its tiles move to the near end and two equal neighbours become their double once (a
  tile of 32768 stays); the score grows, in 32 bits, by exactly the tiles so made, and the best score
  follows it. Every tile has exactly one motion, each motion ends where its value (or the double, when
  merged) is on the slid board, one tile of value 2 or 4 is added in a cell empty after the slide, the value on the
  board grows by that tile alone unless a tile was too large to double, and undo restores the board,
  the score, the phase and the generator from before.\<close>

theorem move_exact:
  assumes "length (gm_board g) = 16" and "mo_changed (fst (game_move d g))"
  shows "let (m, g') = game_move d g; slid = fst (slide d (gm_board g)) in
    list_all (\<lambda>l. line_values d slid l = moved_line (line_values d (gm_board g) l)) [0..<4] \<and>
    mo_score_delta m = (\<Sum>l\<leftarrow>[0..<4]. line_score (line_values d (gm_board g) l)) \<and>
    gm_score g' = gm_score g + mo_score_delta m \<and> gm_best_score g' = max (gm_best_score g) (gm_score g') \<and>
    distinct (map tm_from (mo_motions m)) \<and>
    set (map tm_from (mo_motions m)) = {i. i < 16 \<and> gm_board g ! i \<noteq> 0} \<and>
    list_all (motion_of (gm_board g) slid) (mo_motions m) \<and>
    mo_spawned_cell m < 16 \<and> slid ! mo_spawned_cell m = 0 \<and> mo_spawned_value m \<in> {2, 4} \<and>
    gm_board g' = slid[mo_spawned_cell m := mo_spawned_value m] \<and>
    (if list_all (\<lambda>v. v \<le> 32767) (gm_board g)
     then total (gm_board g') = total (gm_board g) + unat (mo_spawned_value m) else True) \<and>
    (case game_undo g' of (undone, g'') \<Rightarrow> undone \<and> gm_board g'' = gm_board g \<and> gm_score g'' = gm_score g \<and>
       gm_phase g'' = gm_phase g \<and> gm_random_state g'' = gm_random_state g)"
proof (cases rule: game_move_cases [of g d])
  case (moved tile g1)
  obtain slid delta motions where sl: "slide d (gm_board g) = (slid, delta, motions)" by (metis prod_cases3)
  have rule: "list_all (\<lambda>l. line_values d slid l = moved_line (line_values d (gm_board g) l)) [0..<4]"
    "delta = (\<Sum>l\<leftarrow>[0..<4]. line_score (line_values d (gm_board g) l))"
    using slide_rule [OF assms(1), where d = d] by (simp_all add: sl list_all_iff)
  note facts = slide_motion_sources [OF assms(1), of d, unfolded sl, simplified prod.sel]
    slide_lines(1) [OF assms(1), of d, unfolded sl, simplified prod.sel]
    slide_total [OF assms(1), of d, unfolded sl, simplified prod.sel]
    slide_changed_empty [OF assms(1), of d, unfolded sl, simplified prod.sel]
  have motions: "list_all (motion_of (gm_board g) slid) motions"
    using slide_motion_of [OF assms(1), of _ d, unfolded sl] by (simp add: list_all_iff)
  note moved = moved [unfolded sl prod.sel]
  define h where "h = g\<lparr>gm_board := slid, gm_score := gm_score g + delta,
      gm_best_score := max (gm_best_score g) (gm_score g + delta),
      gm_undo := \<lparr>sn_board = gm_board g, sn_score = gm_score g, sn_phase = gm_phase g,
        sn_random_state = gm_random_state g\<rparr>, gm_undo_valid := True\<rparr>"
  note sp1 = moved(3) [folded h_def]
  have hb: "gm_board h = slid" by (simp add: h_def)
  then have "empty_cells (gm_board h) \<noteq> []" using facts(5) moved(2) by simp
  then obtain c v state where sp: "spawn h = (Some (c, v), h\<lparr>gm_random_state := state, gm_board := (gm_board h)[c := v]\<rparr>)"
    and cv: "c < 16" "slid ! c = 0" "v = 2 \<or> v = 4"
    using hb by (cases rule: spawn_cases [of h]) auto
  have upd: "total (bs[c := v]) = total bs + unat v" if "c < length bs" "bs ! c = 0" for bs :: "u16 list"
    by (subst (2) id_take_nth_drop [OF that(1)]) (simp add: that upd_conv_take_nth_drop)
  have tot: "if list_all (\<lambda>v. v \<le> 32767) (gm_board g) then total (slid[c := v]) = total (gm_board g) + unat v else True"
    using upd [of slid] facts(3,4) cv by simp
  define g' where "g' = snd (game_move d g)"
  define m where "m = fst (game_move d g)"
  have mg: "game_move d g = (m, g')" by (simp add: g'_def m_def)
  have g1: "tile = Some (c, v)" "g1 = h\<lparr>gm_random_state := state, gm_board := slid[c := v]\<rparr>"
    using sp sp1 hb by simp_all
  have m: "mo_motions m = motions" "mo_spawned_cell m = c" "mo_spawned_value m = v" "mo_score_delta m = delta"
    using moved(5) g1 by (simp_all add: m_def)
  have g': "gm_board g' = slid[c := v]" "gm_score g' = gm_score g + delta"
    "gm_best_score g' = max (gm_best_score g) (gm_score g + delta)" "gm_undo_valid g'"
    "gm_undo g' = \<lparr>sn_board = gm_board g, sn_score = gm_score g, sn_phase = gm_phase g,
        sn_random_state = gm_random_state g\<rparr>"
    using moved(4) g1(2) by (simp_all add: g'_def h_def)
  have v: "v \<in> {2, 4}" using cv(3) by simp
  have undo: "case game_undo g' of (undone, g'') \<Rightarrow> undone \<and> gm_board g'' = gm_board g \<and> gm_score g'' = gm_score g \<and>
       gm_phase g'' = gm_phase g \<and> gm_random_state g'' = gm_random_state g"
    by (simp add: game_undo_def g')
  show ?thesis
    unfolding mg Let_def prod.case sl prod.sel m g'(1-3)
    by (intro conjI rule facts(1,2) motions cv(1,2) v refl tot undo)
qed (use assms(2) in \<open>simp_all add: no_outcome_def\<close>)

lemma move_exact_witness:
  "let (m, g') = game_move Move_left sample_game; slid = fst (slide Move_left (gm_board sample_game)) in
    list_all (\<lambda>l. line_values Move_left slid l = moved_line (line_values Move_left (gm_board sample_game) l)) [0..<4] \<and>
    mo_score_delta m = (\<Sum>l\<leftarrow>[0..<4]. line_score (line_values Move_left (gm_board sample_game) l)) \<and>
    gm_score g' = gm_score sample_game + mo_score_delta m \<and> gm_best_score g' = max (gm_best_score sample_game) (gm_score g') \<and>
    distinct (map tm_from (mo_motions m)) \<and>
    set (map tm_from (mo_motions m)) = {i. i < 16 \<and> gm_board sample_game ! i \<noteq> 0} \<and>
    list_all (motion_of (gm_board sample_game) slid) (mo_motions m) \<and>
    mo_spawned_cell m < 16 \<and> slid ! mo_spawned_cell m = 0 \<and> mo_spawned_value m \<in> {2, 4} \<and>
    gm_board g' = slid[mo_spawned_cell m := mo_spawned_value m] \<and>
    (if list_all (\<lambda>v. v \<le> 32767) (gm_board sample_game)
     then total (gm_board g') = total (gm_board sample_game) + unat (mo_spawned_value m) else True) \<and>
    (case game_undo g' of (undone, g'') \<Rightarrow> undone \<and> gm_board g'' = gm_board sample_game \<and> gm_score g'' = gm_score sample_game \<and>
       gm_phase g'' = gm_phase sample_game \<and> gm_random_state g'' = gm_random_state sample_game)"
  by (rule move_exact [OF sample_game_moves])

end
