(* ===== verification/Game_Persistence.thy ===== *)
theory Game_Persistence
  imports Game_Play
begin

unbundle bit_operations_syntax

text \<open>
  The saved game (\<open>apps/game-2048/game_2048_persistence.cpp\<close>): 128 bytes with a CRC-32 of the last
  112, and loading and saving it through a record store. The store is an interface here; the
  client of the storage broker provides it in \<open>Storage_Broker\<close>.
\<close>

section \<open>The checksum\<close>

definition crc_bit :: "u32 \<Rightarrow> u32" where
  "crc_bit v = (let mask = - (v AND 1) in drop_bit 1 v XOR (0xedb88320 AND mask))"

definition crc_byte :: "u32 \<Rightarrow> u8 \<Rightarrow> u32" where
  "crc_byte v b = (crc_bit ^^ 8) (v XOR ucast b)"

definition crc32 :: "bytes \<Rightarrow> u32" where
  "crc32 bs = NOT (foldl crc_byte 0xffffffff bs)"

lemma crc_mask: "- ((v :: u32) AND 1) = (if bit v 0 then - 1 else 0)"
  by (simp add: and_one_eq odd_iff_mod_2_eq_one [symmetric] bit_0 mod_2_eq_odd)

lemma xor_cancel: "x XOR y = x' XOR y \<longleftrightarrow> x = (x' :: 'a::len word)" "y XOR x = y XOR x' \<longleftrightarrow> x = x'"
  by (auto simp: bit_eq_iff bit_xor_iff)

lemma crc_bit_inject: "crc_bit v = crc_bit w \<longleftrightarrow> v = w"
proof
  assume e: "crc_bit v = crc_bit w"
  have top: "bit (crc_bit x) 31 \<longleftrightarrow> bit x 0" for x
    by (simp add: crc_bit_def crc_mask Let_def bit_xor_iff bit_and_iff bit_drop_bit_eq bit_numeral_rec
        bit_imp_le_length) (auto dest: bit_imp_le_length)
  from e have b0: "bit v 0 = bit w 0" using top by metis
  with e have "drop_bit 1 v = drop_bit 1 w"
    by (simp add: crc_bit_def crc_mask Let_def xor_cancel split: if_splits)
  then have "bit (drop_bit 1 v) n = bit (drop_bit 1 w) n" for n by (simp only:)
  then have suc: "bit v (Suc n) = bit w (Suc n)" for n by (simp only: bit_drop_bit_eq comp_def plus_1_eq_Suc)
  show "v = w"
  proof (rule bit_eqI)
    fix n show "bit v n = bit w n" by (cases n) (simp_all only: b0 suc)
  qed
qed simp

lemma crc_byte_inject: "crc_byte v b = crc_byte w b \<longleftrightarrow> v = w" "crc_byte v b = crc_byte v c \<longleftrightarrow> b = c"
proof -
  have inj: "(crc_bit ^^ n) x = (crc_bit ^^ n) y \<longleftrightarrow> x = y" for n x y
    by (induction n) (simp_all add: crc_bit_inject)
  have "(ucast b :: u32) = ucast c \<longleftrightarrow> b = c"
    by (simp add: word_unat_eq_iff unat_ucast_up)
  then show "crc_byte v b = crc_byte w b \<longleftrightarrow> v = w" "crc_byte v b = crc_byte v c \<longleftrightarrow> b = c"
    by (simp_all add: crc_byte_def inj xor_cancel)
qed

lemma crc_fold_inject: "foldl crc_byte v bs = foldl crc_byte w bs \<longleftrightarrow> v = w"
  by (induction bs arbitrary: v w) (simp_all add: crc_byte_inject)

text \<open>One changed byte, wherever it is, changes the checksum.\<close>

lemma crc32_detects: "i < length bs \<Longrightarrow> bs ! i \<noteq> b \<Longrightarrow> crc32 (bs[i := b]) \<noteq> crc32 bs"
proof -
  assume i: "i < length bs" "bs ! i \<noteq> b"
  have "bs = take i bs @ bs ! i # drop (Suc i) bs" "bs[i := b] = take i bs @ b # drop (Suc i) bs"
    using i by (simp_all add: id_take_nth_drop upd_conv_take_nth_drop)
  then have "crc32 bs = NOT (foldl crc_byte 0xffffffff (take i bs @ bs ! i # drop (Suc i) bs))"
    "crc32 (bs[i := b]) = NOT (foldl crc_byte 0xffffffff (take i bs @ b # drop (Suc i) bs))"
    unfolding crc32_def by metis+
  then show ?thesis using i by (simp add: crc_fold_inject crc_byte_inject)
qed

section \<open>The format\<close>

definition kGameStateWireSize :: nat where "kGameStateWireSize = 128"
definition kGameMagic :: bytes where "kGameMagic = bytes_of ''G2048V01''"
definition kGameRecord :: string where "kGameRecord = ''state.v1''"

definition put_board :: "u16 list \<Rightarrow> bytes" where
  "put_board board = concat (map (le_bytes 2) board)"

definition get_board :: "nat \<Rightarrow> bytes \<Rightarrow> u16 list" where
  "get_board off bs = map (\<lambda>index. get_le (off + index * 2) 2 bs) [0..<16]"

fun game_phase_value :: "game_phase \<Rightarrow> u8" where
  "game_phase_value Playing = 0"
| "game_phase_value Won = 1"
| "game_phase_value Lost = 2"

definition game_phase_of :: "u8 \<Rightarrow> game_phase" where
  "game_phase_of b = (if b = 0 then Playing else if b = 1 then Won else Lost)"

text \<open>The writes of \<open>encode_game_state\<close> before the checksum, in its order.\<close>

definition game_writes :: "persistent_game_state \<Rightarrow> (nat \<times> bytes) list" where
  "game_writes s =
     [(0, kGameMagic), (8, le_bytes 2 (word_of_nat kGameStateWireSize :: u16)), (10, le_bytes 2 (1 :: u16)),
      (16, put_board (ps_board s)), (48, le_bytes 4 (ps_score s)), (52, le_bytes 4 (ps_best_score s)),
      (56, le_bytes 8 (ps_random_state s)), (64, [game_phase_value (ps_phase s)]),
      (65, [if ps_undo_valid s then 1 else 0]), (68, put_board (ps_undo_board s)),
      (100, le_bytes 4 (ps_undo_score s)), (104, le_bytes 8 (ps_undo_random_state s)),
      (112, [game_phase_value (ps_undo_phase s)])]"

definition encode_game_state :: "persistent_game_state \<Rightarrow> bytes" where
  "encode_game_state s =
     (let out = puts (game_writes s) (replicate kGameStateWireSize 0)
      in put_at 12 (le_bytes 4 (crc32 (drop 16 out))) out)"

definition decode_game_state :: "bytes \<Rightarrow> persistent_game_state option" where
  "decode_game_state bs =
     (if length bs \<noteq> kGameStateWireSize \<or> bytes_at 0 8 bs \<noteq> kGameMagic \<or>
         get_le 8 2 bs \<noteq> (word_of_nat kGameStateWireSize :: u16) \<or> get_le 10 2 bs \<noteq> (1 :: u16) \<or>
         get_le 12 4 bs \<noteq> crc32 (drop 16 bs) \<or> bs ! 64 > 2 \<or> bs ! 65 > 1 \<or>
         bs ! 66 \<noteq> 0 \<or> bs ! 67 \<noteq> 0 \<or> bs ! 112 > 2 \<or> \<not> list_all (\<lambda>b. b = 0) (drop 113 bs)
      then None
      else Some
        \<lparr>ps_board = get_board 16 bs, ps_score = get_le 48 4 bs, ps_best_score = get_le 52 4 bs,
         ps_phase = game_phase_of (bs ! 64), ps_random_state = get_le 56 8 bs,
         ps_undo_board = get_board 68 bs, ps_undo_score = get_le 100 4 bs,
         ps_undo_phase = game_phase_of (bs ! 112), ps_undo_random_state = get_le 104 8 bs,
         ps_undo_valid = (bs ! 65 = 1)\<rparr>)"

section \<open>The round trip\<close>

text \<open>The boards are arrays of 16 cells.\<close>

definition game_state_typed :: "persistent_game_state \<Rightarrow> bool" where
  "game_state_typed s \<longleftrightarrow> length (ps_board s) = 16 \<and> length (ps_undo_board s) = 16"

lemma length_put_board [simp]: "length (put_board board) = 2 * length board"
  by (induction board) (simp_all add: put_board_def)

lemma length_kGameMagic [simp]: "length kGameMagic = 8"
  by (simp add: kGameMagic_def)

lemma put_board_blocks: "n < length board \<Longrightarrow> bytes_at (n * 2) 2 (put_board board) = le_bytes 2 (board ! n)"
proof (induction board arbitrary: n)
  case (Cons v board)
  show ?case
  proof (cases n)
    case 0
    then show ?thesis by (simp add: put_board_def bytes_at_def)
  next
    case (Suc m)
    have "bytes_at (n * 2) 2 (put_board (v # board)) = bytes_at (m * 2) 2 (put_board board)"
      by (simp add: put_board_def Suc bytes_at_append_right)
    with Cons Suc show ?thesis by simp
  qed
qed simp

lemma bytes_at_sub: "off' + n \<le> m \<Longrightarrow> off + m \<le> length bs \<Longrightarrow>
    bytes_at (off + off') n bs = bytes_at off' n (bytes_at off m bs)"
  by (simp add: bytes_at_def drop_take add.commute min_def)

lemma get_put_board:
  assumes "bytes_at off 32 bs = put_board board" "length board = 16" "off + 32 \<le> length bs"
  shows "get_board off bs = board"
proof (rule nth_equalityI)
  fix n assume "n < length (get_board off bs)"
  then have n: "n < 16" by (simp add: get_board_def)
  then have "bytes_at (off + n * 2) 2 bs = le_bytes 2 (board ! n)"
    using assms bytes_at_sub [of "n * 2" 2 32 off bs] put_board_blocks [of n board] by simp
  then show "get_board off bs ! n = board ! n" using n by (simp add: get_board_def get_le_def)
qed (simp add: get_board_def assms)

lemma put_get_board:
  assumes "off + 32 \<le> length bs"
  shows "put_board (get_board off bs) = bytes_at off 32 bs"
proof -
  have "put_board (map (\<lambda>i. get_le (off + i * 2) 2 bs) [0..<n]) = bytes_at off (2 * n) bs" if "n \<le> 16" for n
    using that
  proof (induction n)
    case (Suc n)
    have "bytes_at off (2 * n + 2) bs = bytes_at off (2 * n) bs @ bytes_at (off + 2 * n) 2 bs"
      by (rule bytes_at_add)
    with Suc assms show ?case by (simp add: put_board_def mult.commute)
  qed (simp add: put_board_def bytes_at_def)
  from this [of 16] show ?thesis by (simp add: get_board_def)
qed

lemma game_phase_roundtrip [simp]: "game_phase_of (game_phase_value p) = p"
  by (cases p) (simp_all add: game_phase_of_def)

lemma game_phase_value_le: "game_phase_value p \<le> 2"
  by (cases p) simp_all

lemma game_phase_value_of: "b \<le> 2 \<Longrightarrow> game_phase_value (game_phase_of b) = b"
proof -
  assume "b \<le> 2"
  then have "unat b \<le> 2" by (simp add: word_le_nat_alt)
  then have "unat b = 0 \<or> unat b = 1 \<or> unat b = 2" by linarith
  then have "b = 0 \<or> b = 1 \<or> b = 2" by (simp add: word_unat_eq_iff)
  then show ?thesis by (auto simp: game_phase_of_def)
qed

lemma game_writes_ok: "game_state_typed s \<Longrightarrow> writes_ok 128 (game_writes s)"
  by (simp add: game_writes_def game_state_typed_def)

lemma length_encode_game_state: "game_state_typed s \<Longrightarrow> length (encode_game_state s) = 128"
  using game_writes_ok [of s] by (simp add: encode_game_state_def kGameStateWireSize_def Let_def)

lemma game_field:
  assumes "game_state_typed s" "(off, bs) \<in> set (game_writes s)" "n = length bs"
  shows "bytes_at off n (encode_game_state s) = bs"
proof -
  have "bytes_at off n (puts (game_writes s) (replicate 128 0)) = bs"
    using bytes_at_puts [of "replicate 128 0" "game_writes s" off bs n] game_writes_ok [of s] assms by simp
  moreover have "off + n \<le> 12 \<or> 16 \<le> off" "off + n \<le> 128"
    using assms by (auto simp: game_writes_def game_state_typed_def)
  ultimately show ?thesis
    using game_writes_ok [OF assms(1)]
    by (simp add: encode_game_state_def kGameStateWireSize_def Let_def bytes_at_put_at_other)
qed

lemma game_pad:
  assumes "game_state_typed s" "apart off n (game_writes s)" "16 \<le> off" "off + n \<le> 128"
  shows "bytes_at off n (encode_game_state s) = replicate n 0"
  using bytes_at_puts_other [of "replicate 128 0" "game_writes s" off n] game_writes_ok [of s] assms
  by (simp add: encode_game_state_def kGameStateWireSize_def Let_def bytes_at_put_at_other)

lemma game_checksum:
  assumes "game_state_typed s"
  shows "get_le 12 4 (encode_game_state s) = crc32 (drop 16 (encode_game_state s))"
proof -
  let ?out = "puts (game_writes s) (replicate 128 0)"
  have "length ?out = 128" using game_writes_ok [OF assms] by simp
  then show ?thesis
    by (simp add: encode_game_state_def kGameStateWireSize_def Let_def get_le_def bytes_at_put_at_same
        drop_eq_bytes_at bytes_at_put_at_other)
qed

lemma nth_bytes_at_1: "i < length bs \<Longrightarrow> bytes_at i 1 bs = [bs ! i]"
  by (simp add: bytes_at_def take_Suc hd_drop_conv_nth)

lemma decode_encode_game_state:
  assumes "game_state_typed s"
  shows "decode_game_state (encode_game_state s) = Some s"
proof -
  note len = length_encode_game_state [OF assms]
  note f = game_field [OF assms]
  have one: "encode_game_state s ! i = b" if "bytes_at i 1 (encode_game_state s) = [b]" "i < 128" for i b
    using that nth_bytes_at_1 [of i "encode_game_state s"] len by simp
  have bytes: "encode_game_state s ! 64 = game_phase_value (ps_phase s)"
    "encode_game_state s ! 65 = (if ps_undo_valid s then 1 else 0)"
    "encode_game_state s ! 112 = game_phase_value (ps_undo_phase s)"
    by (rule one; (rule f)?; simp add: game_writes_def)+
  have pads: "encode_game_state s ! 66 = 0" "encode_game_state s ! 67 = 0" "drop 113 (encode_game_state s) = replicate 15 0"
    using game_pad [OF assms, of 66 1] game_pad [OF assms, of 67 1] game_pad [OF assms, of 113 15] assms
    by (auto simp: game_writes_def game_state_typed_def drop_eq_bytes_at len intro!: one)
  have boards: "get_board 16 (encode_game_state s) = ps_board s" "get_board 68 (encode_game_state s) = ps_undo_board s"
    using assms len by (auto simp: game_writes_def game_state_typed_def intro!: get_put_board f)
  show ?thesis
    using assms by (simp add: decode_game_state_def len kGameStateWireSize_def game_checksum [unfolded get_le_def] bytes pads boards
        get_le_def f game_writes_def game_phase_value_le not_less list_all_iff)
qed

lemma decode_game_stateD:
  assumes "decode_game_state bs = Some s"
  shows "length bs = 128" "bytes_at 0 8 bs = kGameMagic" "bytes_at 8 2 bs = le_bytes 2 (128 :: u16)"
    "bytes_at 10 2 bs = le_bytes 2 (1 :: u16)" "bytes_at 12 4 bs = le_bytes 4 (crc32 (drop 16 bs))"
    "bs ! 64 \<le> 2" "bs ! 65 \<le> 1" "bs ! 66 = 0" "bs ! 67 = 0" "bs ! 112 \<le> 2" "list_all (\<lambda>b. b = 0) (drop 113 bs)"
    "s = \<lparr>ps_board = get_board 16 bs, ps_score = get_le 48 4 bs, ps_best_score = get_le 52 4 bs,
         ps_phase = game_phase_of (bs ! 64), ps_random_state = get_le 56 8 bs,
         ps_undo_board = get_board 68 bs, ps_undo_score = get_le 100 4 bs,
         ps_undo_phase = game_phase_of (bs ! 112), ps_undo_random_state = get_le 104 8 bs,
         ps_undo_valid = (bs ! 65 = 1)\<rparr>"
proof -
  have d: "length bs = 128" "bytes_at 0 8 bs = kGameMagic" "get_le 8 2 bs = (128 :: u16)" "get_le 10 2 bs = (1 :: u16)"
    "get_le 12 4 bs = crc32 (drop 16 bs)" "bs ! 64 \<le> 2" "bs ! 65 \<le> 1" "bs ! 66 = 0" "bs ! 67 = 0" "bs ! 112 \<le> 2"
    "list_all (\<lambda>b. b = 0) (drop 113 bs)"
    using assms by (simp_all add: decode_game_state_def kGameStateWireSize_def not_less split: if_splits)
  show "length bs = 128" "bytes_at 0 8 bs = kGameMagic" "bs ! 64 \<le> 2" "bs ! 65 \<le> 1" "bs ! 66 = 0" "bs ! 67 = 0" "bs ! 112 \<le> 2"
    "list_all (\<lambda>b. b = 0) (drop 113 bs)" by (rule d)+
  show "bytes_at 8 2 bs = le_bytes 2 (128 :: u16)" "bytes_at 10 2 bs = le_bytes 2 (1 :: u16)"
    "bytes_at 12 4 bs = le_bytes 4 (crc32 (drop 16 bs))"
    using get_le_eqD [OF d(3)] get_le_eqD [OF d(4)] get_le_eqD [OF d(5)] d(1) by simp_all
  show "s = \<lparr>ps_board = get_board 16 bs, ps_score = get_le 48 4 bs, ps_best_score = get_le 52 4 bs,
         ps_phase = game_phase_of (bs ! 64), ps_random_state = get_le 56 8 bs,
         ps_undo_board = get_board 68 bs, ps_undo_score = get_le 100 4 bs,
         ps_undo_phase = game_phase_of (bs ! 112), ps_undo_random_state = get_le 104 8 bs,
         ps_undo_valid = (bs ! 65 = 1)\<rparr>"
    using assms by (simp add: decode_game_state_def split: if_splits)
qed

lemma decode_game_state_typed: "decode_game_state bs = Some s \<Longrightarrow> game_state_typed s"
  by (drule decode_game_stateD(12)) (simp add: game_state_typed_def get_board_def)

lemma encode_decode_game_state:
  assumes "decode_game_state bs = Some s"
  shows "encode_game_state s = bs"
proof -
  note d = decode_game_stateD [OF assms]
  have typed: "game_state_typed s" by (rule decode_game_state_typed [OF assms])
  let ?out = "puts (game_writes s) (replicate 128 0)"
  have len: "length ?out = 128" using game_writes_ok [OF typed] by simp
  have one: "bytes_at i 1 bs = [bs ! i]" if "i < 128" for i using that nth_bytes_at_1 [of i bs] d(1) by simp
  have flag: "(if bs ! 65 = 1 then 1 else 0) = bs ! 65"
  proof -
    have "unat (bs ! 65) \<le> 1" using d(7) by (simp add: word_le_nat_alt)
    then have "bs ! 65 = 0 \<or> bs ! 65 = 1" by (auto simp: word_unat_eq_iff)
    then show ?thesis by auto
  qed
  have fields: "b = bytes_at off (length b) bs \<and> off + length b \<le> 128" if "(off, b) \<in> set (game_writes s)" for off b
    using that d(1-4) game_phase_value_of [OF d(6)] game_phase_value_of [OF d(10)] flag
    by (auto simp: game_writes_def d(12) kGameStateWireSize_def put_get_board one [unfolded One_nat_def])
  have same: "bytes_at off n (encode_game_state s) = bytes_at off n bs"
    if "(off, b) \<in> set (game_writes s)" "n = length b" for off n b
    using fields [OF that(1)] game_field [OF typed that] that(2) by simp
  have tail: "drop 16 (encode_game_state s) = drop 16 bs"
  proof (rule nth_equalityI)
    show "length (drop 16 (encode_game_state s)) = length (drop 16 bs)"
      using length_encode_game_state [OF typed] d(1) by simp
  next
    fix j assume "j < length (drop 16 (encode_game_state s))"
    then have i: "16 + j < 128" using length_encode_game_state [OF typed] by simp
    let ?i = "16 + j"
    have put: "encode_game_state s ! ?i = ?out ! ?i"
      using len i by (simp add: encode_game_state_def kGameStateWireSize_def Let_def nth_put_at)
    consider (field) off b where "(off, b) \<in> set (game_writes s)" "off \<le> ?i" "?i < off + length b"
      | (pad) "?i = 66 \<or> ?i = 67 \<or> 113 \<le> ?i"
    proof -
      have "(\<exists>(off, b) \<in> set (game_writes s). off \<le> ?i \<and> ?i < off + length b) \<or> ?i = 66 \<or> ?i = 67 \<or> 113 \<le> ?i"
        using i typed by (simp add: game_writes_def game_state_typed_def) linarith
      then show thesis using that by blast
    qed
    then have "encode_game_state s ! ?i = bs ! ?i"
    proof cases
      case field
      have eq: "bytes_at off (length b) (encode_game_state s) = bytes_at off (length b) bs"
        using fields [OF field(1)] game_field [OF typed field(1) refl] by metis
      have "bytes_at off (length b) x ! (?i - off) = x ! ?i" if "length x = 128" for x :: bytes
        using field(2,3) fields [OF field(1)] that by (subst nth_bytes_at) auto
      with eq show ?thesis using length_encode_game_state [OF typed] d(1) by metis
    next
      case pad
      have "apart ?i 1 (game_writes s)"
        using pad typed i by (elim disjE) (simp_all add: game_writes_def game_state_typed_def)
      then have "encode_game_state s ! ?i = 0"
        using game_pad [OF typed, of ?i 1] i nth_bytes_at_1 [of ?i "encode_game_state s"]
          length_encode_game_state [OF typed] by simp
      moreover have "bs ! ?i = 0"
      proof (cases "113 \<le> ?i")
        case True
        then have e: "drop 113 bs ! (?i - 113) = bs ! ?i" and "?i - 113 < length (drop 113 bs)" using d(1) i by simp_all
        then have "drop 113 bs ! (?i - 113) = 0" using d(11) [unfolded list_all_length, rule_format] by blast
        with e show ?thesis by simp
      next
        case False
        then have "?i = 66 \<or> ?i = 67" using pad by blast
        then show ?thesis using d(8,9) by metis
      qed
      ultimately show ?thesis by simp
    qed
    then show "drop 16 (encode_game_state s) ! j = drop 16 bs ! j"
      using i length_encode_game_state [OF typed] d(1) by simp
  qed
  have check: "bytes_at 12 4 (encode_game_state s) = bytes_at 12 4 bs"
    using get_le_eqD [OF game_checksum [OF typed]] length_encode_game_state [OF typed] d(5) tail by simp
  have head: "bytes_at 0 12 (encode_game_state s) = bytes_at 0 12 bs"
  proof -
    have split12: "bytes_at 0 12 x = bytes_at 0 8 x @ bytes_at 8 2 x @ bytes_at 10 2 x" for x :: bytes
      using bytes_at_add [of 0 8 4 x] bytes_at_add [of 8 2 2 x] by simp
    have members: "(0, kGameMagic) \<in> set (game_writes s)" "(8, le_bytes 2 (128 :: u16)) \<in> set (game_writes s)"
      "(10, le_bytes 2 (1 :: u16)) \<in> set (game_writes s)"
      by (simp_all add: game_writes_def kGameStateWireSize_def)
    have "bytes_at 0 8 (encode_game_state s) = bytes_at 0 8 bs" "bytes_at 8 2 (encode_game_state s) = bytes_at 8 2 bs"
      "bytes_at 10 2 (encode_game_state s) = bytes_at 10 2 bs"
      by (rule same [OF members(1)], simp add: kGameMagic_def, rule same [OF members(2)], simp, rule same [OF members(3)], simp)
    then show ?thesis by (simp only: split12)
  qed
  have parts: "bytes_at 0 12 x @ bytes_at 12 4 x @ drop 16 x = x" for x :: bytes
    using bytes_at_add [of 0 12 4 x] append_take_drop_id [of 16 x] by (simp add: bytes_at_def)
  have "bytes_at 0 12 (encode_game_state s) @ bytes_at 12 4 (encode_game_state s) @ drop 16 (encode_game_state s) =
      bytes_at 0 12 bs @ bytes_at 12 4 bs @ drop 16 bs"
    by (simp only: head check tail)
  then show ?thesis by (simp only: parts)
qed

interpretation game_codec: wire_codec encode_game_state decode_game_state game_state_typed
  by unfold_locales (rule decode_encode_game_state decode_game_state_typed encode_decode_game_state, assumption)+

section \<open>Loading and saving\<close>

text \<open>
  \<open>load_game_state\<close> over the result \<open>read\<close> of the store's read of a record with a maximum size, and
  \<open>save_game_state\<close> over its atomic write.
\<close>

definition load_game_state :: "(string \<Rightarrow> nat \<Rightarrow> bytes option) \<Rightarrow> game_2048 \<Rightarrow> bool \<times> game_2048" where
  "load_game_state read g =
     (case read kGameRecord kGameStateWireSize of
        None \<Rightarrow> (False, g)
      | Some bs \<Rightarrow> (case decode_game_state bs of None \<Rightarrow> (False, g) | Some s \<Rightarrow> restore_state s g))"

definition save_game_state :: "(string \<Rightarrow> bytes \<Rightarrow> nat \<Rightarrow> 'r) \<Rightarrow> game_2048 \<Rightarrow> 'r" where
  "save_game_state write_atomic g =
     write_atomic kGameRecord (encode_game_state (persistent_state g)) kGameStateWireSize"

text \<open>What a game needs of its store: a record written with success is read back.\<close>

locale record_store =
  fixes write_record :: "'s \<Rightarrow> string \<Rightarrow> bytes \<Rightarrow> nat \<Rightarrow> bool \<times> 's"
    and read_record :: "'s \<Rightarrow> string \<Rightarrow> nat \<Rightarrow> bytes option \<times> 's"
    and usable :: "'s \<Rightarrow> bool" and readable :: "'s \<Rightarrow> bool"
  assumes read_written:
    "usable s \<Longrightarrow> write_record s record data maximum = (True, s') \<Longrightarrow> readable s' \<Longrightarrow>
     fst (read_record s' record maximum) = Some data"
begin

lemma saved_game_loads:
  assumes "usable s" "game_inv g" "save_game_state (write_record s) g = (True, s')" "readable s'"
  shows "load_game_state (\<lambda>record maximum. fst (read_record s' record maximum)) h = (True, g)"
proof -
  have "game_state_typed (persistent_state g)"
    using assms(2) by (simp add: game_inv_def game_state_typed_def persistent_state_def)
  then have "decode_game_state (encode_game_state (persistent_state g)) = Some (persistent_state g)"
    by (rule game_codec.decode_encode)
  moreover have "fst (read_record s' kGameRecord kGameStateWireSize) = Some (encode_game_state (persistent_state g))"
    using read_written [OF assms(1)] assms(3,4) by (simp add: save_game_state_def)
  ultimately show ?thesis using restore_persistent [OF assms(2)] by (simp add: load_game_state_def)
qed

end

section \<open>The game as a machine\<close>

text \<open>
  What the user interface does with the game: moves, undo, restart (a reset that keeps the best
  score), and loading a record of any content at the start.
\<close>

datatype game_event = Play move_direction | Take_back | Restart | Load_record "bytes option"

definition game_step :: "game_2048 \<Rightarrow> game_event \<Rightarrow> game_2048" where
  "game_step g e =
     (case e of
        Play d \<Rightarrow> snd (game_move d g)
      | Take_back \<Rightarrow> snd (game_undo g)
      | Restart \<Rightarrow> set_best_score (gm_best_score g) (game_reset g)
      | Load_record contents \<Rightarrow> snd (load_game_state (\<lambda>_ _. contents) g))"

lemma set_best_score_inv:
  assumes "game_inv g" "gm_best_score g \<le> best"
  shows "game_inv (set_best_score best g)"
  using assms by (auto simp: set_best_score_def game_inv_def max_def)

lemma game_step_inv: "game_inv g \<Longrightarrow> game_inv (game_step g e)"
proof (cases e)
  case (Load_record contents)
  assume "game_inv g"
  with Load_record show ?thesis
    using restore_state_inv decode_game_state_typed
    by (auto simp: game_step_def load_game_state_def game_state_typed_def split: option.split)
next
  case Restart
  assume g: "game_inv g"
  note h = g [unfolded game_inv_def]
  have "game_inv (game_reset g)" "gm_best_score (game_reset g) = gm_best_score g"
    by (rule game_reset_inv; use h in simp)+
  with Restart show ?thesis by (simp add: game_step_def set_best_score_inv)
qed (simp_all add: game_step_def game_move_inv game_undo_inv)

interpretation game_machine: machine game_step game_inv
  by unfold_locales (rule game_step_inv)

section \<open>Properties\<close>

text \<open>C36. Every game that can be reached from a new one by moves, undos, restarts and loads of records of
  any content is well formed: a board of 16 powers of two, the right phase, a generator that never
  sticks at zero, the score and the undo score within the best score; and saving it and loading
  the bytes, into any game, gives exactly this game back.\<close>

theorem reachable_games_persist:
  "let g = foldl game_step (new_game seed) events in
   game_inv g \<and>
   load_game_state (\<lambda>_ _. Some (save_game_state (\<lambda>_ data _. data) g)) h = (True, g)"
proof -
  define g where "g = foldl game_step (new_game seed) events"
  have g: "game_inv g" unfolding g_def by (rule game_machine.run_inv [OF new_game_inv])
  then have "decode_game_state (encode_game_state (persistent_state g)) = Some (persistent_state g)"
    by (intro game_codec.decode_encode) (simp add: game_inv_def game_state_typed_def persistent_state_def)
  then show ?thesis
    using g restore_persistent [OF g] unfolding g_def [symmetric]
    by (simp add: load_game_state_def save_game_state_def)
qed

lemma le_bytes_4_inject: "le_bytes 4 (a :: u32) = le_bytes 4 b \<longleftrightarrow> a = b"
proof
  assume "le_bytes 4 a = le_bytes 4 b"
  then have "(le_word (le_bytes 4 a) :: u32) = le_word (le_bytes 4 b)" by simp
  then show "a = b" by simp
qed simp

text \<open>A saved game with any single byte changed is not loaded: the header, the checksum or the
  checksummed bytes disagree, wherever the byte is and whatever it becomes.\<close>

theorem corrupted_game_rejected:
  assumes "game_state_typed s" and "i < 128" and "encode_game_state s ! i \<noteq> b"
  shows "decode_game_state ((encode_game_state s)[i := b]) = None"
proof (rule ccontr)
  let ?bs = "encode_game_state s" and ?cs = "(encode_game_state s)[i := b]"
  assume "decode_game_state ?cs \<noteq> None"
  then obtain t where "decode_game_state ?cs = Some t" by blast
  note c = decode_game_stateD [OF this] and d = decode_game_stateD [OF decode_encode_game_state [OF assms(1)]]
  have same: "bytes_at off n ?cs = bytes_at off n ?bs" if "i < off \<or> off + n \<le> i" for off n
    using that by (auto simp: bytes_at_def drop_update_cancel take_update_cancel drop_update_swap)
  have differ: "bytes_at off n ?cs \<noteq> bytes_at off n ?bs" if "off \<le> i" "i < off + n" "off + n \<le> 128" for off n
  proof
    assume "bytes_at off n ?cs = bytes_at off n ?bs"
    then have "bytes_at off n ?cs ! (i - off) = bytes_at off n ?bs ! (i - off)" by simp
    then show False using that d(1) assms(3) by (simp add: nth_bytes_at)
  qed
  consider "i < 8" | "8 \<le> i" "i < 10" | "10 \<le> i" "i < 12" | "12 \<le> i" "i < 16" | "16 \<le> i" by linarith
  then show False
  proof cases
    case 1 with differ [of 0 8] c(2) d(2) show False by simp
  next
    case 2 with differ [of 8 2] c(3) d(3) show False by simp
  next
    case 3 with differ [of 10 2] c(4) d(4) show False by simp
  next
    case 4
    then have "drop 16 ?cs = drop 16 ?bs" by (simp add: drop_update_cancel)
    with 4 differ [of 12 4] c(5) d(5) show False by simp
  next
    case 5
    have "bytes_at 12 4 ?cs = bytes_at 12 4 ?bs" using 5 same [of 12 4] by simp
    then have "crc32 (drop 16 ?cs) = crc32 (drop 16 ?bs)"
      using c(5) d(5) by (simp add: le_bytes_4_inject)
    moreover have "drop 16 ?cs = (drop 16 ?bs)[i - 16 := b]" using 5 by (simp add: drop_update_swap)
    moreover have "drop 16 ?bs ! (i - 16) \<noteq> b" "i - 16 < length (drop 16 ?bs)"
      using 5 assms(2,3) d(1) by simp_all
    ultimately show False using crc32_detects by metis
  qed
qed

lemma corrupted_game_rejected_witness:
  "decode_game_state ((encode_game_state (persistent_state sample_game))[48 := 5]) = None"
proof (rule corrupted_game_rejected)
  show t: "game_state_typed (persistent_state sample_game)" by code_simp
  have "bytes_at 48 4 (encode_game_state (persistent_state sample_game)) = le_bytes 4 (4 :: u32)"
    by (rule game_field [OF t]) (simp_all add: game_writes_def persistent_state_def sample_game_def)
  then have "bytes_at 48 4 (encode_game_state (persistent_state sample_game)) ! 0 = 4" by (simp add: le_bytes_def)
  then show "encode_game_state (persistent_state sample_game) ! 48 \<noteq> 5"
    using length_encode_game_state [OF t] by (simp add: nth_bytes_at)
qed simp

end
