(* ===== verification/Storage_Broker.thy ===== *)
theory Storage_Broker
  imports Storage_Protocol Package_Verifier Game_Persistence
begin

text \<open>
  The private storage of an application: the broker in the session daemon
  (\<open>platform/src/session/session_daemon.cpp\<close>, \<open>scan_storage\<close> to \<open>handle_storage_request\<close>) and its
  client in the application (\<open>src/runtime/app_storage.cpp\<close>). The directory is a map from names to
  entries; what one pass of \<open>readdir\<close> yields, and whether each system call works, are arguments.
\<close>

section \<open>The directory\<close>

text \<open>
  An entry is a file the broker owns (regular, root's, one link, mode 0600) with its bytes, or
  anything else; the flag tells whether opening the latter for reading works.
\<close>

datatype storage_entry = Private_file bytes | Foreign_entry bool

type_synonym storage_directory = "string \<Rightarrow> storage_entry option"

text \<open>
  The system calls of one request: what \<open>readdir\<close> and \<open>getrandom\<close> yield before they end or fail,
  which of the others work, and how many bytes are written when writing fails.
\<close>

record storage_faults =
  sf_listing :: "string list"
  sf_directory_opens :: bool
  sf_unlink :: "string \<Rightarrow> bool"
  sf_scan_stat :: "string \<Rightarrow> bool"
  sf_clean_sync :: bool
  sf_stat :: bool
  sf_random :: bytes
  sf_create :: bool
  sf_written :: "nat option"
  sf_file_sync :: bool
  sf_rename :: bool
  sf_directory_sync :: bool
  sf_open :: bool
  sf_read :: bool
  sf_at_end :: bool

record storage_usage =
  su_files :: u32
  su_bytes :: u64

definition storage_temporary_name :: "string \<Rightarrow> bool" where
  "storage_temporary_name name =
     (let prefix = (if take 8 name = ''.broker-'' then ''.broker-'' else ''.write-'')
      in if length name \<noteq> length prefix + 24 \<or> take (length prefix) name \<noteq> prefix then False
         else list_all is_hex_lower (drop (length prefix) name))"

definition unlink_entry :: "storage_faults \<Rightarrow> string \<Rightarrow> storage_directory \<Rightarrow> storage_directory" where
  "unlink_entry faults name fs = (if sf_unlink faults name then fs(name := None) else fs)"

fun scan_entries ::
    "storage_faults \<Rightarrow> string list \<Rightarrow> storage_usage \<Rightarrow> bool \<Rightarrow> storage_directory
       \<Rightarrow> (storage_usage \<times> bool) option \<times> storage_directory" where
  "scan_entries faults [] usage cleaned fs = (Some (usage, cleaned), fs)"
| "scan_entries faults (name # names) usage cleaned fs =
     (if name = ''.'' \<or> name = ''..'' then scan_entries faults names usage cleaned fs
      else case fs name of
        Some (Private_file bs) \<Rightarrow>
          if storage_temporary_name name
          then if \<not> sf_scan_stat faults name \<or> \<not> sf_unlink faults name then (None, fs)
               else scan_entries faults names usage True (unlink_entry faults name fs)
          else if \<not> sf_scan_stat faults name \<or> bs = [] \<or> \<not> valid_storage_record_name name \<or>
                  kMaximumStorageRecordSize < length bs \<or> su_files usage = - 1 \<or>
                  - 1 - word_of_nat (length bs) < su_bytes usage
               then (None, fs)
               else scan_entries faults names
                      \<lparr>su_files = su_files usage + 1,
                       su_bytes = su_bytes usage + word_of_nat (length bs)\<rparr> cleaned fs
      | _ \<Rightarrow> (None, fs))"

definition scan_storage ::
    "storage_faults \<Rightarrow> storage_directory \<Rightarrow> storage_usage option \<times> storage_directory" where
  "scan_storage faults fs =
     (if \<not> sf_directory_opens faults then (None, fs)
      else case scan_entries faults (sf_listing faults) \<lparr>su_files = 0, su_bytes = 0\<rparr> False fs of
             (None, fs') \<Rightarrow> (None, fs')
           | (Some (usage, cleaned), fs') \<Rightarrow>
               (if \<not> cleaned \<or> sf_clean_sync faults then Some usage else None, fs'))"

section \<open>Reading and writing records\<close>

definition read_storage_record ::
    "storage_faults \<Rightarrow> storage_directory \<Rightarrow> storage_request \<Rightarrow> storage_status \<times> bytes" where
  "read_storage_record faults fs q =
     (case fs (sq_record q) of
        None \<Rightarrow> (if sf_open faults then Storage_not_found else Storage_io_error, [])
      | Some (Foreign_entry opens) \<Rightarrow>
          (if sf_open faults \<and> opens then Storage_corrupt else Storage_io_error, [])
      | Some (Private_file bs) \<Rightarrow>
          if \<not> sf_open faults then (Storage_io_error, [])
          else if \<not> sf_stat faults \<or> bs = [] \<or> unat (sq_maximum_size q) < length bs
          then (Storage_corrupt, [])
          else if \<not> sf_read faults then (Storage_io_error, replicate (length bs) 0)
          else (if sf_at_end faults then Storage_ok else Storage_corrupt, bs))"

text \<open>\<open>limits.data_mib * 1024 * 1024\<close>, in 64 bits.\<close>

definition storage_quota :: "resource_limits \<Rightarrow> u64" where
  "storage_quota limits = ucast (rl_data_mib limits) * 1024 * 1024"

definition broker_temporary :: "bytes \<Rightarrow> string" where
  "broker_temporary random = ''.broker-'' @ hex_of_bytes random"

text \<open>
  The replacement of a record: a new temporary file, its bytes, a sync, the rename over the record,
  a sync of the directory; on any failure the temporary name is unlinked.
\<close>

definition replace_record ::
    "storage_faults \<Rightarrow> string \<Rightarrow> string \<Rightarrow> bytes \<Rightarrow> storage_directory \<Rightarrow> storage_status \<times> storage_directory" where
  "replace_record faults temporary name data fs =
     (let failed = (\<lambda>fs. (Storage_io_error, unlink_entry faults temporary fs)) in
      if \<not> sf_create faults \<or> fs temporary \<noteq> None then failed fs
      else case sf_written faults of
        Some n \<Rightarrow> failed (fs(temporary \<mapsto> Private_file (take n data)))
      | None \<Rightarrow>
          if \<not> sf_file_sync faults \<or> \<not> sf_rename faults
          then failed (fs(temporary \<mapsto> Private_file data))
          else let fs' = fs(temporary := None, name \<mapsto> Private_file data)
               in if sf_directory_sync faults then (Storage_ok, fs') else failed fs')"

definition write_storage_record ::
    "storage_faults \<Rightarrow> resource_limits \<Rightarrow> storage_directory \<Rightarrow> storage_request
       \<Rightarrow> storage_status \<times> storage_directory" where
  "write_storage_record faults limits fs0 q =
     (case scan_storage faults fs0 of
        (None, fs) \<Rightarrow> (Storage_corrupt, fs)
      | (Some usage, fs) \<Rightarrow>
          let write = (\<lambda>exists existing_size.
            if \<not> storage_write_within_quota (su_files usage) (su_bytes usage) exists existing_size
                 (word_of_nat (length (sq_data q))) (rl_maximum_files limits) (storage_quota limits)
            then (Storage_quota_exceeded, fs)
            else if length (sf_random faults) < 12 then (Storage_io_error, fs)
            else replace_record faults (broker_temporary (take 12 (sf_random faults))) (sq_record q)
                   (sq_data q) fs)
          in if \<not> sf_stat faults then (Storage_io_error, fs)
             else case fs (sq_record q) of
               Some (Private_file bs) \<Rightarrow>
                 if bs = [] then (Storage_corrupt, fs) else write True (word_of_nat (length bs))
             | Some (Foreign_entry _) \<Rightarrow> (Storage_corrupt, fs)
             | None \<Rightarrow> write False 0)"

section \<open>The broker\<close>

definition storage_reply ::
    "storage_faults \<Rightarrow> resource_limits \<Rightarrow> storage_directory \<Rightarrow> storage_request
       \<Rightarrow> storage_response \<times> storage_directory" where
  "storage_reply faults limits fs q =
     (let response = (\<lambda>status data. \<lparr>sp_command = sq_command q, sp_status = status,
                        sp_request_id = sq_request_id q, sp_data = data\<rparr>) in
      case sq_command q of
        Storage_read \<Rightarrow>
          (case scan_storage faults fs of
             (None, fs') \<Rightarrow> (response Storage_corrupt [], fs')
           | (Some usage, fs') \<Rightarrow>
               if rl_maximum_files limits < su_files usage \<or> storage_quota limits < su_bytes usage
               then (response Storage_corrupt [], fs')
               else (case read_storage_record faults fs' q of (status, data) \<Rightarrow>
                       response status (if status = Storage_ok then data else []), fs'))
      | Storage_write \<Rightarrow>
          (case write_storage_record faults limits fs q of (status, fs') \<Rightarrow> (response status [], fs'))
      | _ \<Rightarrow> (response Storage_invalid_request [], fs))"

text \<open>
  One packet: \<open>None\<close> is the \<open>false\<close> that ends the application (an unreadable request or an
  unencodable response), otherwise the packet sent back.
\<close>

definition handle_storage_request ::
    "storage_faults \<Rightarrow> resource_limits \<Rightarrow> storage_directory \<Rightarrow> bytes \<Rightarrow> bytes option \<times> storage_directory" where
  "handle_storage_request faults limits fs packet =
     (if packet = [] \<or> kMaximumStoragePacketSize < length packet then (None, fs)
      else case decode_storage_request packet of
          None \<Rightarrow> (None, fs)
        | Some q \<Rightarrow>
            case storage_reply faults limits fs q of (response, fs') \<Rightarrow>
              let encoded = encode_storage_response response
              in (if encoded = [] then None else Some encoded, fs'))"

section \<open>The client\<close>

record storage_client =
  sc_connected :: bool
  sc_next_request_id :: u64

definition new_storage_client :: "bool \<Rightarrow> storage_client" where
  "new_storage_client connected = \<lparr>sc_connected = connected, sc_next_request_id = 1\<rparr>"

text \<open>
  \<open>exchange\<close> over a channel: what the peer does with a packet, on its own state.
\<close>

definition exchange ::
    "('p \<Rightarrow> bytes \<Rightarrow> bytes option \<times> 'p) \<Rightarrow> 'p \<Rightarrow> storage_request \<Rightarrow> storage_response option \<times> 'p" where
  "exchange peer p q =
     (let packet = encode_storage_request q in
      if packet = [] then (None, p)
      else case peer p packet of
          (None, p') \<Rightarrow> (None, p')
        | (Some reply, p') \<Rightarrow>
            (if length reply \<le> kMaximumStoragePacketSize then
               (case decode_storage_response reply of
                  None \<Rightarrow> None
                | Some response \<Rightarrow>
                    if sp_request_id response = sq_request_id q \<and> sp_command response = sq_command q
                    then Some response else None)
             else None, p'))"

definition client_read ::
    "('p \<Rightarrow> bytes \<Rightarrow> bytes option \<times> 'p) \<Rightarrow> storage_client \<times> 'p \<Rightarrow> string \<Rightarrow> nat
       \<Rightarrow> bytes option \<times> (storage_client \<times> 'p)" where
  "client_read peer cp record maximum_size =
     (let (c, p) = cp in
      if \<not> sc_connected c \<or> maximum_size = 0 \<or> kMaximumStorageRecordSize < maximum_size \<or>
         \<not> valid_storage_record_name record
      then (None, cp)
      else let request_id = sc_next_request_id c;
               c' = c\<lparr>sc_next_request_id := request_id + 1\<rparr>
           in if request_id = 0 then (None, (c', p))
              else case exchange peer p \<lparr>sq_command = Storage_read, sq_request_id = request_id,
                     sq_record = record, sq_maximum_size = word_of_nat maximum_size, sq_data = []\<rparr> of
                  (None, p') \<Rightarrow> (None, (c', p'))
                | (Some response, p') \<Rightarrow>
                    (if sp_status response \<noteq> Storage_ok \<or> sp_data response = [] \<or>
                        maximum_size < length (sp_data response)
                     then None else Some (sp_data response), (c', p')))"

definition client_write_atomic ::
    "('p \<Rightarrow> bytes \<Rightarrow> bytes option \<times> 'p) \<Rightarrow> storage_client \<times> 'p \<Rightarrow> string \<Rightarrow> bytes \<Rightarrow> nat
       \<Rightarrow> bool \<times> (storage_client \<times> 'p)" where
  "client_write_atomic peer cp record data maximum_size =
     (let (c, p) = cp in
      if \<not> sc_connected c \<or> data = [] \<or> maximum_size < length data \<or>
         kMaximumStorageRecordSize < maximum_size \<or> \<not> valid_storage_record_name record
      then (False, cp)
      else let request_id = sc_next_request_id c;
               c' = c\<lparr>sc_next_request_id := request_id + 1\<rparr>
           in if request_id = 0 then (False, (c', p))
              else case exchange peer p \<lparr>sq_command = Storage_write, sq_request_id = request_id,
                     sq_record = record, sq_maximum_size = word_of_nat maximum_size, sq_data = data\<rparr> of
                  (None, p') \<Rightarrow> (False, (c', p'))
                | (Some response, p') \<Rightarrow>
                    (sp_status response = Storage_ok \<and> sp_data response = [], (c', p')))"

section \<open>What a scan accepts\<close>

definition recorded :: "string list \<Rightarrow> string list" where
  "recorded names = filter (\<lambda>n. n \<noteq> ''.'' \<and> n \<noteq> ''..'' \<and> \<not> storage_temporary_name n) names"

fun entry_size :: "storage_entry option \<Rightarrow> nat" where
  "entry_size (Some (Private_file bs)) = length bs"
| "entry_size _ = 0"

definition storable_record :: "string \<Rightarrow> storage_entry option \<Rightarrow> bool" where
  "storable_record name e \<longleftrightarrow> valid_storage_record_name name \<and>
     (\<exists>bs. e = Some (Private_file bs) \<and> bs \<noteq> [] \<and> length bs \<le> 65536)"

lemma temporary_shape:
  assumes "storage_temporary_name name"
  shows "31 \<le> length name" "hd name = dot"
proof -
  define prefix where "prefix = (if take 8 name = ''.broker-'' then ''.broker-'' else ''.write-'')"
  have "length name = length prefix + 24 \<and> take (length prefix) name = prefix"
    using assms unfolding storage_temporary_name_def Let_def prefix_def [symmetric] by presburger
  then have name: "length name = length prefix + 24" "take (length prefix) name = prefix" by simp_all
  have prefix: "7 \<le> length prefix" "hd prefix = dot" by (simp_all add: prefix_def dot_def)
  show "31 \<le> length name" using name(1) prefix(1) by simp
  have "hd (take (length prefix) name) = hd name" by (intro hd_take) (use prefix(1) in linarith)
  then show "hd name = dot" using name(2) prefix(2) by simp
qed

lemma temporary_names [simp]:
  "storage_temporary_name name \<Longrightarrow> \<not> valid_storage_record_name name"
  "\<not> valid_storage_record_name ''.''" "\<not> valid_storage_record_name ''..''"
  by (simp_all add: valid_storage_record_name_def temporary_shape(2)) (simp_all add: dot_def)

lemma broker_temporary_name [simp]: "length random = 12 \<Longrightarrow> storage_temporary_name (broker_temporary random)"
  using hex_of_bytes_token [of random]
  by (simp add: storage_temporary_name_def broker_temporary_def hex_token_def)

lemma scan_entries_Some:
  assumes "scan_entries faults names usage cleaned fs = (Some (usage', cleaned'), fs')"
  shows "fs' = (\<lambda>n. if n \<in> set names \<and> storage_temporary_name n then None else fs n) \<and>
    list_all (\<lambda>n. storable_record n (fs n)) (recorded names) \<and>
    unat (su_files usage') = unat (su_files usage) + length (recorded names) \<and>
    unat (su_bytes usage') = unat (su_bytes usage) + sum_list (map (\<lambda>n. entry_size (fs n)) (recorded names))"
  using assms
proof (induction names arbitrary: usage cleaned fs)
  case Nil
  then show ?case by (auto simp: recorded_def)
next
  case (Cons name names)
  show ?case
  proof (cases "name = ''.'' \<or> name = ''..''")
    case True
    with Cons.prems have "scan_entries faults names usage cleaned fs = (Some (usage', cleaned'), fs')" by simp
    moreover have "\<not> storage_temporary_name name" using True temporary_shape(1) [of name] by auto
    moreover have "recorded (name # names) = recorded names" using True by (auto simp: recorded_def)
    ultimately show ?thesis using Cons.IH [of usage cleaned fs] by (simp add: fun_eq_iff)
  next
    case named: False
    with Cons.prems obtain bs where held: "fs name = Some (Private_file bs)"
      by (auto split: option.splits storage_entry.splits)
    show ?thesis
    proof (cases "storage_temporary_name name")
      case True
      let ?fs = "fs(name := None)"
      have same: "n \<noteq> name" if "n \<in> set (recorded names)" for n
        using that True by (auto simp: recorded_def)
      from Cons.prems named held True have "scan_entries faults names usage True ?fs = (Some (usage', cleaned'), fs')"
        by (simp add: unlink_entry_def split: if_splits)
      note rest = Cons.IH [OF this]
      have sizes: "map (\<lambda>n. entry_size (?fs n)) (recorded names) = map (\<lambda>n. entry_size (fs n)) (recorded names)"
        using same by (intro map_cong) auto
      have all: "list_all (\<lambda>n. storable_record n (?fs n)) (recorded names) =
          list_all (\<lambda>n. storable_record n (fs n)) (recorded names)"
        using same by (intro list_all_cong) auto
      have skip: "recorded (name # names) = recorded names" using True by (simp add: recorded_def)
      have gone: "(\<lambda>n. if n \<in> set names \<and> storage_temporary_name n then None else ?fs n) =
          (\<lambda>n. if n \<in> set (name # names) \<and> storage_temporary_name n then None else fs n)"
        using True by (auto simp: fun_eq_iff)
      show ?thesis using rest unfolding sizes all skip gone .
    next
      case False
      let ?usage = "\<lparr>su_files = su_files usage + 1, su_bytes = su_bytes usage + word_of_nat (length bs)\<rparr>"
      from Cons.prems named held False
      have go: "scan_entries faults names ?usage cleaned fs = (Some (usage', cleaned'), fs')"
        and guard: "bs \<noteq> []" "valid_storage_record_name name" "length bs \<le> 65536"
          "su_files usage \<noteq> - 1" "su_bytes usage \<le> - 1 - word_of_nat (length bs)"
        by (auto simp: kMaximumStorageRecordSize_def not_less split: if_splits)
      have size: "unat (word_of_nat (length bs) :: u64) = length bs"
        using guard(3) by (simp add: unat_of_nat take_bit_nat_eq_self)
      have files: "unat (su_files usage + 1) = unat (su_files usage) + 1"
      proof -
        have "1 + su_files usage \<noteq> 0" using guard(4) by (metis add.commute eq_neg_iff_add_eq_0)
        then show ?thesis using unatSuc [of "su_files usage"] by (simp add: add.commute)
      qed
      have "word_of_nat (length bs) \<le> (- 1 :: u64)" by simp
      then have "unat (su_bytes usage) + length bs < 2 ^ 64"
        using guard(3,5) size by (simp add: word_le_nat_alt unat_sub unsigned_minus_1_eq_mask mask_eq_exp_minus_1)
      then have bytes: "unat (su_bytes usage + word_of_nat (length bs)) = unat (su_bytes usage) + length bs"
        using size by (simp add: unat_word_ariths)
      have head: "recorded (name # names) = name # recorded names" using named False by (simp add: recorded_def)
      show ?thesis
        using Cons.IH [OF go] held guard False unfolding head
        by (auto simp: files bytes storable_record_def)
    qed
  qed
qed

section \<open>What a request can change\<close>

definition private_storage :: "storage_directory \<Rightarrow> bool" where
  "private_storage fs \<longleftrightarrow>
     (\<forall>n e. fs n = Some e \<longrightarrow> (\<exists>bs. e = Private_file bs) \<and> (storage_temporary_name n \<or> storable_record n (Some e)))"

text \<open>The changes of a request, successful or not, to the entry of a name.\<close>

definition entry_change :: "storage_request \<Rightarrow> string \<Rightarrow> storage_entry option \<Rightarrow> storage_entry option \<Rightarrow> bool" where
  "entry_change q n e e' \<longleftrightarrow> e' = e \<or>
     storage_temporary_name n \<and> (e' = None \<or> (\<exists>bs. e' = Some (Private_file bs))) \<or>
     sq_command q = Storage_write \<and> n = sq_record q \<and> e' = Some (Private_file (sq_data q))"

lemma scan_entries_change:
  "entry_change q n (fs n) (snd (scan_entries faults names usage cleaned fs) n)"
proof (induction names arbitrary: usage cleaned fs)
  case Nil
  then show ?case by (simp add: entry_change_def)
next
  case (Cons name names)
  have same: "entry_change q n e e" for e by (simp add: entry_change_def)
  have gone: "entry_change q n (fs n) e" if "storage_temporary_name name" "entry_change q n ((fs(name := None)) n) e" for e
    using that by (auto simp: entry_change_def split: if_splits)
  show ?case
    by (simp add: Cons.IH same gone [OF _ Cons.IH [where fs = "fs(name := None)"]] unlink_entry_def split: option.split storage_entry.split)
qed

lemma scan_storage_change: "entry_change q n (fs n) (snd (scan_storage faults fs) n)"
  using scan_entries_change [of q n fs faults "sf_listing faults" "\<lparr>su_files = 0, su_bytes = 0\<rparr>" False]
  by (auto simp: scan_storage_def entry_change_def split: prod.split option.split)

lemma replace_record_change:
  assumes "storage_temporary_name temporary" "sq_command q = Storage_write"
  shows "entry_change q n (fs n)
    (snd (replace_record faults temporary (sq_record q) (sq_data q) fs) n)"
  using assms by (auto simp: replace_record_def entry_change_def unlink_entry_def Let_def split: option.split)

lemma replace_record_ok:
  assumes "replace_record faults temporary name data fs = (Storage_ok, fs')"
  shows "fs' = fs(temporary := None, name \<mapsto> Private_file data)"
  using assms by (auto simp: replace_record_def Let_def split: if_splits option.splits)

lemma write_storage_record_change:
  assumes "sq_command q = Storage_write"
  shows "entry_change q n (fs n) (snd (write_storage_record faults limits fs q) n)"
proof -
  obtain usage fs1 where scan: "scan_storage faults fs = (usage, fs1)" by fastforce
  have first: "entry_change q n (fs n) (fs1 n)" using scan_storage_change [of q n fs faults] scan by simp
  have trans: "entry_change q n (fs n) e" if "entry_change q n (fs1 n) e" for e
    using first that by (auto simp: entry_change_def)
  show ?thesis
    using first trans [OF replace_record_change [where fs = fs1, OF _ assms]]
    by (auto simp: write_storage_record_def scan Let_def split: option.split storage_entry.split)
qed

lemma storage_reply_change: "entry_change q n (fs n) (snd (storage_reply faults limits fs q) n)"
  using scan_storage_change [of q n fs faults] write_storage_record_change [of q n fs faults limits]
  by (auto simp: storage_reply_def Let_def entry_change_def split: prod.split option.split storage_command.split)

lemma write_storage_record_status:
  "fst (write_storage_record faults limits fs q) \<in>
     {Storage_ok, Storage_quota_exceeded, Storage_corrupt, Storage_io_error}"
  by (simp add: write_storage_record_def replace_record_def Let_def split: prod.split option.split storage_entry.split)

lemma read_storage_record_status:
  assumes "read_storage_record faults fs q = (status, data)"
  shows "status \<in> {Storage_ok, Storage_not_found, Storage_corrupt, Storage_io_error}"
    and "status = Storage_ok \<Longrightarrow> fs (sq_record q) = Some (Private_file data) \<and> data \<noteq> [] \<and>
      length data \<le> unat (sq_maximum_size q)"
  using assms by (auto simp: read_storage_record_def split: option.splits storage_entry.splits if_splits)

lemma storage_reply_acceptable:
  assumes "storage_request_acceptable q" "storage_reply faults limits fs q = (response, fs')"
  shows "storage_response_acceptable response" "sp_command response = sq_command q"
    "sp_request_id response = sq_request_id q"
proof -
  have max: "unat (sq_maximum_size q) \<le> 65536" "sq_request_id q \<noteq> 0"
    using assms(1) by (simp_all add: storage_request_acceptable_def)
  consider (reading) "sq_command q = Storage_read" | (writing) "sq_command q = Storage_write"
    using assms(1) by (cases "sq_command q") (simp_all add: storage_request_acceptable_def)
  then have "storage_response_acceptable response \<and> sp_command response = sq_command q \<and>
      sp_request_id response = sq_request_id q"
  proof cases
    case reading
    obtain status data where r: "read_storage_record faults (snd (scan_storage faults fs)) q = (status, data)"
      by fastforce
    note s = read_storage_record_status [OF r]
    have "status = Storage_ok \<longrightarrow> length data \<le> 65536" using s(2) max(1) by auto
    with reading s(1) max(2) r assms(2) show ?thesis
      by (auto simp: storage_reply_def storage_response_acceptable_def Let_def split: prod.splits option.splits if_splits)
  next
    case writing
    then show ?thesis using assms(2) max(2) write_storage_record_status [of faults limits fs q]
      by (auto simp: storage_reply_def storage_response_acceptable_def Let_def split: prod.splits)
  qed
  then show "storage_response_acceptable response" "sp_command response = sq_command q"
    "sp_request_id response = sq_request_id q" by simp_all
qed

section \<open>Usage and quota\<close>

definition records :: "storage_directory \<Rightarrow> string set" where
  "records fs = {n. fs n \<noteq> None \<and> \<not> storage_temporary_name n}"

definition used_bytes :: "storage_directory \<Rightarrow> nat" where
  "used_bytes fs = (\<Sum>n\<in>records fs. entry_size (fs n))"

definition quota_bytes :: "resource_limits \<Rightarrow> nat" where
  "quota_bytes limits = unat (rl_data_mib limits) * 1048576"

definition within_quota :: "resource_limits \<Rightarrow> storage_directory \<Rightarrow> bool" where
  "within_quota limits fs \<longleftrightarrow> finite (records fs) \<and> card (records fs) \<le> unat (rl_maximum_files limits) \<and>
     used_bytes fs \<le> quota_bytes limits"

text \<open>The scan of a request sees every entry once.\<close>

definition complete_listing :: "string list \<Rightarrow> storage_directory \<Rightarrow> bool" where
  "complete_listing names fs \<longleftrightarrow> distinct names \<and> {n \<in> set names. n \<noteq> ''.'' \<and> n \<noteq> ''..''} = dom fs"

lemma complete_recorded:
  assumes "complete_listing names fs"
  shows "set (recorded names) = records fs" "distinct (recorded names)"
proof -
  have "n \<in> set (recorded names) \<longleftrightarrow> n \<in> dom fs \<and> \<not> storage_temporary_name n" for n
    using assms by (auto simp: recorded_def complete_listing_def)
  then show "set (recorded names) = records fs" by (auto simp: records_def dom_def)
  show "distinct (recorded names)" using assms by (simp add: recorded_def complete_listing_def)
qed

lemma complete_usage:
  assumes "complete_listing names fs"
  shows "length (recorded names) = card (records fs)"
    "sum_list (map (\<lambda>n. entry_size (fs n)) (recorded names)) = used_bytes fs" "finite (records fs)"
  using complete_recorded [OF assms] distinct_card [of "recorded names"]
    sum_list_distinct_conv_sum_set [of "recorded names" "\<lambda>n. entry_size (fs n)"]
  by (auto simp: used_bytes_def) (metis List.finite_set)

lemma unat_storage_quota: "unat (storage_quota limits) = quota_bytes limits"
proof -
  have "unat (rl_data_mib limits) < 4294967296" using unsigned_less [of "rl_data_mib limits"] by simp
  then show ?thesis by (simp add: storage_quota_def quota_bytes_def unat_word_ariths unat_ucast_up)
qed

lemma scan_storage_Some:
  assumes "scan_storage faults fs = (Some usage, fs')"
  shows "fs' = (\<lambda>n. if n \<in> set (sf_listing faults) \<and> storage_temporary_name n then None else fs n)"
    "list_all (\<lambda>n. storable_record n (fs n)) (recorded (sf_listing faults))"
    "unat (su_files usage) = length (recorded (sf_listing faults))"
    "unat (su_bytes usage) = sum_list (map (\<lambda>n. entry_size (fs n)) (recorded (sf_listing faults)))"
proof -
  obtain cleaned where
    "scan_entries faults (sf_listing faults) \<lparr>su_files = 0, su_bytes = 0\<rparr> False fs = (Some (usage, cleaned), fs')"
    using assms by (auto simp: scan_storage_def split: if_splits prod.splits option.splits)
  note scan = scan_entries_Some [OF this]
  then show "fs' = (\<lambda>n. if n \<in> set (sf_listing faults) \<and> storage_temporary_name n then None else fs n)"
    "list_all (\<lambda>n. storable_record n (fs n)) (recorded (sf_listing faults))"
    "unat (su_files usage) = length (recorded (sf_listing faults))"
    "unat (su_bytes usage) = sum_list (map (\<lambda>n. entry_size (fs n)) (recorded (sf_listing faults)))"
    by simp_all
qed

lemma records_cong: "(\<And>n. \<not> storage_temporary_name n \<Longrightarrow> fs' n = fs n) \<Longrightarrow> records fs' = records fs"
  by (auto simp: records_def)

lemma used_bytes_cong:
  assumes "\<And>n. \<not> storage_temporary_name n \<Longrightarrow> fs' n = fs n"
  shows "used_bytes fs' = used_bytes fs"
  unfolding used_bytes_def by (rule sum.cong) (use assms records_cong [of fs' fs] in \<open>auto simp: records_def\<close>)

text \<open>Replacing or adding one record.\<close>

lemma usage_update:
  assumes "finite (records fs)" "\<not> storage_temporary_name name"
  shows "records (fs(name \<mapsto> Private_file data)) = insert name (records fs)"
    "used_bytes (fs(name \<mapsto> Private_file data)) = used_bytes fs - entry_size (fs name) + length data"
    "entry_size (fs name) \<le> used_bytes fs"
proof -
  show records: "records (fs(name \<mapsto> Private_file data)) = insert name (records fs)"
    using assms(2) by (auto simp: records_def)
  have rest: "used_bytes fs = (\<Sum>n\<in>records fs - {name}. entry_size (fs n)) + entry_size (fs name)"
  proof (cases "name \<in> records fs")
    case True
    then show ?thesis using assms(1) by (simp add: used_bytes_def sum.remove add.commute)
  next
    case False
    then show ?thesis using assms(2) by (simp add: used_bytes_def records_def)
  qed
  have "used_bytes (fs(name \<mapsto> Private_file data)) = (\<Sum>n\<in>records fs - {name}. entry_size (fs n)) + length data"
    unfolding used_bytes_def records
    by (subst sum.insert_remove) (use assms(1) in \<open>auto intro!: sum.cong\<close>)
  with rest show "used_bytes (fs(name \<mapsto> Private_file data)) = used_bytes fs - entry_size (fs name) + length data"
    by simp
  show "entry_size (fs name) \<le> used_bytes fs" using rest by simp
qed

section \<open>Scans that work\<close>

text \<open>
  The system calls a scan and a read need all work, and the listing is complete; what only a
  write needs (random bytes, creation, writing, renaming) is left open.
\<close>

definition scans :: "storage_faults \<Rightarrow> storage_directory \<Rightarrow> bool" where
  "scans faults fs \<longleftrightarrow> sf_directory_opens faults \<and> sf_clean_sync faults \<and> sf_stat faults \<and>
     list_all (\<lambda>n. sf_unlink faults n \<and> sf_scan_stat faults n) (sf_listing faults) \<and>
     complete_listing (sf_listing faults) fs"

definition reads_work :: "storage_faults \<Rightarrow> bool" where
  "reads_work faults \<longleftrightarrow> sf_open faults \<and> sf_read faults \<and> sf_at_end faults"

definition writes_work :: "storage_faults \<Rightarrow> bool" where
  "writes_work faults \<longleftrightarrow> 12 \<le> length (sf_random faults) \<and> sf_create faults \<and> sf_written faults = None \<and>
     sf_file_sync faults \<and> sf_rename faults \<and> sf_directory_sync faults"

lemma u32_plus_1: "unat (u :: u32) + 1 < 2 ^ 32 \<Longrightarrow> unat (u + 1) = unat u + 1"
  by (simp add: unat_word_ariths)

lemma scan_entries_works:
  assumes "list_all (\<lambda>n. sf_unlink faults n \<and> sf_scan_stat faults n) names" "distinct names"
    and "\<And>n. n \<in> set names \<Longrightarrow> n = ''.'' \<or> n = ''..'' \<or>
      (\<exists>bs. fs n = Some (Private_file bs)) \<and> (storage_temporary_name n \<or> storable_record n (fs n))"
    and "unat (su_files usage) + length (recorded names) < 2 ^ 32"
    and "unat (su_bytes usage) + sum_list (map (\<lambda>n. entry_size (fs n)) (recorded names)) < 2 ^ 64"
  shows "\<exists>usage' cleaned'. fst (scan_entries faults names usage cleaned fs) = Some (usage', cleaned')"
  using assms
proof (induction names arbitrary: usage cleaned fs)
  case Nil
  then show ?case by simp
next
  case (Cons name names)
  show ?case
  proof (cases "name = ''.'' \<or> name = ''..''")
    case True
    then have "recorded (name # names) = recorded names" by (auto simp: recorded_def)
    then show ?thesis using Cons.IH [of fs usage cleaned] Cons.prems True by simp
  next
    case named: False
    with Cons.prems(3) [of name] obtain bs where held: "fs name = Some (Private_file bs)"
      and kind: "storage_temporary_name name \<or> storable_record name (fs name)" by auto
    show ?thesis
    proof (cases "storage_temporary_name name")
      case True
      let ?fs = "fs(name := None)"
      have other: "n \<noteq> name" if "n \<in> set names" for n using Cons.prems(2) that by auto
      then have sizes: "map (\<lambda>n. entry_size (?fs n)) (recorded names) = map (\<lambda>n. entry_size (fs n)) (recorded names)"
        by (intro map_cong) (auto simp: recorded_def)
      have skip: "recorded (name # names) = recorded names" using True by (simp add: recorded_def)
      have "\<exists>usage' cleaned'. fst (scan_entries faults names usage True ?fs) = Some (usage', cleaned')"
      proof (rule Cons.IH)
        show "n = ''.'' \<or> n = ''..'' \<or> (\<exists>bs. ?fs n = Some (Private_file bs)) \<and>
            (storage_temporary_name n \<or> storable_record n (?fs n))" if "n \<in> set names" for n
          using Cons.prems(3) [of n] other [OF that] that by simp
        show "unat (su_bytes usage) + sum_list (map (\<lambda>n. entry_size (?fs n)) (recorded names)) < 2 ^ 64"
          using Cons.prems(5) unfolding sizes skip .
      qed (use Cons.prems skip in simp_all)
      then show ?thesis using named held True Cons.prems(1) by (simp add: unlink_entry_def)
    next
      case False
      with kind held have guard: "bs \<noteq> []" "valid_storage_record_name name" "length bs \<le> 65536"
        by (auto simp: storable_record_def)
      have size: "unat (word_of_nat (length bs) :: u64) = length bs"
        using guard(3) by (simp add: unat_of_nat take_bit_nat_eq_self)
      have head: "recorded (name # names) = name # recorded names" using named False by (simp add: recorded_def)
      have files: "unat (su_files usage) + 1 < 2 ^ 32" and bytes: "unat (su_bytes usage) + length bs < 2 ^ 64"
        using Cons.prems(4,5) head held by simp_all
      have files': "su_files usage \<noteq> - 1"
        using files by (auto simp: unsigned_minus_1_eq_mask mask_eq_exp_minus_1)
      have bytes': "su_bytes usage \<le> - 1 - word_of_nat (length bs)"
        using bytes guard(3) size by (simp add: word_le_nat_alt unat_sub unsigned_minus_1_eq_mask mask_eq_exp_minus_1)
      have sums: "unat (su_files usage + 1) = unat (su_files usage) + 1"
        "unat (su_bytes usage + word_of_nat (length bs)) = unat (su_bytes usage) + length bs"
        using files bytes size by (simp_all add: unat_word_ariths)
      have "\<exists>usage' cleaned'. fst (scan_entries faults names \<lparr>su_files = su_files usage + 1,
          su_bytes = su_bytes usage + word_of_nat (length bs)\<rparr> cleaned fs) = Some (usage', cleaned')"
        using Cons.prems head held sums by (intro Cons.IH) simp_all
      then show ?thesis
        using named held False guard files' bytes' Cons.prems(1)
        by (simp add: kMaximumStorageRecordSize_def not_less)
    qed
  qed
qed

lemma scan_storage_works:
  assumes "scans faults fs" "private_storage fs" "card (records fs) < 2 ^ 32" "used_bytes fs < 2 ^ 64"
  shows "\<exists>usage fs'. scan_storage faults fs = (Some usage, fs') \<and>
    unat (su_files usage) = card (records fs) \<and> unat (su_bytes usage) = used_bytes fs \<and>
    (\<forall>n. \<not> storage_temporary_name n \<longrightarrow> fs' n = fs n) \<and> (\<forall>n. storage_temporary_name n \<longrightarrow> fs' n = None)"
proof -
  have c: "complete_listing (sf_listing faults) fs" using assms(1) by (simp add: scans_def)
  note u = complete_usage [OF c]
  have held: "n = ''.'' \<or> n = ''..'' \<or> (\<exists>bs. fs n = Some (Private_file bs)) \<and>
      (storage_temporary_name n \<or> storable_record n (fs n))" if "n \<in> set (sf_listing faults)" for n
  proof (cases "n = ''.'' \<or> n = ''..''")
    case False
    then have "n \<in> dom fs" using c that unfolding complete_listing_def by blast
    then obtain e where "fs n = Some e" by blast
    then show ?thesis using assms(2) unfolding private_storage_def by auto
  qed auto
  let ?usage = "\<lparr>su_files = 0, su_bytes = 0\<rparr> :: storage_usage"
  have "\<exists>usage cleaned. fst (scan_entries faults (sf_listing faults) ?usage False fs) = Some (usage, cleaned)"
    using assms(1,3,4) c u held
    by (intro scan_entries_works) (simp_all add: scans_def complete_listing_def)
  then obtain usage cleaned fs' where
    "scan_entries faults (sf_listing faults) ?usage False fs = (Some (usage, cleaned), fs')" by (metis prod.collapse)
  then have s: "scan_storage faults fs = (Some usage, fs')" using assms(1) by (simp add: scan_storage_def scans_def)
  note scan = scan_storage_Some [OF s]
  have "fs' n = None" if "storage_temporary_name n" for n
    using c that by (auto simp: scan(1) complete_listing_def)
  then show ?thesis using s scan u by (intro exI [of _ usage] exI [of _ fs']) auto
qed

lemma replace_record_works:
  assumes "sf_create faults" "sf_written faults = None" "sf_file_sync faults" "sf_rename faults"
    "sf_directory_sync faults" "fs temporary = None"
  shows "replace_record faults temporary name data fs = (Storage_ok, fs(temporary := None, name \<mapsto> Private_file data))"
  using assms by (simp add: replace_record_def)

text \<open>The quota rule of a write, on the usage of the directory.\<close>

definition quota_allows :: "resource_limits \<Rightarrow> storage_directory \<Rightarrow> string \<Rightarrow> bytes \<Rightarrow> bool" where
  "quota_allows limits fs name data \<longleftrightarrow>
     quota_spec (card (records fs)) (used_bytes fs) (fs name \<noteq> None) (entry_size (fs name)) (length data)
       (unat (rl_maximum_files limits)) (quota_bytes limits)"

lemma quota_allows_within:
  assumes "quota_allows limits fs name data" "finite (records fs)" "\<not> storage_temporary_name name"
    "\<And>n. \<not> storage_temporary_name n \<Longrightarrow> fs' n = (fs(name \<mapsto> Private_file data)) n"
  shows "within_quota limits fs'"
proof -
  note u = usage_update(1,2) [OF assms(2,3), of data] usage_update(3) [OF assms(2,3)]
  have same: "records fs' = records (fs(name \<mapsto> Private_file data))"
    "used_bytes fs' = used_bytes (fs(name \<mapsto> Private_file data))"
    by (rule records_cong, rule assms(4), assumption, rule used_bytes_cong, rule assms(4), assumption)
  have "records fs' = insert name (records fs)" using same(1) u(1) by simp
  moreover have "used_bytes fs' = used_bytes fs - entry_size (fs name) + length data"
    using same(2) u(2) by simp
  moreover have "card (insert name (records fs)) = (if fs name \<noteq> None then card (records fs) else card (records fs) + 1)"
    using assms(2,3) by (auto simp: card_insert_if records_def)
  ultimately show ?thesis
    using assms(1,2) u(3) by (auto simp: within_quota_def quota_allows_def quota_spec_def split: if_splits)
qed

text \<open>Within the file limit, a scan counts without overflow.\<close>

definition countable_usage :: "storage_directory \<Rightarrow> bool" where
  "countable_usage fs \<longleftrightarrow> card (records fs) < 2 ^ 32 \<and> used_bytes fs < 2 ^ 64"

lemma within_quota_countable: "within_quota limits fs \<Longrightarrow> countable_usage fs"
proof -
  have "unat (rl_maximum_files limits) < 4294967296" "unat (rl_data_mib limits) < 4294967296"
    using unsigned_less [of "rl_maximum_files limits"] unsigned_less [of "rl_data_mib limits"] by simp_all
  then show "within_quota limits fs \<Longrightarrow> countable_usage fs"
    by (simp add: within_quota_def countable_usage_def quota_bytes_def)
qed

lemma write_storage_record_works:
  assumes "scans faults fs" "private_storage fs" "countable_usage fs" "storage_request_acceptable q"
    "sq_command q = Storage_write"
  obtains fs1 where "\<And>n. \<not> storage_temporary_name n \<Longrightarrow> fs1 n = fs n"
    "\<And>n. storage_temporary_name n \<Longrightarrow> fs1 n = None"
    "write_storage_record faults limits fs q =
       (if \<not> quota_allows limits fs (sq_record q) (sq_data q) then (Storage_quota_exceeded, fs1)
        else if length (sf_random faults) < 12 then (Storage_io_error, fs1)
        else replace_record faults (broker_temporary (take 12 (sf_random faults))) (sq_record q) (sq_data q) fs1)"
proof -
  obtain usage fs1 where scan: "scan_storage faults fs = (Some usage, fs1)"
    and u: "unat (su_files usage) = card (records fs)" "unat (su_bytes usage) = used_bytes fs"
    and same: "\<forall>n. \<not> storage_temporary_name n \<longrightarrow> fs1 n = fs n" "\<forall>n. storage_temporary_name n \<longrightarrow> fs1 n = None"
    using scan_storage_works [OF assms(1,2)] assms(3) by (auto simp: countable_usage_def)
  have name: "valid_storage_record_name (sq_record q)" "length (sq_data q) \<le> 65536"
    using assms(4,5) by (simp_all add: storage_request_acceptable_def)
  have "\<not> storage_temporary_name (sq_record q)" using name(1) by auto
  then have r: "fs1 (sq_record q) = fs (sq_record q)" using same(1) by simp
  have new: "unat (word_of_nat (length (sq_data q)) :: u64) = length (sq_data q)"
    using name(2) by (simp add: unat_of_nat take_bit_nat_eq_self)
  consider (absent) "fs (sq_record q) = None" | (present) bs where "fs (sq_record q) = Some (Private_file bs)"
      "bs \<noteq> []" "length bs \<le> 65536"
  proof (cases "fs (sq_record q)")
    case (Some e)
    with assms(2) \<open>\<not> storage_temporary_name (sq_record q)\<close> show thesis
      using that(2) by (fastforce simp: private_storage_def storable_record_def)
  qed (use that in simp)
  then have "write_storage_record faults limits fs q =
       (if \<not> quota_allows limits fs (sq_record q) (sq_data q) then (Storage_quota_exceeded, fs1)
        else if length (sf_random faults) < 12 then (Storage_io_error, fs1)
        else replace_record faults (broker_temporary (take 12 (sf_random faults))) (sq_record q) (sq_data q) fs1)"
  proof cases
    case absent
    then show ?thesis
      using assms(1) by (simp add: write_storage_record_def scan r scans_def storage_write_within_quota_spec u new
          unat_storage_quota quota_allows_def)
  next
    case present
    have "unat (word_of_nat (length bs) :: u64) = length bs"
      using present(3) by (simp add: unat_of_nat take_bit_nat_eq_self)
    with present show ?thesis
      using assms(1) by (simp add: write_storage_record_def scan r scans_def storage_write_within_quota_spec u new
          unat_storage_quota quota_allows_def)
  qed
  with same show thesis by (intro that) simp_all
qed

section \<open>The client on the broker\<close>

text \<open>
  The channel between a client and the broker: the broker on a directory, whose system calls
  behave as \<open>env\<close> says for the directory a request finds.
\<close>

definition broker_peer ::
    "(storage_directory \<Rightarrow> storage_faults) \<Rightarrow> resource_limits \<Rightarrow> storage_directory \<Rightarrow> bytes
       \<Rightarrow> bytes option \<times> storage_directory" where
  "broker_peer env limits fs packet = handle_storage_request (env fs) limits fs packet"

lemma handle_acceptable:
  assumes "storage_request_acceptable q" "storage_reply faults limits fs q = (response, fs')"
  shows "handle_storage_request faults limits fs (encode_storage_request q) =
    (Some (encode_storage_response response), fs')"
    "decode_storage_response (encode_storage_response response) = Some response"
    "encode_storage_request q \<noteq> []" "length (encode_storage_response response) \<le> kMaximumStoragePacketSize"
proof -
  have q: "decode_storage_request (encode_storage_request q) = Some q"
    by (rule storage_request_codec.decode_encode [OF assms(1)])
  have p: "decode_storage_response (encode_storage_response response) = Some response"
    by (rule storage_response_codec.decode_encode [OF storage_reply_acceptable(1) [OF assms]])
  have size: "96 \<le> length bs \<and> length bs \<le> kMaximumStoragePacketSize" if "decode_storage_header bs = Some h" for bs h
    using that by (auto simp: decode_storage_header_def kStorageHeaderSize_def not_less split: if_splits)
  have "\<exists>h. decode_storage_header (encode_storage_request q) = Some h"
    using q by (auto simp: decode_storage_request_def split: option.splits)
  then have q': "96 \<le> length (encode_storage_request q)" "length (encode_storage_request q) \<le> kMaximumStoragePacketSize"
    using size by blast+
  have "\<exists>h. decode_storage_header (encode_storage_response response) = Some h"
    using p by (auto simp: decode_storage_response_def split: option.splits)
  then have p': "96 \<le> length (encode_storage_response response)"
      "length (encode_storage_response response) \<le> kMaximumStoragePacketSize"
    using size by blast+
  show "decode_storage_response (encode_storage_response response) = Some response" by (rule p)
  show "length (encode_storage_response response) \<le> kMaximumStoragePacketSize" by (rule p'(2))
  show "encode_storage_request q \<noteq> []" using q'(1) by auto
  moreover have "encode_storage_response response \<noteq> []" using p'(1) by auto
  ultimately show "handle_storage_request faults limits fs (encode_storage_request q) =
    (Some (encode_storage_response response), fs')"
    using q q'(2) assms(2) by (simp add: handle_storage_request_def not_less)
qed

lemma exchange_broker:
  assumes "storage_request_acceptable q" "storage_reply (env fs) limits fs q = (response, fs')"
  shows "exchange (broker_peer env limits) fs q = (Some response, fs')"
  using handle_acceptable [OF assms] storage_reply_acceptable [OF assms]
  by (simp add: exchange_def broker_peer_def)

lemma request_keeps_private:
  assumes "private_storage fs" "storage_request_acceptable q" "\<And>n. entry_change q n (fs n) (fs' n)"
  shows "private_storage fs'"
  unfolding private_storage_def
proof (intro allI impI)
  fix n e assume e: "fs' n = Some e"
  have "sq_command q = Storage_write \<Longrightarrow> storable_record (sq_record q) (Some (Private_file (sq_data q)))"
    using assms(2) by (simp add: storage_request_acceptable_def storable_record_def)
  with assms(1) [unfolded private_storage_def] assms(3) [of n] e
  show "(\<exists>bs. e = Private_file bs) \<and> (storage_temporary_name n \<or> storable_record n (Some e))"
    unfolding entry_change_def by fastforce
qed

text \<open>
  A scan whose calls work and whose listing, complete or not, lists each entry at most once and
  nothing that is not there; what it lists is within the limits.
\<close>

definition sound_scan :: "storage_faults \<Rightarrow> resource_limits \<Rightarrow> storage_directory \<Rightarrow> bool" where
  "sound_scan faults limits fs \<longleftrightarrow> sf_directory_opens faults \<and> sf_clean_sync faults \<and> sf_stat faults \<and>
     list_all (\<lambda>n. sf_unlink faults n \<and> sf_scan_stat faults n) (sf_listing faults) \<and>
     distinct (sf_listing faults) \<and> list_all (\<lambda>n. n = ''.'' \<or> n = ''..'' \<or> fs n \<noteq> None) (sf_listing faults) \<and>
     length (recorded (sf_listing faults)) \<le> unat (rl_maximum_files limits) \<and>
     sum_list (map (\<lambda>n. entry_size (fs n)) (recorded (sf_listing faults))) \<le> quota_bytes limits"

text \<open>The complete scan of a directory within its quota is one, and so is a scan that lists nothing.\<close>

lemma complete_scan_sound: "scans faults fs \<Longrightarrow> within_quota limits fs \<Longrightarrow> sound_scan faults limits fs"
  using complete_usage [of "sf_listing faults" fs]
  by (auto simp: sound_scan_def scans_def within_quota_def complete_listing_def list_all_iff)

lemma exhausted_scan_sound:
  "sf_listing faults = [] \<Longrightarrow> sf_directory_opens faults \<Longrightarrow> sf_clean_sync faults \<Longrightarrow> sf_stat faults \<Longrightarrow> sound_scan faults limits fs"
  by (simp add: sound_scan_def recorded_def)

lemma sound_scan_usage:
  assumes "sound_scan faults limits fs" "private_storage fs"
  obtains usage fs' where "scan_storage faults fs = (Some usage, fs')"
    "\<not> rl_maximum_files limits < su_files usage" "\<not> storage_quota limits < su_bytes usage"
    "\<And>n. \<not> storage_temporary_name n \<Longrightarrow> fs' n = fs n"
proof -
  note s = assms(1) [unfolded sound_scan_def]
  have held: "n = ''.'' \<or> n = ''..'' \<or> (\<exists>bs. fs n = Some (Private_file bs)) \<and>
      (storage_temporary_name n \<or> storable_record n (fs n))" if "n \<in> set (sf_listing faults)" for n
    using s that assms(2) by (fastforce simp: list_all_iff private_storage_def)
  have limit: "unat (rl_maximum_files limits) < 4294967296" "unat (rl_data_mib limits) < 4294967296"
    using unsigned_less [of "rl_maximum_files limits"] unsigned_less [of "rl_data_mib limits"] by simp_all
  let ?usage = "\<lparr>su_files = 0, su_bytes = 0\<rparr> :: storage_usage"
  have "\<exists>usage cleaned. fst (scan_entries faults (sf_listing faults) ?usage False fs) = Some (usage, cleaned)"
    by (rule scan_entries_works) (use s held limit in \<open>simp_all add: quota_bytes_def\<close>)
  then obtain usage cleaned fs' where
    "scan_entries faults (sf_listing faults) ?usage False fs = (Some (usage, cleaned), fs')" by (metis prod.collapse)
  then have scan: "scan_storage faults fs = (Some usage, fs')" using s by (simp add: scan_storage_def)
  note u = scan_storage_Some [OF scan]
  show thesis
    by (rule that [OF scan]) (use s u in \<open>simp_all add: word_less_nat_alt unat_storage_quota\<close>)
qed

definition usable_storage :: "storage_client \<times> storage_directory \<Rightarrow> bool" where
  "usable_storage cp \<longleftrightarrow> sc_connected (fst cp) \<and> sc_next_request_id (fst cp) \<noteq> 0 \<and>
     sc_next_request_id (fst cp) + 1 \<noteq> 0 \<and> private_storage (snd cp)"

definition readable_storage ::
    "(storage_directory \<Rightarrow> storage_faults) \<Rightarrow> resource_limits \<Rightarrow> storage_client \<times> storage_directory \<Rightarrow> bool" where
  "readable_storage env limits cp \<longleftrightarrow> sound_scan (env (snd cp)) limits (snd cp) \<and> reads_work (env (snd cp))"

lemma acknowledged_write:
  assumes "write_storage_record faults limits fs q = (Storage_ok, fs')"
  shows "fs' (sq_record q) = Some (Private_file (sq_data q))"
  using assms by (auto simp: write_storage_record_def Let_def dest!: replace_record_ok
      split: prod.splits option.splits storage_entry.splits if_splits)

lemma client_write_True:
  assumes u: "usable_storage (c, fs)"
    and w: "client_write_atomic (broker_peer env limits) (c, fs) record data maximum = (True, s')"
  obtains fs' where "s' = (c\<lparr>sc_next_request_id := sc_next_request_id c + 1\<rparr>, fs')" "private_storage fs'"
    "fs' record = Some (Private_file data)"
    "length data \<le> maximum" "maximum \<le> 65536" "valid_storage_record_name record"
proof -
  note u' = u [unfolded usable_storage_def, simplified]
  have g: "data \<noteq> []" "length data \<le> maximum" "maximum \<le> 65536" "valid_storage_record_name record"
    using w by (auto simp: client_write_atomic_def kMaximumStorageRecordSize_def not_less split: if_splits)
  define q where "q = \<lparr>sq_command = Storage_write, sq_request_id = sc_next_request_id c, sq_record = record,
    sq_maximum_size = word_of_nat maximum, sq_data = data\<rparr>"
  have "unat (word_of_nat maximum :: u32) = maximum" using g(3) by (simp add: unat_of_nat take_bit_nat_eq_self)
  moreover have "0 < maximum" using g(1,2) by (cases data) simp_all
  ultimately have max: "unat (word_of_nat maximum :: u32) = maximum" "(word_of_nat maximum :: u32) \<noteq> 0"
    by (auto simp: unat_eq_0 [symmetric])
  then have q: "storage_request_acceptable q" using g u' by (simp add: q_def storage_request_acceptable_def)
  have q_fields: "sq_command q = Storage_write" "sq_record q = record" "sq_data q = data" by (simp_all add: q_def)
  obtain status fs' where r: "write_storage_record (env fs) limits fs q = (status, fs')" by fastforce
  have "storage_reply (env fs) limits fs q = (\<lparr>sp_command = Storage_write, sp_status = status,
      sp_request_id = sq_request_id q, sp_data = []\<rparr>, fs')"
    using r by (simp add: storage_reply_def q_fields)
  from exchange_broker [where env = env and fs = fs, OF q this] w g u'
  have status: "status = Storage_ok" and s': "s' = (c\<lparr>sc_next_request_id := sc_next_request_id c + 1\<rparr>, fs')"
    by (auto simp: client_write_atomic_def q_def [symmetric] kMaximumStorageRecordSize_def Let_def split: if_splits)
  have "private_storage fs'"
    by (rule request_keeps_private [where fs = fs and fs' = fs' and q = q])
      (use u' q r write_storage_record_change [OF q_fields(1), of _ fs "env fs" limits] in auto)
  moreover have "fs' record = Some (Private_file data)"
    using acknowledged_write r status by (metis q_fields(2,3))
  ultimately show thesis using g s' by (intro that [of fs']) simp_all
qed

lemma client_read_Some:
  assumes "sound_scan (env fs) limits fs" "reads_work (env fs)" "private_storage fs"
    "fs record = Some (Private_file data)" "length data \<le> maximum" "maximum \<le> 65536"
    "valid_storage_record_name record" "sc_connected c" "sc_next_request_id c \<noteq> 0"
  shows "fst (client_read (broker_peer env limits) (c, fs) record maximum) = Some data"
proof -
  have temporary: "\<not> storage_temporary_name record" using assms(7) by auto
  then have data: "data \<noteq> []"
    using assms(3,4) by (auto simp: private_storage_def storable_record_def)
  define q where "q = \<lparr>sq_command = Storage_read, sq_request_id = sc_next_request_id c, sq_record = record,
    sq_maximum_size = word_of_nat maximum, sq_data = []\<rparr>"
  have max: "unat (word_of_nat maximum :: u32) = maximum" "0 < maximum"
    using assms(5,6) data by (simp_all add: unat_of_nat take_bit_nat_eq_self) (cases data; simp)
  then have q: "storage_request_acceptable q"
    using assms(6,7,9) by (auto simp: q_def storage_request_acceptable_def unat_eq_0 [symmetric])
  obtain usage fs' where scan: "scan_storage (env fs) fs = (Some usage, fs')"
    and limits: "\<not> rl_maximum_files limits < su_files usage" "\<not> storage_quota limits < su_bytes usage"
    and same: "\<And>n. \<not> storage_temporary_name n \<Longrightarrow> fs' n = fs n"
    by (rule sound_scan_usage [OF assms(1,3)]) blast
  have "read_storage_record (env fs) fs' q = (Storage_ok, data)"
    using assms(1,2,4,5) same temporary data max by (simp add: read_storage_record_def q_def sound_scan_def reads_work_def)
  then have "storage_reply (env fs) limits fs q = (\<lparr>sp_command = Storage_read, sp_status = Storage_ok,
      sp_request_id = sq_request_id q, sp_data = data\<rparr>, fs')"
    using scan limits by (simp add: storage_reply_def q_def)
  from exchange_broker [where env = env and fs = fs, OF q this] show ?thesis
    using assms(5-9) data max
    by (simp add: client_read_def q_def [symmetric] kMaximumStorageRecordSize_def Let_def)
qed

lemma write_reply_works:
  assumes "scans faults fs" "writes_work faults" "private_storage fs" "countable_usage fs"
    and "storage_request_acceptable q" "sq_command q = Storage_write"
    and "storage_reply faults limits fs q = (response, fs')"
  shows "if quota_allows limits fs (sq_record q) (sq_data q)
    then sp_status response = Storage_ok \<and> within_quota limits fs' else sp_status response = Storage_quota_exceeded"
proof -
  obtain fs1 where same: "\<And>n. \<not> storage_temporary_name n \<Longrightarrow> fs1 n = fs n" "\<And>n. storage_temporary_name n \<Longrightarrow> fs1 n = None"
    and eq: "write_storage_record faults limits fs q =
       (if \<not> quota_allows limits fs (sq_record q) (sq_data q) then (Storage_quota_exceeded, fs1)
        else if length (sf_random faults) < 12 then (Storage_io_error, fs1)
        else replace_record faults (broker_temporary (take 12 (sf_random faults))) (sq_record q) (sq_data q) fs1)"
    using write_storage_record_works [OF assms(1,3,4,5,6)] by metis
  define temporary where "temporary = broker_temporary (take 12 (sf_random faults))"
  have w: "12 \<le> length (sf_random faults)" "storage_temporary_name temporary" "\<not> storage_temporary_name (sq_record q)"
    using assms(2,5) by (auto simp: writes_work_def temporary_def storage_request_acceptable_def)
  have replaced: "replace_record faults temporary (sq_record q) (sq_data q) fs1 =
      (Storage_ok, fs1(temporary := None, sq_record q \<mapsto> Private_file (sq_data q)))"
    using assms(2) same(2) [OF w(2)] by (intro replace_record_works) (simp_all add: writes_work_def)
  have finite: "finite (records fs)" using assms(1) complete_usage(3) by (auto simp: scans_def)
  have changed: "(fs1(temporary := None, sq_record q \<mapsto> Private_file (sq_data q))) n =
      (fs(sq_record q \<mapsto> Private_file (sq_data q))) n" if "\<not> storage_temporary_name n" for n
    using that w(2) same(1) [of n] by auto
  define fs2 where "fs2 = fs1(temporary := None, sq_record q \<mapsto> Private_file (sq_data q))"
  show ?thesis
  proof (cases "quota_allows limits fs (sq_record q) (sq_data q)")
    case True
    then have "within_quota limits fs2"
      by (rule quota_allows_within [where fs' = fs2, OF _ finite w(3)]) (unfold fs2_def, rule changed)
    moreover have "write_storage_record faults limits fs q = (Storage_ok, fs2)"
      using True eq w(1) replaced by (simp add: temporary_def fs2_def)
    ultimately show ?thesis using True assms(7) by (auto simp: storage_reply_def assms(6))
  next
    case False
    then show ?thesis using eq assms(7) by (auto simp: storage_reply_def assms(6))
  qed
qed

interpretation broker_store: record_store "client_write_atomic (broker_peer env limits)"
    "client_read (broker_peer later limits)" usable_storage "readable_storage later limits" for env later limits
proof
  fix s nm data maximum s'
  assume u: "usable_storage s" and w: "client_write_atomic (broker_peer env limits) s nm data maximum = (True, s')"
    and read: "readable_storage later limits s'"
  obtain c fs where s: "s = (c, fs)" by fastforce
  obtain fs' where f: "s' = (c\<lparr>sc_next_request_id := sc_next_request_id c + 1\<rparr>, fs')" "private_storage fs'"
    "fs' nm = Some (Private_file data)" "length data \<le> maximum" "maximum \<le> 65536" "valid_storage_record_name nm"
    using client_write_True u w unfolding s by blast
  show "fst (client_read (broker_peer later limits) s' nm maximum) = Some data"
    unfolding f(1) using u read f by (intro client_read_Some) (simp_all add: usable_storage_def readable_storage_def s)
qed

section \<open>The broker as a machine\<close>

definition storage_step ::
    "resource_limits \<Rightarrow> storage_directory \<Rightarrow> storage_faults \<times> bytes \<Rightarrow> storage_directory" where
  "storage_step limits fs request = snd (handle_storage_request (fst request) limits fs (snd request))"

lemma storage_step_private: "private_storage fs \<Longrightarrow> private_storage (storage_step limits fs request)"
proof (cases "decode_storage_request (snd request)")
  case (Some q)
  assume "private_storage fs"
  then have "private_storage (snd (storage_reply (fst request) limits fs q))"
    by (rule request_keeps_private [where fs = fs and q = q])
      (rule storage_request_codec.decode_acceptable [OF Some] storage_reply_change)+
  moreover obtain response fs' where "storage_reply (fst request) limits fs q = (response, fs')" by fastforce
  ultimately show ?thesis using Some \<open>private_storage fs\<close>
    by (simp add: storage_step_def handle_storage_request_def Let_def)
qed (simp add: storage_step_def handle_storage_request_def)

interpretation storage_machine: machine "storage_step limits" private_storage for limits
  by unfold_locales (rule storage_step_private)

section \<open>A sample directory and kernel\<close>

definition sample_kernel :: "storage_directory \<Rightarrow> storage_faults" where
  "sample_kernel fs = \<lparr>sf_listing = sorted_list_of_set (dom fs), sf_directory_opens = True, sf_unlink = (\<lambda>_. True),
     sf_scan_stat = (\<lambda>_. True), sf_clean_sync = True, sf_stat = True, sf_random = replicate 12 7,
     sf_create = True, sf_written = None, sf_file_sync = True, sf_rename = True, sf_directory_sync = True,
     sf_open = True, sf_read = True, sf_at_end = True\<rparr>"

definition sample_limits :: resource_limits where
  "sample_limits = \<lparr>rl_memory_mib = 64, rl_cpu_seconds = 60, rl_maximum_files = 4, rl_data_mib = 1\<rparr>"

lemma sample_kernel_scans: "finite (dom fs) \<Longrightarrow> private_storage fs \<Longrightarrow> scans (sample_kernel fs) fs"
proof -
  have "complete_listing (sorted_list_of_set (dom fs)) fs" if "finite (dom fs)" "private_storage fs" for fs :: storage_directory
  proof -
    have "n \<noteq> ''.'' \<and> n \<noteq> ''..''" if "n \<in> dom fs" for n
    proof -
      from \<open>n \<in> dom fs\<close> obtain e where "fs n = Some e" by blast
      with \<open>private_storage fs\<close> have "storage_temporary_name n \<or> valid_storage_record_name n"
        by (auto simp: private_storage_def storable_record_def)
      then show ?thesis using temporary_shape(1) [of n] by auto
    qed
    then show ?thesis using that by (auto simp: complete_listing_def)
  qed
  then show "finite (dom fs) \<Longrightarrow> private_storage fs \<Longrightarrow> scans (sample_kernel fs) fs"
    by (simp add: scans_def sample_kernel_def list_all_iff)
qed

lemma empty_storage [simp]: "private_storage Map.empty" "records Map.empty = {}" "used_bytes Map.empty = 0"
  "countable_usage Map.empty"
  by (simp_all add: private_storage_def records_def used_bytes_def countable_usage_def)

lemma usable_sample: "usable_storage (new_storage_client True, Map.empty)"
  by (simp add: usable_storage_def new_storage_client_def)

section \<open>Properties\<close>

text \<open>C10. Whatever packets an application sends and whatever fails, its storage directory holds nothing but
  files of the broker: records with a valid name and 1 to 65536 bytes, and temporary files, which
  carry names no record can have.\<close>

theorem broker_storage_private:
  "private_storage (foldl (storage_step limits) Map.empty requests)"
  by (rule storage_machine.run_inv) simp

text \<open>C9. Every well-formed request is answered, under all faults, by one packet that decodes to a response
  of its command and id. A record is changed only by a write to it, and then holds its old contents
  or exactly the new ones; an acknowledged write has taken effect, and an acknowledged read returns
  the record.\<close>

theorem storage_request_answered:
  assumes "storage_request_acceptable q"
  shows "case handle_storage_request faults limits fs (encode_storage_request q) of (reply, fs') \<Rightarrow>
    \<exists>response. reply = Some (encode_storage_response response) \<and>
      decode_storage_response (encode_storage_response response) = Some response \<and>
      sp_command response = sq_command q \<and> sp_request_id response = sq_request_id q \<and>
      (\<forall>n. storage_temporary_name n \<or> fs' n = fs n \<or>
         sq_command q = Storage_write \<and> n = sq_record q \<and> fs' n = Some (Private_file (sq_data q))) \<and>
      (sp_status response = Storage_ok \<longrightarrow>
         (if sq_command q = Storage_write then fs' (sq_record q) = Some (Private_file (sq_data q))
          else fs (sq_record q) = Some (Private_file (sp_data response))))"
proof -
  obtain response fs' where r: "storage_reply faults limits fs q = (response, fs')" by fastforce
  note h = handle_acceptable [OF assms r] and a = storage_reply_acceptable [OF assms r]
  have change: "entry_change q n (fs n) (fs' n)" for n using storage_reply_change [of q n fs faults limits] r by simp
  have name: "\<not> storage_temporary_name (sq_record q)"
    using assms by (auto simp: storage_request_acceptable_def)
  have effect: "if sq_command q = Storage_write then fs' (sq_record q) = Some (Private_file (sq_data q))
      else fs (sq_record q) = Some (Private_file (sp_data response))" if ok: "sp_status response = Storage_ok"
  proof (cases "sq_command q")
    case Storage_write
    with r ok have "write_storage_record faults limits fs q = (Storage_ok, fs')"
      by (auto simp: storage_reply_def split: prod.splits)
    then have "fs' (sq_record q) = Some (Private_file (sq_data q))" by (rule acknowledged_write)
    with Storage_write show ?thesis by simp
  next
    case Storage_read
    obtain usage fs1 where scan: "scan_storage faults fs = (usage, fs1)" by fastforce
    then have "fs1 (sq_record q) = fs (sq_record q)"
      using scan_storage_change [of q "sq_record q" fs faults] name Storage_read by (auto simp: entry_change_def)
    moreover have "fs1 (sq_record q) = Some (Private_file (sp_data response))"
      using r ok Storage_read scan read_storage_record_status(2) [of faults fs1 q]
      by (auto simp: storage_reply_def Let_def split: prod.splits option.splits if_splits)
    ultimately show ?thesis using Storage_read by simp
  qed (use assms in \<open>simp add: storage_request_acceptable_def\<close>)
  have changes: "storage_temporary_name n \<or> fs' n = fs n \<or>
      sq_command q = Storage_write \<and> n = sq_record q \<and> fs' n = Some (Private_file (sq_data q))" for n
    using change [of n] by (auto simp: entry_change_def)
  show ?thesis unfolding h(1) prod.case
    by (intro exI [of _ response] conjI allI impI refl h(2) a(2,3) changes effect)
qed

lemma storage_request_answered_witness:
  "case handle_storage_request (sample_kernel Map.empty) sample_limits Map.empty (encode_storage_request
       \<lparr>sq_command = Storage_read, sq_request_id = 1, sq_record = ''a'', sq_maximum_size = 4, sq_data = []\<rparr>) of
     (reply, fs') \<Rightarrow> reply \<noteq> None"
proof -
  define q where "q = \<lparr>sq_command = Storage_read, sq_request_id = 1, sq_record = ''a'', sq_maximum_size = 4, sq_data = []\<rparr>"
  have "valid_storage_record_name ''a''" by code_simp
  then have "storage_request_acceptable q" by (simp add: q_def storage_request_acceptable_def)
  note answered = storage_request_answered [OF this, where faults = "sample_kernel Map.empty" and limits = sample_limits and fs = Map.empty]
  obtain reply fs' where h: "handle_storage_request (sample_kernel Map.empty) sample_limits Map.empty
      (encode_storage_request q) = (reply, fs')" by fastforce
  show ?thesis using answered unfolding q_def [symmetric] h prod.case by auto
qed

text \<open>C11. When the scan sees the whole directory and the system calls work, a write is acknowledged exactly
  if the quota rule allows it for the files and bytes really in use, and is refused as
  quota_exceeded otherwise; after an acknowledged write the directory is within the quota.\<close>

theorem storage_quota_enforced:
  assumes "scans faults fs" "writes_work faults" "private_storage fs" "countable_usage fs"
    and "storage_request_acceptable q" "sq_command q = Storage_write"
    and "storage_reply faults limits fs q = (response, fs')"
  shows "if quota_allows limits fs (sq_record q) (sq_data q)
    then sp_status response = Storage_ok \<and> within_quota limits fs' else sp_status response = Storage_quota_exceeded"
  by (rule write_reply_works [OF assms])

lemma storage_quota_enforced_witness:
  "sp_status (fst (storage_reply (sample_kernel Map.empty) sample_limits Map.empty
     \<lparr>sq_command = Storage_write, sq_request_id = 1, sq_record = ''a'', sq_maximum_size = 4, sq_data = [1, 2]\<rparr>)) = Storage_ok"
proof -
  let ?q = "\<lparr>sq_command = Storage_write, sq_request_id = 1, sq_record = ''a'', sq_maximum_size = 4, sq_data = [1, 2]\<rparr>"
  obtain response fs' where r: "storage_reply (sample_kernel Map.empty) sample_limits Map.empty ?q = (response, fs')"
    by fastforce
  have name: "valid_storage_record_name ''a''" by code_simp
  have "scans (sample_kernel Map.empty) Map.empty"
    by (simp add: sample_kernel_scans)
  from storage_quota_enforced [OF this _ _ _ _ _ r]
  have "if quota_allows sample_limits Map.empty ''a'' [1, 2] then sp_status response = Storage_ok \<and> within_quota sample_limits fs'
      else sp_status response = Storage_quota_exceeded"
    by (simp add: writes_work_def sample_kernel_def storage_request_acceptable_def name)
  then show ?thesis using r
    by (simp add: quota_allows_def quota_spec_def sample_limits_def quota_bytes_def)
qed

text \<open>C40. A scan that sees no entries, as every scan after the first does when the descriptors of the
  scans share one directory offset, breaks the quota both ways: replacing a record is always refused
  as quota_exceeded, and a new record is accepted however full the directory is.\<close>

theorem exhausted_listing_breaks_quota:
  assumes "sf_listing faults = []" "sf_directory_opens faults" "sf_stat faults" "writes_work faults"
    and "private_storage fs" "fs (broker_temporary (take 12 (sf_random faults))) = None"
    and "storage_request_acceptable q" "sq_command q = Storage_write"
    and "0 < unat (rl_maximum_files limits)" "length (sq_data q) \<le> quota_bytes limits"
  shows "fst (write_storage_record faults limits fs q) =
    (if fs (sq_record q) \<noteq> None then Storage_quota_exceeded else Storage_ok)"
proof -
  have scan: "scan_storage faults fs = (Some \<lparr>su_files = 0, su_bytes = 0\<rparr>, fs)"
    using assms(1,2) by (simp add: scan_storage_def)
  have q: "\<not> storage_temporary_name (sq_record q)" "sq_data q \<noteq> []" "length (sq_data q) \<le> 65536"
    using assms(7,8) by (auto simp: storage_request_acceptable_def)
  have new: "unat (word_of_nat (length (sq_data q)) :: u64) = length (sq_data q)"
    using q(3) by (simp add: unat_of_nat take_bit_nat_eq_self)
  show ?thesis
  proof (cases "fs (sq_record q)")
    case None
    have "storage_write_within_quota 0 0 False 0 (word_of_nat (length (sq_data q))) (rl_maximum_files limits) (storage_quota limits)"
      using q assms(9,10) by (simp add: storage_write_within_quota_spec quota_spec_def new unat_storage_quota Suc_le_eq)
    with None show ?thesis
      using scan assms(3,4,6) by (simp add: write_storage_record_def writes_work_def replace_record_works)
  next
    case (Some e)
    then obtain bs where "e = Private_file bs" "bs \<noteq> []"
      using assms(5) q(1) by (auto simp: private_storage_def storable_record_def)
    with Some show ?thesis
      using scan assms(3) by (simp add: write_storage_record_def storage_write_within_quota_def)
  qed
qed

lemma exhausted_listing_breaks_quota_witness:
  "fst (write_storage_record (sample_kernel Map.empty) sample_limits [''a'' \<mapsto> Private_file [1]]
     \<lparr>sq_command = Storage_write, sq_request_id = 1, sq_record = ''a'', sq_maximum_size = 4, sq_data = [1, 2]\<rparr>) =
   Storage_quota_exceeded"
proof -
  let ?q = "\<lparr>sq_command = Storage_write, sq_request_id = 1, sq_record = ''a'', sq_maximum_size = 4, sq_data = [1, 2]\<rparr>"
  let ?fs = "[''a'' \<mapsto> Private_file [1]] :: storage_directory"
  have name: "valid_storage_record_name ''a''" by code_simp
  then have a: "\<not> storage_temporary_name ''a''" by auto
  have "storage_temporary_name (broker_temporary (take 12 (sf_random (sample_kernel Map.empty))))"
    by (simp add: sample_kernel_def)
  then have free: "?fs (broker_temporary (take 12 (sf_random (sample_kernel Map.empty)))) = None"
    using a by (metis fun_upd_apply)
  have "fst (write_storage_record (sample_kernel Map.empty) sample_limits ?fs ?q) =
      (if ?fs (sq_record ?q) \<noteq> None then Storage_quota_exceeded else Storage_ok)"
    by (rule exhausted_listing_breaks_quota [where fs = ?fs, OF _ _ _ _ _ free])
      (simp_all add: sample_kernel_def writes_work_def private_storage_def storable_record_def name
        storage_request_acceptable_def sample_limits_def quota_bytes_def)
  then show ?thesis by simp
qed

text \<open>C12. A game whose save is acknowledged, whatever happened to the system calls of the save, is the game
  the next load gives, into any game: it survives the encoding, both packet formats, the quota and the
  atomic replacement. The load needs its calls to work; its scan may see any part of the directory,
  complete or, as after an earlier scan of the same directory, nothing at all, as long as what it lists
  is within the limits.\<close>

theorem saved_game_restored:
  assumes "usable_storage s" and "game_inv g"
    and "save_game_state (client_write_atomic (broker_peer env limits) s) g = (True, s')"
    and "readable_storage later limits s'"
  shows "load_game_state (\<lambda>record maximum. fst (client_read (broker_peer later limits) s' record maximum)) h = (True, g)"
  by (rule broker_store.saved_game_loads [OF assms])

lemma saved_game_restored_witness:
  "\<exists>s'. save_game_state (client_write_atomic (broker_peer sample_kernel sample_limits)
       (new_storage_client True, Map.empty)) sample_game = (True, s') \<and>
     load_game_state (\<lambda>record maximum. fst (client_read
       (broker_peer (\<lambda>fs. (sample_kernel fs)\<lparr>sf_listing := []\<rparr>) sample_limits) s' record maximum))
       (new_game 1) = (True, sample_game)"
proof -
  have g: "game_inv sample_game" by code_simp
  have typed: "game_state_typed (persistent_state sample_game)" by code_simp
  define data where "data = encode_game_state (persistent_state sample_game)"
  have data: "length data = 128" unfolding data_def by (rule length_encode_game_state [OF typed])
  have name: "valid_storage_record_name kGameRecord" by code_simp
  let ?q = "\<lparr>sq_command = Storage_write, sq_request_id = 1, sq_record = kGameRecord, sq_maximum_size = word_of_nat 128, sq_data = data\<rparr>"
  obtain response fs' where r: "storage_reply (sample_kernel Map.empty) sample_limits Map.empty ?q = (response, fs')"
    by fastforce
  have q: "storage_request_acceptable ?q"
    using data name by (auto simp: storage_request_acceptable_def)
  have "scans (sample_kernel Map.empty) Map.empty"
    by (simp add: sample_kernel_scans)
  from write_reply_works [OF this _ _ _ q _ r] have "sp_status response = Storage_ok"
    using data by (simp add: writes_work_def sample_kernel_def quota_allows_def quota_spec_def sample_limits_def quota_bytes_def)
  moreover have "sp_data response = []" using r by (auto simp: storage_reply_def split: prod.splits)
  ultimately have "client_write_atomic (broker_peer sample_kernel sample_limits) (new_storage_client True, Map.empty)
      kGameRecord data 128 = (True, (\<lparr>sc_connected = True, sc_next_request_id = 2\<rparr>, fs'))"
    using data name exchange_broker [where env = sample_kernel, OF q r]
    by (auto simp: client_write_atomic_def new_storage_client_def kMaximumStorageRecordSize_def Let_def)
  then have saved: "save_game_state (client_write_atomic (broker_peer sample_kernel sample_limits)
      (new_storage_client True, Map.empty)) sample_game = (True, (\<lparr>sc_connected = True, sc_next_request_id = 2\<rparr>, fs'))"
    by (simp add: save_game_state_def data_def kGameStateWireSize_def)
  have "readable_storage (\<lambda>fs. (sample_kernel fs)\<lparr>sf_listing := []\<rparr>) sample_limits s" for s
    by (simp add: readable_storage_def exhausted_scan_sound reads_work_def sample_kernel_def)
  from saved_game_restored [OF usable_sample g saved this] saved show ?thesis by blast
qed

end
