(* ===== verification/Session_Profile.thy ===== *)
theory Session_Profile
  imports Package_Verifier
begin

text \<open>
  The device profile of a session (\<open>platform/src/session/session_profile.cpp\<close>): \<open>profile.env\<close>, a
  file of the signed platform package with a closed set of \<open>KEY=value\<close> lines; and the status
  document the daemon publishes (\<open>platform/src/session/session_status.cpp\<close>). The signed fields of
  the profile are mathematical integers: their ranges, which the parser enforces, are far inside
  32 bits.
\<close>

section \<open>Data\<close>

record session_profile =
  sp_profile_id :: string
  sp_machine :: string
  sp_drm_device :: string
  sp_pixel_format :: string
  sp_logical_width :: int
  sp_logical_height :: int
  sp_connector_id :: nat
  sp_crtc_id :: nat
  sp_overlay_plane_id :: nat
  sp_overlay_zpos :: int
  sp_display_x :: int
  sp_display_y :: int
  sp_display_width :: int
  sp_display_height :: int
  sp_display_rotation :: nat
  sp_hole_session_certified :: bool
  sp_personal_unbound :: bool

definition kKeys :: "string list" where
  "kKeys = [''PROFILE_ID'', ''MACHINE'', ''LOGICAL_WIDTH'', ''LOGICAL_HEIGHT'', ''DRM_DEVICE'',
     ''DRM_CONNECTOR_ID'', ''DRM_CRTC_ID'', ''DRM_OVERLAY_PLANE_ID'', ''DRM_OVERLAY_ZPOS'',
     ''DISPLAY_X'', ''DISPLAY_Y'', ''DISPLAY_WIDTH'', ''DISPLAY_HEIGHT'', ''PIXEL_FORMAT'',
     ''DISPLAY_ROTATION'', ''HOLE_SESSION_CERTIFIED'', ''PERSONAL_UNBOUND'']"

definition profile_token :: "string \<Rightarrow> nat \<Rightarrow> bool" where
  "profile_token v limit =
     (if v = [] \<or> limit < length v then False
      else list_all (\<lambda>c. is_lower c \<or> is_upper c \<or> is_digit c \<or> c = dot \<or> c = dash \<or>
             c = CHR ''_'' \<or> c = CHR ''+'') v)"

text \<open>\<open>std::from_chars\<close> on a whole string, for a type of values up to \<open>limit\<close>.\<close>

definition digits_value :: "string \<Rightarrow> nat" where
  "digits_value v = foldl (\<lambda>n c. 10 * n + (code c - 48)) 0 v"

definition parse_unsigned :: "string \<Rightarrow> nat \<Rightarrow> nat \<Rightarrow> nat \<Rightarrow> nat option" where
  "parse_unsigned v type_max minimum maximum =
     (if v = [] \<or> 10 < length v then None
      else if \<not> list_all is_digit v \<or> type_max < digits_value v \<or> digits_value v < minimum \<or>
              maximum < digits_value v
      then None else Some (digits_value v))"

definition parse_signed :: "string \<Rightarrow> int \<Rightarrow> int \<Rightarrow> int option" where
  "parse_signed v minimum maximum =
     (if v = [] \<or> 10 < length v then None
      else let negative = (hd v = dash); digits = (if negative then tl v else v);
               parsed = (if negative then - int (digits_value digits) else int (digits_value digits))
           in if digits = [] \<or> \<not> list_all is_digit digits \<or> parsed < - 2147483648 \<or> 2147483647 < parsed \<or>
                 parsed < minimum \<or> maximum < parsed
              then None else Some parsed)"

section \<open>Lines\<close>

definition newline :: char where "newline = CHR 0x0A"
definition equals :: char where "equals = CHR ''=''"

text \<open>The loop over the lines, each ended by a newline.\<close>

function profile_lines :: "string \<Rightarrow> (string \<Rightarrow> string option) \<Rightarrow> string + (string \<Rightarrow> string option)" where
  "profile_lines [] entries = Inr entries"
| "profile_lines (c # cs) entries =
     (let line = takeWhile (\<lambda>x. x \<noteq> newline) (c # cs);
          rest = tl (dropWhile (\<lambda>x. x \<noteq> newline) (c # cs));
          key = takeWhile (\<lambda>x. x \<noteq> equals) line;
          val = tl (dropWhile (\<lambda>x. x \<noteq> equals) line)
      in if equals \<notin> set line \<or> key = [] \<or> val = [] then Inl ''SESSION_PROFILE_LINE_INVALID''
         else if key \<notin> set kKeys \<or> entries key \<noteq> None then Inl ''SESSION_PROFILE_SCHEMA_INVALID''
         else profile_lines rest (entries(key \<mapsto> val)))"
  by pat_completeness auto
termination
proof (relation "measure (\<lambda>(cs, _). length cs)")
  fix c cs line rest key val and entries :: "string \<Rightarrow> string option"
  assume "rest = tl (dropWhile (\<lambda>x. x \<noteq> newline) (c # cs))"
  moreover have "length (dropWhile (\<lambda>x. x \<noteq> newline) (c # cs)) \<le> length (c # cs)" by (rule length_dropWhile_le)
  ultimately show "((rest, entries(key \<mapsto> val)), c # cs, entries) \<in> measure (\<lambda>(cs, _). length cs)" by simp
qed simp

section \<open>The profile\<close>

definition flag_value :: "string \<Rightarrow> bool" where
  "flag_value v \<longleftrightarrow> v = ''1'' \<or> v = ''0''"

text \<open>The fields of a complete document, in the order the code reads them.\<close>

definition profile_fields :: "(string \<Rightarrow> string) \<Rightarrow> string + session_profile" where
  "profile_fields v =
     (let width = parse_signed (v ''LOGICAL_WIDTH'') 240 4096;
          height = parse_signed (v ''LOGICAL_HEIGHT'') 80 2048;
          connector = parse_unsigned (v ''DRM_CONNECTOR_ID'') 4294967295 1 4294967295;
          crtc = parse_unsigned (v ''DRM_CRTC_ID'') 4294967295 1 4294967295;
          plane = parse_unsigned (v ''DRM_OVERLAY_PLANE_ID'') 4294967295 1 4294967295;
          zpos = parse_signed (v ''DRM_OVERLAY_ZPOS'') 0 128;
          x = parse_signed (v ''DISPLAY_X'') 0 4096;
          y = parse_signed (v ''DISPLAY_Y'') 0 4096;
          dwidth = parse_signed (v ''DISPLAY_WIDTH'') 80 4096;
          dheight = parse_signed (v ''DISPLAY_HEIGHT'') 80 4096;
          rotation = parse_unsigned (v ''DISPLAY_ROTATION'') 65535 0 270
      in if \<not> profile_token (v ''PROFILE_ID'') 128 \<or> \<not> profile_token (v ''MACHINE'') 32 \<or>
            v ''DRM_DEVICE'' \<noteq> ''/dev/dri/card0'' \<or>
            (v ''PIXEL_FORMAT'' \<noteq> ''XRGB8888'' \<and> v ''PIXEL_FORMAT'' \<noteq> ''ARGB8888'') \<or>
            width = None \<or> height = None \<or> connector = None \<or> crtc = None \<or> plane = None \<or> zpos = None \<or>
            x = None \<or> y = None \<or> dwidth = None \<or> dheight = None \<or> rotation = None \<or>
            the rotation \<notin> {0, 90, 180, 270} \<or>
            \<not> flag_value (v ''HOLE_SESSION_CERTIFIED'') \<or> \<not> flag_value (v ''PERSONAL_UNBOUND'') \<or>
            (v ''HOLE_SESSION_CERTIFIED'' \<noteq> ''1'' \<and> v ''PERSONAL_UNBOUND'' \<noteq> ''1'')
         then Inl ''SESSION_PROFILE_VALUE_INVALID''
         else if 4096 - the dwidth < the x \<or> 4096 - the dheight < the y
         then Inl ''SESSION_PROFILE_RECTANGLE_INVALID''
         else Inr \<lparr>sp_profile_id = v ''PROFILE_ID'', sp_machine = v ''MACHINE'',
            sp_drm_device = v ''DRM_DEVICE'', sp_pixel_format = v ''PIXEL_FORMAT'',
            sp_logical_width = the width, sp_logical_height = the height, sp_connector_id = the connector,
            sp_crtc_id = the crtc, sp_overlay_plane_id = the plane, sp_overlay_zpos = the zpos,
            sp_display_x = the x, sp_display_y = the y, sp_display_width = the dwidth,
            sp_display_height = the dheight, sp_display_rotation = the rotation,
            sp_hole_session_certified = (v ''HOLE_SESSION_CERTIFIED'' = ''1''),
            sp_personal_unbound = (v ''PERSONAL_UNBOUND'' = ''1'')\<rparr>)"

definition parse_session_profile :: "string \<Rightarrow> string + session_profile" where
  "parse_session_profile contents =
     (if contents = [] \<or> 4096 < length contents \<or> last contents \<noteq> newline \<or>
         CHR 0x0D \<in> set contents \<or> CHR 0x00 \<in> set contents
      then Inl ''SESSION_PROFILE_ENCODING_INVALID''
      else case profile_lines contents Map.empty of
          Inl detail \<Rightarrow> Inl detail
        | Inr entries \<Rightarrow>
            if list_ex (\<lambda>k. entries k = None) kKeys then Inl ''SESSION_PROFILE_FIELDS_MISSING''
            else profile_fields (\<lambda>k. the (entries k)))"

definition package_supports_session_profile :: "package_manifest \<Rightarrow> session_profile \<Rightarrow> bool" where
  "package_supports_session_profile manifest profile =
     (if pm_app_id manifest \<noteq> ''top.lvgl.platform'' \<or> pm_entry manifest \<noteq> ''bin/lvgl-sessiond'' then False
      else if sp_personal_unbound profile then True
      else sp_profile_id profile \<in> set (pm_supported_profiles manifest) \<and>
           sp_machine profile \<in> set (pm_supported_machines manifest))"

section \<open>What the parser accepts\<close>

text \<open>The rectangle and ranges a session relies on.\<close>

definition certified_profile :: "session_profile \<Rightarrow> bool" where
  "certified_profile p \<longleftrightarrow>
     profile_token (sp_profile_id p) 128 \<and> profile_token (sp_machine p) 32 \<and>
     sp_drm_device p = ''/dev/dri/card0'' \<and> sp_pixel_format p \<in> {''XRGB8888'', ''ARGB8888''} \<and>
     240 \<le> sp_logical_width p \<and> sp_logical_width p \<le> 4096 \<and>
     80 \<le> sp_logical_height p \<and> sp_logical_height p \<le> 2048 \<and>
     0 < sp_connector_id p \<and> 0 < sp_crtc_id p \<and> 0 < sp_overlay_plane_id p \<and>
     sp_connector_id p < 2 ^ 32 \<and> sp_crtc_id p < 2 ^ 32 \<and> sp_overlay_plane_id p < 2 ^ 32 \<and>
     0 \<le> sp_overlay_zpos p \<and> sp_overlay_zpos p \<le> 128 \<and>
     0 \<le> sp_display_x p \<and> 0 \<le> sp_display_y p \<and> 80 \<le> sp_display_width p \<and> 80 \<le> sp_display_height p \<and>
     sp_display_x p + sp_display_width p \<le> 4096 \<and> sp_display_y p + sp_display_height p \<le> 4096 \<and>
     sp_display_rotation p \<in> {0, 90, 180, 270} \<and> (sp_hole_session_certified p \<or> sp_personal_unbound p)"

lemma parse_signed_range: "parse_signed v lo hi = Some n \<Longrightarrow> lo \<le> n \<and> n \<le> hi"
  by (auto simp: parse_signed_def Let_def split: if_splits)

lemma parse_unsigned_range: "parse_unsigned v m lo hi = Some n \<Longrightarrow> lo \<le> n \<and> n \<le> hi \<and> n \<le> m"
  by (auto simp: parse_unsigned_def split: if_splits)

lemma if_Inr: "(if c then Inl a else if d then Inl b else Inr r) = Inr p \<Longrightarrow> \<not> c \<and> \<not> d \<and> r = p"
  by (simp split: if_split_asm)

lemma profile_fieldsD:
  assumes "profile_fields v = Inr p"
  shows "profile_token (sp_profile_id p) 128" "profile_token (sp_machine p) 32"
    "sp_drm_device p = ''/dev/dri/card0''" "sp_pixel_format p \<in> {''XRGB8888'', ''ARGB8888''}"
    "parse_signed (v ''LOGICAL_WIDTH'') 240 4096 = Some (sp_logical_width p)"
    "parse_signed (v ''LOGICAL_HEIGHT'') 80 2048 = Some (sp_logical_height p)"
    "parse_unsigned (v ''DRM_CONNECTOR_ID'') 4294967295 1 4294967295 = Some (sp_connector_id p)"
    "parse_unsigned (v ''DRM_CRTC_ID'') 4294967295 1 4294967295 = Some (sp_crtc_id p)"
    "parse_unsigned (v ''DRM_OVERLAY_PLANE_ID'') 4294967295 1 4294967295 = Some (sp_overlay_plane_id p)"
    "parse_signed (v ''DRM_OVERLAY_ZPOS'') 0 128 = Some (sp_overlay_zpos p)"
    "parse_signed (v ''DISPLAY_X'') 0 4096 = Some (sp_display_x p)"
    "parse_signed (v ''DISPLAY_Y'') 0 4096 = Some (sp_display_y p)"
    "parse_signed (v ''DISPLAY_WIDTH'') 80 4096 = Some (sp_display_width p)"
    "parse_signed (v ''DISPLAY_HEIGHT'') 80 4096 = Some (sp_display_height p)"
    "parse_unsigned (v ''DISPLAY_ROTATION'') 65535 0 270 = Some (sp_display_rotation p)"
    "sp_display_rotation p \<in> {0, 90, 180, 270}"
    "sp_display_x p \<le> 4096 - sp_display_width p" "sp_display_y p \<le> 4096 - sp_display_height p"
    "sp_hole_session_certified p \<or> sp_personal_unbound p"
proof -
  note c = if_Inr [OF assms [unfolded profile_fields_def Let_def]]
  then have p: "p = \<lparr>sp_profile_id = v ''PROFILE_ID'', sp_machine = v ''MACHINE'',
      sp_drm_device = v ''DRM_DEVICE'', sp_pixel_format = v ''PIXEL_FORMAT'',
      sp_logical_width = the (parse_signed (v ''LOGICAL_WIDTH'') 240 4096),
      sp_logical_height = the (parse_signed (v ''LOGICAL_HEIGHT'') 80 2048),
      sp_connector_id = the (parse_unsigned (v ''DRM_CONNECTOR_ID'') 4294967295 1 4294967295),
      sp_crtc_id = the (parse_unsigned (v ''DRM_CRTC_ID'') 4294967295 1 4294967295),
      sp_overlay_plane_id = the (parse_unsigned (v ''DRM_OVERLAY_PLANE_ID'') 4294967295 1 4294967295),
      sp_overlay_zpos = the (parse_signed (v ''DRM_OVERLAY_ZPOS'') 0 128),
      sp_display_x = the (parse_signed (v ''DISPLAY_X'') 0 4096),
      sp_display_y = the (parse_signed (v ''DISPLAY_Y'') 0 4096),
      sp_display_width = the (parse_signed (v ''DISPLAY_WIDTH'') 80 4096),
      sp_display_height = the (parse_signed (v ''DISPLAY_HEIGHT'') 80 4096),
      sp_display_rotation = the (parse_unsigned (v ''DISPLAY_ROTATION'') 65535 0 270),
      sp_hole_session_certified = (v ''HOLE_SESSION_CERTIFIED'' = ''1''),
      sp_personal_unbound = (v ''PERSONAL_UNBOUND'' = ''1'')\<rparr>" by blast
  note d = c [unfolded de_Morgan_disj de_Morgan_conj not_not not_less]
  show "profile_token (sp_profile_id p) 128" "profile_token (sp_machine p) 32"
    "sp_drm_device p = ''/dev/dri/card0''" "sp_pixel_format p \<in> {''XRGB8888'', ''ARGB8888''}"
    "parse_signed (v ''LOGICAL_WIDTH'') 240 4096 = Some (sp_logical_width p)"
    "parse_signed (v ''LOGICAL_HEIGHT'') 80 2048 = Some (sp_logical_height p)"
    "parse_unsigned (v ''DRM_CONNECTOR_ID'') 4294967295 1 4294967295 = Some (sp_connector_id p)"
    "parse_unsigned (v ''DRM_CRTC_ID'') 4294967295 1 4294967295 = Some (sp_crtc_id p)"
    "parse_unsigned (v ''DRM_OVERLAY_PLANE_ID'') 4294967295 1 4294967295 = Some (sp_overlay_plane_id p)"
    "parse_signed (v ''DRM_OVERLAY_ZPOS'') 0 128 = Some (sp_overlay_zpos p)"
    "parse_signed (v ''DISPLAY_X'') 0 4096 = Some (sp_display_x p)"
    "parse_signed (v ''DISPLAY_Y'') 0 4096 = Some (sp_display_y p)"
    "parse_signed (v ''DISPLAY_WIDTH'') 80 4096 = Some (sp_display_width p)"
    "parse_signed (v ''DISPLAY_HEIGHT'') 80 4096 = Some (sp_display_height p)"
    "parse_unsigned (v ''DISPLAY_ROTATION'') 65535 0 270 = Some (sp_display_rotation p)"
    "sp_display_rotation p \<in> {0, 90, 180, 270}"
    "sp_display_x p \<le> 4096 - sp_display_width p" "sp_display_y p \<le> 4096 - sp_display_height p"
    "sp_hole_session_certified p \<or> sp_personal_unbound p"
    unfolding p session_profile.select_convs by (rule option.collapse [symmetric] | insert d, blast)+
qed

lemma profile_fields_certified:
  assumes "profile_fields v = Inr p"
  shows "certified_profile p"
proof -
  note d = profile_fieldsD [OF assms]
  note s = d(5,6,10-14) [THEN parse_signed_range] and u = d(7-9) [THEN parse_unsigned_range]
  show ?thesis unfolding certified_profile_def
    by (intro conjI; (rule d | use s u d(17,18) in simp))
qed

section \<open>Documents\<close>

definition profile_line :: "string \<times> string \<Rightarrow> string" where
  "profile_line kv = fst kv @ equals # snd kv @ [newline]"

definition profile_document :: "(string \<times> string) list \<Rightarrow> string" where
  "profile_document kvs = concat (map profile_line kvs)"

lemma kKeys_chars: "k \<in> set kKeys \<Longrightarrow> k \<noteq> [] \<and> equals \<notin> set k \<and> newline \<notin> set k \<and>
    CHR 0x0D \<notin> set k \<and> CHR 0x00 \<notin> set k"
proof -
  have "list_all (\<lambda>k. k \<noteq> [] \<and> list_all (\<lambda>c. c \<noteq> equals \<and> c \<noteq> newline \<and> c \<noteq> CHR 0x0D \<and> c \<noteq> CHR 0x00) k) kKeys"
    by code_simp
  then show "k \<in> set kKeys \<Longrightarrow> k \<noteq> [] \<and> equals \<notin> set k \<and> newline \<notin> set k \<and>
    CHR 0x0D \<notin> set k \<and> CHR 0x00 \<notin> set k"
    by (auto simp: list_all_iff)
qed

lemma takeWhile_until: "x \<notin> set xs \<Longrightarrow> takeWhile (\<lambda>y. y \<noteq> x) (xs @ x # ys) = xs \<and>
    dropWhile (\<lambda>y. y \<noteq> x) (xs @ x # ys) = x # ys"
  by (induction xs) auto

lemma profile_lines_Cons:
  assumes "k \<in> set kKeys" "v \<noteq> []" "newline \<notin> set v" "entries k = None"
  shows "profile_lines (profile_line (k, v) @ rest) entries = profile_lines rest (entries(k \<mapsto> v))"
proof -
  note k = kKeys_chars [OF assms(1)]
  have shape: "profile_line (k, v) @ rest = (k @ equals # v) @ newline # rest" by (simp add: profile_line_def)
  have nl: "newline \<notin> set (k @ equals # v)" using k assms(3) by (auto simp: newline_def equals_def)
  obtain c cs where cs: "profile_line (k, v) @ rest = c # cs" using shape by (cases "k @ equals # v") auto
  then have "profile_lines (c # cs) entries = profile_lines rest (entries(k \<mapsto> v))"
    using takeWhile_until [OF nl, of rest] takeWhile_until [of equals k v] k assms
    by (subst profile_lines.simps) (simp add: cs [symmetric] shape Let_def)
  then show ?thesis using cs by simp
qed

lemma profile_lines_document:
  assumes "list_all (\<lambda>(k, v). k \<in> set kKeys \<and> v \<noteq> [] \<and> newline \<notin> set v \<and> entries k = None) kvs"
    "distinct (map fst kvs)"
  shows "profile_lines (profile_document kvs) entries = Inr (entries ++ map_of kvs)"
  using assms
proof (induction kvs arbitrary: entries)
  case Nil
  then show ?case by (simp add: profile_document_def)
next
  case (Cons kv kvs)
  obtain k v where kv: "kv = (k, v)" by fastforce
  have head: "k \<in> set kKeys" "v \<noteq> []" "newline \<notin> set v" "entries k = None" "k \<notin> fst ` set kvs"
    using Cons.prems by (simp_all add: kv)
  have "k' \<noteq> k" if "(k', v') \<in> set kvs" for k' v' using that head(5) by (metis fst_conv imageI)
  then have rest: "list_all (\<lambda>(k', v'). k' \<in> set kKeys \<and> v' \<noteq> [] \<and> newline \<notin> set v' \<and> (entries(k \<mapsto> v)) k' = None) kvs"
    using Cons.prems(1) by (auto simp: kv list_all_iff)
  have "map_of kvs k = None" using head(5) by (simp add: map_of_eq_None_iff)
  then have merge: "entries(k \<mapsto> v) ++ map_of kvs = entries ++ (map_of kvs)(k \<mapsto> v)"
    by (auto simp: fun_eq_iff map_add_def split: option.split)
  have "profile_document ((k, v) # kvs) = profile_line (k, v) @ profile_document kvs" by (simp add: profile_document_def)
  then have "profile_lines (profile_document ((k, v) # kvs)) entries = profile_lines (profile_document kvs) (entries(k \<mapsto> v))"
    by (simp only: profile_lines_Cons [where entries = entries and rest = "profile_document kvs", OF head(1-4)])
  also have "\<dots> = Inr (entries(k \<mapsto> v) ++ map_of kvs)" using Cons.prems(2) by (intro Cons.IH [OF rest]) simp
  finally show ?case unfolding merge kv map_of.simps fst_conv snd_conv .
qed

text \<open>A document with every key once, and values that fit on their lines.\<close>

definition complete_document :: "(string \<times> string) list \<Rightarrow> bool" where
  "complete_document kvs \<longleftrightarrow>
     list_all (\<lambda>(k, v). v \<noteq> [] \<and> newline \<notin> set v \<and> CHR 0x0D \<notin> set v \<and> CHR 0x00 \<notin> set v) kvs \<and>
     distinct (map fst kvs) \<and> set (map fst kvs) = set kKeys \<and> length (profile_document kvs) \<le> 4096"

lemma parse_document:
  assumes "complete_document kvs"
  shows "parse_session_profile (profile_document kvs) = profile_fields (\<lambda>k. the (map_of kvs k))"
proof -
  have assms: "list_all (\<lambda>(k, v). v \<noteq> [] \<and> newline \<notin> set v \<and> CHR 0x0D \<notin> set v \<and> CHR 0x00 \<notin> set v) kvs"
    "distinct (map fst kvs)" "set (map fst kvs) = set kKeys" "length (profile_document kvs) \<le> 4096"
    using assms by (simp_all add: complete_document_def)
  have "set kKeys \<noteq> {}" by (simp add: kKeys_def)
  then have "kvs \<noteq> []" using assms(3) by auto
  then obtain kvs' k v where "kvs = kvs' @ [(k, v)]" by (metis prod.collapse rev_exhaust)
  then have ends: "profile_document kvs \<noteq> []" "last (profile_document kvs) = newline"
    by (simp_all add: profile_document_def profile_line_def)
  have keys: "fst kv \<in> set kKeys" if "kv \<in> set kvs" for kv using that assms(3) by auto
  have chars: "CHR 0x0D \<notin> set (profile_document kvs)" "CHR 0x00 \<notin> set (profile_document kvs)"
  proof -
    have line: "c \<notin> set (profile_line kv)" if "kv \<in> set kvs" "c = CHR 0x0D \<or> c = CHR 0x00" for kv c
    proof -
      have "c \<notin> set (snd kv)" using assms(1) that by (auto simp: list_all_iff)
      moreover have "c \<notin> set (fst kv)" using kKeys_chars [OF keys [OF that(1)]] that(2) by blast
      moreover have "c \<noteq> equals" "c \<noteq> newline" using that(2) by (auto simp: equals_def newline_def)
      ultimately show ?thesis by (simp add: profile_line_def)
    qed
    then show "CHR 0x0D \<notin> set (profile_document kvs)" "CHR 0x00 \<notin> set (profile_document kvs)"
      unfolding profile_document_def set_concat set_map by blast+
  qed
  have "list_all (\<lambda>(k, v). k \<in> set kKeys \<and> v \<noteq> [] \<and> newline \<notin> set v \<and> Map.empty k = None) kvs"
    using assms(1) keys by (auto simp: list_all_iff)
  from profile_lines_document [OF this assms(2)]
  have "profile_lines (profile_document kvs) Map.empty = Inr (map_of kvs)" by simp
  moreover have "\<not> list_ex (\<lambda>k. map_of kvs k = None) kKeys"
    using assms(3) by (auto simp: list_ex_iff map_of_eq_None_iff)
  ultimately show ?thesis using ends chars assms(4) by (simp add: parse_session_profile_def)
qed

section \<open>The status document\<close>

datatype session_state = Session_starting | Session_ready | Session_error | Session_stopped

record session_status =
  ss_session_pid :: int
  ss_session_nonce :: u64
  ss_state :: session_state
  ss_result :: int
  ss_hole_ready :: bool
  ss_input_ready :: bool
  ss_logical_width :: int
  ss_logical_height :: int

fun state_name :: "session_state \<Rightarrow> string" where
  "state_name Session_starting = ''starting''"
| "state_name Session_ready = ''ready''"
| "state_name Session_error = ''error''"
| "state_name Session_stopped = ''stopped''"

definition publishable :: "session_status \<Rightarrow> bool" where
  "publishable s \<longleftrightarrow>
     \<not> (ss_session_pid s \<le> 1 \<or> ss_session_nonce s = 0 \<or> ss_result s < 0 \<or> ss_logical_width s \<le> 0 \<or>
        ss_logical_height s \<le> 0 \<or> (ss_state s \<noteq> Session_ready \<and> (ss_hole_ready s \<or> ss_input_ready s)) \<or>
        (ss_input_ready s \<and> \<not> ss_hole_ready s))"

definition status_fields :: "session_status \<Rightarrow> (string \<times> string) list" where
  "status_fields s =
     [(''SESSION_PID'', dec_string_int (ss_session_pid s)),
      (''SESSION_NONCE'', dec_string (unat (ss_session_nonce s))),
      (''STATE'', state_name (ss_state s)),
      (''RESULT'', dec_string_int (ss_result s)),
      (''HOLE_READY'', if ss_hole_ready s then ''1'' else ''0''),
      (''INPUT_READY'', if ss_input_ready s then ''1'' else ''0''),
      (''LOGICAL_WIDTH'', dec_string_int (ss_logical_width s)),
      (''LOGICAL_HEIGHT'', dec_string_int (ss_logical_height s))]"

text \<open>The document has the line format of the profile.\<close>

definition encode_session_status :: "session_status \<Rightarrow> string" where
  "encode_session_status s = (if \<not> publishable s then [] else profile_document (status_fields s))"

lemma dec_string_value: "digits_value (dec_string n) = n"
proof (induction n rule: dec_string.induct)
  case (1 n)
  have digit: "code (char_of (48 + d)) = 48 + d" if "d < 10" for d :: nat using that by (simp add: code_def)
  show ?case
  proof (cases "n < 10")
    case True
    then show ?thesis by (subst dec_string.simps) (simp add: digits_value_def digit)
  next
    case False
    then show ?thesis
      using 1 by (subst dec_string.simps) (simp add: digits_value_def digit)
  qed
qed

section \<open>A sample profile\<close>

definition sample_profile_lines :: "(string \<times> string) list" where
  "sample_profile_lines =
     [(''MACHINE'', ''armv7l''), (''PROFILE_ID'', ''pen-a''), (''LOGICAL_WIDTH'', ''480''),
      (''LOGICAL_HEIGHT'', ''160''), (''DRM_DEVICE'', ''/dev/dri/card0''), (''DRM_CONNECTOR_ID'', ''61''),
      (''DRM_CRTC_ID'', ''49''), (''DRM_OVERLAY_PLANE_ID'', ''55''), (''DRM_OVERLAY_ZPOS'', ''1''),
      (''DISPLAY_X'', ''0''), (''DISPLAY_Y'', ''0''), (''DISPLAY_WIDTH'', ''160''), (''DISPLAY_HEIGHT'', ''480''),
      (''PIXEL_FORMAT'', ''XRGB8888''), (''DISPLAY_ROTATION'', ''90''), (''HOLE_SESSION_CERTIFIED'', ''1''),
      (''PERSONAL_UNBOUND'', ''0'')]"

definition sample_profile :: session_profile where
  "sample_profile = \<lparr>sp_profile_id = ''pen-a'', sp_machine = ''armv7l'', sp_drm_device = ''/dev/dri/card0'',
     sp_pixel_format = ''XRGB8888'', sp_logical_width = 480, sp_logical_height = 160, sp_connector_id = 61,
     sp_crtc_id = 49, sp_overlay_plane_id = 55, sp_overlay_zpos = 1, sp_display_x = 0, sp_display_y = 0,
     sp_display_width = 160, sp_display_height = 480, sp_display_rotation = 90,
     sp_hole_session_certified = True, sp_personal_unbound = False\<rparr>"

lemma sample_profile_parsed: "profile_fields (\<lambda>k. the (map_of sample_profile_lines k)) = Inr sample_profile"
  by (simp add: sample_profile_lines_def profile_fields_def parse_signed_def parse_unsigned_def digits_value_def
      profile_token_def is_digit_def is_lower_def is_upper_def code_def dot_def dash_def flag_value_def sample_profile_def)

lemma sample_lines_complete: "complete_document sample_profile_lines"
  unfolding complete_document_def by (intro conjI; code_simp)

section \<open>Properties\<close>

text \<open>C13. Every profile the daemon accepts is typed: identifiers of the allowed characters, the one DRM
  device, a known pixel format, screen sizes, object ids, plane position and rotation in their ranges,
  the display rectangle within 4096 by 4096, and permission for a session.\<close>

theorem session_profile_typed:
  assumes "parse_session_profile contents = Inr p"
  shows "certified_profile p"
  using assms profile_fields_certified
  by (auto simp: parse_session_profile_def split: if_splits sum.splits)

lemma session_profile_typed_witness: "certified_profile sample_profile"
  by (rule session_profile_typed [of "profile_document sample_profile_lines"])
    (simp only: parse_document [OF sample_lines_complete] sample_profile_parsed)

text \<open>The meaning of a profile document is its set of fields: two complete documents with the same
  fields in any order are parsed alike, and the line-by-line parser gives what the fields say.\<close>

theorem profile_order_irrelevant:
  assumes "complete_document kvs" "complete_document kvs'" "set kvs' = set kvs"
  shows "parse_session_profile (profile_document kvs') = parse_session_profile (profile_document kvs) \<and>
    parse_session_profile (profile_document kvs) = profile_fields (\<lambda>k. the (map_of kvs k))"
proof -
  have "map_of kvs' = map_of kvs"
    using assms map_of_inject_set [of kvs' kvs] by (simp add: complete_document_def)
  then show ?thesis using parse_document [OF assms(1)] parse_document [OF assms(2)] by simp
qed

lemma profile_order_irrelevant_witness:
  "parse_session_profile (profile_document (rev sample_profile_lines)) = Inr sample_profile"
proof -
  have "complete_document (rev sample_profile_lines)"
    unfolding complete_document_def by (intro conjI; code_simp)
  from profile_order_irrelevant [OF sample_lines_complete this] sample_profile_parsed show ?thesis by simp
qed

end
