(* ===== verification/Application_Release.thy ===== *)
theory Application_Release
  imports Package_Installer Session_Profile Package_Sample App_Registry
begin

text \<open>
  Installed applications as the session daemon sees them
  (\<open>platform/src/session/session_daemon.cpp\<close>, lines 113 to 711): their user ids, opening the files
  of a release, verifying a release against the stored state, rolling back after a failure.
  The payload store is the one of the installer: the directories and files the daemon can open
  and trusts (root's, not writable by others, single link); anything else it refuses to open is
  not in the tree.
\<close>

unbundle bit_operations_syntax

section \<open>User ids\<close>

definition application_uid :: "string \<Rightarrow> u32" where
  "application_uid app_id =
     (let hash = foldl (\<lambda>h c. (h XOR word_of_nat (code c)) * 16777619) (2166136261 :: u32) app_id
      in 100000 + hash mod 900000000)"

record program_policy =
  pp_limits :: resource_limits
  pp_private_storage :: bool
  pp_uid :: u32
  pp_gid :: u32

definition no_limits :: resource_limits where
  "no_limits = \<lparr>rl_memory_mib = 0, rl_cpu_seconds = 0, rl_maximum_files = 0, rl_data_mib = 0\<rparr>"

section \<open>The files of a release\<close>

text \<open>\<open>split_path\<close> of the daemon; \<open>None\<close> is the empty vector of a rejected path.\<close>

function session_components :: "string \<Rightarrow> string list option" where
  "session_components [] = Some []"
| "session_components (c # cs) =
     (let part = takeWhile (\<lambda>x. x \<noteq> slash) (c # cs);
          rest = dropWhile (\<lambda>x. x \<noteq> slash) (c # cs)
      in if part = [] \<or> part = ''.'' \<or> part = ''..'' then None
         else case rest of [] \<Rightarrow> Some [part]
              | _ # rest' \<Rightarrow> map_option ((#) part) (session_components rest'))"
  by pat_completeness auto
termination
proof (relation "measure length")
  fix c cs part rest s rest'
  assume "rest = dropWhile (\<lambda>x. x \<noteq> slash) (c # cs)" "rest = s # rest'"
  then have "length (s # rest') \<le> length (c # cs)"
    using length_dropWhile_le [of "\<lambda>x. x \<noteq> slash" "c # cs"] by metis
  then show "(rest', c # cs) \<in> measure length" by simp
qed simp

definition session_split_path :: "string \<Rightarrow> string list" where
  "session_split_path path =
     (case session_components (case path of c # cs \<Rightarrow> if c = slash then cs else path | [] \<Rightarrow> []) of
        None \<Rightarrow> [] | Some components \<Rightarrow> components)"

definition open_release_file :: "tree \<Rightarrow> string \<Rightarrow> node option" where
  "open_release_file release path =
     (let components = session_split_path path in
      if components = [] then None
      else if list_all (\<lambda>i. release (take i components) = Some Directory) [1..<length components]
      then release components else None)"

definition trusted_regular :: "node option \<Rightarrow> u16 \<Rightarrow> u64 \<Rightarrow> bool" where
  "trusted_regular file expected_mode expected_size =
     (case file of Some (File mode bs) \<Rightarrow> length bs = unat expected_size \<and> mode AND 511 = expected_mode
      | _ \<Rightarrow> False)"

definition read_all :: "node option \<Rightarrow> nat \<Rightarrow> bytes option" where
  "read_all file maximum =
     (case file of
        Some (File mode bs) \<Rightarrow>
          if mode AND 146 \<noteq> 0 \<or> bs = [] \<or> maximum < length bs then None else Some bs
      | _ \<Rightarrow> None)"

definition bytes_match :: "node option \<Rightarrow> bytes \<Rightarrow> bool" where
  "bytes_match file expected = (case file of Some (File _ bs) \<Rightarrow> bs = expected | _ \<Rightarrow> False)"

definition kSessionMaximumPackageSize :: nat where "kSessionMaximumPackageSize = 268435552"

definition installed_files_match :: "tree \<Rightarrow> bytes \<Rightarrow> package_verification \<Rightarrow> bool" where
  "installed_files_match release package v =
     (if length package < unat (pv_payload_start v) then False
      else list_all (\<lambda>f.
        let room = length package - unat (pv_payload_start v);
            installed = open_release_file release (pf_path f)
        in \<not> (room < unat (pf_offset f) \<or> room - unat (pf_offset f) < unat (pf_size f)) \<and>
           trusted_regular installed (pf_mode f) (pf_size f) \<and>
           bytes_match installed
             (bytes_at (unat (pv_payload_start v) + unat (pf_offset f)) (unat (pf_size f)) package))
        (pm_files (pv_manifest v)))"

text \<open>\<open>open_absolute_directory\<close> of a release of the application store.\<close>

definition open_release :: "payload_root \<Rightarrow> string \<Rightarrow> u64 \<Rightarrow> tree option" where
  "open_release fs app_id counter =
     (if pr_root fs = Dir_trusted \<and> pr_apps fs = Dir_trusted \<and> ar_dir (pr_app fs app_id) = Dir_trusted \<and>
         ar_releases_dir (pr_app fs app_id) = Dir_trusted
      then ar_releases (pr_app fs app_id) (release_name_of counter) else None)"

section \<open>Verification\<close>

definition kPlatformVersion :: string where "kPlatformVersion = ''1.0.0''"
definition kSdkAbi :: string where "kSdkAbi = ''1.0''"

definition installer_policy :: "session_profile \<Rightarrow> policy_context" where
  "installer_policy profile =
     \<lparr>pc_platform_version = kPlatformVersion, pc_sdk_abi = kSdkAbi, pc_profile_id = sp_profile_id profile,
      pc_machine = sp_machine profile, pc_allowed_capabilities = [''storage.private'']\<rparr>"

record verified_application =
  va_release :: tree
  va_verification :: package_verification
  va_package :: bytes

definition verify_application_release ::
    "install_environment \<Rightarrow> session_profile \<Rightarrow> payload_root \<Rightarrow> string \<Rightarrow> u64 \<Rightarrow> bytes \<Rightarrow> string
       \<Rightarrow> verified_application option" where
  "verify_application_release env profile fs app_id counter expected_digest key =
     (if \<not> valid_session_app_id app_id \<or> reserved_application_id app_id \<or> counter = 0 \<or> length key \<noteq> 32
      then None
      else if en_trust env = None then None
      else case open_release fs app_id counter of None \<Rightarrow> None
      | Some release \<Rightarrow>
        case read_all (open_release_file release ''.package.lvapp'') kSessionMaximumPackageSize of None \<Rightarrow> None
        | Some package \<Rightarrow>
          let v = trust_verify (en_trust env) (en_parse env) (en_crypto env) package;
              manifest = pv_manifest v
          in if \<not> pv_ok v \<or> pv_development v \<or> \<not> pv_signature_verified v then None
          else case sha512 (en_crypto env) package of None \<Rightarrow> None
          | Some package_digest \<Rightarrow>
            if package_digest \<noteq> expected_digest \<or> pm_app_id manifest \<noteq> app_id \<or>
               pm_release_counter manifest \<noteq> counter \<or> pm_signing_key_id manifest \<noteq> key \<or>
               \<not> installed_files_match release package v
            then None
            else if pd_status (evaluate_install_policy v package_digest (installer_policy profile) None) = Policy_allowed
            then Some \<lparr>va_release = release, va_verification = v, va_package = package\<rparr>
            else None)"

definition verify_installed_application ::
    "install_environment \<Rightarrow> session_profile \<Rightarrow> install_world \<Rightarrow> string \<Rightarrow> verified_application option" where
  "verify_installed_application env profile w app_id =
     (if \<not> valid_session_app_id app_id \<or> reserved_application_id app_id then None
      else let state = load_release_state (en_state_root env) app_id (en_crypto env) (wo_state w);
               active = dr_state (sr_decoded (st_selected state))
      in if (st_status state \<noteq> Store_loaded \<and> st_status state \<noteq> Store_loaded_degraded) \<or>
            rs_current_release active = 0
      then None
      else verify_application_release env profile (wo_payload w) app_id (rs_current_release active)
             (rs_current_digest active) (rs_signing_key_id active))"

text \<open>The messages the desktop shows about the program before it.\<close>

datatype session_notice =
    No_notice | Rolled_back_policy_degraded | Rolled_back | Program_not_in_release
  | Private_storage_unavailable | Application_failed int | Desktop_recovered

definition rollback_application_after_failure ::
    "install_environment \<Rightarrow> session_profile \<Rightarrow> store_faults \<Rightarrow> string \<Rightarrow> install_world
       \<Rightarrow> session_notice option \<times> install_world" where
  "rollback_application_after_failure env profile faults app_id w =
     (if \<not> valid_session_app_id app_id \<or> reserved_application_id app_id then (None, w)
      else let stored = load_release_state (en_state_root env) app_id (en_crypto env) (wo_state w);
               active = dr_state (sr_decoded (st_selected stored))
      in if (st_status stored \<noteq> Store_loaded \<and> st_status stored \<noteq> Store_loaded_degraded) \<or>
            rs_previous_release active = 0
      then (None, w)
      else if verify_application_release env profile (wo_payload w) app_id (rs_previous_release active)
                (rs_previous_digest active) (rs_signing_key_id active) = None
      then (None, w)
      else case rollback_failed_release active of None \<Rightarrow> (None, w)
      | Some rolled_back \<Rightarrow>
        (case persist_release_state (en_state_root env) rolled_back (en_crypto env) faults (wo_state w) of
          (persisted, state_fs) \<Rightarrow>
            (if \<not> st_ok persisted then None
             else if st_status persisted = Store_written_degraded then Some Rolled_back_policy_degraded
             else Some Rolled_back, w\<lparr>wo_state := state_fs\<rparr>)))"

section \<open>The installed applications\<close>

text \<open>
  \<open>installed_application_ids\<close> over the names \<open>readdir\<close> yields for the application directory and
  whether it ends without an error; the flag of the result is \<open>reliable\<close>. A name whose entry is
  gone leaves an error number behind, which makes the scan unreliable.
\<close>

definition installed_application_ids :: "string list \<Rightarrow> bool \<Rightarrow> payload_root \<Rightarrow> string list \<times> bool" where
  "installed_application_ids listing listed fs =
     (if pr_root fs \<noteq> Dir_trusted then ([], False)
      else if pr_apps fs = Dir_absent then ([], True)
      else if pr_apps fs \<noteq> Dir_trusted then ([], False)
      else let candidates = filter (\<lambda>n. valid_session_app_id n \<and> \<not> reserved_application_id n) listing;
               ids = filter (\<lambda>n. ar_dir (pr_app fs n) = Dir_trusted) candidates
      in if kMaximumRegistryApplications < length ids then ([], False)
         else if \<not> listed \<or> list_ex (\<lambda>n. ar_dir (pr_app fs n) = Dir_absent) candidates then ([], False)
         else (remdups_adj (sort ids), True))"

definition built_in_ids :: "string list" where
  "built_in_ids = [app_platform, app_desktop, app_installer, app_game2048]"

definition application_uid_is_unique :: "string list \<Rightarrow> string \<Rightarrow> bool" where
  "application_uid_is_unique installed app_id =
     (let selected = application_uid app_id in
      list_all (\<lambda>candidate. candidate = app_id \<or> application_uid candidate \<noteq> selected)
        (built_in_ids @ installed))"

section \<open>Paths\<close>

lemma valid_segments_components:
  "valid_segments p \<Longrightarrow> (\<And>q. p \<noteq> q @ [slash]) \<Longrightarrow> session_components p = Some (split_path p)"
proof (induction p rule: valid_segments.induct)
  case 1
  then show ?case by simp
next
  case (2 c cs)
  define part where "part = takeWhile (\<lambda>x. x \<noteq> slash) (c # cs)"
  define rest where "rest = dropWhile (\<lambda>x. x \<noteq> slash) (c # cs)"
  have eqs: "session_components (c # cs) =
      (if part = [] \<or> part = ''.'' \<or> part = ''..'' then None
       else case rest of [] \<Rightarrow> Some [part] | _ # rest' \<Rightarrow> map_option ((#) part) (session_components rest'))"
    "split_path (c # cs) = part # (case rest of [] \<Rightarrow> [] | _ # rest' \<Rightarrow> split_path rest')"
    "valid_segments (c # cs) = (valid_segment part \<and> (case rest of [] \<Rightarrow> True | _ # rest' \<Rightarrow> valid_segments rest'))"
    unfolding part_def rest_def by (simp_all only: session_components.simps split_path.simps valid_segments.simps
        Let_def if_not_P simp_thms split: if_split) auto
  have v: "valid_segment part" "case rest of [] \<Rightarrow> True | _ # rest' \<Rightarrow> valid_segments rest'"
    using "2.prems"(1) by (simp_all only: eqs simp_thms)
  then have ok: "part \<noteq> []" "part \<noteq> ''.''" "part \<noteq> ''..''" by (simp_all add: valid_segment_def)
  show ?case
  proof (cases rest)
    case Nil
    then show ?thesis using ok by (simp add: eqs del: session_components.simps split_path.simps)
  next
    case (Cons s rest')
    have whole: "c # cs = part @ s # rest'" using Cons by (metis part_def rest_def takeWhile_dropWhile_id)
    have "rest' \<noteq> q @ [slash]" for q using "2.prems"(2) [of "part @ s # q"] whole by auto
    then have "session_components rest' = Some (split_path rest')"
      using "2.IH" [OF part_def rest_def] v Cons by simp
    then show ?thesis using ok Cons by (simp add: eqs del: session_components.simps split_path.simps)
  qed
qed

lemma valid_path_components:
  assumes "valid_path p"
  shows "session_split_path p = split_path p" "split_path p \<noteq> []"
proof -
  have p: "p \<noteq> []" "hd p \<noteq> slash" "last p \<noteq> slash" "valid_segments p"
    using assms by (auto simp: valid_path_def split: if_splits)
  then have "p \<noteq> q @ [slash]" for q by auto
  with p show "session_split_path p = split_path p"
    using valid_segments_components [OF p(4)] by (cases p) (auto simp: session_split_path_def)
  show "split_path p \<noteq> []" using p(1) by (cases p) (simp_all add: Let_def)
qed

section \<open>What staging leaves behind\<close>

text \<open>Staging only adds nodes, and the parents of every file are directories.\<close>

definition keeps_nodes :: "tree \<Rightarrow> tree \<Rightarrow> bool" where
  "keeps_nodes t t' \<longleftrightarrow> (\<forall>p n. t p = Some n \<longrightarrow> t' p = Some n)"

definition parents_ok :: "tree \<Rightarrow> string list \<Rightarrow> string list \<Rightarrow> bool" where
  "parents_ok t prefix cs \<longleftrightarrow> (\<forall>i. 1 \<le> i \<and> i < length cs \<longrightarrow> t (prefix @ take i cs) = Some Directory)"

lemma keeps_nodes_trans: "keeps_nodes t t' \<Longrightarrow> keeps_nodes t' t'' \<Longrightarrow> keeps_nodes t t''"
  by (simp add: keeps_nodes_def)

lemma parents_keep: "parents_ok t prefix cs \<Longrightarrow> keeps_nodes t t' \<Longrightarrow> parents_ok t' prefix cs"
  by (simp add: parents_ok_def keeps_nodes_def)

lemma ensure_directory_adds:
  "ensure_directory p t = Some t' \<Longrightarrow> keeps_nodes t t' \<and> t' p = Some Directory"
  by (auto simp: ensure_directory_def keeps_nodes_def split: option.splits node.splits)

lemma ensure_parents_adds:
  "ensure_parents prefix cs t = Some t' \<Longrightarrow> keeps_nodes t t' \<and> parents_ok t' prefix cs"
proof (induction prefix cs t arbitrary: t' rule: ensure_parents.induct)
  case (3 prefix c d cs t)
  then obtain u where u: "ensure_directory (prefix @ [c]) t = Some u"
    and r: "ensure_parents (prefix @ [c]) (d # cs) u = Some t'" by (auto split: option.splits)
  note ih = "3.IH" [OF u r] and e = ensure_directory_adds [OF u]
  have "t' (prefix @ take i (c # d # cs)) = Some Directory" if i: "1 \<le> i" "i < length (c # d # cs)" for i
  proof (cases "i = 1")
    case True
    then show ?thesis using e ih by (simp add: keeps_nodes_def)
  next
    case False
    then obtain j where j: "i = Suc j" "1 \<le> j" using i(1) by (cases i) auto
    then have "t' ((prefix @ [c]) @ take j (d # cs)) = Some Directory"
      using ih i(2) unfolding parents_ok_def by simp
    then show ?thesis by (simp add: j(1))
  qed
  then show ?case using e ih keeps_nodes_trans by (auto simp: parents_ok_def)
qed (auto simp: keeps_nodes_def parents_ok_def)

lemma create_file_adds:
  assumes "create_file ok f payload t = Some t'"
  shows "keeps_nodes t t' \<and> parents_ok t' [] (split_path (pf_path f)) \<and>
    t' (split_path (pf_path f)) = Some (File (pf_mode f) payload)"
proof -
  obtain u where u: "ensure_parents [] (split_path (pf_path f)) t = Some u"
    and c: "create_exclusive ok (split_path (pf_path f)) (pf_mode f) payload u = Some t'"
    using assms by (auto simp: create_file_def Let_def split: if_splits option.splits)
  have "keeps_nodes u t'" "t' (split_path (pf_path f)) = Some (File (pf_mode f) payload)"
    using c by (auto simp: create_exclusive_def keeps_nodes_def split: if_splits)
  with ensure_parents_adds [OF u] show ?thesis using keeps_nodes_trans parents_keep by blast
qed

text \<open>A file of the release as the daemon opens it.\<close>

definition released :: "bytes \<Rightarrow> u64 \<Rightarrow> tree \<Rightarrow> package_file \<Rightarrow> bool" where
  "released bs payload_start t f \<longleftrightarrow> parents_ok t [] (split_path (pf_path f)) \<and>
     t (split_path (pf_path f)) = Some (File (pf_mode f) (file_slice bs payload_start f)) \<and>
     \<not> (length bs - unat payload_start < unat (pf_offset f) \<or>
        length bs - unat payload_start - unat (pf_offset f) < unat (pf_size f))"

lemma unpack_files_released:
  "unpack_files ok n bs start fs t = Inr t' \<Longrightarrow> keeps_nodes t t' \<and> list_all (released bs start t') fs"
proof (induction ok n bs start fs t rule: unpack_files.induct)
  case (1 file_ok n bs start t)
  then show ?case by (simp add: keeps_nodes_def)
next
  case (2 ok n bs start f fs t)
  have room: "\<not> (length bs - unat start < unat (pf_offset f) \<or>
      length bs - unat start - unat (pf_offset f) < unat (pf_size f))"
    using "2.prems" by (auto simp: Let_def split: if_splits)
  obtain u where u: "create_file (ok n) f (file_slice bs start f) t = Some u"
    and r: "unpack_files ok (Suc n) bs start fs u = Inr t'"
    using "2.prems" by (auto simp: Let_def file_slice_def split: if_splits option.splits)
  have ih: "keeps_nodes u t' \<and> list_all (released bs start t') fs"
    using "2.IH" [OF refl room] u r by (simp add: file_slice_def)
  moreover have "released bs start t' f"
    using create_file_adds [OF u] ih room parents_keep [of u "[]" _ t']
    by (simp add: released_def keeps_nodes_def)
  ultimately show ?case using create_file_adds [OF u] keeps_nodes_trans by auto
qed

text \<open>A committed staging holds the package and its files.\<close>

definition release_openable :: "bytes \<Rightarrow> u64 \<Rightarrow> package_file list \<Rightarrow> tree \<Rightarrow> bool" where
  "release_openable bs payload_start files t \<longleftrightarrow>
     list_all (released bs payload_start t) files \<and> t package_name = Some (File 256 bs)"

lemma stage_committed:
  assumes "stage_verified_release store_root bs v d faults fs = (r, fs')" "so_status r = Staged_committed"
  defines "m \<equiv> pv_manifest v"
  shows "\<exists>t. open_release fs' (pm_app_id m) (pm_release_counter m) = Some t \<and>
    release_openable bs (pv_payload_start v) (pm_files m) t" "unat (pv_payload_start v) \<le> length bs"
proof -
  obtain fs1 opened where o: "open_releases (sg_directories faults) (pm_app_id m) fs = (fs1, opened)" by fastforce
  have copy: "keeps_nodes t t' \<and> t' package_name = Some (File 256 bs)"
    if "create_package_copy ok bs d t = Some t'" for ok t t'
    using that by (auto simp: create_package_copy_def create_exclusive_def keeps_nodes_def package_name_def
        marker_name_def split: option.splits if_splits)
  have complete: "release_openable bs (pv_payload_start v) (pm_files m) t'"
    if "unpack_files ok n bs (pv_payload_start v) (pm_files m) Map.empty = Inr t" "create_package_copy ok' bs d t = Some t'"
    for ok n ok' t t'
    using unpack_files_released [OF that(1)] copy [OF that(2)] parents_keep
    by (auto simp: release_openable_def released_def list_all_iff keeps_nodes_def)
  show "unat (pv_payload_start v) \<le> length bs"
    using assms(1,2) by (auto simp: stage_verified_release_def Let_def staged_def split: if_splits)
  have dirs: "pr_root fs1 = pr_root fs" "opened \<Longrightarrow> pr_apps fs1 = Dir_trusted \<and>
      ar_dir (pr_app fs1 (pm_app_id m)) = Dir_trusted \<and> ar_releases_dir (pr_app fs1 (pm_app_id m)) = Dir_trusted"
    using o by (auto simp: open_releases_def open_directory_def Let_def split: prod.splits dir_state.splits dir_open.splits if_splits)
  note [simp] = stage_name_fresh [THEN not_sym] unpack_files_errors
  show "\<exists>t. open_release fs' (pm_app_id m) (pm_release_counter m) = Some t \<and>
    release_openable bs (pv_payload_start v) (pm_files m) t"
    using assms(1,2) dirs unfolding stage_verified_release_def Let_def m_def [symmetric] o prod.case
    by (auto split: if_splits option.splits sum.splits rename_outcome.splits prod.splits simp: staged_def
        open_release_def set_release_def intro: complete)
qed

section \<open>What a verified manifest says of its files\<close>

lemma parse_file_shape:
  "parse_file previous item = Some f \<Longrightarrow> valid_path (pf_path f) \<and> (pf_mode f = 420 \<or> pf_mode f = 493)"
  by (auto simp: parse_file_def Option.bind_eq_Some_conv)

lemma parse_files_shape:
  "parse_files entry previous found items = Some (fs, result) \<Longrightarrow>
   list_all (\<lambda>f. valid_path (pf_path f) \<and> (pf_mode f = 420 \<or> pf_mode f = 493)) fs \<and>
   (result \<longrightarrow> found \<or> (\<exists>f \<in> set fs. pf_path f = entry \<and> pf_role f = ''executable'' \<and> pf_mode f = 493))"
proof (induction items arbitrary: previous found fs)
  case Nil
  then show ?case by simp
next
  case (Cons item items)
  obtain f where f: "parse_file previous item = Some f"
    using Cons.prems by (auto split: option.splits)
  define next_found where "next_found = (if pf_path f = entry then pf_role f = ''executable'' \<and> pf_mode f = 493 else found)"
  obtain gs where g: "parse_files entry (pf_path f) next_found items = Some (gs, result)" and fs: "fs = f # gs"
    using Cons.prems f by (auto simp: next_found_def Let_def split: option.splits)
  from Cons.IH [OF g] parse_file_shape [OF f] show ?case by (auto simp: fs next_found_def split: if_splits)
qed

definition manifest_files_ok :: "package_manifest \<Rightarrow> bool" where
  "manifest_files_ok m \<longleftrightarrow>
     list_all (\<lambda>f. valid_path (pf_path f) \<and> (pf_mode f = 420 \<or> pf_mode f = 493)) (pm_files m) \<and>
     (\<exists>f \<in> set (pm_files m). pf_path f = pm_entry m \<and> pf_role f = ''executable'' \<and> pf_mode f = 493)"

lemma parse_manifest_files: "parse_manifest d = Some m \<Longrightarrow> manifest_files_ok m"
  by (auto simp: parse_manifest_def Option.bind_eq_Some_conv manifest_files_ok_def dest!: parse_files_shape)

lemma same_files_shape:
  assumes "same_files fs gs" "list_all (\<lambda>f. P (pf_path f) (pf_mode f)) fs"
  shows "list_all (\<lambda>f. P (pf_path f) (pf_mode f)) gs"
proof -
  have same: "pf_path g = pf_path f \<and> pf_mode g = pf_mode f" if "g = f\<lparr>pf_offset := pf_offset g\<rparr>" for f g :: package_file
    using that by (cases f, cases g) simp
  have "list_all2 (\<lambda>f g. pf_path g = pf_path f \<and> pf_mode g = pf_mode f) fs gs"
    by (rule list_all2_mono [OF assms(1) [unfolded same_files_def] same])
  then show ?thesis using assms(2) by (induction rule: list_all2_induct) simp_all
qed

text \<open>What the compiled trust store accepts.\<close>

lemma trusted_package:
  assumes "pv_ok (trust_verify store parse crypto bs)"
  defines "v \<equiv> trust_verify store parse crypto bs"
  shows "store \<noteq> None" "\<not> pv_development v" "pv_signature_verified v"
    "bs \<noteq> []" "length bs \<le> kSessionMaximumPackageSize"
    "pm_release_counter (pv_manifest v) \<noteq> 0" "length (pm_signing_key_id (pv_manifest v)) = 32"
    "list_all (\<lambda>f. valid_path (pf_path f) \<and> (pf_mode f = 420 \<or> pf_mode f = 493)) (pm_files (pv_manifest v))"
proof -
  obtain key where s: "store = Some key" using assms(1) by (cases store) (auto simp: trust_verify_def pv_ok_def package_failure_def)
  then have v: "verify_package parse crypto bs [\<lparr>tk_key = key, tk_production = True\<rparr>] False = v" "pv_ok v"
    using assms by (simp_all add: trust_verify_def)
  show "store \<noteq> None" using s by simp
  show "\<not> pv_development v" "pv_signature_verified v" using trust_verify_ok [OF assms(1)] by (simp_all add: v_def)
  have "\<not> (length bs < kHeaderSize \<or> kMaximumPackageSize + kSignatureSize < length bs)"
    using v by (auto simp: verify_package_def pv_ok_def)
  then show "bs \<noteq> []" "length bs \<le> kSessionMaximumPackageSize"
    by (auto simp: package_constants kSessionMaximumPackageSize_def)
  obtain document m cursor x files where m: "parse_manifest document = Some m" "pv_manifest v = m\<lparr>pm_files := files\<rparr>"
    and t: "table_loop crypto bs (pv_payload_start v) x (64 + ucast (get_le 16 4 bs :: u32)) 0 []
       (pm_files m) = Inr (cursor, x, files)"
    using verify_package_okD [OF v] by metis
  show "pm_release_counter (pv_manifest v) \<noteq> 0" "length (pm_signing_key_id (pv_manifest v)) = 32"
    using parse_manifest_valid [OF m(1)] m(2) by (simp_all add: lowercase_hex_def)
  show "list_all (\<lambda>f. valid_path (pf_path f) \<and> (pf_mode f = 420 \<or> pf_mode f = 493)) (pm_files (pv_manifest v))"
    using same_files_shape [of "pm_files m" files "\<lambda>p mode. valid_path p \<and> (mode = 420 \<or> mode = 493)"]
      table_loop_Inr [OF t] parse_manifest_files [OF m(1)] m(2) by (simp add: manifest_files_ok_def)
qed

section \<open>A committed installation can be launched\<close>

lemma open_released_file:
  assumes "parents_ok t [] (split_path p)" "t (split_path p) = Some n" "valid_path p"
  shows "open_release_file t p = Some n"
  using assms valid_path_components [OF assms(3)]
  by (auto simp: open_release_file_def Let_def parents_ok_def list_all_iff)

lemma released_matches:
  assumes "released bs start t f" "valid_path (pf_path f)" "pf_mode f = 420 \<or> pf_mode f = 493" "unat start \<le> length bs"
  shows "let room = length bs - unat start; installed = open_release_file t (pf_path f)
    in \<not> (room < unat (pf_offset f) \<or> room - unat (pf_offset f) < unat (pf_size f)) \<and>
       trusted_regular installed (pf_mode f) (pf_size f) \<and>
       bytes_match installed (bytes_at (unat start + unat (pf_offset f)) (unat (pf_size f)) bs)"
proof -
  have o: "open_release_file t (pf_path f) = Some (File (pf_mode f) (file_slice bs start f))"
    using assms(1,2) by (intro open_released_file) (simp_all add: released_def)
  have "length (file_slice bs start f) = unat (pf_size f)"
    using assms(1,4) by (auto simp: file_slice_def released_def)
  moreover have "pf_mode f AND 511 = pf_mode f" using assms(3) by auto
  ultimately show ?thesis using assms(1) by (simp add: o Let_def trusted_regular_def bytes_match_def file_slice_def released_def)
qed

lemma policy_without_mark:
  "pd_status (evaluate_install_policy v d ctx mark) = Policy_allowed \<Longrightarrow>
   pd_status (evaluate_install_policy v d ctx None) = Policy_allowed"
  by (auto simp: evaluate_install_policy_def Let_def decision_def split: if_splits)

lemma verify_staged_release:
  fixes env bs
  defines "v \<equiv> trust_verify (en_trust env) (en_parse env) (en_crypto env) bs"
  assumes "pv_ok v" "sha512 (en_crypto env) bs = Some d"
    and staged: "stage_verified_release store_root bs v d faults fs = (r, fs')" "so_status r = Staged_committed"
    and id: "valid_session_app_id (pm_app_id (pv_manifest v))" "\<not> reserved_application_id (pm_app_id (pv_manifest v))"
    and allowed: "pd_status (evaluate_install_policy v d (installer_policy profile) mark) = Policy_allowed"
  shows "\<exists>t. verify_application_release env profile fs' (pm_app_id (pv_manifest v)) (pm_release_counter (pv_manifest v)) d
      (pm_signing_key_id (pv_manifest v)) = Some \<lparr>va_release = t, va_verification = v, va_package = bs\<rparr>"
proof -
  note p = trusted_package [OF assms(2) [unfolded v_def], folded v_def]
  obtain t where t: "open_release fs' (pm_app_id (pv_manifest v)) (pm_release_counter (pv_manifest v)) = Some t"
    "release_openable bs (pv_payload_start v) (pm_files (pv_manifest v)) t"
    using stage_committed(1) [OF staged] by blast
  have start: "unat (pv_payload_start v) \<le> length bs" by (rule stage_committed(2) [OF staged])
  have "session_split_path ''.package.lvapp'' = package_name" by code_simp
  then have "open_release_file t ''.package.lvapp'' = Some (File 256 bs)"
    using t(2) by (simp add: open_release_file_def release_openable_def package_name_def)
  then have read: "read_all (open_release_file t ''.package.lvapp'') kSessionMaximumPackageSize = Some bs"
    using p by (simp add: read_all_def)
  have "installed_files_match t bs v"
    using t(2) p(8) start released_matches [of bs "pv_payload_start v" t]
    unfolding installed_files_match_def release_openable_def list_all_iff Let_def by auto
  then show ?thesis
    using id p assms(3) t(1) read policy_without_mark [OF allowed] assms(2)
    unfolding verify_application_release_def v_def [symmetric] by (simp add: v_def [symmetric])
qed

lemma loaded_status:
  assumes "loaded_state store_root app crypto fs = Some s"
  defines "load \<equiv> load_release_state store_root app crypto fs"
  shows "st_status load = Store_loaded \<or> st_status load = Store_loaded_degraded"
    "dr_state (sr_decoded (st_selected load)) = s"
proof -
  have ok: "st_ok load" "dr_state (sr_decoded (st_selected load)) = s"
    using assms by (auto simp: loaded_state_def Let_def split: if_splits)
  then show "dr_state (sr_decoded (st_selected load)) = s" by simp
  show "st_status load = Store_loaded \<or> st_status load = Store_loaded_degraded"
    using ok(1) unfolding load_def load_release_state_def Let_def
    by (auto simp: st_ok_def store_result_def split: if_splits open_status.splits)
qed

text \<open>The first commit of an application, into a directory that did not exist.\<close>

definition no_slots :: "string \<Rightarrow> state_root \<Rightarrow> bool" where
  "no_slots app fs \<longleftrightarrow> ad_slot_a (sd_application fs app) = Slot_missing \<and> ad_slot_b (sd_application fs app) = Slot_missing"

lemma persist_first:
  fixes faults :: store_faults and store_root :: string
  assumes "no_slots app fs" "storable_state crypto t" "rs_app_id t = app"
  defines "p \<equiv> persist_release_state store_root t crypto faults fs"
  assumes ok: "st_ok (fst p)"
  shows "loaded_state store_root app crypto (snd p) = Some t"
proof -
  define e where "e = er_bytes (encode_release_state t crypto)"
  note enc = encoded_slot [OF assms(2), folded e_def]
  obtain fs0 opened where o: "open_store store_root app True (sf_apps faults) (sf_application faults) fs = (fs0, opened)" by fastforce
  have pre: "store_root \<noteq> []" "safe_app_id app" "opened = Opened" "sf_first faults = Slot_written"
    using ok assms(3) o unfolding p_def persist_release_state_def Let_def
    by (auto simp: store_result_def st_ok_def split: if_splits)
  have opened: "store_open store_root app fs0" "slots_of app fs0 = ([], [])"
    using o pre assms(1) by (auto simp: open_store_def open_directory_def store_open_def slots_of_def no_slots_def
        read_slot_def slot_contents_def Let_def split: dir_state.splits dir_open.splits if_splits)
  define fs1 where "fs1 = put_slot app (rs_generation t mod 2 = 0) (sf_first faults) e fs0"
  define fs2 where "fs2 = put_slot app (rs_generation t mod 2 \<noteq> 0) (sf_second faults) e fs1"
  have so: "store_open store_root app fs2" using opened(1) by (simp add: fs1_def fs2_def)
  have s1: "slots_of app fs1 = (if rs_generation t mod 2 = 0 then ([], e) else (e, []))"
    unfolding fs1_def by (subst slots_of_put [OF enc(2) opened(2)]) (simp add: pre)
  have s2: "slots_of app fs2 \<in> {slots_of app fs1, (e, e)}"
    unfolding fs2_def using slots_of_put [OF enc(2), of app fs1] s1 by (cases "rs_generation t mod 2 = 0") auto
  have "snd p = fs2"
    using ok o assms(3) pre unfolding p_def persist_release_state_def Let_def
    by (auto simp: store_result_def st_ok_def fs1_def fs2_def e_def split: if_splits)
  moreover have "loaded_state store_root app crypto fs2 = Some t"
  proof -
    have "sr_ok (select_release_state a b crypto) \<and> dr_state (sr_decoded (select_release_state a b crypto)) = t"
      if "(a, b) \<in> {([], e), (e, []), (e, e)}" for a b
      using that enc(3) decode_empty [of crypto] by (auto simp: select_release_state_def Let_def sr_ok_def dr_ok_def)
    moreover obtain a b where ab: "slots_of app fs2 = (a, b)" by fastforce
    moreover have "(a, b) \<in> {([], e), (e, []), (e, e)}"
      using s2 s1 unfolding ab by (cases "rs_generation t mod 2 = 0") auto
    ultimately show ?thesis using so pre(2) assms(3) by (simp add: loaded_state_iff)
  qed
  ultimately show ?thesis by simp
qed

lemma install_okD:
  fixes env ctx bs faults w
  defines "v \<equiv> trust_verify (en_trust env) (en_parse env) (en_crypto env) bs"
  defines "app \<equiv> pm_app_id (pv_manifest v)"
  assumes "install_official_package env ctx bs faults w = (r, w')" "in_ok r"
  obtains d current storage payload next_state where
    "pv_ok v" "sha512 (en_crypto env) bs = Some d"
    "current = loaded_state (en_state_root env) app (en_crypto env) (wo_state w)"
    "current = None \<Longrightarrow> st_status (load_release_state (en_state_root env) app (en_crypto env) (wo_state w)) = Store_not_found"
    "pd_status (evaluate_install_policy v d ctx (map_option high_water_from current)) = Policy_allowed"
    "stage_verified_release (en_payload_root env) bs v d (fst faults) (wo_payload w) = (storage, payload)"
    "staged_ok storage" "wo_payload w' = payload"
    "activation_state_for v d current = Some next_state"
    "wo_state w' = snd (persist_release_state (en_state_root env) next_state (en_crypto env) (snd faults) (wo_state w))"
    "st_ok (fst (persist_release_state (en_state_root env) next_state (en_crypto env) (snd faults) (wo_state w)))"
proof -
  define load where "load = load_release_state (en_state_root env) app (en_crypto env) (wo_state w)"
  define current where "current = loaded_state (en_state_root env) app (en_crypto env) (wo_state w)"
  have cur: "st_status load = Store_loaded \<or> st_status load = Store_loaded_degraded \<Longrightarrow>
      current = Some (dr_state (sr_decoded (st_selected load)))"
    "st_status load = Store_not_found \<Longrightarrow> current = None"
    by (simp_all add: current_def loaded_state_def load_def st_ok_def Let_def)
  note i0 = assms(3) [unfolded install_official_package_def Let_def, folded v_def, folded app_def, folded load_def]
  have failed: "\<not> in_ok \<lparr>in_status = status, in_detail = detail, in_verification = v, in_active_state = None\<rparr>"
    if "status \<in> {Trust_rejected, Digest_failed, State_unavailable}" for status detail
    using that by (auto simp: in_ok_def)
  have v: "pv_ok v"
  proof (rule ccontr)
    assume "\<not> pv_ok v"
    with i0 have "r = \<lparr>in_status = Trust_rejected, in_detail = pv_detail v, in_verification = v, in_active_state = None\<rparr>"
      by simp
    with assms(4) failed show False by simp
  qed
  obtain d where d: "sha512 (en_crypto env) bs = Some d"
  proof (cases "sha512 (en_crypto env) bs")
    case None
    with i0 v have "r = \<lparr>in_status = Digest_failed, in_detail = ''INSTALLER_DIGEST_FAILED'', in_verification = v,
        in_active_state = None\<rparr>" by simp
    with assms(4) failed show thesis by simp
  qed (use that in simp)
  note i1 = i0 [unfolded d option.case if_not_P [OF not_not [THEN iffD2, OF v]]]
  have i: "install_loaded env ctx bs faults w v d current = (r, w')"
    and none: "current = None \<Longrightarrow> st_status load = Store_not_found"
  proof -
    show "install_loaded env ctx bs faults w v d current = (r, w')"
      using i1 cur failed assms(4) by (auto split: if_split_asm)
    show "current = None \<Longrightarrow> st_status load = Store_not_found"
      using i1 cur failed assms(4) by (auto split: if_split_asm)
  qed
  obtain storage payload where st: "stage_verified_release (en_payload_root env) bs v d (fst faults) (wo_payload w) = (storage, payload)"
    by fastforce
  have pol: "pd_status (evaluate_install_policy v d ctx (map_option high_water_from current)) = Policy_allowed" "staged_ok storage"
    using i assms(4) st by (auto simp: install_loaded_def Let_def in_ok_def split: if_splits)
  obtain next_state where act: "activation_state_for v d current = Some next_state"
    using i assms(4) st pol by (auto simp: install_loaded_def Let_def in_ok_def split: option.splits)
  obtain stored fs where p: "persist_release_state (en_state_root env) next_state (en_crypto env) (snd faults) (wo_state w) = (stored, fs)"
    by fastforce
  have w': "w' = w\<lparr>wo_payload := payload, wo_state := fs\<rparr>" "st_ok stored"
    using i assms(4) st pol act p by (auto simp: install_loaded_def Let_def in_ok_def split: if_splits)
  show thesis
    by (rule that [OF v d current_def _ pol(1) st pol(2) _ act]) (use none p w' in \<open>simp_all add: load_def\<close>)
qed

lemma activation_current:
  assumes "activation_state_for v d current = Some t"
  shows "rs_current_release t = pm_release_counter (pv_manifest v)" "rs_current_digest t = d"
    "rs_signing_key_id t = pm_signing_key_id (pv_manifest v)" "rs_app_id t = pm_app_id (pv_manifest v)"
    "valid_state t"
proof -
  have "rs_current_release t = pm_release_counter (pv_manifest v) \<and> rs_current_digest t = d \<and>
    rs_signing_key_id t = pm_signing_key_id (pv_manifest v) \<and> rs_app_id t = pm_app_id (pv_manifest v) \<and> valid_state t"
  proof (cases current)
    case None
    then show ?thesis using assms
      by (auto simp: activation_state_for_def activated_state_def Let_def no_state_def split: if_splits)
  next
    case (Some c)
    have ids: "rs_app_id c = pm_app_id (pv_manifest v)" "rs_signing_key_id c = pm_signing_key_id (pv_manifest v)"
      using assms Some by (auto simp: activation_state_for_def Let_def split: if_splits)
    from assms [unfolded Some] show ?thesis
      by (cases rule: activation_Some) (use ids in \<open>simp_all add: activated_state_fields\<close>)
  qed
  then show "rs_current_release t = pm_release_counter (pv_manifest v)" "rs_current_digest t = d"
    "rs_signing_key_id t = pm_signing_key_id (pv_manifest v)" "rs_app_id t = pm_app_id (pv_manifest v)"
    "valid_state t" by simp_all
qed

text \<open>An acknowledged commit of an activation is the state the next load gives.\<close>

lemma activation_committed:
  fixes faults :: store_faults
  assumes act: "activation_state_for v d (loaded_state store_root app crypto fs) = Some next_state"
    and app: "app = pm_app_id (pv_manifest v)" and digest: "length d = 64"
    and sane: "loaded_state store_root app crypto fs = None \<Longrightarrow> no_slots app fs"
    and ok: "st_ok (fst (persist_release_state store_root next_state crypto faults fs))"
  shows "loaded_state store_root app crypto (snd (persist_release_state store_root next_state crypto faults fs)) = Some next_state"
proof (cases "loaded_state store_root app crypto fs")
  case None
  have "er_ok (encode_release_state next_state crypto)"
    using ok by (auto simp: persist_release_state_def Let_def store_result_def st_ok_def split: if_splits)
  moreover have "state_typed next_state"
    using act None digest
    by (auto simp: activation_state_for_def activated_state_def Let_def no_state_def state_typed_def zeros64_def split: if_splits)
  ultimately have "storable_state crypto next_state" by (rule encode_ok_storable)
  then show ?thesis
    using None sane activation_current(4) [OF act] app ok by (intro persist_first) simp_all
next
  case (Some c)
  have typed: "state_typed c" using loaded_storable [OF Some] by (simp add: storable_state_def)
  note f = activation_follows [OF act [unfolded Some] digest typed]
  show ?thesis
    by (rule persist_general(2) [OF Some _ f(2,3) ok]) (simp add: activation_current(4) [OF act] app)
qed

lemma installed_application_verifies:
  fixes env bs
  defines "v \<equiv> trust_verify (en_trust env) (en_parse env) (en_crypto env) bs"
  defines "app \<equiv> pm_app_id (pv_manifest v)"
  assumes i: "install_official_package env (installer_policy profile) bs faults w = (r, w')" and ok: "in_ok r"
    and new: "ar_releases (pr_app (wo_payload w) app) (release_name_of (pm_release_counter (pv_manifest v))) = None"
    and sane: "loaded_state (en_state_root env) app (en_crypto env) (wo_state w) = None \<Longrightarrow> no_slots app (wo_state w)"
    and id: "valid_session_app_id app" "\<not> reserved_application_id app"
  shows "\<exists>t. verify_installed_application env profile w' app = Some \<lparr>va_release = t, va_verification = v, va_package = bs\<rparr>"
proof -
  obtain d current storage payload next_state where s: "pv_ok v" "sha512 (en_crypto env) bs = Some d"
    "current = loaded_state (en_state_root env) app (en_crypto env) (wo_state w)"
    "pd_status (evaluate_install_policy v d (installer_policy profile) (map_option high_water_from current)) = Policy_allowed"
    and stage: "stage_verified_release (en_payload_root env) bs v d (fst faults) (wo_payload w) = (storage, payload)"
    "staged_ok storage" "wo_payload w' = payload"
    and act: "activation_state_for v d current = Some next_state"
    and state: "wo_state w' = snd (persist_release_state (en_state_root env) next_state (en_crypto env) (snd faults) (wo_state w))"
    "st_ok (fst (persist_release_state (en_state_root env) next_state (en_crypto env) (snd faults) (wo_state w)))"
    by (rule install_okD [OF i ok, folded v_def, folded app_def]) blast
  note t = activation_current [OF act]
  have committed: "so_status storage = Staged_committed"
    using stage(2) stage_atomic [OF stage(1)] new unfolding staged_ok_def Let_def app_def by auto
  obtain tree where tree: "verify_application_release env profile payload app (pm_release_counter (pv_manifest v)) d
      (pm_signing_key_id (pv_manifest v)) = Some \<lparr>va_release = tree, va_verification = v, va_package = bs\<rparr>"
    using verify_staged_release [OF s(1) [unfolded v_def] s(2) stage(1) [unfolded v_def] committed, folded v_def, folded app_def, OF id s(4)]
    by blast
  have "loaded_state (en_state_root env) app (en_crypto env) (wo_state w') = Some next_state"
    unfolding state(1)
    using act state(2) sane s(3) by (intro activation_committed [of v d]) (simp_all add: app_def sha512_length [OF s(2)])
  note l = loaded_status [OF this]
  have "rs_current_release next_state \<noteq> 0"
    using t(1) trusted_package(6) [OF s(1) [unfolded v_def], folded v_def] by simp
  then show ?thesis
    using l tree id t(1-3) stage(3) by (auto simp: verify_installed_application_def Let_def)
qed

section \<open>What verification means\<close>

lemma verify_application_releaseD:
  assumes "verify_application_release env profile fs app counter expected key = Some a"
  shows "valid_session_app_id app" "\<not> reserved_application_id app" "counter \<noteq> 0" "length key = 32"
    "open_release fs app counter = Some (va_release a)"
    "read_all (open_release_file (va_release a) ''.package.lvapp'') kSessionMaximumPackageSize = Some (va_package a)"
    "va_verification a = trust_verify (en_trust env) (en_parse env) (en_crypto env) (va_package a)"
    "pv_ok (va_verification a)" "sha512 (en_crypto env) (va_package a) = Some expected"
    "pm_app_id (pv_manifest (va_verification a)) = app"
    "pm_release_counter (pv_manifest (va_verification a)) = counter"
    "pm_signing_key_id (pv_manifest (va_verification a)) = key"
    "installed_files_match (va_release a) (va_package a) (va_verification a)"
    "pd_status (evaluate_install_policy (va_verification a) expected (installer_policy profile) None) = Policy_allowed"
  using assms unfolding verify_application_release_def Let_def
  by (auto split: if_split_asm option.split_asm)

lemma verify_installed_Some:
  assumes "loaded_state (en_state_root env) app (en_crypto env) (wo_state w) = Some s" "rs_current_release s \<noteq> 0"
    "valid_session_app_id app" "\<not> reserved_application_id app"
  shows "verify_installed_application env profile w app =
    verify_application_release env profile (wo_payload w) app (rs_current_release s) (rs_current_digest s) (rs_signing_key_id s)"
  using loaded_status [OF assms(1)] assms(2-4) by (auto simp: verify_installed_application_def Let_def)

lemma rollback_outcome:
  assumes "rollback_application_after_failure env profile faults app w = (Some notice, w')"
    and loaded: "loaded_state (en_state_root env) app (en_crypto env) (wo_state w) = Some s"
  shows "\<exists>t. loaded_state (en_state_root env) app (en_crypto env) (wo_state w') = Some t \<and>
    rollback_failed_release s = Some t \<and> wo_payload w' = wo_payload w \<and>
    verify_installed_application env profile w' app \<noteq> None"
proof -
  note l = loaded_status [OF loaded]
  obtain t where id: "valid_session_app_id app" "\<not> reserved_application_id app"
    and prev: "rs_previous_release s \<noteq> 0"
      "verify_application_release env profile (wo_payload w) app (rs_previous_release s) (rs_previous_digest s)
        (rs_signing_key_id s) \<noteq> None"
    and t: "rollback_failed_release s = Some t"
    and w': "w' = w\<lparr>wo_state := snd (persist_release_state (en_state_root env) t (en_crypto env) faults (wo_state w))\<rparr>"
    and ok: "st_ok (fst (persist_release_state (en_state_root env) t (en_crypto env) faults (wo_state w)))"
    using assms(1) unfolding rollback_application_after_failure_def Let_def l(2)
    by (auto split: if_split_asm option.split_asm prod.split_asm)
  note r = rollback_Some [OF t [unfolded rollback_failed_release_def]]
  have st: "storable_state (en_crypto env) s" by (rule loaded_storable [OF loaded])
  have typed: "state_typed t"
    using st t by (auto simp: storable_state_def rollback_failed_release_def rollback_release_def state_typed_def
        zeros64_def Let_def split: if_splits)
  have "rs_app_id s = app" using loaded by (simp add: loaded_state_iff)
  then have loaded': "loaded_state (en_state_root env) app (en_crypto env) (wo_state w') = Some t"
    unfolding w' using r(3,5,7) ok
    by (simp, intro persist_general(2) [OF loaded _ _ typed]) (simp_all add: generation_step)
  have "verify_installed_application env profile w' app \<noteq> None"
    using verify_installed_Some [OF loaded' _ id] r(6,8,9) prev by (simp add: w')
  with loaded' t show ?thesis by (simp add: w')
qed

section \<open>Properties\<close>

text \<open>C8. An acknowledged installation of a new release can be launched: if the installer reports success
  for a package whose release directory did not exist, whatever the faults on the way, the daemon
  afterwards loads the stored state, finds every file of the release and the package copy in place
  and unchanged, and accepts exactly this package for its application (whose id must be one the
  session can name).\<close>

theorem installed_application_launches:
  assumes "trust_verify (en_trust env) (en_parse env) (en_crypto env) bs = v"
    and "install_official_package env (installer_policy profile) bs faults w = (r, w')" and "in_ok r"
    and "ar_releases (pr_app (wo_payload w) (pm_app_id (pv_manifest v))) (release_name_of (pm_release_counter (pv_manifest v))) = None"
    and "loaded_state (en_state_root env) (pm_app_id (pv_manifest v)) (en_crypto env) (wo_state w) \<noteq> None \<or>
      no_slots (pm_app_id (pv_manifest v)) (wo_state w)"
    and "valid_session_app_id (pm_app_id (pv_manifest v))" "\<not> reserved_application_id (pm_app_id (pv_manifest v))"
  shows "\<exists>t. verify_installed_application env profile w' (pm_app_id (pv_manifest v)) =
    Some \<lparr>va_release = t, va_verification = v, va_package = bs\<rparr>"
  unfolding assms(1) [symmetric]
  by (rule installed_application_verifies [OF assms(2,3)]) (use assms in \<open>simp_all\<close>)

text \<open>C7. A rollback after a failure is safe: when it is reported, the stored state names the release
  before as current, that release passes the full verification and can be launched, and the failed
  release is quarantined, so that installing it again cannot make it current.\<close>

theorem failed_release_rolled_back:
  assumes "rollback_application_after_failure env profile faults app w = (Some notice, w')"
    and "loaded_state (en_state_root env) app (en_crypto env) (wo_state w) = Some s"
  shows "\<exists>t. loaded_state (en_state_root env) app (en_crypto env) (wo_state w') = Some t \<and>
    rs_current_release t = rs_previous_release s \<and> rs_quarantined_release t = rs_current_release s \<and>
    verify_installed_application env profile w' app \<noteq> None \<and>
    (\<forall>v d u. activation_state_for v d (Some t) = Some u \<longrightarrow> rs_current_release u \<noteq> rs_current_release s)"
proof -
  obtain t where t: "loaded_state (en_state_root env) app (en_crypto env) (wo_state w') = Some t"
    "rollback_failed_release s = Some t" "verify_installed_application env profile w' app \<noteq> None"
    using rollback_outcome [OF assms] by blast
  note r = rollback_Some [OF t(2) [unfolded rollback_failed_release_def]]
  have "rs_current_release u \<noteq> rs_current_release s" if "activation_state_for v d (Some t) = Some u" for v d u
  proof -
    have "pm_release_counter (pv_manifest v) \<noteq> rs_quarantined_release t"
      using that by (auto simp: activation_state_for_def Let_def split: if_splits)
    with activation_current(1) [OF that] r(14) show ?thesis by simp
  qed
  with t r(8,14) show ?thesis by auto
qed

end
