(* ===== verification/Application_Sample.thy ===== *)
theory Application_Sample imports Application_Release begin

definition sample_environment :: install_environment where
  "sample_environment = \<lparr>en_parse = (\<lambda>_. Some sample_document), en_crypto = sample_crypto,
     en_trust = Some (replicate 32 9), en_payload_root = ''/userdisk/apps/lvgl-apps'',
     en_state_root = ''/userdisk/apps/lvgl-app-policy''\<rparr>"

definition sample_session :: session_profile where
  "sample_session = sample_profile\<lparr>sp_profile_id := ''p'', sp_machine := ''m''\<rparr>"

definition empty_world :: install_world where
  "empty_world = \<lparr>wo_payload = \<lparr>pr_root = Dir_trusted, pr_apps = Dir_absent, pr_app = (\<lambda>_.
       \<lparr>ar_dir = Dir_absent, ar_releases_dir = Dir_absent, ar_releases = (\<lambda>_. None)\<rparr>)\<rparr>,
     wo_state = \<lparr>sd_root = Dir_trusted, sd_apps = Dir_absent, sd_application = (\<lambda>_.
       \<lparr>ad_dir = Dir_absent, ad_slot_a = Slot_missing, ad_slot_b = Slot_missing\<rparr>)\<rparr>\<rparr>"

definition no_faults :: "stage_faults \<times> store_faults" where
  "no_faults = (\<lparr>sg_root_ok = True, sg_directories = (Dir_opens, Dir_opens, Dir_opens), sg_lookup_ok = True, sg_match_ok = True,
       sg_random = Some (replicate 12 5), sg_stage_ok = True, sg_stage_open_ok = True, sg_file_ok = (\<lambda>_. True),
       sg_copy_ok = True, sg_rename = Rename_ok, sg_sync_ok = True\<rparr>,
     \<lparr>sf_apps = Dir_opens, sf_application = Dir_opens, sf_first = Slot_written, sf_second = Slot_written, sf_parent_sync_ok = True\<rparr>)"

definition sample_verification :: package_verification where
  "sample_verification = \<lparr>pv_status = Pkg_verified, pv_detail = ''PACKAGE_VERIFIED'', pv_development = False,
     pv_signature_verified = True, pv_unsigned_size = 646, pv_payload_start = 643, pv_manifest = sample_manifest\<rparr>"

lemma sample_verification_fields [simp]:
  "pv_ok sample_verification" "pv_manifest sample_verification = sample_manifest"
  by (simp_all add: sample_verification_def pv_ok_def)

lemma sample_trusted: "trust_verify (Some (replicate 32 9)) (\<lambda>_. Some sample_document) sample_crypto sample_package = sample_verification"
  by (simp add: trust_verify_def verify_package_def Let_def package_layout_ok_def length_sample_package sample_in_text package_constants get_le_def
     sample_in_header sample_header_fields [unfolded get_le_def]
      kDevelopmentFlag_def checked_add_def in_buffer_def sample_document_ok(1-3) sample_files sample_table sample_signature pv_ok_def
      sample_verification_def)

lemma sample_manifest_eq:
  "sample_manifest = \<lparr>pm_app_id = ''a.b'', pm_name = ''x'', pm_version = ''1.0.0'', pm_entry = ''run'', pm_sdk_abi = ''1.0'',
     pm_minimum_platform_version = ''1.0.0'', pm_signing_key_id = concat (replicate 16 ''01''),
     pm_release_counter = 1, pm_security_epoch = 0, pm_supported_profiles = [''p''], pm_supported_machines = [''m''],
     pm_capabilities = [], pm_files = [\<lparr>pf_path = ''run'', pf_role = ''executable'', pf_mode = 493, pf_size = 3,
       pf_offset = 0, pf_sha256 = replicate 32 1\<rparr>],
     pm_limits = \<lparr>rl_memory_mib = 8, rl_cpu_seconds = 1, rl_maximum_files = 1, rl_data_mib = 1\<rparr>\<rparr>"
  by code_simp

lemma sample_manifest_fields:
  "pm_app_id sample_manifest = ''a.b''" "pm_release_counter sample_manifest = 1" "pm_sdk_abi sample_manifest = ''1.0''"
  "pm_minimum_platform_version sample_manifest = ''1.0.0''" "pm_supported_profiles sample_manifest = [''p'']"
  "pm_supported_machines sample_manifest = [''m'']" "pm_capabilities sample_manifest = []"
  "pm_security_epoch sample_manifest = 0"
  by (simp_all add: sample_manifest_eq)

lemma sample_sha512: "sha512 sample_crypto bs = Some (replicate 64 2)"
  by (simp add: sha512_def digest_def sample_crypto_def)

lemma sample_policy:
  "evaluate_install_policy sample_verification d (installer_policy sample_session) None =
     decision Policy_allowed ''POLICY_INSTALL_ALLOWED''"
proof -
  have "version_at_least ''1.0.0'' ''1.0.0''" by code_simp
  then show ?thesis
    by (simp add: evaluate_install_policy_def Let_def sample_verification_def pv_ok_def sample_manifest_fields
        installer_policy_def sample_session_def kPlatformVersion_def kSdkAbi_def)
qed

lemma sample_staged:
  "\<exists>payload. stage_verified_release ''/userdisk/apps/lvgl-apps'' sample_package sample_verification (replicate 64 2)
     (fst no_faults) (wo_payload empty_world) =
   (\<lparr>so_status = Staged_committed, so_detail = ''STORAGE_RELEASE_COMMITTED'',
      so_release_path = release_path_of ''/userdisk/apps/lvgl-apps'' ''a.b'' ''1''\<rparr>, payload)"
proof -
  have "safe_component ''a.b''" by code_simp
  moreover have "release_name_of 1 = ''1''" by code_simp
  moreover have "split_path ''run'' = [''run'']" by code_simp
  moreover have "sample_package \<noteq> []" using length_sample_package by auto
  ultimately show ?thesis
    by (simp add: stage_verified_release_def Let_def sample_verification_def pv_ok_def sample_manifest_fields slash_def
        length_sample_package no_faults_def empty_world_def open_releases_def open_directory_def sample_document_ok(4)
        create_file_def create_exclusive_def create_package_copy_def package_name_def marker_name_def)
qed

lemma sample_installed:
  "\<exists>r w'. install_official_package sample_environment (installer_policy sample_session) sample_package no_faults
     empty_world = (r, w') \<and> in_ok r"
proof -
  obtain payload where st: "stage_verified_release ''/userdisk/apps/lvgl-apps'' sample_package sample_verification
      (replicate 64 2) (fst no_faults) (wo_payload empty_world) = (\<lparr>so_status = Staged_committed,
        so_detail = ''STORAGE_RELEASE_COMMITTED'',
        so_release_path = release_path_of ''/userdisk/apps/lvgl-apps'' ''a.b'' ''1''\<rparr>, payload)"
    using sample_staged by blast
  have load: "st_status (load_release_state ''/userdisk/apps/lvgl-app-policy'' ''a.b'' sample_crypto (wo_state empty_world)) = Store_not_found"
    by code_simp
  define s where "s = activated_state sample_verification (replicate 64 2) None"
  have s: "activation_state_for sample_verification (replicate 64 2) None = Some s" "storable_state sample_crypto s"
    "rs_app_id s = ''a.b''"
    unfolding s_def activated_state_def sample_verification_def sample_manifest_eq by code_simp+
  note enc = encoded_slot [OF s(2)]
  have p: "st_status (fst (persist_release_state ''/userdisk/apps/lvgl-app-policy'' s sample_crypto (snd no_faults) (wo_state empty_world))) =
      Store_written"
    using enc(1,4) by (simp add: persist_release_state_def Let_def s(3) no_faults_def empty_world_def open_store_def
        open_directory_def slash_def store_result_def)
  obtain stored fs where pe: "persist_release_state ''/userdisk/apps/lvgl-app-policy'' s sample_crypto (snd no_faults)
      (wo_state empty_world) = (stored, fs)" by fastforce
  have "install_official_package sample_environment (installer_policy sample_session) sample_package no_faults empty_world =
      (\<lparr>in_status = Installed, in_detail = ''INSTALLER_INSTALLED'', in_verification = sample_verification,
        in_active_state = Some s\<rparr>, empty_world\<lparr>wo_payload := payload, wo_state := fs\<rparr>)"
    using st load p pe s(1) sample_policy
    by (simp add: install_official_package_def install_loaded_def sample_environment_def sample_trusted sample_sha512
        sample_manifest_fields Let_def staged_ok_def st_ok_def decision_def)
  then show ?thesis by (auto simp: in_ok_def)
qed

lemma sample_ids: "valid_session_app_id ''a.b''" "\<not> reserved_application_id ''a.b''"
  by code_simp+

lemma installed_application_launches_witness:
  "\<exists>w' t. verify_installed_application sample_environment sample_session w' ''a.b'' =
     Some \<lparr>va_release = t, va_verification = sample_verification, va_package = sample_package\<rparr>"
proof -
  have v: "trust_verify (en_trust sample_environment) (en_parse sample_environment) (en_crypto sample_environment)
      sample_package = sample_verification"
    by (simp add: sample_environment_def sample_trusted)
  obtain r w' where "install_official_package sample_environment (installer_policy sample_session) sample_package no_faults
      empty_world = (r, w')" "in_ok r" using sample_installed by blast
  from installed_application_launches [OF v this] show ?thesis
    by (auto simp: sample_manifest_fields sample_ids empty_world_def no_slots_def)
qed

text \<open>A second release of the application is current, the sample package the one before.\<close>

definition second_state :: release_state where
  "second_state = no_state\<lparr>rs_app_id := ''a.b'', rs_signing_key_id := concat (replicate 16 ''01''),
     rs_generation := 2, rs_current_release := 2, rs_previous_release := 1, rs_high_release := 2,
     rs_current_digest := replicate 64 3, rs_previous_digest := replicate 64 2, rs_high_digest := replicate 64 3\<rparr>"

definition second_store :: state_root where
  "second_store = \<lparr>sd_root = Dir_trusted, sd_apps = Dir_trusted, sd_application = (\<lambda>_.
     \<lparr>ad_dir = Dir_trusted, ad_slot_a = Slot_bytes (er_bytes (encode_release_state second_state sample_crypto)),
      ad_slot_b = Slot_missing\<rparr>)\<rparr>"

lemma second_state_storable: "storable_state sample_crypto second_state"
  "storable_state sample_crypto (the (rollback_failed_release second_state))"
  "rollback_failed_release second_state \<noteq> None" "rs_app_id (the (rollback_failed_release second_state)) = ''a.b''"
  by code_simp+

lemma second_store_loaded:
  "loaded_state ''/userdisk/apps/lvgl-app-policy'' ''a.b'' sample_crypto second_store = Some second_state"
proof -
  have "slots_of ''a.b'' second_store = (er_bytes (encode_release_state second_state sample_crypto), [])"
    using encoded_slot(2) [OF second_state_storable(1)]
    by (simp add: slots_of_def second_store_def read_slot_def slot_contents_def)
  moreover have "safe_app_id ''a.b''" "rs_app_id second_state = ''a.b''" by code_simp+
  moreover have "store_open ''/userdisk/apps/lvgl-app-policy'' ''a.b'' second_store"
    by (simp add: store_open_def second_store_def slash_def)
  ultimately show ?thesis
    using encoded_slot(3) [OF second_state_storable(1)] decode_empty [of sample_crypto]
    by (simp add: loaded_state_iff select_release_state_def Let_def sr_ok_def dr_ok_def)
qed

text \<open>
  The second release is in slot b, the sample package's state still in slot a, as after a second write that
  failed. While slot b cannot be read, installing the sample package again brings back the first release and
  forgets the second one.
\<close>

definition first_state :: release_state where
  "first_state = activated_state sample_verification (replicate 64 2) None"

definition both_store :: state_root where
  "both_store = \<lparr>sd_root = Dir_trusted, sd_apps = Dir_trusted, sd_application = (\<lambda>_.
     \<lparr>ad_dir = Dir_trusted, ad_slot_a = Slot_bytes (er_bytes (encode_release_state first_state sample_crypto)),
      ad_slot_b = Slot_bytes (er_bytes (encode_release_state second_state sample_crypto))\<rparr>)\<rparr>"

definition slot_b_unread :: "string \<Rightarrow> slot_reads" where
  "slot_b_unread app = \<lparr>sl_open = True, sl_a = True, sl_b = False\<rparr>"

lemma first_state_ok:
  "storable_state sample_crypto first_state" "rs_app_id first_state = ''a.b''" "rs_high_release first_state = 1"
  "rs_high_release second_state = 2" "rs_generation first_state < rs_generation second_state"
  "activation_state_for sample_verification (replicate 64 2) (Some first_state) = Some first_state"
  "rs_signing_key_id first_state = pm_signing_key_id sample_manifest" "rs_high_security_epoch first_state = 0"
  "rs_high_digest first_state = replicate 64 2"
  unfolding first_state_def activated_state_def sample_verification_def sample_manifest_eq by code_simp+

lemma both_store_loaded:
  "loaded_state ''/userdisk/apps/lvgl-app-policy'' ''a.b'' sample_crypto both_store = Some second_state"
  "loaded_state ''/userdisk/apps/lvgl-app-policy'' ''a.b'' sample_crypto (hide_slots slot_b_unread both_store) = Some first_state"
proof -
  note e1 = encoded_slot [OF first_state_ok(1)] and e2 = encoded_slot [OF second_state_storable(1)]
  have slots: "slots_of ''a.b'' both_store = (er_bytes (encode_release_state first_state sample_crypto),
      er_bytes (encode_release_state second_state sample_crypto))"
    "slots_of ''a.b'' (hide_slots slot_b_unread both_store) = (er_bytes (encode_release_state first_state sample_crypto), [])"
    using e1(2) e2(2) by (simp_all add: slots_of_def both_store_def hide_slots_def slot_b_unread_def)
      (simp_all add: read_slot_def slot_contents_def)
  have id: "safe_app_id ''a.b''" "rs_app_id second_state = ''a.b''" by code_simp+
  have so: "store_open ''/userdisk/apps/lvgl-app-policy'' ''a.b'' both_store"
    "store_open ''/userdisk/apps/lvgl-app-policy'' ''a.b'' (hide_slots slot_b_unread both_store)"
    by (simp_all add: store_open_def both_store_def slash_def hide_slots_def slot_b_unread_def)
  show "loaded_state ''/userdisk/apps/lvgl-app-policy'' ''a.b'' sample_crypto both_store = Some second_state"
    using id so(1) slots(1) e1(3) e2(3) first_state_ok(5)
    by (auto simp: loaded_state_iff select_release_state_def Let_def sr_ok_def dr_ok_def)
  show "loaded_state ''/userdisk/apps/lvgl-app-policy'' ''a.b'' sample_crypto (hide_slots slot_b_unread both_store) = Some first_state"
    using id so(2) slots(2) e1(3) decode_empty [of sample_crypto] first_state_ok(2)
    by (simp add: loaded_state_iff select_release_state_def Let_def sr_ok_def dr_ok_def)
qed

definition both_world :: install_world where
  "both_world = empty_world\<lparr>wo_state := both_store\<rparr>"

lemma unread_slot_rolls_back_example:
  "\<exists>r later t. install_official_package sample_environment (installer_policy sample_session) sample_package no_faults
       (hide_world slot_b_unread both_world) = (r, later) \<and> in_ok r \<and>
     loaded_state ''/userdisk/apps/lvgl-app-policy'' ''a.b'' sample_crypto (wo_state (restore_world slot_b_unread both_world later)) = Some t \<and>
     rs_current_release t = 1 \<and> rs_high_release t < 2"
proof -
  let ?view = "hide_world slot_b_unread both_world"
  have view: "wo_payload ?view = wo_payload empty_world" "wo_state ?view = hide_slots slot_b_unread both_store"
    by (simp_all add: hide_world_def both_world_def)
  note l = loaded_status [OF both_store_loaded(2)]
  obtain payload where st: "stage_verified_release ''/userdisk/apps/lvgl-apps'' sample_package sample_verification
      (replicate 64 2) (fst no_faults) (wo_payload empty_world) = (\<lparr>so_status = Staged_committed,
        so_detail = ''STORAGE_RELEASE_COMMITTED'',
        so_release_path = release_path_of ''/userdisk/apps/lvgl-apps'' ''a.b'' ''1''\<rparr>, payload)"
    using sample_staged by blast
  have mark: "evaluate_install_policy sample_verification (replicate 64 2) (installer_policy sample_session) (Some (high_water_from first_state)) =
      evaluate_install_policy sample_verification (replicate 64 2) (installer_policy sample_session) None"
    by (simp add: evaluate_install_policy_def Let_def high_water_from_def first_state_ok sample_manifest_fields)
  note enc = encoded_slot [OF first_state_ok(1)]
  obtain stored fs where pe: "persist_release_state ''/userdisk/apps/lvgl-app-policy'' first_state sample_crypto (snd no_faults)
      (hide_slots slot_b_unread both_store) = (stored, fs)" by fastforce
  have p: "st_status stored = Store_written"
    using pe enc(1,4) by (auto simp: persist_release_state_def Let_def first_state_ok(2) no_faults_def both_store_def open_store_def
        hide_slots_def slot_b_unread_def open_directory_def slash_def store_result_def)
  define r where "r = \<lparr>in_status = Installed, in_detail = ''INSTALLER_INSTALLED'', in_verification = sample_verification,
      in_active_state = Some first_state\<rparr>"
  define later where "later = ?view\<lparr>wo_payload := payload, wo_state := fs\<rparr>"
  have installed: "install_official_package sample_environment (installer_policy sample_session) sample_package no_faults ?view = (r, later)"
    using st pe p first_state_ok(6) sample_policy l mark
    by (auto simp: install_official_package_def install_loaded_def sample_environment_def sample_trusted sample_sha512 view
        sample_manifest_fields Let_def staged_ok_def st_ok_def decision_def r_def later_def)
  have v: "trust_verify (en_trust sample_environment) (en_parse sample_environment) (en_crypto sample_environment)
      sample_package = sample_verification" "en_state_root sample_environment = ''/userdisk/apps/lvgl-app-policy''"
    "en_crypto sample_environment = sample_crypto" "wo_state both_world = both_store"
    by (simp_all add: sample_environment_def sample_trusted both_world_def)
  have st_r: "in_status r = Installed \<or> in_status r = Already_installed"
    by (simp add: r_def)
  have "rs_high_release first_state < rs_high_release second_state"
    "pm_release_counter (pv_manifest sample_verification) < rs_high_release second_state"
    using first_state_ok by (simp_all add: sample_verification_fields sample_manifest_fields)
  with unread_slot_rolls_back [where env = sample_environment and w = both_world and bs = sample_package and reads = slot_b_unread,
      OF _ _ _ _ installed st_r, where s = second_state and old = first_state] both_store_loaded
  have "(\<exists>t. loaded_state ''/userdisk/apps/lvgl-app-policy'' ''a.b'' sample_crypto
        (wo_state (restore_world slot_b_unread both_world later)) = Some t \<and>
      rs_current_release t = 1 \<and> rs_high_release t < rs_high_release second_state)"
    unfolding v(1) sample_verification_fields sample_manifest_fields unfolding v by simp
  then show ?thesis using installed first_state_ok(4) by (auto simp: r_def in_ok_def)
qed

lemma failed_release_rolled_back_witness:
  "\<exists>w' t. loaded_state ''/userdisk/apps/lvgl-app-policy'' ''a.b'' sample_crypto (wo_state w') = Some t \<and>
     rs_current_release t = 1 \<and> rs_quarantined_release t = 2 \<and>
     verify_installed_application sample_environment sample_session w' ''a.b'' \<noteq> None"
proof -
  have v: "trust_verify (en_trust sample_environment) (en_parse sample_environment) (en_crypto sample_environment)
      sample_package = sample_verification"
    by (simp add: sample_environment_def sample_trusted)
  obtain payload storage where st: "stage_verified_release ''/userdisk/apps/lvgl-apps'' sample_package sample_verification
      (replicate 64 2) (fst no_faults) (wo_payload empty_world) = (storage, payload)" "so_status storage = Staged_committed"
    using sample_staged by force
  have policy: "pd_status (evaluate_install_policy sample_verification d (installer_policy sample_session) None) = Policy_allowed" for d
    by (simp add: sample_policy decision_def)
  obtain t where verified: "verify_application_release sample_environment sample_session payload ''a.b'' 1 (replicate 64 2)
      (concat (replicate 16 ''01'')) = Some t"
    using verify_staged_release [where env = sample_environment and bs = sample_package and profile = sample_session and mark = None,
        unfolded v, OF _ _ st] policy
    by (auto simp: sample_manifest_eq sample_ids sample_sha512 sample_environment_def)
  define w where "w = \<lparr>wo_payload = payload, wo_state = second_store\<rparr>"
  have loaded: "loaded_state (en_state_root sample_environment) ''a.b'' (en_crypto sample_environment) (wo_state w) = Some second_state"
    using second_store_loaded by (simp add: sample_environment_def w_def)
  note l = loaded_status [OF loaded]
  obtain next_state where n: "rollback_failed_release second_state = Some next_state"
    using second_state_storable(3) by blast
  have next_ok: "storable_state sample_crypto next_state" "rs_app_id next_state = ''a.b''"
    using second_state_storable(2,4) n by simp_all
  obtain persisted fs where p: "persist_release_state (en_state_root sample_environment) next_state
      (en_crypto sample_environment) (snd no_faults) second_store = (persisted, fs)" by fastforce
  then have "st_status persisted = Store_written"
    using encoded_slot(1,4) [OF next_ok(1)] next_ok(2)
    by (auto simp: persist_release_state_def Let_def sample_environment_def no_faults_def second_store_def open_store_def
        open_directory_def slash_def store_result_def)
  then have r: "rollback_application_after_failure sample_environment sample_session (snd no_faults) ''a.b'' w =
      (Some Rolled_back, w\<lparr>wo_state := fs\<rparr>)"
    using l verified n p sample_ids
    by (auto simp: rollback_application_after_failure_def Let_def w_def second_state_def no_state_def st_ok_def)
  have fields: "en_state_root sample_environment = ''/userdisk/apps/lvgl-app-policy''"
    "en_crypto sample_environment = sample_crypto" "rs_previous_release second_state = 1"
    "rs_current_release second_state = 2"
    by (simp_all add: sample_environment_def second_state_def no_state_def)
  from failed_release_rolled_back [OF r loaded] show ?thesis unfolding fields by blast
qed

end
