(* ===== verification/Active_Release.thy ===== *)
theory Active_Release
  imports Application_Release
begin

text \<open>
  The platform release that is running (\<open>platform/src/session/session_daemon.cpp\<close>): how the daemon
  finds its own release directory (\<open>active_link_matches\<close>, \<open>resolve_self_release\<close>), verifies it
  (\<open>verify_active_release\<close>), chooses the executable of a program (\<open>built_in_program_path\<close>,
  \<open>open_verified_program\<close>) and lists the programs for the desktop (\<open>build_desktop_registry\<close>).
  The links, the directories that open and the machine name are arguments.
\<close>

section \<open>The release directory\<close>

definition kReleasePrefix :: string where
  "kReleasePrefix = ''/userdisk/apps/lvgl-platform/apps/top.lvgl.platform/releases/''"

definition kSessiondSuffix :: string where "kSessiondSuffix = ''/bin/lvgl-sessiond''"

text \<open>\<open>readlink\<close> of the link \<open>current\<close>, into 255 bytes; \<open>None\<close> when there is no such link.\<close>

definition active_link_matches :: "string option \<Rightarrow> u64 \<Rightarrow> bool" where
  "active_link_matches link counter =
     (case link of None \<Rightarrow> False
      | Some target \<Rightarrow> take 255 target = ''apps/top.lvgl.platform/releases/'' @ release_name_of counter)"

definition resolve_self_release :: "string option \<Rightarrow> string option \<Rightarrow> (string \<times> u64) option" where
  "resolve_self_release exe link =
     (case exe of None \<Rightarrow> None
      | Some target \<Rightarrow>
        let self = take 1023 target;
            prefix = kReleasePrefix; suffix = kSessiondSuffix;
            release = take (length self - length prefix - length suffix) (drop (length prefix) self)
        in if self = [] \<or> length self \<le> length prefix + length suffix \<or>
              take (length prefix) self \<noteq> prefix \<or> drop (length self - length suffix) self \<noteq> suffix
        then None
        else if release = [] \<or> hd release = CHR ''0'' \<or> \<not> list_all is_digit release \<or>
                2 ^ 64 \<le> digits_value release \<or> digits_value release = 0
        then None
        else if active_link_matches link (word_of_nat (digits_value release))
        then Some (take (length self - length suffix) self, word_of_nat (digits_value release))
        else None)"

section \<open>The running release\<close>

record verified_release =
  vr_directory :: tree
  vr_counter :: u64
  vr_verification :: package_verification
  vr_profile :: session_profile

text \<open>What the daemon sees of the platform: its own executable, the link, the directories that open and
  are trusted, and the name of the machine.\<close>

record platform_system =
  ps_self_exe :: "string option"
  ps_current :: "string option"
  ps_directory :: "string \<Rightarrow> tree option"
  ps_machine :: "string option"

definition profile_bytes :: "bytes \<Rightarrow> package_verification \<Rightarrow> package_file \<Rightarrow> string" where
  "profile_bytes package v f =
     str_of (bytes_at (unat (pv_payload_start v) + unat (pf_offset f)) (unat (pf_size f)) package)"

definition verify_active_release :: "platform_system \<Rightarrow> install_environment \<Rightarrow> string + verified_release" where
  "verify_active_release sys env =
     (case resolve_self_release (ps_self_exe sys) (ps_current sys) of
        None \<Rightarrow> Inl ''SESSION_RELEASE_PATH_REJECTED''
      | Some (release_path, counter) \<Rightarrow>
      case ps_directory sys release_path of
        None \<Rightarrow> Inl ''SESSION_RELEASE_DIRECTORY_UNTRUSTED''
      | Some directory \<Rightarrow>
      case read_all (open_release_file directory ''.package.lvapp'') kSessionMaximumPackageSize of
        None \<Rightarrow> Inl ''SESSION_PACKAGE_UNREADABLE''
      | Some package \<Rightarrow>
      if en_trust env = None then Inl ''SESSION_OFFICIAL_TRUST_UNAVAILABLE''
      else let v = trust_verify (en_trust env) (en_parse env) (en_crypto env) package in
      if \<not> pv_ok v \<or> pv_development v \<or> \<not> pv_signature_verified v \<or>
         pm_release_counter (pv_manifest v) \<noteq> counter \<or> \<not> installed_files_match directory package v
      then Inl ''SESSION_RELEASE_VERIFICATION_FAILED''
      else case find (\<lambda>f. pf_path f = ''profile.env'') (pm_files (pv_manifest v)) of
        None \<Rightarrow> Inl ''SESSION_PROFILE_NOT_SIGNED''
      | Some f \<Rightarrow>
      if 4096 < pf_size f then Inl ''SESSION_PROFILE_NOT_SIGNED''
      else case parse_session_profile (profile_bytes package v f) of
        Inl detail \<Rightarrow> Inl detail
      | Inr profile \<Rightarrow>
      if \<not> package_supports_session_profile (pv_manifest v) profile
      then Inl ''SESSION_PROFILE_PACKAGE_MISMATCH''
      else if ps_machine sys \<noteq> Some (sp_machine profile) then Inl ''SESSION_MACHINE_MISMATCH''
      else Inr \<lparr>vr_directory = directory, vr_counter = counter, vr_verification = v, vr_profile = profile\<rparr>)"

section \<open>Programs\<close>

definition built_in_program_path :: "string \<Rightarrow> string option" where
  "built_in_program_path app_id =
     (if app_id = app_desktop then Some ''bin/lvgl-desktop''
      else if app_id = app_game2048 then Some ''bin/lvgl-2048''
      else if app_id = app_installer then Some ''bin/lvgl-installer''
      else None)"

text \<open>An opened executable, with the part of the policy that comes from its package.\<close>

record program =
  pg_executable :: bytes
  pg_limits :: resource_limits
  pg_private_storage :: bool

definition open_executable :: "tree \<Rightarrow> package_manifest \<Rightarrow> string \<Rightarrow> bytes option" where
  "open_executable release manifest path =
     (let executable = open_release_file release path in
      case find (\<lambda>f. pf_path f = path) (pm_files manifest) of
        None \<Rightarrow> None
      | Some f \<Rightarrow>
          if pf_role f = ''executable'' \<and> pf_mode f = 493 \<and> trusted_regular executable 493 (pf_size f)
          then (case executable of Some (File mode bs) \<Rightarrow> Some bs | _ \<Rightarrow> None)
          else None)"

definition open_built_in :: "verified_release \<Rightarrow> string \<Rightarrow> program option" where
  "open_built_in r app_id =
     (case built_in_program_path app_id of
        None \<Rightarrow> None
      | Some path \<Rightarrow>
          map_option (\<lambda>bs. \<lparr>pg_executable = bs, pg_limits = pm_limits (pv_manifest (vr_verification r)),
                             pg_private_storage = (app_id = app_game2048)\<rparr>)
            (open_executable (vr_directory r) (pv_manifest (vr_verification r)) path))"

text \<open>\<open>open_verified_program\<close> without a policy: an installed application, or else a built-in one.\<close>

definition open_program ::
    "install_environment \<Rightarrow> session_profile \<Rightarrow> install_world \<Rightarrow> verified_release \<Rightarrow> string \<Rightarrow> program option" where
  "open_program env profile w r app_id =
     (if reserved_application_id app_id then open_built_in r app_id
      else case verify_installed_application env profile w app_id of
        None \<Rightarrow> open_built_in r app_id
      | Some a \<Rightarrow>
          let manifest = pv_manifest (va_verification a)
          in case open_executable (va_release a) manifest (pm_entry manifest) of
               Some bs \<Rightarrow> Some \<lparr>pg_executable = bs, pg_limits = pm_limits manifest,
                              pg_private_storage = (''storage.private'' \<in> set (pm_capabilities manifest))\<rparr>
             | None \<Rightarrow> if built_in_program_path app_id = None then None else open_built_in r app_id)"

definition open_verified_program ::
    "install_environment \<Rightarrow> session_profile \<Rightarrow> string list \<Rightarrow> install_world \<Rightarrow> verified_release \<Rightarrow> string
       \<Rightarrow> (bytes \<times> program_policy) option" where
  "open_verified_program env profile installed w r app_id =
     (if \<not> sp_personal_unbound profile \<and> \<not> application_uid_is_unique installed app_id then None
      else let uid = (if sp_personal_unbound profile then 0 else application_uid app_id)
      in map_option (\<lambda>p. (pg_executable p, \<lparr>pp_limits = pg_limits p, pp_private_storage = pg_private_storage p,
                            pp_uid = uid, pp_gid = uid\<rparr>))
           (open_program env profile w r app_id))"

section \<open>The registry of the desktop\<close>

text \<open>\<open>atomic_registry\<close>; the flag says whether the system calls of the replacement work.\<close>

definition atomic_registry :: "bool \<Rightarrow> bytes \<Rightarrow> bytes option" where
  "atomic_registry written contents =
     (if contents = [] \<or> kMaximumRegistrySize < length contents then None
      else if written then Some contents else None)"

definition installed_registration :: "verified_application \<Rightarrow> registered_application" where
  "installed_registration a =
     (let manifest = pv_manifest (va_verification a) in
      \<lparr>ra_app_id = pm_app_id manifest, ra_name = pm_name manifest, ra_version = pm_version manifest,
       ra_release_counter = pm_release_counter manifest, ra_security_epoch = pm_security_epoch manifest,
       ra_capability_count = word_of_nat (length (pm_capabilities manifest))\<rparr>)"

text \<open>The UTF-8 bytes of the name the desktop shows for the installer.\<close>

definition installer_name :: string where
  "installer_name = [CHR 0xE5, CHR 0xBA, CHR 0x94, CHR 0xE7, CHR 0x94, CHR 0xA8, CHR 0xE5, CHR 0xAE, CHR 0x89,
     CHR 0xE8, CHR 0xA3, CHR 0x85, CHR 0xE5, CHR 0x99, CHR 0xA8]"

definition built_in_registration :: "verified_release \<Rightarrow> string \<Rightarrow> string \<Rightarrow> registered_application" where
  "built_in_registration r app_id name =
     \<lparr>ra_app_id = app_id, ra_name = name, ra_version = ''1.0.0'', ra_release_counter = vr_counter r,
      ra_security_epoch = pm_security_epoch (pv_manifest (vr_verification r)), ra_capability_count = 0\<rparr>"

definition desktop_applications ::
    "install_environment \<Rightarrow> string list \<Rightarrow> install_world \<Rightarrow> verified_release \<Rightarrow> registered_application list" where
  "desktop_applications env ids w r =
     (let installed = map installed_registration
            (List.map_filter (verify_installed_application env (vr_profile r) w) ids);
          has_game = list_ex (\<lambda>a. ra_app_id a = app_game2048) installed;
          opens = (\<lambda>app_id. open_program env (vr_profile r) w r app_id \<noteq> None)
      in sort_key ra_app_id
           (installed
            @ (if \<not> has_game \<and> opens app_game2048
               then [built_in_registration r app_game2048 ''2048''] else [])
            @ (if opens app_installer
               then [built_in_registration r app_installer installer_name] else [])))"

definition build_desktop_registry ::
    "bool \<Rightarrow> install_environment \<Rightarrow> string list \<Rightarrow> install_world \<Rightarrow> verified_release \<Rightarrow> bytes option" where
  "build_desktop_registry written env ids w r =
     (let encoded = encode_application_registry (desktop_applications env ids w r)
      in if rd_ok encoded then atomic_registry written (rd_bytes encoded) else None)"

lemma sorted_strings_length: "sorted_strings previous items = Some ss \<Longrightarrow> length ss = length items"
  by (induction previous items arbitrary: ss rule: sorted_strings.induct) (auto split: option.splits if_splits)

lemma parse_manifest_capabilities:
  assumes "parse_manifest d = Some m"
  shows "length (pm_capabilities m) \<le> 64"
proof -
  have "sorted_string_array (json_member d ''capabilities'') True = Some (pm_capabilities m)"
    using assms by (auto simp: parse_manifest_def Option.bind_eq_Some_conv)
  then show ?thesis
    by (auto simp: sorted_string_array_def dest: sorted_strings_length split: option.splits json.splits if_splits)
qed

section \<open>What an opened executable is\<close>

lemma find_by_path:
  assumes "sorted_wrt (<) (map pf_path fs)" "f \<in> set fs" "pf_path f = path"
  shows "find (\<lambda>f. pf_path f = path) fs = Some f"
  using assms by (induction fs) auto

text \<open>The entry of an accepted package is one of its executable files.\<close>

lemma trusted_entry:
  assumes "pv_ok (trust_verify store parse crypto bs)"
  defines "m \<equiv> pv_manifest (trust_verify store parse crypto bs)"
  shows "\<exists>f. find (\<lambda>f. pf_path f = pm_entry m) (pm_files m) = Some f \<and> pf_role f = ''executable'' \<and> pf_mode f = 493"
    and "semantic_version (pm_version m)" and "length (pm_capabilities m) \<le> 64"
proof -
  define v where "v = trust_verify store parse crypto bs"
  obtain key where s: "store = Some key" using assms(1) by (cases store) (auto simp: trust_verify_def pv_ok_def package_failure_def)
  then have v: "verify_package parse crypto bs [\<lparr>tk_key = key, tk_production = True\<rparr>] False = v" "pv_ok v"
    using assms by (simp_all add: trust_verify_def v_def)
  obtain document m' cursor x files where m': "parse_manifest document = Some m'" "pv_manifest v = m'\<lparr>pm_files := files\<rparr>"
    and t: "table_loop crypto bs (pv_payload_start v) x (64 + ucast (get_le 16 4 bs :: u32)) 0 []
       (pm_files m') = Inr (cursor, x, files)"
    using verify_package_okD [OF v] by metis
  have m: "m = m'\<lparr>pm_files := files\<rparr>" using m'(2) by (simp add: m_def v_def)
  note placed = table_loop_Inr [OF t]
  obtain f where f: "f \<in> set (pm_files m')" "pf_path f = pm_entry m'" "pf_role f = ''executable''" "pf_mode f = 493"
    using parse_manifest_files [OF m'(1)] by (auto simp: manifest_files_ok_def)
  obtain i where i: "i < length (pm_files m')" "pm_files m' ! i = f" using f(1) by (auto simp: in_set_conv_nth)
  have same: "list_all2 (\<lambda>f g. g = f\<lparr>pf_offset := pf_offset g\<rparr>) (pm_files m') files"
    using placed by (simp add: same_files_def)
  define g where "g = files ! i"
  have g: "g \<in> set files" "g = f\<lparr>pf_offset := pf_offset g\<rparr>"
    using list_all2_nthD [OF same i(1)] list_all2_lengthD [OF same] i by (simp_all add: g_def)
  have "pf_path g = pf_path f" "pf_role g = pf_role f" "pf_mode g = pf_mode f"
    using arg_cong [OF g(2), of pf_path] arg_cong [OF g(2), of pf_role] arg_cong [OF g(2), of pf_mode] by simp_all
  with f show "\<exists>f. find (\<lambda>f. pf_path f = pm_entry m) (pm_files m) = Some f \<and> pf_role f = ''executable'' \<and> pf_mode f = 493"
    using find_by_path [OF _ g(1)] placed by (auto simp: m)
  show "semantic_version (pm_version m)" using parse_manifest_valid(2) [OF m'(1)] by (simp add: m)
  show "length (pm_capabilities m) \<le> 64" using parse_manifest_capabilities [OF m'(1)] by (simp add: m)
qed

text \<open>A file of a release whose files match the package is the part of the package the manifest names.\<close>

definition packaged_executable :: "bytes \<Rightarrow> package_verification \<Rightarrow> string \<Rightarrow> bytes \<Rightarrow> bool" where
  "packaged_executable package v path bs \<longleftrightarrow>
     (case find (\<lambda>f. pf_path f = path) (pm_files (pv_manifest v)) of
        None \<Rightarrow> False
      | Some f \<Rightarrow> pf_role f = ''executable'' \<and> pf_mode f = 493 \<and>
          bs = bytes_at (unat (pv_payload_start v) + unat (pf_offset f)) (unat (pf_size f)) package \<and>
          unat (pv_payload_start v) + unat (pf_offset f) + unat (pf_size f) \<le> length package)"

lemma open_executable_packaged:
  assumes "installed_files_match release package v" "open_executable release (pv_manifest v) path = Some bs"
  shows "packaged_executable package v path bs"
proof -
  obtain f mode where f: "find (\<lambda>f. pf_path f = path) (pm_files (pv_manifest v)) = Some f"
    and role: "pf_role f = ''executable''" "pf_mode f = 493"
    and opened: "open_release_file release path = Some (File mode bs)"
    using assms(2) by (auto simp: open_executable_def Let_def split: option.splits if_splits node.splits)
  from f have "f \<in> set (pm_files (pv_manifest v))" "pf_path f = path"
    by (auto simp: find_Some_iff)
  with assms(1) opened show ?thesis
    unfolding installed_files_match_def Let_def packaged_executable_def f option.case
    by (auto simp: list_all_iff role bytes_match_def split: if_splits)
qed

lemma installed_executable_opens:
  assumes "verify_installed_application env profile w app = Some a"
  shows "open_executable (va_release a) (pv_manifest (va_verification a)) (pm_entry (pv_manifest (va_verification a))) \<noteq> None"
proof -
  obtain counter digest key where a: "verify_application_release env profile (wo_payload w) app counter digest key = Some a"
    using assms by (auto simp: verify_installed_application_def Let_def split: if_splits)
  note d = verify_application_releaseD [OF a]
  let ?m = "pv_manifest (va_verification a)"
  obtain f where f: "find (\<lambda>f. pf_path f = pm_entry ?m) (pm_files ?m) = Some f" "pf_role f = ''executable''" "pf_mode f = 493"
    using trusted_entry(1) [of "en_trust env" "en_parse env" "en_crypto env" "va_package a"] d(7,8) by auto
  then have "f \<in> set (pm_files ?m)" "pf_path f = pm_entry ?m" by (auto simp: find_Some_iff)
  with d(13) have "trusted_regular (open_release_file (va_release a) (pm_entry ?m)) 493 (pf_size f)"
    by (auto simp: installed_files_match_def Let_def list_all_iff f(3) split: if_splits)
  then show ?thesis by (auto simp: open_executable_def Let_def f trusted_regular_def split: option.splits node.splits)
qed

section \<open>The registry\<close>

lemma session_id_nonempty: "valid_session_app_id app \<Longrightarrow> app \<noteq> []"
  by (auto simp: valid_session_app_id_def)

lemma registry_totalD:
  assumes "registry_total used previous as = Inr n"
  shows "list_all valid_application as \<and> sorted_wrt (<) (map ra_app_id as) \<and>
    (previous = [] \<or> list_all (\<lambda>a. previous < ra_app_id a) as)"
  using assms
proof (induction as arbitrary: used previous)
  case (Cons a as)
  from Cons.prems have a: "valid_application a" "previous = [] \<or> previous < ra_app_id a"
    "\<exists>used. registry_total used (ra_app_id a) as = Inr n"
    by (auto simp: Let_def not_le split: if_splits)
  then have "ra_app_id a \<noteq> []" by (auto simp: valid_application_def session_id_nonempty)
  with a Cons.IH show ?case by (auto simp: list_all_iff intro: less_trans)
qed simp

lemma encode_registry_ok: "rd_ok (encode_application_registry as) \<longleftrightarrow> registry_acceptable as"
proof
  assume "rd_ok (encode_application_registry as)"
  then show "registry_acceptable as"
    using registry_totalD [of kRegistryHeaderSize "[]" as]
    by (auto simp: encode_application_registry_def registry_failure_def rd_ok_def registry_acceptable_def registry_sizes
        split: if_splits sum.splits prod.splits dest: registry_totalD)
qed (rule registry_roundtrip(1))

lemma decoded_registry_size: "rd_ok (decode_application_registry bs) \<Longrightarrow> bs \<noteq> [] \<and> length bs \<le> kMaximumRegistrySize"
  by (auto simp: decode_application_registry_def registry_failure_def rd_ok_def registry_sizes split: if_splits)

lemma semantic_version_registry: "semantic_version v \<Longrightarrow> registry_version v"
proof -
  have "semantic_version_loop dots digit v \<Longrightarrow> registry_version_loop dots digit v \<and>
      list_all (\<lambda>c. \<not> (code c = 0 \<or> code c < 0x20 \<or> code c = 0x7f)) v \<and> dots \<le> 2" for dots digit
  proof (induction dots digit v rule: semantic_version_loop.induct)
    case (2 dots digit c cs)
    then show ?case by (auto simp: is_digit_def code_def dot_def split: if_splits)
  qed simp
  then show "semantic_version v \<Longrightarrow> registry_version v"
    by (auto simp: semantic_version_def registry_version_def registry_text_def split: if_splits)
qed

text \<open>What \<open>verify_installed_application\<close> says of the application it accepts.\<close>

lemma verify_installed_applicationD:
  assumes "verify_installed_application env profile w app = Some a"
  shows "valid_session_app_id app" "\<not> reserved_application_id app"
    "pm_app_id (pv_manifest (va_verification a)) = app"
    "va_verification a = trust_verify (en_trust env) (en_parse env) (en_crypto env) (va_package a)"
    "pv_ok (va_verification a)" "installed_files_match (va_release a) (va_package a) (va_verification a)"
    "pm_release_counter (pv_manifest (va_verification a)) \<noteq> 0"
    "semantic_version (pm_version (pv_manifest (va_verification a)))"
    "length (pm_capabilities (pv_manifest (va_verification a))) \<le> 64"
proof -
  obtain counter digest key where a: "verify_application_release env profile (wo_payload w) app counter digest key = Some a"
    using assms by (auto simp: verify_installed_application_def Let_def split: if_splits)
  note d = verify_application_releaseD [OF a]
  show "valid_session_app_id app" "\<not> reserved_application_id app"
    "pm_app_id (pv_manifest (va_verification a)) = app"
    "va_verification a = trust_verify (en_trust env) (en_parse env) (en_crypto env) (va_package a)"
    "pv_ok (va_verification a)" "installed_files_match (va_release a) (va_package a) (va_verification a)"
    "pm_release_counter (pv_manifest (va_verification a)) \<noteq> 0"
    using d by simp_all
  show "semantic_version (pm_version (pv_manifest (va_verification a)))"
    "length (pm_capabilities (pv_manifest (va_verification a))) \<le> 64"
    using trusted_entry(2,3) [of "en_trust env" "en_parse env" "en_crypto env" "va_package a"] d(7,8) by simp_all
qed

lemma open_program_installed:
  assumes "verify_installed_application env profile w app = Some a"
  shows "open_program env profile w r app \<noteq> None"
  using installed_executable_opens [OF assms] verify_installed_applicationD(2) [OF assms] assms
  by (auto simp: open_program_def Let_def)

lemma open_program_other:
  assumes "verify_installed_application env profile w app = None" "built_in_program_path app = None"
  shows "open_program env profile w r app = None"
  using assms by (simp add: open_program_def open_built_in_def)

lemma installed_registrations:
  "map ra_app_id (map installed_registration (List.map_filter (verify_installed_application env profile w) ids)) =
     filter (\<lambda>i. verify_installed_application env profile w i \<noteq> None) ids"
  by (induction ids)
    (auto simp: map_filter_simps installed_registration_def Let_def verify_installed_applicationD(3) split: option.split)

lemma installed_registrations_valid:
  "list_all (\<lambda>a. valid_application a \<longleftrightarrow> registry_text (ra_name a) 64 \<and> ra_release_counter a \<noteq> 0)
     (map installed_registration (List.map_filter (verify_installed_application env profile w) ids))"
proof (induction ids)
  case (Cons i ids)
  have "unat (word_of_nat n :: u32) \<le> 64" if "n \<le> 64" for n using that by (simp add: unat_of_nat)
  then have count: "(word_of_nat n :: u32) \<le> 64" if "n \<le> 64" for n using that by (simp add: word_le_nat_alt)
  show ?case
    using Cons
    by (auto simp: map_filter_simps installed_registration_def Let_def valid_application_def
        verify_installed_applicationD(1,3) semantic_version_registry verify_installed_applicationD(8)
        count verify_installed_applicationD(9) split: option.split)
qed (simp add: map_filter_simps)

lemma built_in_registration_valid:
  "valid_application (built_in_registration r app_game2048 ''2048'') \<longleftrightarrow> vr_counter r \<noteq> 0"
  "valid_application (built_in_registration r app_installer installer_name) \<longleftrightarrow> vr_counter r \<noteq> 0"
  "registry_text ''2048'' 64" "registry_text installer_name 64"
proof -
  have "valid_session_app_id app_game2048" "valid_session_app_id app_installer" "registry_version ''1.0.0''"
    by code_simp+
  moreover show "registry_text ''2048'' 64" "registry_text installer_name 64" by code_simp+
  ultimately show "valid_application (built_in_registration r app_game2048 ''2048'') \<longleftrightarrow> vr_counter r \<noteq> 0"
    "valid_application (built_in_registration r app_installer installer_name) \<longleftrightarrow> vr_counter r \<noteq> 0"
    by (simp_all add: valid_application_def built_in_registration_def)
qed

lemma desktop_applications_facts:
  assumes "distinct ids" and no_desktop: "app_desktop \<notin> set ids" and as_def: "as = desktop_applications env ids w r"
  shows "sorted_wrt (<) (map ra_app_id as)"
    "set (map ra_app_id as) =
       {app \<in> set ids \<union> {app_game2048, app_installer}. open_program env (vr_profile r) w r app \<noteq> None}"
    "list_all valid_application as \<longleftrightarrow> list_all (\<lambda>a. registry_text (ra_name a) 64 \<and> ra_release_counter a \<noteq> 0) as"
proof -
  let ?verify = "verify_installed_application env (vr_profile r) w"
  let ?open = "\<lambda>app. open_program env (vr_profile r) w r app \<noteq> None"
  define installed where "installed = map installed_registration (List.map_filter ?verify ids)"
  define has_game where "has_game = list_ex (\<lambda>a. ra_app_id a = app_game2048) installed"
  define built where "built = (if \<not> has_game \<and> ?open app_game2048 then [built_in_registration r app_game2048 ''2048''] else []) @
    (if ?open app_installer then [built_in_registration r app_installer installer_name] else [])"
  have as: "as = sort_key ra_app_id (installed @ built)"
    by (simp add: as_def desktop_applications_def Let_def installed_def has_game_def built_def)
  have names: "map ra_app_id installed = filter (\<lambda>i. ?verify i \<noteq> None) ids"
    unfolding installed_def by (rule installed_registrations)
  have game: "has_game \<longleftrightarrow> app_game2048 \<in> set (map ra_app_id installed)" by (simp add: has_game_def list_ex_iff image_iff) metis
  have installer: "app_installer \<notin> set (map ra_app_id installed)"
  proof -
    have "reserved_application_id app_installer" by (simp add: reserved_application_id_def)
    then have "?verify app_installer = None" by (simp add: verify_installed_application_def)
    then show ?thesis by (simp add: names)
  qed
  have other: "app_game2048 \<noteq> app_installer" by (simp add: app_game2048_def app_installer_def)
  have built_names: "map ra_app_id built = (if \<not> has_game \<and> ?open app_game2048 then [app_game2048] else []) @
      (if ?open app_installer then [app_installer] else [])"
    by (simp add: built_def built_in_registration_def)
  have "distinct (map ra_app_id (installed @ built))"
    using assms(1) game installer other names by (auto simp: built_names)
  then have "distinct (map ra_app_id as)" unfolding distinct_map as distinct_sort set_sort .
  moreover have "sorted (map ra_app_id as)" by (simp add: as)
  ultimately show "sorted_wrt (<) (map ra_app_id as)" using strict_sorted_iff by blast
  have opens: "?open app" if "?verify app \<noteq> None" for app using open_program_installed that by blast
  have "set (map ra_app_id as) = set (map ra_app_id installed) \<union> set (map ra_app_id built)"
    by (simp add: as image_Un)
  also have "\<dots> = {app \<in> set ids \<union> {app_game2048, app_installer}. ?open app}"
  proof -
    have built_set: "app \<in> set (map ra_app_id built) \<longleftrightarrow>
        app = app_game2048 \<and> \<not> has_game \<and> ?open app \<or> app = app_installer \<and> ?open app" for app
      unfolding built_names by auto
    have installed_set: "app \<in> set (map ra_app_id installed) \<longleftrightarrow> app \<in> set ids \<and> ?verify app \<noteq> None" for app
      unfolding names by simp
    have "app \<in> set (map ra_app_id installed)" if "app \<in> set ids" "?open app" "app \<noteq> app_game2048" "app \<noteq> app_installer" for app
    proof -
      have "app \<noteq> app_desktop" using that(1) no_desktop by blast
      then have "built_in_program_path app = None" using that(3,4) by (simp add: built_in_program_path_def)
      then have "?verify app \<noteq> None" using open_program_other [of env "vr_profile r" w app r] that(2) by metis
      then show ?thesis using that(1) installed_set by blast
    qed
    then show ?thesis
      using opens game unfolding set_eq_iff Un_iff mem_Collect_eq built_set installed_set insert_iff by blast
  qed
  finally show "set (map ra_app_id as) = {app \<in> set ids \<union> {app_game2048, app_installer}. ?open app}" .
  have "list_all (\<lambda>a. valid_application a \<longleftrightarrow> registry_text (ra_name a) 64 \<and> ra_release_counter a \<noteq> 0) (installed @ built)"
    using installed_registrations_valid [of env "vr_profile r" w ids]
    by (simp add: installed_def built_def built_in_registration_valid)
      (simp add: built_in_registration_def built_in_registration_valid)
  then show "list_all valid_application as \<longleftrightarrow> list_all (\<lambda>a. registry_text (ra_name a) 64 \<and> ra_release_counter a \<noteq> 0) as"
    by (auto simp: as list_all_iff)
qed


lemma installed_application_ids_ok:
  "distinct (fst (installed_application_ids listing listed fs))"
  "app_desktop \<notin> set (fst (installed_application_ids listing listed fs))"
proof -
  have "app \<in> set (fst (installed_application_ids listing listed fs)) \<Longrightarrow> \<not> reserved_application_id app" for app
    by (auto simp: installed_application_ids_def Let_def split: if_splits)
  then show "app_desktop \<notin> set (fst (installed_application_ids listing listed fs))"
    by (auto simp: reserved_application_id_def)
  have "sorted xs \<Longrightarrow> distinct (remdups_adj xs)" for xs :: "string list" by (induction xs rule: remdups_adj.induct) auto
  then show "distinct (fst (installed_application_ids listing listed fs))"
    by (simp add: installed_application_ids_def Let_def)
qed

lemma application_uid_range: "100000 \<le> unat (application_uid app)"
proof -
  obtain h :: u32 where h: "application_uid app = 100000 + h mod 900000000"
    by (simp add: application_uid_def Let_def)
  have "unat (h mod 900000000) < 900000000" by (simp add: unat_mod)
  then have "unat (application_uid app) = 100000 + unat (h mod 900000000)"
    unfolding h by (subst unat_add_lem [THEN iffD1]) simp_all
  then show ?thesis by simp
qed

lemma verify_active_releaseD:
  assumes "verify_active_release sys env = Inr r"
  obtains package f where "vr_verification r = trust_verify (en_trust env) (en_parse env) (en_crypto env) package"
    "pv_ok (vr_verification r)" "installed_files_match (vr_directory r) package (vr_verification r)"
    "pm_app_id (pv_manifest (vr_verification r)) = app_platform"
    "pm_release_counter (pv_manifest (vr_verification r)) = vr_counter r" "vr_counter r \<noteq> 0"
    "find (\<lambda>f. pf_path f = ''profile.env'') (pm_files (pv_manifest (vr_verification r))) = Some f"
    "parse_session_profile (profile_bytes package (vr_verification r) f) = Inr (vr_profile r)"
    "ps_machine sys = Some (sp_machine (vr_profile r))"
proof -
  obtain path counter directory package where
    "resolve_self_release (ps_self_exe sys) (ps_current sys) = Some (path, counter)"
    "ps_directory sys path = Some directory"
    "read_all (open_release_file directory ''.package.lvapp'') kSessionMaximumPackageSize = Some package"
    using assms by (auto simp: verify_active_release_def split: option.splits)
  note step = assms [unfolded verify_active_release_def this option.case prod.case Let_def]
  define v where "v = trust_verify (en_trust env) (en_parse env) (en_crypto env) package"
  obtain f profile where v: "pv_ok v" "pm_release_counter (pv_manifest v) = counter" "installed_files_match directory package v"
    and f: "find (\<lambda>f. pf_path f = ''profile.env'') (pm_files (pv_manifest v)) = Some f"
    and profile: "parse_session_profile (profile_bytes package v f) = Inr profile"
    and ok: "package_supports_session_profile (pv_manifest v) profile" "ps_machine sys = Some (sp_machine profile)"
    and r: "r = \<lparr>vr_directory = directory, vr_counter = counter, vr_verification = v, vr_profile = profile\<rparr>"
    using step unfolding v_def by (auto split: if_splits option.splits sum.splits)
  have "pm_release_counter (pv_manifest v) \<noteq> 0"
    using trusted_package(6) v(1) by (simp add: v_def)
  with v f profile ok show thesis
    by (intro that [of package f]) (simp_all add: r v_def [symmetric] package_supports_session_profile_def app_platform_def split: if_splits)
qed

section \<open>Properties\<close>

text \<open>C25. What the desktop lists. The directories of installed applications count only when the scan is
  reliable: the store and its \<open>apps\<close> are trusted, the listing ends without an error, no listed directory
  has gone, and there are at most 64. Then the registry lists those that open, with the game and the
  installer when they open, each once and in order; otherwise it lists the game and the installer
  alone, although installed programs still open. The registry is refused, and with it the desktop,
  exactly when the replacement of the file fails, there is nothing to list, more than 64 programs are to
  be listed (63 or 64 installed ones beside the built-in two), a name has a character the registry does
  not allow (a control character, which the package verifier accepts), or a release counter is zero.\<close>

theorem desktop_registry_exact:
  "let candidates = filter (\<lambda>n. valid_session_app_id n \<and> \<not> reserved_application_id n) listing;
       directories = filter (\<lambda>n. ar_dir (pr_app fs n) = Dir_trusted) candidates;
       reliable = (pr_root fs = Dir_trusted \<and> pr_apps fs = Dir_trusted \<and> listed \<and> length directories \<le> 64 \<and>
         list_all (\<lambda>n. ar_dir (pr_app fs n) \<noteq> Dir_absent) candidates);
       shown = (if reliable then set directories else {}) \<union> {app_game2048, app_installer};
       ids = fst (installed_application_ids listing listed fs); as = desktop_applications env ids w r
   in build_desktop_registry written env ids w r =
        (if written \<and> as \<noteq> [] \<and> length as \<le> 64 \<and>
            list_all (\<lambda>a. registry_text (ra_name a) 64 \<and> ra_release_counter a \<noteq> 0) as
         then Some (rd_bytes (encode_application_registry as)) else None) \<and>
      set (map ra_app_id as) = {app \<in> shown. open_program env (vr_profile r) w r app \<noteq> None} \<and>
      sorted_wrt (<) (map ra_app_id as)"
proof -
  define ids as where "ids = fst (installed_application_ids listing listed fs)" and "as = desktop_applications env ids w r"
  note facts = desktop_applications_facts [OF installed_application_ids_ok [of listing listed fs, folded ids_def] as_def]
  define candidates where "candidates = filter (\<lambda>n. valid_session_app_id n \<and> \<not> reserved_application_id n) listing"
  define directories where "directories = filter (\<lambda>n. ar_dir (pr_app fs n) = Dir_trusted) candidates"
  have shown: "set ids = (if pr_root fs = Dir_trusted \<and> pr_apps fs = Dir_trusted \<and> listed \<and> length directories \<le> 64 \<and>
      list_all (\<lambda>n. ar_dir (pr_app fs n) \<noteq> Dir_absent) candidates then set directories else {})"
    by (simp add: ids_def installed_application_ids_def Let_def candidates_def [symmetric] directories_def [symmetric]
        registry_sizes list_ex_iff list_all_iff not_less)
  have size: "rd_bytes (encode_application_registry as) \<noteq> [] \<and>
      length (rd_bytes (encode_application_registry as)) \<le> kMaximumRegistrySize" if "registry_acceptable as"
    using registry_roundtrip [OF that] decoded_registry_size [of "rd_bytes (encode_application_registry as)"] by simp
  have "build_desktop_registry written env ids w r =
        (if written \<and> registry_acceptable as then Some (rd_bytes (encode_application_registry as)) else None)"
    using size by (auto simp: build_desktop_registry_def Let_def as_def [symmetric] encode_registry_ok atomic_registry_def)
  then show ?thesis
    using facts(1,3) facts(2) [unfolded shown]
    by (simp only: Let_def ids_def [symmetric] as_def [symmetric] candidates_def [symmetric] directories_def [symmetric]
        registry_acceptable_def) simp
qed


text \<open>The session runs nothing but verified programs: the bytes of every executable it starts are the
  executable named by the manifest of a package the trust store accepted, either of the application
  itself, current in the stored state, or of the running platform release; with that package's limits,
  and under a user id that no other program has (or as root, where the signed profile says so).\<close>

lemma only_verified_programs_run:
  assumes "verify_active_release sys env = Inr r"
    and "open_verified_program env (vr_profile r) installed w r app = Some (bs, policy)"
  shows "\<exists>package v path. v = trust_verify (en_trust env) (en_parse env) (en_crypto env) package \<and> pv_ok v \<and>
    packaged_executable package v path bs \<and> pp_limits policy = pm_limits (pv_manifest v) \<and>
    (if pm_app_id (pv_manifest v) = app
     then path = pm_entry (pv_manifest v) \<and>
       map_option va_package (verify_installed_application env (vr_profile r) w app) = Some package
     else pm_app_id (pv_manifest v) = app_platform \<and> pm_release_counter (pv_manifest v) = vr_counter r \<and>
       built_in_program_path app = Some path) \<and>
    pp_gid policy = pp_uid policy \<and>
    (if sp_personal_unbound (vr_profile r) then pp_uid policy = 0
     else pp_uid policy = application_uid app \<and> 100000 \<le> unat (pp_uid policy) \<and>
       list_all (\<lambda>other. other = app \<or> application_uid other \<noteq> pp_uid policy) (built_in_ids @ installed))"
proof -
  obtain p where p: "open_program env (vr_profile r) w r app = Some p" "bs = pg_executable p"
    and limits: "pp_limits policy = pg_limits p" "pp_gid policy = pp_uid policy"
    and uid: "if sp_personal_unbound (vr_profile r) then pp_uid policy = 0
     else pp_uid policy = application_uid app \<and> 100000 \<le> unat (pp_uid policy) \<and>
       list_all (\<lambda>other. other = app \<or> application_uid other \<noteq> pp_uid policy) (built_in_ids @ installed)"
    using assms(2) application_uid_range [of app]
    by (auto simp: open_verified_program_def application_uid_is_unique_def Let_def split: if_splits)
  have "(\<exists>a. verify_installed_application env (vr_profile r) w app = Some a \<and>
      open_executable (va_release a) (pv_manifest (va_verification a)) (pm_entry (pv_manifest (va_verification a))) = Some bs \<and>
      pg_limits p = pm_limits (pv_manifest (va_verification a))) \<or> open_built_in r app = Some p"
    using p by (auto simp: open_program_def Let_def split: if_splits option.splits)
  then show ?thesis
  proof
    assume "\<exists>a. verify_installed_application env (vr_profile r) w app = Some a \<and>
      open_executable (va_release a) (pv_manifest (va_verification a)) (pm_entry (pv_manifest (va_verification a))) = Some bs \<and>
      pg_limits p = pm_limits (pv_manifest (va_verification a))"
    then obtain a where a: "verify_installed_application env (vr_profile r) w app = Some a"
      "open_executable (va_release a) (pv_manifest (va_verification a)) (pm_entry (pv_manifest (va_verification a))) = Some bs"
      "pg_limits p = pm_limits (pv_manifest (va_verification a))" by blast
    note d = verify_installed_applicationD [OF a(1)]
    show ?thesis
      using a d(3,5) open_executable_packaged [OF d(6) a(2)] limits uid
      by (intro exI [of _ "va_package a"] exI [of _ "va_verification a"]
          exI [of _ "pm_entry (pv_manifest (va_verification a))"]) (simp add: d(4))
  next
    assume "open_built_in r app = Some p"
    then obtain path where path: "built_in_program_path app = Some path"
      "open_executable (vr_directory r) (pv_manifest (vr_verification r)) path = Some bs"
      "pg_limits p = pm_limits (pv_manifest (vr_verification r))"
      using p(2) by (auto simp: open_built_in_def split: option.splits)
    obtain package f where platform: "vr_verification r = trust_verify (en_trust env) (en_parse env) (en_crypto env) package"
      "pv_ok (vr_verification r)" "installed_files_match (vr_directory r) package (vr_verification r)"
      "pm_app_id (pv_manifest (vr_verification r)) = app_platform"
      "pm_release_counter (pv_manifest (vr_verification r)) = vr_counter r"
      using verify_active_releaseD [OF assms(1)] by metis
    have "app \<noteq> app_platform" using path(1)
      by (auto simp: built_in_program_path_def app_platform_def app_desktop_def app_game2048_def app_installer_def)
    then show ?thesis
      using path platform open_executable_packaged [OF platform(3) path(2)] limits uid
      by (intro exI [of _ package] exI [of _ "vr_verification r"] exI [of _ path]) (simp add: platform(1))
  qed
qed

end
