(* ===== verification/Platform_Sample.thy ===== *)
theory Platform_Sample
  imports Active_Release Application_Sample
begin

text \<open>
  A concrete platform release of two executables and the signed profile, byte for byte, that the
  session daemon verifies with the toy cryptographic library of the package sample.
\<close>

unbundle bit_operations_syntax

definition platform_file :: "string \<Rightarrow> string \<Rightarrow> int \<Rightarrow> int \<Rightarrow> json" where
  "platform_file path role mode bytes_count = JObject [(''mode'', JInt mode), (''path'', JString path), (''role'', JString role),
     (''sha256'', JString (concat (replicate 32 ''01''))), (''size'', JInt bytes_count)]"

definition platform_profile :: string where
  "platform_profile = profile_document sample_profile_lines"

definition platform_document :: json where
  "platform_document = JObject
    [(''appId'', JString ''top.lvgl.platform''), (''capabilities'', JArray []), (''entry'', JString ''bin/lvgl-sessiond''),
     (''files'', JArray [platform_file ''bin/lvgl-desktop'' ''executable'' 493 3,
        platform_file ''bin/lvgl-sessiond'' ''executable'' 493 3, platform_file ''profile.env'' ''asset'' 420 320]),
     (''formatVersion'', JInt 1),
     (''limits'', JObject [(''cpuSeconds'', JInt 1), (''dataMiB'', JInt 1), (''maxFiles'', JInt 1), (''memoryMiB'', JInt 8)]),
     (''minPlatformVersion'', JString ''1.0.0''), (''name'', JString ''x''),
     (''onlinePolicy'', JObject [(''mode'', JString ''offline-v1'')]),
     (''releaseCounter'', JInt 7), (''sdkAbi'', JString ''1.0''), (''securityEpoch'', JInt 0),
     (''signingKeyId'', JString (concat (replicate 16 ''01''))),
     (''supportedMachines'', JArray [JString ''armv7l'']), (''supportedProfiles'', JArray [JString ''pen-a'']),
     (''version'', JString ''1.0.0'')]"

definition platform_text :: string where "platform_text = the (canonical_json platform_document)"

definition platform_manifest :: package_manifest where
  "platform_manifest = the (parse_manifest platform_document)"

definition platform_entry :: "string \<Rightarrow> u16 \<Rightarrow> u64 \<Rightarrow> u64 \<Rightarrow> bytes" where
  "platform_entry path mode bytes_count offset =
     le_bytes 2 (word_of_nat (length path) :: u16) @ le_bytes 2 mode @ le_bytes 4 (0 :: u32) @ le_bytes 8 bytes_count @
     le_bytes 8 offset @ replicate 32 1 @ bytes_of path"

definition desktop_entry :: bytes where "desktop_entry = platform_entry ''bin/lvgl-desktop'' 493 3 0"
definition sessiond_entry :: bytes where "sessiond_entry = platform_entry ''bin/lvgl-sessiond'' 493 3 3"
definition profile_entry :: bytes where "profile_entry = platform_entry ''profile.env'' 420 320 6"

definition platform_header :: bytes where
  "platform_header = kPackageMagic @ [1, 0, 64, 0] @ le_bytes 4 (0 :: u32) @ le_bytes 4 (851 :: u32) @
     le_bytes 4 (3 :: u32) @ le_bytes 8 (212 :: u64) @ le_bytes 8 (326 :: u64) @ le_bytes 8 (1453 :: u64) @
     le_bytes 8 (1549 :: u64) @ le_bytes 4 (1 :: u32) @ le_bytes 4 (0 :: u32)"

definition platform_package :: bytes where
  "platform_package = platform_header @ bytes_of platform_text @ desktop_entry @ sessiond_entry @ profile_entry @
     bytes_of ''abc'' @ bytes_of ''def'' @ bytes_of platform_profile @ sample_envelope"

lemma platform_lengths:
  "length platform_header = 64" "length platform_text = 851" "length desktop_entry = 72" "length sessiond_entry = 73"
  "length profile_entry = 67" "length platform_profile = 320"
  by code_simp+

lemmas platform_parts = platform_package_def bytes_at_append_left bytes_at_append_right platform_lengths sample_lengths

lemma platform_in_parts:
  "off + n \<le> 64 \<Longrightarrow> bytes_at off n platform_package = bytes_at off n platform_header"
  "915 \<le> off \<Longrightarrow> off + n \<le> 987 \<Longrightarrow> bytes_at off n platform_package = bytes_at (off - 915) n desktop_entry"
  "987 \<le> off \<Longrightarrow> off + n \<le> 1060 \<Longrightarrow> bytes_at off n platform_package = bytes_at (off - 987) n sessiond_entry"
  "1060 \<le> off \<Longrightarrow> off + n \<le> 1127 \<Longrightarrow> bytes_at off n platform_package = bytes_at (off - 1060) n profile_entry"
  "1453 \<le> off \<Longrightarrow> off + n \<le> 1549 \<Longrightarrow> bytes_at off n platform_package = bytes_at (off - 1453) n sample_envelope"
  by (simp_all add: platform_parts)

lemma platform_in_text: "bytes_at 64 851 platform_package = bytes_of platform_text"
  using bytes_at_all [of "bytes_of platform_text"] by (simp add: platform_parts)

lemma platform_payload:
  "bytes_at 1127 3 platform_package = bytes_of ''abc''" "bytes_at 1130 3 platform_package = bytes_of ''def''"
  "bytes_at 1133 320 platform_package = bytes_of platform_profile"
  using bytes_at_all [of "bytes_of platform_profile"]
  by (simp_all add: platform_parts) (simp_all add: bytes_at_def bytes_of_def)

lemma platform_header_fields:
  "bytes_at 0 8 platform_header = kPackageMagic"
  "get_le 8 2 platform_header = (1 :: u16)" "get_le 10 2 platform_header = (64 :: u16)"
  "get_le 12 4 platform_header = (0 :: u32)" "get_le 16 4 platform_header = (851 :: u32)"
  "get_le 20 4 platform_header = (3 :: u32)" "get_le 24 8 platform_header = (212 :: u64)"
  "get_le 32 8 platform_header = (326 :: u64)" "get_le 40 8 platform_header = (1453 :: u64)"
  "get_le 48 8 platform_header = (1549 :: u64)" "get_le 56 4 platform_header = (1 :: u32)"
  "get_le 60 4 platform_header = (0 :: u32)"
  by code_simp+

lemma desktop_entry_fields:
  "get_le 0 2 desktop_entry = (16 :: u16)" "get_le 2 2 desktop_entry = (493 :: u16)"
  "get_le 4 4 desktop_entry = (0 :: u32)" "get_le 8 8 desktop_entry = (3 :: u64)"
  "get_le 16 8 desktop_entry = (0 :: u64)" "bytes_at 24 32 desktop_entry = replicate 32 1"
  "bytes_at 56 16 desktop_entry = bytes_of ''bin/lvgl-desktop''" "valid_path ''bin/lvgl-desktop''"
  by code_simp+

lemma sessiond_entry_fields:
  "get_le 0 2 sessiond_entry = (17 :: u16)" "get_le 2 2 sessiond_entry = (493 :: u16)"
  "get_le 4 4 sessiond_entry = (0 :: u32)" "get_le 8 8 sessiond_entry = (3 :: u64)"
  "get_le 16 8 sessiond_entry = (3 :: u64)" "bytes_at 24 32 sessiond_entry = replicate 32 1"
  "bytes_at 56 17 sessiond_entry = bytes_of ''bin/lvgl-sessiond''" "valid_path ''bin/lvgl-sessiond''"
  by code_simp+

lemma profile_entry_fields:
  "get_le 0 2 profile_entry = (11 :: u16)" "get_le 2 2 profile_entry = (420 :: u16)"
  "get_le 4 4 profile_entry = (0 :: u32)" "get_le 8 8 profile_entry = (320 :: u64)"
  "get_le 16 8 profile_entry = (6 :: u64)" "bytes_at 24 32 profile_entry = replicate 32 1"
  "bytes_at 56 11 profile_entry = bytes_of ''profile.env''" "valid_path ''profile.env''"
  by code_simp+

definition platform_files :: "package_file list" where
  "platform_files =
     [\<lparr>pf_path = ''bin/lvgl-desktop'', pf_role = ''executable'', pf_mode = 493, pf_size = 3, pf_offset = 0, pf_sha256 = replicate 32 1\<rparr>,
      \<lparr>pf_path = ''bin/lvgl-sessiond'', pf_role = ''executable'', pf_mode = 493, pf_size = 3, pf_offset = 3, pf_sha256 = replicate 32 1\<rparr>,
      \<lparr>pf_path = ''profile.env'', pf_role = ''asset'', pf_mode = 420, pf_size = 320, pf_offset = 6, pf_sha256 = replicate 32 1\<rparr>]"

text \<open>The manifest is evaluated once; the fields follow.\<close>

lemma platform_manifest_parsed:
  "map_option (\<lambda>m. (pm_app_id m, pm_entry m, pm_release_counter m, pm_supported_profiles m, pm_supported_machines m,
      pm_signing_key_id m,
      map (\<lambda>f. (pf_path f, pf_role f, pf_mode f, pf_size f, pf_offset f, pf_sha256 f)) (pm_files m)))
    (parse_manifest platform_document) =
   Some (''top.lvgl.platform'', ''bin/lvgl-sessiond'', 7, [''pen-a''], [''armv7l''], hex_of_bytes (replicate 16 1),
     [(''bin/lvgl-desktop'', ''executable'', 493, 3, 0, replicate 32 1),
      (''bin/lvgl-sessiond'', ''executable'', 493, 3, 0, replicate 32 1),
      (''profile.env'', ''asset'', 420, 320, 0, replicate 32 1)])"
  by code_simp

lemma platform_document_ok:
  "canonical_json platform_document = Some platform_text" "is_object platform_document"
  "parse_manifest platform_document = Some platform_manifest"
proof -
  have "canonical_json platform_document \<noteq> None" by code_simp
  then show "canonical_json platform_document = Some platform_text" by (simp add: platform_text_def)
  show "is_object platform_document" by (simp add: platform_document_def)
  show "parse_manifest platform_document = Some platform_manifest"
    using platform_manifest_parsed by (auto simp: platform_manifest_def)
qed

lemma platform_manifest_fields:
  "pm_signing_key_id platform_manifest = hex_of_bytes (replicate 16 1)" "pm_app_id platform_manifest = ''top.lvgl.platform''"
  "pm_entry platform_manifest = ''bin/lvgl-sessiond''" "pm_release_counter platform_manifest = 7"
  "pm_supported_profiles platform_manifest = [''pen-a'']" "pm_supported_machines platform_manifest = [''armv7l'']"
  using platform_manifest_parsed by (simp_all add: platform_document_ok(3))

lemma platform_manifest_files:
  "pm_files platform_manifest = map (\<lambda>f. f\<lparr>pf_offset := 0\<rparr>) platform_files"
proof -
  obtain f g h where fs: "pm_files platform_manifest = [f, g, h]"
    using platform_manifest_parsed by (auto simp: platform_document_ok(3) map_eq_Cons_conv)
  show ?thesis
    using platform_manifest_parsed
    by (cases f, cases g, cases h) (simp add: platform_document_ok(3) fs platform_files_def)
qed

lemma platform_file_count: "length (pm_files platform_manifest) = 3"
  by (simp add: platform_manifest_files platform_files_def)

lemma length_platform_package: "length platform_package = 1549"
  by (simp add: platform_package_def platform_lengths sample_lengths)

lemma platform_order: "\<not> ''bin/lvgl-sessiond'' \<le> ''bin/lvgl-desktop''" "\<not> ''profile.env'' \<le> ''bin/lvgl-sessiond''"
  by code_simp+

lemmas platform_entry_fields = desktop_entry_fields sessiond_entry_fields profile_entry_fields

lemma platform_table_ok:
  "table_loop sample_crypto platform_package 1127 326 915 0 [] (pm_files platform_manifest) = Inr (1127, 326, platform_files)"
  by (simp add: platform_manifest_files platform_files_def table_entry_def Let_def get_le_def platform_in_parts in_buffer_def
    length_platform_package platform_entry_fields [unfolded get_le_def] package_constants sha256_def digest_def
    sample_crypto_def platform_order)

lemma platform_signature:
  "verify_signature platform_package sample_crypto [\<lparr>tk_key = replicate 32 9, tk_production = True\<rparr>] 1453
     (pm_signing_key_id platform_manifest) = Inr ()"
  by (simp add: verify_signature_def platform_manifest_fields(1) Let_def get_le_def platform_in_parts in_buffer_def length_platform_package
    sample_envelope_fields [unfolded get_le_def] key_id_def sha256_def sha512_def digest_def sample_crypto_def verify_ed25519_def)

definition platform_verification :: package_verification where
  "platform_verification = \<lparr>pv_status = Pkg_verified, pv_detail = ''PACKAGE_VERIFIED'', pv_development = False,
     pv_signature_verified = True, pv_unsigned_size = 1453, pv_payload_start = 1127,
     pv_manifest = platform_manifest\<lparr>pm_files := platform_files\<rparr>\<rparr>"

lemma platform_key: "pm_signing_key_id platform_manifest \<noteq> replicate 32 (CHR ''0'')"
  using sample_document_ok(6) by (simp add: platform_manifest_fields)

lemma platform_trusted:
  "trust_verify (Some (replicate 32 9)) (\<lambda>_. Some platform_document) sample_crypto platform_package = platform_verification"
  by (simp add: trust_verify_def verify_package_def Let_def package_layout_ok_def length_platform_package platform_in_text
     package_constants get_le_def platform_in_parts platform_header_fields [unfolded get_le_def]
      kDevelopmentFlag_def checked_add_def in_buffer_def platform_document_ok platform_file_count
      platform_table_ok platform_signature platform_key pv_ok_def
      platform_verification_def)

section \<open>The running platform\<close>

definition platform_tree :: tree where
  "platform_tree path =
     (if path = [] \<or> path = [''bin''] then Some Directory
      else if path = [''.package.lvapp''] then Some (File 292 platform_package)
      else if path = [''bin'', ''lvgl-desktop''] then Some (File 493 (bytes_of ''abc''))
      else if path = [''bin'', ''lvgl-sessiond''] then Some (File 493 (bytes_of ''def''))
      else if path = [''profile.env''] then Some (File 420 (bytes_of platform_profile))
      else None)"

definition platform_home :: string where
  "platform_home = ''/userdisk/apps/lvgl-platform/apps/top.lvgl.platform/releases/7''"

definition sample_platform :: platform_system where
  "sample_platform = \<lparr>ps_self_exe = Some (platform_home @ ''/bin/lvgl-sessiond''),
     ps_current = Some ''apps/top.lvgl.platform/releases/7'',
     ps_directory = (\<lambda>path. if path = platform_home then Some platform_tree else None),
     ps_machine = Some ''armv7l''\<rparr>"

definition platform_environment :: install_environment where
  "platform_environment = \<lparr>en_parse = (\<lambda>_. Some platform_document), en_crypto = sample_crypto,
     en_trust = Some (replicate 32 9), en_payload_root = ''/userdisk/apps/lvgl-apps'',
     en_state_root = ''/userdisk/apps/lvgl-app-policy''\<rparr>"

definition sample_release :: verified_release where
  "sample_release = \<lparr>vr_directory = platform_tree, vr_counter = 7, vr_verification = platform_verification,
     vr_profile = sample_profile\<rparr>"

lemma self_release_resolved:
  "resolve_self_release (ps_self_exe sample_platform) (ps_current sample_platform) = Some (platform_home, 7)"
proof -
  define self where "self = platform_home @ ''/bin/lvgl-sessiond''"
  have parts: "take 1023 self = self" "self \<noteq> []" "length self = 80" "length kReleasePrefix = 61" "length kSessiondSuffix = 18"
    "take 61 self = kReleasePrefix" "drop 62 self = kSessiondSuffix" "take 1 (drop 61 self) = ''7''"
    "take 62 self = platform_home" "digits_value ''7'' = 7" "list_all is_digit ''7''" "release_name_of 7 = ''7''"
    unfolding self_def by code_simp+
  then show ?thesis
    by (simp add: resolve_self_release_def sample_platform_def self_def [symmetric] Let_def active_link_matches_def)
qed

lemma platform_paths:
  "session_split_path ''.package.lvapp'' = [''.package.lvapp'']"
  "session_split_path ''bin/lvgl-desktop'' = [''bin'', ''lvgl-desktop'']"
  "session_split_path ''bin/lvgl-sessiond'' = [''bin'', ''lvgl-sessiond'']"
  "session_split_path ''profile.env'' = [''profile.env'']"
  by code_simp+

lemma platform_opened:
  "open_release_file platform_tree ''.package.lvapp'' = Some (File 292 platform_package)"
  "open_release_file platform_tree ''bin/lvgl-desktop'' = Some (File 493 (bytes_of ''abc''))"
  "open_release_file platform_tree ''bin/lvgl-sessiond'' = Some (File 493 (bytes_of ''def''))"
  "open_release_file platform_tree ''profile.env'' = Some (File 420 (bytes_of platform_profile))"
  by (simp_all add: open_release_file_def platform_paths platform_tree_def upt_rec)

lemma platform_files_match: "installed_files_match platform_tree platform_package platform_verification"
  by (simp add: installed_files_match_def Let_def platform_verification_def length_platform_package platform_files_def
      platform_opened trusted_regular_def bytes_match_def platform_payload platform_lengths)

lemma platform_profile_parsed: "parse_session_profile platform_profile = Inr sample_profile"
  using parse_document [OF sample_lines_complete] sample_profile_parsed by (simp add: platform_profile_def)

lemma sample_platform_verified: "verify_active_release sample_platform platform_environment = Inr sample_release"
proof -
  have "platform_package \<noteq> []" using length_platform_package by auto
  then have package: "read_all (open_release_file platform_tree ''.package.lvapp'') kSessionMaximumPackageSize = Some platform_package"
    by (simp add: platform_opened read_all_def length_platform_package kSessionMaximumPackageSize_def)
  define f where "f = platform_files ! 2"
  have f: "find (\<lambda>f. pf_path f = ''profile.env'') platform_files = Some f" "pf_size f = 320" "pf_offset f = 6"
    by (simp_all add: platform_files_def f_def)
  have "profile_bytes platform_package platform_verification f = platform_profile"
    by (simp add: profile_bytes_def platform_verification_def f platform_payload)
  moreover have "package_supports_session_profile (platform_manifest\<lparr>pm_files := platform_files\<rparr>) sample_profile"
    by (simp add: package_supports_session_profile_def platform_manifest_fields sample_profile_def)
  ultimately show ?thesis
    using platform_files_match
    by (simp add: verify_active_release_def self_release_resolved [unfolded sample_platform_def, simplified]
        sample_platform_def platform_environment_def package platform_trusted platform_verification_def pv_ok_def
        platform_manifest_fields f platform_profile_parsed sample_release_def)
      (simp add: sample_profile_def)
qed

lemma desktop_opened:
  "open_verified_program platform_environment sample_profile [] w sample_release app_desktop =
     Some (bytes_of ''abc'', \<lparr>pp_limits = pm_limits platform_manifest, pp_private_storage = False,
       pp_uid = application_uid app_desktop, pp_gid = application_uid app_desktop\<rparr>)"
proof -
  have "application_uid_is_unique [] app_desktop" "reserved_application_id app_desktop" "app_desktop \<noteq> app_game2048"
    "built_in_program_path app_desktop = Some ''bin/lvgl-desktop''" "\<not> sp_personal_unbound sample_profile"
    by code_simp+
  then show ?thesis
    by (simp add: open_verified_program_def open_program_def open_built_in_def sample_release_def open_executable_def
        platform_opened platform_verification_def platform_files_def trusted_regular_def Let_def)
qed

lemma only_verified_programs_run_witness:
  "\<exists>package v path. v = trust_verify (Some (replicate 32 9)) (\<lambda>_. Some platform_document) sample_crypto package \<and> pv_ok v \<and>
     packaged_executable package v path (bytes_of ''abc'')"
proof -
  have "\<exists>package v path. v = trust_verify (en_trust platform_environment) (en_parse platform_environment)
      (en_crypto platform_environment) package \<and> pv_ok v \<and> packaged_executable package v path (bytes_of ''abc'')"
    using only_verified_programs_run [OF sample_platform_verified, of "[]" empty_world app_desktop "bytes_of ''abc''"]
      desktop_opened [of empty_world] by (auto simp: sample_release_def)
  then show ?thesis by (simp add: platform_environment_def)
qed

end
