(* ===== verification/Launcher.thy ===== *)
theory Launcher
  imports Active_Release Touch_Router
begin

text \<open>
  The launcher in the device's own shell (\<open>launcher/native/src/Launcher/Launcher.cpp\<close>): reading the
  status the session publishes, checking the installed platform, starting the session, and sending
  touch frames to it. The files, processes and sockets it sees are arguments.
\<close>

unbundle bit_operations_syntax

definition kSessiond :: string where
  "kSessiond = ''/userdisk/apps/lvgl-platform/current/bin/lvgl-sessiond''"

section \<open>Files\<close>

text \<open>An opened file: its type, owner and mode, its bytes, and whether reading yields exactly them.\<close>

record root_file =
  rf_regular :: bool
  rf_uid :: u32
  rf_mode :: u16
  rf_contents :: string
  rf_reads :: bool

definition safe_root_file :: "root_file option \<Rightarrow> bool \<Rightarrow> string option" where
  "safe_root_file descriptor executable =
     (case descriptor of
        None \<Rightarrow> Some ''required platform file is unavailable''
      | Some f \<Rightarrow>
          if \<not> rf_regular f then Some ''required platform file is unavailable''
          else if rf_uid f \<noteq> 0 \<or> rf_mode f AND 18 \<noteq> 0 \<or> (executable \<and> rf_mode f AND 64 = 0)
          then Some ''required platform file has unsafe ownership or mode''
          else None)"

definition read_small_file :: "root_file option \<Rightarrow> string" where
  "read_small_file descriptor =
     (if safe_root_file descriptor False \<noteq> None then []
      else let f = the descriptor in
        if rf_contents f = [] \<or> 4096 < length (rf_contents f) then []
        else if rf_reads f then rf_contents f else [])"

section \<open>The published status\<close>

text \<open>\<open>std::getline\<close> over the contents: a last line without its end counts, an empty rest does not.\<close>

function text_lines :: "string \<Rightarrow> string list" where
  "text_lines [] = []"
| "text_lines (c # cs) =
     takeWhile (\<lambda>x. x \<noteq> newline) (c # cs) #
       (case dropWhile (\<lambda>x. x \<noteq> newline) (c # cs) of [] \<Rightarrow> [] | _ # rest \<Rightarrow> text_lines rest)"
  by pat_completeness auto
termination
proof (relation "measure length")
  fix c cs s rest assume "dropWhile (\<lambda>x. x \<noteq> newline) (c # cs) = s # rest"
  then have "length (s # rest) \<le> length (c # cs)"
    using length_dropWhile_le [of "\<lambda>x. x \<noteq> newline" "c # cs"] by metis
  then show "(rest, c # cs) \<in> measure length" by simp
qed simp

definition status_line :: "(string \<rightharpoonup> string) \<Rightarrow> string \<Rightarrow> (string \<rightharpoonup> string)" where
  "status_line entries text =
     (let line = (if text \<noteq> [] \<and> last text = CHR 0x0D then butlast text else text);
          key = takeWhile (\<lambda>x. x \<noteq> equals) line;
          rest = dropWhile (\<lambda>x. x \<noteq> equals) line
      in if rest = [] \<or> key = [] \<or> 32 < length key \<or> 128 < length (tl rest) then entries
         else if entries key = None then entries(key \<mapsto> tl rest) else entries)"

definition parse_status :: "string \<Rightarrow> (string \<rightharpoonup> string)" where
  "parse_status contents = foldl status_line Map.empty (text_lines contents)"

definition is_space :: "char \<Rightarrow> bool" where
  "is_space c \<longleftrightarrow> code c \<in> {9, 10, 11, 12, 13, 32}"

text \<open>
  \<open>strtoull\<close> in base 10 on a whole string: white space, a sign (a negative number wraps around) and
  digits; \<open>None\<close> when there are no digits, something follows them, or the number is too large.
\<close>

definition strtoull_whole :: "string \<Rightarrow> u64 option" where
  "strtoull_whole text =
     (let t = dropWhile is_space text;
          negative = (t \<noteq> [] \<and> hd t = CHR ''-'');
          unsigned_text = (if t \<noteq> [] \<and> (hd t = CHR ''-'' \<or> hd t = CHR ''+'') then tl t else t);
          digits = takeWhile is_digit unsigned_text
      in if digits = [] \<or> 2 ^ 64 \<le> digits_value digits \<or> digits \<noteq> unsigned_text then None
         else Some (if negative then - word_of_nat (digits_value digits) else word_of_nat (digits_value digits)))"

definition launcher_unsigned :: "(string \<rightharpoonup> string) \<Rightarrow> string \<Rightarrow> u64" where
  "launcher_unsigned entries key =
     (case entries key of None \<Rightarrow> 0
      | Some v \<Rightarrow>
          if v = [] then 0
          else (case strtoull_whole (takeWhile (\<lambda>c. c \<noteq> CHR 0x00) v) of None \<Rightarrow> 0 | Some n \<Rightarrow> n))"

definition launcher_flag :: "(string \<rightharpoonup> string) \<Rightarrow> string \<Rightarrow> bool" where
  "launcher_flag entries key = (entries key = Some ''1'')"

section \<open>The launcher\<close>

record launcher_system =
  ls_executable :: "root_file option"
  ls_executable_again :: "root_file option"
  ls_profile :: "root_file option"
  ls_status :: "root_file option"
  ls_alive :: "int \<Rightarrow> bool"
  ls_exe :: "int \<Rightarrow> string option"
  ls_fork :: int
  ls_fork_error :: string
  ls_clock :: "(nat \<times> nat) option"
  ls_socket :: "(bool \<times> u32 \<times> u16) option"
  ls_socket_opens :: bool
  ls_socket_connects :: bool
  ls_socket_sends :: bool

record launcher =
  la_started :: int
  la_width :: int
  la_height :: int
  la_nonce :: u64
  la_sequence :: u64

definition new_launcher :: launcher where
  "new_launcher = \<lparr>la_started = 0, la_width = 0, la_height = 0, la_nonce = 0, la_sequence = 0\<rparr>"

record launcher_status =
  lu_available :: bool
  lu_accepted :: bool
  lu_hole_ready :: bool
  lu_input_ready :: bool
  lu_logical_width :: int
  lu_logical_height :: int
  lu_state :: string
  lu_session_pid :: int
  lu_result :: int
  lu_message :: string

definition idle_status :: launcher_status where
  "idle_status = \<lparr>lu_available = False, lu_accepted = False, lu_hole_ready = False, lu_input_ready = False,
     lu_logical_width = 0, lu_logical_height = 0, lu_state = ''idle'', lu_session_pid = 0, lu_result = 0,
     lu_message = []\<rparr>"

definition valid_session_process :: "launcher_system \<Rightarrow> int \<Rightarrow> bool" where
  "valid_session_process sys pid =
     (if pid \<le> 1 \<or> \<not> ls_alive sys pid then False
      else case ls_exe sys pid of None \<Rightarrow> False
        | Some target \<Rightarrow> target \<noteq> [] \<and> take 511 target = kSessiond)"

definition int_max :: int where "int_max = 2147483647"

definition launcher_read_status :: "launcher_system \<Rightarrow> launcher \<Rightarrow> launcher_status \<times> launcher" where
  "launcher_read_status sys l =
     (let entries = parse_status (read_small_file (ls_status sys));
          pid = launcher_unsigned entries ''SESSION_PID'';
          nonce = launcher_unsigned entries ''SESSION_NONCE''
      in if int_max < uint pid \<or> nonce = 0 \<or> \<not> valid_session_process sys (uint pid)
      then if 1 < la_started l \<and> valid_session_process sys (la_started l)
           then (idle_status\<lparr>lu_state := ''launching'', lu_session_pid := la_started l\<rparr>, l)
           else if 1 < la_started l then (idle_status, l\<lparr>la_started := 0\<rparr>)
           else (idle_status, l)
      else
        let state = (case entries ''STATE'' of None \<Rightarrow> ''idle''
              | Some s \<Rightarrow> if s = ''starting'' \<or> s = ''ready'' \<or> s = ''error'' then s else ''idle'');
            hole_ready = (state = ''ready'' \<and> launcher_flag entries ''HOLE_READY'');
            dimensions_valid =
              (launcher_unsigned entries ''LOGICAL_WIDTH'' = word_of_int (la_width l) \<and>
               launcher_unsigned entries ''LOGICAL_HEIGHT'' = word_of_int (la_height l) \<and>
               0 < la_width l \<and> 0 < la_height l)
        in (idle_status\<lparr>lu_session_pid := uint pid, lu_state := state,
              lu_result := min (uint (launcher_unsigned entries ''RESULT'')) int_max,
              lu_hole_ready := hole_ready,
              lu_input_ready := hole_ready \<and> dimensions_valid \<and> launcher_flag entries ''INPUT_READY'',
              lu_logical_width := la_width l, lu_logical_height := la_height l\<rparr>,
            if la_nonce l \<noteq> nonce then l\<lparr>la_nonce := nonce, la_sequence := 0\<rparr> else l))"

definition launcher_validate_release :: "launcher_system \<Rightarrow> launcher \<Rightarrow> string option \<times> launcher" where
  "launcher_validate_release sys l =
     (let l0 = l\<lparr>la_width := 0, la_height := 0\<rparr> in
      case safe_root_file (ls_executable sys) True of
        Some error \<Rightarrow> (Some error, l0)
      | None \<Rightarrow>
        let profile = parse_status (read_small_file (ls_profile sys));
            width = launcher_unsigned profile ''LOGICAL_WIDTH'';
            height = launcher_unsigned profile ''LOGICAL_HEIGHT''
        in if width < 240 \<or> 4096 < width \<or> height < 80 \<or> 2048 < height \<or>
              (\<not> launcher_flag profile ''HOLE_SESSION_CERTIFIED'' \<and> \<not> launcher_flag profile ''PERSONAL_UNBOUND'')
           then (Some ''installed platform profile does not permit Falcon hole sessions'', l0)
           else (None, l\<lparr>la_width := uint width, la_height := uint height\<rparr>))"

definition launcher_probe :: "launcher_system \<Rightarrow> launcher \<Rightarrow> launcher_status \<times> launcher" where
  "launcher_probe sys l =
     (let (error, l1) = launcher_validate_release sys l;
          (result, l2) = (if error = None then launcher_read_status sys l1 else (idle_status, l1))
      in (result\<lparr>lu_available := (error = None), lu_logical_width := la_width l2, lu_logical_height := la_height l2,
            lu_message := (case error of None \<Rightarrow> ''ready'' | Some e \<Rightarrow> e)\<rparr>, l2))"

definition launcher_start :: "launcher_system \<Rightarrow> launcher \<Rightarrow> launcher_status \<times> launcher" where
  "launcher_start sys l =
     (case launcher_validate_release sys l of
        (Some error, l1) \<Rightarrow> (idle_status\<lparr>lu_message := error\<rparr>, l1)
      | (None, l1) \<Rightarrow>
        let (status, l2) = launcher_read_status sys l1;
            result = status\<lparr>lu_logical_width := la_width l2, lu_logical_height := la_height l2\<rparr>
        in case safe_root_file (ls_executable_again sys) True of
          Some error \<Rightarrow> (result\<lparr>lu_message := error\<rparr>, l2)
        | None \<Rightarrow>
          if 1 < lu_session_pid result \<and>
             (lu_state result = ''launching'' \<or> lu_state result = ''starting'' \<or> lu_state result = ''ready'')
          then (result\<lparr>lu_available := True,
                  lu_state := (if lu_hole_ready result then ''ready'' else ''launching''),
                  lu_message := ''LVGL session is already active''\<rparr>, l2)
          else if ls_fork sys < 0
          then (result\<lparr>lu_available := True, lu_message := ''fork failed: '' @ ls_fork_error sys\<rparr>, l2)
          else (result\<lparr>lu_available := True, lu_accepted := True, lu_state := ''launching'',
                  lu_session_pid := ls_fork sys, lu_message := ''launch accepted''\<rparr>,
                l2\<lparr>la_started := ls_fork sys, la_nonce := 0, la_sequence := 0\<rparr>))"

section \<open>Touch frames\<close>

record touch_request =
  tq_phase :: string
  tq_contact_id :: u32
  tq_x :: int
  tq_y :: int

definition launcher_phase_value :: "string \<Rightarrow> u32" where
  "launcher_phase_value phase =
     (if phase = ''start'' then 1 else if phase = ''move'' then 2 else if phase = ''end'' then 3
      else if phase = ''cancel'' then 4 else 0)"

definition launcher_frame_writes :: "u64 \<Rightarrow> u64 \<Rightarrow> u64 \<Rightarrow> u32 \<Rightarrow> touch_request \<Rightarrow> (nat \<times> bytes) list" where
  "launcher_frame_writes nonce sequence monotonic_us phase q =
     [(0, le_bytes 4 (0x4C565450 :: u32)), (4, le_bytes 2 (1 :: u16)), (6, le_bytes 2 (56 :: u16)),
      (8, le_bytes 8 nonce), (16, le_bytes 8 sequence), (24, le_bytes 8 monotonic_us), (32, le_bytes 4 phase),
      (36, le_bytes 4 (tq_contact_id q)), (40, le_bytes 4 (word_of_int (tq_x q) :: i32)),
      (44, le_bytes 4 (word_of_int (tq_y q) :: i32))]"

definition launcher_monotonic_us :: "nat \<times> nat \<Rightarrow> u64" where
  "launcher_monotonic_us clock = word_of_nat (fst clock) * 1000000 + word_of_nat (snd clock div 1000)"

definition launcher_send_touch :: "launcher_system \<Rightarrow> touch_request \<Rightarrow> launcher \<Rightarrow> (string + bytes) \<times> launcher" where
  "launcher_send_touch sys q l =
     (let (status, l1) = launcher_read_status sys l;
          phase = launcher_phase_value (tq_phase q)
      in if \<not> lu_input_ready status \<or> la_nonce l1 = 0 then (Inl ''LVGL touch channel is not ready'', l1)
      else if phase = 0 \<or> 31 < tq_contact_id q \<or> la_width l1 \<le> 0 \<or> la_height l1 \<le> 0 \<or> tq_x q < 0 \<or>
              la_width l1 \<le> tq_x q \<or> tq_y q < 0 \<or> la_height l1 \<le> tq_y q \<or> la_sequence l1 = - 1
      then (Inl ''touch frame is invalid'', l1)
      else case ls_clock sys of None \<Rightarrow> (Inl ''monotonic clock is unavailable'', l1)
      | Some clock \<Rightarrow>
      if launcher_monotonic_us clock = 0 then (Inl ''monotonic timestamp is invalid'', l1)
      else case ls_socket sys of None \<Rightarrow> (Inl ''touch socket is untrusted'', l1)
      | Some (is_socket, uid, mode) \<Rightarrow>
      if \<not> is_socket \<or> uid \<noteq> 0 \<or> mode AND 18 \<noteq> 0 then (Inl ''touch socket is untrusted'', l1)
      else if \<not> ls_socket_opens sys then (Inl ''touch socket cannot be opened'', l1)
      else if \<not> ls_socket_connects sys then (Inl ''touch socket cannot be connected'', l1)
      else let sequence = la_sequence l1 + 1;
               frame = puts (launcher_frame_writes (la_nonce l1) sequence (launcher_monotonic_us clock) phase q)
                         (replicate 56 0)
           in (if ls_socket_sends sys then Inr frame else Inl ''touch frame was not delivered'',
               l1\<lparr>la_sequence := sequence\<rparr>))"

section \<open>Reading back what the session publishes\<close>

lemma text_lines_line: "newline \<notin> set line \<Longrightarrow> text_lines (line @ newline # rest) = line # text_lines rest"
proof -
  assume line: "newline \<notin> set line"
  obtain c cs where cs: "line @ newline # rest = c # cs" by (cases line) auto
  show ?thesis using takeWhile_until [OF line, of rest] unfolding cs by simp
qed

lemma text_lines_document:
  "list_all (\<lambda>(k, v). newline \<notin> set k \<and> newline \<notin> set v) kvs \<Longrightarrow>
   text_lines (profile_document kvs) = map (\<lambda>(k, v). k @ equals # v) kvs"
proof (induction kvs)
  case Nil
  then show ?case by (simp add: profile_document_def)
next
  case (Cons kv kvs)
  obtain k v where kv: "kv = (k, v)" by fastforce
  have "newline \<notin> set (k @ equals # v)" using Cons.prems by (auto simp: kv newline_def equals_def)
  then have "text_lines ((k @ equals # v) @ newline # profile_document kvs) =
      (k @ equals # v) # text_lines (profile_document kvs)" by (rule text_lines_line)
  moreover have "profile_document (kv # kvs) = (k @ equals # v) @ newline # profile_document kvs"
    by (simp add: profile_document_def profile_line_def kv)
  ultimately show ?case using Cons by (simp add: kv)
qed

text \<open>A field a status line can carry.\<close>

definition status_field :: "string \<times> string \<Rightarrow> bool" where
  "status_field kv \<longleftrightarrow> fst kv \<noteq> [] \<and> length (fst kv) \<le> 32 \<and> equals \<notin> set (fst kv) \<and> newline \<notin> set (fst kv) \<and>
     length (snd kv) \<le> 128 \<and> newline \<notin> set (snd kv) \<and> CHR 0x0D \<notin> set (snd kv)"

lemma status_line_field:
  assumes "status_field (k, v)" "entries k = None"
  shows "status_line entries (k @ equals # v) = entries(k \<mapsto> v)"
proof -
  have "last (k @ equals # v) \<noteq> CHR 0x0D"
  proof (cases "v = []")
    case False
    then show ?thesis using assms(1) last_in_set [OF False] by (metis last.simps last_append list.distinct(1) snd_conv status_field_def)
  qed (simp add: equals_def)
  then show ?thesis
    using assms takeWhile_until [of equals k v] by (auto simp: status_line_def Let_def status_field_def)
qed

lemma parse_status_fields:
  assumes "list_all status_field kvs" "distinct (map fst kvs)"
  shows "parse_status (profile_document kvs) = map_of kvs"
proof -
  have "foldl status_line entries (map (\<lambda>(k, v). k @ equals # v) kvs) = entries ++ map_of kvs"
    if "list_all (\<lambda>kv. entries (fst kv) = None) kvs" for entries
    using assms that
  proof (induction kvs arbitrary: entries)
    case (Cons kv kvs)
    obtain k v where kv: "kv = (k, v)" by fastforce
    have "map_of kvs k = None" using Cons.prems(2) by (simp add: kv map_of_eq_None_iff)
    then have merge: "entries(k \<mapsto> v) ++ map_of kvs = entries ++ (map_of kvs)(k \<mapsto> v)"
      by (auto simp: fun_eq_iff map_add_def split: option.split)
    have "list_all (\<lambda>kv. (entries(k \<mapsto> v)) (fst kv) = None) kvs"
      using Cons.prems(2,3) by (fastforce simp: kv list_all_iff)
    then have "foldl status_line (entries(k \<mapsto> v)) (map (\<lambda>(k, v). k @ equals # v) kvs) = entries(k \<mapsto> v) ++ map_of kvs"
      using Cons.prems by (intro Cons.IH) simp_all
    then show ?case using Cons.prems status_line_field [of k v entries] unfolding merge
      by (simp add: kv) (auto simp: fun_eq_iff map_add_def split: option.split)
  qed simp
  from this [of Map.empty] have "foldl status_line Map.empty (map (\<lambda>(k, v). k @ equals # v) kvs) = map_of kvs"
    by (simp add: list_all_iff)
  moreover have "text_lines (profile_document kvs) = map (\<lambda>(k, v). k @ equals # v) kvs"
    using assms(1) by (intro text_lines_document) (auto simp: list_all_iff status_field_def)
  ultimately show ?thesis unfolding parse_status_def by simp
qed

lemma dec_string_length: "n < 10 ^ k \<Longrightarrow> 0 < k \<Longrightarrow> length (dec_string n) \<le> k"
proof (induction k arbitrary: n)
  case (Suc k)
  show ?case
  proof (cases "n < 10")
    case True
    then show ?thesis by (simp add: dec_string.simps)
  next
    case False
    then have "0 < k" using Suc.prems by (cases k) auto
    moreover have "n div 10 < 10 ^ k" using Suc.prems(1) by simp
    ultimately show ?thesis using Suc.IH False by (subst dec_string.simps) simp
  qed
qed simp

lemma digit_chars: "is_digit c \<Longrightarrow> \<not> is_space c \<and> c \<noteq> CHR ''-'' \<and> c \<noteq> CHR ''+'' \<and> c \<noteq> CHR 0x00 \<and> c \<noteq> newline \<and>
    c \<noteq> equals \<and> c \<noteq> CHR 0x0D"
  by (auto simp: is_digit_def is_space_def code_def newline_def equals_def)

lemma strtoull_whole_number:
  assumes "n < 2 ^ 64"
  shows "strtoull_whole (takeWhile (\<lambda>c. c \<noteq> CHR 0x00) (dec_string n)) = Some (word_of_nat n)"
proof -
  define ds where "ds = dec_string n"
  have digits: "\<forall>c \<in> set ds. is_digit c" "ds \<noteq> []" using dec_string_digits [of n] by (simp_all add: ds_def list_all_iff)
  have whole: "takeWhile (\<lambda>c. c \<noteq> CHR 0x00) ds = ds" "takeWhile is_digit ds = ds"
    using digits digit_chars by (simp_all add: takeWhile_eq_all_conv)
  have start: "dropWhile is_space ds = ds" "hd ds \<noteq> CHR ''-''" "hd ds \<noteq> CHR ''+''"
    using digits digit_chars by (cases ds; simp)+
  have "strtoull_whole ds = Some (word_of_nat n)"
  proof -
    have sign: "(if ds \<noteq> [] \<and> (hd ds = CHR ''-'' \<or> hd ds = CHR ''+'') then tl ds else ds) = ds" using start(2,3) by simp
    show ?thesis
      unfolding strtoull_whole_def Let_def start(1) sign whole(2)
      using start(2) digits(2) assms dec_string_value [of n] by (simp add: ds_def)
  qed
  then show ?thesis unfolding ds_def [symmetric] whole(1) .
qed

lemma launcher_unsigned_number:
  assumes "entries key = Some (dec_string n)" "n < 2 ^ 64"
  shows "launcher_unsigned entries key = word_of_nat n"
  using strtoull_whole_number [OF assms(2)] dec_string_digits [of n] assms(1) by (simp add: launcher_unsigned_def)

lemma number_field: "k \<noteq> [] \<Longrightarrow> length k \<le> 32 \<Longrightarrow> equals \<notin> set k \<Longrightarrow> newline \<notin> set k \<Longrightarrow> n < 2 ^ 64 \<Longrightarrow>
    status_field (k, dec_string n)"
  using dec_string_length [of n 20] dec_string_digits [of n] digit_chars by (auto simp: status_field_def list_all_iff)

text \<open>The status fields a \<open>int\<close> can hold.\<close>

definition status_typed :: "session_status \<Rightarrow> bool" where
  "status_typed s \<longleftrightarrow> ss_session_pid s \<le> int_max \<and> ss_result s \<le> int_max \<and> ss_logical_width s \<le> int_max \<and>
     ss_logical_height s \<le> int_max"

lemma published_status_parsed:
  assumes "publishable s" "status_typed s"
  shows "parse_status (encode_session_status s) = map_of (status_fields s)"
proof -
  define names where "names = [''SESSION_PID'', ''SESSION_NONCE'', ''RESULT'', ''LOGICAL_WIDTH'', ''LOGICAL_HEIGHT'']"
  have "list_all (\<lambda>k. k \<noteq> [] \<and> length k \<le> 32 \<and> equals \<notin> set k \<and> newline \<notin> set k) names"
    unfolding names_def by code_simp
  then have unsigned: "status_field (k, dec_string n)" if "k \<in> set names" "n < 2 ^ 64" for k n
    using that by (intro number_field) (auto simp: list_all_iff)
  have signed: "status_field (k, dec_string_int z)" if "k \<in> set names" "0 \<le> z" "z \<le> int_max" for k z
  proof -
    have "dec_string_int z = dec_string (nat z)" using that(2) by (simp add: dec_string_int_def)
    moreover have "nat z < 2 ^ 64" using that(3) by (simp add: int_max_def)
    ultimately show ?thesis using unsigned [OF that(1)] by metis
  qed
  have flags: "status_field (''HOLE_READY'', if b then ''1'' else ''0'')" "status_field (''INPUT_READY'', if b then ''1'' else ''0'')" for b
    by (cases b; simp add: status_field_def equals_def newline_def)+
  have state: "status_field (''STATE'', state_name (ss_state s))"
    by (cases "ss_state s"; simp add: status_field_def equals_def newline_def)
  have ranges: "0 \<le> ss_session_pid s" "0 \<le> ss_result s" "0 \<le> ss_logical_width s" "0 \<le> ss_logical_height s"
    "ss_session_pid s \<le> int_max" "ss_result s \<le> int_max" "ss_logical_width s \<le> int_max" "ss_logical_height s \<le> int_max"
    using assms by (auto simp: publishable_def status_typed_def)
  have "unat (ss_session_nonce s) < 2 ^ 64" using unsigned_less [of "ss_session_nonce s"] by simp
  then have "list_all status_field (status_fields s)"
    unfolding status_fields_def list.pred_inject
    by (intro conjI TrueI flags state signed unsigned ranges) (simp_all add: names_def)
  moreover have "distinct (map fst (status_fields s))" by (simp add: status_fields_def)
  ultimately show ?thesis using parse_status_fields assms(1) by (simp add: encode_session_status_def)
qed

lemma published_status_fields:
  assumes "publishable s" "status_typed s"
  defines "entries \<equiv> parse_status (encode_session_status s)"
  shows "uint (launcher_unsigned entries ''SESSION_PID'') = ss_session_pid s"
    "launcher_unsigned entries ''SESSION_NONCE'' = ss_session_nonce s" "entries ''STATE'' = Some (state_name (ss_state s))"
    "uint (launcher_unsigned entries ''RESULT'') = ss_result s"
    "launcher_flag entries ''HOLE_READY'' = ss_hole_ready s" "launcher_flag entries ''INPUT_READY'' = ss_input_ready s"
    "uint (launcher_unsigned entries ''LOGICAL_WIDTH'') = ss_logical_width s"
    "uint (launcher_unsigned entries ''LOGICAL_HEIGHT'') = ss_logical_height s"
proof -
  have entries: "entries = map_of (status_fields s)" unfolding entries_def by (rule published_status_parsed [OF assms(1,2)])
  have signed: "uint (launcher_unsigned entries k) = z" if "entries k = Some (dec_string_int z)" "0 \<le> z" "z \<le> int_max" for k z
  proof -
    have "entries k = Some (dec_string (nat z))" using that(1,2) by (simp add: dec_string_int_def)
    then have "launcher_unsigned entries k = word_of_nat (nat z)"
      using that(3) by (intro launcher_unsigned_number) (simp_all add: int_max_def)
    moreover have "nat z < 2 ^ 64" using that(3) by (simp add: int_max_def)
    then have "unat (word_of_nat (nat z) :: u64) = nat z" by (simp add: unat_of_nat take_bit_nat_eq_self)
    then have "uint (word_of_nat (nat z) :: u64) = z" using that(2) by (metis nat_0_le uint_nat)
    ultimately show ?thesis by simp
  qed
  have ranges: "0 \<le> ss_session_pid s" "0 \<le> ss_result s" "0 \<le> ss_logical_width s" "0 \<le> ss_logical_height s"
    "ss_session_pid s \<le> int_max" "ss_result s \<le> int_max" "ss_logical_width s \<le> int_max" "ss_logical_height s \<le> int_max"
    using assms(1,2) by (auto simp: publishable_def status_typed_def)
  show "uint (launcher_unsigned entries ''SESSION_PID'') = ss_session_pid s"
    "uint (launcher_unsigned entries ''RESULT'') = ss_result s"
    "uint (launcher_unsigned entries ''LOGICAL_WIDTH'') = ss_logical_width s"
    "uint (launcher_unsigned entries ''LOGICAL_HEIGHT'') = ss_logical_height s"
    by (rule signed; simp add: entries status_fields_def ranges)+
  have "launcher_unsigned entries ''SESSION_NONCE'' = word_of_nat (unat (ss_session_nonce s))"
    using unsigned_less [of "ss_session_nonce s"]
    by (intro launcher_unsigned_number) (simp_all add: entries status_fields_def)
  then show "launcher_unsigned entries ''SESSION_NONCE'' = ss_session_nonce s" by simp
  show "entries ''STATE'' = Some (state_name (ss_state s))"
    "launcher_flag entries ''HOLE_READY'' = ss_hole_ready s" "launcher_flag entries ''INPUT_READY'' = ss_input_ready s"
    by (simp_all add: entries status_fields_def launcher_flag_def)
qed

text \<open>The sizes of the launcher's state fit an \<open>int32_t\<close>.\<close>

definition launcher_typed :: "launcher \<Rightarrow> bool" where
  "launcher_typed l \<longleftrightarrow> 0 \<le> la_width l \<and> la_width l \<le> int_max \<and> 0 \<le> la_height l \<and> la_height l \<le> int_max"

section \<open>Frames\<close>

lemma sint_on_screen: "0 \<le> z \<Longrightarrow> z < sint (w :: i32) \<Longrightarrow> sint (word_of_int z :: i32) = z"
  using sint_lt [of w] by (simp add: sint_uint word_of_int_inverse take_bit_int_eq_self signed_take_bit_int_eq_self)

lemma launcher_frame_decoded:
  assumes "nonce \<noteq> 0" "sequence \<noteq> 0" "us \<noteq> 0" "launcher_phase_value (tq_phase q) \<noteq> 0" "tq_contact_id q \<le> 31"
    and "0 \<le> tq_x q" "tq_x q < sint width" "0 \<le> tq_y q" "tq_y q < sint height"
  shows "decoded_touch_frame width height
      (puts (launcher_frame_writes nonce sequence us (launcher_phase_value (tq_phase q)) q) (replicate 56 0)) =
    Some \<lparr>tf_session_nonce = nonce, tf_sequence = sequence, tf_monotonic_us = us,
      tf_phase = touch_phase_of (launcher_phase_value (tq_phase q)), tf_contact_id = tq_contact_id q,
      tf_x = word_of_int (tq_x q), tf_y = word_of_int (tq_y q), tf_flags = 0\<rparr>"
proof -
  define ws where "ws = launcher_frame_writes nonce sequence us (launcher_phase_value (tq_phase q)) q"
  define bs where "bs = puts ws (replicate 56 (0 :: u8))"
  have ok: "writes_ok 56 ws" by (simp add: ws_def launcher_frame_writes_def)
  have field: "get_le off n bs = le_word b" if "(off, b) \<in> set ws" "n = length b" for off n b
    using bytes_at_puts [of "replicate 56 0" ws off b n] ok that by (simp add: get_le_def bs_def)
  have rest: "get_le off 4 bs = (0 :: u32)" if "off = 48 \<or> off = 52" for off
  proof -
    have "bytes_at off 4 bs = bytes_at off 4 (replicate 56 0)"
      unfolding bs_def using ok that by (intro bytes_at_puts_other) (auto simp: ws_def launcher_frame_writes_def)
    then show ?thesis using that by (auto simp: get_le_def)
  qed
  have len: "length bs = 56" using ok by (simp add: bs_def)
  have phase: "valid_phase (touch_phase_of (launcher_phase_value (tq_phase q)))"
    using assms(4) by (auto simp: launcher_phase_value_def touch_phase_of_def split: if_splits)
  show ?thesis
    unfolding decoded_touch_frame_def decode_touch_frame_def Let_def bs_def [symmetric] ws_def [symmetric] parse_touch_frame_def
    using assms phase sint_on_screen [OF assms(6,7)] sint_on_screen [OF assms(8,9)]
    by (simp add: len rest field ws_def launcher_frame_writes_def kTouchFrameWireSize_def kTouchFrameMagic_def
        kTouchProtocolVersion_def valid_touch_frame_def kMaxTouchContactId_def)
qed

text \<open>A frame that was sent, and the state it leaves.\<close>

lemma launcher_send_touchD:
  assumes "launcher_send_touch sys q l = (Inr frame, l')" "launcher_read_status sys l = (status, l1)"
  obtains clock where "lu_input_ready status" "la_nonce l1 \<noteq> 0" "launcher_phase_value (tq_phase q) \<noteq> 0" "tq_contact_id q \<le> 31"
    "0 \<le> tq_x q" "tq_x q < la_width l1" "0 \<le> tq_y q" "tq_y q < la_height l1" "la_sequence l1 \<noteq> - 1"
    "ls_clock sys = Some clock" "launcher_monotonic_us clock \<noteq> 0"
    "frame = puts (launcher_frame_writes (la_nonce l1) (la_sequence l1 + 1) (launcher_monotonic_us clock)
       (launcher_phase_value (tq_phase q)) q) (replicate 56 0)"
    "l' = l1\<lparr>la_sequence := la_sequence l1 + 1\<rparr>"
  using assms unfolding launcher_send_touch_def Let_def
  by (auto split: if_split_asm option.split_asm prod.split_asm simp: not_le not_less)

section \<open>Properties\<close>

text \<open>The launcher reads back the status the session publishes: the process, the state, the result and
  the flags, input being ready only for a screen of the size the launcher knows; a new session nonce
  restarts its frame numbers.\<close>

theorem published_status_read:
  assumes "publishable s" "status_typed s" "read_small_file (ls_status sys) = encode_session_status s"
    and "valid_session_process sys (ss_session_pid s)" "launcher_typed l"
  shows "launcher_read_status sys l =
    (idle_status\<lparr>lu_session_pid := ss_session_pid s,
       lu_state := (if ss_state s = Session_stopped then ''idle'' else state_name (ss_state s)),
       lu_result := ss_result s, lu_hole_ready := ss_hole_ready s,
       lu_input_ready := ss_input_ready s \<and> ss_logical_width s = la_width l \<and> ss_logical_height s = la_height l,
       lu_logical_width := la_width l, lu_logical_height := la_height l\<rparr>,
     if la_nonce l \<noteq> ss_session_nonce s then l\<lparr>la_nonce := ss_session_nonce s, la_sequence := 0\<rparr> else l)"
proof -
  note f = published_status_fields [OF assms(1,2)]
  have pub: "ss_session_nonce s \<noteq> 0" "0 < ss_logical_width s" "0 < ss_logical_height s"
    "ss_hole_ready s \<Longrightarrow> ss_state s = Session_ready" "ss_input_ready s \<Longrightarrow> ss_hole_ready s"
    using assms(1) by (auto simp: publishable_def)
  have eq: "(w = word_of_int z) = (uint w = z)" if "0 \<le> z" "z \<le> int_max" for w :: u64 and z
  proof -
    have "uint (word_of_int z :: u64) = z" using that by (simp add: int_max_def unsigned_of_int take_bit_int_eq_self)
    then show ?thesis by (metis word_of_int_uint)
  qed
  have sizes: "0 \<le> la_width l" "la_width l \<le> int_max" "0 \<le> la_height l" "la_height l \<le> int_max"
    using assms(5) by (simp_all add: launcher_typed_def)
  have ranges: "ss_session_pid s \<le> int_max" "ss_result s \<le> int_max" using assms(2) by (simp_all add: status_typed_def)
  have state: "(case Some (state_name (ss_state s)) of None \<Rightarrow> ''idle''
      | Some t \<Rightarrow> if t = ''starting'' \<or> t = ''ready'' \<or> t = ''error'' then t else ''idle'') =
    (if ss_state s = Session_stopped then ''idle'' else state_name (ss_state s))"
    "((if ss_state s = Session_stopped then ''idle'' else state_name (ss_state s)) = ''ready'') = (ss_state s = Session_ready)"
    by (cases "ss_state s"; simp)+
  have hole: "(ss_state s = Session_ready \<and> ss_hole_ready s) = ss_hole_ready s" using pub(4) by blast
  have input: "(ss_hole_ready s \<and> (ss_logical_width s = la_width l \<and> ss_logical_height s = la_height l \<and>
      0 < la_width l \<and> 0 < la_height l) \<and> ss_input_ready s) =
    (ss_input_ready s \<and> ss_logical_width s = la_width l \<and> ss_logical_height s = la_height l)"
    using pub(2,3,5) by auto
  have process: "\<not> (int_max < ss_session_pid s \<or> ss_session_nonce s = 0 \<or> \<not> valid_session_process sys (ss_session_pid s))"
    using pub(1) ranges(1) assms(4) by simp
  have result: "min (ss_result s) int_max = ss_result s" using ranges(2) by simp
  show ?thesis
    unfolding launcher_read_status_def Let_def assms(3) f(1) f(2) f(3) state f(4-6) eq [OF sizes(1,2)] eq [OF sizes(3,4)] f(7,8)
      hole input result if_not_P [OF process] ..
qed

text \<open>C38. The launcher's test for a running session fails for every executable the session daemon accepts
  to run from: it compares the resolved link of the process with the path through \<open>current\<close>, which
  is itself a link. So where the session runs and no other process is visible, the launcher reports no
  session, refuses every touch, and a second start is accepted.\<close>

theorem launcher_misses_session:
  assumes "resolve_self_release (Some exe) link \<noteq> None" "\<And>pid. ls_exe sys pid = Some exe"
  shows "\<not> valid_session_process sys pid \<and>
    lu_session_pid (fst (launcher_read_status sys l)) = 0 \<and> lu_state (fst (launcher_read_status sys l)) = ''idle'' \<and>
    fst (launcher_send_touch sys q l) = Inl ''LVGL touch channel is not ready'' \<and>
    (lu_accepted (fst (launcher_start sys l)) \<longleftrightarrow>
       fst (launcher_validate_release sys l) = None \<and> safe_root_file (ls_executable_again sys) True = None \<and> 0 \<le> ls_fork sys)"
proof -
  have "take (length kReleasePrefix) (take 1023 exe) = kReleasePrefix"
    using assms(1) by (simp add: resolve_self_release_def Let_def split: if_splits)
  moreover have "length kReleasePrefix = 61" by code_simp
  ultimately have prefix: "take 61 (take 1023 exe) = kReleasePrefix" by metis
  have "take 61 kSessiond \<noteq> kReleasePrefix" by code_simp
  moreover have "take 61 (take 511 exe) = take 61 (take 1023 exe)" by simp
  ultimately have "take 511 exe \<noteq> kSessiond" using prefix by metis
  then have no: "\<not> valid_session_process sys pid" for pid by (simp add: valid_session_process_def assms(2))
  have idle: "\<exists>l'. launcher_read_status sys l = (idle_status, l')" for l
    unfolding launcher_read_status_def Let_def by (simp add: no)
  obtain l1 where l1: "launcher_read_status sys l = (idle_status, l1)" using idle by blast
  obtain error l2 where l2: "launcher_validate_release sys l = (error, l2)" by fastforce
  obtain l3 where l3: "launcher_read_status sys l2 = (idle_status, l3)" using idle by blast
  have fields: "\<not> lu_input_ready idle_status" "lu_session_pid idle_status = 0" "lu_state idle_status = ''idle''"
    "\<not> lu_accepted idle_status" by (simp_all add: idle_status_def)
  have touch: "fst (launcher_send_touch sys q l) = Inl ''LVGL touch channel is not ready''"
    by (simp add: launcher_send_touch_def l1 fields)
  have "lu_accepted (fst (launcher_start sys l)) \<longleftrightarrow> error = None \<and> safe_root_file (ls_executable_again sys) True = None \<and> 0 \<le> ls_fork sys"
    by (cases error; cases "safe_root_file (ls_executable_again sys) True")
      (auto simp: launcher_start_def Let_def l2 l3 fields)
  then show ?thesis using no touch by (simp add: l1 l2 fields)
qed

text \<open>A touch the launcher sends reaches the application unchanged: the router of the same session, in
  step with the launcher's numbering, accepts the frame when it is fresh and fits the contact, forwards
  its phase, contact and position, and stays in step for the next one.\<close>

theorem launcher_touch_routed:
  assumes "launcher_send_touch sys q l = (Inr bs, l')" "launcher_read_status sys l = (status, l1)"
    and "sg_session_nonce (tr_sequence r) = la_nonce l1" "sg_last_sequence (tr_sequence r) \<le> la_sequence l1"
    and "sint (tr_width r) = la_width l1" "sint (tr_height r) = la_height l1"
    and "route r bs now = (result, r')"
  shows "decoded_touch_frame (tr_width r) (tr_height r) bs = Some (rr_frame result) \<and>
    tf_phase (rr_frame result) = touch_phase_of (launcher_phase_value (tq_phase q)) \<and>
    tf_contact_id (rr_frame result) = tq_contact_id q \<and>
    sint (tf_x (rr_frame result)) = tq_x q \<and> sint (tf_y (rr_frame result)) = tq_y q \<and>
    (error_ok (rr_error result) \<longleftrightarrow>
       touch_timestamp_fresh (rr_frame result) now kMaximumAgeUs kMaximumFutureUs \<and>
       error_ok (fst (contact_accept (tr_contacts r) (rr_frame result)))) \<and>
    sg_session_nonce (tr_sequence r') = la_nonce l' \<and> sg_last_sequence (tr_sequence r') \<le> la_sequence l'"
proof -
  obtain clock where d: "lu_input_ready status" "la_nonce l1 \<noteq> 0" "launcher_phase_value (tq_phase q) \<noteq> 0" "tq_contact_id q \<le> 31"
    "0 \<le> tq_x q" "tq_x q < la_width l1" "0 \<le> tq_y q" "tq_y q < la_height l1" "la_sequence l1 \<noteq> - 1"
    "ls_clock sys = Some clock" "launcher_monotonic_us clock \<noteq> 0"
    and bs: "bs = puts (launcher_frame_writes (la_nonce l1) (la_sequence l1 + 1) (launcher_monotonic_us clock)
       (launcher_phase_value (tq_phase q)) q) (replicate 56 0)"
    and l': "l' = l1\<lparr>la_sequence := la_sequence l1 + 1\<rparr>"
    using launcher_send_touchD [OF assms(1,2)] by metis
  have next_sequence: "la_sequence l1 + 1 \<noteq> 0" "la_sequence l1 < la_sequence l1 + 1"
  proof -
    have n: "1 + la_sequence l1 \<noteq> 0" using d(9) by (metis add.commute eq_neg_iff_add_eq_0)
    then show "la_sequence l1 + 1 \<noteq> 0" "la_sequence l1 < la_sequence l1 + 1"
      using unatSuc [of "la_sequence l1"] by (simp_all add: add.commute word_less_nat_alt)
  qed
  define f where "f = \<lparr>tf_session_nonce = la_nonce l1, tf_sequence = la_sequence l1 + 1,
      tf_monotonic_us = launcher_monotonic_us clock,
      tf_phase = touch_phase_of (launcher_phase_value (tq_phase q)), tf_contact_id = tq_contact_id q,
      tf_x = word_of_int (tq_x q), tf_y = word_of_int (tq_y q), tf_flags = 0\<rparr>"
  have decoded: "decoded_touch_frame (tr_width r) (tr_height r) bs = Some f"
    unfolding bs f_def using d next_sequence(1) by (intro launcher_frame_decoded) (simp_all add: assms(5,6))
  then have decode: "td_frame (decode_touch_frame bs (tr_width r) (tr_height r)) = f"
    "error_ok (td_error (decode_touch_frame bs (tr_width r) (tr_height r)))"
    by (simp_all add: decoded_touch_frame_def Let_def split: if_splits)
  have numbered: "sequence_accept (tr_sequence r) f = (errors_ok, (tr_sequence r)\<lparr>sg_last_sequence := la_sequence l1 + 1\<rparr>)"
    using d(2) assms(3,4) next_sequence(2) by (auto simp: sequence_accept_def f_def)
  obtain e contacts where contact: "contact_accept (tr_contacts r) f = (e, contacts)" by fastforce
  have route: "(result, r') =
    (if touch_timestamp_fresh f now kMaximumAgeUs kMaximumFutureUs
     then (\<lparr>rr_frame = f, rr_error = e\<rparr>,
           r\<lparr>tr_sequence := (tr_sequence r)\<lparr>sg_last_sequence := la_sequence l1 + 1\<rparr>, tr_contacts := contacts\<rparr>)
     else (\<lparr>rr_frame = f, rr_error = input_timestamp_stale\<rparr>, r))"
    unfolding assms(7) [symmetric] using decode numbered contact by (simp add: route_def Let_def)
  have position: "sint (tf_x f) = tq_x q" "sint (tf_y f) = tq_y q"
    using sint_on_screen [of "tq_x q" "tr_width r"] sint_on_screen [of "tq_y q" "tr_height r"] d(5-8) assms(5,6)
    by (simp_all add: f_def)
  show ?thesis
    using route decoded position contact assms(3,4) next_sequence(2)
    by (auto simp: l' f_def [symmetric] split: if_splits) (simp_all add: f_def)
qed

end
