(* ===== verification/Launcher_Sample.thy ===== *)
theory Launcher_Sample
  imports Launcher Platform_Sample
begin

text \<open>
  Concrete systems for the launcher: a session that runs from the path the launcher expects and
  publishes its status, and the running platform release of the platform sample.
\<close>

definition sample_status :: session_status where
  "sample_status = \<lparr>ss_session_pid = 300, ss_session_nonce = 7, ss_state = Session_ready, ss_result = 0,
     ss_hole_ready = True, ss_input_ready = True, ss_logical_width = 480, ss_logical_height = 160\<rparr>"

definition sample_launcher :: launcher where
  "sample_launcher = \<lparr>la_started = 0, la_width = 480, la_height = 160, la_nonce = 0, la_sequence = 0\<rparr>"

definition sample_launcher_system :: "string \<Rightarrow> launcher_system" where
  "sample_launcher_system exe = \<lparr>ls_executable = Some \<lparr>rf_regular = True, rf_uid = 0, rf_mode = 493, rf_contents = ''x'', rf_reads = True\<rparr>,
     ls_executable_again = Some \<lparr>rf_regular = True, rf_uid = 0, rf_mode = 493, rf_contents = ''x'', rf_reads = True\<rparr>,
     ls_profile = None,
     ls_status = Some \<lparr>rf_regular = True, rf_uid = 0, rf_mode = 384, rf_contents = encode_session_status sample_status, rf_reads = True\<rparr>,
     ls_alive = (\<lambda>pid. pid = 300), ls_exe = (\<lambda>_. Some exe), ls_fork = 301, ls_fork_error = ''x'', ls_clock = Some (5, 3000),
     ls_socket = Some (True, 0, 384), ls_socket_opens = True, ls_socket_connects = True, ls_socket_sends = True\<rparr>"

definition sample_touch :: touch_request where
  "sample_touch = \<lparr>tq_phase = ''start'', tq_contact_id = 0, tq_x = 10, tq_y = 20\<rparr>"

lemma sample_status_ok: "publishable sample_status" "status_typed sample_status" "launcher_typed sample_launcher"
  by (simp_all add: publishable_def status_typed_def launcher_typed_def sample_status_def sample_launcher_def int_max_def)

lemma sample_status_file:
  "read_small_file (ls_status (sample_launcher_system exe)) = encode_session_status sample_status"
proof -
  have "encode_session_status sample_status \<noteq> []" "length (encode_session_status sample_status) \<le> 4096" by code_simp+
  then show ?thesis by (simp add: read_small_file_def sample_launcher_system_def safe_root_file_def)
qed

lemma sample_session_process: "valid_session_process (sample_launcher_system kSessiond) 300"
proof -
  have "kSessiond \<noteq> []" "take 511 kSessiond = kSessiond" by code_simp+
  then show ?thesis by (simp add: valid_session_process_def sample_launcher_system_def)
qed

lemma published_status_read_witness:
  "launcher_read_status (sample_launcher_system kSessiond) sample_launcher =
    (idle_status\<lparr>lu_session_pid := 300, lu_state := ''ready'', lu_hole_ready := True, lu_input_ready := True,
       lu_logical_width := 480, lu_logical_height := 160\<rparr>,
     sample_launcher\<lparr>la_nonce := 7\<rparr>)"
  using published_status_read [OF sample_status_ok(1,2) sample_status_file _ sample_status_ok(3)] sample_session_process
  by (simp add: sample_status_def sample_launcher_def idle_status_def)

lemma launcher_misses_session_witness:
  "\<not> valid_session_process (sample_launcher_system (platform_home @ kSessiondSuffix)) 300 \<and>
   fst (launcher_send_touch (sample_launcher_system (platform_home @ kSessiondSuffix)) sample_touch sample_launcher) =
     Inl ''LVGL touch channel is not ready''"
  using launcher_misses_session [of "platform_home @ kSessiondSuffix" "ps_current sample_platform"
      "sample_launcher_system (platform_home @ kSessiondSuffix)" 300 sample_launcher sample_touch] self_release_resolved
  by (simp add: sample_launcher_system_def sample_platform_def kSessiondSuffix_def)

lemma sample_launcher_status:
  obtains status where "launcher_read_status (sample_launcher_system kSessiond) sample_launcher = (status, sample_launcher\<lparr>la_nonce := 7\<rparr>)"
    "lu_input_ready status"
proof -
  note f = published_status_fields [OF sample_status_ok(1,2)]
  have sizes: "launcher_unsigned (parse_status (encode_session_status sample_status)) ''LOGICAL_WIDTH'' = 480"
    "launcher_unsigned (parse_status (encode_session_status sample_status)) ''LOGICAL_HEIGHT'' = 160"
    using f(7,8) by (simp_all add: word_uint_eq_iff sample_status_def)
  have s: "ss_session_pid sample_status = 300" "ss_session_nonce sample_status = 7" "ss_state sample_status = Session_ready"
    "ss_hole_ready sample_status" "ss_input_ready sample_status"
    by (simp_all add: sample_status_def)
  have "\<exists>status. launcher_read_status (sample_launcher_system kSessiond) sample_launcher = (status, sample_launcher\<lparr>la_nonce := 7\<rparr>) \<and>
      lu_input_ready status"
    unfolding launcher_read_status_def Let_def sample_status_file f(1,2,3,5,6) sizes s(1-3)
    using sample_session_process s(4,5) by (simp add: sample_launcher_def int_max_def)
  then show thesis using that by blast
qed

lemma sample_touch_sent: "\<exists>bs l. launcher_send_touch (sample_launcher_system kSessiond) sample_touch sample_launcher = (Inr bs, l)"
proof -
  obtain status where "launcher_read_status (sample_launcher_system kSessiond) sample_launcher = (status, sample_launcher\<lparr>la_nonce := 7\<rparr>)"
    "lu_input_ready status" by (rule sample_launcher_status)
  then show ?thesis
    by (simp add: launcher_send_touch_def Let_def sample_touch_def launcher_phase_value_def sample_launcher_def
        sample_launcher_system_def launcher_monotonic_us_def)
qed

lemma launcher_touch_routed_witness:
  "\<exists>bs f. fst (launcher_send_touch (sample_launcher_system kSessiond) sample_touch sample_launcher) = Inr bs \<and>
     decoded_touch_frame 480 160 bs = Some f \<and> tf_phase f = Touch_start \<and> sint (tf_x f) = 10 \<and> sint (tf_y f) = 20"
proof -
  obtain bs l where sent: "launcher_send_touch (sample_launcher_system kSessiond) sample_touch sample_launcher = (Inr bs, l)"
    using sample_touch_sent by blast
  obtain status where read: "launcher_read_status (sample_launcher_system kSessiond) sample_launcher = (status, sample_launcher\<lparr>la_nonce := 7\<rparr>)"
    by (rule sample_launcher_status)
  obtain result r' where r: "route (new_touch_router 7 480 160) bs 5000003 = (result, r')" by fastforce
  have "decoded_touch_frame 480 160 bs = Some (rr_frame result) \<and> tf_phase (rr_frame result) = Touch_start \<and>
     sint (tf_x (rr_frame result)) = 10 \<and> sint (tf_y (rr_frame result)) = 20"
    using launcher_touch_routed [OF sent read _ _ _ _ r]
    by (simp add: new_touch_router_def sample_launcher_def sample_touch_def launcher_phase_value_def touch_phase_of_def sequence_reset_def)
  then show ?thesis using sent by auto
qed

end
