(* ===== verification/Inbox_Service.thy ===== *)
theory Inbox_Service
  imports Application_Release Installer_Protocol
begin

text \<open>
  The package inbox (\<open>platform/src/services/inbox_service.cpp\<close>): the candidates of the inbox
  directory, named by the digest of their bytes, what is shown of them, and the installation of one.
  A file of the inbox is what \<open>openat\<close> and \<open>fstat\<close> give, its bytes, and whether they are read
  completely and unchanged.
\<close>

unbundle bit_operations_syntax

section \<open>Data\<close>

datatype inbox_status =
    Inbox_ready | Inbox_empty | Inbox_invalid_token | Inbox_candidate_not_found | Inbox_candidate_rejected
  | Inbox_root_untrusted | Inbox_io_error | Inbox_unsupported_platform

record inbox_scan_result =
  is_status :: inbox_status
  is_detail :: string
  is_candidates :: "inbox_candidate list"

record inbox_install_result =
  ii_status :: inbox_status
  ii_detail :: string
  ii_installer :: "installer_result option"

definition ii_ok :: "inbox_install_result \<Rightarrow> bool" where
  "ii_ok r \<longleftrightarrow> ii_status r = Inbox_ready \<and> (case ii_installer r of None \<Rightarrow> False | Some i \<Rightarrow> in_ok i)"

definition scan_failure :: "inbox_status \<Rightarrow> string \<Rightarrow> inbox_scan_result" where
  "scan_failure status detail = \<lparr>is_status = status, is_detail = detail, is_candidates = []\<rparr>"

record inbox_file =
  bx_regular :: bool
  bx_uid :: u32
  bx_links :: nat
  bx_mode :: u16
  bx_contents :: bytes
  bx_reads :: bool

record inbox =
  bx_directory :: dir_state
  bx_opens :: bool
  bx_listing :: "string list"
  bx_listed :: bool
  bx_file :: "string \<Rightarrow> inbox_file option"

text \<open>The directory \<open>/userdisk/apps\<close>: whether it is trusted, the two stores and the inbox below it.\<close>

record platform_store =
  pl_parent_trusted :: bool
  pl_world :: install_world
  pl_inbox :: inbox

definition kMaximumInboxEntries :: nat where "kMaximumInboxEntries = 128"

record raw_candidate =
  rc_public :: inbox_candidate
  rc_bytes :: bytes
  rc_verification :: package_verification
  rc_digest :: bytes

section \<open>Scanning\<close>

definition read_candidate :: "inbox_file option \<Rightarrow> bytes option" where
  "read_candidate descriptor =
     (case descriptor of
        None \<Rightarrow> None
      | Some f \<Rightarrow>
          if \<not> bx_regular f \<or> bx_uid f \<noteq> 0 \<or> bx_links f \<noteq> 1 \<or> bx_mode f AND 18 \<noteq> 0 \<or>
             bx_contents f = [] \<or> kSessionMaximumPackageSize < length (bx_contents f)
          then None
          else if bx_reads f then Some (bx_contents f) else None)"

definition judge_candidate ::
    "install_environment \<Rightarrow> policy_context \<Rightarrow> install_world \<Rightarrow> package_verification \<Rightarrow> bytes \<Rightarrow> string \<times> bool" where
  "judge_candidate env ctx w v d =
     (let app = pm_app_id (pv_manifest v) in
      if reserved_application_id app then (''INBOX_RESERVED_APPLICATION_ID'', False)
      else let state = load_release_state (en_state_root env) app (en_crypto env) (wo_state w);
               loaded = (st_status state = Store_loaded \<or> st_status state = Store_loaded_degraded)
      in if \<not> loaded \<and> st_status state \<noteq> Store_not_found \<and> st_status state \<noteq> Store_uninitialized
      then (''INBOX_ANTI_ROLLBACK_STATE_UNAVAILABLE'', False)
      else let policy = evaluate_install_policy v d ctx
                 (if loaded then Some (high_water_from (dr_state (sr_decoded (st_selected state)))) else None)
           in (pd_detail policy, pd_status policy = Policy_allowed))"

definition raw_candidate_of ::
    "install_environment \<Rightarrow> policy_context \<Rightarrow> install_world \<Rightarrow> inbox_file option \<Rightarrow> raw_candidate option" where
  "raw_candidate_of env ctx w descriptor =
     (case read_candidate descriptor of
        None \<Rightarrow> None
      | Some bs \<Rightarrow>
        (case sha512 (en_crypto env) bs of
           None \<Rightarrow> None
         | Some d \<Rightarrow>
           let v = trust_verify (en_trust env) (en_parse env) (en_crypto env) bs;
               shown = no_candidate\<lparr>cd_token := hex_of_bytes d, cd_package_size := word_of_nat (length bs),
                 cd_detail := pv_detail v\<rparr>;
               m = pv_manifest v;
               shown = (if \<not> pv_ok v then shown
                 else case judge_candidate env ctx w v d of (detail, installable) \<Rightarrow>
                   shown\<lparr>cd_app_id := pm_app_id m, cd_name := pm_name m, cd_version := pm_version m,
                     cd_release_counter := pm_release_counter m, cd_security_epoch := pm_security_epoch m,
                     cd_detail := detail, cd_installable := installable\<rparr>)
           in Some \<lparr>rc_public = shown, rc_bytes = bs, rc_verification = v, rc_digest = d\<rparr>))"

abbreviation rc_token :: "raw_candidate \<Rightarrow> string" where
  "rc_token c \<equiv> cd_token (rc_public c)"

text \<open>\<open>std::unique\<close>: the first of each group of equal tokens stays.\<close>

fun unique_tokens :: "raw_candidate list \<Rightarrow> raw_candidate list" where
  "unique_tokens (x # y # cs) =
     (if rc_token x = rc_token y then unique_tokens (x # cs) else x # unique_tokens (y # cs))"
| "unique_tokens cs = cs"

definition raw_candidates ::
    "install_environment \<Rightarrow> policy_context \<Rightarrow> platform_store \<Rightarrow> inbox_status \<times> raw_candidate list" where
  "raw_candidates env ctx store =
     (let inbox = pl_inbox store in
      if \<not> pl_parent_trusted store \<or> bx_directory inbox \<noteq> Dir_trusted then (Inbox_root_untrusted, [])
      else if \<not> bx_opens inbox then (Inbox_io_error, [])
      else if kMaximumInboxEntries < length (bx_listing inbox) \<or> \<not> bx_listed inbox then (Inbox_io_error, [])
      else let found = List.map_filter (\<lambda>name. raw_candidate_of env ctx (pl_world store) (bx_file inbox name))
                 (sort (bx_listing inbox));
               candidates = unique_tokens (sort_key rc_token found)
           in (if candidates = [] then Inbox_empty else Inbox_ready, candidates))"

definition scan_official_inbox ::
    "install_environment \<Rightarrow> policy_context \<Rightarrow> platform_store \<Rightarrow> inbox_scan_result" where
  "scan_official_inbox env ctx store =
     (case raw_candidates env ctx store of (status, candidates) \<Rightarrow>
        if status \<noteq> Inbox_ready \<and> status \<noteq> Inbox_empty
        then scan_failure status
          (if status = Inbox_root_untrusted then ''INBOX_ROOT_UNTRUSTED'' else ''INBOX_SCAN_FAILED'')
        else \<lparr>is_status = status, is_detail = (if status = Inbox_empty then ''INBOX_EMPTY'' else ''INBOX_READY''),
               is_candidates = map rc_public candidates\<rparr>)"

section \<open>Installing\<close>

definition install_official_inbox_candidate ::
    "install_environment \<Rightarrow> policy_context \<Rightarrow> string \<Rightarrow> stage_faults \<times> store_faults \<Rightarrow> platform_store
       \<Rightarrow> inbox_install_result \<times> platform_store" where
  "install_official_inbox_candidate env ctx token faults store =
     (let refuse = (\<lambda>status detail. (\<lparr>ii_status = status, ii_detail = detail, ii_installer = None\<rparr>, store)) in
      if \<not> valid_token token then refuse Inbox_invalid_token ''INBOX_TOKEN_INVALID''
      else case raw_candidates env ctx store of (scan, candidates) \<Rightarrow>
        if scan \<noteq> Inbox_ready
        then refuse (if scan = Inbox_empty then Inbox_candidate_not_found else scan)
          (if scan = Inbox_root_untrusted then ''INBOX_ROOT_UNTRUSTED'' else ''INBOX_CANDIDATE_NOT_FOUND'')
        else case find (\<lambda>c. rc_token c = token) candidates of
          None \<Rightarrow> refuse Inbox_candidate_not_found ''INBOX_CANDIDATE_NOT_FOUND''
        | Some c \<Rightarrow>
          if \<not> cd_installable (rc_public c) \<or> \<not> pv_ok (rc_verification c) \<or>
             reserved_application_id (pm_app_id (pv_manifest (rc_verification c)))
          then refuse Inbox_candidate_rejected (cd_detail (rc_public c))
          else case install_official_package env ctx (rc_bytes c) faults (pl_world store) of
            (installed, w) \<Rightarrow>
              (\<lparr>ii_status = (if in_ok installed then Inbox_ready else Inbox_candidate_rejected),
                 ii_detail = in_detail installed, ii_installer = Some installed\<rparr>,
               store\<lparr>pl_world := w\<rparr>))"

section \<open>Preparing the directories\<close>

text \<open>\<open>ensure_directory_at\<close>: whether \<open>mkdirat\<close> and the syncs succeed; a new directory is empty.\<close>

definition ensure_root :: "bool \<times> bool \<Rightarrow> dir_state \<Rightarrow> dir_state \<times> bool" where
  "ensure_root calls d =
     (case d of
        Dir_trusted \<Rightarrow> (Dir_trusted, True)
      | Dir_untrusted \<Rightarrow> (Dir_untrusted, False)
      | Dir_absent \<Rightarrow> if fst calls then (Dir_trusted, snd calls) else (Dir_absent, False))"

definition prepare_application_storage ::
    "(bool \<times> bool) \<times> (bool \<times> bool) \<times> (bool \<times> bool) \<Rightarrow> platform_store \<Rightarrow> inbox_status \<times> platform_store" where
  "prepare_application_storage calls store =
     (if \<not> pl_parent_trusted store then (Inbox_root_untrusted, store)
      else let w = pl_world store;
               (payload, payload_ok) = ensure_root (fst calls) (pr_root (wo_payload w));
               (policy, policy_ok) = ensure_root (fst (snd calls)) (sd_root (wo_state w));
               (inbox, inbox_ok) = ensure_root (snd (snd calls)) (bx_directory (pl_inbox store))
           in (if payload_ok \<and> policy_ok \<and> inbox_ok then Inbox_ready else Inbox_io_error,
               store\<lparr>pl_world := w\<lparr>wo_payload := (wo_payload w)\<lparr>pr_root := payload\<rparr>,
                                   wo_state := (wo_state w)\<lparr>sd_root := policy\<rparr>\<rparr>,
                     pl_inbox := (pl_inbox store)\<lparr>bx_directory := inbox\<rparr>\<rparr>))"

section \<open>Tokens\<close>

lemma hex_char_inject: "a < 16 \<Longrightarrow> b < 16 \<Longrightarrow> hex_char a = hex_char b \<Longrightarrow> a = b"
proof -
  have "distinct ''0123456789abcdef''" "length ''0123456789abcdef'' = 16" by simp_all
  then show "a < 16 \<Longrightarrow> b < 16 \<Longrightarrow> hex_char a = hex_char b \<Longrightarrow> a = b"
    unfolding hex_char_def by (metis nth_eq_iff_index_eq)
qed

lemma byte_nibbles: "drop_bit 4 a = drop_bit 4 b \<Longrightarrow> a AND 15 = b AND 15 \<Longrightarrow> a = (b :: u8)"
proof -
  have "(mask 4 :: u8) = 15" by (simp add: mask_eq_exp_minus_1)
  then have "push_bit 4 (drop_bit 4 c) + (c AND 15) = c" for c :: u8
    using bits_ident [of 4 c] by (simp add: take_bit_eq_mask)
  then show "drop_bit 4 a = drop_bit 4 b \<Longrightarrow> a AND 15 = b AND 15 \<Longrightarrow> a = b" by metis
qed

lemma hex_of_bytes_inject: "hex_of_bytes as = hex_of_bytes bs \<Longrightarrow> as = bs"
proof (induction as arbitrary: bs)
  case Nil
  then show ?case by (cases bs) (simp_all add: hex_of_bytes_def)
next
  case (Cons a as)
  then obtain b bs' where bs: "bs = b # bs'" by (cases bs) (simp_all add: hex_of_bytes_def)
  have nibble: "unat (drop_bit 4 c) < 16" "unat (c AND 15) < 16" for c :: u8
  proof -
    have "unat c < 256" using unsigned_less [of c, where ?'a = nat] by simp
    then show "unat (drop_bit 4 c) < 16" by (subst unat_drop_bit_eq) (simp add: drop_bit_eq_div)
    show "unat (c AND 15) < 16" using word_and_le1 [of c 15] by (simp add: word_le_nat_alt)
  qed
  have "hex_char (unat (drop_bit 4 a)) = hex_char (unat (drop_bit 4 b))" "hex_char (unat (a AND 15)) = hex_char (unat (b AND 15))"
    "hex_of_bytes as = hex_of_bytes bs'"
    using Cons.prems by (simp_all add: hex_of_bytes_def bs)
  then have "drop_bit 4 a = drop_bit 4 b" "a AND 15 = b AND 15" "as = bs'"
    using hex_char_inject [OF nibble(1) nibble(1)] hex_char_inject [OF nibble(2) nibble(2)] Cons.IH
    by (simp_all add: word_unat_eq_iff)
  then show ?case using byte_nibbles bs by blast
qed

section \<open>What a scan shows\<close>

lemma raw_candidate_ofD:
  assumes "raw_candidate_of env ctx w f = Some c"
  obtains bs d v where "read_candidate f = Some bs" "sha512 (en_crypto env) bs = Some d"
    "v = trust_verify (en_trust env) (en_parse env) (en_crypto env) bs"
    "rc_bytes c = bs" "rc_digest c = d" "rc_verification c = v" "rc_token c = hex_of_bytes d"
    "cd_package_size (rc_public c) = word_of_nat (length bs)"
    "cd_installable (rc_public c) \<longleftrightarrow> pv_ok v \<and> snd (judge_candidate env ctx w v d)"
    "cd_detail (rc_public c) = (if pv_ok v then fst (judge_candidate env ctx w v d) else pv_detail v)"
    "cd_app_id (rc_public c) = (if pv_ok v then pm_app_id (pv_manifest v) else [])"
    "cd_name (rc_public c) = (if pv_ok v then pm_name (pv_manifest v) else [])"
  using assms unfolding raw_candidate_of_def Let_def
  by (auto simp: no_candidate_def split: option.split_asm prod.split_asm if_split_asm)

lemma raw_candidate_of_eq_None: "raw_candidate_of env ctx w f = None \<longleftrightarrow>
    (\<forall>bs. read_candidate f = Some bs \<longrightarrow> sha512 (en_crypto env) bs = None)"
  by (auto simp: raw_candidate_of_def Let_def split: option.splits)

lemma set_unique_tokens: "set (unique_tokens cs) \<subseteq> set cs"
  by (induction cs rule: unique_tokens.induct) auto

lemma unique_tokens_tokens: "rc_token ` set (unique_tokens cs) = rc_token ` set cs"
  by (induction cs rule: unique_tokens.induct) auto

lemma unique_tokens_sorted:
  "sorted (map rc_token cs) \<Longrightarrow> sorted_wrt (<) (map rc_token (unique_tokens cs))"
proof (induction cs rule: unique_tokens.induct)
  case (1 x y cs)
  show ?case
  proof (cases "rc_token x = rc_token y")
    case False
    then have "rc_token x < rc_token y" using 1(3) by auto
    moreover have "\<forall>z \<in> set (y # cs). rc_token y \<le> rc_token z" using 1(3) by auto
    ultimately have "\<forall>z \<in> set (unique_tokens (y # cs)). rc_token x < rc_token z"
      using set_unique_tokens by (metis order_less_le_trans subsetD)
    with False 1 show ?thesis by auto
  qed (use 1 in auto)
qed simp_all

lemma set_map_filter: "set (List.map_filter f xs) = {y. \<exists>x \<in> set xs. f x = Some y}"
  by (force simp: List.map_filter_def)

lemma raw_candidates_ok:
  assumes "raw_candidates env ctx store = (status, cs)" "status = Inbox_ready \<or> status = Inbox_empty"
  shows "sorted_wrt (<) (map rc_token cs)" "status = Inbox_empty \<longleftrightarrow> cs = []"
    "length (bx_listing (pl_inbox store)) \<le> kMaximumInboxEntries"
    "set cs \<subseteq> {c. \<exists>name \<in> set (bx_listing (pl_inbox store)).
       raw_candidate_of env ctx (pl_world store) (bx_file (pl_inbox store) name) = Some c}"
    "rc_token ` set cs = {rc_token c | c. \<exists>name \<in> set (bx_listing (pl_inbox store)).
       raw_candidate_of env ctx (pl_world store) (bx_file (pl_inbox store) name) = Some c}"
proof -
  define found where "found = List.map_filter (\<lambda>name. raw_candidate_of env ctx (pl_world store) (bx_file (pl_inbox store) name))
     (sort (bx_listing (pl_inbox store)))"
  have cs: "cs = unique_tokens (sort_key rc_token found)" "status = (if cs = [] then Inbox_empty else Inbox_ready)"
    "length (bx_listing (pl_inbox store)) \<le> kMaximumInboxEntries"
    using assms by (auto simp: raw_candidates_def Let_def found_def split: if_splits)
  have found: "set found = {c. \<exists>name \<in> set (bx_listing (pl_inbox store)).
       raw_candidate_of env ctx (pl_world store) (bx_file (pl_inbox store) name) = Some c}"
    by (simp add: found_def set_map_filter)
  show "sorted_wrt (<) (map rc_token cs)" unfolding cs(1) by (rule unique_tokens_sorted) simp
  show "status = Inbox_empty \<longleftrightarrow> cs = []" using cs(2) by simp
  show "length (bx_listing (pl_inbox store)) \<le> kMaximumInboxEntries" by (rule cs(3))
  have "set cs \<subseteq> set found" using set_unique_tokens [of "sort_key rc_token found"] by (simp add: cs(1))
  then show "set cs \<subseteq> {c. \<exists>name \<in> set (bx_listing (pl_inbox store)).
       raw_candidate_of env ctx (pl_world store) (bx_file (pl_inbox store) name) = Some c}" by (simp add: found)
  have "rc_token ` set cs = rc_token ` set found" by (simp add: cs(1) unique_tokens_tokens)
  then show "rc_token ` set cs = {rc_token c | c. \<exists>name \<in> set (bx_listing (pl_inbox store)).
       raw_candidate_of env ctx (pl_world store) (bx_file (pl_inbox store) name) = Some c}" by (auto simp: found)
qed

text \<open>Which packages may be installed, and what a candidate tells of a file.\<close>

definition installable :: "install_environment \<Rightarrow> policy_context \<Rightarrow> install_world \<Rightarrow> package_verification \<Rightarrow> bytes \<Rightarrow> bool" where
  "installable env ctx w v d \<longleftrightarrow>
     (let app = pm_app_id (pv_manifest v);
          status = st_status (load_release_state (en_state_root env) app (en_crypto env) (wo_state w));
          mark = map_option high_water_from (loaded_state (en_state_root env) app (en_crypto env) (wo_state w))
      in pv_ok v \<and> \<not> reserved_application_id app \<and>
         status \<in> {Store_loaded, Store_loaded_degraded, Store_not_found, Store_uninitialized} \<and>
         pd_status (evaluate_install_policy v d ctx mark) = Policy_allowed)"

definition describes :: "install_environment \<Rightarrow> policy_context \<Rightarrow> install_world \<Rightarrow> bytes \<Rightarrow> bytes \<Rightarrow> inbox_candidate \<Rightarrow> bool" where
  "describes env ctx w bs d c \<longleftrightarrow>
     (let v = trust_verify (en_trust env) (en_parse env) (en_crypto env) bs; m = pv_manifest v
      in cd_token c = hex_of_bytes d \<and> cd_package_size c = word_of_nat (length bs) \<and>
         cd_app_id c = (if pv_ok v then pm_app_id m else []) \<and> cd_name c = (if pv_ok v then pm_name m else []) \<and>
         (cd_installable c \<longleftrightarrow> installable env ctx w v d))"

text \<open>The files of the inbox that can be read, with their digests.\<close>

definition readable_package :: "install_environment \<Rightarrow> inbox \<Rightarrow> bytes \<Rightarrow> bytes \<Rightarrow> bool" where
  "readable_package env inbox bs d \<longleftrightarrow> (\<exists>name \<in> set (bx_listing inbox).
     read_candidate (bx_file inbox name) = Some bs) \<and> sha512 (en_crypto env) bs = Some d"

lemma judge_candidate_allowed:
  "pv_ok v \<and> snd (judge_candidate env ctx w v d) \<longleftrightarrow> installable env ctx w v d"
  unfolding judge_candidate_def installable_def Let_def
  by (auto simp: loaded_state_def st_ok_def Let_def)

lemma raw_candidate_describes:
  assumes "raw_candidate_of env ctx w (bx_file inbox name) = Some c" "name \<in> set (bx_listing inbox)"
  shows "readable_package env inbox (rc_bytes c) (rc_digest c)" "describes env ctx w (rc_bytes c) (rc_digest c) (rc_public c)"
    "rc_verification c = trust_verify (en_trust env) (en_parse env) (en_crypto env) (rc_bytes c)"
    "rc_token c = hex_of_bytes (rc_digest c)"
proof -
  have "readable_package env inbox (rc_bytes c) (rc_digest c) \<and> describes env ctx w (rc_bytes c) (rc_digest c) (rc_public c) \<and>
    rc_verification c = trust_verify (en_trust env) (en_parse env) (en_crypto env) (rc_bytes c) \<and>
    rc_token c = hex_of_bytes (rc_digest c)"
    using assms(1)
    by (rule raw_candidate_ofD)
      (use assms(2) in \<open>auto simp: readable_package_def describes_def judge_candidate_allowed Let_def\<close>)
  then show "readable_package env inbox (rc_bytes c) (rc_digest c)" "describes env ctx w (rc_bytes c) (rc_digest c) (rc_public c)"
    "rc_verification c = trust_verify (en_trust env) (en_parse env) (en_crypto env) (rc_bytes c)"
    "rc_token c = hex_of_bytes (rc_digest c)" by simp_all
qed

lemma raw_candidate_of_readable:
  assumes "readable_package env inbox bs d"
  obtains name c where "name \<in> set (bx_listing inbox)" "raw_candidate_of env ctx w (bx_file inbox name) = Some c"
    "rc_digest c = d"
proof -
  obtain name where name: "name \<in> set (bx_listing inbox)" "read_candidate (bx_file inbox name) = Some bs"
    "sha512 (en_crypto env) bs = Some d" using assms by (auto simp: readable_package_def)
  then obtain c where c: "raw_candidate_of env ctx w (bx_file inbox name) = Some c"
    using raw_candidate_of_eq_None [of env ctx w "bx_file inbox name"] by fastforce
  have "rc_digest c = d" using c by (rule raw_candidate_ofD) (use name in simp)
  with name c show thesis using that by blast
qed

lemma scan_candidates:
  assumes "scan_official_inbox env ctx store = result" "is_status result = Inbox_ready \<or> is_status result = Inbox_empty"
  shows "readable_package env (pl_inbox store) bs d \<Longrightarrow> hex_of_bytes d \<in> cd_token ` set (is_candidates result)"
    "c \<in> set (is_candidates result) \<Longrightarrow> \<exists>bs d. readable_package env (pl_inbox store) bs d \<and> describes env ctx (pl_world store) bs d c"
    "sorted_wrt (<) (map cd_token (is_candidates result))" "is_status result = Inbox_empty \<longleftrightarrow> is_candidates result = []"
proof -
  obtain status cs where raw: "raw_candidates env ctx store = (status, cs)" by fastforce
  have r: "status = Inbox_ready \<or> status = Inbox_empty" "is_status result = status" "is_candidates result = map rc_public cs"
    using assms raw by (auto simp: scan_official_inbox_def scan_failure_def split: if_splits)
  note f = raw_candidates_ok [OF raw r(1)]
  show "sorted_wrt (<) (map cd_token (is_candidates result))" "is_status result = Inbox_empty \<longleftrightarrow> is_candidates result = []"
    using f(1,2) r(2,3) by (simp_all add: comp_def)
  show "hex_of_bytes d \<in> cd_token ` set (is_candidates result)" if "readable_package env (pl_inbox store) bs d" for bs d
  proof -
    obtain name c where c: "name \<in> set (bx_listing (pl_inbox store))"
      "raw_candidate_of env ctx (pl_world store) (bx_file (pl_inbox store) name) = Some c" "rc_digest c = d"
      using raw_candidate_of_readable [OF \<open>readable_package env (pl_inbox store) bs d\<close>] by metis
    then have "hex_of_bytes d \<in> rc_token ` set cs"
      unfolding f(5) mem_Collect_eq using raw_candidate_describes(4) [OF c(2,1)] c by metis
    then show ?thesis by (simp add: r(3) image_image)
  qed
  show "\<exists>bs d. readable_package env (pl_inbox store) bs d \<and> describes env ctx (pl_world store) bs d c"
    if shown: "c \<in> set (is_candidates result)" for c
  proof -
    obtain rc name where rc: "c = rc_public rc" "name \<in> set (bx_listing (pl_inbox store))"
      "raw_candidate_of env ctx (pl_world store) (bx_file (pl_inbox store) name) = Some rc"
      using shown f(4) r(3) by auto
    show ?thesis using raw_candidate_describes [OF rc(3,2)] rc(1) by blast
  qed
qed

section \<open>What an installation does\<close>

lemma stage_other:
  assumes "stage_verified_release root bs v d faults fs = (r, fs')" "app \<noteq> pm_app_id (pv_manifest v)"
  shows "pr_app fs' app = pr_app fs app"
  using assms unfolding stage_verified_release_def Let_def
  by (auto simp: open_releases_def set_release_def Let_def split: if_splits prod.splits option.splits sum.splits rename_outcome.splits)

lemma install_other_payload:
  assumes "install_official_package env ctx bs faults w = (r, w')"
    and "app \<noteq> pm_app_id (pv_manifest (trust_verify (en_trust env) (en_parse env) (en_crypto env) bs))"
  shows "pr_app (wo_payload w') app = pr_app (wo_payload w) app"
  using assms stage_other unfolding install_official_package_def install_loaded_def Let_def
  by (auto split: if_split_asm option.split_asm prod.split_asm)

section \<open>Properties\<close>

text \<open>The scan of the inbox is exact: when it is reported, the candidates are in increasing order of
  their tokens, one for each digest of a readable file, and each one tells of a file with this digest
  its size, the verdict of the verifier, and that it can be installed exactly when the verifier
  accepts it, its application is not part of the platform, the stored state of the application is
  readable or new, and the policy allows it against that state.\<close>

theorem inbox_scan_exact:
  assumes "scan_official_inbox env ctx store = result" "is_status result = Inbox_ready \<or> is_status result = Inbox_empty"
  shows "sorted_wrt (<) (map cd_token (is_candidates result)) \<and> (is_status result = Inbox_empty \<longleftrightarrow> is_candidates result = []) \<and>
    (\<forall>bs d. readable_package env (pl_inbox store) bs d \<longrightarrow> hex_of_bytes d \<in> cd_token ` set (is_candidates result)) \<and>
    (\<forall>c \<in> set (is_candidates result). \<exists>bs d. readable_package env (pl_inbox store) bs d \<and>
       describes env ctx (pl_world store) bs d c)"
  using scan_candidates [OF assms] by blast

text \<open>An installation from the inbox installs what its token names: when it is acknowledged, a file of
  the inbox has the token as its digest, the verifier accepts exactly these bytes, the application is
  not part of the platform and the policy allows it; the stored state then names this release with
  this digest as current, its release directory is the complete package, and the releases and the
  state of every other application are untouched.\<close>

theorem inbox_install_exact:
  assumes "install_official_inbox_candidate env ctx token faults store = (result, store')" "ii_ok result"
    and "\<And>app. loaded_state (en_state_root env) app (en_crypto env) (wo_state (pl_world store)) \<noteq> None \<or> no_slots app (wo_state (pl_world store))"
  shows "\<exists>bs d v app s t. readable_package env (pl_inbox store) bs d \<and> token = hex_of_bytes d \<and>
    v = trust_verify (en_trust env) (en_parse env) (en_crypto env) bs \<and> app = pm_app_id (pv_manifest v) \<and>
    installable env ctx (pl_world store) v d \<and>
    loaded_state (en_state_root env) app (en_crypto env) (wo_state (pl_world store')) = Some s \<and>
    rs_current_release s = pm_release_counter (pv_manifest v) \<and> rs_current_digest s = d \<and>
    ar_releases (pr_app (wo_payload (pl_world store')) app) (release_name_of (pm_release_counter (pv_manifest v))) = Some t \<and>
    (release_complete bs d (pv_payload_start v) (pm_files (pv_manifest v)) t \<or> release_package_matches t bs d) \<and>
    (\<forall>other. other \<noteq> app \<longrightarrow> pr_app (wo_payload (pl_world store')) other = pr_app (wo_payload (pl_world store)) other \<and>
      (\<forall>u. loaded_state (en_state_root env) other (en_crypto env) (wo_state (pl_world store)) = Some u \<longrightarrow>
           loaded_state (en_state_root env) other (en_crypto env) (wo_state (pl_world store')) = Some u))"
proof -
  define w where "w = pl_world store"
  obtain cs where raw: "raw_candidates env ctx store = (Inbox_ready, cs)"
    using assms(1,2) by (auto simp: install_official_inbox_candidate_def ii_ok_def Let_def split: if_splits prod.splits)
  obtain c where c: "find (\<lambda>c. rc_token c = token) cs = Some c"
    using assms(1,2) raw by (auto simp: install_official_inbox_candidate_def ii_ok_def Let_def split: if_splits option.splits)
  have offered: "cd_installable (rc_public c)" "pv_ok (rc_verification c)"
    "\<not> reserved_application_id (pm_app_id (pv_manifest (rc_verification c)))"
    using assms(1,2) raw c by (auto simp: install_official_inbox_candidate_def ii_ok_def Let_def split: if_splits)
  obtain r w' where i: "install_official_package env ctx (rc_bytes c) faults w = (r, w')" by fastforce
  have ok: "in_ok r" "pl_world store' = w'"
    using assms(1,2) raw c offered i by (auto simp: install_official_inbox_candidate_def ii_ok_def Let_def w_def split: if_splits)
  have "c \<in> set cs" "rc_token c = token" using c by (auto simp: find_Some_iff)
  then obtain name where name: "name \<in> set (bx_listing (pl_inbox store))"
    and rc: "raw_candidate_of env ctx w (bx_file (pl_inbox store) name) = Some c"
    using raw_candidates_ok(4) [OF raw] w_def by blast
  define bs d v where "bs = rc_bytes c" and "d = rc_digest c" and "v = rc_verification c"
  note fact = raw_candidate_describes [OF rc name, folded bs_def d_def v_def]
  have bs: "sha512 (en_crypto env) bs = Some d" "token = hex_of_bytes d" "installable env ctx w v d"
    using fact \<open>rc_token c = token\<close> offered(1) by (simp_all add: readable_package_def describes_def Let_def)
  define app where "app = pm_app_id (pv_manifest v)"
  obtain storage payload s where stage: "stage_verified_release (en_payload_root env) bs v d (fst faults) (wo_payload w) = (storage, payload)"
      "staged_ok storage" "wo_payload w' = payload"
    and act: "activation_state_for v d (loaded_state (en_state_root env) app (en_crypto env) (wo_state w)) = Some s"
    and state: "wo_state w' = snd (persist_release_state (en_state_root env) s (en_crypto env) (snd faults) (wo_state w))"
      "st_ok (fst (persist_release_state (en_state_root env) s (en_crypto env) (snd faults) (wo_state w)))"
    by (rule install_okD [OF i ok(1), folded bs_def, folded fact(3)]) (use bs(1) app_def in simp)
  note a = activation_current [OF act]
  have "loaded_state (en_state_root env) app (en_crypto env) (wo_state w') = Some s"
    unfolding state(1) using act state(2) assms(3) [of app]
    by (intro activation_committed [of v d]) (auto simp: app_def w_def sha512_length [OF bs(1)])
  moreover obtain t where t: "ar_releases (pr_app payload app) (release_name_of (pm_release_counter (pv_manifest v))) = Some t"
    "release_complete bs d (pv_payload_start v) (pm_files (pv_manifest v)) t \<or> release_package_matches t bs d"
    using stage_atomic [OF stage(1)] stage(2) by (auto simp: Let_def staged_ok_def app_def)
  moreover have "pr_app payload other = pr_app (wo_payload w) other" if "other \<noteq> app" for other
    using stage_other [OF stage(1)] that by (simp add: app_def)
  moreover have "loaded_state (en_state_root env) other (en_crypto env) (wo_state w') = Some u"
    if "other \<noteq> app" "loaded_state (en_state_root env) other (en_crypto env) (wo_state w) = Some u" for other u
    unfolding state(1) using that a(4) by (intro persist_other) (simp_all add: app_def)
  ultimately show ?thesis
    unfolding ok(2) w_def [symmetric]
    using fact(1,3) bs(2,3) a(1,2) stage(3) app_def
    by (intro exI [of _ bs] exI [of _ d] exI [of _ v] exI [of _ app] exI [of _ s] exI [of _ t]) (simp add: w_def)
qed

end
