(* ===== verification/Inbox_Sample.thy ===== *)
theory Inbox_Sample
  imports Inbox_Service Application_Sample
begin

text \<open>An inbox with the sample package.\<close>

definition sample_inbox :: inbox where
  "sample_inbox = \<lparr>bx_directory = Dir_trusted, bx_opens = True, bx_listing = [''a.lvapp''], bx_listed = True,
     bx_file = (\<lambda>_. Some \<lparr>bx_regular = True, bx_uid = 0, bx_links = 1, bx_mode = 256, bx_contents = sample_package,
       bx_reads = True\<rparr>)\<rparr>"

definition inbox_store :: platform_store where
  "inbox_store = \<lparr>pl_parent_trusted = True, pl_world = empty_world, pl_inbox = sample_inbox\<rparr>"

definition sample_token :: string where "sample_token = hex_of_bytes (replicate 64 2)"

lemma sample_token_valid: "valid_token sample_token"
  by code_simp

lemma sample_read: "read_candidate (bx_file sample_inbox name) = Some sample_package"
proof -
  have "sample_package \<noteq> []" using length_sample_package by auto
  then show ?thesis by (simp add: read_candidate_def sample_inbox_def length_sample_package kSessionMaximumPackageSize_def)
qed

lemma sample_inbox_verified:
  "trust_verify (en_trust sample_environment) (en_parse sample_environment) (en_crypto sample_environment) sample_package = sample_verification"
  "sha512 (en_crypto sample_environment) sample_package = Some (replicate 64 2)"
  by (simp_all add: sample_environment_def sample_trusted sample_sha512)

lemma sample_installable:
  "installable sample_environment (installer_policy sample_session) empty_world sample_verification (replicate 64 2)"
proof -
  have "st_status (load_release_state ''/userdisk/apps/lvgl-app-policy'' ''a.b'' sample_crypto (wo_state empty_world)) = Store_not_found"
    by code_simp
  then show ?thesis
    by (simp add: installable_def sample_manifest_fields sample_environment_def sample_ids sample_policy decision_def
        loaded_state_def st_ok_def)
qed

lemma sample_raw_candidate:
  obtains c where "raw_candidate_of sample_environment (installer_policy sample_session) empty_world (bx_file sample_inbox name) = Some c"
    "rc_bytes c = sample_package" "rc_verification c = sample_verification" "cd_installable (rc_public c)" "rc_token c = sample_token"
proof -
  obtain c where c: "raw_candidate_of sample_environment (installer_policy sample_session) empty_world (bx_file sample_inbox name) = Some c"
    using raw_candidate_of_eq_None [of sample_environment "installer_policy sample_session" empty_world "bx_file sample_inbox name"]
    by (auto simp: sample_read sample_inbox_verified)
  show thesis
    using c by (rule raw_candidate_ofD)
      (use c that sample_installable in \<open>simp add: sample_read sample_inbox_verified judge_candidate_allowed [symmetric] sample_token_def\<close>)
qed

lemma sample_raw_candidates:
  obtains c where "raw_candidates sample_environment (installer_policy sample_session) inbox_store = (Inbox_ready, [c])"
    "rc_bytes c = sample_package" "rc_verification c = sample_verification" "cd_installable (rc_public c)" "rc_token c = sample_token"
proof -
  obtain c where c: "raw_candidate_of sample_environment (installer_policy sample_session) empty_world (bx_file sample_inbox ''a.lvapp'') = Some c"
    "rc_bytes c = sample_package" "rc_verification c = sample_verification" "cd_installable (rc_public c)" "rc_token c = sample_token"
    by (rule sample_raw_candidate)
  have "bx_listing sample_inbox = [''a.lvapp'']" "bx_directory sample_inbox = Dir_trusted" "bx_opens sample_inbox" "bx_listed sample_inbox"
    by (simp_all add: sample_inbox_def)
  then have "raw_candidates sample_environment (installer_policy sample_session) inbox_store = (Inbox_ready, [c])"
    using c(1) by (simp add: raw_candidates_def inbox_store_def kMaximumInboxEntries_def List.map_filter_def)
  with c show thesis using that by blast
qed

lemma inbox_scan_exact_witness:
  "is_status (scan_official_inbox sample_environment (installer_policy sample_session) inbox_store) = Inbox_ready \<and>
   sample_token \<in> cd_token ` set (is_candidates (scan_official_inbox sample_environment (installer_policy sample_session) inbox_store))"
proof -
  obtain c where "raw_candidates sample_environment (installer_policy sample_session) inbox_store = (Inbox_ready, [c])"
    by (rule sample_raw_candidates)
  then have s: "is_status (scan_official_inbox sample_environment (installer_policy sample_session) inbox_store) = Inbox_ready"
    by (simp add: scan_official_inbox_def)
  have "readable_package sample_environment (pl_inbox inbox_store) sample_package (replicate 64 2)"
    using sample_read by (simp add: readable_package_def inbox_store_def sample_inbox_verified) (simp add: sample_inbox_def)
  with inbox_scan_exact [OF refl disjI1 [OF s]] s show ?thesis by (auto simp: sample_token_def)
qed

lemma inbox_install_exact_witness:
  "\<exists>result store' s. install_official_inbox_candidate sample_environment (installer_policy sample_session) sample_token
     no_faults inbox_store = (result, store') \<and> ii_ok result \<and>
   loaded_state ''/userdisk/apps/lvgl-app-policy'' ''a.b'' sample_crypto (wo_state (pl_world store')) = Some s \<and>
   rs_current_digest s = replicate 64 2"
proof -
  obtain c where c: "raw_candidates sample_environment (installer_policy sample_session) inbox_store = (Inbox_ready, [c])"
    "rc_bytes c = sample_package" "rc_verification c = sample_verification" "cd_installable (rc_public c)" "rc_token c = sample_token"
    by (rule sample_raw_candidates)
  obtain r w' where i: "install_official_package sample_environment (installer_policy sample_session) sample_package no_faults
      empty_world = (r, w')" "in_ok r" using sample_installed by blast
  obtain result store' where inst: "install_official_inbox_candidate sample_environment (installer_policy sample_session)
      sample_token no_faults inbox_store = (result, store')" by fastforce
  have ok: "ii_ok result"
    using inst c i sample_token_valid
    by (auto simp: install_official_inbox_candidate_def sample_manifest_fields sample_ids inbox_store_def ii_ok_def)
  have slots: "loaded_state (en_state_root sample_environment) app (en_crypto sample_environment) (wo_state (pl_world inbox_store)) \<noteq> None \<or>
      no_slots app (wo_state (pl_world inbox_store))" for app
    by (simp add: inbox_store_def empty_world_def no_slots_def)
  have "\<exists>bs d v app s. readable_package sample_environment (pl_inbox inbox_store) bs d \<and>
      v = trust_verify (en_trust sample_environment) (en_parse sample_environment) (en_crypto sample_environment) bs \<and>
      app = pm_app_id (pv_manifest v) \<and>
      loaded_state (en_state_root sample_environment) app (en_crypto sample_environment) (wo_state (pl_world store')) = Some s \<and>
      rs_current_digest s = d"
    using inbox_install_exact [OF inst ok slots] by (elim exE conjE, intro exI conjI) assumption+
  then obtain bs d v app s where s: "readable_package sample_environment (pl_inbox inbox_store) bs d"
    "v = trust_verify (en_trust sample_environment) (en_parse sample_environment) (en_crypto sample_environment) bs"
    "app = pm_app_id (pv_manifest v)"
    "loaded_state (en_state_root sample_environment) app (en_crypto sample_environment) (wo_state (pl_world store')) = Some s"
    "rs_current_digest s = d" by blast
  have "bs = sample_package" "d = replicate 64 2"
    using s(1) by (auto simp: readable_package_def inbox_store_def sample_read sample_inbox_verified)
  with s(2-5) have "loaded_state ''/userdisk/apps/lvgl-app-policy'' ''a.b'' sample_crypto (wo_state (pl_world store')) = Some s"
    "rs_current_digest s = replicate 64 2"
    by (simp_all add: sample_inbox_verified sample_manifest_fields) (simp add: sample_environment_def)
  with inst ok show ?thesis by blast
qed

end
