(* ===== verification/Directory_Removal.thy ===== *)
theory Directory_Removal
  imports Application_Release
begin

text \<open>
  The removal of a directory tree and of the tombstones a removal leaves behind
  (\<open>platform/src/session/session_daemon.cpp\<close>, lines 931 to 1022). A directory is the list of its
  entries in the order of \<open>readdir\<close>; a subdirectory carries whether it opens, is trusted and is the
  one that was listed. The node counter, shared by reference in the code, is an argument and a
  result; the outcome of the system calls is looked up by it.
\<close>

section \<open>Trees\<close>

datatype raw_node = Raw_file | Raw_directory bool "(string \<times> raw_node) list"

definition kApplicationRemovalDepthLimit :: nat where "kApplicationRemovalDepthLimit = 128"
definition kApplicationRemovalNodeLimit :: nat where "kApplicationRemovalNodeLimit = 8192"

lemmas removal_limits = kApplicationRemovalDepthLimit_def kApplicationRemovalNodeLimit_def

text \<open>Whether a directory can be listed, an entry examined, unlinked, a directory finished and synced, a tombstone's directory removed.\<close>

record removal_calls =
  rm_list :: "nat \<Rightarrow> bool"
  rm_stat :: "nat \<Rightarrow> bool"
  rm_unlink :: "nat \<Rightarrow> bool"
  rm_finish :: "nat \<Rightarrow> bool"
  rm_rmdir :: "nat \<Rightarrow> bool"

fun node_size :: "raw_node \<Rightarrow> nat"
  and entries_size :: "(string \<times> raw_node) list \<Rightarrow> nat" where
  "node_size Raw_file = 1"
| "node_size (Raw_directory trusted es) = Suc (entries_size es)"
| "entries_size [] = 0"
| "entries_size ((name, node) # es) = node_size node + entries_size es"

lemma node_size_pos: "0 < node_size node"
  by (cases node) simp_all

text \<open>
  \<open>remove_application_contents\<close> and the loop of its body: whether it succeeds, what is left, and the
  counter.
\<close>

function (sequential) remove_application_contents ::
    "removal_calls \<Rightarrow> nat \<Rightarrow> (string \<times> raw_node) list \<Rightarrow> nat \<Rightarrow> bool \<times> (string \<times> raw_node) list \<times> nat"
  and remove_entries ::
    "removal_calls \<Rightarrow> nat \<Rightarrow> (string \<times> raw_node) list \<Rightarrow> nat \<Rightarrow> bool \<times> (string \<times> raw_node) list \<times> nat" where
  "remove_application_contents calls depth es nodes =
     (if kApplicationRemovalDepthLimit < depth then (False, es, nodes)
      else if \<not> rm_list calls nodes then (False, es, nodes)
      else remove_entries calls depth es nodes)"
| "remove_entries calls depth [] nodes = (rm_finish calls nodes, [], nodes)"
| "remove_entries calls depth ((name, node) # es) nodes =
     (if kApplicationRemovalNodeLimit < Suc nodes then (False, (name, node) # es, Suc nodes)
      else if \<not> rm_stat calls (Suc nodes) then (False, (name, node) # es, Suc nodes)
      else case node of
        Raw_file \<Rightarrow>
          if \<not> rm_unlink calls (Suc nodes) then (False, (name, node) # es, Suc nodes)
          else remove_entries calls depth es (Suc nodes)
      | Raw_directory trusted children \<Rightarrow>
          if \<not> trusted then (False, (name, node) # es, Suc nodes)
          else case remove_application_contents calls (Suc depth) children (Suc nodes) of (removed, rest, later) \<Rightarrow>
            if \<not> removed \<or> \<not> rm_unlink calls (Suc nodes)
            then (False, (name, Raw_directory trusted rest) # es, later)
            else remove_entries calls depth es later)"
  by pat_completeness auto
termination
  by (relation "measure (case_sum (\<lambda>(calls, depth, es, nodes). 2 * entries_size es + 1) (\<lambda>(calls, depth, es, nodes). 2 * entries_size es))")
    (auto simp: node_size_pos)

section \<open>Tombstones\<close>

definition tombstone_prefix :: string where "tombstone_prefix = ''.removed-''"

definition tombstone_name :: "string \<Rightarrow> bool" where
  "tombstone_name name \<longleftrightarrow> length name = length tombstone_prefix + 24 \<and>
     take (length tombstone_prefix) name = tombstone_prefix \<and>
     list_all (\<lambda>c. is_digit c \<or> (97 \<le> code c \<and> code c \<le> 102)) (drop (length tombstone_prefix) name)"

text \<open>
  The loop of \<open>cleanup_application_tombstones\<close> over the entries of the application directory; an
  entry is its name and the directory behind it, \<open>None\<close> when it does not open or is not trusted.
\<close>

fun cleanup_loop ::
    "removal_calls \<Rightarrow> (string \<times> (string \<times> raw_node) list option) list \<Rightarrow> nat
       \<Rightarrow> bool \<times> (string \<times> (string \<times> raw_node) list option) list" where
  "cleanup_loop calls [] nodes = (rm_finish calls nodes, [])"
| "cleanup_loop calls ((name, contents) # es) nodes =
     (if \<not> tombstone_name name then map_prod id ((#) (name, contents)) (cleanup_loop calls es nodes)
      else case contents of None \<Rightarrow> (False, (name, contents) # es)
      | Some children \<Rightarrow>
        case remove_application_contents calls 0 children nodes of (removed, rest, later) \<Rightarrow>
          if \<not> removed \<or> \<not> rm_rmdir calls later then (False, (name, Some rest) # es)
          else cleanup_loop calls es later)"

definition cleanup_application_tombstones ::
    "removal_calls \<Rightarrow> dir_state \<Rightarrow> dir_state \<Rightarrow> bool \<Rightarrow> (string \<times> (string \<times> raw_node) list option) list
       \<Rightarrow> bool \<times> (string \<times> (string \<times> raw_node) list option) list" where
  "cleanup_application_tombstones calls store applications listed es =
     (if store \<noteq> Dir_trusted then (False, es)
      else case applications of
        Dir_absent \<Rightarrow> (True, es)
      | Dir_untrusted \<Rightarrow> (False, es)
      | Dir_trusted \<Rightarrow> if \<not> listed then (False, es) else cleanup_loop calls es 0)"

section \<open>Progress\<close>

text \<open>Trees the removal may enter: trusted, and not deeper than the limit allows.\<close>

fun removable_node :: "nat \<Rightarrow> raw_node \<Rightarrow> bool"
  and removable :: "nat \<Rightarrow> (string \<times> raw_node) list \<Rightarrow> bool" where
  "removable_node depth Raw_file \<longleftrightarrow> True"
| "removable_node depth (Raw_directory trusted es) \<longleftrightarrow> trusted \<and> Suc depth \<le> kApplicationRemovalDepthLimit \<and> removable (Suc depth) es"
| "removable depth [] \<longleftrightarrow> True"
| "removable depth ((name, node) # es) \<longleftrightarrow> removable_node depth node \<and> removable depth es"

text \<open>The system calls of a pass that meets no error.\<close>

definition calls_succeed :: "removal_calls \<Rightarrow> bool" where
  "calls_succeed calls \<longleftrightarrow> (\<forall>n. rm_list calls n \<and> rm_stat calls n \<and> rm_unlink calls n \<and> rm_finish calls n \<and> rm_rmdir calls n)"

text \<open>
  A pass either removes everything, counting each node once, or stops at the node limit; then every
  counted node but the directories on the way to the last one is gone.
\<close>

definition removal_progress :: "nat \<Rightarrow> (string \<times> raw_node) list \<Rightarrow> nat \<Rightarrow> bool \<times> (string \<times> raw_node) list \<times> nat \<Rightarrow> bool" where
  "removal_progress depth es nodes result \<longleftrightarrow>
     (case result of (removed, rest, later) \<Rightarrow>
        (if removed then rest = [] \<and> later = nodes + entries_size es \<and> later \<le> kApplicationRemovalNodeLimit
         else later = Suc kApplicationRemovalNodeLimit \<and> removable depth rest \<and>
           entries_size rest + kApplicationRemovalNodeLimit + depth \<le> entries_size es + nodes + kApplicationRemovalDepthLimit \<and>
           kApplicationRemovalNodeLimit < nodes + entries_size es))"

lemma removal_progresses:
  "calls_succeed calls \<Longrightarrow> removable depth es \<Longrightarrow> depth \<le> kApplicationRemovalDepthLimit \<Longrightarrow> nodes \<le> kApplicationRemovalNodeLimit \<Longrightarrow>
     removal_progress depth es nodes (remove_application_contents calls depth es nodes)"
  "calls_succeed calls \<Longrightarrow> removable depth es \<Longrightarrow> depth \<le> kApplicationRemovalDepthLimit \<Longrightarrow> nodes \<le> kApplicationRemovalNodeLimit \<Longrightarrow>
     removal_progress depth es nodes (remove_entries calls depth es nodes)"
proof (induction calls depth es nodes and calls depth es nodes
    rule: remove_application_contents_remove_entries.induct)
  case (1 calls depth es nodes)
  then show ?case by (simp add: calls_succeed_def)
next
  case (2 calls depth nodes)
  then show ?case by (simp add: calls_succeed_def removal_progress_def)
next
  case (3 calls depth name node es nodes)
  note calls = 3(4) [unfolded calls_succeed_def]
  show ?case
  proof (cases "kApplicationRemovalNodeLimit < Suc nodes")
    case True
    then show ?thesis
      using 3(5,6,7) node_size_pos [of node] by (simp add: removal_progress_def)
  next
    case room: False
    show ?thesis
    proof (cases node)
      case Raw_file
      have "removal_progress depth es (Suc nodes) (remove_entries calls depth es (Suc nodes))"
        using 3 room calls Raw_file by simp
      then show ?thesis
        using room calls Raw_file by (auto simp: removal_progress_def split: prod.splits if_splits)
    next
      case (Raw_directory trusted children)
      have d: "trusted" "Suc depth \<le> kApplicationRemovalDepthLimit" "removable (Suc depth) children" "removable depth es"
        using 3(5) Raw_directory by simp_all
      obtain removed rest later where c:
        "remove_application_contents calls (Suc depth) children (Suc nodes) = (removed, rest, later)"
        by (metis prod_cases3)
      have child: "removal_progress (Suc depth) children (Suc nodes) (removed, rest, later)"
        using 3(2) [OF room _ Raw_directory] 3(4) room calls d unfolding c [symmetric]
        by (simp del: remove_application_contents.simps)
      show ?thesis
      proof (cases removed)
        case True
        then have later: "later = Suc nodes + entries_size children" "later \<le> kApplicationRemovalNodeLimit"
          using child by (simp_all add: removal_progress_def)
        have "removal_progress depth es later (remove_entries calls depth es later)"
          using 3(3) [OF room _ Raw_directory _ c [symmetric] refl] 3(4,6) later(2) calls d True by simp
        then show ?thesis
          using room calls Raw_directory d(1) c True later
          by (auto simp: removal_progress_def split: prod.splits if_splits)
      next
        case False
        then show ?thesis
          using room calls Raw_directory d c child by (simp add: removal_progress_def)
      qed
    qed
  qed
qed


text \<open>The files of a package never lie too deep for the removal, below the two directories of a release.\<close>

lemma segments_bound: "valid_segments p \<Longrightarrow> 2 * length (split_path p) \<le> Suc (length p)"
proof (induction p rule: valid_segments.induct)
  case (2 c cs)
  define part where "part = takeWhile (\<lambda>x. x \<noteq> slash) (c # cs)"
  define rest where "rest = dropWhile (\<lambda>x. x \<noteq> slash) (c # cs)"
  have split: "split_path (c # cs) = part # (case rest of [] \<Rightarrow> [] | _ # rest' \<Rightarrow> split_path rest')"
    unfolding part_def rest_def by (simp only: split_path.simps Let_def)
  have v: "valid_segment part" "case rest of [] \<Rightarrow> True | _ # rest' \<Rightarrow> valid_segments rest'"
    using "2.prems" unfolding part_def rest_def by (simp_all only: valid_segments.simps Let_def split: if_split_asm)
  then have part: "part \<noteq> []" by (auto simp: valid_segment_def)
  show ?case
  proof (cases rest)
    case Nil
    then show ?thesis unfolding split by simp
  next
    case (Cons s rest')
    have "c # cs = part @ s # rest'" using Cons by (metis part_def rest_def takeWhile_dropWhile_id)
    then have "length (c # cs) = length part + 1 + length rest'" by simp
    moreover have "2 * length (split_path rest') \<le> Suc (length rest')"
      using "2.IH" [OF part_def rest_def] v Cons by simp
    ultimately show ?thesis unfolding split using Cons part by (cases part) simp_all
  qed
qed simp

lemma package_path_depth:
  assumes "valid_path p"
  shows "length (split_path p) + 2 \<le> kApplicationRemovalDepthLimit"
proof -
  have "valid_segments p" "last p \<noteq> slash" "length p \<le> kMaximumPathSize"
    using assms by (auto simp: valid_path_def split: if_splits)
  then show ?thesis using segments_bound [of p] by (simp add: removal_limits kMaximumPathSize_def)
qed

section \<open>Repeated cleanup\<close>

text \<open>The nodes below the tombstones that are left.\<close>

fun tombstone_nodes :: "(string \<times> (string \<times> raw_node) list option) list \<Rightarrow> nat" where
  "tombstone_nodes [] = 0"
| "tombstone_nodes ((name, contents) # es) =
     (if tombstone_name name then (case contents of None \<Rightarrow> 0 | Some children \<Rightarrow> entries_size children) else 0) + tombstone_nodes es"

definition removable_tombstones :: "(string \<times> (string \<times> raw_node) list option) list \<Rightarrow> bool" where
  "removable_tombstones es \<longleftrightarrow>
     list_all (\<lambda>e. tombstone_name (fst e) \<longrightarrow> (\<exists>children. snd e = Some children \<and> removable 0 children)) es"

lemma cleanup_loop_progress:
  assumes "calls_succeed calls" "removable_tombstones es" "nodes \<le> kApplicationRemovalNodeLimit"
  shows "case cleanup_loop calls es nodes of (cleaned, rest) \<Rightarrow>
    (if cleaned then rest = filter (\<lambda>e. \<not> tombstone_name (fst e)) es
     else removable_tombstones rest \<and>
       filter (\<lambda>e. \<not> tombstone_name (fst e)) rest = filter (\<lambda>e. \<not> tombstone_name (fst e)) es \<and>
       tombstone_nodes rest + kApplicationRemovalNodeLimit \<le> tombstone_nodes es + nodes + kApplicationRemovalDepthLimit)"
  using assms(2,3)
proof (induction es arbitrary: nodes)
  case Nil
  then show ?case using assms(1) by (simp add: calls_succeed_def)
next
  case (Cons e es)
  obtain name contents where e: "e = (name, contents)" by fastforce
  show ?case
  proof (cases "tombstone_name name")
    case False
    have "removable_tombstones es" using Cons.prems(1) by (simp add: removable_tombstones_def)
    with Cons.IH [OF this Cons.prems(2)] False show ?thesis
      by (auto simp: e removable_tombstones_def split: prod.splits if_splits)
  next
    case True
    then obtain children where c: "contents = Some children" "removable 0 children"
      using Cons.prems(1) by (auto simp: e removable_tombstones_def)
    have rest: "removable_tombstones es" using Cons.prems(1) by (simp add: removable_tombstones_def)
    obtain removed left later where r: "remove_application_contents calls 0 children nodes = (removed, left, later)"
      by (metis prod_cases3)
    have p: "removal_progress 0 children nodes (removed, left, later)"
      using removal_progresses(1) [OF assms(1) c(2) _ Cons.prems(2)] unfolding r by simp
    show ?thesis
    proof (cases removed)
      case False
      then show ?thesis
        using True c p rest by (simp add: e r removal_progress_def removable_tombstones_def del: remove_application_contents.simps)
    next
      case True
      then have later: "later = nodes + entries_size children" "later \<le> kApplicationRemovalNodeLimit"
        using p by (simp_all add: removal_progress_def)
      have loop: "cleanup_loop calls (e # es) nodes = cleanup_loop calls es later"
        using True \<open>tombstone_name name\<close> c(1) assms(1)
        by (simp add: e r calls_succeed_def del: remove_application_contents.simps)
      show ?thesis unfolding loop
        using Cons.IH [OF rest later(2)] \<open>tombstone_name name\<close> c(1) later(1)
        by (auto simp: e split: prod.splits if_splits)
    qed
  qed
qed

text \<open>The passes of one request after the other, until one succeeds.\<close>

fun cleanup_passes :: "removal_calls \<Rightarrow> nat \<Rightarrow> (string \<times> (string \<times> raw_node) list option) list
    \<Rightarrow> bool \<times> (string \<times> (string \<times> raw_node) list option) list" where
  "cleanup_passes calls 0 es = (False, es)"
| "cleanup_passes calls (Suc k) es =
     (case cleanup_application_tombstones calls Dir_trusted Dir_trusted True es of
        (True, rest) \<Rightarrow> (True, rest) | (False, rest) \<Rightarrow> cleanup_passes calls k rest)"

text \<open>C5. The cleanup of removed applications ends: however many files they left, when the system calls
  succeed every pass that stops at its node limit has removed at least 8064 nodes, so that after at
  most one pass for each 8064 nodes and one more no tombstone is left and nothing else has changed.\<close>

theorem cleanup_terminates:
  assumes "calls_succeed calls" "removable_tombstones es" "tombstone_nodes es div 8064 < k"
  shows "cleanup_passes calls k es = (True, filter (\<lambda>e. \<not> tombstone_name (fst e)) es)"
  using assms(2,3)
proof (induction k arbitrary: es)
  case (Suc k)
  obtain cleaned rest where c: "cleanup_loop calls es 0 = (cleaned, rest)" by fastforce
  note p = cleanup_loop_progress [OF assms(1) Suc.prems(1), of 0, unfolded c]
  show ?case
  proof (cases cleaned)
    case True
    then show ?thesis using p c by (simp add: cleanup_application_tombstones_def)
  next
    case False
    then have rest: "removable_tombstones rest" "tombstone_nodes rest + 8064 \<le> tombstone_nodes es"
      "filter (\<lambda>e. \<not> tombstone_name (fst e)) rest = filter (\<lambda>e. \<not> tombstone_name (fst e)) es"
      using p by (simp_all add: removal_limits)
    have "tombstone_nodes rest div 8064 + 1 \<le> tombstone_nodes es div 8064"
      using rest(2) by (metis div_le_mono div_add_self2 zero_neq_numeral)
    then show ?thesis
      using Suc.IH [OF rest(1)] Suc.prems(2) False c rest(3) by (simp add: cleanup_application_tombstones_def)
  qed
qed simp

lemma cleanup_terminates_witness:
  "cleanup_passes \<lparr>rm_list = \<lambda>_. True, rm_stat = \<lambda>_. True, rm_unlink = \<lambda>_. True, rm_finish = \<lambda>_. True, rm_rmdir = \<lambda>_. True\<rparr> 1
     [(''.removed-0123456789abcdef01234567'', Some [(''releases'', Raw_directory True [(''x'', Raw_file)])]), (''a.b'', None)] =
   (True, [(''a.b'', None)])"
proof -
  have t: "tombstone_name ''.removed-0123456789abcdef01234567''" "\<not> tombstone_name ''a.b''" by code_simp+
  show ?thesis
    by (subst cleanup_terminates) (simp_all add: t calls_succeed_def removable_tombstones_def removal_limits)
qed

end
