(* ===== verification/Installed_Apps.thy ===== *)
theory Installed_Apps
  imports Directory_Removal Inbox_Service
begin

text \<open>
  The installed applications as the installer manages them
  (\<open>platform/src/session/session_daemon.cpp\<close>, lines 713 to 929 and 1024 to 1113): their snapshots
  and tokens, the audit log, removal into a tombstone, rollback on request.
\<close>

section \<open>Snapshots\<close>

record dir_identity =
  di_dev :: u64
  di_ino :: u64
  di_ctime :: int

record installed_snapshot =
  sn_public :: installed_candidate
  sn_state :: "release_state option"

text \<open>The numbers a token covers, each followed by a new line.\<close>

definition token_lines :: "string list \<Rightarrow> string" where
  "token_lines texts = concat (map (\<lambda>f. f @ [newline]) texts)"

definition snapshot_header :: "string \<Rightarrow> dir_identity \<Rightarrow> string" where
  "snapshot_header app_id directory = token_lines
     [''LVGL-INSTALLED-SNAPSHOT-v1'', app_id, dec_string (unat (di_dev directory)), dec_string (unat (di_ino directory)),
      dec_string_int (di_ctime directory)]"

definition snapshot_state :: "release_state \<Rightarrow> string" where
  "snapshot_state s = token_lines
     [dec_string (unat (rs_generation s)), dec_string (unat (rs_current_release s)), dec_string (unat (rs_previous_release s)),
      dec_string (unat (rs_high_release s)), dec_string (unat (rs_quarantined_release s)),
      dec_string (unat (rs_high_security_epoch s)), dec_string (unat (rs_consecutive_launch_failures s)),
      rs_signing_key_id s]"

definition snapshot_material :: "string \<Rightarrow> dir_identity \<Rightarrow> release_state option \<Rightarrow> bytes" where
  "snapshot_material app_id directory state =
     bytes_of (snapshot_header app_id directory) @
     (case state of
        Some s \<Rightarrow> bytes_of (snapshot_state s) @ rs_current_digest s @ rs_previous_digest s @ rs_high_digest s
      | None \<Rightarrow> bytes_of ''untrusted-policy'')"

definition installed_snapshot_token ::
    "string \<Rightarrow> dir_identity \<Rightarrow> release_state option \<Rightarrow> evp_library \<Rightarrow> string option" where
  "installed_snapshot_token app_id directory state crypto =
     map_option hex_of_bytes (sha512 crypto (snapshot_material app_id directory state))"

text \<open>What is shown of one application.\<close>

definition application_candidate ::
    "install_environment \<Rightarrow> session_profile \<Rightarrow> install_world \<Rightarrow> string \<Rightarrow> installed_candidate \<times> release_state option" where
  "application_candidate env profile w app_id =
     (let shown = no_installed\<lparr>ia_app_id := app_id, ia_name := app_id, ia_version := ''unknown'',
            ia_detail := ''INSTALLED_POLICY_UNTRUSTED''\<rparr>;
          stored = load_release_state (en_state_root env) app_id (en_crypto env) (wo_state w)
      in if st_status stored \<noteq> Store_loaded \<and> st_status stored \<noteq> Store_loaded_degraded then (shown, None)
      else let s = dr_state (sr_decoded (st_selected stored));
               shown = shown\<lparr>ia_policy_trusted := True, ia_current_release := rs_current_release s,
                 ia_previous_release := rs_previous_release s, ia_security_epoch := rs_high_security_epoch s,
                 ia_version := ''release-'' @ dec_string (unat (rs_current_release s))\<rparr>;
               shown = (case verify_application_release env profile (wo_payload w) app_id (rs_current_release s)
                   (rs_current_digest s) (rs_signing_key_id s) of
                   Some current \<Rightarrow>
                     let m = pv_manifest (va_verification current) in
                     shown\<lparr>ia_name := pm_name m, ia_version := pm_version m, ia_security_epoch := pm_security_epoch m,
                       ia_current_verified := True,
                       ia_detail := (if st_status stored = Store_loaded_degraded
                         then ''INSTALLED_VERIFIED_POLICY_DEGRADED'' else ''INSTALLED_VERIFIED'')\<rparr>
                 | None \<Rightarrow> shown\<lparr>ia_detail := ''INSTALLED_CURRENT_UNTRUSTED''\<rparr>);
               shown = (if rs_previous_release s = 0 then shown
                 else shown\<lparr>ia_rollback_available := (verify_application_release env profile (wo_payload w) app_id
                   (rs_previous_release s) (rs_previous_digest s) (rs_signing_key_id s) \<noteq> None)\<rparr>)
           in (shown, Some s))"

text \<open>
  The listing is the one of \<open>installed_application_ids\<close>; \<open>identity\<close> is what \<open>fstatat\<close> tells of the
  directory of an application.
\<close>

definition installed_application_snapshots ::
    "install_environment \<Rightarrow> session_profile \<Rightarrow> string list \<Rightarrow> bool \<Rightarrow> (string \<Rightarrow> dir_identity) \<Rightarrow> install_world
       \<Rightarrow> installed_snapshot list \<times> bool" where
  "installed_application_snapshots env profile listing listed identity w =
     (let fs = wo_payload w in
      if pr_root fs \<noteq> Dir_trusted then ([], False)
      else if pr_apps fs = Dir_absent then ([], True)
      else if pr_apps fs \<noteq> Dir_trusted then ([], False)
      else case installed_application_ids listing listed fs of (ids, reliable) \<Rightarrow>
        if \<not> reliable then ([], False)
        else (sort_key (\<lambda>s. ia_app_id (sn_public s)) (List.map_filter (\<lambda>app_id.
                case application_candidate env profile w app_id of (shown, state) \<Rightarrow>
                  (case installed_snapshot_token app_id (identity app_id) state (en_crypto env) of
                     None \<Rightarrow> None
                   | Some token \<Rightarrow> Some \<lparr>sn_public = shown\<lparr>ia_token := token\<rparr>, sn_state = state\<rparr>)) ids), True))"

text \<open>A token covers an application, a directory and a stored state without ambiguity.\<close>

lemma token_lines_inject:
  "length xs = length ys \<Longrightarrow> list_all (\<lambda>x. newline \<notin> set x) xs \<Longrightarrow> list_all (\<lambda>y. newline \<notin> set y) ys \<Longrightarrow>
   token_lines xs @ r = token_lines ys @ s \<Longrightarrow> xs = ys \<and> r = s"
proof (induction xs ys arbitrary: r s rule: list_induct2)
  case (Cons x xs y ys)
  have e: "x @ newline # (token_lines xs @ r) = y @ newline # (token_lines ys @ s)"
    using Cons.prems(3) by (simp add: token_lines_def)
  have "takeWhile (\<lambda>c. c \<noteq> newline) (x @ newline # (token_lines xs @ r)) = x"
    "takeWhile (\<lambda>c. c \<noteq> newline) (y @ newline # (token_lines ys @ s)) = y"
    using Cons.prems(1,2) by (auto simp: takeWhile_append2 list_all_iff intro!: takeWhile_append2 [THEN trans])
  then have "x = y" using e by metis
  then show ?case using e Cons.IH Cons.prems by simp
qed (simp add: token_lines_def)

lemma dec_string_inject [simp]: "dec_string m = dec_string n \<longleftrightarrow> m = n"
  using dec_string_value by metis

lemma dec_string_no_newline: "newline \<notin> set (dec_string n)"
  using dec_string_digits [of n] by (auto simp: list_all_iff is_digit_def newline_def code_def)

lemma dec_string_minus: "dec_string n \<noteq> CHR ''-'' # cs"
  using dec_string_digits [of n] by (auto simp: is_digit_def code_def)

lemma dec_string_int_inject: "dec_string_int y = dec_string_int z \<Longrightarrow> y = z"
  using dec_string_minus by (auto simp: dec_string_int_def split: if_split_asm) metis+

lemma dec_string_int_no_newline: "newline \<notin> set (dec_string_int z)"
  using dec_string_no_newline by (auto simp: dec_string_int_def newline_def)

lemma session_id_no_newline: "valid_session_app_id v \<Longrightarrow> newline \<notin> set v"
proof
  assume v: "valid_session_app_id v" "newline \<in> set v"
  then have "app_id_loop False False v" by (auto simp: valid_session_app_id_iff package_app_id_def split: if_splits)
  from app_id_loop_chars [OF this v(2)] show False
    by (auto simp: newline_def dot_def dash_def is_lower_def is_digit_def code_def)
qed

text \<open>The states a snapshot can show.\<close>

definition snapshot_state_ok :: "string \<Rightarrow> release_state option \<Rightarrow> bool" where
  "snapshot_state_ok app state \<longleftrightarrow> (\<forall>s. state = Some s \<longrightarrow> rs_app_id s = app \<and> state_typed s \<and> state_key_id (rs_signing_key_id s))"

lemma snapshot_state_inject:
  assumes "bytes_of (snapshot_state s) @ rs_current_digest s @ rs_previous_digest s @ rs_high_digest s =
      bytes_of (snapshot_state t) @ rs_current_digest t @ rs_previous_digest t @ rs_high_digest t"
    and "snapshot_state_ok app (Some s)" "snapshot_state_ok app (Some t)"
  shows "s = t"
proof -
  have no: "newline \<notin> set (rs_signing_key_id s)" "newline \<notin> set (rs_signing_key_id t)"
    using assms(2,3) by (auto simp: snapshot_state_ok_def state_key_id_def list_all_iff newline_def is_digit_def code_def)
  have typed: "state_typed s" "state_typed t" "rs_app_id s = rs_app_id t"
    using assms(2,3) by (simp_all add: snapshot_state_ok_def)
  have "snapshot_state s @ str_of (rs_current_digest s @ rs_previous_digest s @ rs_high_digest s) =
      snapshot_state t @ str_of (rs_current_digest t @ rs_previous_digest t @ rs_high_digest t)"
    using arg_cong [OF assms(1), of str_of] by (simp add: str_of_append)
  then have "[dec_string (unat (rs_generation s)), dec_string (unat (rs_current_release s)), dec_string (unat (rs_previous_release s)),
      dec_string (unat (rs_high_release s)), dec_string (unat (rs_quarantined_release s)),
      dec_string (unat (rs_high_security_epoch s)), dec_string (unat (rs_consecutive_launch_failures s)), rs_signing_key_id s] =
     [dec_string (unat (rs_generation t)), dec_string (unat (rs_current_release t)), dec_string (unat (rs_previous_release t)),
      dec_string (unat (rs_high_release t)), dec_string (unat (rs_quarantined_release t)),
      dec_string (unat (rs_high_security_epoch t)), dec_string (unat (rs_consecutive_launch_failures t)), rs_signing_key_id t] \<and>
    str_of (rs_current_digest s @ rs_previous_digest s @ rs_high_digest s) =
    str_of (rs_current_digest t @ rs_previous_digest t @ rs_high_digest t)"
    unfolding snapshot_state_def
    by (intro token_lines_inject) (use no in \<open>simp_all add: dec_string_no_newline\<close>)
  then have lines: "rs_generation s = rs_generation t" "rs_current_release s = rs_current_release t"
    "rs_previous_release s = rs_previous_release t" "rs_high_release s = rs_high_release t"
    "rs_quarantined_release s = rs_quarantined_release t" "rs_high_security_epoch s = rs_high_security_epoch t"
    "rs_consecutive_launch_failures s = rs_consecutive_launch_failures t" "rs_signing_key_id s = rs_signing_key_id t"
    and digests: "rs_current_digest s @ rs_previous_digest s @ rs_high_digest s =
      rs_current_digest t @ rs_previous_digest t @ rs_high_digest t"
    by (auto simp: word_unat_eq_iff dest: arg_cong [of _ _ bytes_of])
  with typed show ?thesis by (cases s, cases t) (simp add: state_typed_def)
qed

lemma snapshot_material_inject:
  assumes "snapshot_material a d s = snapshot_material b e t" "valid_session_app_id a" "valid_session_app_id b"
    and "snapshot_state_ok a s" "snapshot_state_ok b t"
  shows "a = b \<and> d = e \<and> s = t"
proof -
  define rest where "rest = (\<lambda>state. case state of
      Some s \<Rightarrow> bytes_of (snapshot_state s) @ rs_current_digest s @ rs_previous_digest s @ rs_high_digest s
    | None \<Rightarrow> bytes_of ''untrusted-policy'')"
  have banner: "newline \<notin> set ''LVGL-INSTALLED-SNAPSHOT-v1''" by (simp add: newline_def)
  have "snapshot_header a d @ str_of (rest s) = snapshot_header b e @ str_of (rest t)"
    using arg_cong [OF assms(1), of str_of] by (simp add: snapshot_material_def str_of_append rest_def)
  then have "[''LVGL-INSTALLED-SNAPSHOT-v1'', a, dec_string (unat (di_dev d)), dec_string (unat (di_ino d)), dec_string_int (di_ctime d)] =
      [''LVGL-INSTALLED-SNAPSHOT-v1'', b, dec_string (unat (di_dev e)), dec_string (unat (di_ino e)), dec_string_int (di_ctime e)] \<and>
    str_of (rest s) = str_of (rest t)"
    unfolding snapshot_header_def
    by (intro token_lines_inject)
      (use assms(2,3) banner in \<open>simp_all add: dec_string_no_newline dec_string_int_no_newline session_id_no_newline\<close>)
  then have same: "a = b" "d = e" and rest: "rest s = rest t"
    by (auto simp: word_unat_eq_iff intro!: dir_identity.equality dest: dec_string_int_inject arg_cong [of _ _ bytes_of])
  have start: "rest (Some u) \<noteq> rest None" for u
  proof
    assume "rest (Some u) = rest None"
    then have "hd (rest (Some u)) = hd (bytes_of ''untrusted-policy'')" by (simp add: rest_def)
    moreover obtain c cs where c: "dec_string (unat (rs_generation u)) = c # cs" "is_digit c"
      using dec_string_digits [of "unat (rs_generation u)"] by (cases "dec_string (unat (rs_generation u))") auto
    ultimately have "byte_of c = byte_of (CHR ''u'')"
      by (simp add: rest_def snapshot_state_def token_lines_def bytes_of_def)
    then have "c = CHR ''u''" by (metis char_of_byte_of)
    with c(2) show False by (simp add: is_digit_def code_def)
  qed
  show ?thesis
  proof (cases s)
    case None
    then show ?thesis using same rest start by (cases t) (auto dest: sym)
  next
    case s: (Some u)
    then obtain v where t: "t = Some v" using rest start by (cases t) auto
    have "u = v"
      by (rule snapshot_state_inject [of u v a]) (use rest assms(4,5) same s t in \<open>simp_all add: rest_def\<close>)
    then show ?thesis using same s t by simp
  qed
qed

section \<open>The audit log\<close>

definition kLifecycleAuditLimit :: nat where "kLifecycleAuditLimit = 8192"

text \<open>The directory of the logs, \<open>Dir_trusted\<close> when it is private; a log that may be opened, and its contents.\<close>

record audit_log =
  al_directory :: dir_state
  al_file :: "string \<Rightarrow> (bool \<times> string) option"

text \<open>
  The outcome of the calls of one record: creation and sync of the directory, opening of the log,
  the clock, the random suffix, the replacement of a full log, how much of a write arrives (\<open>None\<close> is
  all of it), the syncs and the rename.
\<close>

record audit_calls =
  au_create :: bool
  au_created_sync :: bool
  au_open :: bool
  au_clock :: "int option"
  au_random :: "bytes option"
  au_replace :: bool
  au_written :: "nat option"
  au_sync :: bool
  au_rename :: bool
  au_directory_sync :: bool

definition audit_line :: "nat \<Rightarrow> string \<Rightarrow> string \<Rightarrow> u64 \<Rightarrow> string" where
  "audit_line seconds action phase generation =
     dec_string seconds @ '' '' @ action @ '' '' @ phase @ '' '' @ dec_string (unat generation) @ [newline]"

definition lifecycle_audit ::
    "audit_calls \<Rightarrow> dir_state \<Rightarrow> string \<Rightarrow> string \<Rightarrow> string \<Rightarrow> u64 \<Rightarrow> audit_log \<Rightarrow> bool \<times> audit_log" where
  "lifecycle_audit calls policy app_id action phase generation log =
     (if \<not> valid_session_app_id app_id \<or> action = [] \<or> phase = [] then (False, log)
      else if policy \<noteq> Dir_trusted then (False, log)
      else let created = (al_directory log = Dir_absent);
               directory = (if created \<and> au_create calls then Dir_trusted else al_directory log);
               log = log\<lparr>al_directory := directory\<rparr>
      in if directory \<noteq> Dir_trusted \<or> (created \<and> \<not> au_created_sync calls) then (False, log)
      else if \<not> au_open calls then (False, log)
      else let entry = (case al_file log app_id of None \<Rightarrow> (True, []) | Some entry \<Rightarrow> entry);
               log = log\<lparr>al_file := (al_file log)(app_id \<mapsto> entry)\<rparr>;
               contents = snd entry
      in if \<not> fst entry \<or> kLifecycleAuditLimit < length contents then (False, log)
      else case au_clock calls of None \<Rightarrow> (False, log)
      | Some seconds \<Rightarrow>
        if seconds < 0 then (False, log)
        else let line = audit_line (nat seconds) action phase generation in
        if 128 < length line then (False, log)
        else if kLifecycleAuditLimit < length contents + length line
        then (if au_random calls = None \<or> \<not> au_replace calls \<or> au_written calls \<noteq> None \<or> \<not> au_sync calls \<or> \<not> au_rename calls
              then (False, log)
              else (au_directory_sync calls,
                    log\<lparr>al_file := (al_file log)(app_id \<mapsto> (True, ''AUDIT_ROTATED'' @ [newline] @ line))\<rparr>))
        else case au_written calls of
            Some n \<Rightarrow> (False, log\<lparr>al_file := (al_file log)(app_id \<mapsto> (True, contents @ take n line))\<rparr>)
          | None \<Rightarrow> (au_sync calls, log\<lparr>al_file := (al_file log)(app_id \<mapsto> (True, contents @ line))\<rparr>))"

section \<open>The managed state\<close>

text \<open>The stores, the tombstones of the application directory, the audit logs.\<close>

record managed =
  mg_store :: platform_store
  mg_tombstones :: "(string \<times> (string \<times> raw_node) list option) list"
  mg_audit :: audit_log

abbreviation mg_world :: "managed \<Rightarrow> install_world" where
  "mg_world m \<equiv> pl_world (mg_store m)"

definition set_world :: "install_world \<Rightarrow> managed \<Rightarrow> managed" where
  "set_world w m = m\<lparr>mg_store := (mg_store m)\<lparr>pl_world := w\<rparr>\<rparr>"

definition audited :: "audit_calls \<Rightarrow> string \<Rightarrow> string \<Rightarrow> string \<Rightarrow> u64 \<Rightarrow> managed \<Rightarrow> bool \<times> managed" where
  "audited calls app_id action phase generation m =
     (case lifecycle_audit calls (sd_root (wo_state (mg_world m))) app_id action phase generation (mg_audit m) of
        (ok, log) \<Rightarrow> (ok, m\<lparr>mg_audit := log\<rparr>))"

section \<open>Removal\<close>

text \<open>
  The calls of a removal: whether the directories open, the identity of the application's directory
  now and what it holds, the random suffix, the rename, the sync, the removal itself, the last
  \<open>rmdir\<close> and sync, and the audit records.
\<close>

record remove_calls =
  rv_open :: bool
  rv_identity :: dir_identity
  rv_contents :: "(string \<times> raw_node) list"
  rv_begin :: audit_calls
  rv_random :: "bytes option"
  rv_rename :: bool
  rv_renamed_sync :: bool
  rv_removal :: removal_calls
  rv_rmdir :: bool
  rv_final_sync :: bool
  rv_end :: audit_calls

definition application_directory_gone :: app_releases where
  "application_directory_gone = \<lparr>ar_dir = Dir_absent, ar_releases_dir = Dir_absent, ar_releases = (\<lambda>_. None)\<rparr>"

definition snapshot_generation :: "installed_snapshot \<Rightarrow> u64" where
  "snapshot_generation s = (case sn_state s of None \<Rightarrow> 0 | Some state \<Rightarrow> rs_generation state)"

definition remove_installed_application ::
    "install_environment \<Rightarrow> remove_calls \<Rightarrow> installed_snapshot \<Rightarrow> managed \<Rightarrow> string option \<times> managed" where
  "remove_installed_application env calls snapshot m =
     (let app_id = ia_app_id (sn_public snapshot); fs = wo_payload (mg_world m) in
      if pr_root fs \<noteq> Dir_trusted \<or> pr_apps fs \<noteq> Dir_trusted \<or> ar_dir (pr_app fs app_id) \<noteq> Dir_trusted \<or> \<not> rv_open calls
      then (None, m)
      else if installed_snapshot_token app_id (rv_identity calls) (sn_state snapshot) (en_crypto env) \<noteq>
              Some (ia_token (sn_public snapshot))
      then (None, m)
      else case audited (rv_begin calls) app_id ''remove'' ''BEGIN'' (snapshot_generation snapshot) m of (begun, m) \<Rightarrow>
      if \<not> begun then (None, m)
      else case rv_random calls of None \<Rightarrow> (None, m)
      | Some random \<Rightarrow>
        let tombstone = tombstone_prefix @ hex_of_bytes random in
        if tombstone \<in> fst ` set (mg_tombstones m) \<or> \<not> rv_rename calls then (None, m)
        else
          let m = set_world ((mg_world m)\<lparr>wo_payload := fs\<lparr>pr_app := (pr_app fs)(app_id := application_directory_gone)\<rparr>\<rparr>) m;
              tombstones = mg_tombstones m;
              m = m\<lparr>mg_tombstones := tombstones @ [(tombstone, Some (rv_contents calls))]\<rparr>
          in if \<not> rv_renamed_sync calls then (None, m)
          else case remove_application_contents (rv_removal calls) 0 (rv_contents calls) 0 of (removed, rest, nodes) \<Rightarrow>
            let m = m\<lparr>mg_tombstones := (if removed \<and> rv_rmdir calls then tombstones
                        else tombstones @ [(tombstone, Some rest)])\<rparr>
            in if \<not> removed \<or> \<not> rv_rmdir calls \<or> \<not> rv_final_sync calls
            then (Some ''APPLICATION_REMOVED_CLEANUP_DEFERRED'',
                  snd (audited (rv_end calls) app_id ''remove'' ''ISOLATED'' (snapshot_generation snapshot) m))
            else (Some ''APPLICATION_PAYLOAD_REMOVED_POLICY_DATA_RETAINED'',
                  snd (audited (rv_end calls) app_id ''remove'' ''COMMIT'' (snapshot_generation snapshot) m)))"

section \<open>Rollback\<close>

record rollback_calls =
  rk_begin :: audit_calls
  rk_store :: store_faults
  rk_end :: audit_calls

definition commit_rollback ::
    "install_environment \<Rightarrow> rollback_calls \<Rightarrow> string \<Rightarrow> u64 \<Rightarrow> release_state \<Rightarrow> managed \<Rightarrow> string option \<times> managed" where
  "commit_rollback env calls app_id generation rolled_back m =
     (case audited (rk_begin calls) app_id ''rollback'' ''BEGIN'' generation m of (begun, m) \<Rightarrow>
        if \<not> begun then (None, m)
        else let w = mg_world m in
          case persist_release_state (en_state_root env) rolled_back (en_crypto env) (rk_store calls) (wo_state w) of
            (persisted, state_fs) \<Rightarrow>
              let m = set_world (w\<lparr>wo_state := state_fs\<rparr>) m in
              if \<not> st_ok persisted then (None, m)
              else (Some (if st_status persisted = Store_written_degraded then ''APPLICATION_ROLLED_BACK_POLICY_DEGRADED''
                          else ''APPLICATION_ROLLED_BACK_CURRENT_QUARANTINED''),
                    snd (audited (rk_end calls) app_id ''rollback'' ''COMMIT'' (rs_generation rolled_back) m)))"

definition rollback_installed_application ::
    "install_environment \<Rightarrow> session_profile \<Rightarrow> rollback_calls \<Rightarrow> installed_snapshot \<Rightarrow> managed \<Rightarrow> string option \<times> managed" where
  "rollback_installed_application env profile calls snapshot m =
     (case sn_state snapshot of None \<Rightarrow> (None, m)
      | Some state \<Rightarrow>
        if rs_previous_release state = 0 then (None, m)
        else let app_id = ia_app_id (sn_public snapshot); w = mg_world m;
                 stored = load_release_state (en_state_root env) app_id (en_crypto env) (wo_state w);
                 active = dr_state (sr_decoded (st_selected stored))
        in if (st_status stored \<noteq> Store_loaded \<and> st_status stored \<noteq> Store_loaded_degraded) \<or>
              rs_generation active \<noteq> rs_generation state \<or> rs_current_release active \<noteq> rs_current_release state \<or>
              rs_previous_release active \<noteq> rs_previous_release state \<or> rs_current_digest active \<noteq> rs_current_digest state \<or>
              rs_previous_digest active \<noteq> rs_previous_digest state \<or> rs_signing_key_id active \<noteq> rs_signing_key_id state
        then (None, m)
        else if verify_application_release env profile (wo_payload w) app_id (rs_previous_release active)
                  (rs_previous_digest active) (rs_signing_key_id active) = None
        then (None, m)
        else case rollback_release active False of None \<Rightarrow> (None, m)
        | Some rolled_back \<Rightarrow> commit_rollback env calls app_id (rs_generation active) rolled_back m)"

end
