(* ===== verification/Installer_Service.thy ===== *)
theory Installer_Service
  imports Installed_Apps
begin

text \<open>
  The installer service of the session daemon (\<open>platform/src/session/session_daemon.cpp\<close>, lines 1479
  to 1614): one request of the installer program, answered by a response packet, or not at all, which
  ends the program.
\<close>

section \<open>Requests\<close>

fun installer_status_for :: "inbox_status \<Rightarrow> installer_status" where
  "installer_status_for Inbox_ready = Status_ready"
| "installer_status_for Inbox_empty = Status_empty"
| "installer_status_for Inbox_invalid_token = Status_invalid_request"
| "installer_status_for Inbox_candidate_not_found = Status_not_found"
| "installer_status_for Inbox_candidate_rejected = Status_rejected"
| "installer_status_for Inbox_root_untrusted = Status_unavailable"
| "installer_status_for Inbox_io_error = Status_io_error"
| "installer_status_for Inbox_unsupported_platform = Status_unavailable"

text \<open>
  The calls made for one request: whether the cryptographic library loads, the calls of the operation
  it asks for, and whether \<open>send\<close> takes the answer. An answer goes out only when both do.
\<close>

record installer_calls =
  ic_provider :: bool
  ic_prepare :: "(bool \<times> bool) \<times> (bool \<times> bool) \<times> (bool \<times> bool)"
  ic_install :: "stage_faults \<times> store_faults"
  ic_cleanup :: removal_calls
  ic_cleanup_listed :: bool
  ic_listing :: "string list"
  ic_listed :: bool
  ic_identity :: "string \<Rightarrow> dir_identity"
  ic_remove :: remove_calls
  ic_rollback :: rollback_calls
  ic_send :: bool

definition ic_sent :: "installer_calls \<Rightarrow> bool" where
  "ic_sent calls \<longleftrightarrow> ic_provider calls \<and> ic_send calls"

definition installed_command :: "installer_command \<Rightarrow> bool" where
  "installed_command c \<longleftrightarrow> c = Inst_installed_scan \<or> c = Inst_installed_candidate \<or> c = Inst_rollback \<or> c = Inst_remove"

text \<open>The answer of an operation: a status, a detail, and what a response carries besides.\<close>

definition installer_answer :: "installer_request \<Rightarrow> installer_status \<Rightarrow> string \<Rightarrow> installer_response" where
  "installer_answer q status detail =
     \<lparr>ir_command = iq_command q, ir_status = status, ir_request_id = iq_request_id q, ir_count = 0,
      ir_detail = detail, ir_candidate = no_candidate, ir_installed = no_installed\<rparr>"

definition manage_selected ::
    "install_environment \<Rightarrow> session_profile \<Rightarrow> installer_calls \<Rightarrow> installer_request \<Rightarrow> installed_snapshot list \<Rightarrow> managed
       \<Rightarrow> installer_response \<times> managed" where
  "manage_selected env profile calls q installed m =
     (case find (\<lambda>s. ia_token (sn_public s) = iq_token q) installed of
        None \<Rightarrow> (installer_answer q Status_not_found ''INSTALLED_SNAPSHOT_STALE'', m)
      | Some selected \<Rightarrow>
        if iq_command q = Inst_rollback \<and> \<not> ia_rollback_available (sn_public selected)
        then (installer_answer q Status_rejected ''APPLICATION_TRUSTED_ROLLBACK_UNAVAILABLE'', m)
        else case (if iq_command q = Inst_rollback
                   then rollback_installed_application env profile (ic_rollback calls) selected m
                   else remove_installed_application env (ic_remove calls) selected m) of
            (Some detail, m) \<Rightarrow> (installer_answer q Status_ready detail, m)
          | (None, m) \<Rightarrow> (installer_answer q Status_io_error
              (if iq_command q = Inst_rollback then ''APPLICATION_ROLLBACK_FAILED_CLOSED''
               else ''APPLICATION_REMOVE_FAILED_CLOSED''), m))"

definition installed_reply ::
    "install_environment \<Rightarrow> session_profile \<Rightarrow> installer_calls \<Rightarrow> installer_request \<Rightarrow> managed
       \<Rightarrow> installer_response \<times> managed" where
  "installed_reply env profile calls q m =
     (let fs = wo_payload (mg_world m) in
      case cleanup_application_tombstones (ic_cleanup calls) (pr_root fs) (pr_apps fs) (ic_cleanup_listed calls)
             (mg_tombstones m) of (cleaned, tombstones) \<Rightarrow>
      let m = m\<lparr>mg_tombstones := tombstones\<rparr> in
      if \<not> cleaned then (installer_answer q Status_io_error ''APPLICATION_REMOVAL_RECOVERY_FAILED_CLOSED'', m)
      else case installed_application_snapshots env profile (ic_listing calls) (ic_listed calls) (ic_identity calls)
                  (mg_world m) of (installed, reliable) \<Rightarrow>
      if \<not> reliable then (installer_answer q Status_unavailable ''INSTALLED_ROOT_UNTRUSTED'', m)
      else if iq_command q = Inst_installed_scan
      then ((installer_answer q (if installed = [] then Status_empty else Status_ready)
               (if installed = [] then ''INSTALLED_EMPTY'' else ''INSTALLED_READY''))
              \<lparr>ir_count := word_of_nat (length installed)\<rparr>, m)
      else if iq_command q = Inst_installed_candidate
      then (if unat (iq_index q) < length installed
            then let shown = sn_public (installed ! unat (iq_index q))
                 in ((installer_answer q Status_ready (ia_detail shown))\<lparr>ir_installed := shown\<rparr>, m)
            else (installer_answer q Status_not_found ''INSTALLED_CANDIDATE_NOT_FOUND'', m))
      else manage_selected env profile calls q installed m)"

definition inbox_reply ::
    "install_environment \<Rightarrow> session_profile \<Rightarrow> installer_request \<Rightarrow> managed \<Rightarrow> installer_response" where
  "inbox_reply env profile q m =
     (let scan = scan_official_inbox env (installer_policy profile) (mg_store m);
          candidates = is_candidates scan;
          answer = installer_answer q (installer_status_for (is_status scan)) (is_detail scan)
      in if iq_command q = Inst_scan
      then (if is_status scan = Inbox_ready then answer\<lparr>ir_count := word_of_nat (length candidates)\<rparr> else answer)
      else if is_status scan = Inbox_ready \<and> unat (iq_index q) < length candidates
      then let shown = candidates ! unat (iq_index q)
           in (installer_answer q Status_ready (cd_detail shown))\<lparr>ir_candidate := shown\<rparr>
      else installer_answer q Status_not_found ''INBOX_CANDIDATE_NOT_FOUND'')"

definition installer_reply ::
    "install_environment \<Rightarrow> session_profile \<Rightarrow> installer_calls \<Rightarrow> installer_request \<Rightarrow> managed
       \<Rightarrow> installer_response \<times> managed" where
  "installer_reply env profile calls q m =
     (case prepare_application_storage (ic_prepare calls) (mg_store m) of (prepared, store) \<Rightarrow>
      let m = m\<lparr>mg_store := store\<rparr> in
      if prepared \<noteq> Inbox_ready
      then (installer_answer q (installer_status_for prepared) ''INSTALLER_STORAGE_UNAVAILABLE'', m)
      else if iq_command q = Inst_install
      then (case install_official_inbox_candidate env (installer_policy profile) (iq_token q) (ic_install calls) store of
              (result, store) \<Rightarrow>
                (installer_answer q (installer_status_for (ii_status result)) (ii_detail result), m\<lparr>mg_store := store\<rparr>))
      else if installed_command (iq_command q) then installed_reply env profile calls q m
      else (inbox_reply env profile q m, m))"

definition handle_installer_request ::
    "install_environment \<Rightarrow> session_profile \<Rightarrow> installer_calls \<Rightarrow> managed \<Rightarrow> bytes \<Rightarrow> bytes option \<times> managed" where
  "handle_installer_request env profile calls m packet =
     (case decode_installer_request packet of
        None \<Rightarrow> (None, m)
      | Some q \<Rightarrow>
        if \<not> ic_provider calls then (None, m)
        else case installer_reply env profile calls q m of (response, m) \<Rightarrow>
          let encoded = encode_installer_response response
          in (if hd encoded \<noteq> 0 \<and> ic_send calls then Some encoded else None, m))"

section \<open>What a request does to the stores\<close>

lemma audited_store [simp]: "mg_store (snd (audited calls app action phase generation m)) = mg_store m"
  by (simp add: audited_def split: prod.splits)

lemma audited_storeD: "audited calls app action phase generation m = (ok, m') \<Longrightarrow> mg_store m' = mg_store m"
  using audited_store [of calls app action phase generation m] by simp

lemma set_world_simps [simp]: "mg_world (set_world w m) = w" "mg_tombstones (set_world w m) = mg_tombstones m"
  by (simp_all add: set_world_def)

text \<open>Only the directory of the application leaves the payload store; the state store keeps its state.\<close>

lemma remove_world:
  assumes "remove_installed_application env calls snapshot m = (detail, m')"
  defines "app \<equiv> ia_app_id (sn_public snapshot)" and "fs \<equiv> wo_payload (mg_world m)"
  shows "mg_world m' = mg_world m \<or> mg_world m' = (mg_world m)\<lparr>wo_payload := fs\<lparr>pr_app := (pr_app fs)(app := application_directory_gone)\<rparr>\<rparr>"
    "detail \<noteq> None \<Longrightarrow> mg_world m' = (mg_world m)\<lparr>wo_payload := fs\<lparr>pr_app := (pr_app fs)(app := application_directory_gone)\<rparr>\<rparr> \<and>
      installed_snapshot_token app (rv_identity calls) (sn_state snapshot) (en_crypto env) = Some (ia_token (sn_public snapshot))"
proof -
  have "(mg_world m' = mg_world m \<or> mg_world m' = (mg_world m)\<lparr>wo_payload := fs\<lparr>pr_app := (pr_app fs)(app := application_directory_gone)\<rparr>\<rparr>) \<and>
    (detail \<noteq> None \<longrightarrow> mg_world m' = (mg_world m)\<lparr>wo_payload := fs\<lparr>pr_app := (pr_app fs)(app := application_directory_gone)\<rparr>\<rparr> \<and>
      installed_snapshot_token app (rv_identity calls) (sn_state snapshot) (en_crypto env) = Some (ia_token (sn_public snapshot)))"
    using assms(1) unfolding remove_installed_application_def Let_def app_def [symmetric] fs_def [symmetric]
    by (auto dest: audited_storeD split: if_split_asm option.split_asm prod.split_asm simp: fs_def)
  then show "mg_world m' = mg_world m \<or> mg_world m' = (mg_world m)\<lparr>wo_payload := fs\<lparr>pr_app := (pr_app fs)(app := application_directory_gone)\<rparr>\<rparr>"
    "detail \<noteq> None \<Longrightarrow> mg_world m' = (mg_world m)\<lparr>wo_payload := fs\<lparr>pr_app := (pr_app fs)(app := application_directory_gone)\<rparr>\<rparr> \<and>
      installed_snapshot_token app (rv_identity calls) (sn_state snapshot) (en_crypto env) = Some (ia_token (sn_public snapshot))"
    by blast+
qed

text \<open>A rollback on request commits the rollback of the stored state, or nothing.\<close>

lemma commit_rollback_world:
  assumes "commit_rollback env calls app generation t m = (detail, m')"
  obtains (untouched) "mg_world m' = mg_world m" "detail = None"
  | (committed) "mg_world m' = (mg_world m)\<lparr>wo_state :=
        snd (persist_release_state (en_state_root env) t (en_crypto env) (rk_store calls) (wo_state (mg_world m)))\<rparr>"
      "detail \<noteq> None \<longleftrightarrow> st_ok (fst (persist_release_state (en_state_root env) t (en_crypto env) (rk_store calls) (wo_state (mg_world m))))"
proof -
  obtain begun m1 where b: "audited (rk_begin calls) app ''rollback'' ''BEGIN'' generation m = (begun, m1)" by fastforce
  note store = audited_storeD [OF b]
  obtain persisted fs where p: "persist_release_state (en_state_root env) t (en_crypto env) (rk_store calls) (wo_state (mg_world m)) =
      (persisted, fs)" by fastforce
  show thesis
  proof (cases begun)
    case False
    then show ?thesis using untouched assms b store by (simp add: commit_rollback_def)
  next
    case True
    then show ?thesis using committed assms b store p by (auto simp: commit_rollback_def Let_def split: if_splits)
  qed
qed

lemma rollback_world:
  assumes "rollback_installed_application env profile calls snapshot m = (detail, m')"
  defines "app \<equiv> ia_app_id (sn_public snapshot)" and "w \<equiv> mg_world m"
  obtains (untouched) "mg_world m' = w" "detail = None"
  | (committed) s t where "loaded_state (en_state_root env) app (en_crypto env) (wo_state w) = Some s"
      "rs_previous_release s \<noteq> 0"
      "verify_application_release env profile (wo_payload w) app (rs_previous_release s) (rs_previous_digest s) (rs_signing_key_id s) \<noteq> None"
      "rollback_release s False = Some t"
      "mg_world m' = w\<lparr>wo_state := snd (persist_release_state (en_state_root env) t (en_crypto env) (rk_store calls) (wo_state w))\<rparr>"
      "detail \<noteq> None \<longleftrightarrow> st_ok (fst (persist_release_state (en_state_root env) t (en_crypto env) (rk_store calls) (wo_state w)))"
proof -
  define stored where "stored = load_release_state (en_state_root env) app (en_crypto env) (wo_state w)"
  define active where "active = dr_state (sr_decoded (st_selected stored))"
  note r = assms(1) [unfolded rollback_installed_application_def Let_def, folded app_def w_def, folded stored_def, folded active_def]
  show thesis
  proof (cases "m' = m \<and> detail = None")
    case True
    then show thesis using untouched by (simp add: w_def)
  next
    case False
    then obtain state where state: "sn_state snapshot = Some state" using r by (cases "sn_state snapshot") auto
    define guard where "guard \<longleftrightarrow> (st_status stored \<noteq> Store_loaded \<and> st_status stored \<noteq> Store_loaded_degraded) \<or>
        rs_generation active \<noteq> rs_generation state \<or> rs_current_release active \<noteq> rs_current_release state \<or>
        rs_previous_release active \<noteq> rs_previous_release state \<or> rs_current_digest active \<noteq> rs_current_digest state \<or>
        rs_previous_digest active \<noteq> rs_previous_digest state \<or> rs_signing_key_id active \<noteq> rs_signing_key_id state"
    note r1 = r [unfolded state option.case, folded guard_def]
    have g: "rs_previous_release state \<noteq> 0" "\<not> guard"
      "verify_application_release env profile (wo_payload w) app (rs_previous_release active)
        (rs_previous_digest active) (rs_signing_key_id active) \<noteq> None"
      using r1 False by (auto split: if_split_asm)
    then obtain t where t: "rollback_release active False = Some t"
      and c: "commit_rollback env calls app (rs_generation active) t m = (detail, m')"
      using r1 False by (auto split: option.split_asm)
    have s: "rs_previous_release state \<noteq> 0" "rs_previous_release active = rs_previous_release state"
      "st_status stored = Store_loaded \<or> st_status stored = Store_loaded_degraded"
      using g(1,2) by (auto simp: guard_def)
    have loaded: "loaded_state (en_state_root env) app (en_crypto env) (wo_state w) = Some active"
      using s(3) by (auto simp: loaded_state_def stored_def [symmetric] active_def st_ok_def)
    from c show thesis
    proof (cases rule: commit_rollback_world)
      case untouched
      then show thesis using that(1) by (simp add: w_def)
    next
      case committed
      then show thesis using that(2) [OF loaded _ g(3) t] s(1,2) by (simp add: w_def)
    qed
  qed
qed

lemma rollback_newer:
  assumes "rollback_installed_application env profile calls snapshot m = (detail, m')"
  shows "world_newer env app (mg_world m) (mg_world m')"
  using assms
proof (cases rule: rollback_world)
  case untouched
  then show ?thesis by (simp add: world_newer_def release_ratchet.newer_refl)
next
  case (committed s t)
  let ?app = "ia_app_id (sn_public snapshot)"
  note r = rollback_Some [OF committed(4)]
  have id: "rs_app_id s = ?app" using committed(1) by (simp add: loaded_state_iff)
  have typed: "state_typed t"
    using loaded_storable [OF committed(1)] committed(4)
    by (auto simp: storable_state_def rollback_release_def state_typed_def zeros64_def Let_def split: if_splits)
  show ?thesis
  proof (cases "app = ?app")
    case True
    have "loaded_state (en_state_root env) app (en_crypto env) (wo_state (mg_world m')) \<in> {Some s, Some t}"
      using r(3,5,7) id persist_general(1) [OF committed(1) _ _ typed] by (simp add: committed(5) True generation_step)
    then show ?thesis
      using committed(1) rollback_le [OF committed(4)] True by (auto simp: world_newer_def state_newer_def state_le_refl)
  next
    case False
    then have "app \<noteq> rs_app_id t" using r(5) id by simp
    then show ?thesis
      using persist_other [of "en_state_root env" app "en_crypto env" "wo_state (mg_world m)"]
      by (auto simp: world_newer_def state_newer_def state_le_refl committed(5) split: option.splits)
  qed
qed

lemma prepare_newer: "world_newer env app (pl_world store) (pl_world (snd (prepare_application_storage calls store)))"
proof (cases "loaded_state (en_state_root env) app (en_crypto env) (wo_state (pl_world store))")
  case None
  then show ?thesis by (simp add: world_newer_def state_newer_def)
next
  case (Some s)
  obtain a b where "slots_of app (wo_state (pl_world store)) = (a, b)" by fastforce
  then have root: "sd_root (wo_state (pl_world store)) = Dir_trusted"
    using Some by (simp add: loaded_state_iff store_open_def)
  then have same: "(wo_state (pl_world store))\<lparr>sd_root := Dir_trusted\<rparr> = wo_state (pl_world store)" by simp
  then show ?thesis
    using root by (simp add: same prepare_application_storage_def Let_def ensure_root_def world_newer_def
        release_ratchet.newer_refl split: prod.splits)
qed

lemma world_newer_trans: "world_newer env app u v \<Longrightarrow> world_newer env app v w \<Longrightarrow> world_newer env app u w"
  by (rule install_ratchet.newer_trans)

lemma world_newer_refl [simp]: "world_newer env app w w"
  by (rule install_ratchet.newer_refl)

lemma inbox_install_newer:
  "world_newer env app (pl_world store) (pl_world (snd (install_official_inbox_candidate env ctx token faults store)))"
proof -
  have "world_newer env app w (snd (install_official_package env ctx bs faults w))" for bs w
    by (simp add: world_newer_def install_state_newer)
  then show ?thesis
    unfolding install_official_inbox_candidate_def Let_def
    by (auto split: option.splits prod.splits) (metis snd_conv)
qed

lemma inbox_installed_newer:
  "install_official_inbox_candidate env ctx token faults store = (result, store') \<Longrightarrow>
   world_newer env app (pl_world store) (pl_world store')"
  using inbox_install_newer [of env app store ctx token faults] by simp

lemma remove_newer:
  assumes "remove_installed_application env calls snapshot m = (detail, m')"
  shows "world_newer env app (mg_world m) (mg_world m')"
  using remove_world(1) [OF assms] by (auto simp: world_newer_def release_ratchet.newer_refl)

lemma installed_reply_newer:
  assumes "installed_reply env profile calls q m = (r, m')"
  shows "world_newer env app (mg_world m) (mg_world m')"
  using assms unfolding installed_reply_def Let_def manage_selected_def
  by (auto split: prod.split_asm if_split_asm option.split_asm dest: rollback_newer remove_newer)

text \<open>One request, with the reads of the stored states that work while it is served.\<close>

definition installer_step ::
    "install_environment \<Rightarrow> session_profile \<Rightarrow> managed \<Rightarrow> (string \<Rightarrow> slot_reads) \<times> installer_calls \<times> bytes \<Rightarrow> managed" where
  "installer_step env profile m e = (case e of (reads, calls, packet) \<Rightarrow>
     let later = snd (handle_installer_request env profile calls (set_world (hide_world reads (mg_world m)) m) packet)
     in set_world (restore_world reads (mg_world m) (mg_world later)) later)"

lemma handle_newer:
  "world_newer env app (mg_world m) (mg_world (snd (handle_installer_request env profile calls m packet)))"
proof -
  show ?thesis
  proof (cases "decode_installer_request packet = None \<or> \<not> ic_provider calls")
    case True
    then show ?thesis by (auto simp: handle_installer_request_def split: option.split)
  next
    case False
    then obtain q where q: "decode_installer_request packet = Some q" "ic_provider calls" by auto
    obtain prepared store where p: "prepare_application_storage (ic_prepare calls) (mg_store m) = (prepared, store)" by fastforce
    have prep: "world_newer env app (mg_world m) (pl_world store)"
      using prepare_newer [of env app "mg_store m" "ic_prepare calls"] p by simp
    obtain r m' where r: "installer_reply env profile calls q m = (r, m')" by fastforce
    have "world_newer env app (pl_world store) (mg_world m')"
      using r unfolding installer_reply_def p Let_def
      by (auto split: if_split_asm prod.split_asm dest: inbox_installed_newer [where app = app]
          dest!: installed_reply_newer [where app = app])
    then show ?thesis
      using world_newer_trans [OF prep] r q by (simp add: handle_installer_request_def Let_def)
  qed
qed

lemma step_newer:
  assumes "slot_reads_work (fst e app)"
  shows "world_newer env app (mg_world m) (mg_world (installer_step env profile m e))"
proof -
  obtain reads calls packet where e: "e = (reads, calls, packet)" by (metis prod_cases3)
  show ?thesis
    using world_newer_seen [OF _ handle_newer [of env app "set_world (hide_world reads (mg_world m)) m" profile calls packet,
        unfolded set_world_simps]] assms
    by (simp add: installer_step_def e Let_def)
qed

interpretation installer_ratchet: ratchet "installer_step env profile" "\<lambda>_. True" "\<lambda>m m'. world_newer env app (mg_world m) (mg_world m')"
  "\<lambda>e. slot_reads_work (fst e app)" for env profile app
  by unfold_locales (auto simp: step_newer intro: world_newer_trans)

section \<open>Responses\<close>

lemma encoded_acceptable:
  assumes "hd (encode_installer_response r) \<noteq> 0" "known_installer_status (ir_status r)"
    and "response_candidate r \<Longrightarrow> cd_detail (ir_candidate r) = ir_detail r"
    and "response_installed r \<Longrightarrow> ia_detail (ir_installed r) = ir_detail r"
  shows "installer_response_acceptable r"
proof -
  have "hd (replicate kInstallerResponseSize (0 :: u8)) = 0" by (simp add: kInstallerResponseSize_def)
  then show ?thesis
    using assms unfolding encode_installer_response_def Let_def installer_response_acceptable_def
    by (auto simp: empty_candidate_iff empty_installed_iff installer_limits split: if_split_asm)
qed

lemma known_status_for [simp]: "known_installer_status (installer_status_for s)"
  by (cases s) simp_all

definition answers :: "installer_request \<Rightarrow> installer_response \<Rightarrow> bool" where
  "answers q r \<longleftrightarrow> ir_command r = iq_command q \<and> ir_request_id r = iq_request_id q \<and> known_installer_status (ir_status r) \<and>
     (response_candidate r \<longrightarrow> cd_detail (ir_candidate r) = ir_detail r) \<and>
     (response_installed r \<longrightarrow> ia_detail (ir_installed r) = ir_detail r)"

lemma installer_answer_answers:
  "known_installer_status status \<Longrightarrow> status \<noteq> Status_ready \<or> \<not> index_command (iq_command q) \<Longrightarrow>
   answers q (installer_answer q status detail)"
  by (auto simp: answers_def installer_answer_def response_candidate_def response_installed_def index_command_def)

lemma reply_answers:
  assumes "installer_reply env profile calls q m = (r, m')"
  shows "answers q r"
proof -
  have status: "installer_status_for s = Status_ready \<longleftrightarrow> s = Inbox_ready" for s by (cases s) simp_all
  have inbox: "answers q (inbox_reply env profile q m)" if "iq_command q \<noteq> Inst_installed_candidate" for m
    using that by (auto simp: inbox_reply_def answers_def installer_answer_def Let_def response_candidate_def response_installed_def)
  have managed: "answers q (fst (manage_selected env profile calls q installed m))"
    if "\<not> index_command (iq_command q)" for installed m
    using that by (auto simp: manage_selected_def installer_answer_answers split: option.splits prod.splits)
  have installed: "answers q (fst (installed_reply env profile calls q m))" if "installed_command (iq_command q)" for m
  proof -
    have c: "iq_command q \<noteq> Inst_candidate" using that by (auto simp: installed_command_def)
    obtain cleaned tombstones where t: "cleanup_application_tombstones (ic_cleanup calls) (pr_root (wo_payload (mg_world m)))
        (pr_apps (wo_payload (mg_world m))) (ic_cleanup_listed calls) (mg_tombstones m) = (cleaned, tombstones)" by fastforce
    obtain installed reliable where s: "installed_application_snapshots env profile (ic_listing calls) (ic_listed calls)
        (ic_identity calls) (mg_world m) = (installed, reliable)" by fastforce
    have count: "answers q ((installer_answer q status detail)\<lparr>ir_count := n\<rparr>)"
      if "iq_command q = Inst_installed_scan" "known_installer_status status" for status detail n
      using that by (simp add: answers_def installer_answer_def response_candidate_def response_installed_def)
    have shown: "answers q ((installer_answer q Status_ready (ia_detail shown))\<lparr>ir_installed := shown\<rparr>)"
      if "iq_command q = Inst_installed_candidate" for shown
      using that by (simp add: answers_def installer_answer_def response_candidate_def response_installed_def)
    have "\<not> index_command (iq_command q)" if "iq_command q \<noteq> Inst_installed_candidate"
      using that c by (simp add: index_command_def)
    then show ?thesis
      using managed [of installed "m\<lparr>mg_tombstones := tombstones\<rparr>"]
      by (simp add: installed_reply_def Let_def t s count shown installer_answer_answers)
  qed
  obtain prepared store where p: "prepare_application_storage (ic_prepare calls) (mg_store m) = (prepared, store)" by fastforce
  note r = assms [unfolded installer_reply_def p prod.case Let_def]
  show ?thesis
  proof (cases "prepared = Inbox_ready")
    case False
    then show ?thesis using r installer_answer_answers [of "installer_status_for prepared" q] status by auto
  next
    case ready: True
    show ?thesis
    proof (cases "iq_command q = Inst_install")
      case True
      then have "\<not> index_command (iq_command q)" by (simp add: index_command_def)
      then show ?thesis using r ready True installer_answer_answers by (auto split: prod.split_asm)
    next
      case False
      show ?thesis
      proof (cases "installed_command (iq_command q)")
        case True
        then show ?thesis using r ready False installed [of "m\<lparr>mg_store := store\<rparr>"] by simp
      next
        case other: False
        then have "iq_command q \<noteq> Inst_installed_candidate" by (auto simp: installed_command_def)
        then show ?thesis using r ready False other inbox by auto
      qed
    qed
  qed
qed

lemma handled_request:
  assumes "handle_installer_request env profile calls m packet = (Some bs, m')"
  obtains q r where "decode_installer_request packet = Some q" "installer_reply env profile calls q m = (r, m')"
    "decode_installer_response bs = Some r" "answers q r"
proof -
  obtain q where q: "decode_installer_request packet = Some q"
    using assms by (auto simp: handle_installer_request_def split: option.split_asm)
  obtain r m1 where r: "installer_reply env profile calls q m = (r, m1)" by fastforce
  have e: "hd (encode_installer_response r) \<noteq> 0" "bs = encode_installer_response r" "m1 = m'"
    using assms q r by (auto simp: handle_installer_request_def Let_def split: if_split_asm)
  have a: "answers q r" by (rule reply_answers [OF r])
  then have "installer_response_acceptable r" using encoded_acceptable [OF e(1)] by (simp add: answers_def)
  then have "decode_installer_response bs = Some r" unfolding e(2) by (rule installer_response_codec.decode_encode)
  then show thesis using that [OF q _ _ a] r e(3) by simp
qed

section \<open>Snapshots\<close>

lemma application_candidate_facts:
  assumes "application_candidate env profile w app = (shown, state)"
  shows "ia_app_id shown = app" "state = loaded_state (en_state_root env) app (en_crypto env) (wo_state w)"
proof -
  define stored where "stored = load_release_state (en_state_root env) app (en_crypto env) (wo_state w)"
  note c = assms [unfolded application_candidate_def Let_def, folded stored_def]
  have "ia_app_id shown = app \<and> state = loaded_state (en_state_root env) app (en_crypto env) (wo_state w)"
  proof (cases "st_status stored = Store_loaded \<or> st_status stored = Store_loaded_degraded")
    case True
    then have "loaded_state (en_state_root env) app (en_crypto env) (wo_state w) = Some (dr_state (sr_decoded (st_selected stored)))"
      by (auto simp: loaded_state_def stored_def [symmetric] st_ok_def)
    then show ?thesis using c True by (auto simp: no_installed_def split: if_split_asm option.split_asm)
  next
    case False
    then have "loaded_state (en_state_root env) app (en_crypto env) (wo_state w) = None"
      using loaded_status(1) [of "en_state_root env" app "en_crypto env" "wo_state w"]
      by (cases "loaded_state (en_state_root env) app (en_crypto env) (wo_state w)") (auto simp: stored_def)
    then show ?thesis using c False by auto
  qed
  then show "ia_app_id shown = app" "state = loaded_state (en_state_root env) app (en_crypto env) (wo_state w)" by simp_all
qed

lemma snapshot_facts:
  assumes "installed_application_snapshots env profile listing listed identity w = (installed, reliable)" "s \<in> set installed"
  defines "app \<equiv> ia_app_id (sn_public s)"
  shows "valid_session_app_id app" "\<not> reserved_application_id app"
    "sn_state s = loaded_state (en_state_root env) app (en_crypto env) (wo_state w)"
    "installed_snapshot_token app (identity app) (sn_state s) (en_crypto env) = Some (ia_token (sn_public s))"
proof -
  obtain ids where ids: "installed_application_ids listing listed (wo_payload w) = (ids, True)"
    and "\<exists>a \<in> set ids. (case application_candidate env profile w a of (shown, state) \<Rightarrow>
        (case installed_snapshot_token a (identity a) state (en_crypto env) of None \<Rightarrow> None
         | Some token \<Rightarrow> Some \<lparr>sn_public = shown\<lparr>ia_token := token\<rparr>, sn_state = state\<rparr>)) = Some s"
    using assms(1,2) unfolding installed_application_snapshots_def Let_def
    by (auto simp: set_map_filter split: if_split_asm prod.split_asm)
  then obtain a where in_ids: "a \<in> set ids" and found: "(case application_candidate env profile w a of (shown, state) \<Rightarrow>
        (case installed_snapshot_token a (identity a) state (en_crypto env) of None \<Rightarrow> None
         | Some token \<Rightarrow> Some \<lparr>sn_public = shown\<lparr>ia_token := token\<rparr>, sn_state = state\<rparr>)) = Some s" by blast
  obtain shown state where cand: "application_candidate env profile w a = (shown, state)" by fastforce
  obtain token where token: "installed_snapshot_token a (identity a) state (en_crypto env) = Some token"
    "s = \<lparr>sn_public = shown\<lparr>ia_token := token\<rparr>, sn_state = state\<rparr>"
    using found by (auto simp: cand split: option.split_asm)
  note a = in_ids cand token
  note f = application_candidate_facts [OF a(2)]
  have "a \<in> set (filter (\<lambda>n. valid_session_app_id n \<and> \<not> reserved_application_id n) listing)"
    using ids a(1) by (auto simp: installed_application_ids_def Let_def split: if_split_asm)
  then show "valid_session_app_id app" "\<not> reserved_application_id app"
    "sn_state s = loaded_state (en_state_root env) app (en_crypto env) (wo_state w)"
    "installed_snapshot_token app (identity app) (sn_state s) (en_crypto env) = Some (ia_token (sn_public s))"
    using f a(3) by (simp_all add: app_def a(4))
qed

section \<open>Acknowledged requests\<close>

text \<open>The removal of an application that is shown: its releases are gone, nothing else changes.\<close>

definition application_removed :: "install_environment \<Rightarrow> string \<Rightarrow> install_world \<Rightarrow> install_world \<Rightarrow> bool" where
  "application_removed env app w w' \<longleftrightarrow>
     pr_app (wo_payload w') app = application_directory_gone \<and>
     (\<forall>other. other \<noteq> app \<longrightarrow> pr_app (wo_payload w') other = pr_app (wo_payload w) other) \<and>
     (\<forall>any. loaded_state (en_state_root env) any (en_crypto env) (wo_state w') =
            loaded_state (en_state_root env) any (en_crypto env) (wo_state w))"

text \<open>The rollback of an application: its state is the one before, the current release is barred.\<close>

definition application_rolled_back ::
    "install_environment \<Rightarrow> session_profile \<Rightarrow> string \<Rightarrow> install_world \<Rightarrow> install_world \<Rightarrow> bool" where
  "application_rolled_back env profile app w w' \<longleftrightarrow>
     (\<exists>s t. loaded_state (en_state_root env) app (en_crypto env) (wo_state w) = Some s \<and>
        loaded_state (en_state_root env) app (en_crypto env) (wo_state w') = Some t \<and>
        rs_current_release t = rs_previous_release s \<and> rs_current_digest t = rs_previous_digest s \<and>
        rs_quarantined_release t = rs_current_release s \<and> rs_high_release t = rs_high_release s) \<and>
     verify_installed_application env profile w' app \<noteq> None \<and> wo_payload w' = wo_payload w \<and>
     (\<forall>other u. other \<noteq> app \<and> loaded_state (en_state_root env) other (en_crypto env) (wo_state w) = Some u \<longrightarrow>
        loaded_state (en_state_root env) other (en_crypto env) (wo_state w') = Some u)"

lemma remove_acknowledged:
  assumes "remove_installed_application env calls s m = (Some detail, m')"
  shows "application_removed env (ia_app_id (sn_public s)) (mg_world m) (mg_world m')"
  using remove_world(2) [OF assms] by (simp add: application_removed_def)

lemma rollback_acknowledged:
  assumes "rollback_installed_application env profile calls snapshot m = (Some detail, m')"
    and id: "valid_session_app_id (ia_app_id (sn_public snapshot))" "\<not> reserved_application_id (ia_app_id (sn_public snapshot))"
  shows "application_rolled_back env profile (ia_app_id (sn_public snapshot)) (mg_world m) (mg_world m')"
  using assms(1)
proof (cases rule: rollback_world)
  case (committed s t)
  define app where "app = ia_app_id (sn_public snapshot)"
  note c = committed [folded app_def]
  note r = rollback_Some [OF c(4)]
  have ida: "rs_app_id s = app" using c(1) by (simp add: loaded_state_iff)
  have typed: "state_typed t"
    using loaded_storable [OF c(1)] c(4)
    by (auto simp: storable_state_def rollback_release_def state_typed_def zeros64_def Let_def split: if_splits)
  have loaded: "loaded_state (en_state_root env) app (en_crypto env) (wo_state (mg_world m')) = Some t"
    using r(3,5,7) ida c(6) persist_general(2) [OF c(1) _ _ typed] by (simp add: c(5) generation_step)
  have "verify_installed_application env profile (mg_world m') app \<noteq> None"
    using verify_installed_Some [OF loaded _ id [folded app_def]] r(6,8,9) c(2,3) by (simp add: c(5))
  moreover have "loaded_state (en_state_root env) other (en_crypto env) (wo_state (mg_world m')) = Some u"
    if "other \<noteq> app" "loaded_state (en_state_root env) other (en_crypto env) (wo_state (mg_world m)) = Some u" for other u
    using persist_other [OF that(2), of t] that(1) r(5) ida by (simp add: c(5))
  ultimately show ?thesis
    using c(1,5) loaded r(8,9,11,14) unfolding application_rolled_back_def app_def [symmetric] by simp
qed simp

lemma prepare_keeps:
  assumes "prepare_application_storage calls store = (prepared, store')"
  shows "pr_app (wo_payload (pl_world store')) = pr_app (wo_payload (pl_world store))"
    "loaded_state (en_state_root env) app (en_crypto env) (wo_state (pl_world store)) = Some s \<Longrightarrow>
     loaded_state (en_state_root env) app (en_crypto env) (wo_state (pl_world store')) = Some s"
proof -
  show "pr_app (wo_payload (pl_world store')) = pr_app (wo_payload (pl_world store))"
    using assms by (auto simp: prepare_application_storage_def Let_def split: if_split_asm prod.split_asm)
  assume l: "loaded_state (en_state_root env) app (en_crypto env) (wo_state (pl_world store)) = Some s"
  obtain a b where "slots_of app (wo_state (pl_world store)) = (a, b)" by fastforce
  then have root: "sd_root (wo_state (pl_world store)) = Dir_trusted" using l by (simp add: loaded_state_iff store_open_def)
  then have same: "(wo_state (pl_world store))\<lparr>sd_root := Dir_trusted\<rparr> = wo_state (pl_world store)" by simp
  show "loaded_state (en_state_root env) app (en_crypto env) (wo_state (pl_world store')) = Some s"
    using assms l root by (auto simp: same prepare_application_storage_def Let_def ensure_root_def split: if_split_asm prod.split_asm)
qed

section \<open>Properties\<close>

text \<open>C2. As long as the stored state of an application can be read, it never goes back, whatever the
  installer program asks for, in whatever order, and whatever opening, creation, write, sync or rename
  fails in between - installations, removals, rollbacks, scans, cleanups, broken packets: not even
  removing an application and installing it again forgets its signer or lowers its high-water release
  and security epoch. The condition is that no request meets a failure to open the directory of this
  application or to read one of its two slots; the reads of other applications may fail.
  \<open>unread_slot_rolls_back\<close> shows that it cannot be dropped.\<close>

theorem requests_never_roll_back:
  assumes "\<forall>e \<in> set requests. slot_reads_work (fst e app)"
  shows "world_newer env app (mg_world (foldl (installer_step env profile) m (take n requests)))
     (mg_world (foldl (installer_step env profile) m (take (n + k) requests)))"
  by (rule installer_ratchet.later_newer) (use assms in simp_all)

text \<open>C4. An acknowledged request did what it says: when the response to a removal or a rollback tells of
  success, the request named by its token an application as it was listed, with its directory and its
  stored state; after a removal the releases of exactly this application are gone and no stored state
  has changed; after a rollback its release before is current, verified and launchable, the release it
  left is barred, and no other application is touched.\<close>

theorem managed_request_done:
  assumes "handle_installer_request env profile calls m packet = (Some response, m')"
    and "decode_installer_request packet = Some q" "iq_command q = Inst_remove \<or> iq_command q = Inst_rollback"
    and "decode_installer_response response = Some r" "ir_status r = Status_ready"
  shows "\<exists>app store s. prepare_application_storage (ic_prepare calls) (mg_store m) = (Inbox_ready, store) \<and>
    s = loaded_state (en_state_root env) app (en_crypto env) (wo_state (pl_world store)) \<and>
    installed_snapshot_token app (ic_identity calls app) s (en_crypto env) = Some (iq_token q) \<and>
    (iq_command q = Inst_remove \<longrightarrow> application_removed env app (pl_world store) (mg_world m')) \<and>
    (iq_command q = Inst_rollback \<longrightarrow> application_rolled_back env profile app (pl_world store) (mg_world m'))"
proof -
  obtain store prepared where p: "prepare_application_storage (ic_prepare calls) (mg_store m) = (prepared, store)" by fastforce
  have reply: "installer_reply env profile calls q m = (r, m')"
    using handled_request [OF assms(1)] assms(2,4) by (metis option.inject)
  have status: "installer_status_for s = Status_ready \<longleftrightarrow> s = Inbox_ready" for s by (cases s) simp_all
  have prepared: "prepared = Inbox_ready"
    using reply assms(5) by (auto simp: installer_reply_def p installer_answer_def status Let_def split: if_split_asm)
  define m1 where "m1 = m\<lparr>mg_store := store\<rparr>"
  have i: "installed_reply env profile calls q m1 = (r, m')"
    using reply assms(3) prepared by (auto simp: installer_reply_def p m1_def installed_command_def Let_def)
  obtain cleaned tombstones where c: "cleanup_application_tombstones (ic_cleanup calls) (pr_root (wo_payload (mg_world m1)))
      (pr_apps (wo_payload (mg_world m1))) (ic_cleanup_listed calls) (mg_tombstones m1) = (cleaned, tombstones)" by fastforce
  define m2 where "m2 = m1\<lparr>mg_tombstones := tombstones\<rparr>"
  obtain installed reliable where snap: "installed_application_snapshots env profile (ic_listing calls) (ic_listed calls)
      (ic_identity calls) (mg_world m2) = (installed, reliable)" by fastforce
  have w: "mg_world m2 = pl_world store" by (simp add: m2_def m1_def)
  have sel: "manage_selected env profile calls q installed m2 = (r, m')"
    using i assms(3,5) snap by (auto simp: installed_reply_def c m2_def [symmetric] Let_def installer_answer_def split: if_split_asm)
  then obtain s where s: "find (\<lambda>s. ia_token (sn_public s) = iq_token q) installed = Some s"
    using assms(5) by (auto simp: manage_selected_def installer_answer_def split: option.split_asm)
  then have "s \<in> set installed" and token: "ia_token (sn_public s) = iq_token q" by (auto simp: find_Some_iff)
  note f = snapshot_facts [OF snap this(1), unfolded w token]
  have completed: "(iq_command q = Inst_remove \<longrightarrow> application_removed env (ia_app_id (sn_public s)) (pl_world store) (mg_world m')) \<and>
    (iq_command q = Inst_rollback \<longrightarrow> application_rolled_back env profile (ia_app_id (sn_public s)) (pl_world store) (mg_world m'))"
  proof (cases "iq_command q = Inst_rollback")
    case True
    obtain detail m3 where act: "rollback_installed_application env profile (ic_rollback calls) s m2 = (detail, m3)" by fastforce
    then obtain what where "detail = Some what" "m3 = m'"
      using sel s True assms(5) by (auto simp: manage_selected_def installer_answer_def split: option.split_asm if_split_asm)
    then show ?thesis using rollback_acknowledged [OF _ f(1,2), of env profile "ic_rollback calls" m2] act w True by simp
  next
    case False
    obtain detail m3 where act: "remove_installed_application env (ic_remove calls) s m2 = (detail, m3)" by fastforce
    then obtain what where "detail = Some what" "m3 = m'"
      using sel s False assms(5) by (auto simp: manage_selected_def installer_answer_def split: option.split_asm if_split_asm)
    then show ?thesis using remove_acknowledged [of env "ic_remove calls" s m2] act w False by simp
  qed
  show ?thesis using p prepared f completed by metis
qed

text \<open>One file that is not a valid package makes the inbox unusable: when it can be read, the scan still
  counts it as a candidate, but a candidate the verifier rejected has no application id, so that its
  response cannot be encoded; asked for it, the service does not answer, and the session ends the
  installer program.\<close>

theorem unverified_candidate_unanswered:
  assumes "prepare_application_storage (ic_prepare calls) (mg_store m) = (Inbox_ready, store)"
    and "scan_official_inbox env (installer_policy profile) store = scan" "is_status scan = Inbox_ready"
    and "readable_package env (pl_inbox store) bs d" "\<not> pv_ok (trust_verify (en_trust env) (en_parse env) (en_crypto env) bs)"
    and "\<And>other. readable_package env (pl_inbox store) other d \<Longrightarrow> other = bs"
  shows "\<exists>i < length (is_candidates scan). \<forall>packet q. decode_installer_request packet = Some q \<and>
    iq_command q = Inst_candidate \<and> unat (iq_index q) = i \<longrightarrow> fst (handle_installer_request env profile calls m packet) = None"
proof -
  note scan = scan_candidates [OF assms(2) disjI1 [OF assms(3)]]
  obtain i where i: "i < length (is_candidates scan)" "cd_token (is_candidates scan ! i) = hex_of_bytes d"
    using scan(1) [OF assms(4)] by (auto simp: in_set_conv_nth)
  obtain bs' d' where c: "readable_package env (pl_inbox store) bs' d'"
    "describes env (installer_policy profile) (pl_world store) bs' d' (is_candidates scan ! i)"
    using scan(2) i(1) nth_mem by blast
  have "d' = d" using c(2) i(2) by (intro hex_of_bytes_inject) (simp add: describes_def Let_def)
  then have "cd_app_id (is_candidates scan ! i) = []"
    using c assms(5,6) by (auto simp: describes_def Let_def)
  then have invalid: "\<not> valid_candidate (is_candidates scan ! i)"
    using valid_session_app_id_nonempty by (auto simp: valid_candidate_def)
  have "fst (handle_installer_request env profile calls m packet) = None"
    if "decode_installer_request packet = Some q" "iq_command q = Inst_candidate" "unat (iq_index q) = i" for packet q
  proof -
    define r where "r = (installer_answer q Status_ready (cd_detail (is_candidates scan ! i)))\<lparr>ir_candidate := is_candidates scan ! i\<rparr>"
    have "installer_reply env profile calls q m = (r, m\<lparr>mg_store := store\<rparr>)"
      using assms(1-3) that i(1) by (simp add: installer_reply_def installed_command_def inbox_reply_def Let_def r_def)
    moreover have "encode_installer_response r = replicate kInstallerResponseSize 0"
      using invalid that(2) by (simp add: encode_installer_response_def r_def installer_answer_def response_candidate_def Let_def)
    moreover have "hd (replicate kInstallerResponseSize (0 :: u8)) = 0" by (simp add: kInstallerResponseSize_def)
    ultimately show ?thesis using that(1) by (simp add: handle_installer_request_def Let_def)
  qed
  with i(1) show ?thesis by blast
qed

text \<open>A token means what was listed: a token of the list can name an application at another time only
  when it is the same application, in the same directory and with the same stored state, unless two
  different texts with the same SHA-512 digest are known; the removal or rollback of a snapshot that
  has gone stale is refused.\<close>

theorem snapshot_tokens_unambiguous:
  assumes "installed_application_snapshots env profile listing listed identity w = (installed, reliable)" "s \<in> set installed"
    and "valid_session_app_id app" "state = loaded_state (en_state_root env) app (en_crypto env) (wo_state later)"
    and "installed_snapshot_token app directory state (en_crypto env) = Some (ia_token (sn_public s))"
  shows "(app = ia_app_id (sn_public s) \<and> directory = identity app \<and>
      state = loaded_state (en_state_root env) app (en_crypto env) (wo_state w)) \<or>
    (\<exists>x y d. x \<noteq> y \<and> sha512 (en_crypto env) x = Some d \<and> sha512 (en_crypto env) y = Some d)"
proof -
  note f = snapshot_facts [OF assms(1,2)]
  have ok: "snapshot_state_ok a (loaded_state (en_state_root env) a (en_crypto env) fs)" for a fs
  proof -
    have "rs_app_id u = a \<and> state_typed u \<and> state_key_id (rs_signing_key_id u)"
      if "loaded_state (en_state_root env) a (en_crypto env) fs = Some u" for u
      using loaded_storable [OF that] that by (auto simp: storable_state_def valid_state_def loaded_state_iff split: if_splits)
    then show ?thesis by (simp add: snapshot_state_ok_def)
  qed
  define a where "a = ia_app_id (sn_public s)"
  define x where "x = snapshot_material app directory state"
  define y where "y = snapshot_material a (identity a) (sn_state s)"
  obtain dx where dx: "sha512 (en_crypto env) x = Some dx" "hex_of_bytes dx = ia_token (sn_public s)"
    using assms(5) by (auto simp: installed_snapshot_token_def x_def)
  obtain dy where dy: "sha512 (en_crypto env) y = Some dy" "hex_of_bytes dy = ia_token (sn_public s)"
    using f(4) by (auto simp: installed_snapshot_token_def y_def a_def)
  have "dx = dy" using dx(2) dy(2) by (intro hex_of_bytes_inject) simp
  show ?thesis
  proof (cases "x = y")
    case True
    have "app = a \<and> directory = identity a \<and> state = sn_state s"
      by (rule snapshot_material_inject) (use True assms(3,4) f ok in \<open>simp_all add: x_def y_def a_def\<close>)
    then show ?thesis using f(3) by (simp add: a_def)
  next
    case False
    then show ?thesis using dx(1) dy(1) \<open>dx = dy\<close> by blast
  qed
qed

end
