(* ===== verification/Installer_Sample.thy ===== *)
theory Installer_Sample
  imports Installer_Service Inbox_Sample
begin

text \<open>A managed store with an application whose policy is lost and an inbox with a broken package.\<close>

definition broken_inbox :: inbox where
  "broken_inbox = sample_inbox\<lparr>bx_file := (\<lambda>_. Some \<lparr>bx_regular = True, bx_uid = 0, bx_links = 1, bx_mode = 256,
     bx_contents = [1], bx_reads = True\<rparr>)\<rparr>"

definition managed_world :: install_world where
  "managed_world = empty_world\<lparr>wo_payload := \<lparr>pr_root = Dir_trusted, pr_apps = Dir_trusted, pr_app = (\<lambda>app.
     \<lparr>ar_dir = (if app = ''a.b'' then Dir_trusted else Dir_absent), ar_releases_dir = Dir_absent, ar_releases = (\<lambda>_. None)\<rparr>)\<rparr>\<rparr>"

definition sample_managed :: managed where
  "sample_managed = \<lparr>mg_store = \<lparr>pl_parent_trusted = True, pl_world = managed_world, pl_inbox = broken_inbox\<rparr>,
     mg_tombstones = [], mg_audit = \<lparr>al_directory = Dir_trusted, al_file = (\<lambda>_. None)\<rparr>\<rparr>"

definition good_audit :: audit_calls where
  "good_audit = \<lparr>au_create = True, au_created_sync = True, au_open = True, au_clock = Some 7, au_random = Some [],
     au_replace = True, au_written = None, au_sync = True, au_rename = True, au_directory_sync = True\<rparr>"

definition good_removal :: removal_calls where
  "good_removal = \<lparr>rm_list = \<lambda>_. True, rm_stat = \<lambda>_. True, rm_unlink = \<lambda>_. True, rm_finish = \<lambda>_. True,
     rm_rmdir = \<lambda>_. True\<rparr>"

definition sample_identity :: dir_identity where
  "sample_identity = \<lparr>di_dev = 1, di_ino = 2, di_ctime = 3\<rparr>"

definition good_calls :: installer_calls where
  "good_calls = \<lparr>ic_provider = True, ic_prepare = ((True, True), (True, True), (True, True)), ic_install = no_faults, ic_cleanup = good_removal,
     ic_cleanup_listed = True, ic_listing = [''a.b''], ic_listed = True, ic_identity = (\<lambda>_. sample_identity),
     ic_remove = \<lparr>rv_open = True, rv_identity = sample_identity, rv_contents = [(''releases'', Raw_directory True [])],
       rv_begin = good_audit, rv_random = Some (replicate 12 5), rv_rename = True, rv_renamed_sync = True,
       rv_removal = good_removal, rv_rmdir = True, rv_final_sync = True, rv_end = good_audit\<rparr>,
     ic_rollback = \<lparr>rk_begin = good_audit, rk_store = snd no_faults, rk_end = good_audit\<rparr>, ic_send = True\<rparr>"

definition remove_request :: installer_request where
  "remove_request = \<lparr>iq_command = Inst_remove, iq_request_id = 5, iq_index = 0, iq_token = sample_token\<rparr>"

definition sample_snapshot :: installed_snapshot where
  "sample_snapshot = \<lparr>sn_public = no_installed\<lparr>ia_token := sample_token, ia_app_id := ''a.b'', ia_name := ''a.b'',
     ia_version := ''unknown'', ia_detail := ''INSTALLED_POLICY_UNTRUSTED''\<rparr>, sn_state = None\<rparr>"

lemma sample_prepared: "prepare_application_storage (ic_prepare good_calls) (mg_store sample_managed) = (Inbox_ready, mg_store sample_managed)"
  by (simp add: prepare_application_storage_def sample_managed_def managed_world_def empty_world_def broken_inbox_def
      sample_inbox_def ensure_root_def)

lemma managed_load: "st_status (load_release_state ''/userdisk/apps/lvgl-app-policy'' ''a.b'' sample_crypto (wo_state managed_world)) = Store_not_found"
  unfolding managed_world_def by code_simp

lemma sample_snapshot_token: "installed_snapshot_token app d s (en_crypto sample_environment) = Some sample_token"
  by (simp add: installed_snapshot_token_def sample_environment_def sample_sha512 sample_token_def)

lemma sample_snapshots:
  "installed_application_snapshots sample_environment sample_session [''a.b''] True (\<lambda>_. sample_identity) managed_world =
     ([sample_snapshot], True)"
proof -
  have ids: "installed_application_ids [''a.b''] True (wo_payload managed_world) = ([''a.b''], True)"
    by (simp add: installed_application_ids_def managed_world_def sample_ids kMaximumRegistryApplications_def)
  have "application_candidate sample_environment sample_session managed_world ''a.b'' =
      (no_installed\<lparr>ia_app_id := ''a.b'', ia_name := ''a.b'', ia_version := ''unknown'', ia_detail := ''INSTALLED_POLICY_UNTRUSTED''\<rparr>, None)"
    using managed_load by (simp add: application_candidate_def sample_environment_def)
  then show ?thesis
    by (simp add: installed_application_snapshots_def ids List.map_filter_def sample_snapshot_token sample_snapshot_def Let_def)
      (simp add: managed_world_def)
qed

lemma decoded_response_hd:
  assumes "decode_installer_response bs = Some r"
  shows "hd bs \<noteq> 0"
proof -
  have b: "length bs = 768" "bytes_at 0 8 bs = kInstallerMagic"
    using assms by (auto simp: decode_installer_response_def decode_installer_frame_def kInstallerResponseSize_def
        split: option.split_asm if_split_asm)
  have "hd (bytes_at 0 8 bs) = hd bs" by (cases bs) (simp_all add: bytes_at_def)
  moreover have "hd kInstallerMagic \<noteq> 0" by code_simp
  ultimately show ?thesis using b(2) by simp
qed

lemma remove_request_decoded: "decode_installer_request (encode_installer_request remove_request) = Some remove_request"
  by (rule installer_request_codec.decode_encode)
    (simp add: installer_request_acceptable_def remove_request_def token_command_def index_command_def sample_token_valid)

lemma sample_removed:
  "\<exists>m. remove_installed_application sample_environment (ic_remove good_calls) sample_snapshot sample_managed =
     (Some ''APPLICATION_PAYLOAD_REMOVED_POLICY_DATA_RETAINED'', m)"
proof -
  have line: "length (audit_line 7 ''remove'' ''BEGIN'' 0) = 17" by code_simp
  have begun: "\<exists>log. lifecycle_audit good_audit Dir_trusted ''a.b'' ''remove'' ''BEGIN'' 0 (mg_audit sample_managed) = (True, log)"
    by (simp add: lifecycle_audit_def good_audit_def sample_managed_def sample_ids line kLifecycleAuditLimit_def Let_def)
  then obtain log where log: "lifecycle_audit good_audit Dir_trusted ''a.b'' ''remove'' ''BEGIN'' 0 (mg_audit sample_managed) = (True, log)"
    by blast
  have begun: "audited good_audit ''a.b'' ''remove'' ''BEGIN'' 0 sample_managed = (True, sample_managed\<lparr>mg_audit := log\<rparr>)"
    using log by (simp add: audited_def) (simp add: sample_managed_def managed_world_def empty_world_def)
  show ?thesis
    by (simp add: remove_installed_application_def Let_def good_calls_def sample_snapshot_def snapshot_generation_def begun
        sample_snapshot_token) (simp add: sample_managed_def managed_world_def good_removal_def removal_limits)
qed

lemma sample_remove_handled:
  obtains response r m where
    "handle_installer_request sample_environment sample_session good_calls sample_managed (encode_installer_request remove_request) =
       (Some response, m)" "decode_installer_response response = Some r" "ir_status r = Status_ready"
proof -
  obtain m where removed: "remove_installed_application sample_environment (ic_remove good_calls) sample_snapshot sample_managed =
     (Some ''APPLICATION_PAYLOAD_REMOVED_POLICY_DATA_RETAINED'', m)" using sample_removed by blast
  define r where "r = installer_answer remove_request Status_ready ''APPLICATION_PAYLOAD_REMOVED_POLICY_DATA_RETAINED''"
  have q: "iq_command remove_request = Inst_remove" "iq_token remove_request = ia_token (sn_public sample_snapshot)"
    by (simp_all add: remove_request_def sample_snapshot_def)
  have same: "sample_managed\<lparr>mg_store := mg_store sample_managed\<rparr> = sample_managed" "sample_managed\<lparr>mg_tombstones := []\<rparr> = sample_managed"
    by (simp_all add: sample_managed_def)
  have clean: "cleanup_application_tombstones (ic_cleanup good_calls) (pr_root (wo_payload (mg_world sample_managed)))
      (pr_apps (wo_payload (mg_world sample_managed))) (ic_cleanup_listed good_calls) (mg_tombstones sample_managed) = (True, [])"
    by (simp add: cleanup_application_tombstones_def good_calls_def good_removal_def sample_managed_def managed_world_def)
  have snap: "installed_application_snapshots sample_environment sample_session (ic_listing good_calls) (ic_listed good_calls)
      (ic_identity good_calls) (mg_world sample_managed) = ([sample_snapshot], True)"
    using sample_snapshots by (simp add: good_calls_def sample_managed_def)
  have reply: "installer_reply sample_environment sample_session good_calls remove_request sample_managed = (r, m)"
    by (simp add: installer_reply_def sample_prepared Let_def q(1) installed_command_def installed_reply_def same clean snap
        manage_selected_def q(2) removed r_def)
  have "valid_text ''APPLICATION_PAYLOAD_REMOVED_POLICY_DATA_RETAINED'' 256 False" by code_simp
  then have ok: "installer_response_acceptable r"
    by (simp add: installer_response_acceptable_def r_def installer_answer_def remove_request_def response_candidate_def response_installed_def)
  have decoded: "decode_installer_response (encode_installer_response r) = Some r"
    by (rule installer_response_codec.decode_encode [OF ok])
  have "handle_installer_request sample_environment sample_session good_calls sample_managed (encode_installer_request remove_request) =
      (Some (encode_installer_response r), m)"
    using decoded_response_hd [OF decoded] by (simp add: handle_installer_request_def remove_request_decoded reply Let_def)
      (simp add: good_calls_def)
  then show thesis using that [OF _ decoded] by (simp add: r_def installer_answer_def)
qed

lemma managed_request_done_witness:
  "\<exists>app response m. handle_installer_request sample_environment sample_session good_calls sample_managed
       (encode_installer_request remove_request) = (Some response, m) \<and>
     application_removed sample_environment app (mg_world sample_managed) (mg_world m)"
proof -
  obtain response r m where h: "handle_installer_request sample_environment sample_session good_calls sample_managed
      (encode_installer_request remove_request) = (Some response, m)" "decode_installer_response response = Some r" "ir_status r = Status_ready"
    by (rule sample_remove_handled)
  have c: "iq_command remove_request = Inst_remove" by (simp add: remove_request_def)
  show ?thesis
    using managed_request_done [OF h(1) remove_request_decoded disjI1 [OF c] h(2,3)] h(1) c sample_prepared by auto
qed

text \<open>The removal again, while no other application's state can be read.\<close>

definition sample_reads :: "string \<Rightarrow> slot_reads" where
  "sample_reads app = (if app = ''a.b'' then \<lparr>sl_open = True, sl_a = True, sl_b = True\<rparr>
     else \<lparr>sl_open = False, sl_a = False, sl_b = False\<rparr>)"

lemma requests_never_roll_back_witness:
  "world_newer sample_environment ''a.b'' (mg_world (foldl (installer_step sample_environment sample_session) sample_managed []))
     (mg_world (foldl (installer_step sample_environment sample_session) sample_managed
        [(sample_reads, good_calls, encode_installer_request remove_request)]))"
proof -
  let ?requests = "[(sample_reads, good_calls, encode_installer_request remove_request)]"
  have "\<forall>e \<in> set ?requests. slot_reads_work (fst e ''a.b'')" by (simp add: sample_reads_def slot_reads_work_def)
  from requests_never_roll_back [OF this, where n = 0 and k = 1] show ?thesis by simp
qed

lemma snapshot_tokens_unambiguous_witness:
  "(''a.b'' = ia_app_id (sn_public sample_snapshot) \<and>
      None = loaded_state ''/userdisk/apps/lvgl-app-policy'' ''a.b'' sample_crypto (wo_state managed_world)) \<or>
    (\<exists>x y d. x \<noteq> y \<and> sha512 sample_crypto x = Some d \<and> sha512 sample_crypto y = Some d)"
proof -
  have none: "None = loaded_state ''/userdisk/apps/lvgl-app-policy'' ''a.b'' sample_crypto (wo_state managed_world)"
    using managed_load by (simp add: loaded_state_def st_ok_def)
  show ?thesis
    using snapshot_tokens_unambiguous [OF sample_snapshots, of sample_snapshot "''a.b''" None managed_world sample_identity]
      none sample_ids(1) by (simp add: sample_snapshot_token sample_environment_def) (simp add: sample_snapshot_def)
qed

lemma unverified_candidate_unanswered_witness:
  "\<exists>i. \<forall>packet q. decode_installer_request packet = Some q \<and> iq_command q = Inst_candidate \<and> unat (iq_index q) = i \<longrightarrow>
     fst (handle_installer_request sample_environment sample_session good_calls sample_managed packet) = None"
proof -
  have rejected: "\<not> pv_ok (trust_verify (en_trust sample_environment) (en_parse sample_environment) (en_crypto sample_environment) [1])"
    by (simp add: sample_environment_def trust_verify_def verify_package_def package_constants package_failure_def pv_ok_def)
  have read: "read_candidate (bx_file broken_inbox name) = Some [1]" for name
    by (simp add: read_candidate_def broken_inbox_def kSessionMaximumPackageSize_def)
  have inbox: "pl_inbox (mg_store sample_managed) = broken_inbox" by (simp add: sample_managed_def)
  have digest: "sha512 (en_crypto sample_environment) bs = Some (replicate 64 2)" for bs
    by (simp add: sample_environment_def sample_sha512)
  have readable: "readable_package sample_environment broken_inbox bs d \<longleftrightarrow> bs = [1] \<and> d = replicate 64 2" for bs d
    by (auto simp: readable_package_def read digest) (simp_all add: broken_inbox_def sample_inbox_def)
  obtain status cs where raw: "raw_candidates sample_environment (installer_policy sample_session) (mg_store sample_managed) = (status, cs)"
    by fastforce
  obtain c where "raw_candidate_of sample_environment (installer_policy sample_session) managed_world (bx_file broken_inbox ''a.lvapp'') = Some c"
    using raw_candidate_of_eq_None [of sample_environment "installer_policy sample_session" managed_world "bx_file broken_inbox ''a.lvapp''"]
    by (auto simp: read digest)
  then have "status = Inbox_ready"
    using raw by (auto simp: raw_candidates_def sample_managed_def broken_inbox_def sample_inbox_def kMaximumInboxEntries_def List.map_filter_def)
  then have ready: "is_status (scan_official_inbox sample_environment (installer_policy sample_session) (mg_store sample_managed)) = Inbox_ready"
    by (simp add: scan_official_inbox_def raw)
  have "readable_package sample_environment (pl_inbox (mg_store sample_managed)) [1] (replicate 64 2)"
    "\<And>other. readable_package sample_environment (pl_inbox (mg_store sample_managed)) other (replicate 64 2) \<Longrightarrow> other = [1]"
    by (simp_all add: inbox readable)
  from unverified_candidate_unanswered [OF sample_prepared refl ready this(1) rejected this(2)] show ?thesis by meson
qed

end
