(* ===== verification/Program_Start.thy ===== *)
theory Program_Start
  imports Active_Release Inbox_Service Storage_Broker
begin

text \<open>
  How the session daemon (\<open>platform/src/session/session_daemon.cpp\<close>) publishes its status
  (\<open>atomic_status\<close>), finds the private storage of a program (\<open>ensure_private_storage\<close>) and starts it:
  the descriptors and variables it gets (\<open>start_program\<close>), the limits and the user it runs under
  (\<open>apply_child_policy\<close>), and how it ended (\<open>child_result\<close>). The results of the system calls are
  arguments.
\<close>

section \<open>The status file\<close>

text \<open>The directory \<open>/run/lvgl-platform\<close>: the contents of \<open>session.status\<close>, and whether the temporary file
  of this process is left over.\<close>

record run_directory =
  rn_status :: "string option"
  rn_temporary :: bool

text \<open>The calls of one publication, each with whether it works; the second \<open>open\<close> is the one after the
  unlink of a left-over temporary file.\<close>

record status_calls =
  tc_open :: bool
  tc_unlink_old :: bool
  tc_reopen :: bool
  tc_write :: bool
  tc_sync :: bool
  tc_rename :: bool
  tc_directory_sync :: bool
  tc_unlink :: bool

definition atomic_status :: "status_calls \<Rightarrow> session_status \<Rightarrow> run_directory \<Rightarrow> bool \<times> run_directory" where
  "atomic_status calls status run =
     (let contents = encode_session_status status;
          opened = tc_open calls \<and> \<not> rn_temporary run
      in if contents = [] then (False, run)
         else if \<not> opened \<and> (\<not> (tc_open calls \<and> rn_temporary run) \<or> \<not> tc_unlink_old calls) then (False, run)
         else
           let run = run\<lparr>rn_temporary := opened \<or> tc_reopen calls\<rparr>;
               written = rn_temporary run \<and> tc_write calls \<and> tc_sync calls \<and> tc_rename calls;
               run = (if written then run\<lparr>rn_status := Some contents, rn_temporary := False\<rparr> else run)
           in if written \<and> tc_directory_sync calls then (True, run)
              else (False, run\<lparr>rn_temporary := rn_temporary run \<and> \<not> tc_unlink calls\<rparr>))"

section \<open>Private storage\<close>

text \<open>\<open>/userdisk/apps\<close>, the directory of all private storage, and the directory and files of each
  application; \<open>Dir_trusted\<close> is a directory of root with mode 0700.\<close>

record private_roots =
  vs_apps_trusted :: bool
  vs_root :: dir_state
  vs_directory :: "string \<Rightarrow> dir_state"
  vs_files :: "string \<Rightarrow> storage_directory"

definition ensure_private_storage ::
    "(bool \<times> bool) \<times> (bool \<times> bool) \<Rightarrow> string \<Rightarrow> private_roots \<Rightarrow> bool \<times> private_roots" where
  "ensure_private_storage calls app_id roots =
     (if \<not> valid_session_app_id app_id \<or> \<not> vs_apps_trusted roots then (False, roots)
      else case ensure_root (fst calls) (vs_root roots) of (root, root_ok) \<Rightarrow>
        let roots = roots\<lparr>vs_root := root\<rparr> in
        if \<not> root_ok then (False, roots)
        else case ensure_root (snd calls) (vs_directory roots app_id) of (directory, ok) \<Rightarrow>
          (ok, roots\<lparr>vs_directory := (vs_directory roots)(app_id := directory),
                    vs_files := (if vs_directory roots app_id = Dir_absent
                                 then (vs_files roots)(app_id := Map.empty) else vs_files roots)\<rparr>))"

section \<open>The policy of a program\<close>

text \<open>The calls a new process makes before it runs the program.\<close>

record child_calls =
  px_setpgid :: bool
  px_inherit :: "int \<Rightarrow> bool"
  px_open_max :: int
  px_limit :: "string \<Rightarrow> bool"
  px_parent_death :: bool
  px_parent :: int
  px_setgroups :: bool
  px_setresgid :: bool
  px_setresuid :: bool
  px_undumpable :: bool
  px_chdir :: bool
  px_exec :: bool

text \<open>What the policy sets in a process.\<close>

record confinement =
  cf_limits :: "(string \<times> u64) list"
  cf_uid :: u32
  cf_gid :: u32

definition child_limits :: "resource_limits \<Rightarrow> (string \<times> u64) list" where
  "child_limits limits =
     (let memory = ucast (rl_memory_mib limits) * 1024 * 1024 in
      [(''RLIMIT_AS'', memory), (''RLIMIT_CPU'', ucast (rl_cpu_seconds limits)), (''RLIMIT_CORE'', 0),
       (''RLIMIT_FSIZE'', 1024 * 1024), (''RLIMIT_NOFILE'', max 16 (ucast (rl_maximum_files limits))),
       (''RLIMIT_NPROC'', 1), (''RLIMIT_MEMLOCK'', 0), (''RLIMIT_STACK'', min (8 * 1024 * 1024) (memory div 4))])"

definition apply_child_policy :: "child_calls \<Rightarrow> program_policy \<Rightarrow> confinement option" where
  "apply_child_policy calls policy =
     (let limits = pp_limits policy in
      if pp_uid policy = 0 \<or> pp_gid policy = 0 \<or> rl_memory_mib limits < 8 \<or> rl_cpu_seconds limits = 0 \<or>
         rl_maximum_files limits = 0 \<or> rl_data_mib limits = 0
      then None
      else if \<not> list_all (px_limit calls) (map fst (child_limits limits)) \<or> \<not> px_parent_death calls \<or> px_parent calls = 1 \<or>
              \<not> px_setgroups calls \<or> \<not> px_setresgid calls \<or> \<not> px_setresuid calls \<or> \<not> px_undumpable calls \<or> \<not> px_chdir calls
      then None
      else Some \<lparr>cf_limits = child_limits limits, cf_uid = pp_uid policy, cf_gid = pp_gid policy\<rparr>)"

section \<open>The program\<close>

text \<open>The messages about the program before, in UTF-8.\<close>

definition utf8 :: "nat list \<Rightarrow> string" where
  "utf8 = map char_of"

fun notice_text :: "session_notice \<Rightarrow> string" where
  "notice_text No_notice = []"
| "notice_text Rolled_back_policy_degraded =
     utf8 [0xE5, 0xBA, 0x94, 0xE7, 0x94, 0xA8, 0xE5, 0xA4, 0xB1, 0xE8, 0xB4, 0xA5, 0xE7, 0x89, 0x88, 0xE6, 0x9C,
     0xAC, 0xE5, 0xB7, 0xB2, 0xE9, 0x9A, 0x94, 0xE7, 0xA6, 0xBB, 0xE5, 0xB9, 0xB6, 0xE5, 0x9B, 0x9E, 0xE6,
     0xBB, 0x9A, 0xEF, 0xBC, 0x9B, 0xE7, 0xAD, 0x96, 0xE7, 0x95, 0xA5, 0xE5, 0x86, 0x97, 0xE4, 0xBD, 0x99,
     0xE9, 0x9C, 0x80, 0xE8, 0xA6, 0x81, 0xE4, 0xBF, 0xAE, 0xE5, 0xA4, 0x8D]"
| "notice_text Rolled_back =
     utf8 [0xE5, 0xBA, 0x94, 0xE7, 0x94, 0xA8, 0xE5, 0xA4, 0xB1, 0xE8, 0xB4, 0xA5, 0xE7, 0x89, 0x88, 0xE6, 0x9C,
     0xAC, 0xE5, 0xB7, 0xB2, 0xE9, 0x9A, 0x94, 0xE7, 0xA6, 0xBB, 0xE5, 0xB9, 0xB6, 0xE5, 0xAE, 0x89, 0xE5,
     0x85, 0xA8, 0xE5, 0x9B, 0x9E, 0xE6, 0xBB, 0x9A, 0xE5, 0x88, 0xB0, 0xE4, 0xB8, 0x8A, 0xE4, 0xB8, 0x80,
     0xE7, 0x89, 0x88, 0xE6, 0x9C, 0xAC]"
| "notice_text Program_not_in_release =
     utf8 [0xE5, 0xBA, 0x94, 0xE7, 0x94, 0xA8, 0xE5, 0x85, 0xA5, 0xE5, 0x8F, 0xA3, 0xE6, 0x9C, 0xAA, 0xE5, 0x8C,
     0x85, 0xE5, 0x90, 0xAB, 0xE5, 0x9C, 0xA8, 0xE5, 0xB7, 0xB2, 0xE9, 0xAA, 0x8C, 0xE8, 0xAF, 0x81, 0xE7,
     0x9A, 0x84, 0xE5, 0xB9, 0xB3, 0xE5, 0x8F, 0xB0, 0xE5, 0x8F, 0x91, 0xE8, 0xA1, 0x8C, 0xE7, 0x89, 0x88,
     0xE4, 0xB8, 0xAD]"
| "notice_text Private_storage_unavailable =
     utf8 [0xE5, 0xBA, 0x94, 0xE7, 0x94, 0xA8, 0xE7, 0xA7, 0x81, 0xE6, 0x9C, 0x89, 0xE5, 0xAD, 0x98, 0xE5, 0x82,
     0xA8, 0xE4, 0xB8, 0x8D, 0xE5, 0x8F, 0xAF, 0xE7, 0x94, 0xA8]"
| "notice_text (Application_failed n) =
     (utf8 [0xE5, 0xBA, 0x94, 0xE7, 0x94, 0xA8, 0xE5, 0xBC, 0x82, 0xE5, 0xB8, 0xB8, 0xE9, 0x80, 0x80, 0xE5, 0x87,
     0xBA, 0xEF, 0xBC, 0x8C, 0xE4, 0xBB, 0xA3, 0xE7, 0xA0, 0x81, 0x20]) @ dec_string_int n"
| "notice_text Desktop_recovered =
     utf8 [0xE6, 0xA1, 0x8C, 0xE9, 0x9D, 0xA2, 0xE5, 0xB7, 0xB2, 0xE4, 0xBB, 0x8E, 0xE5, 0xBC, 0x82, 0xE5, 0xB8,
     0xB8, 0xE9, 0x80, 0x80, 0xE5, 0x87, 0xBA, 0xE4, 0xB8, 0xAD, 0xE6, 0x81, 0xA2, 0xE5, 0xA4, 0x8D]"

text \<open>The descriptors of a program; a negative one is none.\<close>

record descriptors =
  ds_executable :: int
  ds_control :: int
  ds_touch :: int
  ds_registry :: int
  ds_storage :: int
  ds_installer :: int
  ds_drm :: int

definition variable :: "string \<Rightarrow> string \<Rightarrow> string" where
  "variable name contents = name @ ''='' @ contents"

definition program_environment ::
    "session_profile \<Rightarrow> string \<Rightarrow> program_policy \<Rightarrow> descriptors \<Rightarrow> session_notice \<Rightarrow> string list" where
  "program_environment profile program_id policy ds notice =
     [variable ''PATH'' ''/usr/sbin:/usr/bin:/sbin:/bin'',
      variable ''LVGL_SESSION_CONTROL_FD'' (dec_string_int (ds_control ds)),
      variable ''LVGL_TOUCH_FD'' (dec_string_int (ds_touch ds)),
      variable ''LVGL_DRM_FD'' (dec_string_int (ds_drm ds)),
      variable ''LVGL_SANDBOX_REQUIRED'' (if sp_personal_unbound profile then ''0'' else ''1''),
      variable ''LVGL_APP_UID'' (dec_string (if sp_personal_unbound profile then 0 else unat (pp_uid policy))),
      variable ''LVGL_LOGICAL_WIDTH'' (dec_string_int (sp_logical_width profile)),
      variable ''LVGL_LOGICAL_HEIGHT'' (dec_string_int (sp_logical_height profile)),
      variable ''LVGL_DRM_DEVICE'' (sp_drm_device profile),
      variable ''LVGL_DRM_CONNECTOR_ID'' (dec_string (sp_connector_id profile)),
      variable ''LVGL_DRM_CRTC_ID'' (dec_string (sp_crtc_id profile)),
      variable ''LVGL_DRM_OVERLAY_PLANE_ID'' (dec_string (sp_overlay_plane_id profile)),
      variable ''LVGL_DRM_OVERLAY_ZPOS'' (dec_string_int (sp_overlay_zpos profile)),
      variable ''LVGL_DISPLAY_X'' (dec_string_int (sp_display_x profile)),
      variable ''LVGL_DISPLAY_Y'' (dec_string_int (sp_display_y profile)),
      variable ''LVGL_DISPLAY_WIDTH'' (dec_string_int (sp_display_width profile)),
      variable ''LVGL_DISPLAY_HEIGHT'' (dec_string_int (sp_display_height profile)),
      variable ''LVGL_DISPLAY_ROTATION'' (dec_string (sp_display_rotation profile)),
      variable ''LVGL_PIXEL_FORMAT'' (sp_pixel_format profile),
      variable ''LVGL_PROFILE_ID'' (sp_profile_id profile),
      variable ''LVGL_MACHINE'' (sp_machine profile),
      variable ''LVGL_FOREGROUND_APP_ID'' program_id] @
     (if 0 \<le> ds_registry ds then [variable ''LVGL_APP_REGISTRY_FD'' (dec_string_int (ds_registry ds))] else []) @
     (if 0 \<le> ds_storage ds then [variable ''LVGL_APP_STORAGE_FD'' (dec_string_int (ds_storage ds))] else []) @
     (if 0 \<le> ds_installer ds then [variable ''LVGL_INSTALLER_FD'' (dec_string_int (ds_installer ds))] else []) @
     (if notice_text notice \<noteq> [] then [variable ''LVGL_APP_ERROR'' (notice_text notice)] else [])"

text \<open>The new process exits before the program, or runs it: confined or not, with its descriptors and variables.\<close>

record started_program =
  xp_confinement :: "confinement option"
  xp_descriptors :: "int list"
  xp_environment :: "string list"
  xp_name :: string

datatype program_start = Start_exits int | Start_runs started_program

definition inherited_descriptors :: "descriptors \<Rightarrow> int list" where
  "inherited_descriptors ds =
     [ds_control ds, ds_touch ds] @ filter (\<lambda>fd. 0 \<le> fd) [ds_registry ds, ds_storage ds, ds_installer ds] @ [ds_drm ds]"

text \<open>\<open>opened\<close> are the descriptors open in the new process, with their close-on-exec flags.\<close>

definition start_program ::
    "child_calls \<Rightarrow> (int \<times> bool) list \<Rightarrow> session_profile \<Rightarrow> string \<Rightarrow> program_policy \<Rightarrow> descriptors \<Rightarrow> session_notice \<Rightarrow> program_start" where
  "start_program calls opened profile program_id policy ds notice =
     (let inherited = inherited_descriptors ds;
          limit = min (if 0 < px_open_max calls then px_open_max calls else 1024) 65536;
          closed = (\<lambda>fd. 3 \<le> fd \<and> fd < limit \<and> fd \<notin> set inherited \<and> fd \<noteq> ds_executable ds);
          confined = (if sp_personal_unbound profile then None else apply_child_policy calls policy)
      in if \<not> px_setpgid calls \<or> \<not> list_all (px_inherit calls) inherited
         then Start_exits 126
         else if \<not> sp_personal_unbound profile \<and> confined = None then Start_exits 125
         else if \<not> px_exec calls then Start_exits 127
         else Start_runs \<lparr>xp_confinement = confined,
                xp_descriptors = map fst (filter (\<lambda>(fd, on_exec). \<not> closed fd \<and> (fd \<in> set inherited \<or> \<not> on_exec)) opened),
                xp_environment = program_environment profile program_id policy ds notice,
                xp_name = (if program_id = app_desktop then ''lvgl-desktop'' else ''lvgl-application'')\<rparr>)"

section \<open>How it ended\<close>

text \<open>What \<open>waitpid\<close> says: nothing yet (or an interruption), an error, an exit, a signal, or another change.\<close>

datatype wait_result = Wait_running | Wait_error | Wait_exited nat | Wait_signaled nat | Wait_other

fun child_result :: "wait_result \<Rightarrow> int \<times> bool" where
  "child_result Wait_running = (0, False)"
| "child_result Wait_error = (255, True)"
| "child_result (Wait_exited status) = (int status, True)"
| "child_result (Wait_signaled signal) = (128 + int signal, True)"
| "child_result Wait_other = (255, True)"

section \<open>Properties\<close>

lemma start_programD:
  assumes "start_program calls opened profile program_id policy ds notice = Start_runs x"
  shows "if sp_personal_unbound profile then xp_confinement x = None
      else xp_confinement x = Some \<lparr>cf_limits = child_limits (pp_limits policy), cf_uid = pp_uid policy, cf_gid = pp_gid policy\<rparr> \<and>
        8 \<le> rl_memory_mib (pp_limits policy) \<and> pp_uid policy \<noteq> 0"
    "set (xp_descriptors x) = {fd. (fd < 3 \<or> fd \<in> set (inherited_descriptors ds) \<or> fd = ds_executable ds \<or>
        min (if 0 < px_open_max calls then px_open_max calls else 1024) 65536 \<le> fd) \<and>
      (if fd \<in> set (inherited_descriptors ds) then fd \<in> fst ` set opened else (fd, False) \<in> set opened)}"
proof -
  show "if sp_personal_unbound profile then xp_confinement x = None
      else xp_confinement x = Some \<lparr>cf_limits = child_limits (pp_limits policy), cf_uid = pp_uid policy, cf_gid = pp_gid policy\<rparr> \<and>
        8 \<le> rl_memory_mib (pp_limits policy) \<and> pp_uid policy \<noteq> 0"
    using assms by (auto simp: start_program_def Let_def apply_child_policy_def not_less split: if_splits)
  define limit where "limit = min (if 0 < px_open_max calls then px_open_max calls else 1024) 65536"
  define inherited where "inherited = inherited_descriptors ds"
  have "xp_descriptors x = map fst (filter (\<lambda>(fd, on_exec).
      \<not> (3 \<le> fd \<and> fd < limit \<and> fd \<notin> set inherited \<and> fd \<noteq> ds_executable ds) \<and> (fd \<in> set inherited \<or> \<not> on_exec)) opened)"
    using assms by (auto simp: start_program_def Let_def limit_def inherited_def split: if_splits)
  then show "set (xp_descriptors x) = {fd. (fd < 3 \<or> fd \<in> set (inherited_descriptors ds) \<or> fd = ds_executable ds \<or>
        min (if 0 < px_open_max calls then px_open_max calls else 1024) 65536 \<le> fd) \<and>
      (if fd \<in> set (inherited_descriptors ds) then fd \<in> fst ` set opened else (fd, False) \<in> set opened)}"
    unfolding limit_def [symmetric] inherited_def [symmetric]
    by (auto simp: image_iff not_less not_le split: if_splits)
qed

text \<open>C15. Every program the session runs is the executable the manifest of an accepted package names, of the
  application itself (current in the stored state) or of the running platform release. Under a profile that is
  not personal-unbound it runs under the user id of its application, which is not root's and no other program's,
  within the limits of that manifest; under a personal-unbound profile it is not confined at all: it stays root,
  without limits. Of the open descriptors it keeps exactly the standard ones, those made for it and its
  executable, the last and the standard ones unless they close on execution, and besides every descriptor
  numbered from the limit of the closing loop on (what the system says a process may open, 1024 when it does not
  say, and at most 65536) that does not close on execution.\<close>

theorem started_programs_confined:
  assumes "verify_active_release sys env = Inr r"
    and "open_verified_program env (vr_profile r) installed w r app = Some (bs, policy)"
    and "start_program calls opened (vr_profile r) app policy ds notice = Start_runs x"
  shows "\<exists>package v path. v = trust_verify (en_trust env) (en_parse env) (en_crypto env) package \<and> pv_ok v \<and>
    packaged_executable package v path bs \<and>
    (if pm_app_id (pv_manifest v) = app
     then path = pm_entry (pv_manifest v) \<and>
       map_option va_package (verify_installed_application env (vr_profile r) w app) = Some package
     else pm_app_id (pv_manifest v) = app_platform \<and> pm_release_counter (pv_manifest v) = vr_counter r \<and>
       built_in_program_path app = Some path) \<and>
    (if sp_personal_unbound (vr_profile r) then xp_confinement x = None
     else xp_confinement x = Some \<lparr>cf_limits = child_limits (pm_limits (pv_manifest v)), cf_uid = application_uid app,
            cf_gid = application_uid app\<rparr> \<and> 100000 \<le> unat (application_uid app) \<and>
       list_all (\<lambda>other. other = app \<or> application_uid other \<noteq> application_uid app) (built_in_ids @ installed)) \<and>
    set (xp_descriptors x) = {fd. (fd < 3 \<or> fd \<in> set (inherited_descriptors ds) \<or> fd = ds_executable ds \<or>
        min (if 0 < px_open_max calls then px_open_max calls else 1024) 65536 \<le> fd) \<and>
      (if fd \<in> set (inherited_descriptors ds) then fd \<in> fst ` set opened else (fd, False) \<in> set opened)}"
proof -
  obtain package v path where v: "v = trust_verify (en_trust env) (en_parse env) (en_crypto env) package" "pv_ok v"
    "packaged_executable package v path bs" "pp_limits policy = pm_limits (pv_manifest v)"
    "if pm_app_id (pv_manifest v) = app
     then path = pm_entry (pv_manifest v) \<and>
       map_option va_package (verify_installed_application env (vr_profile r) w app) = Some package
     else pm_app_id (pv_manifest v) = app_platform \<and> pm_release_counter (pv_manifest v) = vr_counter r \<and>
       built_in_program_path app = Some path"
    and policy: "pp_gid policy = pp_uid policy"
    "if sp_personal_unbound (vr_profile r) then pp_uid policy = 0
     else pp_uid policy = application_uid app \<and> 100000 \<le> unat (pp_uid policy) \<and>
       list_all (\<lambda>other. other = app \<or> application_uid other \<noteq> pp_uid policy) (built_in_ids @ installed)"
    using only_verified_programs_run [OF assms(1,2)] by blast
  note started = start_programD [OF assms(3)]
  have "if sp_personal_unbound (vr_profile r) then xp_confinement x = None
     else xp_confinement x = Some \<lparr>cf_limits = child_limits (pm_limits (pv_manifest v)), cf_uid = application_uid app,
            cf_gid = application_uid app\<rparr> \<and> 100000 \<le> unat (application_uid app) \<and>
       list_all (\<lambda>other. other = app \<or> application_uid other \<noteq> application_uid app) (built_in_ids @ installed)"
    using policy started(1) v(4) by (auto split: if_splits)
  then show ?thesis using v(1-3,5) started(2) by (intro exI conjI) assumption+
qed

end
