(* ===== verification/Session_Supervisor.thy ===== *)
theory Session_Supervisor
  imports Program_Start Installer_Service Session_Control Storage_Broker Touch_Router
begin

text \<open>
  The loop of the session daemon (\<open>run_foreground\<close> and \<open>main\<close> of
  \<open>platform/src/session/session_daemon.cpp\<close>): one program at a time in the foreground, its control
  messages, touches, storage and installer requests, and what follows its end. Each round of \<open>poll\<close>
  and each turn of the main loop is a record of what arrives and of what the system calls yield.
\<close>

section \<open>The session\<close>

text \<open>\<open>se_stop\<close> is \<open>g_stop\<close>: a signal has arrived.\<close>

record session =
  se_managed :: managed
  se_private :: private_roots
  se_router :: touch_router
  se_status :: session_status
  se_run :: run_directory
  se_stop :: bool

definition signalled :: "bool \<Rightarrow> session \<Rightarrow> session" where
  "signalled signal s = s\<lparr>se_stop := se_stop s \<or> signal\<rparr>"

definition publish :: "status_calls \<Rightarrow> session_status \<Rightarrow> session \<Rightarrow> bool \<times> session" where
  "publish calls status s =
     (case atomic_status calls status (se_run s) of (ok, run) \<Rightarrow> (ok, s\<lparr>se_status := status, se_run := run\<rparr>))"

section \<open>The foreground\<close>

datatype foreground_action = Action_failure | Action_exit_session | Action_launch | Action_home

record foreground_outcome =
  fo_action :: foreground_action
  fo_app_id :: string
  fo_result :: int

text \<open>The variables of the loop; \<open>fg_broken\<close> is a \<open>break\<close>, \<open>fg_touches\<close> are the frames sent to the program.\<close>

record foreground =
  fg_outcome :: foreground_outcome
  fg_ready :: bool
  fg_requested :: bool
  fg_exited :: bool
  fg_broken :: bool
  fg_touches :: "touch_frame list"

definition new_foreground :: foreground where
  "new_foreground = \<lparr>fg_outcome = \<lparr>fo_action = Action_failure, fo_app_id = [], fo_result = 0\<rparr>,
     fg_ready = False, fg_requested = False, fg_exited = False, fg_broken = False, fg_touches = []\<rparr>"

definition with_result :: "int \<Rightarrow> foreground \<Rightarrow> foreground" where
  "with_result ec g = g\<lparr>fg_outcome := (fg_outcome g)\<lparr>fo_result := ec\<rparr>\<rparr>"

definition broken :: "int \<Rightarrow> foreground \<Rightarrow> foreground" where
  "broken ec g = (with_result ec g)\<lparr>fg_broken := True\<rparr>"

definition requests :: "foreground_action \<Rightarrow> string \<Rightarrow> foreground \<Rightarrow> foreground" where
  "requests action app_id g =
     g\<lparr>fg_outcome := (fg_outcome g)\<lparr>fo_action := action, fo_app_id := app_id\<rparr>, fg_requested := True\<rparr>"

datatype poll_outcome = Poll_failed | Poll_quiet | Poll_ready

text \<open>
  One round: a signal before it, the outcome of \<open>poll\<close>, what can be received from each socket (a datagram
  with its arrival time; a request with the calls its handler makes), whether what is sent arrives, the time
  at the end of the round, and what \<open>waitpid\<close> says.
\<close>

record poll_round =
  po_signal :: bool
  po_polled :: poll_outcome
  po_control :: "bytes option"
  po_status :: status_calls
  po_touch :: "(bytes \<times> u64) option"
  po_touch_sent :: bool
  po_storage :: "(storage_faults \<times> bytes) option"
  po_storage_sent :: bool
  po_installer :: "(installer_calls \<times> bytes) option"
  po_now :: u64
  po_child :: wait_result

definition ready_status :: "session_status \<Rightarrow> session_status" where
  "ready_status status = status\<lparr>ss_state := Session_ready, ss_hole_ready := True, ss_input_ready := True\<rparr>"

definition launchable :: "string \<Rightarrow> bool" where
  "launchable app_id \<longleftrightarrow> app_id \<noteq> app_desktop \<and> (built_in_program_path app_id \<noteq> None \<or> \<not> reserved_application_id app_id)"

definition control_step :: "string \<Rightarrow> poll_round \<Rightarrow> foreground \<times> session \<Rightarrow> foreground \<times> session" where
  "control_step program r x =
     (case x of (g, s) \<Rightarrow>
      case po_control r of None \<Rightarrow> (g, s)
      | Some packet \<Rightarrow>
        case (if length packet = kSessionControlSize then decode_session_control packet else None) of
          None \<Rightarrow> (broken 79 g, s)
        | Some m \<Rightarrow>
          if sc_command m = Control_ready \<and> \<not> fg_ready g
          then (case publish (po_status r) (ready_status (se_status s)) s of (ok, s) \<Rightarrow>
                  (if ok then g\<lparr>fg_ready := True\<rparr> else broken 80 (g\<lparr>fg_ready := True\<rparr>), s))
          else if sc_command m = Control_exit_session \<and> fg_ready g
          then (requests Action_exit_session (fo_app_id (fg_outcome g)) g, s)
          else if sc_command m = Control_launch_application \<and> fg_ready g \<and> program = app_desktop \<and> launchable (sc_app_id m)
          then (requests Action_launch (sc_app_id m) g, s)
          else if sc_command m = Control_home \<and> fg_ready g \<and> program \<noteq> app_desktop
          then (requests Action_home (fo_app_id (fg_outcome g)) g, s)
          else (broken 81 g, s))"

definition touch_step :: "poll_round \<Rightarrow> foreground \<times> session \<Rightarrow> foreground \<times> session" where
  "touch_step r x =
     (case x of (g, s) \<Rightarrow>
      case po_touch r of None \<Rightarrow> (g, s)
      | Some (datagram, now) \<Rightarrow>
        case route (se_router s) datagram now of (result, router) \<Rightarrow>
        let s = s\<lparr>se_router := router\<rparr>
        in if \<not> error_ok (rr_error result) then (g, s)
           else if po_touch_sent r then (g\<lparr>fg_touches := fg_touches g @ [rr_frame result]\<rparr>, s)
           else (broken 82 g, s))"

definition storage_step_of :: "string \<Rightarrow> resource_limits \<Rightarrow> poll_round \<Rightarrow> foreground \<times> session \<Rightarrow> foreground \<times> session" where
  "storage_step_of program limits r x =
     (case x of (g, s) \<Rightarrow>
      case po_storage r of None \<Rightarrow> (g, s)
      | Some (faults, packet) \<Rightarrow>
        case handle_storage_request faults limits (vs_files (se_private s) program) packet of (reply, files) \<Rightarrow>
        let s = s\<lparr>se_private := (se_private s)\<lparr>vs_files := (vs_files (se_private s))(program := files)\<rparr>\<rparr>
        in (if reply \<noteq> None \<and> po_storage_sent r then g else broken 89 g, s))"

definition installer_step_of ::
    "install_environment \<Rightarrow> session_profile \<Rightarrow> poll_round \<Rightarrow> foreground \<times> session \<Rightarrow> foreground \<times> session" where
  "installer_step_of env profile r x =
     (case x of (g, s) \<Rightarrow>
      case po_installer r of None \<Rightarrow> (g, s)
      | Some (calls, packet) \<Rightarrow>
        case handle_installer_request env profile calls (se_managed s) packet of (reply, m) \<Rightarrow>
          (if reply \<noteq> None then g else broken 91 g, s\<lparr>se_managed := m\<rparr>))"

definition deadline_step :: "u64 \<Rightarrow> poll_round \<Rightarrow> foreground \<times> session \<Rightarrow> foreground \<times> session" where
  "deadline_step deadline r x =
     (case x of (g, s) \<Rightarrow> (if \<not> fg_ready g \<and> deadline \<le> po_now r then broken 83 g else g, s))"

definition child_step :: "poll_round \<Rightarrow> foreground \<times> session \<Rightarrow> foreground \<times> session" where
  "child_step r x =
     (case x of (g, s) \<Rightarrow>
      case child_result (po_child r) of (ec, exited) \<Rightarrow>
        (if exited then (with_result (if ec = 0 then 84 else ec) g)\<lparr>fg_exited := True\<rparr> else g, s))"

text \<open>A step is taken when the loop has not been left before it and its condition holds.\<close>

definition guarded :: "bool \<Rightarrow> (foreground \<times> session \<Rightarrow> foreground \<times> session) \<Rightarrow> foreground \<times> session \<Rightarrow> foreground \<times> session" where
  "guarded condition step x = (if condition \<and> \<not> fg_broken (fst x) then step x else x)"

text \<open>The program in the foreground: its id, limits and storage.\<close>

record foreground_program =
  fx_id :: string
  fx_limits :: resource_limits
  fx_storage :: bool

definition foreground_round ::
    "install_environment \<Rightarrow> session_profile \<Rightarrow> foreground_program \<Rightarrow> u64 \<Rightarrow> poll_round \<Rightarrow> foreground \<times> session
       \<Rightarrow> foreground \<times> session" where
  "foreground_round env profile program deadline r x =
     (if po_polled r = Poll_failed then (broken 78 (fst x), snd x)
      else let polled = (po_polled r = Poll_ready);
               x1 = guarded polled (control_step (fx_id program) r) x;
               x2 = guarded (polled \<and> fg_ready (fst x)) (touch_step r) x1;
               x3 = guarded (polled \<and> fx_storage program) (storage_step_of (fx_id program) (fx_limits program) r) x2;
               x4 = guarded (polled \<and> fx_id program = app_installer) (installer_step_of env profile r) x3;
               x5 = guarded True (deadline_step deadline r) x4
           in guarded True (child_step r) x5)"

definition foreground_over :: "foreground \<times> session \<Rightarrow> bool" where
  "foreground_over x \<longleftrightarrow> fg_broken (fst x) \<or> fg_exited (fst x) \<or> fg_requested (fst x) \<or> se_stop (snd x)"

text \<open>The rounds so far; the loop may wait for more of them.\<close>

fun foreground_loop ::
    "install_environment \<Rightarrow> session_profile \<Rightarrow> foreground_program \<Rightarrow> u64 \<Rightarrow> poll_round list \<Rightarrow> foreground \<times> session
       \<Rightarrow> foreground \<times> session" where
  "foreground_loop env profile program deadline [] x = x"
| "foreground_loop env profile program deadline (r # rs) x =
     (let x' = (fst x, signalled (po_signal r) (snd x))
      in if foreground_over x' then x'
         else foreground_loop env profile program deadline rs (foreground_round env profile program deadline r x'))"

text \<open>The end: \<open>SIGTERM\<close>, twenty looks at the child, \<open>SIGKILL\<close>; a signal may arrive meanwhile.\<close>

record stop_calls =
  sk_attempts :: "wait_result list"
  sk_killed :: wait_result
  sk_signal :: bool

definition stop_program :: "stop_calls \<Rightarrow> foreground \<Rightarrow> foreground" where
  "stop_program calls g =
     (if fg_exited g then g
      else let ended = (case find (\<lambda>w. snd (child_result w)) (take 20 (sk_attempts calls)) of
                          Some w \<Rightarrow> w | None \<Rightarrow> sk_killed calls);
               g = g\<lparr>fg_exited := snd (child_result ended)\<rparr>
           in if fo_result (fg_outcome g) = 0 \<and> \<not> fg_requested g then with_result (fst (child_result ended)) g else g)"

record foreground_calls =
  fc_sockets :: bool
  fc_drm :: bool
  fc_storage_buffers :: bool
  fc_installer_options :: bool
  fc_started :: bool
  fc_time :: u64
  fc_rounds :: "poll_round list"
  fc_stop :: stop_calls

definition ready_deadline :: "u64 \<Rightarrow> u64" where
  "ready_deadline now = now + 10000 * 1000"

text \<open>
  \<open>run_foreground\<close>: the flag says whether it has returned; it has not while the loop waits.
\<close>

definition run_foreground ::
    "install_environment \<Rightarrow> session_profile \<Rightarrow> foreground_program \<Rightarrow> foreground_calls \<Rightarrow> session
       \<Rightarrow> bool \<times> foreground \<times> session" where
  "run_foreground env profile program calls s =
     (if \<not> fc_sockets calls then (True, with_result 76 new_foreground, s)
      else if \<not> fc_drm calls then (True, with_result 87 new_foreground, s)
      else if fx_storage program \<and> \<not> fc_storage_buffers calls then (True, with_result 88 new_foreground, s)
      else if fx_id program = app_installer \<and> \<not> fc_installer_options calls then (True, with_result 90 new_foreground, s)
      else if \<not> fc_started calls then (True, with_result 77 new_foreground, s)
      else let x = foreground_loop env profile program (ready_deadline (fc_time calls)) (fc_rounds calls) (new_foreground, s)
           in if \<not> foreground_over x then (False, x)
              else let g = stop_program (fc_stop calls) (fst x);
                       s = signalled (sk_signal (fc_stop calls)) (snd x)
                   in (True, if se_stop s \<and> fo_result (fg_outcome g) = 0 then with_result 143 g else g, s))"

section \<open>The main loop\<close>

text \<open>\<open>sv_running\<close>: the program in the foreground while \<open>run_foreground\<close> has not returned; \<open>sv_break\<close> is a \<open>break\<close>.\<close>

record supervisor =
  sv_foreground :: string
  sv_notice :: session_notice
  sv_failures :: nat
  sv_result :: int
  sv_exit :: bool
  sv_break :: bool
  sv_running :: "foreground option"
  sv_session :: session

text \<open>What happens in one turn: a signal before it, and the results of the calls.\<close>

record turn =
  tn_signal :: bool
  tn_status :: status_calls
  tn_listing :: "string list \<times> bool"
  tn_registry :: bool
  tn_storage :: "(bool \<times> bool) \<times> (bool \<times> bool)"
  tn_foreground :: foreground_calls
  tn_rollback :: store_faults

definition starting_status :: "session_status \<Rightarrow> session_status" where
  "starting_status status =
     status\<lparr>ss_state := Session_starting, ss_result := 0, ss_hole_ready := False, ss_input_ready := False\<rparr>"

definition back_to_desktop :: "session_notice \<Rightarrow> supervisor \<Rightarrow> supervisor" where
  "back_to_desktop notice v = v\<lparr>sv_notice := notice, sv_foreground := app_desktop\<rparr>"

definition ends :: "int \<Rightarrow> supervisor \<Rightarrow> supervisor" where
  "ends ec v = v\<lparr>sv_result := ec, sv_break := True\<rparr>"

text \<open>A program that cannot be opened or has failed: roll its release back, or else give the notice.\<close>

definition recover ::
    "install_environment \<Rightarrow> session_profile \<Rightarrow> store_faults \<Rightarrow> session_notice \<Rightarrow> supervisor \<Rightarrow> supervisor" where
  "recover env profile faults otherwise v =
     (let s = sv_session v; m = se_managed s in
      case rollback_application_after_failure env profile faults (sv_foreground v) (mg_world m) of (notice, w) \<Rightarrow>
        back_to_desktop (case notice of Some n \<Rightarrow> n | None \<Rightarrow> otherwise)
          (v\<lparr>sv_session := s\<lparr>se_managed := set_world w m\<rparr>\<rparr>))"

definition after_foreground ::
    "install_environment \<Rightarrow> session_profile \<Rightarrow> store_faults \<Rightarrow> foreground_outcome \<Rightarrow> supervisor \<Rightarrow> supervisor" where
  "after_foreground env profile faults outcome v0 =
     (let v = v0\<lparr>sv_notice := No_notice\<rparr>; ec = fo_result outcome in
      if se_stop (sv_session v) then ends (if ec = 0 then 143 else ec) v
      else if fo_action outcome = Action_exit_session then v\<lparr>sv_exit := True, sv_result := 0\<rparr>
      else if fo_action outcome = Action_launch then v\<lparr>sv_foreground := fo_app_id outcome, sv_failures := 0\<rparr>
      else if fo_action outcome = Action_home then v\<lparr>sv_foreground := app_desktop, sv_failures := 0\<rparr>
      else if sv_foreground v \<noteq> app_desktop
      then (recover env profile faults (Application_failed ec) v)\<lparr>sv_failures := 0\<rparr>
      else let v = v\<lparr>sv_result := (if ec = 0 then 84 else ec), sv_failures := sv_failures v + 1\<rparr>
           in if 3 \<le> sv_failures v then v\<lparr>sv_break := True\<rparr> else v\<lparr>sv_notice := Desktop_recovered\<rparr>)"

definition supervisor_turn :: "install_environment \<Rightarrow> verified_release \<Rightarrow> turn \<Rightarrow> supervisor \<Rightarrow> supervisor" where
  "supervisor_turn env r c v =
     (let profile = vr_profile r; app = sv_foreground v; desktop = (app = app_desktop) in
      case publish (tn_status c) (starting_status (se_status (sv_session v))) (sv_session v) of (published, s) \<Rightarrow>
      let v = v\<lparr>sv_session := s\<rparr>; w = mg_world (se_managed s);
          ids = fst (installed_application_ids (fst (tn_listing c)) (snd (tn_listing c)) (wo_payload w))
      in if \<not> published then ends 74 v
         else case open_verified_program env profile ids w r app of
           None \<Rightarrow> if desktop then ends 75 v else recover env profile (tn_rollback c) Program_not_in_release v
         | Some (executable, policy) \<Rightarrow>
           if desktop \<and> build_desktop_registry (tn_registry c) env ids w r = None then ends 85 v
           else case (if pp_private_storage policy then ensure_private_storage (tn_storage c) app (se_private s)
                      else (True, se_private s)) of (stored, roots) \<Rightarrow>
             let v = v\<lparr>sv_session := s\<lparr>se_private := roots\<rparr>\<rparr> in
             if \<not> stored then (if desktop then ends 86 v else back_to_desktop Private_storage_unavailable v)
             else case run_foreground env profile
                         \<lparr>fx_id = app, fx_limits = pp_limits policy, fx_storage = pp_private_storage policy\<rparr>
                         (tn_foreground c) (sv_session v) of (returned, g, s) \<Rightarrow>
               let v = v\<lparr>sv_session := s\<rparr>
               in if returned then after_foreground env profile (tn_rollback c) (fg_outcome g) v
                  else v\<lparr>sv_running := Some g\<rparr>)"

definition supervisor_over :: "supervisor \<Rightarrow> bool" where
  "supervisor_over v \<longleftrightarrow> se_stop (sv_session v) \<or> sv_exit v \<or> sv_break v"

text \<open>The turns so far. No turn follows one whose program still runs.\<close>

fun supervisor_loop :: "install_environment \<Rightarrow> verified_release \<Rightarrow> turn list \<Rightarrow> supervisor \<Rightarrow> supervisor" where
  "supervisor_loop env r [] v = v"
| "supervisor_loop env r (c # cs) v =
     (if sv_running v \<noteq> None then v
      else let v' = v\<lparr>sv_session := signalled (tn_signal c) (sv_session v)\<rparr>
           in if supervisor_over v' then v' else supervisor_loop env r cs (supervisor_turn env r c v'))"

definition final_status :: "int \<Rightarrow> session_status \<Rightarrow> session_status" where
  "final_status ec status =
     status\<lparr>ss_state := (if ec = 0 then Session_stopped else Session_error), ss_result := ec,
            ss_hole_ready := False, ss_input_ready := False\<rparr>"

definition finish :: "status_calls \<Rightarrow> supervisor \<Rightarrow> int \<times> session" where
  "finish calls v = (sv_result v, snd (publish calls (final_status (sv_result v) (se_status (sv_session v))) (sv_session v)))"

text \<open>The start of \<open>main\<close>, after its arguments: what the calls yield.\<close>

record startup =
  up_arguments :: bool
  up_hardened :: bool
  up_run_root :: bool
  up_socket :: bool
  up_nonce :: u64
  up_pid :: int
  up_status :: status_calls
  up_managed :: managed
  up_private :: private_roots
  up_run :: run_directory

definition session_main ::
    "platform_system \<Rightarrow> install_environment \<Rightarrow> startup \<Rightarrow> int + verified_release \<times> supervisor" where
  "session_main sys env u =
     (if \<not> up_arguments u then Inl 64
      else if \<not> up_hardened u then Inl 70
      else case verify_active_release sys env of Inl detail \<Rightarrow> Inl 71
      | Inr r \<Rightarrow>
        if \<not> up_run_root u \<or> \<not> up_socket u then Inl 72
        else if up_nonce u = 0 then Inl 73
        else let width = sp_logical_width (vr_profile r); height = sp_logical_height (vr_profile r);
                 status = \<lparr>ss_session_pid = up_pid u, ss_session_nonce = up_nonce u, ss_state = Session_starting,
                   ss_result = 0, ss_hole_ready = False, ss_input_ready = False, ss_logical_width = width,
                   ss_logical_height = height\<rparr>;
                 s = \<lparr>se_managed = up_managed u, se_private = up_private u,
                   se_router = new_touch_router (up_nonce u) (word_of_int width) (word_of_int height),
                   se_status = status, se_run = up_run u, se_stop = False\<rparr>
             in case publish (up_status u) status s of (published, s) \<Rightarrow>
               if \<not> published then Inl 74
               else Inr (r, \<lparr>sv_foreground = app_desktop, sv_notice = No_notice, sv_failures = 0, sv_result = 0,
                     sv_exit = False, sv_break = False, sv_running = None, sv_session = s\<rparr>))"

section \<open>Publications\<close>

definition same_session :: "session_status \<Rightarrow> session_status \<Rightarrow> bool" where
  "same_session p q \<longleftrightarrow> ss_session_pid q = ss_session_pid p \<and> ss_session_nonce q = ss_session_nonce p \<and>
     ss_logical_width q = ss_logical_width p \<and> ss_logical_height q = ss_logical_height p"

lemma publishD:
  assumes "publish calls st s = (ok, s')"
  shows "se_status s' = st" "se_router s' = se_router s" "se_managed s' = se_managed s" "se_private s' = se_private s"
    "se_stop s' = se_stop s" "ok \<Longrightarrow> publishable st" "ok \<Longrightarrow> rn_status (se_run s') = Some (encode_session_status st)"
    "rn_status (se_run s') = rn_status (se_run s) \<or> rn_status (se_run s') = Some (encode_session_status st) \<and> publishable st"
proof -
  obtain ok' run where a: "atomic_status calls st (se_run s) = (ok', run)" by fastforce
  then have s': "ok' = ok" "s' = s\<lparr>se_status := st, se_run := run\<rparr>" using assms by (simp_all add: publish_def)
  then show "se_status s' = st" "se_router s' = se_router s" "se_managed s' = se_managed s" "se_private s' = se_private s"
    "se_stop s' = se_stop s" by simp_all
  have unpublishable: "\<not> publishable st \<Longrightarrow> atomic_status calls st (se_run s) = (False, se_run s)"
    by (simp add: atomic_status_def encode_session_status_def)
  have "ok \<longrightarrow> rn_status run = Some (encode_session_status st)"
    "rn_status run = rn_status (se_run s) \<or> rn_status run = Some (encode_session_status st)"
    using a s'(1) by (auto simp: atomic_status_def Let_def split: if_splits)
  then show "ok \<Longrightarrow> publishable st" "ok \<Longrightarrow> rn_status (se_run s') = Some (encode_session_status st)"
    "rn_status (se_run s') = rn_status (se_run s) \<or> rn_status (se_run s') = Some (encode_session_status st) \<and> publishable st"
    using unpublishable a s' by auto
qed

text \<open>
  What holds at every moment: the file is a whole document of this session, and the router accepts the
  nonce that the document shows.
\<close>

definition session_inv :: "session_status \<Rightarrow> session \<Rightarrow> bool" where
  "session_inv base s \<longleftrightarrow> same_session base (se_status s) \<and> publishable (se_status s) \<and>
     sg_session_nonce (tr_sequence (se_router s)) = ss_session_nonce base \<and>
     (\<exists>p. rn_status (se_run s) = Some (encode_session_status p) \<and> publishable p \<and> same_session base p)"

lemma publish_inv:
  assumes "publish calls st s = (ok, s')" "session_inv base s" "publishable st" "same_session base st"
  shows "session_inv base s'"
  using publishD(8) [OF assms(1)] assms(2-4)
  by (auto simp: session_inv_def publishD(1,2) [OF assms(1)])

lemma status_publishable [simp]:
  "publishable p \<Longrightarrow> publishable (starting_status p)" "publishable p \<Longrightarrow> publishable (ready_status p)"
  "publishable p \<Longrightarrow> 0 \<le> ec \<Longrightarrow> publishable (final_status ec p)"
  by (auto simp: publishable_def starting_status_def ready_status_def final_status_def)

lemma status_same [simp]:
  "same_session base (starting_status p) = same_session base p" "same_session base (ready_status p) = same_session base p"
  "same_session base (final_status ec p) = same_session base p"
  by (simp_all add: same_session_def starting_status_def ready_status_def final_status_def)

lemma session_inv_frame [simp]:
  "session_inv base (signalled b s) = session_inv base s"
  "session_inv base (s\<lparr>se_private := roots\<rparr>) = session_inv base s"
  "session_inv base (s\<lparr>se_managed := m\<rparr>) = session_inv base s"
  by (simp_all add: session_inv_def signalled_def)

section \<open>The foreground loop\<close>

text \<open>
  While the loop runs the file shows exactly whether the program has reported that it is ready; touches
  come after that; only the desktop launches, and only programs the session may open.
\<close>

definition foreground_inv :: "session_status \<Rightarrow> string \<Rightarrow> foreground \<times> session \<Rightarrow> bool" where
  "foreground_inv base program x \<longleftrightarrow>
     session_inv base (snd x) \<and> 0 \<le> fo_result (fg_outcome (fst x)) \<and>
     (fg_broken (fst x) \<or>
        rn_status (se_run (snd x)) = Some (encode_session_status (se_status (snd x))) \<and>
        ss_input_ready (se_status (snd x)) = fg_ready (fst x)) \<and>
     (fg_touches (fst x) = [] \<or> fg_ready (fst x)) \<and>
     (fo_action (fg_outcome (fst x)) = Action_launch \<longrightarrow> program = app_desktop \<and> launchable (fo_app_id (fg_outcome (fst x))))"

lemmas foreground_simps = foreground_inv_def broken_def with_result_def requests_def

lemma child_result_nonneg: "0 \<le> fst (child_result w)"
  by (cases w) simp_all

lemma control_step_inv: "foreground_inv base program x \<Longrightarrow> foreground_inv base program (control_step program r x)"
proof -
  assume inv: "foreground_inv base program x"
  obtain g s where x: "x = (g, s)" by fastforce
  obtain ok s' where p: "publish (po_status r) (ready_status (se_status s)) s = (ok, s')" by fastforce
  have s: "session_inv base s" using inv by (simp add: x foreground_inv_def)
  then have "publishable (se_status s)" "same_session base (se_status s)" by (simp_all add: session_inv_def)
  then have "session_inv base s'" by (intro publish_inv [OF p s]) simp_all
  moreover have "ok \<Longrightarrow> rn_status (se_run s') = Some (encode_session_status (se_status s'))"
    "ss_input_ready (se_status s')"
    using publishD(1,7) [OF p] by (simp_all add: ready_status_def)
  ultimately show ?thesis
    using inv unfolding x control_step_def prod.case
    by (auto simp: foreground_simps p split: option.splits)
qed

lemma touch_step_inv:
  assumes "foreground_inv base program x" "fg_ready (fst x)"
  shows "foreground_inv base program (touch_step r x)"
proof -
  obtain g s where x: "x = (g, s)" by fastforce
  have "sg_session_nonce (tr_sequence router) = sg_session_nonce (tr_sequence (se_router s))"
    if "route (se_router s) datagram now = (result, router)" for datagram now result router
    using route_cases [OF that] by metis
  then show ?thesis
    using assms by (auto simp: x touch_step_def foreground_simps session_inv_def Let_def split: option.splits prod.splits)
qed

lemma other_steps_inv:
  assumes "foreground_inv base program x"
  shows "foreground_inv base program (storage_step_of program limits r x)"
    and "foreground_inv base program (installer_step_of env profile r x)"
    and "foreground_inv base program (deadline_step deadline r x)"
    and "foreground_inv base program (child_step r x)"
proof -
  obtain g s where x: "x = (g, s)" by fastforce
  show "foreground_inv base program (storage_step_of program limits r x)"
    using assms by (auto simp: x storage_step_of_def foreground_simps Let_def split: option.splits prod.splits)
  show "foreground_inv base program (installer_step_of env profile r x)"
    using assms by (auto simp: x installer_step_of_def foreground_simps split: option.splits prod.splits)
  show "foreground_inv base program (deadline_step deadline r x)"
    using assms by (auto simp: x deadline_step_def foreground_simps)
  show "foreground_inv base program (child_step r x)"
    using assms child_result_nonneg [of "po_child r"]
    by (auto simp: x child_step_def foreground_simps split: prod.splits)
qed

lemma control_keeps_ready: "fg_ready (fst x) \<Longrightarrow> fg_ready (fst (control_step program r x))"
  by (auto simp: control_step_def foreground_simps split: prod.splits option.splits)

lemma guarded_inv:
  assumes "foreground_inv base program x"
    and "condition \<Longrightarrow> foreground_inv base program x \<Longrightarrow> foreground_inv base program (step x)"
  shows "foreground_inv base program (guarded condition step x)"
  using assms by (simp add: guarded_def)

lemma foreground_round_inv:
  assumes inv: "foreground_inv base (fx_id program) x"
  shows "foreground_inv base (fx_id program) (foreground_round env profile program deadline r x)"
proof -
  let ?inv = "foreground_inv base (fx_id program)"
  define polled where "polled \<longleftrightarrow> po_polled r = Poll_ready"
  define x1 where "x1 = guarded polled (control_step (fx_id program) r) x"
  define x2 where "x2 = guarded (polled \<and> fg_ready (fst x)) (touch_step r) x1"
  have x1: "?inv x1" unfolding x1_def by (intro guarded_inv inv control_step_inv)
  have "fg_ready (fst x) \<Longrightarrow> fg_ready (fst x1)" by (simp add: x1_def guarded_def control_keeps_ready)
  then have x2: "?inv x2" unfolding x2_def by (intro guarded_inv x1 touch_step_inv) simp_all
  have failed: "?inv (broken 78 (fst x), snd x)" using inv by (simp add: foreground_simps)
  show ?thesis
  proof (cases "po_polled r = Poll_failed")
    case False
    show ?thesis
      unfolding foreground_round_def if_not_P [OF False] Let_def polled_def [symmetric] x1_def [symmetric] x2_def [symmetric]
      by (intro guarded_inv x2 other_steps_inv)
  qed (simp add: foreground_round_def failed)
qed

lemma foreground_loop_inv:
  "foreground_inv base (fx_id program) x \<Longrightarrow>
   foreground_inv base (fx_id program) (foreground_loop env profile program deadline rs x)"
proof (induction rs arbitrary: x)
  case (Cons r rs)
  define x' where "x' = (fst x, signalled (po_signal r) (snd x))"
  have "se_run (snd x') = se_run (snd x)" "se_status (snd x') = se_status (snd x)" by (simp_all add: x'_def signalled_def)
  then have "foreground_inv base (fx_id program) x'"
    using Cons.prems by (simp add: foreground_inv_def) (simp add: x'_def)
  then show ?case using Cons.IH foreground_round_inv by (simp add: Let_def x'_def [symmetric])
qed simp

lemma run_foreground_inv:
  assumes "session_inv base s" "rn_status (se_run s) = Some (encode_session_status (se_status s))"
    and "\<not> ss_input_ready (se_status s)" and "run_foreground env profile program calls s = (returned, g, s')"
  shows "session_inv base s'" "0 \<le> fo_result (fg_outcome g)"
    "fo_action (fg_outcome g) = Action_launch \<Longrightarrow> fx_id program = app_desktop \<and> launchable (fo_app_id (fg_outcome g))"
    "\<not> returned \<Longrightarrow> foreground_inv base (fx_id program) (g, s') \<and> \<not> foreground_over (g, s')"
proof -
  let ?inv = "foreground_inv base (fx_id program)"
  have new: "?inv (new_foreground, s)" using assms(1-3) by (simp add: foreground_inv_def new_foreground_def)
  have failed: "?inv (with_result ec new_foreground, s)" if "0 \<le> ec" for ec
    using new that by (simp add: foreground_simps new_foreground_def)
  define x where "x = foreground_loop env profile program (ready_deadline (fc_time calls)) (fc_rounds calls) (new_foreground, s)"
  have x: "?inv x" unfolding x_def by (rule foreground_loop_inv [OF new])
  define g1 s1 where "g1 = stop_program (fc_stop calls) (fst x)" and "s1 = signalled (sk_signal (fc_stop calls)) (snd x)"
  have stopped: "?inv (g1, s1)"
  proof -
    have "se_run s1 = se_run (snd x)" "se_status s1 = se_status (snd x)" by (simp_all add: s1_def signalled_def)
    then show ?thesis
      using x child_result_nonneg
      by (auto simp: foreground_inv_def g1_def stop_program_def Let_def with_result_def s1_def split: option.splits)
  qed
  have "?inv (g, s') \<and> (\<not> returned \<longrightarrow> \<not> foreground_over (g, s'))"
  proof (cases "returned \<and> foreground_over x \<and> se_stop s1 \<and> fo_result (fg_outcome g1) = 0 \<and> g = with_result 143 g1 \<and> s' = s1")
    case True
    then show ?thesis using stopped by (simp add: foreground_simps)
  next
    case False
    then show ?thesis
      using assms(4) failed x stopped unfolding run_foreground_def Let_def x_def [symmetric] g1_def [symmetric] s1_def [symmetric]
      by (auto split: if_splits)
  qed
  then show "session_inv base s'" "0 \<le> fo_result (fg_outcome g)"
    "fo_action (fg_outcome g) = Action_launch \<Longrightarrow> fx_id program = app_desktop \<and> launchable (fo_app_id (fg_outcome g))"
    "\<not> returned \<Longrightarrow> foreground_inv base (fx_id program) (g, s') \<and> \<not> foreground_over (g, s')"
    by (simp_all add: foreground_inv_def)
qed

section \<open>One turn\<close>

lemma supervisor_turn_cases:
  assumes "v' = supervisor_turn env r c v"
  obtains (unpublished) s where "publish (tn_status c) (starting_status (se_status (sv_session v))) (sv_session v) = (False, s)"
      "v' = ends 74 (v\<lparr>sv_session := s\<rparr>)"
  | (desktop_fails) s roots ec where "publish (tn_status c) (starting_status (se_status (sv_session v))) (sv_session v) = (True, s)"
      "sv_foreground v = app_desktop" "ec \<in> {75, 85, 86}" "v' = ends ec (v\<lparr>sv_session := s\<lparr>se_private := roots\<rparr>\<rparr>)"
  | (unopened) s where "publish (tn_status c) (starting_status (se_status (sv_session v))) (sv_session v) = (True, s)"
      "sv_foreground v \<noteq> app_desktop"
      "v' = recover env (vr_profile r) (tn_rollback c) Program_not_in_release (v\<lparr>sv_session := s\<rparr>)"
  | (unstored) s roots where "publish (tn_status c) (starting_status (se_status (sv_session v))) (sv_session v) = (True, s)"
      "sv_foreground v \<noteq> app_desktop"
      "v' = back_to_desktop Private_storage_unavailable (v\<lparr>sv_session := s\<lparr>se_private := roots\<rparr>\<rparr>)"
  | (ran) s roots program returned g s' where
      "publish (tn_status c) (starting_status (se_status (sv_session v))) (sv_session v) = (True, s)"
      "fx_id program = sv_foreground v"
      "run_foreground env (vr_profile r) program (tn_foreground c) (s\<lparr>se_private := roots\<rparr>) = (returned, g, s')"
      "v' = (if returned then after_foreground env (vr_profile r) (tn_rollback c) (fg_outcome g) (v\<lparr>sv_session := s'\<rparr>)
             else v\<lparr>sv_session := s', sv_running := Some g\<rparr>)"
proof -
  obtain published s where p: "publish (tn_status c) (starting_status (se_status (sv_session v))) (sv_session v) = (published, s)"
    by fastforce
  note turn = assms [unfolded supervisor_turn_def Let_def p prod.case]
  define w where "w = mg_world (se_managed s)"
  define ids where "ids = fst (installed_application_ids (fst (tn_listing c)) (snd (tn_listing c)) (wo_payload w))"
  have s: "s = s\<lparr>se_private := se_private s\<rparr>" by simp
  show thesis
  proof (cases published)
    case False
    then show thesis using p turn by (intro unpublished) simp_all
  next
    case True
    have p: "publish (tn_status c) (starting_status (se_status (sv_session v))) (sv_session v) = (True, s)"
      using p True by simp
    show thesis
    proof (cases "open_verified_program env (vr_profile r) ids w r (sv_foreground v)")
      case None
      then have "v' = (if sv_foreground v = app_desktop then ends 75 (v\<lparr>sv_session := s\<rparr>)
          else recover env (vr_profile r) (tn_rollback c) Program_not_in_release (v\<lparr>sv_session := s\<rparr>))"
        using turn True by (simp add: w_def [symmetric] ids_def [symmetric])
      then show thesis
        using unopened [OF p] desktop_fails [OF p, of 75 "se_private s"] by (cases "sv_foreground v = app_desktop") simp_all
    next
      case (Some opened)
      obtain executable policy where opened: "opened = (executable, policy)" by fastforce
      obtain stored roots where roots: "(if pp_private_storage policy
          then ensure_private_storage (tn_storage c) (sv_foreground v) (se_private s) else (True, se_private s)) = (stored, roots)"
        by fastforce
      define program where "program = \<lparr>fx_id = sv_foreground v, fx_limits = pp_limits policy, fx_storage = pp_private_storage policy\<rparr>"
      obtain returned g s' where run: "run_foreground env (vr_profile r) program (tn_foreground c) (s\<lparr>se_private := roots\<rparr>) = (returned, g, s')"
        by (metis prod_cases3)
      note turn = turn [folded w_def, folded ids_def, unfolded eqTrueI [OF True] Some option.case opened prod.case roots]
      define refused where
        "refused \<longleftrightarrow> sv_foreground v = app_desktop \<and> build_desktop_registry (tn_registry c) env ids w r = None"
      note turn = turn [folded refused_def]
      consider (registry) refused | (storage) "\<not> refused" "\<not> stored" | (runs) "\<not> refused" stored by blast
      then show thesis
      proof cases
        case registry
        then show thesis using turn desktop_fails [OF p, of 85 "se_private s"] by (simp add: refused_def)
      next
        case storage
        then have "v' = (if sv_foreground v = app_desktop then ends 86 (v\<lparr>sv_session := s\<lparr>se_private := roots\<rparr>\<rparr>)
            else back_to_desktop Private_storage_unavailable (v\<lparr>sv_session := s\<lparr>se_private := roots\<rparr>\<rparr>))"
          using turn by simp
        then show thesis using unstored [OF p] desktop_fails [OF p, of 86 roots] by (cases "sv_foreground v = app_desktop") simp_all
      next
        case runs
        then show thesis
          using turn p run by (intro ran [OF p _ run]) (simp_all add: program_def)
      qed
    qed
  qed
qed

section \<open>The whole session\<close>

definition supervisor_inv :: "session_status \<Rightarrow> supervisor \<Rightarrow> bool" where
  "supervisor_inv base v \<longleftrightarrow>
     session_inv base (sv_session v) \<and> 0 \<le> sv_result v \<and>
     (sv_foreground v = app_desktop \<or> launchable (sv_foreground v)) \<and> (sv_exit v \<longrightarrow> sv_result v = 0) \<and>
     (if sv_break v
      then se_stop (sv_session v) \<or> sv_result v = 74 \<or>
        sv_foreground v = app_desktop \<and> sv_result v \<noteq> 0 \<and> (sv_result v \<in> {75, 85, 86} \<or> sv_failures v = 3)
      else sv_failures v < 3) \<and>
     (case sv_running v of None \<Rightarrow> True
      | Some g \<Rightarrow> foreground_inv base (sv_foreground v) (g, sv_session v) \<and> \<not> foreground_over (g, sv_session v))"

lemmas supervisor_simps = supervisor_inv_def ends_def back_to_desktop_def

lemma recover_simps [simp]:
  "sv_foreground (recover env profile faults otherwise v) = app_desktop"
  "sv_failures (recover env profile faults otherwise v) = sv_failures v"
  "sv_result (recover env profile faults otherwise v) = sv_result v"
  "sv_exit (recover env profile faults otherwise v) = sv_exit v"
  "sv_break (recover env profile faults otherwise v) = sv_break v"
  "sv_running (recover env profile faults otherwise v) = sv_running v"
  "session_inv base (sv_session (recover env profile faults otherwise v)) = session_inv base (sv_session v)"
  "se_stop (sv_session (recover env profile faults otherwise v)) = se_stop (sv_session v)"
  by (simp_all add: recover_def Let_def back_to_desktop_def split: prod.split)

lemma after_foreground_inv:
  assumes "supervisor_inv base v" "sv_running v = None" "\<not> sv_break v" "\<not> sv_exit v" "session_inv base s" "0 \<le> fo_result outcome"
    and "fo_action outcome = Action_launch \<Longrightarrow> launchable (fo_app_id outcome)"
  shows "supervisor_inv base (after_foreground env profile faults outcome (v\<lparr>sv_session := s\<rparr>))"
  using assms
  by (cases "fo_action outcome") (auto simp: after_foreground_def Let_def supervisor_simps)

lemma supervisor_turn_inv:
  assumes inv: "supervisor_inv base v" and going: "\<not> supervisor_over v" "sv_running v = None"
  shows "supervisor_inv base (supervisor_turn env r c v)"
proof -
  define v' where "v' = supervisor_turn env r c v"
  have v: "\<not> sv_break v" "\<not> sv_exit v" "session_inv base (sv_session v)" using going inv by (auto simp: supervisor_over_def supervisor_inv_def)
  then have st: "publishable (se_status (sv_session v))" "same_session base (se_status (sv_session v))" by (simp_all add: session_inv_def)
  have s: "session_inv base s" if "publish (tn_status c) (starting_status (se_status (sv_session v))) (sv_session v) = (ok, s)" for ok s
    using publish_inv [OF that v(3)] st by simp
  from v'_def have "supervisor_inv base v'"
  proof (cases rule: supervisor_turn_cases)
    case (unpublished s)
    then show ?thesis using inv going v s [OF unpublished(1)] by (simp add: supervisor_simps)
  next
    case (desktop_fails s roots ec)
    then show ?thesis using inv going v s [OF desktop_fails(1)] by (auto simp: supervisor_simps)
  next
    case (unopened s)
    then show ?thesis using inv going v s [OF unopened(1)] by (simp add: supervisor_inv_def)
  next
    case (unstored s roots)
    then show ?thesis using inv going v s [OF unstored(1)] by (simp add: supervisor_simps)
  next
    case (ran s roots program returned g s')
    let ?s = "s\<lparr>se_private := roots\<rparr>"
    note p = publishD [OF ran(1)]
    have start: "session_inv base ?s" "rn_status (se_run ?s) = Some (encode_session_status (se_status ?s))"
      "\<not> ss_input_ready (se_status ?s)"
      using s [OF ran(1)] p(1,7) by (simp_all add: starting_status_def)
    note run = run_foreground_inv [OF start ran(3)]
    show ?thesis
    proof (cases returned)
      case True
      then show ?thesis using after_foreground_inv [OF inv going(2) v(1,2) run(1,2)] run(3) ran(4) by simp
    next
      case False
      then show ?thesis using run inv v ran(2,4) by (simp add: supervisor_inv_def)
    qed
  qed
  then show ?thesis by (simp add: v'_def)
qed

lemma signalled_inv:
  assumes "supervisor_inv base v" "sv_running v = None"
  shows "supervisor_inv base (v\<lparr>sv_session := signalled b (sv_session v)\<rparr>)"
  using assms by (auto simp: supervisor_inv_def) (auto simp: signalled_def)

lemma supervisor_loop_inv: "supervisor_inv base v \<Longrightarrow> supervisor_inv base (supervisor_loop env r cs v)"
proof (induction cs arbitrary: v)
  case (Cons c cs)
  show ?case
  proof (cases "sv_running v = None")
    case True
    define v' where "v' = v\<lparr>sv_session := signalled (tn_signal c) (sv_session v)\<rparr>"
    have v': "supervisor_inv base v'" "sv_running v' = None"
      using signalled_inv [OF Cons.prems True] True by (simp_all add: v'_def)
    then show ?thesis
      using Cons.IH supervisor_turn_inv True by (simp add: Let_def v'_def [symmetric])
  qed (use Cons.prems in simp)
qed simp

lemma session_mainD:
  assumes "session_main sys env u = Inr (r, v)"
  obtains base where "supervisor_inv base v" "ss_session_pid base = up_pid u" "ss_session_nonce base = up_nonce u"
    "ss_logical_width base = sp_logical_width (vr_profile r)" "ss_logical_height base = sp_logical_height (vr_profile r)"
    "verify_active_release sys env = Inr r" "publishable base"
proof -
  obtain r' where r': "verify_active_release sys env = Inr r'"
    using assms by (auto simp: session_main_def split: sum.splits if_splits)
  define base where "base = \<lparr>ss_session_pid = up_pid u, ss_session_nonce = up_nonce u, ss_state = Session_starting,
     ss_result = 0, ss_hole_ready = False, ss_input_ready = False, ss_logical_width = sp_logical_width (vr_profile r'),
     ss_logical_height = sp_logical_height (vr_profile r')\<rparr>"
  define s where "s = \<lparr>se_managed = up_managed u, se_private = up_private u,
     se_router = new_touch_router (up_nonce u) (word_of_int (sp_logical_width (vr_profile r')))
       (word_of_int (sp_logical_height (vr_profile r'))),
     se_status = base, se_run = up_run u, se_stop = False\<rparr>"
  obtain published s' where p: "publish (up_status u) base s = (published, s')" by fastforce
  have v: published "r = r'" "v = \<lparr>sv_foreground = app_desktop, sv_notice = No_notice, sv_failures = 0, sv_result = 0,
      sv_exit = False, sv_break = False, sv_running = None, sv_session = s'\<rparr>"
    using assms p unfolding session_main_def r' sum.case Let_def base_def [symmetric] s_def [symmetric]
    by (auto split: if_splits)
  note d = publishD [OF p]
  have "sg_session_nonce (tr_sequence (se_router s')) = up_nonce u"
    by (simp add: d(2)) (simp add: s_def new_touch_router_def sequence_reset_def)
  then have "session_inv base s'"
    using d(1,6,7) v(1) by (auto simp: session_inv_def same_session_def base_def)
  then have "supervisor_inv base v" by (simp add: v(3) supervisor_inv_def)
  then show thesis using d(6) v(1,2) r' by (intro that [of base]) (simp_all add: base_def)
qed

text \<open>
  A failure of the desktop is forgotten by the desktop but not by \<open>result\<close>: a session that has recovered from
  it and is stopped between two programs still ends with the code of the failure.
\<close>

lemma recovered_failure_reported:
  assumes "sv_foreground v = app_desktop" "sv_failures v = 0" "sv_running v = None" "\<not> supervisor_over v"
    and "fo_action outcome = Action_failure" "fo_result outcome \<noteq> 0" "tn_signal c"
  shows "sv_notice (after_foreground env profile faults outcome v) = Desktop_recovered \<and>
    fst (finish calls (supervisor_loop env r [c] (after_foreground env profile faults outcome v))) = fo_result outcome"
  using assms by (simp add: after_foreground_def Let_def supervisor_over_def finish_def signalled_def)

section \<open>Properties\<close>

text \<open>C24. At every moment of a session, whatever its programs and the system do, the published status is one
  whole document of this session: its process, the nonce the touch router accepts, and the screen of the
  signed profile. While a program runs, the document says that input is ready exactly when this program has
  reported it, and no touch reaches the program before. The status the session ends with can always be
  published.\<close>

theorem session_status_truthful:
  fixes turns :: "turn list"
  assumes "session_main sys env u = Inr (r, v0)"
  defines "v \<equiv> supervisor_loop env r turns v0"
  shows "\<exists>p. rn_status (se_run (sv_session v)) = Some (encode_session_status p) \<and> publishable p \<and>
    ss_session_pid p = up_pid u \<and> ss_session_nonce p = sg_session_nonce (tr_sequence (se_router (sv_session v))) \<and>
    ss_logical_width p = sp_logical_width (vr_profile r) \<and> ss_logical_height p = sp_logical_height (vr_profile r) \<and>
    (case sv_running v of None \<Rightarrow> True
     | Some g \<Rightarrow> ss_input_ready p = fg_ready g \<and> (if fg_ready g then True else fg_touches g = [])) \<and>
    publishable (final_status (sv_result v) (se_status (sv_session v)))"
proof -
  obtain base where start: "supervisor_inv base v0" "ss_session_pid base = up_pid u"
    "ss_logical_width base = sp_logical_width (vr_profile r)" "ss_logical_height base = sp_logical_height (vr_profile r)"
    using session_mainD [OF assms(1)] by metis
  have v: "supervisor_inv base v" unfolding v_def by (rule supervisor_loop_inv [OF start(1)])
  then have s: "session_inv base (sv_session v)" "0 \<le> sv_result v" by (simp_all add: supervisor_inv_def)
  then have final: "publishable (final_status (sv_result v) (se_status (sv_session v)))" by (simp add: session_inv_def)
  show ?thesis
  proof (cases "sv_running v")
    case None
    obtain p where "rn_status (se_run (sv_session v)) = Some (encode_session_status p)" "publishable p" "same_session base p"
      using s(1) by (auto simp: session_inv_def)
    then show ?thesis using s(1) start final None by (intro exI [of _ p]) (simp add: session_inv_def same_session_def)
  next
    case (Some g)
    then have "foreground_inv base (sv_foreground v) (g, sv_session v)" "\<not> foreground_over (g, sv_session v)"
      using v by (simp_all add: supervisor_inv_def)
    then show ?thesis
      using s(1) start final Some
      by (intro exI [of _ "se_status (sv_session v)"])
        (auto simp: foreground_inv_def foreground_over_def session_inv_def same_session_def)
  qed
qed

text \<open>C14. A session ends only for a reason: a signal, the request of a program (then with the result 0), a status
  that cannot be published, or the desktop, which cannot be opened, listed or given storage, or has failed three
  times. In particular no other program ends the session by failing, whatever it does. Until then the desktop
  or a program the session may launch is in the foreground, and the desktop has failed at most twice.\<close>

theorem session_ends_for_a_reason:
  fixes turns :: "turn list"
  assumes "session_main sys env u = Inr (r, v0)"
  defines "v \<equiv> supervisor_loop env r turns v0"
  shows "if supervisor_over v
    then se_stop (sv_session v) \<or> sv_exit v \<and> sv_result v = 0 \<or> sv_result v = 74 \<or>
      sv_foreground v = app_desktop \<and> sv_result v \<noteq> 0 \<and> (sv_result v \<in> {75, 85, 86} \<or> sv_failures v = 3)
    else sv_failures v < 3 \<and> (if sv_foreground v = app_desktop then True else launchable (sv_foreground v))"
proof -
  obtain base where "supervisor_inv base v0" using session_mainD [OF assms(1)] by metis
  then have "supervisor_inv base v" unfolding v_def by (rule supervisor_loop_inv)
  then show ?thesis by (auto simp: supervisor_inv_def supervisor_over_def split: if_splits)
qed

end
