(* ===== verification/Session_Sample.thy ===== *)
theory Session_Sample
  imports Session_Supervisor Platform_Sample Installer_Sample
begin

text \<open>
  A concrete session: the running platform of the platform sample, whose desktop is started and confined, and
  whose session ends at once because the release has no program for the desktop to list; and two programs that
  share a finger.
\<close>

definition good_status :: status_calls where
  "good_status = \<lparr>tc_open = True, tc_unlink_old = True, tc_reopen = True, tc_write = True, tc_sync = True, tc_rename = True,
     tc_directory_sync = True, tc_unlink = True\<rparr>"

lemma good_publish:
  assumes "publishable st" "\<not> rn_temporary (se_run s)"
  shows "publish good_status st s =
    (True, s\<lparr>se_status := st, se_run := \<lparr>rn_status = Some (encode_session_status st), rn_temporary = False\<rparr>\<rparr>)"
proof -
  have "encode_session_status st \<noteq> []" using assms(1)
    by (simp add: encode_session_status_def profile_document_def status_fields_def profile_line_def)
  then show ?thesis using assms(2) by (simp add: publish_def atomic_status_def good_status_def Let_def)
qed

section \<open>A confined program\<close>

definition good_child :: child_calls where
  "good_child = \<lparr>px_setpgid = True, px_inherit = (\<lambda>_. True), px_open_max = 1024, px_limit = (\<lambda>_. True),
     px_parent_death = True, px_parent = 300, px_setgroups = True, px_setresgid = True, px_setresuid = True,
     px_undumpable = True, px_chdir = True, px_exec = True\<rparr>"

definition sample_descriptors :: descriptors where
  "sample_descriptors = \<lparr>ds_executable = 7, ds_control = 8, ds_touch = 9, ds_registry = 10, ds_storage = - 1,
     ds_installer = - 1, ds_drm = 11\<rparr>"

lemma platform_limits:
  "map_option (\<lambda>m. (rl_memory_mib (pm_limits m), rl_cpu_seconds (pm_limits m), rl_maximum_files (pm_limits m), rl_data_mib (pm_limits m)))
     (parse_manifest platform_document) = Some (8, 1, 1, 1)"
  by code_simp

lemma started_programs_confined_witness:
  "\<exists>x package v path. start_program good_child [(0, False), (7, True), (8, True), (12, True)] sample_profile app_desktop
      \<lparr>pp_limits = pm_limits platform_manifest, pp_private_storage = False, pp_uid = application_uid app_desktop,
       pp_gid = application_uid app_desktop\<rparr> sample_descriptors No_notice = Start_runs x \<and>
     xp_descriptors x = [0, 8] \<and> pv_ok v \<and> packaged_executable package v path (bytes_of ''abc'') \<and>
     built_in_program_path app_desktop = Some path \<and>
     xp_confinement x = Some \<lparr>cf_limits = child_limits (pm_limits (pv_manifest v)), cf_uid = application_uid app_desktop,
       cf_gid = application_uid app_desktop\<rparr>"
proof -
  let ?policy = "\<lparr>pp_limits = pm_limits platform_manifest, pp_private_storage = False, pp_uid = application_uid app_desktop,
       pp_gid = application_uid app_desktop\<rparr>"
  have limits: "rl_memory_mib (pm_limits platform_manifest) = 8" "rl_cpu_seconds (pm_limits platform_manifest) = 1"
    "rl_maximum_files (pm_limits platform_manifest) = 1" "rl_data_mib (pm_limits platform_manifest) = 1"
    using platform_limits by (simp_all add: platform_document_ok(3))
  have uid: "application_uid app_desktop \<noteq> 0" using application_uid_range [of app_desktop] by auto
  have unbound: "\<not> sp_personal_unbound sample_profile" by (simp add: sample_profile_def)
  obtain x where x: "start_program good_child [(0, False), (7, True), (8, True), (12, True)] sample_profile app_desktop
      ?policy sample_descriptors No_notice = Start_runs x" "xp_descriptors x = [0, 8]"
    using limits uid unbound
    by (simp add: start_program_def Let_def inherited_descriptors_def sample_descriptors_def good_child_def apply_child_policy_def
        list_all_iff)
  have profile: "vr_profile sample_release = sample_profile" by (simp add: sample_release_def)
  have other: "app_desktop \<noteq> app_platform" by (simp add: app_desktop_def app_platform_def)
  have opened: "open_verified_program platform_environment (vr_profile sample_release) [] empty_world sample_release app_desktop =
      Some (bytes_of ''abc'', ?policy)" by (simp add: profile desktop_opened)
  have "verify_installed_application platform_environment sample_profile empty_world app_desktop = None"
    by (simp add: verify_installed_application_def reserved_application_id_def)
  note none = this
  obtain package v path where "pv_ok v" "packaged_executable package v path (bytes_of ''abc'')"
    "if pm_app_id (pv_manifest v) = app_desktop
     then path = pm_entry (pv_manifest v) \<and>
       map_option va_package (verify_installed_application platform_environment sample_profile empty_world app_desktop) = Some package
     else pm_app_id (pv_manifest v) = app_platform \<and> pm_release_counter (pv_manifest v) = vr_counter sample_release \<and>
       built_in_program_path app_desktop = Some path"
    "xp_confinement x = Some \<lparr>cf_limits = child_limits (pm_limits (pv_manifest v)), cf_uid = application_uid app_desktop,
       cf_gid = application_uid app_desktop\<rparr>"
    using started_programs_confined [OF sample_platform_verified opened x(1) [folded profile]]
    unfolding profile if_not_P [OF unbound] by blast
  then show ?thesis using x none by (auto split: if_splits)
qed

section \<open>A session\<close>

definition session_managed :: managed where
  "session_managed = \<lparr>mg_store = \<lparr>pl_parent_trusted = True, pl_world = empty_world, pl_inbox = broken_inbox\<rparr>,
     mg_tombstones = [], mg_audit = \<lparr>al_directory = Dir_trusted, al_file = (\<lambda>_. None)\<rparr>\<rparr>"

definition session_roots :: private_roots where
  "session_roots = \<lparr>vs_apps_trusted = True, vs_root = Dir_absent, vs_directory = (\<lambda>_. Dir_absent), vs_files = (\<lambda>_. Map.empty)\<rparr>"

definition sample_startup :: startup where
  "sample_startup = \<lparr>up_arguments = True, up_hardened = True, up_run_root = True, up_socket = True, up_nonce = 7, up_pid = 300,
     up_status = good_status, up_managed = session_managed, up_private = session_roots,
     up_run = \<lparr>rn_status = None, rn_temporary = False\<rparr>\<rparr>"

definition first_status :: session_status where
  "first_status = \<lparr>ss_session_pid = 300, ss_session_nonce = 7, ss_state = Session_starting, ss_result = 0,
     ss_hole_ready = False, ss_input_ready = False, ss_logical_width = 480, ss_logical_height = 160\<rparr>"

definition first_session :: session where
  "first_session = \<lparr>se_managed = session_managed, se_private = session_roots, se_router = new_touch_router 7 480 160,
     se_status = first_status, se_run = \<lparr>rn_status = Some (encode_session_status first_status), rn_temporary = False\<rparr>,
     se_stop = False\<rparr>"

definition first_supervisor :: supervisor where
  "first_supervisor = \<lparr>sv_foreground = app_desktop, sv_notice = No_notice, sv_failures = 0, sv_result = 0, sv_exit = False,
     sv_break = False, sv_running = None, sv_session = first_session\<rparr>"

lemma first_status_ok: "publishable first_status" "starting_status first_status = first_status"
  by (simp_all add: publishable_def first_status_def starting_status_def)

lemma sample_session_starts: "session_main sample_platform platform_environment sample_startup = Inr (sample_release, first_supervisor)"
proof -
  have sizes: "sp_logical_width (vr_profile sample_release) = 480" "sp_logical_height (vr_profile sample_release) = 160"
    by (simp_all add: sample_release_def sample_profile_def)
  have p: "publish good_status first_status \<lparr>se_managed = session_managed, se_private = session_roots,
      se_router = new_touch_router 7 480 160, se_status = first_status, se_run = \<lparr>rn_status = None, rn_temporary = False\<rparr>,
      se_stop = False\<rparr> = (True, first_session)"
    by (subst good_publish) (simp_all add: first_status_ok first_session_def)
  show ?thesis
    using p by (simp add: session_main_def sample_platform_verified sizes sample_startup_def first_supervisor_def first_status_def)
qed

lemma session_status_truthful_witness:
  "\<exists>p. rn_status (se_run first_session) = Some (encode_session_status p) \<and> ss_session_pid p = 300 \<and> ss_session_nonce p = 7 \<and>
     ss_logical_width p = 480 \<and> ss_logical_height p = 160"
  using session_status_truthful [OF sample_session_starts, of "[]"]
  by (simp add: first_supervisor_def sample_startup_def sample_release_def sample_profile_def)
    (auto simp: first_session_def new_touch_router_def sequence_reset_def)

definition quiet_turn :: turn where
  "quiet_turn = \<lparr>tn_signal = False, tn_status = good_status, tn_listing = ([], True), tn_registry = True,
     tn_storage = ((True, True), (True, True)),
     tn_foreground = \<lparr>fc_sockets = True, fc_drm = True, fc_storage_buffers = True, fc_installer_options = True,
       fc_started = True, fc_time = 1000, fc_rounds = [], fc_stop = \<lparr>sk_attempts = [], sk_killed = Wait_exited 0, sk_signal = False\<rparr>\<rparr>,
     tn_rollback = snd no_faults\<rparr>"

lemma no_registry: "build_desktop_registry True platform_environment [] empty_world sample_release = None"
proof -
  have ids: "\<not> reserved_application_id app_game2048" "reserved_application_id app_installer"
    "built_in_program_path app_game2048 = Some ''bin/lvgl-2048''" "built_in_program_path app_installer = Some ''bin/lvgl-installer''"
    "session_split_path ''bin/lvgl-2048'' = [''bin'', ''lvgl-2048'']" "session_split_path ''bin/lvgl-installer'' = [''bin'', ''lvgl-installer'']"
    by code_simp+
  have load: "st_status (load_release_state ''/userdisk/apps/lvgl-app-policy'' app_game2048 sample_crypto (wo_state empty_world)) = Store_not_found"
    by code_simp
  have "find (\<lambda>f. pf_path f = path) platform_files = None" if "path = ''bin/lvgl-2048'' \<or> path = ''bin/lvgl-installer''" for path
    using that by (auto simp: platform_files_def)
  then have built_in: "open_built_in sample_release app_game2048 = None" "open_built_in sample_release app_installer = None"
    by (simp_all add: open_built_in_def ids open_executable_def sample_release_def platform_verification_def Let_def)
  have "verify_installed_application platform_environment sample_profile empty_world app_game2048 = None"
    using load by (simp add: verify_installed_application_def platform_environment_def Let_def)
  then have "desktop_applications platform_environment [] empty_world sample_release = []"
    using built_in
    by (simp add: desktop_applications_def Let_def open_program_def ids map_filter_simps) (simp add: sample_release_def)
  then show ?thesis
    by (simp add: build_desktop_registry_def Let_def encode_application_registry_def registry_failure_def rd_ok_def)
qed

lemma session_ends_for_a_reason_witness:
  "sv_result (supervisor_loop platform_environment sample_release [quiet_turn, quiet_turn] first_supervisor) = 85"
proof -
  have stop: "\<not> se_stop first_session" by (simp add: first_session_def)
  define v where "v = first_supervisor\<lparr>sv_result := 85, sv_break := True\<rparr>"
  have ids: "fst (installed_application_ids [] True (wo_payload empty_world)) = []"
    by (simp add: installed_application_ids_def empty_world_def)
  have p: "publish good_status first_status first_session = (True, first_session)"
    by (subst good_publish) (simp_all add: first_status_ok first_session_def)
  have going: "signalled False first_session = first_session" by (simp add: signalled_def first_session_def)
  have turn: "supervisor_turn platform_environment sample_release quiet_turn first_supervisor = v"
  proof -
    have f: "sv_session first_supervisor = first_session" "sv_foreground first_supervisor = app_desktop"
      "se_status first_session = first_status" "mg_world (se_managed first_session) = empty_world"
      "vr_profile sample_release = sample_profile"
      by (simp_all add: first_supervisor_def first_session_def session_managed_def sample_release_def)
    have q: "tn_status quiet_turn = good_status" "tn_listing quiet_turn = ([], True)" "tn_registry quiet_turn"
      by (simp_all add: quiet_turn_def)
    show ?thesis
      by (simp add: supervisor_turn_def f q first_status_ok p ids desktop_opened no_registry ends_def v_def)
  qed
  have loop: "supervisor_loop platform_environment sample_release [quiet_turn, quiet_turn] first_supervisor = v"
    using turn by (simp add: Let_def supervisor_over_def v_def first_supervisor_def going quiet_turn_def stop)
  have "supervisor_over v" "\<not> se_stop (sv_session v)" "\<not> sv_exit v"
    by (simp_all add: v_def supervisor_over_def first_supervisor_def first_session_def)
  then show ?thesis
    using session_ends_for_a_reason [OF sample_session_starts, of "[quiet_turn, quiet_turn]"] loop by (simp add: v_def)
qed

section \<open>Two programs and one finger\<close>

definition control_packet :: "session_control_command \<Rightarrow> bytes" where
  "control_packet command = encode_session_control \<lparr>sc_command = command, sc_result = 0, sc_app_id = []\<rparr>"

definition touch_frame_at :: "u64 \<Rightarrow> touch_phase \<Rightarrow> touch_frame" where
  "touch_frame_at sequence phase = \<lparr>tf_session_nonce = 7, tf_sequence = sequence, tf_monotonic_us = 1000, tf_phase = phase,
     tf_contact_id = 0, tf_x = 10, tf_y = 20, tf_flags = 0\<rparr>"

definition quiet_round :: poll_round where
  "quiet_round = \<lparr>po_signal = False, po_polled = Poll_ready, po_control = None, po_status = good_status, po_touch = None,
     po_touch_sent = True, po_storage = None, po_storage_sent = True, po_installer = None, po_now = 1000, po_child = Wait_running\<rparr>"

definition control_round :: "session_control_command \<Rightarrow> poll_round" where
  "control_round command = quiet_round\<lparr>po_control := Some (control_packet command)\<rparr>"

definition touch_round :: "u64 \<Rightarrow> touch_phase \<Rightarrow> poll_round" where
  "touch_round sequence phase = quiet_round\<lparr>po_touch := Some (encode_touch_frame (touch_frame_at sequence phase), 1000)\<rparr>"

definition sample_program :: "string \<Rightarrow> foreground_program" where
  "sample_program app = \<lparr>fx_id = app, fx_limits = sample_limits, fx_storage = False\<rparr>"

lemma control_packets:
  "length (control_packet Control_ready) = kSessionControlSize" "length (control_packet Control_home) = kSessionControlSize"
  "decode_session_control (control_packet Control_ready) = Some \<lparr>sc_command = Control_ready, sc_result = 0, sc_app_id = []\<rparr>"
  "decode_session_control (control_packet Control_home) = Some \<lparr>sc_command = Control_home, sc_result = 0, sc_app_id = []\<rparr>"
proof -
  show "length (control_packet Control_ready) = kSessionControlSize" "length (control_packet Control_home) = kSessionControlSize"
    by code_simp+
  have ok: "control_acceptable \<lparr>sc_command = Control_ready, sc_result = 0, sc_app_id = []\<rparr>"
    "control_acceptable \<lparr>sc_command = Control_home, sc_result = 0, sc_app_id = []\<rparr>"
    by code_simp+
  show "decode_session_control (control_packet Control_ready) = Some \<lparr>sc_command = Control_ready, sc_result = 0, sc_app_id = []\<rparr>"
    unfolding control_packet_def by (rule control_codec.decode_encode [OF ok(1)])
  show "decode_session_control (control_packet Control_home) = Some \<lparr>sc_command = Control_home, sc_result = 0, sc_app_id = []\<rparr>"
    unfolding control_packet_def by (rule control_codec.decode_encode [OF ok(2)])
qed

definition finger_router :: "u64 \<Rightarrow> u32 \<Rightarrow> touch_router" where
  "finger_router sequence contacts = \<lparr>tr_width = 480, tr_height = 160,
     tr_sequence = \<lparr>sg_session_nonce = 7, sg_last_sequence = sequence\<rparr>, tr_contacts = \<lparr>cg_active_contacts = contacts\<rparr>\<rparr>"

lemma finger_routed:
  "route (finger_router 0 0) (encode_touch_frame (touch_frame_at 1 Touch_start)) 1000 =
     (\<lparr>rr_frame = touch_frame_at 1 Touch_start, rr_error = errors_ok\<rparr>, finger_router 1 1)"
  "route (finger_router 1 1) (encode_touch_frame (touch_frame_at 2 Touch_end)) 1000 =
     (\<lparr>rr_frame = touch_frame_at 2 Touch_end, rr_error = errors_ok\<rparr>, finger_router 2 0)"
proof -
  have decoded: "td_frame (decode_touch_frame (encode_touch_frame (touch_frame_at n p)) 480 160) = touch_frame_at n p"
    "error_ok (td_error (decode_touch_frame (encode_touch_frame (touch_frame_at n p)) 480 160))"
    if "n \<noteq> 0" "valid_phase p" for n p
  proof -
    have "valid_touch_frame (touch_frame_at n p) 480 160"
      using that by (simp add: valid_touch_frame_def touch_frame_at_def kMaxTouchContactId_def)
    from touch_codec.decode_encode [OF this]
    show "td_frame (decode_touch_frame (encode_touch_frame (touch_frame_at n p)) 480 160) = touch_frame_at n p"
      "error_ok (td_error (decode_touch_frame (encode_touch_frame (touch_frame_at n p)) 480 160))"
      by (auto simp: decoded_touch_frame_def Let_def split: if_splits)
  qed
  have fresh: "touch_timestamp_fresh (touch_frame_at n p) 1000 kMaximumAgeUs kMaximumFutureUs" for n p
    by (simp add: touch_timestamp_fresh_def touch_frame_at_def)
  have ok: "error_ok errors_ok" by code_simp
  show "route (finger_router 0 0) (encode_touch_frame (touch_frame_at 1 Touch_start)) 1000 =
     (\<lparr>rr_frame = touch_frame_at 1 Touch_start, rr_error = errors_ok\<rparr>, finger_router 1 1)"
    "route (finger_router 1 1) (encode_touch_frame (touch_frame_at 2 Touch_end)) 1000 =
     (\<lparr>rr_frame = touch_frame_at 2 Touch_end, rr_error = errors_ok\<rparr>, finger_router 2 0)"
    by (simp_all add: route_def finger_router_def decoded fresh ok Let_def sequence_accept_def contact_accept_def
        contact_mask_def kMaxTouchContactId_def)
      (simp_all add: touch_frame_at_def word_le_nat_alt)
qed

lemmas round_simps = foreground_round_def Let_def guarded_def control_round_def touch_round_def quiet_round_def sample_program_def
  deadline_step_def child_step_def control_step_def touch_step_def

lemma loop_step:
  assumes "\<not> fg_broken g" "\<not> fg_exited g" "\<not> fg_requested g" "\<not> se_stop s" "\<not> po_signal r"
    and "foreground_round env profile program deadline r (g, s) = x"
  shows "foreground_loop env profile program deadline (r # rs) (g, s) = foreground_loop env profile program deadline rs x"
proof -
  have "signalled (po_signal r) s = s" using assms(4,5) by (cases s) (simp add: signalled_def)
  then show ?thesis using assms by (simp add: Let_def foreground_over_def)
qed

lemma loop_requested:
  "fg_requested g \<Longrightarrow> \<not> po_signal r \<Longrightarrow> foreground_loop env profile program deadline (r # rs) (g, s) = (g, s)"
  by (cases s) (simp add: Let_def foreground_over_def signalled_def)

lemma rounds_quiet [simp]: "\<not> po_signal (control_round c)" "\<not> po_signal (touch_round n p)" "\<not> po_signal quiet_round"
  by (simp_all add: control_round_def touch_round_def quiet_round_def)

lemma ready_round:
  assumes "app \<noteq> app_installer" "publishable (se_status s)" "\<not> rn_temporary (se_run s)"
  shows "foreground_round env profile (sample_program app) 5000 (control_round Control_ready) (new_foreground, s) =
    (new_foreground\<lparr>fg_ready := True\<rparr>, s\<lparr>se_status := ready_status (se_status s),
       se_run := \<lparr>rn_status = Some (encode_session_status (ready_status (se_status s))), rn_temporary = False\<rparr>\<rparr>)"
  using good_publish [of "ready_status (se_status s)" s] assms
  by (simp add: round_simps control_packets new_foreground_def)

lemma finger_round:
  assumes "app \<noteq> app_installer" "fg_ready g" "\<not> fg_broken g"
    and "route (se_router s) (encode_touch_frame (touch_frame_at n p)) 1000 = (\<lparr>rr_frame = f, rr_error = errors_ok\<rparr>, router)"
  shows "foreground_round env profile (sample_program app) 5000 (touch_round n p) (g, s) =
    (g\<lparr>fg_touches := fg_touches g @ [f]\<rparr>, s\<lparr>se_router := router\<rparr>)"
proof -
  have "error_ok errors_ok" by code_simp
  then show ?thesis using assms by (simp add: round_simps)
qed

lemma home_round:
  assumes "app \<noteq> app_installer" "app \<noteq> app_desktop" "fg_ready g" "\<not> fg_broken g"
  shows "foreground_round env profile (sample_program app) 5000 (control_round Control_home) (g, s) =
    (requests Action_home (fo_app_id (fg_outcome g)) g, s)"
  using assms by (simp add: round_simps control_packets)

text \<open>C34. The contacts survive a change of the program: a finger that is down when a program goes home is lifted on the
  desktop, which so gets the end of a gesture it never saw the start of.
\<close>

theorem touch_contacts_outlive_program:
  "let run = (\<lambda>app rounds s. foreground_loop platform_environment sample_profile (sample_program app) 5000 rounds (new_foreground, s));
       (game, s) = run app_game2048 [control_round Control_ready, touch_round 1 Touch_start, control_round Control_home, quiet_round] first_session;
       (desktop, s') = run app_desktop [control_round Control_ready, touch_round 2 Touch_end] s
   in fo_action (fg_outcome game) = Action_home \<and> fg_touches game = [touch_frame_at 1 Touch_start] \<and>
      fg_touches desktop = [touch_frame_at 2 Touch_end] \<and> \<not> lifecycle False (phases_of 0 (fg_touches desktop))"
proof -
  have ids: "app_game2048 \<noteq> app_installer" "app_desktop \<noteq> app_installer" "app_game2048 \<noteq> app_desktop" by code_simp+
  let ?loop = "\<lambda>app. foreground_loop platform_environment sample_profile (sample_program app) 5000"
  define ready :: "session \<Rightarrow> session" where "ready = (\<lambda>s. s\<lparr>se_status := ready_status first_status,
     se_run := \<lparr>rn_status = Some (encode_session_status (ready_status first_status)), rn_temporary = False\<rparr>\<rparr>)"
  define g where "g = new_foreground\<lparr>fg_ready := True\<rparr>"
  define game where "game = requests Action_home [] (g\<lparr>fg_touches := [touch_frame_at 1 Touch_start]\<rparr>)"
  define s1 where "s1 = (ready first_session)\<lparr>se_router := finger_router 1 1\<rparr>"
  have g: "fg_ready g" "\<not> fg_broken g" "\<not> fg_exited g" "\<not> fg_requested g" "fg_touches g = []" "fo_app_id (fg_outcome g) = []"
    "\<not> fg_broken new_foreground" "\<not> fg_exited new_foreground" "\<not> fg_requested new_foreground"
    by (simp_all add: g_def new_foreground_def)
  have first: "publishable (se_status first_session)" "\<not> rn_temporary (se_run first_session)" "se_status first_session = first_status"
    "\<not> se_stop first_session" "se_router first_session = finger_router 0 0"
    by (simp_all add: first_session_def first_status_ok new_touch_router_def finger_router_def sequence_reset_def contacts_reset_def)
  have ready: "foreground_round platform_environment sample_profile (sample_program app) 5000 (control_round Control_ready)
      (new_foreground, s) = (g, ready s)"
    if "app \<noteq> app_installer" "\<not> rn_temporary (se_run s)" "se_status s \<in> {first_status, ready_status first_status}" for app s
  proof -
    have "publishable (se_status s)" "ready_status (se_status s) = ready_status first_status"
      using that(3) first_status_ok(1) by (auto simp: ready_status_def [of "ready_status _"]) (simp_all add: ready_status_def)
    then show ?thesis using ready_round [OF that(1) _ that(2)] by (simp add: g_def ready_def)
  qed
  have router: "se_router (ready s) = se_router s" "se_stop (ready s) = se_stop s" for s by (simp_all add: ready_def)
  have game_run: "?loop app_game2048 [control_round Control_ready, touch_round 1 Touch_start, control_round Control_home, quiet_round]
      (new_foreground, first_session) = (game, s1)"
  proof -
    have touched: "foreground_round platform_environment sample_profile (sample_program app_game2048) 5000 (touch_round 1 Touch_start)
        (g, ready first_session) = (g\<lparr>fg_touches := [touch_frame_at 1 Touch_start]\<rparr>, s1)"
      using finger_round [OF ids(1) g(1,2)] finger_routed(1) first(5) router g(5) by (simp add: s1_def)
    have home: "foreground_round platform_environment sample_profile (sample_program app_game2048) 5000 (control_round Control_home)
        (g\<lparr>fg_touches := [touch_frame_at 1 Touch_start]\<rparr>, s1) = (game, s1)"
      using home_round [OF ids(1,3)] g by (simp add: game_def)
    have stop: "\<not> se_stop (ready first_session)" "\<not> se_stop s1" "fg_requested game"
      using first(4) router by (simp_all add: s1_def game_def requests_def)
    have start: "foreground_round platform_environment sample_profile (sample_program app_game2048) 5000 (control_round Control_ready)
        (new_foreground, first_session) = (g, ready first_session)"
      by (intro ready ids first) (simp add: first)
    show ?thesis
      by (subst loop_step [OF g(7-9) first(4) _ start], simp, subst loop_step [OF g(2-4) stop(1) _ touched], simp,
          subst loop_step [OF _ _ _ stop(2) _ home]) (simp_all add: g loop_requested [OF stop(3)] del: foreground_loop.simps)
  qed
  have "?loop app_desktop [control_round Control_ready, touch_round 2 Touch_end] (new_foreground, s1) =
      (g\<lparr>fg_touches := [touch_frame_at 2 Touch_end]\<rparr>, (ready s1)\<lparr>se_router := finger_router 2 0\<rparr>)"
  proof -
    have s1: "\<not> rn_temporary (se_run s1)" "se_status s1 = ready_status first_status" "\<not> se_stop s1" "se_router (ready s1) = finger_router 1 1"
      using first(4) by (simp_all add: s1_def ready_def)
    then have lifted: "foreground_round platform_environment sample_profile (sample_program app_desktop) 5000 (touch_round 2 Touch_end)
        (g, ready s1) = (g\<lparr>fg_touches := [touch_frame_at 2 Touch_end]\<rparr>, (ready s1)\<lparr>se_router := finger_router 2 0\<rparr>)"
      using finger_round [OF ids(2) g(1,2)] finger_routed(2) g(5) by simp
    have start: "foreground_round platform_environment sample_profile (sample_program app_desktop) 5000 (control_round Control_ready)
        (new_foreground, s1) = (g, ready s1)"
      by (intro ready ids s1) (simp add: s1)
    have stop: "\<not> se_stop (ready s1)" using s1 router by simp
    show ?thesis
      by (subst loop_step [OF g(7-9) s1(3) _ start], simp, subst loop_step [OF g(2-4) stop _ lifted]) simp_all
  qed
  with game_run show ?thesis
    by (simp add: Let_def game_def requests_def phases_of_def touch_frame_at_def)
qed

end
