(* ===== verification/Device_Profile.thy ===== *)
theory Device_Profile
  imports Json Errors "HOL-Library.Monad_Syntax"
begin

text \<open>
  Device profiles and screen geometry: the profile document of the platform library
  (\<open>platform/src/profile/device_profile.cpp\<close>), its selection for a device and its rotations, and the
  profile compiled into the application runtime (\<open>src/platform/device_profile/device_profile.cpp\<close>).
  Coordinates are mathematical integers; those of a parsed profile are at most 8192 in size.
\<close>

section \<open>Points and transforms\<close>

record point =
  pt_x :: int
  pt_y :: int

record screen_size =
  sz_width :: int
  sz_height :: int

record transform =
  tm_degrees :: nat
  tm_offset_x :: int
  tm_offset_y :: int

definition clamp_axis :: "int \<Rightarrow> int \<Rightarrow> int" where
  "clamp_axis v n = (if v < 0 then 0 else if n - 1 < v then n - 1 else v)"

definition rotate_logical :: "point \<Rightarrow> screen_size \<Rightarrow> transform \<Rightarrow> point" where
  "rotate_logical p logical t =
     (let x = clamp_axis (pt_x p) (sz_width logical);
          y = clamp_axis (pt_y p) (sz_height logical);
          dx = tm_offset_x t; dy = tm_offset_y t
      in if tm_degrees t = 0 then \<lparr>pt_x = dx + x, pt_y = dy + y\<rparr>
         else if tm_degrees t = 90 then \<lparr>pt_x = dx + sz_height logical - 1 - y, pt_y = dy + x\<rparr>
         else if tm_degrees t = 180
         then \<lparr>pt_x = dx + sz_width logical - 1 - x, pt_y = dy + sz_height logical - 1 - y\<rparr>
         else if tm_degrees t = 270 then \<lparr>pt_x = dx + y, pt_y = dy + sz_width logical - 1 - x\<rparr>
         else \<lparr>pt_x = 0, pt_y = 0\<rparr>)"

definition inverse_rotate :: "point \<Rightarrow> screen_size \<Rightarrow> transform \<Rightarrow> point" where
  "inverse_rotate p logical t =
     (let x = pt_x p - tm_offset_x t; y = pt_y p - tm_offset_y t;
          clamped = (\<lambda>a b. \<lparr>pt_x = clamp_axis a (sz_width logical), pt_y = clamp_axis b (sz_height logical)\<rparr>)
      in if tm_degrees t = 0 then clamped x y
         else if tm_degrees t = 90 then clamped y (sz_height logical - 1 - x)
         else if tm_degrees t = 180 then clamped (sz_width logical - 1 - x) (sz_height logical - 1 - y)
         else if tm_degrees t = 270 then clamped (sz_width logical - 1 - y) x
         else \<lparr>pt_x = 0, pt_y = 0\<rparr>)"

section \<open>Profiles\<close>

record device_identity =
  id_model :: string
  id_firmware :: string
  id_pcba :: string
  id_machine :: string
  id_libc :: string
  id_bits :: nat

record device_profile =
  dp_id :: string
  dp_match :: device_identity
  dp_logical :: screen_size
  dp_physical :: screen_size
  dp_display :: transform
  dp_touch :: transform
  dp_drm_device :: string
  dp_connector :: string
  dp_touch_name :: string
  dp_pixel_format :: string
  dp_requires_overlay_plane :: bool
  dp_requires_touch_forwarding :: bool

definition logical_to_physical :: "point \<Rightarrow> device_profile \<Rightarrow> point" where
  "logical_to_physical p profile = rotate_logical p (dp_logical profile) (dp_display profile)"

definition physical_touch_to_logical :: "point \<Rightarrow> device_profile \<Rightarrow> point" where
  "physical_touch_to_logical p profile = inverse_rotate p (dp_logical profile) (dp_touch profile)"

section \<open>The profile document\<close>

definition has_only_members :: "json \<Rightarrow> string list \<Rightarrow> bool" where
  "has_only_members v allowed =
     (case v of JObject ms \<Rightarrow> list_all (\<lambda>(name, _). name \<in> set allowed) ms | _ \<Rightarrow> False)"

definition read_string :: "json \<Rightarrow> string \<Rightarrow> string option" where
  "read_string v key = string_value (json_member v key) 255 False"

text \<open>\<open>IsInt\<close> / \<open>GetInt\<close>.\<close>

definition int_value :: "json option \<Rightarrow> int option" where
  "int_value v =
     (case v of Some (JInt n) \<Rightarrow> if - (2 ^ 31) \<le> n \<and> n < 2 ^ 31 then Some n else None | _ \<Rightarrow> None)"

definition read_positive_int :: "json \<Rightarrow> string \<Rightarrow> int option" where
  "read_positive_int v key =
     (case int_value (json_member v key) of None \<Rightarrow> None
      | Some n \<Rightarrow> if 0 < n \<and> n \<le> 8192 then Some n else None)"

definition read_int :: "json \<Rightarrow> string \<Rightarrow> int option" where
  "read_int v key =
     (case int_value (json_member v key) of None \<Rightarrow> None
      | Some n \<Rightarrow> if - 8192 \<le> n \<and> n \<le> 8192 then Some n else None)"

definition read_bool :: "json \<Rightarrow> string \<Rightarrow> bool option" where
  "read_bool v key = (case json_member v key of Some (JBool b) \<Rightarrow> Some b | _ \<Rightarrow> None)"

definition read_object :: "json \<Rightarrow> string \<Rightarrow> json option" where
  "read_object v key =
     (case json_member v key of Some m \<Rightarrow> if is_object m then Some m else None | None \<Rightarrow> None)"

definition read_size :: "json \<Rightarrow> screen_size option" where
  "read_size v = do {
     width \<leftarrow> read_positive_int v ''width'';
     height \<leftarrow> read_positive_int v ''height'';
     Some \<lparr>sz_width = width, sz_height = height\<rparr> }"

definition read_transform :: "json \<Rightarrow> transform option" where
  "read_transform v = do {
     degrees \<leftarrow> read_int v ''clockwiseDegrees'';
     (if degrees \<noteq> 0 \<and> degrees \<noteq> 90 \<and> degrees \<noteq> 180 \<and> degrees \<noteq> 270 then None else Some ());
     x \<leftarrow> read_int v ''offsetX'';
     y \<leftarrow> read_int v ''offsetY'';
     Some \<lparr>tm_degrees = nat degrees, tm_offset_x = x, tm_offset_y = y\<rparr> }"

text \<open>The members of the document, without \<open>bits\<close> and the check of the corners.\<close>

definition read_profile :: "json \<Rightarrow> device_profile option" where
  "read_profile d = do {
     matched \<leftarrow> read_object d ''match'';
     logical \<leftarrow> read_object d ''logicalScreen'';
     physical \<leftarrow> read_object d ''physicalScreen'';
     display \<leftarrow> read_object d ''displayTransform'';
     touch \<leftarrow> read_object d ''touchTransform'';
     devices \<leftarrow> read_object d ''devices'';
     requirements \<leftarrow> read_object d ''requirements'';
     certification \<leftarrow> read_object d ''certification'';
     (if has_only_members d [''schemaVersion'', ''profileId'', ''match'', ''logicalScreen'', ''physicalScreen'',
           ''displayTransform'', ''touchTransform'', ''devices'', ''requirements'', ''certification''] \<and>
         has_only_members matched [''model'', ''firmware'', ''pcba'', ''machine'', ''libc'', ''bits''] \<and>
         has_only_members logical [''width'', ''height''] \<and> has_only_members physical [''width'', ''height''] \<and>
         has_only_members display [''clockwiseDegrees'', ''offsetX'', ''offsetY''] \<and>
         has_only_members touch [''clockwiseDegrees'', ''offsetX'', ''offsetY''] \<and>
         has_only_members devices [''drm'', ''connector'', ''touchName'', ''pixelFormat''] \<and>
         has_only_members requirements [''overlayPlane'', ''falconTouchForwarding'']
      then Some () else None);
     profile_id \<leftarrow> read_string d ''profileId'';
     model \<leftarrow> read_string matched ''model'';
     firmware \<leftarrow> read_string matched ''firmware'';
     pcba \<leftarrow> read_string matched ''pcba'';
     machine \<leftarrow> read_string matched ''machine'';
     libc \<leftarrow> read_string matched ''libc'';
     logical_size \<leftarrow> read_size logical;
     physical_size \<leftarrow> read_size physical;
     display_transform \<leftarrow> read_transform display;
     touch_transform \<leftarrow> read_transform touch;
     drm \<leftarrow> read_string devices ''drm'';
     connector \<leftarrow> read_string devices ''connector'';
     touch_name \<leftarrow> read_string devices ''touchName'';
     pixel_format \<leftarrow> read_string devices ''pixelFormat'';
     overlay \<leftarrow> read_bool requirements ''overlayPlane'';
     forwarding \<leftarrow> read_bool requirements ''falconTouchForwarding'';
     Some \<lparr>dp_id = profile_id,
       dp_match = \<lparr>id_model = model, id_firmware = firmware, id_pcba = pcba, id_machine = machine, id_libc = libc, id_bits = 0\<rparr>,
       dp_logical = logical_size, dp_physical = physical_size, dp_display = display_transform, dp_touch = touch_transform,
       dp_drm_device = drm, dp_connector = connector, dp_touch_name = touch_name, dp_pixel_format = pixel_format,
       dp_requires_overlay_plane = overlay, dp_requires_touch_forwarding = forwarding\<rparr> }"

definition on_screen :: "screen_size \<Rightarrow> point \<Rightarrow> bool" where
  "on_screen s p \<longleftrightarrow> \<not> (pt_x p < 0 \<or> pt_y p < 0 \<or> sz_width s \<le> pt_x p \<or> sz_height s \<le> pt_y p)"

definition corners :: "screen_size \<Rightarrow> point list" where
  "corners s = [\<lparr>pt_x = 0, pt_y = 0\<rparr>, \<lparr>pt_x = sz_width s - 1, pt_y = 0\<rparr>, \<lparr>pt_x = 0, pt_y = sz_height s - 1\<rparr>,
     \<lparr>pt_x = sz_width s - 1, pt_y = sz_height s - 1\<rparr>]"

definition parse_device_profile :: "(string \<Rightarrow> json option) \<Rightarrow> string \<Rightarrow> error_code \<times> string + device_profile" where
  "parse_device_profile parse text_json =
     (if text_json = [] \<or> 64 * 1024 < length text_json
      then Inl (profile_invalid, ''profile length is outside the allowed range'')
      else case parse text_json of None \<Rightarrow> Inl (profile_invalid, ''profile is not valid JSON object data'')
      | Some d \<Rightarrow>
        if \<not> is_object d then Inl (profile_invalid, ''profile is not valid JSON object data'')
        else if uint_value (json_member d ''schemaVersion'') \<noteq> Some 1
        then Inl (profile_unsupported_schema, ''unsupported profile schema version'')
        else case read_profile d of
          None \<Rightarrow> Inl (profile_invalid, ''profile is missing a required field or contains an invalid value'')
        | Some p \<Rightarrow>
          let bits = (case read_object d ''match'' of None \<Rightarrow> None | Some m \<Rightarrow> uint_value (json_member m ''bits''))
          in if bits \<noteq> Some 32 \<and> bits \<noteq> Some 64 then Inl (profile_invalid, ''profile bits must be 32 or 64'')
             else let p = p\<lparr>dp_match := (dp_match p)\<lparr>id_bits := nat (the bits)\<rparr>\<rparr>
                  in if list_all (\<lambda>c. on_screen (dp_physical p) (logical_to_physical c p)) (corners (dp_logical p))
                     then Inr p
                     else Inl (profile_invalid, ''display transform falls outside the physical screen''))"

section \<open>Selection\<close>

definition profile_matches :: "device_profile \<Rightarrow> device_identity \<Rightarrow> bool" where
  "profile_matches p i \<longleftrightarrow>
     id_model (dp_match p) = id_model i \<and> id_firmware (dp_match p) = id_firmware i \<and> id_pcba (dp_match p) = id_pcba i \<and>
     id_machine (dp_match p) = id_machine i \<and> id_libc (dp_match p) = id_libc i \<and> id_bits (dp_match p) = id_bits i"

text \<open>The loop over the profiles, with the selection so far.\<close>

fun select_loop :: "device_profile list \<Rightarrow> device_identity \<Rightarrow> device_profile option \<times> error_code \<Rightarrow> device_profile option \<times> error_code" where
  "select_loop [] i selection = selection"
| "select_loop (p # ps) i (selected, error) =
     (if \<not> profile_matches p i then select_loop ps i (selected, error)
      else if selected \<noteq> None then (None, profile_ambiguous)
      else select_loop ps i (Some p, errors_ok))"

definition select_device_profile :: "device_profile list \<Rightarrow> device_identity \<Rightarrow> device_profile option \<times> error_code" where
  "select_device_profile profiles i = select_loop profiles i (None, profile_no_match)"

section \<open>The profile of the runtime\<close>

record runtime_profile =
  rp_id :: string
  rp_sku :: string
  rp_drm_device :: string
  rp_connector_name :: string
  rp_touch_name :: string
  rp_physical_width :: int
  rp_physical_height :: int
  rp_logical_width :: int
  rp_logical_height :: int
  rp_display_cross_axis_offset :: int
  rp_touch_cross_axis_offset :: int

definition kY01Profile :: runtime_profile where
  "kY01Profile = \<lparr>rp_id = ''youdao-y01-4.8.6'', rp_sku = ''OVERHEAD_Y01_SKU_CHN_PRO'', rp_drm_device = ''/dev/dri/card0'',
     rp_connector_name = ''DSI-1'', rp_touch_name = ''hyn_ts'', rp_physical_width = 480, rp_physical_height = 960,
     rp_logical_width = 960, rp_logical_height = 266, rp_display_cross_axis_offset = 107, rp_touch_cross_axis_offset = 113\<rparr>"

definition runtime_logical_to_physical :: "point \<Rightarrow> runtime_profile \<Rightarrow> point" where
  "runtime_logical_to_physical p profile =
     (let x = clamp_axis (pt_x p) (rp_logical_width profile); y = clamp_axis (pt_y p) (rp_logical_height profile)
      in \<lparr>pt_x = rp_display_cross_axis_offset profile + y, pt_y = rp_logical_width profile - 1 - x\<rparr>)"

definition raw_touch_to_logical :: "point \<Rightarrow> runtime_profile \<Rightarrow> point" where
  "raw_touch_to_logical raw profile =
     \<lparr>pt_x = clamp_axis (rp_physical_height profile - 1 - pt_y raw) (rp_logical_width profile),
      pt_y = clamp_axis (pt_x raw - rp_touch_cross_axis_offset profile) (rp_logical_height profile)\<rparr>"

section \<open>Geometry\<close>

lemma clamp_axis_bounds: "0 < n \<Longrightarrow> 0 \<le> clamp_axis v n \<and> clamp_axis v n < n"
  by (simp add: clamp_axis_def)

lemma clamp_axis_id [simp]: "0 \<le> v \<Longrightarrow> v < n \<Longrightarrow> clamp_axis v n = v"
  by (simp add: clamp_axis_def)

definition right_angle :: "transform \<Rightarrow> bool" where
  "right_angle t \<longleftrightarrow> tm_degrees t \<in> {0, 90, 180, 270}"

text \<open>The coordinates of a rotated point lie between those of the corners: four corners on a screen are enough.\<close>

lemma rotate_between_corners:
  assumes "0 < sz_width l" "0 < sz_height l" "right_angle t"
    and "list_all (\<lambda>c. on_screen s (rotate_logical c l t)) (corners l)"
  shows "on_screen s (rotate_logical p l t)"
proof -
  have x: "0 \<le> clamp_axis (pt_x p) (sz_width l) \<and> clamp_axis (pt_x p) (sz_width l) < sz_width l"
    and y: "0 \<le> clamp_axis (pt_y p) (sz_height l) \<and> clamp_axis (pt_y p) (sz_height l) < sz_height l"
    using assms(1,2) clamp_axis_bounds by blast+
  consider "tm_degrees t = 0" | "tm_degrees t = 90" | "tm_degrees t = 180" | "tm_degrees t = 270"
    using assms(3) by (auto simp: right_angle_def)
  then show ?thesis
    by cases (use assms(1,2,4) x y in \<open>simp_all add: corners_def rotate_logical_def on_screen_def Let_def\<close>)
qed

lemma inverse_rotate_on_screen:
  assumes "0 < sz_width l" "0 < sz_height l"
  shows "on_screen l (inverse_rotate p l t)"
  using assms clamp_axis_bounds by (auto simp: inverse_rotate_def on_screen_def Let_def not_less not_le)

lemma inverse_rotate_rotate:
  assumes "right_angle t" "on_screen l p"
  shows "inverse_rotate (rotate_logical p l t) l t = p"
proof -
  have p: "0 \<le> pt_x p" "pt_x p < sz_width l" "0 \<le> pt_y p" "pt_y p < sz_height l"
    using assms(2) by (simp_all add: on_screen_def)
  consider "tm_degrees t = 0" | "tm_degrees t = 90" | "tm_degrees t = 180" | "tm_degrees t = 270"
    using assms(1) by (auto simp: right_angle_def)
  then show ?thesis by cases (use p in \<open>simp_all add: inverse_rotate_def rotate_logical_def Let_def\<close>)
qed

section \<open>What a profile guarantees\<close>

lemma read_sizeD: "read_size v = Some s \<Longrightarrow> 0 < sz_width s \<and> sz_width s \<le> 8192 \<and> 0 < sz_height s \<and> sz_height s \<le> 8192"
  by (auto simp: read_size_def read_positive_int_def Option.bind_eq_Some_conv split: option.splits if_splits)

lemma read_transformD: "read_transform v = Some t \<Longrightarrow> right_angle t"
  by (auto simp: read_transform_def right_angle_def Option.bind_eq_Some_conv split: if_splits)

lemma read_profileD:
  assumes "read_profile d = Some p"
  shows "0 < sz_width (dp_logical p) \<and> 0 < sz_height (dp_logical p) \<and> right_angle (dp_display p) \<and> right_angle (dp_touch p)"
  using assms unfolding read_profile_def Option.bind_eq_Some_conv
  by (elim exE conjE) (drule read_sizeD read_transformD option.inject [THEN iffD1], clarsimp)+

lemma parse_device_profileD:
  assumes "parse_device_profile parse text_json = Inr p"
  shows "0 < sz_width (dp_logical p)" "0 < sz_height (dp_logical p)" "right_angle (dp_display p)" "right_angle (dp_touch p)"
    "list_all (\<lambda>c. on_screen (dp_physical p) (logical_to_physical c p)) (corners (dp_logical p))"
proof -
  obtain d q bits where "read_profile d = Some q" "p = q\<lparr>dp_match := (dp_match q)\<lparr>id_bits := bits\<rparr>\<rparr>"
    and ok: "list_all (\<lambda>c. on_screen (dp_physical p) (logical_to_physical c p)) (corners (dp_logical p))"
    using assms by (auto simp: parse_device_profile_def Let_def split: if_splits option.splits)
  then show "0 < sz_width (dp_logical p)" "0 < sz_height (dp_logical p)" "right_angle (dp_display p)" "right_angle (dp_touch p)"
    using read_profileD by simp_all
  show "list_all (\<lambda>c. on_screen (dp_physical p) (logical_to_physical c p)) (corners (dp_logical p))" by (rule ok)
qed

lemma select_loop_exact:
  "select_loop ps i (selected, error) =
    (case selected of
       None \<Rightarrow> (case filter (\<lambda>p. profile_matches p i) ps of [] \<Rightarrow> (None, error) | [p] \<Rightarrow> (Some p, errors_ok) | _ \<Rightarrow> (None, profile_ambiguous))
     | Some s \<Rightarrow> (case filter (\<lambda>p. profile_matches p i) ps of [] \<Rightarrow> (Some s, error) | _ \<Rightarrow> (None, profile_ambiguous)))"
  by (induction ps arbitrary: selected error) (auto split: option.splits list.splits)

text \<open>A profile is selected exactly when it is the only one of the list that matches the device.\<close>

lemma select_device_profile_exact:
  "select_device_profile profiles i =
    (case filter (\<lambda>p. profile_matches p i) profiles of
       [] \<Rightarrow> (None, profile_no_match) | [p] \<Rightarrow> (Some p, errors_ok) | _ \<Rightarrow> (None, profile_ambiguous))"
  by (simp add: select_device_profile_def select_loop_exact)

section \<open>The profile of the device\<close>

text \<open>\<open>profiles/y01-4.8.6.json\<close>.\<close>

definition y01_document :: json where
  "y01_document = JObject
    [(''schemaVersion'', JInt 1), (''profileId'', JString ''youdao-y01-4.8.6''),
     (''match'', JObject [(''model'', JString ''OVERHEAD_Y01_SKU_CHN_PRO''), (''firmware'', JString ''4.8.6''),
        (''pcba'', JString ''RK3562_Orange_V0''), (''machine'', JString ''aarch64''), (''libc'', JString ''glibc-2.36''), (''bits'', JInt 64)]),
     (''logicalScreen'', JObject [(''width'', JInt 960), (''height'', JInt 266)]),
     (''physicalScreen'', JObject [(''width'', JInt 480), (''height'', JInt 960)]),
     (''displayTransform'', JObject [(''clockwiseDegrees'', JInt 270), (''offsetX'', JInt 107), (''offsetY'', JInt 0)]),
     (''touchTransform'', JObject [(''clockwiseDegrees'', JInt 270), (''offsetX'', JInt 113), (''offsetY'', JInt 0)]),
     (''devices'', JObject [(''drm'', JString ''/dev/dri/card0''), (''connector'', JString ''DSI-1''),
        (''touchName'', JString ''hyn_ts''), (''pixelFormat'', JString ''XRGB8888'')]),
     (''requirements'', JObject [(''overlayPlane'', JBool True), (''falconTouchForwarding'', JBool True)]),
     (''certification'', JObject [(''status'', JString ''legacy-poc-evidence''), (''firmwareBuild'', JString ''2025-11-13''),
        (''evidence'', JArray [JString ''docs/m5-evaluation.md'', JString ''docs/launcher-evaluation.md'']),
        (''holeSessionCertified'', JBool False)])]"

definition y01_profile :: device_profile where
  "y01_profile = \<lparr>dp_id = ''youdao-y01-4.8.6'',
     dp_match = \<lparr>id_model = ''OVERHEAD_Y01_SKU_CHN_PRO'', id_firmware = ''4.8.6'', id_pcba = ''RK3562_Orange_V0'',
       id_machine = ''aarch64'', id_libc = ''glibc-2.36'', id_bits = 64\<rparr>,
     dp_logical = \<lparr>sz_width = 960, sz_height = 266\<rparr>, dp_physical = \<lparr>sz_width = 480, sz_height = 960\<rparr>,
     dp_display = \<lparr>tm_degrees = 270, tm_offset_x = 107, tm_offset_y = 0\<rparr>,
     dp_touch = \<lparr>tm_degrees = 270, tm_offset_x = 113, tm_offset_y = 0\<rparr>,
     dp_drm_device = ''/dev/dri/card0'', dp_connector = ''DSI-1'', dp_touch_name = ''hyn_ts'', dp_pixel_format = ''XRGB8888'',
     dp_requires_overlay_plane = True, dp_requires_touch_forwarding = True\<rparr>"

lemmas reading_simps = json_member_def read_object_def read_string_def string_value_def read_positive_int_def read_int_def
  read_bool_def int_value_def uint_value_def read_size_def read_transform_def has_only_members_def

lemma y01_read: "read_profile y01_document = Some (y01_profile\<lparr>dp_match := (dp_match y01_profile)\<lparr>id_bits := 0\<rparr>\<rparr>)"
  by (simp add: y01_document_def read_profile_def reading_simps y01_profile_def)

lemma y01_parsed: "parse_device_profile (\<lambda>_. Some y01_document) ''{}'' = Inr y01_profile"
proof -
  have schema: "is_object y01_document" "uint_value (json_member y01_document ''schemaVersion'') = Some 1"
    "(case read_object y01_document ''match'' of None \<Rightarrow> None | Some m \<Rightarrow> uint_value (json_member m ''bits'')) = Some 64"
    by (simp_all add: y01_document_def reading_simps)
  show ?thesis
    unfolding parse_device_profile_def y01_read option.case schema Let_def
    by (simp add: schema) (simp add: y01_profile_def corners_def logical_to_physical_def rotate_logical_def on_screen_def)
qed

section \<open>Properties\<close>

text \<open>C23. Every profile the platform accepts maps its whole logical screen onto the physical one (the code checks
  the four corners only), the touch rotation takes a point back where the display rotation put it, and every
  touch, wherever it is reported, falls on the logical screen.\<close>

theorem profile_maps_screen:
  assumes "parse_device_profile parse text_json = Inr p"
  shows "on_screen (dp_physical p) (logical_to_physical q p) \<and>
    (if on_screen (dp_logical p) q then inverse_rotate (logical_to_physical q p) (dp_logical p) (dp_display p) = q else True) \<and>
    on_screen (dp_logical p) (physical_touch_to_logical r p)"
proof -
  note p = parse_device_profileD [OF assms]
  show ?thesis
    using rotate_between_corners [OF p(1,2,3), of "dp_physical p" q] p(5) inverse_rotate_rotate [OF p(3)]
      inverse_rotate_on_screen [OF p(1,2)]
    by (simp add: logical_to_physical_def physical_touch_to_logical_def)
qed

lemma profile_maps_screen_witness:
  "on_screen \<lparr>sz_width = 480, sz_height = 960\<rparr> (logical_to_physical \<lparr>pt_x = 959, pt_y = 3\<rparr> y01_profile) \<and>
   inverse_rotate (logical_to_physical \<lparr>pt_x = 959, pt_y = 3\<rparr> y01_profile) \<lparr>sz_width = 960, sz_height = 266\<rparr>
     (dp_display y01_profile) = \<lparr>pt_x = 959, pt_y = 3\<rparr>"
  using profile_maps_screen [OF y01_parsed, of "\<lparr>pt_x = 959, pt_y = 3\<rparr>"] by (simp add: y01_profile_def on_screen_def)

text \<open>The runtime of the applications has the geometry of its device compiled in; it is the one the platform
  library computes from the profile of this device, for every point and every touch.\<close>

theorem runtime_geometry_agrees:
  "runtime_logical_to_physical p kY01Profile = logical_to_physical p y01_profile \<and>
   raw_touch_to_logical p kY01Profile = physical_touch_to_logical p y01_profile \<and>
   parse_device_profile (\<lambda>_. Some y01_document) ''{}'' = Inr y01_profile"
  using y01_parsed
  by (simp add: runtime_logical_to_physical_def raw_touch_to_logical_def logical_to_physical_def physical_touch_to_logical_def
      rotate_logical_def inverse_rotate_def y01_profile_def kY01Profile_def Let_def)

end
