(* ===== verification/Environment.thy ===== *)
theory Environment
  imports Program_Start Launcher
begin

text \<open>
  The environment of a program (\<open>start_program\<close> of the session daemon) as the program reads it: \<open>getenv\<close>, and
  the whole-string numbers that the runtime (\<open>src/runtime\<close>, \<open>src/platform\<close>) takes from it with \<open>strtol\<close>.
\<close>

section \<open>Reading\<close>

definition getenv :: "string list \<Rightarrow> string \<Rightarrow> string option" where
  "getenv env name = map_option (drop (length name + 1)) (find (\<lambda>e. take (length name + 1) e = variable name []) env)"

text \<open>\<open>strtol\<close> in base 10 on a whole string; \<open>None\<close> when there are no digits, something follows, or \<open>ERANGE\<close>.\<close>

definition strtol_whole :: "string \<Rightarrow> int option" where
  "strtol_whole contents =
     (let t = dropWhile is_space contents;
          negative = (t \<noteq> [] \<and> hd t = CHR ''-'');
          unsigned_part = (if t \<noteq> [] \<and> (hd t = CHR ''-'' \<or> hd t = CHR ''+'') then tl t else t);
          digits = takeWhile is_digit unsigned_part;
          n = (if negative then - int (digits_value digits) else int (digits_value digits))
      in if digits = [] \<or> digits \<noteq> unsigned_part \<or> n < - (2 ^ 63) \<or> 2 ^ 63 \<le> n then None else Some n)"

definition int_max_value :: int where
  "int_max_value = 2147483647"

text \<open>\<open>environment_integer\<close>; the other readers are this one with bounds of their own.\<close>

definition environment_integer :: "string list \<Rightarrow> string \<Rightarrow> int \<Rightarrow> int \<Rightarrow> int option" where
  "environment_integer env name minimum maximum =
     (case getenv env name of None \<Rightarrow> None
      | Some contents \<Rightarrow>
        if contents = [] then None
        else case strtol_whole contents of None \<Rightarrow> None
        | Some n \<Rightarrow> if n < minimum \<or> maximum < n then None else Some n)"

section \<open>What a number reads back as\<close>

lemma strtol_dec_string: "int n < 2 ^ 63 \<Longrightarrow> strtol_whole (dec_string n) = Some (int n)"
proof -
  assume n: "int n < 2 ^ 63"
  define ds where "ds = dec_string n"
  have ds: "list_all is_digit ds" "ds \<noteq> []" "digits_value ds = n"
    using dec_string_digits [of n] dec_string_value [of n] by (simp_all add: ds_def)
  then obtain d rest where d: "ds = d # rest" "is_digit d" by (cases ds) auto
  then have "\<not> is_space d" "d \<noteq> CHR ''-''" "d \<noteq> CHR ''+''"
    by (auto simp: is_digit_def is_space_def code_def)
  then have start: "dropWhile is_space ds = ds" "hd ds \<noteq> CHR ''-''" "hd ds \<noteq> CHR ''+''" by (simp_all add: d)
  have whole: "takeWhile is_digit ds = ds" using ds(1) by (simp add: list_all_iff takeWhile_eq_all_conv)
  have sign: "(if ds \<noteq> [] \<and> (hd ds = CHR ''-'' \<or> hd ds = CHR ''+'') then tl ds else ds) = ds" using start(2,3) by simp
  show ?thesis
    unfolding ds_def [symmetric] strtol_whole_def Let_def start(1) sign whole using start(2) ds n by simp
qed

lemma strtol_dec_string_int: "0 \<le> z \<Longrightarrow> z < 2 ^ 63 \<Longrightarrow> strtol_whole (dec_string_int z) = Some z"
  using strtol_dec_string [of "nat z"] by (simp add: dec_string_int_def)

lemma getenv_Nil [simp]: "getenv [] name = None"
  by (simp add: getenv_def)

lemma take_variable:
  assumes "CHR ''='' \<notin> set n" "CHR ''='' \<notin> set name"
  shows "take (length name + 1) (variable n contents) = variable name [] \<longleftrightarrow> n = name"
  using assms unfolding variable_def
proof (induction name arbitrary: n)
  case Nil
  then show ?case by (cases n) auto
next
  case (Cons c name)
  then show ?case by (cases n) auto
qed

lemma getenv_Cons:
  assumes "CHR ''='' \<notin> set n" "CHR ''='' \<notin> set name"
  shows "getenv (variable n contents # env) name = (if n = name then Some contents else getenv env name)"
  using take_variable [OF assms, of contents] by (simp add: getenv_def) (simp add: variable_def)

lemma getenv_append: "getenv (env @ env') name = (case getenv env name of None \<Rightarrow> getenv env' name | Some v \<Rightarrow> Some v)"
  by (induction env) (simp_all add: getenv_def)

text \<open>The variables every program gets.\<close>

lemma program_environment_values:
  fixes profile program_id policy ds notice
  defines "env \<equiv> program_environment profile program_id policy ds notice"
  shows "getenv env ''LVGL_SESSION_CONTROL_FD'' = Some (dec_string_int (ds_control ds))"
    and "getenv env ''LVGL_TOUCH_FD'' = Some (dec_string_int (ds_touch ds))"
    and "getenv env ''LVGL_DRM_FD'' = Some (dec_string_int (ds_drm ds))"
    and "getenv env ''LVGL_SANDBOX_REQUIRED'' = Some (if sp_personal_unbound profile then ''0'' else ''1'')"
    and "getenv env ''LVGL_APP_UID'' = Some (dec_string (if sp_personal_unbound profile then 0 else unat (pp_uid policy)))"
    and "getenv env ''LVGL_LOGICAL_WIDTH'' = Some (dec_string_int (sp_logical_width profile))"
    and "getenv env ''LVGL_LOGICAL_HEIGHT'' = Some (dec_string_int (sp_logical_height profile))"
    and "getenv env ''LVGL_DRM_DEVICE'' = Some (sp_drm_device profile)"
    and "getenv env ''LVGL_DRM_CONNECTOR_ID'' = Some (dec_string (sp_connector_id profile))"
    and "getenv env ''LVGL_DRM_CRTC_ID'' = Some (dec_string (sp_crtc_id profile))"
    and "getenv env ''LVGL_DRM_OVERLAY_PLANE_ID'' = Some (dec_string (sp_overlay_plane_id profile))"
    and "getenv env ''LVGL_DRM_OVERLAY_ZPOS'' = Some (dec_string_int (sp_overlay_zpos profile))"
    and "getenv env ''LVGL_DISPLAY_X'' = Some (dec_string_int (sp_display_x profile))"
    and "getenv env ''LVGL_DISPLAY_Y'' = Some (dec_string_int (sp_display_y profile))"
    and "getenv env ''LVGL_DISPLAY_WIDTH'' = Some (dec_string_int (sp_display_width profile))"
    and "getenv env ''LVGL_DISPLAY_HEIGHT'' = Some (dec_string_int (sp_display_height profile))"
    and "getenv env ''LVGL_DISPLAY_ROTATION'' = Some (dec_string (sp_display_rotation profile))"
    and "getenv env ''LVGL_PIXEL_FORMAT'' = Some (sp_pixel_format profile)"
  unfolding env_def program_environment_def getenv_append by (simp_all add: getenv_Cons)

lemma environment_integer_number:
  assumes "getenv env name = Some (dec_string n)" "int n < 2 ^ 63"
  shows "environment_integer env name minimum maximum = (if minimum \<le> int n \<and> int n \<le> maximum then Some (int n) else None)"
  using assms strtol_dec_string [OF assms(2)] dec_string_digits [of n] by (auto simp: environment_integer_def)

lemma environment_integer_int:
  assumes "getenv env name = Some (dec_string_int z)" "0 \<le> z" "z < 2 ^ 63"
  shows "environment_integer env name minimum maximum = (if minimum \<le> z \<and> z \<le> maximum then Some z else None)"
  using environment_integer_number [of env name "nat z"] assms by (simp add: dec_string_int_def)

end
