(* ===== verification/Runtime_Sandbox.thy ===== *)
theory Runtime_Sandbox
  imports Environment
begin

text \<open>
  The system-call filter of the applications (\<open>src/runtime/runtime_sandbox.cpp\<close>): the program of the packet
  filter machine that \<open>install_aarch64_filter\<close> builds, instruction by instruction, and
  \<open>install_runtime_sandbox\<close>, which decides whether it is needed. The numbers of system calls, flags and
  offsets come from the headers of Linux and are arguments; so is the machine of the kernel that runs the
  filter, of which the locale \<open>bpf_machine\<close> states the documented instructions.
\<close>

unbundle bit_operations_syntax

section \<open>Instructions\<close>

datatype bpf_code = BPF_LD_W_ABS | BPF_ALU_AND_K | BPF_JMP_JEQ_K | BPF_RET_K

record sock_filter =
  bf_code :: bpf_code
  bf_jt :: u8
  bf_jf :: u8
  bf_k :: u32

definition append_statement :: "bpf_code \<Rightarrow> u32 \<Rightarrow> sock_filter list" where
  "append_statement c k = [\<lparr>bf_code = c, bf_jt = 0, bf_jf = 0, bf_k = k\<rparr>]"

definition append_jump :: "bpf_code \<Rightarrow> u32 \<Rightarrow> u8 \<Rightarrow> u8 \<Rightarrow> sock_filter list" where
  "append_jump c k on_true on_false = [\<lparr>bf_code = c, bf_jt = on_true, bf_jf = on_false, bf_k = k\<rparr>]"

text \<open>The constants of the headers, by name.\<close>

record linux_abi =
  ab_audit_arch :: u32
  ab_syscall :: "string \<Rightarrow> u32"
  ab_request :: "string \<Rightarrow> u32"
  ab_open_flag :: "string \<Rightarrow> u32"
  ab_prot_exec :: u32
  ab_offset_arch :: u32
  ab_offset_nr :: u32
  ab_offset_argument :: "nat \<Rightarrow> u32"
  ab_kill :: u32
  ab_allow :: u32

section \<open>The filter\<close>

definition append_allowed_syscall :: "linux_abi \<Rightarrow> u32 \<Rightarrow> sock_filter list" where
  "append_allowed_syscall abi number =
     append_jump BPF_JMP_JEQ_K number 0 1 @ append_statement BPF_RET_K (ab_allow abi)"

definition append_flag_restricted_syscall :: "linux_abi \<Rightarrow> u32 \<Rightarrow> u32 \<Rightarrow> u32 \<Rightarrow> sock_filter list" where
  "append_flag_restricted_syscall abi number offset forbidden =
     append_jump BPF_JMP_JEQ_K number 0 5 @ append_statement BPF_LD_W_ABS offset @
     append_statement BPF_ALU_AND_K forbidden @ append_jump BPF_JMP_JEQ_K 0 0 1 @
     append_statement BPF_RET_K (ab_allow abi) @ append_statement BPF_RET_K (ab_kill abi)"

definition drm_requests :: "linux_abi \<Rightarrow> u32 list" where
  "drm_requests abi = map (ab_request abi) [''DRM_IOCTL_MODE_SETPLANE'', ''DRM_IOCTL_MODE_RMFB'', ''DRM_IOCTL_MODE_DESTROY_DUMB'']"

definition append_drm_ioctl_filter :: "linux_abi \<Rightarrow> u32 \<Rightarrow> sock_filter list" where
  "append_drm_ioctl_filter abi drm_fd =
     (let requests = drm_requests abi;
          request_count = length requests;
          block_instructions = 4 + request_count * 2
      in append_jump BPF_JMP_JEQ_K (ab_syscall abi ''ioctl'') 0 (word_of_nat block_instructions) @
         append_statement BPF_LD_W_ABS (ab_offset_argument abi 0) @
         append_jump BPF_JMP_JEQ_K drm_fd 0 (word_of_nat (1 + request_count * 2)) @
         append_statement BPF_LD_W_ABS (ab_offset_argument abi 1) @
         concat (map (append_allowed_syscall abi) requests) @
         append_statement BPF_RET_K (ab_kill abi))"

definition allowed_syscalls :: "string list" where
  "allowed_syscalls =
     [''read'', ''write'', ''readv'', ''writev'', ''close'', ''lseek'', ''pread64'', ''fstat'', ''newfstatat'', ''statx'',
      ''faccessat'', ''readlinkat'', ''getcwd'', ''munmap'', ''mremap'', ''madvise'', ''brk'', ''rt_sigaction'', ''rt_sigprocmask'',
      ''rt_sigreturn'', ''sigaltstack'', ''ppoll'', ''pselect6'', ''clock_gettime'', ''clock_nanosleep'', ''nanosleep'', ''futex'',
      ''set_tid_address'', ''set_robust_list'', ''rseq'', ''prlimit64'', ''getrandom'', ''getpid'', ''getppid'', ''gettid'', ''getuid'',
      ''geteuid'', ''getgid'', ''getegid'', ''uname'', ''sysinfo'', ''getrusage'', ''times'', ''sched_yield'', ''sched_getaffinity'',
      ''fcntl'', ''dup'', ''dup3'', ''recvfrom'', ''sendto'', ''recvmsg'', ''sendmsg'', ''shutdown'', ''getsockopt'', ''fstatfs'', ''statfs'',
      ''eventfd2'', ''epoll_create1'', ''epoll_ctl'', ''epoll_pwait'', ''restart_syscall'', ''exit'', ''exit_group'']"

definition write_flags :: "linux_abi \<Rightarrow> u32" where
  "write_flags abi =
     foldl (OR) 0 (map (ab_open_flag abi) [''O_WRONLY'', ''O_RDWR'', ''O_CREAT'', ''O_TRUNC'', ''O_APPEND'', ''O_EXCL'', ''O_TMPFILE''])"

definition sandbox_filter :: "linux_abi \<Rightarrow> u32 \<Rightarrow> sock_filter list" where
  "sandbox_filter abi drm_fd =
     append_statement BPF_LD_W_ABS (ab_offset_arch abi) @
     append_jump BPF_JMP_JEQ_K (ab_audit_arch abi) 1 0 @
     append_statement BPF_RET_K (ab_kill abi) @
     append_statement BPF_LD_W_ABS (ab_offset_nr abi) @
     append_flag_restricted_syscall abi (ab_syscall abi ''openat'') (ab_offset_argument abi 2) (write_flags abi) @
     append_flag_restricted_syscall abi (ab_syscall abi ''mmap'') (ab_offset_argument abi 2) (ab_prot_exec abi) @
     append_flag_restricted_syscall abi (ab_syscall abi ''mprotect'') (ab_offset_argument abi 2) (ab_prot_exec abi) @
     append_drm_ioctl_filter abi drm_fd @
     concat (map (append_allowed_syscall abi) (map (ab_syscall abi) allowed_syscalls)) @
     append_statement BPF_RET_K (ab_kill abi)"

section \<open>Installing it\<close>

text \<open>What the process sees and what its calls yield.\<close>

record sandbox_system =
  sb_aarch64 :: bool
  sb_euid :: u32
  sb_egid :: u32
  sb_dumpable :: int
  sb_no_new_privs :: bool
  sb_seccomp :: bool
  sb_error :: string

definition install_aarch64_filter :: "linux_abi \<Rightarrow> sandbox_system \<Rightarrow> u32 \<Rightarrow> string + sock_filter list" where
  "install_aarch64_filter abi sys drm_fd =
     (let program = sandbox_filter abi drm_fd in
      if 65535 < length program then Inl ''seccomp filter is too large''
      else if \<not> sb_no_new_privs sys then Inl (''PR_SET_NO_NEW_PRIVS failed: '' @ sb_error sys)
      else if \<not> sb_seccomp sys then Inl (''PR_SET_SECCOMP failed: '' @ sb_error sys)
      else Inr program)"

text \<open>The error, or the filter now in force; \<open>None\<close> when none is required.\<close>

definition install_runtime_sandbox :: "linux_abi \<Rightarrow> sandbox_system \<Rightarrow> string list \<Rightarrow> string + sock_filter list option" where
  "install_runtime_sandbox abi sys env =
     (case getenv env ''LVGL_SANDBOX_REQUIRED'' of None \<Rightarrow> Inr None
      | Some marker \<Rightarrow>
        if marker = ''0'' then Inr None
        else if marker \<noteq> ''1'' then Inl ''invalid LVGL_SANDBOX_REQUIRED marker''
        else if \<not> sb_aarch64 sys then Inl ''mandatory runtime sandbox is unavailable on this architecture''
        else case (environment_integer env ''LVGL_DRM_FD'' 0 int_max_value, environment_integer env ''LVGL_APP_UID'' 0 int_max_value) of
          (Some drm_fd, Some expected_uid) \<Rightarrow>
            if drm_fd < 3 \<or> expected_uid < 1 then Inl ''missing sandbox descriptor or application identity''
            else if sb_euid sys = 0 \<or> sb_euid sys \<noteq> word_of_int expected_uid \<or> sb_egid sys \<noteq> word_of_int expected_uid
            then Inl ''sessiond did not apply the independent application identity''
            else if sb_dumpable sys \<noteq> 0 then Inl ''application process remains dumpable''
            else map_sum id Some (install_aarch64_filter abi sys (word_of_int drm_fd))
        | _ \<Rightarrow> Inl ''missing sandbox descriptor or application identity'')"

lemma append_length [simp]:
  "length (append_statement c k) = 1" "length (append_jump c k t f) = 1" "length (append_allowed_syscall abi n) = 2"
  by (simp_all add: append_statement_def append_jump_def append_allowed_syscall_def)

section \<open>Interface: the machine of the kernel\<close>

text \<open>
  A machine runs the rest of a program on a system call with an accumulator: a load of the word at an offset,
  a conjunction, a conditional jump forward, and the return of a verdict.
\<close>

locale bpf_machine =
  fixes run :: "sock_filter list \<Rightarrow> 'call \<Rightarrow> u32 \<Rightarrow> u32"
    and load :: "'call \<Rightarrow> u32 \<Rightarrow> u32"
  assumes run_load: "bf_code i = BPF_LD_W_ABS \<Longrightarrow> run (i # is) call a = run is call (load call (bf_k i))"
    and run_and: "bf_code i = BPF_ALU_AND_K \<Longrightarrow> run (i # is) call a = run is call (a AND bf_k i)"
    and run_jump: "bf_code i = BPF_JMP_JEQ_K \<Longrightarrow>
      run (i # is) call a = run (drop (unat (if a = bf_k i then bf_jt i else bf_jf i)) is) call a"
    and run_return: "bf_code i = BPF_RET_K \<Longrightarrow> run (i # is) call a = bf_k i"
begin

lemma statements:
  "run (append_statement BPF_LD_W_ABS k @ is) call a = run is call (load call k)"
  "run (append_statement BPF_ALU_AND_K k @ is) call a = run is call (a AND k)"
  "run (append_statement BPF_RET_K k @ is) call a = k"
  "run (append_statement BPF_RET_K k) call a = k"
  by (simp_all add: append_statement_def run_load run_and run_return)

lemma jump: "run (append_jump BPF_JMP_JEQ_K k t f @ is) call a = run (drop (unat (if a = k then t else f)) is) call a"
  by (simp add: append_jump_def run_jump)

lemma allowed: "run (append_allowed_syscall abi n @ is) call a = (if a = n then ab_allow abi else run is call a)"
  by (simp add: append_allowed_syscall_def jump statements)

lemma all_allowed:
  "run (concat (map (append_allowed_syscall abi \<circ> number) names) @ is) call a =
     (if a \<in> number ` set names then ab_allow abi else run is call a)"
  by (induction names) (simp_all add: allowed)

lemma restricted:
  "run (append_flag_restricted_syscall abi n offset forbidden @ is) call a =
     (if a = n then if load call offset AND forbidden = 0 then ab_allow abi else ab_kill abi else run is call a)"
  by (simp add: append_flag_restricted_syscall_def jump statements)

lemma drm_block:
  "run (append_drm_ioctl_filter abi fd @ is) call a =
     (if a = ab_syscall abi ''ioctl''
      then if load call (ab_offset_argument abi 0) = fd \<and> load call (ab_offset_argument abi 1) \<in> set (drm_requests abi)
        then ab_allow abi else ab_kill abi
      else run is call a)"
  by (simp add: append_drm_ioctl_filter_def Let_def jump statements allowed drm_requests_def)

lemma filter_verdict:
  "run (sandbox_filter abi fd) call a =
     (let nr = load call (ab_offset_nr abi); argument = (\<lambda>i. load call (ab_offset_argument abi i));
          verdict = (\<lambda>ok. if ok then ab_allow abi else ab_kill abi)
      in if load call (ab_offset_arch abi) \<noteq> ab_audit_arch abi then ab_kill abi
         else if nr = ab_syscall abi ''openat'' then verdict (argument 2 AND write_flags abi = 0)
         else if nr = ab_syscall abi ''mmap'' \<or> nr = ab_syscall abi ''mprotect'' then verdict (argument 2 AND ab_prot_exec abi = 0)
         else if nr = ab_syscall abi ''ioctl'' then verdict (argument 0 = fd \<and> argument 1 \<in> set (drm_requests abi))
         else verdict (nr \<in> set (map (ab_syscall abi) allowed_syscalls)))"
  by (simp add: sandbox_filter_def jump statements restricted drm_block all_allowed Let_def)

end

section \<open>A machine\<close>

text \<open>The instructions run on a list: a jump drops instructions, a load reads the data of the call.\<close>

function bpf_run :: "sock_filter list \<Rightarrow> (u32 \<Rightarrow> u32) \<Rightarrow> u32 \<Rightarrow> u32" where
  "bpf_run [] call a = 0"
| "bpf_run (i # is) call a =
     (case bf_code i of
        BPF_LD_W_ABS \<Rightarrow> bpf_run is call (call (bf_k i))
      | BPF_ALU_AND_K \<Rightarrow> bpf_run is call (a AND bf_k i)
      | BPF_JMP_JEQ_K \<Rightarrow> bpf_run (drop (unat (if a = bf_k i then bf_jt i else bf_jf i)) is) call a
      | BPF_RET_K \<Rightarrow> bf_k i)"
  by pat_completeness auto
termination by (relation "measure (\<lambda>(is, _, _). length is)") auto

interpretation list_machine: bpf_machine bpf_run "\<lambda>call. call"
  by unfold_locales simp_all

section \<open>Properties\<close>

text \<open>C16. On every machine that runs the documented instructions, the filter of the applications decides exactly this:
  a call of another architecture is killed; files may be opened, memory mapped and its protection changed, but
  not for writing or for execution; of the device controls only three requests on the display are allowed; and
  beside these only the listed calls are.\<close>

theorem sandbox_verdict:
  assumes "bpf_machine run load"
  shows "run (sandbox_filter abi drm_fd) call a =
     (let nr = load call (ab_offset_nr abi); argument = (\<lambda>i. load call (ab_offset_argument abi i));
          verdict = (\<lambda>ok. if ok then ab_allow abi else ab_kill abi)
      in if load call (ab_offset_arch abi) \<noteq> ab_audit_arch abi then ab_kill abi
         else if nr = ab_syscall abi ''openat'' then verdict (argument 2 AND write_flags abi = 0)
         else if nr = ab_syscall abi ''mmap'' \<or> nr = ab_syscall abi ''mprotect'' then verdict (argument 2 AND ab_prot_exec abi = 0)
         else if nr = ab_syscall abi ''ioctl'' then verdict (argument 0 = drm_fd \<and> argument 1 \<in> set (drm_requests abi))
         else verdict (nr \<in> set (map (ab_syscall abi) allowed_syscalls)))"
  by (rule bpf_machine.filter_verdict [OF assms])

definition sample_abi :: linux_abi where
  "sample_abi = \<lparr>ab_audit_arch = 0xC00000B7,
     ab_syscall = (\<lambda>n. if n = ''openat'' then 56 else if n = ''read'' then 63 else if n = ''ioctl'' then 29 else 500),
     ab_request = (\<lambda>n. if n = ''DRM_IOCTL_MODE_SETPLANE'' then 0xC03064B7 else 0), ab_open_flag = (\<lambda>n. if n = ''O_WRONLY'' then 1 else 2),
     ab_prot_exec = 4, ab_offset_arch = 4, ab_offset_nr = 0, ab_offset_argument = (\<lambda>i. word_of_nat (16 + 8 * i)),
     ab_kill = 0x80000000, ab_allow = 0x7FFF0000\<rparr>"

lemma sandbox_verdict_witness:
  "bpf_run (sandbox_filter sample_abi 11) ((\<lambda>_. 0)(4 := 0xC00000B7, 0 := 56, 32 := 1)) 0 = ab_kill sample_abi \<and>
   bpf_run (sandbox_filter sample_abi 11) ((\<lambda>_. 0)(4 := 0xC00000B7, 0 := 56)) 0 = ab_allow sample_abi"
proof -
  have flags: "write_flags sample_abi = 3" by (simp add: write_flags_def sample_abi_def)
  show ?thesis
    unfolding sandbox_verdict [OF list_machine.bpf_machine_axioms] Let_def flags by (simp add: sample_abi_def)
qed

text \<open>C17. A program that the session starts and that has installed its sandbox runs under the independent user id of its
  application, cannot be dumped, and is under the filter for the display it was given, unless the signed profile
  runs programs unconfined. The marker, the descriptor and the user id reach it through its environment.\<close>

theorem program_sandboxed:
  assumes "start_program calls opened profile app policy ds notice = Start_runs x"
    and "install_runtime_sandbox abi sys (xp_environment x) = Inr installed" and "0 \<le> ds_drm ds" "ds_drm ds \<le> int_max_value"
  shows "if sp_personal_unbound profile then installed = None
    else installed = Some (sandbox_filter abi (word_of_int (ds_drm ds))) \<and> 3 \<le> ds_drm ds \<and>
      sb_euid sys = pp_uid policy \<and> sb_egid sys = pp_uid policy \<and> pp_uid policy \<noteq> 0 \<and> sb_dumpable sys = 0"
proof -
  have env: "xp_environment x = program_environment profile app policy ds notice"
    using assms(1) by (auto simp: start_program_def Let_def split: if_splits)
  note vals = program_environment_values [of profile app policy ds notice, folded env]
  have drm: "environment_integer (xp_environment x) ''LVGL_DRM_FD'' 0 int_max_value = Some (ds_drm ds)"
    using environment_integer_int [OF vals(3) assms(3)] assms(3,4) by (simp add: int_max_value_def)
  show ?thesis
  proof (cases "sp_personal_unbound profile")
    case True
    then show ?thesis using assms(2) by (simp add: install_runtime_sandbox_def vals(4))
  next
    case False
    have "int (unat (pp_uid policy)) < 2 ^ 63" using uint_bounded [of "pp_uid policy"] by simp
    then have uid: "environment_integer (xp_environment x) ''LVGL_APP_UID'' 0 int_max_value =
        (if int (unat (pp_uid policy)) \<le> int_max_value then Some (int (unat (pp_uid policy))) else None)"
      using environment_integer_number [of "xp_environment x" "''LVGL_APP_UID''" "unat (pp_uid policy)" 0 int_max_value] vals(5) False
      by simp
    then show ?thesis
      using assms(2) False drm
      by (auto simp: install_runtime_sandbox_def vals(4) install_aarch64_filter_def Let_def split: if_splits)
  qed
qed

end
