(* ===== verification/Drm_Backend.thy ===== *)
theory Drm_Backend
  imports Environment Device_Profile
begin

text \<open>
  The display of a program (\<open>src/platform/drm/drm_backend.cpp\<close>): configuration from the environment, the checks of
  the inherited device, the choice of connector and CRTC, two buffers that are filled and shown in turn, and
  the release of all of it. What the kernel reports and whether each of its calls succeeds are arguments; the
  calls that change the display are listed in the results.
\<close>

section \<open>State\<close>

datatype framebuffer_format = Format_XRGB8888 | Format_ARGB8888

record drm_buffer =
  bu_handle :: u32
  bu_pitch :: u32
  bu_size :: nat
  bu_framebuffer :: u32
  bu_map :: "u32 list option"

record drm_mode =
  dm_hdisplay :: nat
  dm_vdisplay :: nat

record drm_crtc =
  dc_crtc_id :: u32
  dc_buffer_id :: u32
  dc_x :: u32
  dc_y :: u32
  dc_mode_valid :: bool
  dc_mode :: drm_mode

record drm_backend =
  dr_profile :: runtime_profile
  dr_fd :: int
  dr_connector_id :: u32
  dr_crtc_id :: u32
  dr_plane_id :: u32
  dr_framebuffer_format :: framebuffer_format
  dr_mode :: drm_mode
  dr_saved_crtc :: "drm_crtc option"
  dr_buffers :: "drm_buffer list"
  dr_active_buffer :: int
  dr_flip_pending :: bool
  dr_modeset_done :: bool
  dr_overlay_mode :: bool
  dr_overlay_x :: int
  dr_overlay_y :: int
  dr_overlay_width :: int
  dr_overlay_height :: int
  dr_overlay_zpos :: int
  dr_buffer_width :: int
  dr_buffer_height :: int
  dr_rotation :: int
  dr_page_flip_recoveries :: nat
  dr_error :: string

definition empty_buffer :: drm_buffer where
  "empty_buffer = \<lparr>bu_handle = 0, bu_pitch = 0, bu_size = 0, bu_framebuffer = 0, bu_map = None\<rparr>"

definition new_drm_backend :: "runtime_profile \<Rightarrow> drm_backend" where
  "new_drm_backend profile = \<lparr>dr_profile = profile, dr_fd = - 1, dr_connector_id = 0, dr_crtc_id = 0, dr_plane_id = 0,
     dr_framebuffer_format = Format_XRGB8888, dr_mode = \<lparr>dm_hdisplay = 0, dm_vdisplay = 0\<rparr>, dr_saved_crtc = None,
     dr_buffers = [], dr_active_buffer = - 1, dr_flip_pending = False, dr_modeset_done = False, dr_overlay_mode = False,
     dr_overlay_x = 0, dr_overlay_y = 0, dr_overlay_width = 0, dr_overlay_height = 0, dr_overlay_zpos = 0,
     dr_buffer_width = 0, dr_buffer_height = 0, dr_rotation = 0, dr_page_flip_recoveries = 0, dr_error = []\<rparr>"

text \<open>\<open>fail\<close>, with the text of \<open>errno\<close>.\<close>

definition fail_drm :: "string \<Rightarrow> string \<Rightarrow> drm_backend \<Rightarrow> bool \<times> drm_backend" where
  "fail_drm strerror operation d = (False, d\<lparr>dr_error := operation @ '': '' @ strerror\<rparr>)"

section \<open>Configuration from the environment\<close>

text \<open>The members that are read in order, each kept although a later one fails.\<close>

fun store_settings :: "string list \<Rightarrow> (string \<times> int \<times> int \<times> (int \<Rightarrow> drm_backend \<Rightarrow> drm_backend)) list \<Rightarrow> drm_backend \<Rightarrow> bool \<times> drm_backend" where
  "store_settings env [] d = (True, d)"
| "store_settings env ((name, minimum, maximum, store) # settings) d =
     (case environment_integer env name minimum maximum of None \<Rightarrow> (False, d)
      | Some n \<Rightarrow> store_settings env settings (store n d))"

definition overlay_settings :: "(string \<times> int \<times> int \<times> (int \<Rightarrow> drm_backend \<Rightarrow> drm_backend)) list" where
  "overlay_settings =
     [(''LVGL_DISPLAY_X'', 0, 4096, \<lambda>n. dr_overlay_x_update (\<lambda>_. n)),
      (''LVGL_DISPLAY_Y'', 0, 4096, \<lambda>n. dr_overlay_y_update (\<lambda>_. n)),
      (''LVGL_DISPLAY_WIDTH'', 80, 4096, \<lambda>n. dr_overlay_width_update (\<lambda>_. n)),
      (''LVGL_DISPLAY_HEIGHT'', 80, 4096, \<lambda>n. dr_overlay_height_update (\<lambda>_. n)),
      (''LVGL_DRM_OVERLAY_ZPOS'', 0, 128, \<lambda>n. dr_overlay_zpos_update (\<lambda>_. n)),
      (''LVGL_DISPLAY_ROTATION'', 0, 270, \<lambda>n. dr_rotation_update (\<lambda>_. n))]"

definition turned :: "int \<Rightarrow> bool" where
  "turned rotation \<longleftrightarrow> rotation = 90 \<or> rotation = 270"

text \<open>The checks of the values and the rest of the assignments.\<close>

definition apply_overlay :: "string \<Rightarrow> string list \<Rightarrow> int \<Rightarrow> int \<Rightarrow> int \<Rightarrow> int \<Rightarrow> int \<Rightarrow> drm_backend \<Rightarrow> bool \<times> drm_backend" where
  "apply_overlay strerror env configured_plane configured_crtc configured_connector logical_width logical_height d =
     (if logical_width \<noteq> rp_logical_width (dr_profile d) \<or> logical_height \<noteq> rp_logical_height (dr_profile d) \<or>
         (dr_rotation d \<noteq> 0 \<and> dr_rotation d \<noteq> 90 \<and> dr_rotation d \<noteq> 180 \<and> dr_rotation d \<noteq> 270) \<or>
         4096 - dr_overlay_width d < dr_overlay_x d \<or> 4096 - dr_overlay_height d < dr_overlay_y d
      then fail_drm strerror ''certified overlay environment'' d
      else case (getenv env ''LVGL_DRM_DEVICE'', getenv env ''LVGL_PIXEL_FORMAT'') of
        (Some device, Some pixel) \<Rightarrow>
          if device \<noteq> rp_drm_device (dr_profile d) \<or> (pixel \<noteq> ''XRGB8888'' \<and> pixel \<noteq> ''ARGB8888'')
          then fail_drm strerror ''certified overlay format'' d
          else let width = (if turned (dr_rotation d) then logical_height else logical_width);
                   height = (if turned (dr_rotation d) then logical_width else logical_height)
            in (True, d\<lparr>dr_plane_id := word_of_int configured_plane, dr_crtc_id := word_of_int configured_crtc,
                  dr_connector_id := word_of_int configured_connector,
                  dr_framebuffer_format := (if pixel = ''ARGB8888'' then Format_ARGB8888 else Format_XRGB8888),
                  dr_buffer_width := width, dr_buffer_height := height,
                  dr_mode := \<lparr>dm_hdisplay = nat width, dm_vdisplay = nat height\<rparr>, dr_overlay_mode := True\<rparr>)
      | _ \<Rightarrow> fail_drm strerror ''certified overlay format'' d)"

definition configure_overlay :: "string \<Rightarrow> string list \<Rightarrow> drm_backend \<Rightarrow> bool \<times> drm_backend" where
  "configure_overlay strerror env d =
     (if getenv env ''LVGL_DRM_OVERLAY_PLANE_ID'' = None then (True, d)
      else case (environment_integer env ''LVGL_DRM_OVERLAY_PLANE_ID'' 1 int_max_value,
                 environment_integer env ''LVGL_DRM_CRTC_ID'' 1 int_max_value,
                 environment_integer env ''LVGL_DRM_CONNECTOR_ID'' 1 int_max_value) of
        (Some configured_plane, Some configured_crtc, Some configured_connector) \<Rightarrow>
          (case store_settings env overlay_settings d of
             (False, d) \<Rightarrow> fail_drm strerror ''certified overlay environment'' d
           | (True, d) \<Rightarrow>
             (case (environment_integer env ''LVGL_LOGICAL_WIDTH'' 240 4096, environment_integer env ''LVGL_LOGICAL_HEIGHT'' 80 2048) of
                (Some logical_width, Some logical_height) \<Rightarrow>
                  apply_overlay strerror env configured_plane configured_crtc configured_connector logical_width logical_height d
              | _ \<Rightarrow> fail_drm strerror ''certified overlay environment'' d))
      | _ \<Rightarrow> fail_drm strerror ''certified overlay environment'' d)"

section \<open>What the device reports\<close>

datatype connector_type = Connector_DSI | Connector_DPI | Connector_LVDS | Connector_eDP | Connector_other

fun connector_type_name :: "connector_type \<Rightarrow> string" where
  "connector_type_name Connector_DSI = ''DSI''"
| "connector_type_name Connector_DPI = ''DPI''"
| "connector_type_name Connector_LVDS = ''LVDS''"
| "connector_type_name Connector_eDP = ''eDP''"
| "connector_type_name Connector_other = ''unknown''"

record drm_connector =
  cn_connector_id :: u32
  cn_type :: connector_type
  cn_type_id :: nat
  cn_connected :: bool
  cn_encoder_id :: u32
  cn_modes :: "drm_mode list"

record drm_encoder =
  en_encoder_id :: u32
  en_crtc_id :: u32
  en_possible_crtcs :: u32

record drm_plane =
  pn_possible_crtcs :: u32
  pn_formats :: "framebuffer_format list"

text \<open>The answers of the kernel; \<open>None\<close> is a null pointer. A property is its name and value.\<close>

record drm_device =
  dv_universal_planes :: bool
  dv_crtcs :: "u32 list option"
  dv_connectors :: "u32 list"
  dv_encoders :: "u32 list"
  dv_connector :: "u32 \<Rightarrow> drm_connector option"
  dv_encoder :: "u32 \<Rightarrow> drm_encoder option"
  dv_crtc :: "u32 \<Rightarrow> drm_crtc option"
  dv_planes :: "u32 list option"
  dv_plane :: "u32 \<Rightarrow> drm_plane option"
  dv_properties :: "u32 \<Rightarrow> (string \<times> u64) option list option"
  dv_type_overlay :: u64

text \<open>The index of the last entry that is the id, as the loop leaves it; \<open>None\<close> for -1.\<close>

fun last_index :: "u32 \<Rightarrow> u32 list \<Rightarrow> nat \<Rightarrow> nat option \<Rightarrow> nat option" where
  "last_index i [] n found = found"
| "last_index i (x # xs) n found = last_index i xs (n + 1) (if x = i then Some n else found)"

definition validate_overlay_target :: "string \<Rightarrow> drm_device \<Rightarrow> drm_backend \<Rightarrow> bool \<times> drm_backend" where
  "validate_overlay_target strerror device d =
     (if \<not> dv_universal_planes device then fail_drm strerror ''DRM universal planes'' d
      else case dv_crtcs device of None \<Rightarrow> fail_drm strerror ''drmModeGetResources overlay'' d
      | Some crtcs \<Rightarrow>
        let crtc_index = last_index (dr_crtc_id d) crtcs 0 None;
            connector_ok = (case dv_connector device (dr_connector_id d) of None \<Rightarrow> False
              | Some c \<Rightarrow> cn_connected c \<and> cn_encoder_id c \<noteq> 0);
            encoder = (if connector_ok then dv_encoder device (cn_encoder_id (the (dv_connector device (dr_connector_id d)))) else None);
            route_ok = (case encoder of None \<Rightarrow> False | Some e \<Rightarrow> en_crtc_id e = dr_crtc_id d);
            selected = (case dv_planes device of None \<Rightarrow> None
              | Some planes \<Rightarrow> if dr_plane_id d \<in> set planes then dv_plane device (dr_plane_id d) else None);
            format_ok = (case selected of None \<Rightarrow> False | Some p \<Rightarrow> dr_framebuffer_format d \<in> set (pn_formats p));
            properties = (case dv_properties device (dr_plane_id d) of None \<Rightarrow> [] | Some ps \<Rightarrow> ps);
            overlay_type_ok = (Some (''type'', dv_type_overlay device) \<in> set properties);
            zpos_ok = (Some (''zpos'', word_of_int (dr_overlay_zpos d)) \<in> set properties);
            plane_ok = (case (crtc_index, selected) of
              (Some index, Some p) \<Rightarrow> index < 32 \<and> bit (pn_possible_crtcs p) index \<and> format_ok | _ \<Rightarrow> False)
        in if \<not> connector_ok \<or> \<not> route_ok \<or> \<not> plane_ok \<or> \<not> overlay_type_ok \<or> \<not> zpos_ok
           then fail_drm strerror ''certified overlay target'' d else (True, d))"

definition choose_connector_and_crtc :: "string \<Rightarrow> drm_device \<Rightarrow> drm_backend \<Rightarrow> bool \<times> drm_backend" where
  "choose_connector_and_crtc strerror device d =
     (case dv_crtcs device of None \<Rightarrow> fail_drm strerror ''drmModeGetResources'' d
      | Some crtcs \<Rightarrow>
        case find (\<lambda>c. connector_type_name (cn_type c) @ ''-'' @ dec_string (cn_type_id c) = rp_connector_name (dr_profile d) \<and>
              cn_connected c \<and> cn_modes c \<noteq> []) (List.map_filter (dv_connector device) (dv_connectors device)) of
          None \<Rightarrow> fail_drm strerror ''connected connector'' d
        | Some selected \<Rightarrow>
          let d = d\<lparr>dr_connector_id := cn_connector_id selected, dr_mode := hd (cn_modes selected)\<rparr> in
          case find (\<lambda>e. en_encoder_id e = cn_encoder_id selected) (List.map_filter (dv_encoder device) (dv_encoders device)) of
            None \<Rightarrow> fail_drm strerror ''connector encoder'' d
          | Some encoder \<Rightarrow>
            let crtc_id = (if en_crtc_id encoder = 0 \<and> en_possible_crtcs encoder \<noteq> 0
                  then (case find (\<lambda>(index, _). bit (en_possible_crtcs encoder) index) (List.enumerate 0 crtcs) of
                          None \<Rightarrow> 0 | Some (_, crtc) \<Rightarrow> crtc)
                  else en_crtc_id encoder);
                d = d\<lparr>dr_crtc_id := crtc_id\<rparr>
            in if crtc_id = 0 then fail_drm strerror ''connector CRTC'' d
               else let d = d\<lparr>dr_saved_crtc := dv_crtc device crtc_id\<rparr>
                 in if dr_saved_crtc d = None then fail_drm strerror ''drmModeGetCrtc'' d else (True, d))"

section \<open>Buffers\<close>

text \<open>What the calls for one buffer yield: the dumb buffer, its framebuffer, and whether it can be mapped.\<close>

record buffer_calls =
  bc_create :: "(u32 \<times> u32 \<times> nat) option"
  bc_framebuffer :: "u32 option"
  bc_map_dumb :: bool
  bc_mmap :: bool

definition allocate_buffer :: "string \<Rightarrow> buffer_calls \<Rightarrow> drm_backend \<Rightarrow> drm_buffer \<Rightarrow> (bool \<times> drm_backend) \<times> drm_buffer" where
  "allocate_buffer strerror calls d buffer =
     (case bc_create calls of None \<Rightarrow> (fail_drm strerror ''CREATE_DUMB'' d, buffer)
      | Some (handle, pitch, byte_count) \<Rightarrow>
        let buffer = buffer\<lparr>bu_handle := handle, bu_pitch := pitch, bu_size := byte_count\<rparr> in
        case bc_framebuffer calls of
          None \<Rightarrow> (fail_drm strerror (if dr_overlay_mode d then ''drmModeAddFB2 overlay'' else ''drmModeAddFB'') d, buffer)
        | Some framebuffer \<Rightarrow>
          let buffer = buffer\<lparr>bu_framebuffer := framebuffer\<rparr>
          in if \<not> bc_map_dumb calls then (fail_drm strerror ''MAP_DUMB'' d, buffer)
             else if \<not> bc_mmap calls then (fail_drm strerror ''mmap dumb buffer'' d, buffer)
             else ((True, d), buffer\<lparr>bu_map := Some (replicate (byte_count div 4) 0)\<rparr>))"

text \<open>The calls that change what the device shows or holds.\<close>

datatype drm_call = Set_plane u32 int int int int int int | Disable_plane | Set_crtc u32 | Restore_crtc u32
  | Page_flip u32 | Remove_framebuffer u32 | Destroy_dumb u32

definition release_buffer :: "drm_buffer \<Rightarrow> drm_call list" where
  "release_buffer buffer =
     (if bu_framebuffer buffer \<noteq> 0 then [Remove_framebuffer (bu_framebuffer buffer)] else []) @
     (if bu_handle buffer \<noteq> 0 then [Destroy_dumb (bu_handle buffer)] else [])"

section \<open>Waiting for a page flip\<close>

text \<open>The results of \<open>poll\<close> and \<open>drmHandleEvent\<close>, one second apart; without another one the wait times out.\<close>

datatype flip_wait = Flip_shown | Flip_other_event | Flip_poll_failed | Flip_event_failed

fun wait_for_flip :: "string \<Rightarrow> flip_wait list \<Rightarrow> drm_backend \<Rightarrow> bool \<times> drm_backend" where
  "wait_for_flip strerror [] d = (if dr_flip_pending d then fail_drm strerror ''page flip wait'' d else (True, d))"
| "wait_for_flip strerror (w # ws) d =
     (if \<not> dr_flip_pending d then (True, d)
      else case w of
        Flip_shown \<Rightarrow> wait_for_flip strerror ws (d\<lparr>dr_flip_pending := False\<rparr>)
      | Flip_other_event \<Rightarrow> wait_for_flip strerror ws d
      | Flip_poll_failed \<Rightarrow> fail_drm strerror ''page flip wait'' d
      | Flip_event_failed \<Rightarrow> fail_drm strerror ''drmHandleEvent'' d)"

section \<open>Opening and closing\<close>

definition close_drm :: "string \<Rightarrow> flip_wait list \<Rightarrow> drm_backend \<Rightarrow> drm_backend \<times> drm_call list" where
  "close_drm strerror waits d =
     (if dr_fd d < 0 then (d, [])
      else let d = (if dr_flip_pending d then snd (wait_for_flip strerror waits d) else d);
               calls = (if dr_overlay_mode d \<and> dr_modeset_done d then [Disable_plane]
                 else case dr_saved_crtc d of None \<Rightarrow> []
                   | Some c \<Rightarrow> if dc_mode_valid c then [Restore_crtc (dc_buffer_id c)] else []) @
                 concat (map release_buffer (dr_buffers d))
        in (d\<lparr>dr_buffers := [], dr_saved_crtc := None, dr_fd := - 1, dr_active_buffer := - 1, dr_modeset_done := False,
               dr_overlay_mode := False, dr_page_flip_recoveries := 0\<rparr>, calls))"

text \<open>How the inherited descriptor looks: its identity is checked, then its flags are set.\<close>

record open_calls =
  oc_identity :: "int \<Rightarrow> bool"
  oc_flags :: "int \<Rightarrow> bool"
  oc_open :: int
  oc_dumb :: bool
  oc_device :: drm_device
  oc_buffers :: "nat \<Rightarrow> buffer_calls"
  oc_strerror :: string

definition open_inherited :: "open_calls \<Rightarrow> string list \<Rightarrow> drm_backend \<Rightarrow> bool \<times> drm_backend" where
  "open_inherited calls env d =
     (case getenv env ''LVGL_DRM_FD'' of None \<Rightarrow> fail_drm (oc_strerror calls) ''inherited DRM descriptor missing'' d
      | Some text_fd \<Rightarrow>
        if text_fd = [] then fail_drm (oc_strerror calls) ''inherited DRM descriptor missing'' d
        else case environment_integer env ''LVGL_DRM_FD'' 3 int_max_value of
          None \<Rightarrow> fail_drm (oc_strerror calls) ''inherited DRM descriptor invalid'' d
        | Some descriptor \<Rightarrow>
          if \<not> oc_identity calls descriptor then fail_drm (oc_strerror calls) ''inherited DRM descriptor identity'' d
          else if \<not> oc_flags calls descriptor then fail_drm (oc_strerror calls) ''inherited DRM descriptor flags'' d
          else (True, d\<lparr>dr_fd := descriptor\<rparr>))"

text \<open>The two buffers, the first failure closing the device.\<close>

fun allocate_buffers :: "string \<Rightarrow> (nat \<Rightarrow> buffer_calls) \<Rightarrow> nat list \<Rightarrow> drm_backend \<Rightarrow> bool \<times> drm_backend" where
  "allocate_buffers strerror calls [] d = (True, d)"
| "allocate_buffers strerror calls (i # is) d =
     (case allocate_buffer strerror (calls i) d (dr_buffers d ! i) of
        ((ok, d), buffer) \<Rightarrow>
          let d = d\<lparr>dr_buffers := (dr_buffers d)[i := buffer]\<rparr>
          in if \<not> ok then (False, d) else allocate_buffers strerror calls is d)"

definition open_drm :: "open_calls \<Rightarrow> string list \<Rightarrow> drm_backend \<Rightarrow> bool \<times> drm_backend \<times> drm_call list" where
  "open_drm calls env d =
     (let closed = (\<lambda>d. case close_drm (oc_strerror calls) [] d of (d, shown) \<Rightarrow> (False, d, shown)) in
      if 0 \<le> dr_fd d then (True, d, [])
      else case configure_overlay (oc_strerror calls) env d of
        (False, d) \<Rightarrow> (False, d, [])
      | (True, d) \<Rightarrow>
        (case (if dr_overlay_mode d then open_inherited calls env d
               else if oc_open calls < 0 then fail_drm (oc_strerror calls) ''open DRM device'' (d\<lparr>dr_fd := oc_open calls\<rparr>)
               else (True, d\<lparr>dr_fd := oc_open calls\<rparr>)) of
           (False, d) \<Rightarrow> (False, d, [])
         | (True, d) \<Rightarrow>
           if \<not> oc_dumb calls
           then (case closed d of (_, d, shown) \<Rightarrow> (False, snd (fail_drm (oc_strerror calls) ''DRM dumb buffers'' d), shown))
           else (case (if dr_overlay_mode d then validate_overlay_target (oc_strerror calls) (oc_device calls) d
                       else choose_connector_and_crtc (oc_strerror calls) (oc_device calls) d) of
             (False, d) \<Rightarrow> closed d
           | (True, d) \<Rightarrow>
             (case allocate_buffers (oc_strerror calls) (oc_buffers calls) [0, 1]
                     (d\<lparr>dr_buffers := [empty_buffer, empty_buffer]\<rparr>) of
                (False, d) \<Rightarrow> closed d | (True, d) \<Rightarrow> (True, d, [])))))"

section \<open>What opening establishes\<close>

definition kernel_buffers :: "(nat \<Rightarrow> buffer_calls) \<Rightarrow> (drm_buffer \<Rightarrow> bool) \<Rightarrow> bool" where
  "kernel_buffers calls fits \<longleftrightarrow>
     (\<forall>i. case bc_create (calls i) of None \<Rightarrow> True
        | Some (handle, pitch, byte_count) \<Rightarrow> \<forall>b. bu_pitch b = pitch \<and> bu_size b = byte_count \<longrightarrow> fits b)"

lemma fail_drm_simps [simp]: "fst (fail_drm e operation d) = False" "fail_drm e operation d \<noteq> (True, d')"
  by (simp_all add: fail_drm_def)

lemma allocate_bufferD:
  assumes "allocate_buffer e calls d b = ((True, d'), b')"
  shows "d' = d \<and> (\<exists>handle framebuffer. bc_create calls = Some (handle, bu_pitch b', bu_size b') \<and> bu_handle b' = handle \<and>
    bc_framebuffer calls = Some framebuffer \<and> bu_framebuffer b' = framebuffer) \<and>
    bu_map b' = Some (replicate (bu_size b' div 4) 0)"
  using assms by (auto simp: allocate_buffer_def Let_def split: option.splits if_splits)

lemma allocate_both:
  assumes "allocate_buffers e calls [0, 1] (d\<lparr>dr_buffers := [empty_buffer, empty_buffer]\<rparr>) = (True, d')"
    and "kernel_buffers calls fits"
  shows "\<exists>b b'. d' = d\<lparr>dr_buffers := [b, b']\<rparr> \<and> fits b \<and> fits b' \<and>
    bu_map b = Some (replicate (bu_size b div 4) 0) \<and> bu_map b' = Some (replicate (bu_size b' div 4) 0)"
proof -
  let ?d = "d\<lparr>dr_buffers := [empty_buffer, empty_buffer]\<rparr>"
  obtain ok d1 b where first: "allocate_buffer e (calls 0) ?d empty_buffer = ((ok, d1), b)" by (metis prod.exhaust)
  have ok: ok using assms(1) first by (auto simp: Let_def split: if_splits)
  note b = allocate_bufferD [OF first [unfolded eqTrueI [OF ok]]]
  let ?d1 = "d\<lparr>dr_buffers := [b, empty_buffer]\<rparr>"
  obtain ok' d2 b' where second: "allocate_buffer e (calls 1) ?d1 empty_buffer = ((ok', d2), b')" by (metis prod.exhaust)
  have rest: "(if \<not> ok' then (False, d2\<lparr>dr_buffers := (dr_buffers d2)[1 := b']\<rparr>)
      else (True, d2\<lparr>dr_buffers := (dr_buffers d2)[1 := b']\<rparr>)) = (True, d')"
    using assms(1) first ok b second by (simp add: Let_def split: if_splits)
  then have ok': ok' by (simp split: if_splits)
  note b' = allocate_bufferD [OF second [unfolded eqTrueI [OF ok']]]
  have "d' = d\<lparr>dr_buffers := [b, b']\<rparr>" using rest ok' b' by simp
  moreover have "fits b" "fits b'"
    using assms(2) [unfolded kernel_buffers_def, THEN spec, of 0] assms(2) [unfolded kernel_buffers_def, THEN spec, of 1] b b' by auto
  ultimately show ?thesis using b b' by blast
qed

lemma apply_overlayD:
  assumes "apply_overlay e env plane crtc connector w h d = (True, d')"
  shows "dr_overlay_mode d' \<and> dr_rotation d' \<in> {0, 90, 180, 270} \<and> dr_profile d' = dr_profile d \<and>
    rp_logical_width (dr_profile d) = w \<and> rp_logical_height (dr_profile d) = h \<and>
    dr_buffer_width d' = (if turned (dr_rotation d') then h else w) \<and>
    dr_buffer_height d' = (if turned (dr_rotation d') then w else h) \<and>
    dr_mode d' = \<lparr>dm_hdisplay = nat (dr_buffer_width d'), dm_vdisplay = nat (dr_buffer_height d')\<rparr> \<and>
    dr_active_buffer d' = dr_active_buffer d \<and> dr_flip_pending d' = dr_flip_pending d \<and>
    dr_saved_crtc d' = dr_saved_crtc d \<and> dr_modeset_done d' = dr_modeset_done d"
proof -
  let ?bad = "w \<noteq> rp_logical_width (dr_profile d) \<or> h \<noteq> rp_logical_height (dr_profile d) \<or>
      (dr_rotation d \<noteq> 0 \<and> dr_rotation d \<noteq> 90 \<and> dr_rotation d \<noteq> 180 \<and> dr_rotation d \<noteq> 270) \<or>
      4096 - dr_overlay_width d < dr_overlay_x d \<or> 4096 - dr_overlay_height d < dr_overlay_y d"
  have good: "\<not> ?bad"
  proof
    assume bad: ?bad
    show False using assms unfolding apply_overlay_def if_P [OF bad] by simp
  qed
  obtain device pixel where vars: "getenv env ''LVGL_DRM_DEVICE'' = Some device" "getenv env ''LVGL_PIXEL_FORMAT'' = Some pixel"
    using assms unfolding apply_overlay_def if_not_P [OF good] by (simp split: option.splits)
  let ?bad' = "device \<noteq> rp_drm_device (dr_profile d) \<or> (pixel \<noteq> ''XRGB8888'' \<and> pixel \<noteq> ''ARGB8888'')"
  have good': "\<not> ?bad'"
  proof
    assume bad: ?bad'
    show False using assms unfolding apply_overlay_def if_not_P [OF good] vars option.case prod.case if_P [OF bad] by simp
  qed
  have "d' = snd (apply_overlay e env plane crtc connector w h d)" using assms by simp
  then show ?thesis
    unfolding apply_overlay_def if_not_P [OF good] vars option.case prod.case if_not_P [OF good'] Let_def snd_conv
    using good by simp
qed

lemma store_settings_frame:
  "dr_profile (snd (store_settings env overlay_settings d)) = dr_profile d \<and>
   dr_active_buffer (snd (store_settings env overlay_settings d)) = dr_active_buffer d \<and>
   dr_flip_pending (snd (store_settings env overlay_settings d)) = dr_flip_pending d \<and>
   dr_saved_crtc (snd (store_settings env overlay_settings d)) = dr_saved_crtc d \<and>
   dr_modeset_done (snd (store_settings env overlay_settings d)) = dr_modeset_done d"
  by (simp add: overlay_settings_def split: option.split)

lemma environment_integer_bounds: "environment_integer env name minimum maximum = Some n \<Longrightarrow> minimum \<le> n \<and> n \<le> maximum"
  by (auto simp: environment_integer_def split: option.splits if_splits)

lemma configure_overlayD:
  assumes "configure_overlay e env d = (True, d')" "getenv env ''LVGL_DRM_OVERLAY_PLANE_ID'' \<noteq> None"
  shows "dr_overlay_mode d' \<and> dr_rotation d' \<in> {0, 90, 180, 270} \<and> dr_profile d' = dr_profile d \<and>
    240 \<le> rp_logical_width (dr_profile d) \<and> 80 \<le> rp_logical_height (dr_profile d) \<and>
    dr_buffer_width d' = (if turned (dr_rotation d') then rp_logical_height (dr_profile d) else rp_logical_width (dr_profile d)) \<and>
    dr_buffer_height d' = (if turned (dr_rotation d') then rp_logical_width (dr_profile d) else rp_logical_height (dr_profile d)) \<and>
    dr_mode d' = \<lparr>dm_hdisplay = nat (dr_buffer_width d'), dm_vdisplay = nat (dr_buffer_height d')\<rparr> \<and>
    dr_active_buffer d' = dr_active_buffer d \<and> dr_flip_pending d' = dr_flip_pending d \<and>
    dr_saved_crtc d' = dr_saved_crtc d \<and> dr_modeset_done d' = dr_modeset_done d"
proof -
  obtain ok d1 where store: "store_settings env overlay_settings d = (ok, d1)" by fastforce
  note frame = store_settings_frame [of env d, unfolded store snd_conv]
  obtain plane crtc connector w h where
    e: "environment_integer env ''LVGL_LOGICAL_WIDTH'' 240 4096 = Some w" "environment_integer env ''LVGL_LOGICAL_HEIGHT'' 80 2048 = Some h"
    and applied: "apply_overlay e env plane crtc connector w h d1 = (True, d')"
    using assms by (simp add: configure_overlay_def store split: option.splits bool.splits)
  note bounds = environment_integer_bounds [OF e(1)] environment_integer_bounds [OF e(2)]
  show ?thesis using apply_overlayD [OF applied] frame bounds by auto
qed

end
