(* ===== verification/Drm_Present.thy ===== *)
theory Drm_Present
  imports Drm_Backend
begin

text \<open>
  Frames on the display (\<open>DrmBackend::present_logical\<close>): a frame is copied, rotated, into the buffer that is not
  shown, which is then shown. A result of \<open>None\<close> is a read or write outside a buffer, which the code does not
  check.
\<close>

section \<open>Copying a frame\<close>

text \<open>The index of a word of a buffer, in the 32 bits of the code.\<close>

definition word_index :: "u32 \<Rightarrow> int \<times> int \<Rightarrow> nat" where
  "word_index stride t = nat ((snd t * uint stride + fst t) mod 2 ^ 32)"

definition overlay_target :: "int \<Rightarrow> int \<Rightarrow> int \<Rightarrow> int \<Rightarrow> int \<Rightarrow> int \<times> int" where
  "overlay_target rotation width height x y =
     (if rotation = 90 then (height - 1 - y, x)
      else if rotation = 180 then (width - 1 - x, height - 1 - y)
      else if rotation = 270 then (y, width - 1 - x)
      else (x, y))"

definition physical_target :: "runtime_profile \<Rightarrow> int \<Rightarrow> int \<Rightarrow> int \<Rightarrow> int \<times> int" where
  "physical_target profile width x y = (rp_display_cross_axis_offset profile + y, width - 1 - x)"

fun copy_loop :: "u32 list \<Rightarrow> int \<Rightarrow> u32 \<Rightarrow> (int \<Rightarrow> int \<Rightarrow> int \<times> int) \<Rightarrow> (nat \<times> nat) list \<Rightarrow> u32 list \<Rightarrow> u32 list option" where
  "copy_loop pixels width stride target [] memory = Some memory"
| "copy_loop pixels width stride target ((y, x) # ps) memory =
     (let source = y * nat width + x; index = word_index stride (target (int x) (int y))
      in if length pixels \<le> source \<or> length memory \<le> index then None
         else copy_loop pixels width stride target ps (memory[index := pixels ! source]))"

definition copy_frame :: "u32 list \<Rightarrow> int \<Rightarrow> int \<Rightarrow> u32 \<Rightarrow> (int \<Rightarrow> int \<Rightarrow> int \<times> int) \<Rightarrow> u32 list \<Rightarrow> u32 list option" where
  "copy_frame pixels width height stride target memory =
     copy_loop pixels width stride target (List.product [0..<nat height] [0..<nat width]) memory"

section \<open>Presenting it\<close>

datatype flip_request = Flip_queued | Flip_invalid | Flip_refused

record present_calls =
  pc_before :: "flip_wait list"
  pc_set_plane :: bool
  pc_set_crtc :: bool
  pc_page_flip :: flip_request
  pc_recovery :: bool
  pc_after :: "flip_wait list"
  pc_strerror :: string

definition next_buffer :: "drm_backend \<Rightarrow> nat" where
  "next_buffer d = (if dr_active_buffer d = 0 then 1 else 0)"

definition present_overlay :: "present_calls \<Rightarrow> drm_buffer \<Rightarrow> nat \<Rightarrow> drm_backend \<Rightarrow> bool \<times> drm_backend \<times> drm_call list" where
  "present_overlay calls buffer n d =
     (let shown = [Set_plane (bu_framebuffer buffer) (dr_overlay_x d) (dr_overlay_y d) (dr_overlay_width d) (dr_overlay_height d)
            (dr_buffer_width d * 65536) (dr_buffer_height d * 65536)]
      in if \<not> pc_set_plane calls
         then (case fail_drm (pc_strerror calls) ''drmModeSetPlane overlay'' d of (ok, d) \<Rightarrow> (ok, d, shown))
         else (True, d\<lparr>dr_modeset_done := True, dr_active_buffer := int n\<rparr>, shown))"

definition present_crtc :: "present_calls \<Rightarrow> drm_buffer \<Rightarrow> nat \<Rightarrow> drm_backend \<Rightarrow> bool \<times> drm_backend \<times> drm_call list" where
  "present_crtc calls buffer n d =
     (let fb = bu_framebuffer buffer;
          failed = (\<lambda>operation d shown. case fail_drm (pc_strerror calls) operation d of (ok, d) \<Rightarrow> (ok, d, shown)) in
      if \<not> dr_modeset_done d
      then if \<not> pc_set_crtc calls then failed ''drmModeSetCrtc'' d [Set_crtc fb]
           else (True, d\<lparr>dr_modeset_done := True, dr_active_buffer := int n\<rparr>, [Set_crtc fb])
      else case pc_page_flip calls of
        Flip_queued \<Rightarrow>
          (case wait_for_flip (pc_strerror calls) (pc_after calls) (d\<lparr>dr_flip_pending := True\<rparr>) of
             (False, d) \<Rightarrow> (False, d, [Page_flip fb])
           | (True, d) \<Rightarrow> (True, d\<lparr>dr_active_buffer := int n\<rparr>, [Page_flip fb]))
      | result \<Rightarrow>
          let d = d\<lparr>dr_flip_pending := False\<rparr>
          in if result = Flip_invalid \<and> dr_page_flip_recoveries d < 1
             then if pc_recovery calls
                  then (True, d\<lparr>dr_page_flip_recoveries := dr_page_flip_recoveries d + 1, dr_active_buffer := int n\<rparr>,
                        [Page_flip fb, Set_crtc fb])
                  else failed ''drmModeSetCrtc recovery'' d [Page_flip fb, Set_crtc fb]
             else failed ''drmModePageFlip'' d [Page_flip fb])"

definition present_logical ::
    "present_calls \<Rightarrow> u32 list option \<Rightarrow> int \<Rightarrow> int \<Rightarrow> drm_backend \<Rightarrow> (bool \<times> drm_backend \<times> drm_call list) option" where
  "present_logical calls pixels width height d =
     (if dr_fd d < 0 \<or> pixels = None \<or> width \<noteq> rp_logical_width (dr_profile d) \<or> height \<noteq> rp_logical_height (dr_profile d)
      then Some (case fail_drm (pc_strerror calls) ''present arguments'' d of (ok, d) \<Rightarrow> (ok, d, []))
      else case (if dr_flip_pending d then wait_for_flip (pc_strerror calls) (pc_before calls) d else (True, d)) of
        (False, d) \<Rightarrow> Some (False, d, [])
      | (True, d) \<Rightarrow>
        let n = next_buffer d in
        if length (dr_buffers d) \<le> n \<or> bu_map (dr_buffers d ! n) = None then None
        else let buffer = dr_buffers d ! n;
                 stride = word_of_nat (unat (bu_pitch buffer) div 4);
                 target = (if dr_overlay_mode d then overlay_target (dr_rotation d) width height else physical_target (dr_profile d) width)
          in case copy_frame (the pixels) width height stride target (replicate (bu_size buffer div 4) 0) of
               None \<Rightarrow> None
             | Some memory \<Rightarrow>
               let d = d\<lparr>dr_buffers := (dr_buffers d)[n := buffer\<lparr>bu_map := Some memory\<rparr>]\<rparr>
               in Some (if dr_overlay_mode d then present_overlay calls buffer n d else present_crtc calls buffer n d))"

text \<open>Frames presented one after the other, whether or not each succeeds.\<close>

fun present_frames :: "int \<Rightarrow> int \<Rightarrow> (present_calls \<times> u32 list) list \<Rightarrow> drm_backend \<Rightarrow> (drm_backend \<times> drm_call list) option" where
  "present_frames width height [] d = Some (d, [])"
| "present_frames width height ((calls, pixels) # frames) d =
     (case present_logical calls (Some pixels) width height d of None \<Rightarrow> None
      | Some (ok, d', shown) \<Rightarrow> map_option (apsnd ((@) shown)) (present_frames width height frames d'))"

section \<open>What a copy leaves in the buffer\<close>

lemma copy_loop_exact:
  fixes pixels :: "u32 list" and width :: int and stride :: u32 and target :: "int \<Rightarrow> int \<Rightarrow> int \<times> int" and memory :: "u32 list"
  defines "index \<equiv> \<lambda>(y, x). word_index stride (target (int x) (int y))" and "source \<equiv> \<lambda>(y, x). y * nat width + x"
  assumes "distinct ps" "inj_on index (set ps)"
    and "\<And>p. p \<in> set ps \<Longrightarrow> index p < length memory \<and> source p < length pixels"
  shows "\<exists>memory'. copy_loop pixels width stride target ps memory = Some memory' \<and> length memory' = length memory \<and>
    (\<forall>p\<in>set ps. memory' ! index p = pixels ! source p) \<and> (\<forall>i. i \<notin> index ` set ps \<longrightarrow> memory' ! i = memory ! i)"
  using assms(3-5)
proof (induction ps arbitrary: memory)
  case Nil
  then show ?case by simp
next
  case (Cons p ps)
  obtain y x where p: "p = (y, x)" by fastforce
  define next_memory where "next_memory = memory[index p := pixels ! source p]"
  have bounds: "index p < length memory" "source p < length pixels" using Cons.prems(3) [of p] by simp_all
  obtain memory' where o: "copy_loop pixels width stride target ps next_memory = Some memory'" "length memory' = length next_memory"
    "\<forall>q\<in>set ps. memory' ! index q = pixels ! source q" "\<forall>i. i \<notin> index ` set ps \<longrightarrow> memory' ! i = next_memory ! i"
    using Cons.IH [of next_memory] Cons.prems by (auto simp: next_memory_def)
  have "index p \<notin> index ` set ps" using Cons.prems(1,2) by (auto simp: inj_on_def)
  then have "memory' ! index p = pixels ! source p" using o(4) bounds(1) by (simp add: next_memory_def)
  moreover have "copy_loop pixels width stride target (p # ps) memory = Some memory'"
    using o(1) bounds by (simp add: p index_def source_def next_memory_def Let_def not_le)
  moreover have "i \<notin> index ` set (p # ps) \<Longrightarrow> memory' ! i = memory ! i" for i using o(4) by (simp add: next_memory_def)
  ultimately show ?case using o(2,3) by (intro exI [of _ memory']) (auto simp: next_memory_def)
qed

text \<open>A target inside a rectangle no wider than the stride has a word of its own.\<close>

lemma word_index_inside:
  assumes "0 \<le> tx" "tx < uint stride" "0 \<le> ty" "(ty + 1) * uint stride \<le> 2 ^ 32"
  shows "int (word_index stride (tx, ty)) = ty * uint stride + tx"
proof -
  have "ty * uint stride + tx < (ty + 1) * uint stride" using assms(2) by (simp add: algebra_simps)
  then have "ty * uint stride + tx < 2 ^ 32" "0 \<le> ty * uint stride + tx" using assms by simp_all
  then show ?thesis by (simp add: word_index_def)
qed

lemma word_index_inj:
  assumes "0 \<le> tx" "tx < uint stride" "0 \<le> ty" "(ty + 1) * uint stride \<le> 2 ^ 32"
    and "0 \<le> tx'" "tx' < uint stride" "0 \<le> ty'" "(ty' + 1) * uint stride \<le> 2 ^ 32"
    and "word_index stride (tx, ty) = word_index stride (tx', ty')"
  shows "tx = tx' \<and> ty = ty'"
proof -
  have eq: "ty * uint stride + tx = ty' * uint stride + tx'"
    using word_index_inside [OF assms(1-4)] word_index_inside [OF assms(5-8)] assms(9) by simp
  have "(ty * uint stride + tx) div uint stride = ty" "(ty' * uint stride + tx') div uint stride = ty'"
    using assms(1,2,5,6) by simp_all
  then have "ty = ty'" using eq by simp
  then show ?thesis using eq by simp
qed

text \<open>The rotated rectangle.\<close>

definition right_rotation :: "int \<Rightarrow> bool" where
  "right_rotation rotation \<longleftrightarrow> rotation \<in> {0, 90, 180, 270}"

lemma overlay_target_inside:
  assumes "right_rotation rotation" "0 \<le> x" "x < width" "0 \<le> y" "y < height"
  shows "0 \<le> fst (overlay_target rotation width height x y) \<and> 0 \<le> snd (overlay_target rotation width height x y) \<and>
    fst (overlay_target rotation width height x y) < (if turned rotation then height else width) \<and>
    snd (overlay_target rotation width height x y) < (if turned rotation then width else height)"
  using assms by (auto simp: right_rotation_def overlay_target_def turned_def)

lemma overlay_target_inj:
  assumes "right_rotation rotation" "overlay_target rotation width height x y = overlay_target rotation width height x' y'"
  shows "x = x' \<and> y = y'"
  using assms by (auto simp: right_rotation_def overlay_target_def)

text \<open>It is the rotation of the device profiles.\<close>

lemma overlay_target_rotates:
  assumes "right_rotation rotation" "0 \<le> x" "x < width" "0 \<le> y" "y < height"
  shows "overlay_target rotation width height x y =
    (let p = rotate_logical \<lparr>pt_x = x, pt_y = y\<rparr> \<lparr>sz_width = width, sz_height = height\<rparr>
         \<lparr>tm_degrees = nat rotation, tm_offset_x = 0, tm_offset_y = 0\<rparr> in (pt_x p, pt_y p))"
  using assms by (auto simp: right_rotation_def overlay_target_def rotate_logical_def Let_def)

text \<open>A buffer of the kernel for the mode: lines of at least the width, all lines, and sizes of 32 bits.\<close>

definition buffer_fits :: "int \<Rightarrow> int \<Rightarrow> drm_buffer \<Rightarrow> bool" where
  "buffer_fits width height buffer \<longleftrightarrow> width \<le> uint (bu_pitch buffer) div 4 \<and>
     uint (bu_pitch buffer) * height \<le> int (bu_size buffer) \<and> int (bu_size buffer) \<le> 2 ^ 32"

text \<open>A buffer holds a frame: every logical point is at the position the device profiles rotate it to.\<close>

definition frame_in :: "u32 list \<Rightarrow> int \<Rightarrow> int \<Rightarrow> int \<Rightarrow> drm_buffer \<Rightarrow> bool" where
  "frame_in pixels rotation width height buffer \<longleftrightarrow>
     (\<exists>memory. bu_map buffer = Some memory \<and> length memory = bu_size buffer div 4 \<and>
       (\<forall>x y. 0 \<le> x \<and> x < width \<and> 0 \<le> y \<and> y < height \<longrightarrow>
          (let p = rotate_logical \<lparr>pt_x = x, pt_y = y\<rparr> \<lparr>sz_width = width, sz_height = height\<rparr>
               \<lparr>tm_degrees = nat rotation, tm_offset_x = 0, tm_offset_y = 0\<rparr>
           in memory ! nat (pt_y p * (uint (bu_pitch buffer) div 4) + pt_x p) = pixels ! nat (y * width + x))))"

lemma stride_uint: "uint (word_of_nat (unat (pitch :: u32) div 4) :: u32) = uint pitch div 4"
proof -
  have "unat pitch < 2 ^ LENGTH(32)" by (rule unsigned_less)
  then have "unat pitch div 4 < 2 ^ 32" using div_le_dividend [of "unat pitch" 4] by simp
  then have "unat (word_of_nat (unat pitch div 4) :: u32) = unat pitch div 4" by (simp add: unat_of_nat)
  then show ?thesis by (metis of_nat_numeral uint_nat zdiv_int)
qed

lemma copy_frame_shown:
  assumes "right_rotation rotation" "0 < width" "0 < height"
    and "buffer_fits (if turned rotation then height else width) (if turned rotation then width else height) buffer"
    and "length pixels = nat (width * height)"
  shows "\<exists>memory. copy_frame pixels width height (word_of_nat (unat (bu_pitch buffer) div 4)) (overlay_target rotation width height)
      (replicate (bu_size buffer div 4) 0) = Some memory \<and> frame_in pixels rotation width height (buffer\<lparr>bu_map := Some memory\<rparr>)"
proof -
  define stride :: u32 where "stride = word_of_nat (unat (bu_pitch buffer) div 4)"
  define target where "target = overlay_target rotation width height"
  define w where "w = (if turned rotation then height else width)"
  define h where "h = (if turned rotation then width else height)"
  define index where "index = (\<lambda>(y, x). word_index stride (target (int x) (int y)))"
  define source where "source = (\<lambda>(y, x). y * nat width + x)"
  define ps where "ps = List.product [0..<nat height] [0..<nat width]"
  have stride: "uint stride = uint (bu_pitch buffer) div 4" by (simp add: stride_def stride_uint)
  have fits: "w \<le> uint stride" "uint (bu_pitch buffer) * h \<le> int (bu_size buffer)" "int (bu_size buffer) \<le> 2 ^ 32" "0 < h"
    using assms(2-4) by (simp_all add: buffer_fits_def w_def h_def stride)
  have lines: "uint stride * h \<le> int (bu_size buffer div 4)"
  proof -
    have "4 * uint stride \<le> uint (bu_pitch buffer)" unfolding stride by simp
    then have "4 * (uint stride * h) \<le> uint (bu_pitch buffer) * h"
      using fits(4) mult_right_mono [of "4 * uint stride" "uint (bu_pitch buffer)" h] by simp
    then have "uint stride * h \<le> int (bu_size buffer) div 4" using fits(2) by linarith
    then show ?thesis by (simp add: zdiv_int)
  qed
  have inside: "0 \<le> fst (target x y)" "fst (target x y) < uint stride" "0 \<le> snd (target x y)" "snd (target x y) + 1 \<le> h"
    if "0 \<le> x" "x < width" "0 \<le> y" "y < height" for x y
    using overlay_target_inside [OF assms(1) that] fits(1) by (simp_all add: target_def w_def h_def split: if_splits)
  have upper: "(snd (target x y) + 1) * uint stride \<le> int (bu_size buffer div 4)" if "0 \<le> x" "x < width" "0 \<le> y" "y < height" for x y
    using mult_right_mono [OF inside(4) [OF that], of "uint stride"] lines by (simp add: mult.commute)
  have small: "int (bu_size buffer div 4) \<le> 2 ^ 32" using fits(3) by (simp add: zdiv_int)
  have limit: "(snd (target x y) + 1) * uint stride \<le> 2 ^ 32" if "0 \<le> x" "x < width" "0 \<le> y" "y < height" for x y
    using upper [OF that] small by linarith
  have at: "int (word_index stride (target x y)) = snd (target x y) * uint stride + fst (target x y)"
    if "0 \<le> x" "x < width" "0 \<le> y" "y < height" for x y
    using word_index_inside [of "fst (target x y)" stride "snd (target x y)"] inside [OF that] limit [OF that] by simp
  have ps: "distinct ps" "p \<in> set ps \<longleftrightarrow> int (fst p) < height \<and> int (snd p) < width" for p
    by (auto simp: ps_def distinct_product mem_Times_iff)
  have inj: "inj_on index (set ps)"
  proof (rule inj_onI)
    fix p q assume p: "p \<in> set ps" and q: "q \<in> set ps" and eq: "index p = index q"
    define t where "t = (\<lambda>p :: nat \<times> nat. target (int (snd p)) (int (fst p)))"
    have range: "0 \<le> int (snd p)" "int (snd p) < width" "0 \<le> int (fst p)" "int (fst p) < height"
      "0 \<le> int (snd q)" "int (snd q) < width" "0 \<le> int (fst q)" "int (fst q) < height"
      using p q ps(2) by simp_all
    have same: "word_index stride (fst (t p), snd (t p)) = word_index stride (fst (t q), snd (t q))"
      using eq by (simp add: index_def case_prod_unfold t_def)
    have tp: "0 \<le> fst (t p)" "fst (t p) < uint stride" "0 \<le> snd (t p)" "(snd (t p) + 1) * uint stride \<le> 2 ^ 32"
      unfolding t_def using inside(1-3) [OF range(1-4)] limit [OF range(1-4)] by blast+
    have tq: "0 \<le> fst (t q)" "fst (t q) < uint stride" "0 \<le> snd (t q)" "(snd (t q) + 1) * uint stride \<le> 2 ^ 32"
      unfolding t_def using inside(1-3) [OF range(5-8)] limit [OF range(5-8)] by blast+
    have "fst (t p) = fst (t q)" "snd (t p) = snd (t q)" using word_index_inj [OF tp tq same] by blast+
    then have "target (int (snd p)) (int (fst p)) = target (int (snd q)) (int (fst q))"
      unfolding t_def by (rule prod_eqI)
    then show "p = q"
      using overlay_target_inj [OF assms(1), of width height "int (snd p)" "int (fst p)" "int (snd q)" "int (fst q)"]
      by (simp add: target_def prod_eq_iff)
  qed
  have bounds: "index p < bu_size buffer div 4 \<and> source p < length pixels" if "p \<in> set ps" for p
  proof -
    have p: "int (fst p) < height" "int (snd p) < width" using that ps(2) by simp_all
    have "int (index p) < (snd (target (int (snd p)) (int (fst p))) + 1) * uint stride"
      using at [of "int (snd p)" "int (fst p)"] inside(2) [of "int (snd p)" "int (fst p)"] p
      by (simp add: index_def case_prod_unfold algebra_simps)
    then have "int (index p) < int (bu_size buffer div 4)" using upper [of "int (snd p)" "int (fst p)"] p by linarith
    moreover have "int (source p) < width * height"
    proof -
      have "int (source p) < (int (fst p) + 1) * width" using p assms(2) by (simp add: source_def case_prod_unfold algebra_simps)
      also have "\<dots> \<le> height * width" using p assms(2) by (intro mult_right_mono) simp_all
      finally show ?thesis by (simp add: mult.commute)
    qed
    ultimately show ?thesis using assms(5) by linarith
  qed
  obtain memory where o: "copy_loop pixels width stride target ps (replicate (bu_size buffer div 4) 0) = Some memory"
    "length memory = bu_size buffer div 4" "\<forall>p\<in>set ps. memory ! index p = pixels ! source p"
    using copy_loop_exact [of ps stride target "replicate (bu_size buffer div 4) 0" width pixels] ps(1) inj bounds
    unfolding index_def source_def by (metis length_replicate)
  have "memory ! nat (snd (target x y) * uint stride + fst (target x y)) = pixels ! nat (y * width + x)"
    if xy: "0 \<le> x" "x < width" "0 \<le> y" "y < height" for x y
  proof -
    have mem: "(nat y, nat x) \<in> set ps" using xy by (simp add: ps(2))
    have "index (nat y, nat x) = nat (snd (target x y) * uint stride + fst (target x y))"
      using at [OF xy] xy by (simp add: index_def)
    moreover have "source (nat y, nat x) = nat (y * width + x)"
      using xy by (simp add: source_def nat_mult_distrib nat_add_distrib)
    ultimately show ?thesis using o(3) mem by metis
  qed
  then have "frame_in pixels rotation width height (buffer\<lparr>bu_map := Some memory\<rparr>)"
    using o(2) overlay_target_rotates [OF assms(1), of _ width _ height] by (simp add: frame_in_def target_def stride Let_def)
  then show ?thesis using o(1) by (auto simp: copy_frame_def ps_def stride_def target_def)
qed

section \<open>A display that shows frames\<close>

definition overlay_ok :: "drm_backend \<Rightarrow> bool" where
  "overlay_ok d \<longleftrightarrow> dr_overlay_mode d \<and> 0 \<le> dr_fd d \<and> right_rotation (dr_rotation d) \<and>
     0 < rp_logical_width (dr_profile d) \<and> 0 < rp_logical_height (dr_profile d) \<and>
     dr_buffer_width d = (if turned (dr_rotation d) then rp_logical_height (dr_profile d) else rp_logical_width (dr_profile d)) \<and>
     dr_buffer_height d = (if turned (dr_rotation d) then rp_logical_width (dr_profile d) else rp_logical_height (dr_profile d)) \<and>
     length (dr_buffers d) = 2 \<and>
     (\<forall>b\<in>set (dr_buffers d). buffer_fits (dr_buffer_width d) (dr_buffer_height d) b \<and> bu_map b \<noteq> None) \<and>
     dr_active_buffer d \<in> {- 1, 0, 1} \<and> \<not> dr_flip_pending d \<and> dr_saved_crtc d = None"

lemma open_inheritedD: "open_inherited calls env d = (True, d') \<Longrightarrow> \<exists>fd. 3 \<le> fd \<and> d' = d\<lparr>dr_fd := fd\<rparr> \<and>
    environment_integer env ''LVGL_DRM_FD'' 3 int_max_value = Some fd"
  using environment_integer_bounds by (auto simp: open_inherited_def split: option.splits if_splits)

lemma validate_overlay_targetD: "validate_overlay_target e device d = (True, d') \<Longrightarrow> d' = d"
  by (auto simp: validate_overlay_target_def Let_def split: option.splits if_splits)

lemma open_drm_overlayD:
  assumes "open_drm calls env (new_drm_backend profile) = (True, d, shown)" "getenv env ''LVGL_DRM_OVERLAY_PLANE_ID'' \<noteq> None"
  shows "\<exists>d1 fd. configure_overlay (oc_strerror calls) env (new_drm_backend profile) = (True, d1) \<and> 3 \<le> fd \<and>
    environment_integer env ''LVGL_DRM_FD'' 3 int_max_value = Some fd \<and>
    allocate_buffers (oc_strerror calls) (oc_buffers calls) [0, 1] (d1\<lparr>dr_fd := fd, dr_buffers := [empty_buffer, empty_buffer]\<rparr>) = (True, d) \<and>
    shown = []"
proof -
  have closed: "dr_fd (new_drm_backend profile) = - 1" by (simp add: new_drm_backend_def)
  obtain ok1 d1 where c: "configure_overlay (oc_strerror calls) env (new_drm_backend profile) = (ok1, d1)" by fastforce
  have ok1: ok1 using assms(1) closed c by (cases ok1) (simp_all add: open_drm_def Let_def)
  have mode: "dr_overlay_mode d1" using configure_overlayD [OF c [unfolded eqTrueI [OF ok1]] assms(2)] by simp
  obtain ok2 d2 where i: "open_inherited calls env d1 = (ok2, d2)" by fastforce
  have ok2: ok2 using assms(1) closed c ok1 mode i by (cases ok2) (simp_all add: open_drm_def Let_def)
  obtain fd where fd: "3 \<le> fd" "d2 = d1\<lparr>dr_fd := fd\<rparr>" "environment_integer env ''LVGL_DRM_FD'' 3 int_max_value = Some fd"
    using open_inheritedD [OF i [unfolded eqTrueI [OF ok2]]] by blast
  have dumb: "oc_dumb calls"
    using assms(1) closed c ok1 mode i ok2 by (cases "oc_dumb calls") (simp_all add: open_drm_def Let_def split: prod.splits)
  obtain ok3 d3 where v: "validate_overlay_target (oc_strerror calls) (oc_device calls) d2 = (ok3, d3)" by fastforce
  have ok3: ok3
    using assms(1) closed c ok1 mode i ok2 dumb v fd(2) by (cases ok3) (simp_all add: open_drm_def Let_def split: prod.splits)
  have d3: "d3 = d2" by (rule validate_overlay_targetD [OF v [unfolded eqTrueI [OF ok3]]])
  obtain ok4 d4 where a: "allocate_buffers (oc_strerror calls) (oc_buffers calls) [0, 1] (d3\<lparr>dr_buffers := [empty_buffer, empty_buffer]\<rparr>) = (ok4, d4)"
    by fastforce
  have ok4: ok4
    using assms(1) closed c ok1 mode i ok2 dumb v ok3 d3 a fd(2)
    by (cases ok4) (simp_all add: open_drm_def Let_def del: allocate_buffers.simps split: prod.splits)
  have "d4 = d \<and> shown = []"
    using assms(1) closed c ok1 mode i ok2 dumb v ok3 d3 a ok4 fd(2)
    by (simp add: open_drm_def Let_def del: allocate_buffers.simps)
  then show ?thesis using c ok1 fd a ok4 d3 by auto
qed

lemma open_overlay_ok:
  assumes "open_drm calls env (new_drm_backend profile) = (True, d, shown)" "getenv env ''LVGL_DRM_OVERLAY_PLANE_ID'' \<noteq> None"
    and "kernel_buffers (oc_buffers calls) (buffer_fits (dr_buffer_width d) (dr_buffer_height d))"
  shows "overlay_ok d \<and> dr_profile d = profile \<and> environment_integer env ''LVGL_DRM_FD'' 3 int_max_value = Some (dr_fd d)"
proof -
  obtain d1 fd where d: "configure_overlay (oc_strerror calls) env (new_drm_backend profile) = (True, d1)" "3 \<le> fd"
    "environment_integer env ''LVGL_DRM_FD'' 3 int_max_value = Some fd"
    "allocate_buffers (oc_strerror calls) (oc_buffers calls) [0, 1] (d1\<lparr>dr_fd := fd, dr_buffers := [empty_buffer, empty_buffer]\<rparr>) = (True, d)"
    using open_drm_overlayD [OF assms(1,2)] by blast
  obtain b b' where b: "d = d1\<lparr>dr_fd := fd, dr_buffers := [b, b']\<rparr>"
    "buffer_fits (dr_buffer_width d) (dr_buffer_height d) b" "buffer_fits (dr_buffer_width d) (dr_buffer_height d) b'"
    "bu_map b \<noteq> None" "bu_map b' \<noteq> None"
  proof -
    have "allocate_buffers (oc_strerror calls) (oc_buffers calls) [0, 1]
        ((d1\<lparr>dr_fd := fd\<rparr>)\<lparr>dr_buffers := [empty_buffer, empty_buffer]\<rparr>) = (True, d)"
      using d(4) by (simp del: allocate_buffers.simps)
    from allocate_both [OF this assms(3)] show thesis using that by auto
  qed
  note c = configure_overlayD [OF d(1) assms(2)]
  show ?thesis
    using b c d(2,3) by (simp add: overlay_ok_def right_rotation_def new_drm_backend_def)
qed

text \<open>One frame: never outside the buffer, only into the buffer that is not shown, and shown as a whole or not at all.\<close>

definition frame_presented :: "u32 list \<Rightarrow> drm_backend \<Rightarrow> bool \<times> drm_backend \<times> drm_call list \<Rightarrow> bool" where
  "frame_presented pixels d result =
     (case result of (ok, d', shown) \<Rightarrow>
        let n = next_buffer d; p = dr_profile d in
        int n \<noteq> dr_active_buffer d \<and> (\<forall>i. i \<noteq> n \<longrightarrow> dr_buffers d' ! i = dr_buffers d ! i) \<and>
        shown = [Set_plane (bu_framebuffer (dr_buffers d ! n)) (dr_overlay_x d) (dr_overlay_y d) (dr_overlay_width d)
          (dr_overlay_height d) (dr_buffer_width d * 65536) (dr_buffer_height d * 65536)] \<and>
        bu_framebuffer (dr_buffers d' ! n) = bu_framebuffer (dr_buffers d ! n) \<and>
        frame_in pixels (dr_rotation d) (rp_logical_width p) (rp_logical_height p) (dr_buffers d' ! n) \<and>
        dr_active_buffer d' = (if ok then int n else dr_active_buffer d))"

lemma present_overlay_frame:
  assumes "overlay_ok d" "width = rp_logical_width (dr_profile d)" "height = rp_logical_height (dr_profile d)"
    and "length pixels = nat (width * height)"
  shows "\<exists>result. present_logical calls (Some pixels) width height d = Some result \<and> frame_presented pixels d result \<and>
    overlay_ok (fst (snd result)) \<and> dr_profile (fst (snd result)) = dr_profile d \<and> dr_fd (fst (snd result)) = dr_fd d"
proof -
  define n where "n = next_buffer d"
  define buffer where "buffer = dr_buffers d ! n"
  have n: "n < length (dr_buffers d)" "int n \<noteq> dr_active_buffer d" "int n \<in> {0, 1}"
    using assms(1) by (auto simp: n_def next_buffer_def overlay_ok_def)
  have fits: "buffer_fits (dr_buffer_width d) (dr_buffer_height d) buffer" "bu_map buffer \<noteq> None"
    using assms(1) n(1) by (auto simp: overlay_ok_def buffer_def)
  obtain memory where copy: "copy_frame pixels width height (word_of_nat (unat (bu_pitch buffer) div 4))
      (overlay_target (dr_rotation d) width height) (replicate (bu_size buffer div 4) 0) = Some memory"
    "frame_in pixels (dr_rotation d) width height (buffer\<lparr>bu_map := Some memory\<rparr>)"
    using copy_frame_shown [of "dr_rotation d" width height buffer pixels] assms fits(1) by (auto simp: overlay_ok_def)
  define d' where "d' = d\<lparr>dr_buffers := (dr_buffers d)[n := buffer\<lparr>bu_map := Some memory\<rparr>]\<rparr>"
  have overlay: "dr_overlay_mode d'" using assms(1) by (simp add: d'_def overlay_ok_def)
  have result: "present_logical calls (Some pixels) width height d = Some (present_overlay calls buffer n d')"
    using assms(1-3) n(1) fits(2) copy(1) overlay
    by (simp add: present_logical_def overlay_ok_def Let_def n_def [symmetric] buffer_def [symmetric] d'_def [symmetric])
  have "overlay_ok d'"
    using assms(1) n(1) fits(1)
    by (auto simp: overlay_ok_def d'_def buffer_fits_def dest!: set_update_subset_insert [THEN subsetD])
  then have "overlay_ok (fst (snd (present_overlay calls buffer n d')))"
    using n(3) by (auto simp: present_overlay_def fail_drm_def overlay_ok_def Let_def)
  moreover have "frame_presented pixels d (present_overlay calls buffer n d')"
    using n(1,2) copy(2) assms(2,3)
    by (simp add: present_overlay_def fail_drm_def frame_presented_def Let_def n_def [symmetric] buffer_def [symmetric] d'_def)
  moreover have "dr_profile (fst (snd (present_overlay calls buffer n d'))) = dr_profile d \<and>
      dr_fd (fst (snd (present_overlay calls buffer n d'))) = dr_fd d"
    by (simp add: present_overlay_def fail_drm_def Let_def d'_def)
  ultimately show ?thesis using result by blast
qed

lemma present_frames_ok:
  assumes "overlay_ok d" "width = rp_logical_width (dr_profile d)" "height = rp_logical_height (dr_profile d)"
    and "list_all (\<lambda>(calls, pixels). length pixels = nat (width * height)) frames"
  shows "\<exists>d' shown. present_frames width height frames d = Some (d', shown) \<and> overlay_ok d' \<and>
    dr_profile d' = dr_profile d \<and> dr_fd d' = dr_fd d \<and> (\<forall>c\<in>set shown. case c of Set_plane _ _ _ _ _ _ _ \<Rightarrow> True | _ \<Rightarrow> False)"
  using assms
proof (induction frames arbitrary: d)
  case Nil
  then show ?case by simp
next
  case (Cons f frames)
  obtain calls pixels where f: "f = (calls, pixels)" by fastforce
  obtain ok d1 shown where one: "present_logical calls (Some pixels) width height d = Some (ok, d1, shown)"
    "frame_presented pixels d (ok, d1, shown)" "overlay_ok d1" "dr_profile d1 = dr_profile d" "dr_fd d1 = dr_fd d"
    using present_overlay_frame [of d width height pixels calls] Cons.prems f by fastforce
  obtain d2 rest where "present_frames width height frames d1 = Some (d2, rest)" "overlay_ok d2" "dr_profile d2 = dr_profile d"
    "dr_fd d2 = dr_fd d" "\<forall>c\<in>set rest. case c of Set_plane _ _ _ _ _ _ _ \<Rightarrow> True | _ \<Rightarrow> False"
    using Cons.IH [OF one(3)] one(4,5) Cons.prems by auto
  moreover have "\<forall>c\<in>set shown. case c of Set_plane _ _ _ _ _ _ _ \<Rightarrow> True | _ \<Rightarrow> False"
    using one(2) by (simp add: frame_presented_def Let_def)
  ultimately show ?case using one(1) f by auto
qed

text \<open>
  Without an overlay the shown buffer can be written: when a page flip is queued but not seen in time, the buffer
  that is being shown stays the next one to be filled.
\<close>

lemma late_flip_reuses_buffer:
  assumes "\<not> dr_overlay_mode d" "dr_modeset_done d" "pc_page_flip calls = Flip_queued" "pc_after calls = []"
    and "present_logical calls (Some pixels) width height d = Some (ok, d', shown)" "shown \<noteq> []"
  shows "\<not> ok \<and> shown = [Page_flip (bu_framebuffer (dr_buffers d ! next_buffer d))] \<and> dr_flip_pending d' \<and>
    next_buffer d' = next_buffer d"
proof -
  obtain ok1 d1 where w: "(if dr_flip_pending d then wait_for_flip (pc_strerror calls) (pc_before calls) d else (True, d)) = (ok1, d1)"
    by fastforce
  have same: "d1 = d\<lparr>dr_flip_pending := dr_flip_pending d1, dr_error := dr_error d1\<rparr>"
  proof -
    have "snd (wait_for_flip e ws d) = d\<lparr>dr_flip_pending := dr_flip_pending (snd (wait_for_flip e ws d)),
        dr_error := dr_error (snd (wait_for_flip e ws d))\<rparr>" for e ws d
      by (induction e ws d rule: wait_for_flip.induct) (auto simp: fail_drm_def split: flip_wait.split)
    from this [of "pc_strerror calls" "pc_before calls" d] w show ?thesis by (auto split: if_splits)
  qed
  have "next_buffer d1 = next_buffer d" "dr_buffers d1 = dr_buffers d" "dr_overlay_mode d1 = dr_overlay_mode d"
    "dr_modeset_done d1 = dr_modeset_done d"
    by (subst same, simp add: next_buffer_def)+
  then show ?thesis
    using assms w
    by (auto simp: present_logical_def present_crtc_def fail_drm_def Let_def next_buffer_def split: if_splits option.splits bool.splits)
qed

section \<open>Properties\<close>

text \<open>C18. Once the display of a program is open on its overlay, whatever frames were presented and whichever calls failed,
  presenting a frame writes inside the buffer that is not shown and nowhere else; the buffer then holds the frame,
  every pixel where the device profile of the platform rotates it, and is shown exactly when the call to show it
  succeeds: a frame on the screen is never changed. The kernel gives buffers as large as it was asked for.\<close>

theorem frames_shown_whole:
  assumes "open_drm calls env (new_drm_backend profile) = (True, d, [])" "getenv env ''LVGL_DRM_OVERLAY_PLANE_ID'' \<noteq> None"
    and "kernel_buffers (oc_buffers calls) (buffer_fits (dr_buffer_width d) (dr_buffer_height d))"
    and "width = rp_logical_width profile" "height = rp_logical_height profile"
    and "list_all (\<lambda>(calls, pixels). length pixels = nat (width * height)) (frames @ [(calls', pixels)])"
  shows "\<exists>d' shown result. present_frames width height frames d = Some (d', shown) \<and>
    present_logical calls' (Some pixels) width height d' = Some result \<and> frame_presented pixels d' result"
proof -
  note d = open_overlay_ok [OF assms(1-3)]
  obtain d' shown where frames: "present_frames width height frames d = Some (d', shown)" "overlay_ok d'" "dr_profile d' = profile"
    using present_frames_ok [of d width height frames] d assms(4-6) by auto
  then show ?thesis
    using present_overlay_frame [of d' width height pixels calls'] assms(4-6) by auto
qed

end
