(* ===== verification/Runtime_Display.thy ===== *)
theory Runtime_Display
  imports Runtime_Sandbox Drm_Present
begin

text \<open>
  The display of a program in its session: which signed profiles of the session configure it, and that what it asks
  of the device afterwards is what its sandbox allows.
\<close>

section \<open>Configuration by the session\<close>

lemma certified_environment:
  fixes profile program_id policy ds notice
  assumes "certified_profile profile"
  defines "env \<equiv> program_environment profile program_id policy ds notice"
  shows "environment_integer env ''LVGL_DRM_OVERLAY_PLANE_ID'' 1 int_max_value =
      (if int (sp_overlay_plane_id profile) \<le> int_max_value then Some (int (sp_overlay_plane_id profile)) else None)"
    and "environment_integer env ''LVGL_DRM_CRTC_ID'' 1 int_max_value =
      (if int (sp_crtc_id profile) \<le> int_max_value then Some (int (sp_crtc_id profile)) else None)"
    and "environment_integer env ''LVGL_DRM_CONNECTOR_ID'' 1 int_max_value =
      (if int (sp_connector_id profile) \<le> int_max_value then Some (int (sp_connector_id profile)) else None)"
    and "environment_integer env ''LVGL_DISPLAY_X'' 0 4096 = Some (sp_display_x profile)"
    and "environment_integer env ''LVGL_DISPLAY_Y'' 0 4096 = Some (sp_display_y profile)"
    and "environment_integer env ''LVGL_DISPLAY_WIDTH'' 80 4096 = Some (sp_display_width profile)"
    and "environment_integer env ''LVGL_DISPLAY_HEIGHT'' 80 4096 = Some (sp_display_height profile)"
    and "environment_integer env ''LVGL_DRM_OVERLAY_ZPOS'' 0 128 = Some (sp_overlay_zpos profile)"
    and "environment_integer env ''LVGL_DISPLAY_ROTATION'' 0 270 = Some (int (sp_display_rotation profile))"
    and "environment_integer env ''LVGL_LOGICAL_WIDTH'' 240 4096 = Some (sp_logical_width profile)"
    and "environment_integer env ''LVGL_LOGICAL_HEIGHT'' 80 2048 = Some (sp_logical_height profile)"
proof -
  note c = assms(1) [unfolded certified_profile_def]
  note v = program_environment_values [of profile program_id policy ds notice, folded env_def]
  show "environment_integer env ''LVGL_DRM_OVERLAY_PLANE_ID'' 1 int_max_value =
      (if int (sp_overlay_plane_id profile) \<le> int_max_value then Some (int (sp_overlay_plane_id profile)) else None)"
    using environment_integer_number [OF v(11)] c by simp
  show "environment_integer env ''LVGL_DRM_CRTC_ID'' 1 int_max_value =
      (if int (sp_crtc_id profile) \<le> int_max_value then Some (int (sp_crtc_id profile)) else None)"
    using environment_integer_number [OF v(10)] c by simp
  show "environment_integer env ''LVGL_DRM_CONNECTOR_ID'' 1 int_max_value =
      (if int (sp_connector_id profile) \<le> int_max_value then Some (int (sp_connector_id profile)) else None)"
    using environment_integer_number [OF v(9)] c by simp
  show "environment_integer env ''LVGL_DISPLAY_X'' 0 4096 = Some (sp_display_x profile)"
    using environment_integer_int [OF v(13)] c by simp
  show "environment_integer env ''LVGL_DISPLAY_Y'' 0 4096 = Some (sp_display_y profile)"
    using environment_integer_int [OF v(14)] c by simp
  show "environment_integer env ''LVGL_DISPLAY_WIDTH'' 80 4096 = Some (sp_display_width profile)"
    using environment_integer_int [OF v(15)] c by simp
  show "environment_integer env ''LVGL_DISPLAY_HEIGHT'' 80 4096 = Some (sp_display_height profile)"
    using environment_integer_int [OF v(16)] c by simp
  show "environment_integer env ''LVGL_DRM_OVERLAY_ZPOS'' 0 128 = Some (sp_overlay_zpos profile)"
    using environment_integer_int [OF v(12)] c by simp
  show "environment_integer env ''LVGL_DISPLAY_ROTATION'' 0 270 = Some (int (sp_display_rotation profile))"
    using environment_integer_number [OF v(17)] c by auto
  show "environment_integer env ''LVGL_LOGICAL_WIDTH'' 240 4096 = Some (sp_logical_width profile)"
    using environment_integer_int [OF v(6)] c by simp
  show "environment_integer env ''LVGL_LOGICAL_HEIGHT'' 80 2048 = Some (sp_logical_height profile)"
    using environment_integer_int [OF v(7)] c by simp
qed

definition session_display :: "session_profile \<Rightarrow> drm_backend \<Rightarrow> drm_backend" where
  "session_display profile d =
     d\<lparr>dr_plane_id := word_of_nat (sp_overlay_plane_id profile), dr_crtc_id := word_of_nat (sp_crtc_id profile),
       dr_connector_id := word_of_nat (sp_connector_id profile),
       dr_framebuffer_format := (if sp_pixel_format profile = ''ARGB8888'' then Format_ARGB8888 else Format_XRGB8888),
       dr_overlay_x := sp_display_x profile, dr_overlay_y := sp_display_y profile, dr_overlay_width := sp_display_width profile,
       dr_overlay_height := sp_display_height profile, dr_overlay_zpos := sp_overlay_zpos profile,
       dr_rotation := int (sp_display_rotation profile), dr_overlay_mode := True,
       dr_buffer_width := (if turned (int (sp_display_rotation profile)) then sp_logical_height profile else sp_logical_width profile),
       dr_buffer_height := (if turned (int (sp_display_rotation profile)) then sp_logical_width profile else sp_logical_height profile),
       dr_mode := \<lparr>dm_hdisplay = nat (if turned (int (sp_display_rotation profile)) then sp_logical_height profile else sp_logical_width profile),
         dm_vdisplay = nat (if turned (int (sp_display_rotation profile)) then sp_logical_width profile else sp_logical_height profile)\<rparr>\<rparr>"

text \<open>The ids of the signed profile have 32 bits, those of the program 31; its screen has one size.\<close>

definition displayable :: "session_profile \<Rightarrow> runtime_profile \<Rightarrow> bool" where
  "displayable profile device \<longleftrightarrow>
     sp_logical_width profile = rp_logical_width device \<and> sp_logical_height profile = rp_logical_height device \<and>
     sp_drm_device profile = rp_drm_device device \<and>
     int (sp_overlay_plane_id profile) \<le> int_max_value \<and> int (sp_crtc_id profile) \<le> int_max_value \<and>
     int (sp_connector_id profile) \<le> int_max_value"

lemma configure_certified:
  assumes "certified_profile profile"
  shows "fst (configure_overlay e (program_environment profile program_id policy ds notice) (new_drm_backend device)) \<longleftrightarrow>
      displayable profile device"
    and "displayable profile device \<Longrightarrow>
      configure_overlay e (program_environment profile program_id policy ds notice) (new_drm_backend device) =
        (True, session_display profile (new_drm_backend device))"
proof -
  define env where "env = program_environment profile program_id policy ds notice"
  note v = program_environment_values [of profile program_id policy ds notice, folded env_def]
  note i = certified_environment [OF assms, of program_id policy ds notice, folded env_def]
  note c = assms [unfolded certified_profile_def]
  define d1 where "d1 = (new_drm_backend device)\<lparr>dr_overlay_x := sp_display_x profile, dr_overlay_y := sp_display_y profile,
      dr_overlay_width := sp_display_width profile, dr_overlay_height := sp_display_height profile,
      dr_overlay_zpos := sp_overlay_zpos profile, dr_rotation := int (sp_display_rotation profile)\<rparr>"
  have store: "store_settings env overlay_settings (new_drm_backend device) = (True, d1)"
    by (simp add: overlay_settings_def i(4-9) d1_def)
  have format: "sp_pixel_format profile \<noteq> ''XRGB8888'' \<and> sp_pixel_format profile \<noteq> ''ARGB8888'' \<longleftrightarrow> False" using c by auto
  have rotation: "(dr_rotation d1 \<noteq> 0 \<and> dr_rotation d1 \<noteq> 90 \<and> dr_rotation d1 \<noteq> 180 \<and> dr_rotation d1 \<noteq> 270) \<longleftrightarrow> False"
    using c by (auto simp: d1_def)
  have rectangle: "(4096 - dr_overlay_width d1 < dr_overlay_x d1) \<longleftrightarrow> False" "(4096 - dr_overlay_height d1 < dr_overlay_y d1) \<longleftrightarrow> False"
    using c by (auto simp: d1_def)
  have profile_d1: "dr_profile d1 = device" by (simp add: d1_def new_drm_backend_def)
  have applied: "apply_overlay e env plane crtc connector (sp_logical_width profile) (sp_logical_height profile) d1 =
      (if sp_logical_width profile \<noteq> rp_logical_width device \<or> sp_logical_height profile \<noteq> rp_logical_height device
       then fail_drm e ''certified overlay environment'' d1
       else if sp_drm_device profile \<noteq> rp_drm_device device then fail_drm e ''certified overlay format'' d1
       else (True, (session_display profile (new_drm_backend device))\<lparr>dr_plane_id := word_of_int plane, dr_crtc_id := word_of_int crtc,
         dr_connector_id := word_of_int connector\<rparr>))" for plane crtc connector
    by (simp add: apply_overlay_def rotation rectangle profile_d1 v(8,18) format Let_def)
      (simp add: d1_def session_display_def)
  have result: "configure_overlay e env (new_drm_backend device) =
      (if int (sp_overlay_plane_id profile) \<le> int_max_value \<and> int (sp_crtc_id profile) \<le> int_max_value \<and>
          int (sp_connector_id profile) \<le> int_max_value
       then apply_overlay e env (int (sp_overlay_plane_id profile)) (int (sp_crtc_id profile)) (int (sp_connector_id profile))
         (sp_logical_width profile) (sp_logical_height profile) d1
       else fail_drm e ''certified overlay environment'' (new_drm_backend device))"
    unfolding configure_overlay_def i store v(11) by simp
  show "fst (configure_overlay e env (new_drm_backend device)) \<longleftrightarrow> displayable profile device"
    unfolding result applied displayable_def by (auto split: if_splits)
  show "configure_overlay e env (new_drm_backend device) = (True, session_display profile (new_drm_backend device))"
    if "displayable profile device"
    using that unfolding result applied displayable_def by (simp add: session_display_def)
qed

text \<open>C20. A program configures its display from the signed profile the session gives it exactly when the profile has the
  screen size compiled into the program and object ids below \<open>2 ^ 31\<close>, and then it uses the plane, CRTC,
  connector, rectangle, rotation and format of the profile. The session accepts more: other sizes and ids
  of 32 bits, with which no program can start.\<close>

theorem session_profile_displayed:
  assumes "certified_profile profile"
  shows "(if sp_logical_width profile = 960 \<and> sp_logical_height profile = 266 \<and>
        int (sp_overlay_plane_id profile) \<le> int_max_value \<and> int (sp_crtc_id profile) \<le> int_max_value \<and>
        int (sp_connector_id profile) \<le> int_max_value
      then configure_overlay e (program_environment profile program_id policy ds notice) (new_drm_backend kY01Profile) =
        (True, session_display profile (new_drm_backend kY01Profile))
      else \<not> fst (configure_overlay e (program_environment profile program_id policy ds notice) (new_drm_backend kY01Profile)))"
proof -
  have "sp_drm_device profile = ''/dev/dri/card0''" using assms by (simp add: certified_profile_def)
  then have "displayable profile kY01Profile \<longleftrightarrow> sp_logical_width profile = 960 \<and> sp_logical_height profile = 266 \<and>
        int (sp_overlay_plane_id profile) \<le> int_max_value \<and> int (sp_crtc_id profile) \<le> int_max_value \<and>
        int (sp_connector_id profile) \<le> int_max_value"
    by (simp add: displayable_def kY01Profile_def)
  then show ?thesis using configure_certified [OF assms, where e = e and device = kY01Profile and program_id = program_id and policy = policy
      and ds = ds and notice = notice] by simp
qed

section \<open>The display in the sandbox\<close>

text \<open>The request that the library of the display makes for each call.\<close>

fun call_request :: "drm_call \<Rightarrow> string" where
  "call_request (Set_plane _ _ _ _ _ _ _) = ''DRM_IOCTL_MODE_SETPLANE''"
| "call_request Disable_plane = ''DRM_IOCTL_MODE_SETPLANE''"
| "call_request (Set_crtc _) = ''DRM_IOCTL_MODE_SETCRTC''"
| "call_request (Restore_crtc _) = ''DRM_IOCTL_MODE_SETCRTC''"
| "call_request (Page_flip _) = ''DRM_IOCTL_MODE_PAGE_FLIP''"
| "call_request (Remove_framebuffer _) = ''DRM_IOCTL_MODE_RMFB''"
| "call_request (Destroy_dumb _) = ''DRM_IOCTL_MODE_DESTROY_DUMB''"

definition display_call :: "linux_abi \<Rightarrow> ('call \<Rightarrow> u32 \<Rightarrow> u32) \<Rightarrow> int \<Rightarrow> drm_call \<Rightarrow> 'call \<Rightarrow> bool" where
  "display_call abi load fd c call \<longleftrightarrow>
     load call (ab_offset_arch abi) = ab_audit_arch abi \<and> load call (ab_offset_nr abi) = ab_syscall abi ''ioctl'' \<and>
     load call (ab_offset_argument abi 0) = word_of_int fd \<and> load call (ab_offset_argument abi 1) = ab_request abi (call_request c)"

lemma close_overlay_calls:
  assumes "overlay_ok d" "c \<in> set (snd (close_drm e waits d))"
  shows "call_request c \<in> {''DRM_IOCTL_MODE_SETPLANE'', ''DRM_IOCTL_MODE_RMFB'', ''DRM_IOCTL_MODE_DESTROY_DUMB''}"
proof -
  have "call_request c \<in> {''DRM_IOCTL_MODE_RMFB'', ''DRM_IOCTL_MODE_DESTROY_DUMB''}" if "c \<in> set (release_buffer b)" for b
    using that by (auto simp: release_buffer_def split: if_splits)
  then show ?thesis using assms by (auto simp: close_drm_def overlay_ok_def Let_def split: if_splits)
qed

text \<open>C19. Once a program of the session has opened its display and installed its sandbox, every request it makes to show
  frames and to release the display in the end is one that the filter allows: the sandbox never kills it for
  its display.\<close>

theorem display_within_sandbox:
  assumes "open_drm calls env (new_drm_backend profile) = (True, d, [])" "getenv env ''LVGL_DRM_OVERLAY_PLANE_ID'' \<noteq> None"
    and "kernel_buffers (oc_buffers calls) (buffer_fits (dr_buffer_width d) (dr_buffer_height d))"
    and "install_runtime_sandbox abi sys env = Inr (Some rules)"
    and "bpf_machine run load" "ab_syscall abi ''ioctl'' \<notin> ab_syscall abi ` {''openat'', ''mmap'', ''mprotect''}"
    and "list_all (\<lambda>(calls, pixels). length pixels = nat (rp_logical_width profile * rp_logical_height profile)) frames"
    and "present_frames (rp_logical_width profile) (rp_logical_height profile) frames d = Some (d', shown)"
    and "c \<in> set (shown @ snd (close_drm e waits d'))" "display_call abi load (dr_fd d) c call"
  shows "run rules call a = ab_allow abi"
proof -
  note d = open_overlay_ok [OF assms(1-3)]
  have fd: "environment_integer env ''LVGL_DRM_FD'' 0 int_max_value = Some (dr_fd d)"
    using d by (auto simp: environment_integer_def split: option.splits if_splits)
  have rules: "rules = sandbox_filter abi (word_of_int (dr_fd d))"
    using assms(4) fd by (auto simp: install_runtime_sandbox_def install_aarch64_filter_def Let_def split: option.splits if_splits)
  have d': "overlay_ok d'" and shown: "\<forall>c\<in>set shown. case c of Set_plane _ _ _ _ _ _ _ \<Rightarrow> True | _ \<Rightarrow> False"
    using present_frames_ok [of d "rp_logical_width profile" "rp_logical_height profile" frames] d assms(7,8) by auto
  have "call_request c \<in> {''DRM_IOCTL_MODE_SETPLANE'', ''DRM_IOCTL_MODE_RMFB'', ''DRM_IOCTL_MODE_DESTROY_DUMB''}"
  proof (cases "c \<in> set shown")
    case True
    then have "case c of Set_plane _ _ _ _ _ _ _ \<Rightarrow> True | _ \<Rightarrow> False" using shown by blast
    then show ?thesis by (cases c) simp_all
  next
    case False
    then show ?thesis using close_overlay_calls [OF d'] assms(9) by auto
  qed
  then have "load call (ab_offset_argument abi 1) \<in> set (drm_requests abi)"
    using assms(10) by (auto simp: display_call_def drm_requests_def)
  then show ?thesis
    unfolding rules bpf_machine.filter_verdict [OF assms(5)] Let_def
    using assms(6,10) by (auto simp: display_call_def)
qed

end
