(* ===== verification/Input_Backend.thy ===== *)
theory Input_Backend
  imports Environment Device_Profile "HOL-Library.Signed_Division"
begin

text \<open>
  The input of a program (\<open>src/platform/input/input_backend.cpp\<close>): touch frames forwarded by the session, or the
  events of a touch device, folded into the state of one pointer that the user interface looks at. What the
  descriptors, devices and the socket yield are arguments. Coordinates are mathematical integers.
\<close>

section \<open>Backend\<close>

record pointer_state =
  ps_point :: point
  ps_pressed :: bool
  ps_changed :: bool
  ps_raw_x :: int
  ps_raw_y :: int

definition new_pointer :: pointer_state where
  "new_pointer = \<lparr>ps_point = \<lparr>pt_x = 0, pt_y = 0\<rparr>, ps_pressed = False, ps_changed = False, ps_raw_x = 0, ps_raw_y = 0\<rparr>"

record input_backend =
  ib_profile :: runtime_profile
  ib_fd :: int
  ib_forwarded :: bool
  ib_min_x :: int
  ib_max_x :: int
  ib_min_y :: int
  ib_max_y :: int
  ib_pointer :: pointer_state
  ib_error :: string

definition new_input_backend :: "runtime_profile \<Rightarrow> input_backend" where
  "new_input_backend profile = \<lparr>ib_profile = profile, ib_fd = - 1, ib_forwarded = False, ib_min_x = 0, ib_max_x = 480,
     ib_min_y = 0, ib_max_y = 960, ib_pointer = new_pointer, ib_error = []\<rparr>"

text \<open>The calls: whether a descriptor is a datagram socket and its flags can be set, the device behind a number
  with its name and its axes, and the text of \<open>errno\<close>.\<close>

record input_calls =
  ic_datagram_socket :: "int \<Rightarrow> bool"
  ic_nonblocking :: "int \<Rightarrow> bool"
  ic_device :: "nat \<Rightarrow> int option"
  ic_name :: "int \<Rightarrow> string option"
  ic_axis_x :: "int \<Rightarrow> (int \<times> int) option"
  ic_axis_y :: "int \<Rightarrow> (int \<times> int) option"
  ic_strerror :: string

definition fail_input :: "input_calls \<Rightarrow> string \<Rightarrow> input_backend \<Rightarrow> bool \<times> input_backend" where
  "fail_input calls operation ib = (False, ib\<lparr>ib_error := operation @ '': '' @ ic_strerror calls\<rparr>)"

definition open_forwarded :: "input_calls \<Rightarrow> string list \<Rightarrow> input_backend \<Rightarrow> input_backend option" where
  "open_forwarded calls env ib =
     (case environment_integer env ''LVGL_TOUCH_FD'' 3 int_max_value of None \<Rightarrow> None
      | Some fd \<Rightarrow>
        if \<not> ic_datagram_socket calls fd then None
        else if \<not> ic_nonblocking calls fd then None
        else Some (ib\<lparr>ib_fd := fd, ib_forwarded := True\<rparr>))"

definition read_axis :: "(int \<times> int) option \<Rightarrow> (int \<times> int) option" where
  "read_axis info = (case info of None \<Rightarrow> None | Some (minimum, maximum) \<Rightarrow> if minimum < maximum then Some (minimum, maximum) else None)"

definition use_device :: "input_calls \<Rightarrow> int \<Rightarrow> input_backend \<Rightarrow> input_backend" where
  "use_device calls fd ib =
     (let p = ib_profile ib in
      case (read_axis (ic_axis_x calls fd), read_axis (ic_axis_y calls fd)) of
        (Some (min_x, max_x), Some (min_y, max_y)) \<Rightarrow>
          ib\<lparr>ib_fd := fd, ib_min_x := min_x, ib_max_x := max_x, ib_min_y := min_y, ib_max_y := max_y\<rparr>
      | _ \<Rightarrow> ib\<lparr>ib_fd := fd, ib_min_x := 0, ib_max_x := rp_physical_width p, ib_min_y := 0, ib_max_y := rp_physical_height p\<rparr>)"

fun find_device :: "input_calls \<Rightarrow> string \<Rightarrow> nat list \<Rightarrow> int option" where
  "find_device calls touch_name [] = None"
| "find_device calls touch_name (index # indexes) =
     (case ic_device calls index of None \<Rightarrow> find_device calls touch_name indexes
      | Some fd \<Rightarrow> if ic_name calls fd = Some touch_name then Some fd else find_device calls touch_name indexes)"

definition open_input :: "input_calls \<Rightarrow> string list \<Rightarrow> input_backend \<Rightarrow> bool \<times> input_backend" where
  "open_input calls env ib =
     (if 0 \<le> ib_fd ib then (True, ib)
      else case open_forwarded calls env ib of Some ib' \<Rightarrow> (True, ib')
      | None \<Rightarrow>
        if getenv env ''LVGL_TOUCH_FD'' \<noteq> None then fail_input calls ''forwarded touch descriptor'' ib
        else case find_device calls (rp_touch_name (ib_profile ib)) [0..<32] of
          Some fd \<Rightarrow> (True, use_device calls fd ib)
        | None \<Rightarrow> fail_input calls ''touch device'' ib)"

definition close_input :: "input_backend \<Rightarrow> input_backend" where
  "close_input ib = (if 0 \<le> ib_fd ib then ib\<lparr>ib_fd := - 1, ib_forwarded := False\<rparr> else ib)"

section \<open>Polling\<close>

text \<open>What \<open>recv\<close> yields, one call after the other; it would block at the end of the list.\<close>

datatype recv_result = Recv_datagram bytes | Recv_interrupted | Recv_would_block | Recv_failed

definition point_frame :: "touch_frame \<Rightarrow> pointer_state \<Rightarrow> pointer_state" where
  "point_frame f p =
     p\<lparr>ps_raw_x := sint (tf_x f), ps_raw_y := sint (tf_y f), ps_point := \<lparr>pt_x = sint (tf_x f), pt_y = sint (tf_y f)\<rparr>,
       ps_pressed := (tf_phase f = Touch_start \<or> tf_phase f = Touch_move), ps_changed := True\<rparr>"

fun poll_forwarded :: "runtime_profile \<Rightarrow> recv_result list \<Rightarrow> pointer_state \<Rightarrow> pointer_state" where
  "poll_forwarded profile [] p = p"
| "poll_forwarded profile (Recv_interrupted # rs) p = poll_forwarded profile rs p"
| "poll_forwarded profile (Recv_would_block # rs) p = p"
| "poll_forwarded profile (Recv_failed # rs) p = p"
| "poll_forwarded profile (Recv_datagram bs # rs) p =
     (if bs = [] then p
      else let decoded = decode_touch_frame bs (word_of_int (rp_logical_width profile)) (word_of_int (rp_logical_height profile))
        in if \<not> error_ok (td_error decoded) \<or> tf_contact_id (td_frame decoded) \<noteq> 0 then poll_forwarded profile rs p
           else poll_forwarded profile rs (point_frame (td_frame decoded) p))"

definition map_raw :: "input_backend \<Rightarrow> int \<Rightarrow> int \<Rightarrow> point" where
  "map_raw ib raw_x raw_y =
     (let p = ib_profile ib;
          scale = (\<lambda>raw minimum maximum size. if minimum = maximum then raw else (raw - minimum) * size sdiv (maximum - minimum))
      in raw_touch_to_logical \<lparr>pt_x = scale raw_x (ib_min_x ib) (ib_max_x ib) (rp_physical_width p),
           pt_y = scale raw_y (ib_min_y ib) (ib_max_y ib) (rp_physical_height p)\<rparr> p)"

datatype input_event = Abs_tracking_id int | Abs_position_x int | Abs_position_y int | Key_touch int | Other_event

definition device_event :: "input_backend \<Rightarrow> input_event \<Rightarrow> pointer_state \<Rightarrow> pointer_state" where
  "device_event ib e p =
     (let moved = (\<lambda>p. p\<lparr>ps_point := map_raw ib (ps_raw_x p) (ps_raw_y p), ps_changed := True\<rparr>) in
      case e of
        Abs_tracking_id v \<Rightarrow> p\<lparr>ps_pressed := 0 \<le> v, ps_changed := True\<rparr>
      | Abs_position_x v \<Rightarrow> moved (p\<lparr>ps_raw_x := v\<rparr>)
      | Abs_position_y v \<Rightarrow> moved (p\<lparr>ps_raw_y := v\<rparr>)
      | Key_touch v \<Rightarrow> p\<lparr>ps_pressed := (v \<noteq> 0), ps_changed := True\<rparr>
      | Other_event \<Rightarrow> p)"

definition poll_input :: "recv_result list \<Rightarrow> input_event list \<Rightarrow> input_backend \<Rightarrow> input_backend" where
  "poll_input received events ib =
     (if ib_fd ib < 0 then ib
      else let p = (ib_pointer ib)\<lparr>ps_changed := False\<rparr>
        in ib\<lparr>ib_pointer :=
             if ib_forwarded ib then poll_forwarded (ib_profile ib) received p else fold (device_event ib) events p\<rparr>)"

section \<open>The pointer stays on the screen\<close>






lemma poll_datagram:
  "poll_forwarded profile (Recv_datagram bs # rs) p =
     (if bs = [] then p
      else case decoded_touch_frame (word_of_int (rp_logical_width profile)) (word_of_int (rp_logical_height profile)) bs of
        None \<Rightarrow> poll_forwarded profile rs p
      | Some f \<Rightarrow> poll_forwarded profile rs (if tf_contact_id f = 0 then point_frame f p else p))"
  by (simp add: decoded_touch_frame_def Let_def)




datatype input_operation = Input_open input_calls "string list" | Input_close | Input_poll "recv_result list" "input_event list"

fun input_step :: "input_operation \<Rightarrow> input_backend \<Rightarrow> input_backend" where
  "input_step (Input_open calls env) ib = snd (open_input calls env ib)"
| "input_step Input_close ib = close_input ib"
| "input_step (Input_poll received events) ib = poll_input received events ib"

lemma input_step_profile [simp]: "ib_profile (input_step x ib) = ib_profile ib"
  by (cases x) (auto simp: open_input_def open_forwarded_def fail_input_def use_device_def close_input_def poll_input_def Let_def
      split: option.splits)



section \<open>What a poll reads\<close>

text \<open>A poll folds the forwarded frames of the first contact, whatever else it gets.\<close>

lemma poll_frames:
  assumes "list_all (\<lambda>f. valid_touch_frame f (word_of_int (rp_logical_width profile)) (word_of_int (rp_logical_height profile))) fs"
  shows "poll_forwarded profile (map (Recv_datagram \<circ> encode_touch_frame) fs) p =
    fold point_frame (filter (\<lambda>f. tf_contact_id f = 0) fs) p"
  using assms
proof (induction fs arbitrary: p)
  case (Cons f fs)
  then have "decoded_touch_frame (word_of_int (rp_logical_width profile)) (word_of_int (rp_logical_height profile)) (encode_touch_frame f) = Some f"
    by (simp add: touch_wire_format)
  moreover have "encode_touch_frame f \<noteq> []" using length_encode_touch_frame [of f] by force
  ultimately show ?case using Cons by (simp add: poll_datagram del: poll_forwarded.simps(5))
qed simp


text \<open>Only the last frame of a poll counts: a touch that begins and ends between two polls is never seen pressed.\<close>

lemma tap_within_poll_lost:
  assumes "valid_touch_frame f (word_of_int (rp_logical_width profile)) (word_of_int (rp_logical_height profile))"
    "valid_touch_frame g (word_of_int (rp_logical_width profile)) (word_of_int (rp_logical_height profile))"
    and "tf_phase f = Touch_start" "tf_phase g = Touch_end" "tf_contact_id f = 0" "tf_contact_id g = 0"
  shows "\<not> ps_pressed (poll_forwarded profile (map (Recv_datagram \<circ> encode_touch_frame) [f, g]) p)"
  using poll_frames [of profile "[f, g]" p] assms by (simp add: point_frame_def)




definition first_contact :: "touch_frame list \<Rightarrow> touch_frame list" where
  "first_contact fs = filter (\<lambda>f. tf_contact_id f = 0) fs"



lemma first_contact_append [simp]: "first_contact (xs @ ys) = first_contact xs @ first_contact ys"
  by (simp add: first_contact_def)





section \<open>Properties\<close>


end
