(* ===== verification/Runtime_Sample.thy ===== *)
theory Runtime_Sample
  imports Session_Sample Launcher_Sample Runtime_Display Input_Backend
begin

text \<open>
  The desktop of the session sample in its sandbox, a finger that moves on the screen of a program that polls after each
  frame, and a program on the display of the device.
\<close>

section \<open>The sandbox\<close>

definition sample_sandbox :: "u32 \<Rightarrow> sandbox_system" where
  "sample_sandbox uid = \<lparr>sb_aarch64 = True, sb_euid = uid, sb_egid = uid, sb_dumpable = 0, sb_no_new_privs = True,
     sb_seccomp = True, sb_error = []\<rparr>"

lemma sample_filter_length: "length (sandbox_filter abi fd) \<le> 65535"
  by (simp add: sandbox_filter_def append_flag_restricted_syscall_def append_drm_ioctl_filter_def Let_def drm_requests_def
      allowed_syscalls_def)

lemma application_uid_int: "int (unat (application_uid app)) < 900100000"
proof -
  obtain h :: u32 where h: "application_uid app = 100000 + h mod 900000000"
    by (simp add: application_uid_def Let_def)
  have "unat (h mod 900000000) < 900000000" by (simp add: unat_mod)
  then have "unat (application_uid app) < 900100000"
    unfolding h by (subst unat_add_lem [THEN iffD1]) simp_all
  then show ?thesis by linarith
qed

lemma sample_sandbox_installed:
  assumes "\<not> sp_personal_unbound profile"
  shows "install_runtime_sandbox sample_abi (sample_sandbox (application_uid app_desktop)) (program_environment profile app_desktop
      \<lparr>pp_limits = pm_limits platform_manifest, pp_private_storage = False, pp_uid = application_uid app_desktop,
       pp_gid = application_uid app_desktop\<rparr> sample_descriptors No_notice) = Inr (Some (sandbox_filter sample_abi 11))"
proof -
  let ?uid = "application_uid app_desktop"
  let ?policy = "\<lparr>pp_limits = pm_limits platform_manifest, pp_private_storage = False, pp_uid = ?uid, pp_gid = ?uid\<rparr>"
  let ?env = "program_environment profile app_desktop ?policy sample_descriptors No_notice"
  have range: "?uid \<noteq> 0" "int (unat ?uid) \<le> int_max_value" "1 \<le> int (unat ?uid)"
  proof -
    have "100000 \<le> int (unat ?uid)" using application_uid_range [of app_desktop] by linarith
    then show "1 \<le> int (unat ?uid)" by linarith
    show "int (unat ?uid) \<le> int_max_value" using application_uid_int [of app_desktop] by (simp only: int_max_value_def)
    show "?uid \<noteq> 0" using application_uid_range [of app_desktop] by auto
  qed
  note vals = program_environment_values [of profile app_desktop ?policy sample_descriptors No_notice]
  have drm: "environment_integer ?env ''LVGL_DRM_FD'' 0 int_max_value = Some 11"
    using environment_integer_int [OF vals(3)] by (simp add: sample_descriptors_def int_max_value_def)
  have uid: "environment_integer ?env ''LVGL_APP_UID'' 0 int_max_value = Some (int (unat ?uid))"
    using environment_integer_number [of ?env "''LVGL_APP_UID''" "unat ?uid"] vals(5) assms range
    by (simp add: int_max_value_def)
  show ?thesis
    using range sample_filter_length [of sample_abi 11] assms
    unfolding install_runtime_sandbox_def vals(4) drm uid
    by (simp add: sample_sandbox_def install_aarch64_filter_def Let_def not_less)
qed

lemma program_sandboxed_witness:
  "\<exists>x. start_program good_child [(0, False), (7, True), (8, True), (12, True)] sample_profile app_desktop
      \<lparr>pp_limits = pm_limits platform_manifest, pp_private_storage = False, pp_uid = application_uid app_desktop,
       pp_gid = application_uid app_desktop\<rparr> sample_descriptors No_notice = Start_runs x \<and>
     install_runtime_sandbox sample_abi (sample_sandbox (application_uid app_desktop)) (xp_environment x) =
       Inr (Some (sandbox_filter sample_abi 11)) \<and> application_uid app_desktop \<noteq> 0"
proof -
  let ?uid = "application_uid app_desktop"
  let ?policy = "\<lparr>pp_limits = pm_limits platform_manifest, pp_private_storage = False, pp_uid = ?uid, pp_gid = ?uid\<rparr>"
  have limits: "rl_memory_mib (pm_limits platform_manifest) = 8" "rl_cpu_seconds (pm_limits platform_manifest) = 1"
    "rl_maximum_files (pm_limits platform_manifest) = 1" "rl_data_mib (pm_limits platform_manifest) = 1"
    using platform_limits by (simp_all add: platform_document_ok(3))
  have nonzero: "?uid \<noteq> 0" using application_uid_range [of app_desktop] by auto
  have unbound: "\<not> sp_personal_unbound sample_profile" by (simp add: sample_profile_def)
  let ?env = "program_environment sample_profile app_desktop ?policy sample_descriptors No_notice"
  obtain x where x: "start_program good_child [(0, False), (7, True), (8, True), (12, True)] sample_profile app_desktop
      ?policy sample_descriptors No_notice = Start_runs x" "xp_environment x = ?env"
    using limits nonzero unbound
    by (simp add: start_program_def Let_def inherited_descriptors_def sample_descriptors_def good_child_def apply_child_policy_def
        list_all_iff)
  have installed: "install_runtime_sandbox sample_abi (sample_sandbox ?uid) (xp_environment x) = Inr (Some (sandbox_filter sample_abi 11))"
    unfolding x(2) by (rule sample_sandbox_installed [OF unbound])
  have "ds_drm sample_descriptors = 11" by (simp add: sample_descriptors_def)
  then show ?thesis
    using program_sandboxed [OF x(1) installed] unbound x(1) installed by (auto simp: int_max_value_def)
qed

section \<open>A touch\<close>






section \<open>A display\<close>

definition y01_session :: session_profile where
  "y01_session = sample_profile\<lparr>sp_logical_width := 960, sp_logical_height := 266, sp_display_x := 107, sp_display_y := 0,
     sp_display_width := 266, sp_display_height := 960, sp_display_rotation := 270\<rparr>"

lemma y01_session_certified: "certified_profile y01_session"
  by (simp add: y01_session_def certified_profile_def sample_profile_def profile_token_def is_digit_def is_lower_def is_upper_def code_def dot_def dash_def)

definition y01_drm :: drm_device where
  "y01_drm = \<lparr>dv_universal_planes = True, dv_crtcs = Some [49], dv_connectors = [61], dv_encoders = [5],
     dv_connector = (\<lambda>_. Some \<lparr>cn_connector_id = 61, cn_type = Connector_DSI, cn_type_id = 1, cn_connected = True, cn_encoder_id = 5,
       cn_modes = []\<rparr>),
     dv_encoder = (\<lambda>_. Some \<lparr>en_encoder_id = 5, en_crtc_id = 49, en_possible_crtcs = 1\<rparr>), dv_crtc = (\<lambda>_. None),
     dv_planes = Some [55], dv_plane = (\<lambda>_. Some \<lparr>pn_possible_crtcs = 1, pn_formats = [Format_XRGB8888]\<rparr>),
     dv_properties = (\<lambda>_. Some [Some (''type'', 0), Some (''zpos'', 1)]), dv_type_overlay = 0\<rparr>"

definition y01_open :: open_calls where
  "y01_open = \<lparr>oc_identity = (\<lambda>_. True), oc_flags = (\<lambda>_. True), oc_open = - 1, oc_dumb = True, oc_device = y01_drm,
     oc_buffers = (\<lambda>i. \<lparr>bc_create = Some (word_of_nat (i + 1), 1088, 1044480), bc_framebuffer = Some (word_of_nat (i + 10)),
       bc_map_dumb = True, bc_mmap = True\<rparr>), oc_strerror = []\<rparr>"

definition y01_environment :: "u32 \<Rightarrow> string list" where
  "y01_environment uid = program_environment y01_session app_desktop
     \<lparr>pp_limits = pm_limits platform_manifest, pp_private_storage = False, pp_uid = uid, pp_gid = uid\<rparr> sample_descriptors No_notice"

lemma y01_sizes:
  "sp_logical_width y01_session = 960" "sp_logical_height y01_session = 266" "sp_overlay_plane_id y01_session = 55"
  "sp_crtc_id y01_session = 49" "sp_connector_id y01_session = 61"
  by (simp_all add: y01_session_def sample_profile_def)

lemma session_profile_displayed_witness:
  "configure_overlay [] (y01_environment 5000) (new_drm_backend kY01Profile) =
     (True, session_display y01_session (new_drm_backend kY01Profile))"
  using session_profile_displayed [OF y01_session_certified, of "[]" app_desktop] y01_sizes
  by (simp add: int_max_value_def y01_environment_def)

definition y01_shown :: drm_backend where
  "y01_shown = (session_display y01_session (new_drm_backend kY01Profile))\<lparr>dr_fd := 11, dr_buffers :=
     [\<lparr>bu_handle = 1, bu_pitch = 1088, bu_size = 1044480, bu_framebuffer = 10, bu_map = Some (replicate 261120 0)\<rparr>,
      \<lparr>bu_handle = 2, bu_pitch = 1088, bu_size = 1044480, bu_framebuffer = 11, bu_map = Some (replicate 261120 0)\<rparr>]\<rparr>"

lemma y01_displayable: "displayable y01_session kY01Profile"
  using y01_sizes by (simp add: displayable_def kY01Profile_def int_max_value_def) (simp add: y01_session_def sample_profile_def)

lemma y01_drm_descriptor:
  "getenv (y01_environment uid) ''LVGL_DRM_FD'' \<noteq> Some []"
  "getenv (y01_environment uid) ''LVGL_DRM_FD'' \<noteq> None"
  "environment_integer (y01_environment uid) ''LVGL_DRM_FD'' 3 int_max_value = Some 11"
proof -
  note v = program_environment_values(3) [of y01_session app_desktop
      "\<lparr>pp_limits = pm_limits platform_manifest, pp_private_storage = False, pp_uid = uid, pp_gid = uid\<rparr>" sample_descriptors No_notice,
      folded y01_environment_def]
  show i: "environment_integer (y01_environment uid) ''LVGL_DRM_FD'' 3 int_max_value = Some 11"
    using environment_integer_int [OF v] by (simp add: sample_descriptors_def int_max_value_def)
  then show "getenv (y01_environment uid) ''LVGL_DRM_FD'' \<noteq> Some []" "getenv (y01_environment uid) ''LVGL_DRM_FD'' \<noteq> None"
    by (auto simp: environment_integer_def split: option.splits if_splits)
qed

lemma y01_opened: "open_drm y01_open (y01_environment uid) (new_drm_backend kY01Profile) = (True, y01_shown, [])"
proof -
  have configured: "configure_overlay (oc_strerror y01_open) (y01_environment uid) (new_drm_backend kY01Profile) =
      (True, session_display y01_session (new_drm_backend kY01Profile))"
    unfolding y01_environment_def by (rule configure_certified(2) [OF y01_session_certified y01_displayable])
  define d where "d = session_display y01_session (new_drm_backend kY01Profile)"
  have d: "dr_overlay_mode d" "dr_plane_id d = 55" "dr_crtc_id d = 49" "dr_connector_id d = 61"
    "dr_framebuffer_format d = Format_XRGB8888" "dr_overlay_zpos d = 1"
    by (simp_all add: d_def session_display_def y01_session_def sample_profile_def)
  have inherited: "open_inherited y01_open (y01_environment uid) d = (True, d\<lparr>dr_fd := 11\<rparr>)"
    using y01_drm_descriptor [of uid] by (auto simp: open_inherited_def y01_open_def split: option.split)
  have target: "validate_overlay_target (oc_strerror y01_open) (oc_device y01_open) (d\<lparr>dr_fd := 11\<rparr>) = (True, d\<lparr>dr_fd := 11\<rparr>)"
    by (simp add: validate_overlay_target_def y01_open_def y01_drm_def d)
  have buffers: "allocate_buffers (oc_strerror y01_open) (oc_buffers y01_open) [0, 1] (d\<lparr>dr_fd := 11, dr_buffers := [empty_buffer, empty_buffer]\<rparr>) =
      (True, y01_shown)"
    by (simp add: y01_open_def allocate_buffer_def empty_buffer_def y01_shown_def d_def [symmetric])
  have closed: "dr_fd (new_drm_backend kY01Profile) = - 1" by (simp add: new_drm_backend_def)
  have dumb: "oc_dumb y01_open" by (simp add: y01_open_def)
  show ?thesis
    unfolding open_drm_def Let_def closed configured d_def [symmetric]
    using d(1) inherited target buffers dumb by (simp del: allocate_buffers.simps)
qed

lemma y01_kernel: "kernel_buffers (oc_buffers y01_open) (buffer_fits (dr_buffer_width y01_shown) (dr_buffer_height y01_shown))"
  by (simp add: kernel_buffers_def y01_open_def buffer_fits_def y01_shown_def session_display_def y01_session_def sample_profile_def turned_def)

lemma y01_overlay: "getenv (y01_environment uid) ''LVGL_DRM_OVERLAY_PLANE_ID'' \<noteq> None"
  using program_environment_values(11) by (simp add: y01_environment_def)

definition sample_present :: "bool \<Rightarrow> present_calls" where
  "sample_present shown = \<lparr>pc_before = [], pc_set_plane = shown, pc_set_crtc = False, pc_page_flip = Flip_refused, pc_recovery = False,
     pc_after = [], pc_strerror = []\<rparr>"

definition plain_frame :: "u32 \<Rightarrow> u32 list" where
  "plain_frame colour = replicate (nat (960 * 266)) colour"

lemma frames_shown_whole_witness:
  "\<exists>d shown result. present_frames 960 266 [(sample_present True, plain_frame 7), (sample_present False, plain_frame 8)] y01_shown = Some (d, shown) \<and>
     present_logical (sample_present True) (Some (plain_frame 9)) 960 266 d = Some result \<and> frame_presented (plain_frame 9) d result"
proof (rule frames_shown_whole [OF y01_opened [of 5000] y01_overlay y01_kernel])
  show "960 = rp_logical_width kY01Profile" "266 = rp_logical_height kY01Profile" by (simp_all add: kY01Profile_def)
  show "list_all (\<lambda>(calls, pixels). length pixels = nat (960 * 266))
      ([(sample_present True, plain_frame 7), (sample_present False, plain_frame 8)] @ [(sample_present True, plain_frame 9)])"
    by (simp add: plain_frame_def)
qed

lemma display_within_sandbox_witness:
  "\<exists>shown d. present_frames 960 266 [(sample_present True, plain_frame 7)] y01_shown = Some (d, shown) \<and>
     bpf_run (sandbox_filter sample_abi 11) ((\<lambda>_. 0)(4 := 0xC00000B7, 0 := 29, 16 := 11, 24 := 0xC03064B7)) 0 = ab_allow sample_abi"
proof -
  let ?w = "rp_logical_width kY01Profile" and ?h = "rp_logical_height kY01Profile"
  have sizes: "?w = 960" "?h = 266" by (simp_all add: kY01Profile_def)
  have frames: "list_all (\<lambda>(calls, pixels). length pixels = nat (?w * ?h)) [(sample_present True, plain_frame 7)]"
    by (simp add: sizes plain_frame_def)
  note ok = open_overlay_ok [OF y01_opened [of 5000] y01_overlay y01_kernel]
  obtain result where one: "present_logical (sample_present True) (Some (plain_frame 7)) ?w ?h y01_shown = Some result"
    "overlay_ok (fst (snd result))" "frame_presented (plain_frame 7) y01_shown result"
    using present_overlay_frame [of y01_shown ?w ?h "plain_frame 7" "sample_present True"] ok by (auto simp: sizes plain_frame_def)
  obtain ok' d shown where result: "result = (ok', d, shown)" by (metis prod.exhaust)
  have run: "present_frames ?w ?h [(sample_present True, plain_frame 7)] y01_shown = Some (d, shown)" using one(1) result by simp
  have environment: "y01_environment (application_uid app_desktop) = program_environment y01_session app_desktop
      \<lparr>pp_limits = pm_limits platform_manifest, pp_private_storage = False, pp_uid = application_uid app_desktop,
       pp_gid = application_uid app_desktop\<rparr> sample_descriptors No_notice"
    by (simp add: y01_environment_def)
  have installed: "install_runtime_sandbox sample_abi (sample_sandbox (application_uid app_desktop))
      (y01_environment (application_uid app_desktop)) = Inr (Some (sandbox_filter sample_abi 11))"
    unfolding environment by (rule sample_sandbox_installed) (simp add: y01_session_def sample_profile_def)
  have abi: "ab_syscall sample_abi ''ioctl'' \<notin> ab_syscall sample_abi ` {''openat'', ''mmap'', ''mprotect''}"
    by (simp add: sample_abi_def)
  obtain c where c: "c \<in> set shown" "call_request c = ''DRM_IOCTL_MODE_SETPLANE''"
    using one(3) result by (simp add: frame_presented_def Let_def)
  have fd: "dr_fd y01_shown = 11" by (simp add: y01_shown_def)
  have call: "display_call sample_abi (\<lambda>call. call) (dr_fd y01_shown) c
      ((\<lambda>_. 0)(4 := 0xC00000B7, 0 := 29, 16 := 11, 24 := 0xC03064B7))"
    using c(2) by (simp add: display_call_def sample_abi_def fd)
  have "c \<in> set (shown @ snd (close_drm [] [] d))" using c(1) by simp
  from display_within_sandbox [OF y01_opened y01_overlay y01_kernel installed list_machine.bpf_machine_axioms abi frames run this call]
  show ?thesis using run by (simp add: sizes)
qed

end
