(* ===== verification/Focus_Timer.thy ===== *)
theory Focus_Timer
  imports Prelude
begin

text \<open>
  The model of the focus timer (\<open>apps/focus_timer/focus_timer_model.cpp\<close>). Points of time are nanoseconds of
  the steady clock, as mathematical integers; the number of seconds left is cut to 32 bits as the code does it.
\<close>

section \<open>The timer\<close>

datatype focus_state = Timer_idle | Timer_running | Timer_paused | Timer_completed

record focus_timer =
  ft_duration_seconds :: int
  ft_paused_remaining_seconds :: int
  ft_deadline :: int
  ft_state :: focus_state

definition new_focus_timer :: focus_timer where
  "new_focus_timer = \<lparr>ft_duration_seconds = 25 * 60, ft_paused_remaining_seconds = 25 * 60, ft_deadline = 0, ft_state = Timer_idle\<rparr>"

definition second :: int where
  "second = 1000000000"

text \<open>\<open>duration_cast\<close> to seconds cuts towards zero.\<close>

definition whole_seconds :: "int \<Rightarrow> int" where
  "whole_seconds d = (if 0 \<le> d then d div second else - (- d div second))"

definition remaining_seconds :: "focus_timer \<Rightarrow> int \<Rightarrow> int" where
  "remaining_seconds m now =
     (if ft_state m \<noteq> Timer_running then ft_paused_remaining_seconds m
      else let left = ft_deadline m - now; remaining = whole_seconds left
        in max 0 (signed_take_bit 31 remaining + (if now < ft_deadline m \<and> remaining * second < left then 1 else 0)))"

definition select_minutes :: "int \<Rightarrow> focus_timer \<Rightarrow> focus_timer" where
  "select_minutes minutes m =
     (if ft_state m = Timer_running \<or> (minutes \<noteq> 15 \<and> minutes \<noteq> 25 \<and> minutes \<noteq> 45) then m
      else m\<lparr>ft_duration_seconds := minutes * 60, ft_paused_remaining_seconds := minutes * 60, ft_state := Timer_idle\<rparr>)"

definition toggle :: "int \<Rightarrow> focus_timer \<Rightarrow> focus_timer" where
  "toggle now m =
     (if ft_state m = Timer_running
      then m\<lparr>ft_paused_remaining_seconds := remaining_seconds m now, ft_state := Timer_paused\<rparr>
      else let m' = (if ft_state m = Timer_completed then m\<lparr>ft_paused_remaining_seconds := ft_duration_seconds m\<rparr> else m)
        in m'\<lparr>ft_deadline := now + ft_paused_remaining_seconds m' * second, ft_state := Timer_running\<rparr>)"

definition reset_timer :: "focus_timer \<Rightarrow> focus_timer" where
  "reset_timer m = m\<lparr>ft_paused_remaining_seconds := ft_duration_seconds m, ft_state := Timer_idle\<rparr>"

definition update :: "int \<Rightarrow> focus_timer \<Rightarrow> focus_timer" where
  "update now m =
     (if ft_state m = Timer_running \<and> remaining_seconds m now \<le> 0
      then m\<lparr>ft_paused_remaining_seconds := 0, ft_state := Timer_completed\<rparr> else m)"

definition selected_minutes :: "focus_timer \<Rightarrow> int" where
  "selected_minutes m = ft_duration_seconds m div 60"

definition progress_per_mille :: "focus_timer \<Rightarrow> int \<Rightarrow> int" where
  "progress_per_mille m now =
     (if ft_duration_seconds m \<le> 0 then 0
      else let elapsed = ft_duration_seconds m - remaining_seconds m now
        in max 0 (min 1000 (elapsed * 1000 div ft_duration_seconds m)))"

section \<open>A session with the timer\<close>

datatype timer_event = Select int | Toggle int | Reset_timer | Update int

fun timer_step :: "timer_event \<Rightarrow> focus_timer \<Rightarrow> focus_timer" where
  "timer_step (Select minutes) m = select_minutes minutes m"
| "timer_step (Toggle now) m = toggle now m"
| "timer_step Reset_timer m = reset_timer m"
| "timer_step (Update now) m = update now m"

fun event_time :: "timer_event \<Rightarrow> int option" where
  "event_time (Toggle now) = Some now"
| "event_time (Update now) = Some now"
| "event_time _ = None"

text \<open>What the user did: when the present run began, and the time worked in the runs before it since the timer was fresh.\<close>

record focus_work =
  fw_since :: int
  fw_worked :: int

definition work_step :: "timer_event \<Rightarrow> focus_timer \<Rightarrow> focus_work \<Rightarrow> focus_work" where
  "work_step e m w =
     (let m' = timer_step e m in
      case event_time e of
        None \<Rightarrow> if ft_state m' = Timer_idle then w\<lparr>fw_worked := 0\<rparr> else w
      | Some now \<Rightarrow>
        if ft_state m = Timer_running
        then if ft_state m' = Timer_running then w else w\<lparr>fw_worked := fw_worked w + (now - fw_since w)\<rparr>
        else if ft_state m' = Timer_running
        then \<lparr>fw_since = now, fw_worked = (if ft_state m = Timer_completed then 0 else fw_worked w)\<rparr>
        else w)"

fun timer_run :: "timer_event list \<Rightarrow> focus_timer \<times> focus_work \<Rightarrow> focus_timer \<times> focus_work" where
  "timer_run [] s = s"
| "timer_run (e # es) (m, w) = timer_run es (timer_step e m, work_step e m w)"

text \<open>Times in order, within the 68 years that 32 bits of seconds can tell apart.\<close>

definition timer_range :: "int \<Rightarrow> bool" where
  "timer_range t \<longleftrightarrow> 0 \<le> t \<and> t < 2147483647 * second"

definition ordered_times :: "timer_event list \<Rightarrow> bool" where
  "ordered_times es \<longleftrightarrow> sorted (List.map_filter event_time es) \<and> list_all timer_range (List.map_filter event_time es)"

section \<open>Seconds\<close>

lemma whole_seconds_bounds:
  "0 \<le> d \<Longrightarrow> whole_seconds d * second \<le> d \<and> d < whole_seconds d * second + second \<and> 0 \<le> whole_seconds d"
  using pos_mod_bound [of second d] pos_mod_sign [of second d] div_mult_mod_eq [of d second]
    pos_imp_zdiv_nonneg_iff [of second d]
  by (simp add: whole_seconds_def second_def) linarith

lemma whole_seconds_neg: "d \<le> 0 \<Longrightarrow> - 2147483647 * second \<le> d \<Longrightarrow> - 2147483647 \<le> whole_seconds d \<and> whole_seconds d \<le> 0"
  by (auto simp: whole_seconds_def second_def)

definition timer_ok :: "focus_timer \<Rightarrow> bool" where
  "timer_ok m \<longleftrightarrow> 0 < ft_duration_seconds m \<and> ft_duration_seconds m \<le> 2700 \<and>
     0 \<le> ft_paused_remaining_seconds m \<and> ft_paused_remaining_seconds m \<le> ft_duration_seconds m"

text \<open>The rounding is upwards: a running timer never shows zero before its deadline.\<close>

lemma remaining_running:
  assumes "ft_state m = Timer_running" "timer_range now" "0 \<le> ft_deadline m" "ft_deadline m \<le> now + 2700 * second"
  shows "if now < ft_deadline m
    then (remaining_seconds m now - 1) * second < ft_deadline m - now \<and> ft_deadline m - now \<le> remaining_seconds m now * second
    else remaining_seconds m now = 0"
proof -
  define left where "left = ft_deadline m - now"
  define r where "r = whole_seconds left"
  have remaining: "remaining_seconds m now = max 0 (signed_take_bit 31 r + (if now < ft_deadline m \<and> r * second < left then 1 else 0))"
    using assms(1) by (simp add: remaining_seconds_def left_def r_def Let_def)
  have range: "left \<le> 2700 * second" "- 2147483647 * second \<le> left"
    using assms(2-4) by (auto simp: left_def timer_range_def)
  show ?thesis
  proof (cases "now < ft_deadline m")
    case True
    then have r: "r * second \<le> left" "left < r * second + second" "0 \<le> r"
      using whole_seconds_bounds [of left] by (simp_all add: left_def r_def)
    then have "r \<le> 2700" using range(1) by (simp add: second_def)
    then have cast: "signed_take_bit 31 r = r" using r(3) by (intro signed_take_bit_int_eq_self) simp_all
    show ?thesis using True r unfolding remaining cast left_def [symmetric]
      by (auto simp: algebra_simps second_def)
  next
    case False
    then have r: "- 2147483647 \<le> r" "r \<le> 0" using whole_seconds_neg [of left] range by (simp_all add: left_def r_def)
    then have cast: "signed_take_bit 31 r = r" by (intro signed_take_bit_int_eq_self) simp_all
    show ?thesis using False r unfolding remaining cast by simp
  qed
qed

text \<open>A timer with the work of its user: it has never counted more time than was worked.\<close>

definition focus_inv :: "int \<Rightarrow> focus_timer \<Rightarrow> focus_work \<Rightarrow> bool" where
  "focus_inv now m w \<longleftrightarrow> timer_ok m \<and> 0 \<le> fw_worked w \<and>
     (ft_duration_seconds m - ft_paused_remaining_seconds m) * second \<le> fw_worked w \<and>
     (if ft_state m = Timer_running
      then ft_deadline m = fw_since w + ft_paused_remaining_seconds m * second \<and> timer_range (fw_since w) \<and> fw_since w \<le> now
      else if ft_state m = Timer_completed then ft_paused_remaining_seconds m = 0
      else if ft_state m = Timer_idle then ft_paused_remaining_seconds m = ft_duration_seconds m else True)"

lemma focus_inv_running:
  assumes "focus_inv before m w" "ft_state m = Timer_running" "before \<le> now \<or> fw_since w \<le> now" "timer_range now"
  shows "0 \<le> remaining_seconds m now" "remaining_seconds m now \<le> ft_paused_remaining_seconds m"
    "(ft_duration_seconds m - remaining_seconds m now) * second \<le> fw_worked w + (now - fw_since w)" "fw_since w \<le> now"
    "remaining_seconds m now \<le> 0 \<longleftrightarrow> ft_deadline m \<le> now"
proof -
  have m: "timer_ok m" "ft_deadline m = fw_since w + ft_paused_remaining_seconds m * second" "timer_range (fw_since w)"
    "fw_since w \<le> now" "(ft_duration_seconds m - ft_paused_remaining_seconds m) * second \<le> fw_worked w"
    using assms by (auto simp: focus_inv_def)
  have "0 \<le> ft_paused_remaining_seconds m * second" "ft_paused_remaining_seconds m * second \<le> 2700 * second"
    using m(1) unfolding timer_ok_def second_def by linarith+
  then have "0 \<le> ft_deadline m" "ft_deadline m \<le> now + 2700 * second"
    using m(2-4) unfolding timer_range_def by linarith+
  note r = remaining_running [OF assms(2,4) this]
  show "0 \<le> remaining_seconds m now" using assms(2) by (simp add: remaining_seconds_def Let_def)
  show "remaining_seconds m now \<le> ft_paused_remaining_seconds m"
    using r m(1,2,4) by (auto simp: second_def timer_ok_def split: if_splits)
  show "(ft_duration_seconds m - remaining_seconds m now) * second \<le> fw_worked w + (now - fw_since w)"
    using r m(2,5) by (auto simp: second_def split: if_splits)
  show "fw_since w \<le> now" by (rule m(4))
  show "remaining_seconds m now \<le> 0 \<longleftrightarrow> ft_deadline m \<le> now"
    using r by (auto simp: second_def split: if_splits)
qed

lemma focus_inv_later: "focus_inv before m w \<Longrightarrow> before \<le> now \<Longrightarrow> focus_inv now m w"
  by (auto simp: focus_inv_def)

lemma select_inv: "focus_inv now m w \<Longrightarrow> focus_inv now (timer_step (Select n) m) (work_step (Select n) m w)"
  by (auto simp: focus_inv_def work_step_def select_minutes_def timer_ok_def Let_def)

lemma reset_inv: "focus_inv now m w \<Longrightarrow> focus_inv now (timer_step Reset_timer m) (work_step Reset_timer m w)"
  by (auto simp: focus_inv_def work_step_def reset_timer_def timer_ok_def Let_def)

lemma toggle_inv:
  assumes "focus_inv before m w" "before \<le> now" "timer_range now"
  shows "focus_inv now (timer_step (Toggle now) m) (work_step (Toggle now) m w)"
proof (cases "ft_state m = Timer_running")
  case True
  note r = focus_inv_running [OF assms(1) True disjI1 [OF assms(2)] assms(3)]
  show ?thesis using assms(1) True r by (auto simp: focus_inv_def work_step_def toggle_def timer_ok_def Let_def)
next
  case False
  then show ?thesis using assms by (auto simp: focus_inv_def work_step_def toggle_def timer_ok_def Let_def)
qed

lemma update_inv:
  assumes "focus_inv before m w" "before \<le> now" "timer_range now"
  shows "focus_inv now (timer_step (Update now) m) (work_step (Update now) m w)"
proof (cases "ft_state m = Timer_running \<and> remaining_seconds m now \<le> 0")
  case True
  note r = focus_inv_running [OF assms(1) _ disjI1 [OF assms(2)] assms(3)]
  show ?thesis using assms(1) True r by (auto simp: focus_inv_def work_step_def update_def timer_ok_def Let_def)
next
  case False
  then have "timer_step (Update now) m = m" "work_step (Update now) m w = w"
    by (auto simp: work_step_def update_def Let_def)
  then show ?thesis using focus_inv_later [OF assms(1,2)] by simp
qed

lemma timer_run_inv:
  assumes "focus_inv now m w" "sorted (now # List.map_filter event_time es)"
    "list_all timer_range (List.map_filter event_time es)"
  shows "\<exists>later. case_prod (focus_inv later) (timer_run es (m, w))"
  using assms
proof (induction es arbitrary: now m w)
  case Nil
  then show ?case by auto
next
  case (Cons e es)
  show ?case
  proof (cases "event_time e")
    case None
    then have "focus_inv now (timer_step e m) (work_step e m w)"
      using Cons.prems(1) select_inv reset_inv by (cases e) auto
    then show ?thesis using Cons.IH [of now] Cons.prems(2,3) None by (simp add: map_filter_simps)
  next
    case (Some t)
    then have t: "now \<le> t" "timer_range t" using Cons.prems(2,3) by (simp_all add: map_filter_simps)
    then have "focus_inv t (timer_step e m) (work_step e m w)"
      using Cons.prems(1) Some toggle_inv update_inv by (cases e) auto
    then show ?thesis using Cons.IH [of t] Cons.prems(2,3) Some by (simp add: map_filter_simps)
  qed
qed

section \<open>Properties\<close>

text \<open>C37. Whatever the user does with the focus timer, in any order of starts, pauses, resets and choices: it reports a
  finished session only after at least the chosen time of work since it was fresh (pauses are rounded against
  the user), a running timer finishes exactly at its deadline, what it shows as left is within the chosen time, and the progress is within its scale.\<close>

theorem focus_never_early:
  assumes "ordered_times es" and "timer_run es (new_focus_timer, \<lparr>fw_since = 0, fw_worked = 0\<rparr>) = (m, w)"
  shows "(if ft_state m = Timer_completed then ft_duration_seconds m * second \<le> fw_worked w else True) \<and>
    (if ft_state m = Timer_running \<and> fw_since w \<le> t \<and> timer_range t
     then ft_state (update t m) = Timer_completed \<longleftrightarrow> ft_deadline m \<le> t else True) \<and>
    selected_minutes m \<in> {15, 25, 45} \<and> 0 \<le> ft_paused_remaining_seconds m \<and>
    ft_paused_remaining_seconds m \<le> ft_duration_seconds m \<and> 0 \<le> progress_per_mille m t \<and> progress_per_mille m t \<le> 1000"
proof -
  have "focus_inv 0 new_focus_timer \<lparr>fw_since = 0, fw_worked = 0\<rparr>"
    by (simp add: focus_inv_def new_focus_timer_def timer_ok_def)
  moreover have "sorted (0 # List.map_filter event_time es)" "list_all timer_range (List.map_filter event_time es)"
    using assms(1) by (auto simp: ordered_times_def list_all_iff timer_range_def)
  ultimately obtain later where inv: "focus_inv later m w" using timer_run_inv assms(2) by fastforce
  have "ft_duration_seconds m \<in> {900, 1500, 2700}"
  proof -
    have "ft_duration_seconds m \<in> {900, 1500, 2700} \<Longrightarrow> ft_duration_seconds (timer_step e m) \<in> {900, 1500, 2700}" for e m
      by (cases e) (auto simp: select_minutes_def toggle_def reset_timer_def update_def Let_def)
    then have "ft_duration_seconds m \<in> {900, 1500, 2700} \<Longrightarrow> ft_duration_seconds (fst (timer_run es (m, w))) \<in> {900, 1500, 2700}"
      for es m w by (induction es "(m, w)" arbitrary: m w rule: timer_run.induct) auto
    from this [of new_focus_timer es "\<lparr>fw_since = 0, fw_worked = 0\<rparr>"] assms(2) show ?thesis by (simp add: new_focus_timer_def)
  qed
  moreover have "ft_state m = Timer_running \<Longrightarrow> fw_since w \<le> t \<Longrightarrow> timer_range t \<Longrightarrow>
      ft_state (update t m) = Timer_completed \<longleftrightarrow> ft_deadline m \<le> t"
    using focus_inv_running(5) [OF inv] by (simp add: update_def)
  ultimately show ?thesis
    using inv by (auto simp: focus_inv_def timer_ok_def selected_minutes_def progress_per_mille_def Let_def)
qed

lemma focus_never_early_witness:
  "ft_state (fst (timer_run [Select 15, Toggle 5, Toggle (3 * second), Toggle (10 * second), Update (4000 * second)]
     (new_focus_timer, \<lparr>fw_since = 0, fw_worked = 0\<rparr>))) = Timer_completed \<and>
   900 * second \<le> fw_worked (snd (timer_run [Select 15, Toggle 5, Toggle (3 * second), Toggle (10 * second), Update (4000 * second)]
     (new_focus_timer, \<lparr>fw_since = 0, fw_worked = 0\<rparr>)))"
proof -
  let ?es = "[Select 15, Toggle 5, Toggle (3 * second), Toggle (10 * second), Update (4000 * second)]"
  let ?s = "(new_focus_timer, \<lparr>fw_since = 0, fw_worked = 0\<rparr>)"
  obtain m w where run: "timer_run ?es ?s = (m, w)" by (cases "timer_run ?es ?s")
  have times: "ordered_times ?es" by (simp add: ordered_times_def map_filter_simps second_def timer_range_def)
  have end_state: "map_prod (\<lambda>m. (ft_state m, ft_duration_seconds m)) (\<lambda>_. ()) (timer_run ?es ?s) = ((Timer_completed, 900), ())"
    by code_simp
  have "ft_state m = Timer_completed" "ft_duration_seconds m = 900"
    using end_state unfolding run by simp_all
  then show ?thesis unfolding run using focus_never_early [OF times run] by simp
qed

end
