(* ===== verification/App_Control.thy ===== *)
theory App_Control
  imports Environment Session_Supervisor App_Registry
begin

text \<open>
  The requests of a program to its session (\<open>src/runtime/app_control.cpp\<close>) and the older message to a parent
  process (\<open>src/session/session_protocol.cpp\<close>). A request results in whether it was sent and the packet that was
  given to the socket; whether the socket takes it is an argument.
\<close>

section \<open>The older message\<close>

datatype session_command = Command_none | Command_launch | Command_home | Command_exit_session | Command_unknown u32

fun session_command_value :: "session_command \<Rightarrow> u32" where
  "session_command_value Command_none = 0"
| "session_command_value Command_launch = 1"
| "session_command_value Command_home = 2"
| "session_command_value Command_exit_session = 3"
| "session_command_value (Command_unknown w) = w"

definition session_command_of :: "u32 \<Rightarrow> session_command" where
  "session_command_of w = (if w = 0 then Command_none else if w = 1 then Command_launch else if w = 2 then Command_home
     else if w = 3 then Command_exit_session else Command_unknown w)"

definition kSessionMessageMagic :: u32 where "kSessionMessageMagic = 0x4C564150"
definition kSessionProtocolVersion :: u16 where "kSessionProtocolVersion = 1"

record session_message =
  sm_magic :: u32
  sm_version :: u16
  sm_size :: u16
  sm_command :: u32
  sm_app_id :: u32

definition new_session_message :: session_message where
  "new_session_message = \<lparr>sm_magic = kSessionMessageMagic, sm_version = kSessionProtocolVersion, sm_size = 16,
     sm_command = session_command_value Command_none, sm_app_id = 0\<rparr>"

fun desktop_app_value :: "desktop_app \<Rightarrow> u32" where
  "desktop_app_value App_none = 0"
| "desktop_app_value App_launcher = 1"
| "desktop_app_value App_game_2048 = 2"

text \<open>\<open>find_app\<close> by number, in the registry of the desktop.\<close>

definition find_app_number :: "bytes option \<Rightarrow> u32 \<Rightarrow> app_descriptor option" where
  "find_app_number registry w = find (\<lambda>a. desktop_app_value (ap_id a) = w) (desktop_registry registry)"

definition valid_session_message :: "bytes option \<Rightarrow> session_message \<Rightarrow> bool" where
  "valid_session_message registry m =
     (if sm_magic m \<noteq> kSessionMessageMagic \<or> sm_version m \<noteq> kSessionProtocolVersion \<or> sm_size m \<noteq> 16 then False
      else case session_command_of (sm_command m) of
        Command_launch \<Rightarrow> sm_app_id m \<noteq> desktop_app_value App_launcher \<and> find_app_number registry (sm_app_id m) \<noteq> None
      | Command_home \<Rightarrow> sm_app_id m = desktop_app_value App_none
      | Command_exit_session \<Rightarrow> sm_app_id m = desktop_app_value App_none
      | _ \<Rightarrow> False)"

text \<open>The message as it lies in memory.\<close>

definition session_message_bytes :: "session_message \<Rightarrow> bytes" where
  "session_message_bytes m = le_bytes 4 (sm_magic m) @ le_bytes 2 (sm_version m) @ le_bytes 2 (sm_size m) @
     le_bytes 4 (sm_command m) @ le_bytes 4 (sm_app_id m)"

text \<open>What \<open>send\<close> returns, call by call; the loop goes on while it is interrupted, and waits at the end of the list.\<close>

datatype send_result = Send_interrupted | Send_failed | Send_count nat

fun send_loop :: "send_result list \<Rightarrow> send_result option" where
  "send_loop [] = None"
| "send_loop (Send_interrupted # rs) = send_loop rs"
| "send_loop (r # rs) = Some r"

definition send_session_message ::
    "bytes option \<Rightarrow> send_result list \<Rightarrow> int \<Rightarrow> session_command \<Rightarrow> desktop_app \<Rightarrow> (bool \<times> bytes option) option" where
  "send_session_message registry results fd command app_id =
     (if fd < 0 then Some (False, None)
      else let message = new_session_message\<lparr>sm_command := session_command_value command, sm_app_id := desktop_app_value app_id\<rparr>
        in if \<not> valid_session_message registry message then Some (False, None)
           else map_option (\<lambda>written. (written = Send_count 16, Some (session_message_bytes message))) (send_loop results))"

section \<open>Requests to the session\<close>

record app_control =
  ac_fd :: int
  ac_session_fd :: int

definition control_descriptor :: "string list \<Rightarrow> string \<Rightarrow> int" where
  "control_descriptor env name = (case environment_integer env name 3 int_max_value of None \<Rightarrow> - 1 | Some n \<Rightarrow> n)"

definition new_app_control :: "string list \<Rightarrow> app_control" where
  "new_app_control env = \<lparr>ac_fd = control_descriptor env ''LVGL_APP_CONTROL_FD'',
     ac_session_fd = control_descriptor env ''LVGL_SESSION_CONTROL_FD''\<rparr>"

definition send_control :: "bool \<Rightarrow> int \<Rightarrow> session_control_command \<Rightarrow> string \<Rightarrow> bool \<times> bytes option" where
  "send_control taken fd command app_id =
     (if fd < 0 then (False, None)
      else (taken, Some (encode_session_control \<lparr>sc_command = command, sc_result = 0, sc_app_id = app_id\<rparr>)))"

definition signal_ready :: "bool \<Rightarrow> app_control \<Rightarrow> bool \<times> bytes option" where
  "signal_ready taken c = (if ac_session_fd c < 0 then (True, None) else send_control taken (ac_session_fd c) Control_ready [])"

definition control_available :: "app_control \<Rightarrow> bool" where
  "control_available c \<longleftrightarrow> 0 \<le> ac_fd c \<or> 0 \<le> ac_session_fd c"

definition launch_application :: "bool \<Rightarrow> app_control \<Rightarrow> string \<Rightarrow> bool \<times> bytes option" where
  "launch_application taken c app_id =
     (if 0 \<le> ac_session_fd c \<and> valid_session_app_id app_id
      then send_control taken (ac_session_fd c) Control_launch_application app_id else (False, None))"

definition go_home :: "bytes option \<Rightarrow> bool \<Rightarrow> send_result list \<Rightarrow> app_control \<Rightarrow> (bool \<times> bytes option) option" where
  "go_home registry taken results c =
     (if 0 \<le> ac_session_fd c then Some (send_control taken (ac_session_fd c) Control_home [])
      else send_session_message registry results (ac_fd c) Command_home App_none)"

definition exit_session :: "bytes option \<Rightarrow> bool \<Rightarrow> send_result list \<Rightarrow> app_control \<Rightarrow> (bool \<times> bytes option) option" where
  "exit_session registry taken results c =
     (if 0 \<le> ac_session_fd c then Some (send_control taken (ac_session_fd c) Control_exit_session [])
      else send_session_message registry results (ac_fd c) Command_exit_session App_none)"

section \<open>What arrives\<close>

text \<open>Home and the end of the session are valid in the older message as well.\<close>

lemma older_requests_valid:
  assumes "command \<in> {Command_home, Command_exit_session}" "0 \<le> fd"
  shows "send_session_message registry [Send_count 16] fd command App_none =
    Some (True, Some (session_message_bytes (new_session_message\<lparr>sm_command := session_command_value command\<rparr>)))"
  using assms by (auto simp: send_session_message_def valid_session_message_def new_session_message_def session_command_of_def Let_def)

lemma send_control_received:
  assumes "send_control taken fd command app_id = (sent, Some packet)"
    and "known_control_command command" "if command = Control_launch_application then valid_session_app_id app_id else app_id = []"
  shows "length packet = kSessionControlSize \<and>
    decode_session_control packet = Some \<lparr>sc_command = command, sc_result = 0, sc_app_id = app_id\<rparr>"
proof -
  have packet: "packet = encode_session_control \<lparr>sc_command = command, sc_result = 0, sc_app_id = app_id\<rparr>"
    using assms(1) by (auto simp: send_control_def split: if_splits)
  show ?thesis
    unfolding packet using assms(2,3) by (simp add: control_wire_format control_acceptable_def kSessionControlSize_def)
qed

text \<open>The requests of a program, by name.\<close>

datatype program_request = Request_ready | Request_launch string | Request_home | Request_exit

definition make_request :: "bytes option \<Rightarrow> bool \<Rightarrow> app_control \<Rightarrow> program_request \<Rightarrow> (bool \<times> bytes option) option" where
  "make_request registry taken c q =
     (case q of
        Request_ready \<Rightarrow> Some (signal_ready taken c)
      | Request_launch app_id \<Rightarrow> Some (launch_application taken c app_id)
      | Request_home \<Rightarrow> go_home registry taken [] c
      | Request_exit \<Rightarrow> exit_session registry taken [] c)"

text \<open>What the session does for a request: a specification.\<close>

definition request_granted :: "string \<Rightarrow> bool \<Rightarrow> program_request \<Rightarrow> bool" where
  "request_granted program ready q \<longleftrightarrow>
     (case q of
        Request_ready \<Rightarrow> \<not> ready
      | Request_launch app_id \<Rightarrow> ready \<and> program = app_desktop \<and> launchable app_id
      | Request_home \<Rightarrow> ready \<and> program \<noteq> app_desktop
      | Request_exit \<Rightarrow> ready)"

section \<open>Properties\<close>

text \<open>C22. A program that the session started reaches it with every request it makes: the session does what was asked
  (it publishes that the program is ready, starts the named application, goes home, or ends) exactly when the
  request is allowed for this program at this time; any other request ends the program. A request that cannot
  be made, such as the start of an invalid application id, is never sent.\<close>

theorem requests_carried_out:
  assumes "c = new_app_control (program_environment profile program policy ds notice)" "3 \<le> ds_control ds" "ds_control ds \<le> int_max_value"
    and "make_request registry True c q = Some (sent, packet)"
  shows "(if \<exists>app_id. q = Request_launch app_id \<and> \<not> valid_session_app_id app_id then \<not> sent \<and> packet = None
    else sent \<and> packet \<noteq> None \<and>
      (let (g', s') = control_step program (r\<lparr>po_control := packet\<rparr>) (g, s) in
       if \<not> request_granted program (fg_ready g) q then s' = s \<and> g' = broken 81 g
       else case q of
         Request_ready \<Rightarrow> (let (ok, published) = publish (po_status r) (ready_status (se_status s)) s in
             s' = published \<and> g' = (if ok then g\<lparr>fg_ready := True\<rparr> else broken 80 (g\<lparr>fg_ready := True\<rparr>)))
       | Request_launch app_id \<Rightarrow> s' = s \<and> g' = requests Action_launch app_id g
       | Request_home \<Rightarrow> s' = s \<and> g' = requests Action_home (fo_app_id (fg_outcome g)) g
       | Request_exit \<Rightarrow> s' = s \<and> g' = requests Action_exit_session (fo_app_id (fg_outcome g)) g))"
proof -
  have fd: "ac_session_fd c = ds_control ds"
    using environment_integer_int [OF program_environment_values(1) [of profile program policy ds notice], of 3 int_max_value] assms(1-3)
    by (simp add: new_app_control_def control_descriptor_def int_max_value_def)
  have fd_ok: "0 \<le> ac_session_fd c" using fd assms(2) by simp
  show ?thesis
  proof (cases "\<exists>app_id. q = Request_launch app_id \<and> \<not> valid_session_app_id app_id")
    case True
    then show ?thesis using assms(4) by (auto simp: make_request_def launch_application_def)
  next
    case False
    define command where "command = (case q of Request_ready \<Rightarrow> Control_ready | Request_launch _ \<Rightarrow> Control_launch_application
      | Request_home \<Rightarrow> Control_home | Request_exit \<Rightarrow> Control_exit_session)"
    define app where "app = (case q of Request_launch app_id \<Rightarrow> app_id | _ \<Rightarrow> [])"
    have made: "send_control True (ac_session_fd c) command app = (sent, packet)"
      using assms(4) False fd_ok
      by (cases q) (simp_all add: make_request_def signal_ready_def launch_application_def go_home_def exit_session_def command_def app_def)
    then obtain bs where bs: "sent" "packet = Some bs" using fd_ok by (auto simp: send_control_def)
    have known: "known_control_command command" "if command = Control_launch_application then valid_session_app_id app else app = []"
      using False by (cases q; simp add: command_def app_def known_control_command_def)+
    note received = send_control_received [OF made [unfolded bs(2)] known]
    have step: "control_step program (r\<lparr>po_control := packet\<rparr>) (g, s) =
       (let m = \<lparr>sc_command = command, sc_result = 0, sc_app_id = app\<rparr> in
          if sc_command m = Control_ready \<and> \<not> fg_ready g
          then (case publish (po_status r) (ready_status (se_status s)) s of (ok, s) \<Rightarrow>
                  (if ok then g\<lparr>fg_ready := True\<rparr> else broken 80 (g\<lparr>fg_ready := True\<rparr>), s))
          else if sc_command m = Control_exit_session \<and> fg_ready g
          then (requests Action_exit_session (fo_app_id (fg_outcome g)) g, s)
          else if sc_command m = Control_launch_application \<and> fg_ready g \<and> program = app_desktop \<and> launchable (sc_app_id m)
          then (requests Action_launch (sc_app_id m) g, s)
          else if sc_command m = Control_home \<and> fg_ready g \<and> program \<noteq> app_desktop
          then (requests Action_home (fo_app_id (fg_outcome g)) g, s)
          else (broken 81 g, s))"
      unfolding control_step_def bs(2) using received by (simp add: Let_def)
    show ?thesis
      using False bs unfolding step
      by (cases q) (auto simp: command_def app_def request_granted_def Let_def split: prod.split)
  qed
qed

end
