(* ===== verification/Installer_Client.thy ===== *)
theory Installer_Client
  imports Environment Installer_Service
begin

text \<open>
  The installer program as a client of its session (\<open>src/runtime/installer_client.cpp\<close>): numbered requests over a
  packet socket, scans that ask for one candidate after the other, and the requests that change something.
  The session at the other end is the interface \<open>installer_channel\<close>; the service of the session daemon
  provides it.
\<close>

section \<open>Client\<close>

record installer_client =
  ik_descriptor :: int
  ik_next_request_id :: u64

text \<open>What is known of the inherited descriptor (a packet socket whose peer is root), and what \<open>fcntl\<close> yields.\<close>

definition inherited_installer_descriptor :: "(int \<Rightarrow> bool) \<Rightarrow> (int \<Rightarrow> int) \<Rightarrow> string list \<Rightarrow> int" where
  "inherited_installer_descriptor trusted_socket duplicate env =
     (case environment_integer env ''LVGL_INSTALLER_FD'' 3 int_max_value of None \<Rightarrow> - 1
      | Some descriptor \<Rightarrow> if \<not> trusted_socket descriptor then - 1 else duplicate descriptor)"

definition new_installer_client :: "(int \<Rightarrow> bool) \<Rightarrow> (int \<Rightarrow> int) \<Rightarrow> string list \<Rightarrow> installer_client" where
  "new_installer_client trusted_socket duplicate env =
     \<lparr>ik_descriptor = inherited_installer_descriptor trusted_socket duplicate env, ik_next_request_id = 1\<rparr>"

fun inbox_status_for :: "installer_status \<Rightarrow> inbox_status" where
  "inbox_status_for Status_ready = Inbox_ready"
| "inbox_status_for Status_empty = Inbox_empty"
| "inbox_status_for Status_invalid_request = Inbox_invalid_token"
| "inbox_status_for Status_rejected = Inbox_candidate_rejected"
| "inbox_status_for Status_not_found = Inbox_candidate_not_found"
| "inbox_status_for Status_unavailable = Inbox_root_untrusted"
| "inbox_status_for Status_io_error = Inbox_io_error"
| "inbox_status_for (Status_unknown _) = Inbox_io_error"

text \<open>The other end takes a packet and may answer with one; a failed \<open>send\<close> or \<open>recv\<close> is no answer.\<close>

type_synonym 's channel = "'s \<Rightarrow> bytes \<Rightarrow> bytes option \<times> 's"

definition installer_exchange :: "'s channel \<Rightarrow> installer_request \<Rightarrow> installer_client \<Rightarrow> 's \<Rightarrow> installer_response option \<times> 's" where
  "installer_exchange serve q c s =
     (if ik_descriptor c < 0 then (None, s)
      else case serve s (encode_installer_request q) of
        (None, s) \<Rightarrow> (None, s)
      | (Some bs, s) \<Rightarrow>
        (case (if length bs = kInstallerResponseSize then decode_installer_response bs else None) of
           None \<Rightarrow> (None, s)
         | Some r \<Rightarrow> (if ir_command r = iq_command q \<and> ir_request_id r = iq_request_id q then Some r else None, s)))"

definition exhausted :: "installer_client \<Rightarrow> bool" where
  "exhausted c \<longleftrightarrow> ik_next_request_id c = - 1"

text \<open>The next request, with its number.\<close>

definition request :: "installer_command \<Rightarrow> u32 \<Rightarrow> string \<Rightarrow> installer_client \<Rightarrow> installer_request" where
  "request command index token c =
     \<lparr>iq_command = command, iq_request_id = ik_next_request_id c, iq_index = index, iq_token = token\<rparr>"

definition ask ::
    "'s channel \<Rightarrow> installer_command \<Rightarrow> u32 \<Rightarrow> string \<Rightarrow> installer_client \<times> 's
       \<Rightarrow> installer_response option \<times> installer_client \<times> 's" where
  "ask serve command index token x =
     (case x of (c, s) \<Rightarrow>
        case installer_exchange serve (request command index token c) c s of
          (r, s) \<Rightarrow> (r, c\<lparr>ik_next_request_id := ik_next_request_id c + 1\<rparr>, s))"

text \<open>The loop over the announced entries: \<open>Inl\<close> is the detail of the failure.\<close>

fun collect ::
    "'s channel \<Rightarrow> installer_command \<Rightarrow> (installer_response \<Rightarrow> 'a) \<Rightarrow> string \<Rightarrow> nat \<Rightarrow> u32 \<Rightarrow> 'a list \<Rightarrow> installer_client \<times> 's
       \<Rightarrow> (string + 'a list) \<times> installer_client \<times> 's" where
  "collect serve command entry changed 0 index found x = (Inr found, x)"
| "collect serve command entry changed (Suc n) index found x =
     (if exhausted (fst x) then (Inl ''INSTALLER_REQUEST_ID_EXHAUSTED'', x)
      else case ask serve command index [] x of
        (None, x) \<Rightarrow> (Inl changed, x)
      | (Some r, x) \<Rightarrow>
          if ir_status r \<noteq> Status_ready then (Inl changed, x)
          else collect serve command entry changed n (index + 1) (found @ [entry r]) x)"

definition client_scan :: "'s channel \<Rightarrow> installer_client \<times> 's \<Rightarrow> inbox_scan_result \<times> installer_client \<times> 's" where
  "client_scan serve x =
     (let unavailable = \<lparr>is_status = Inbox_io_error, is_detail = ''INSTALLER_BROKER_UNAVAILABLE'', is_candidates = []\<rparr> in
      if exhausted (fst x) then (unavailable, x)
      else case ask serve Inst_scan 0 [] x of
        (None, x) \<Rightarrow> (unavailable, x)
      | (Some r, x) \<Rightarrow>
          let result = \<lparr>is_status = inbox_status_for (ir_status r), is_detail = ir_detail r, is_candidates = []\<rparr>
          in if ir_status r = Status_empty \<or> ir_status r \<noteq> Status_ready \<or> 128 < ir_count r then (result, x)
             else case collect serve Inst_candidate ir_candidate ''INSTALLER_CANDIDATE_CHANGED'' (unat (ir_count r)) 0 [] x of
               (Inl detail, x) \<Rightarrow> (\<lparr>is_status = Inbox_io_error, is_detail = detail, is_candidates = []\<rparr>, x)
             | (Inr found, x) \<Rightarrow> (result\<lparr>is_candidates := found\<rparr>, x))"

record installed_scan_result =
  iz_success :: bool
  iz_detail :: string
  iz_applications :: "installed_candidate list"

definition client_scan_installed :: "'s channel \<Rightarrow> installer_client \<times> 's \<Rightarrow> installed_scan_result \<times> installer_client \<times> 's" where
  "client_scan_installed serve x =
     (let unavailable = \<lparr>iz_success = False, iz_detail = ''INSTALLER_BROKER_UNAVAILABLE'', iz_applications = []\<rparr> in
      if exhausted (fst x) then (unavailable, x)
      else case ask serve Inst_installed_scan 0 [] x of
        (None, x) \<Rightarrow> (unavailable, x)
      | (Some r, x) \<Rightarrow>
          let result = \<lparr>iz_success = False, iz_detail = ir_detail r, iz_applications = []\<rparr>
          in if ir_status r = Status_empty then (result\<lparr>iz_success := True\<rparr>, x)
             else if ir_status r \<noteq> Status_ready \<or> 64 < ir_count r then (result, x)
             else case collect serve Inst_installed_candidate ir_installed ''INSTALLER_INSTALLED_SET_CHANGED'' (unat (ir_count r)) 0 [] x of
               (Inl detail, x) \<Rightarrow> (result\<lparr>iz_detail := detail\<rparr>, x)
             | (Inr found, x) \<Rightarrow> (result\<lparr>iz_success := True, iz_applications := found\<rparr>, x))"

text \<open>\<open>install\<close>, \<open>rollback\<close> and \<open>remove\<close> are this one with their command.\<close>

definition mutate ::
    "'s channel \<Rightarrow> installer_command \<Rightarrow> string \<Rightarrow> installer_client \<times> 's \<Rightarrow> (bool \<times> string) \<times> installer_client \<times> 's" where
  "mutate serve command token x =
     (if exhausted (fst x) then ((False, ''INSTALLER_REQUEST_ID_EXHAUSTED''), x)
      else case ask serve command 0 token x of
        (None, x) \<Rightarrow> ((False, ''INSTALLER_BROKER_UNAVAILABLE''), x)
      | (Some r, x) \<Rightarrow> ((ir_status r = Status_ready, ir_detail r), x))"

section \<open>Packets\<close>

lemma encode_request_acceptable:
  assumes "decode_installer_request (encode_installer_request q) = Some q'"
  shows "installer_request_acceptable q"
proof (rule ccontr)
  assume "\<not> installer_request_acceptable q"
  then have "encode_installer_request q = replicate kInstallerRequestSize 0"
    by (auto simp: installer_request_acceptable_def encode_installer_request_def Let_def)
  moreover have "hd (bytes_at 0 8 (replicate kInstallerRequestSize (0 :: u8))) = 0" "hd kInstallerMagic \<noteq> 0"
    by (simp_all add: kInstallerRequestSize_def kInstallerMagic_def bytes_at_def bytes_of_def byte_of_def)
  then have "bytes_at 0 8 (replicate kInstallerRequestSize (0 :: u8)) \<noteq> kInstallerMagic" by force
  ultimately show False using assms by (simp add: decode_installer_request_def)
qed

lemma decoded_response_header:
  assumes "decode_installer_response bs = Some r"
  shows "length bs = kInstallerResponseSize" "bytes_at 0 8 bs = kInstallerMagic"
proof -
  obtain f where f: "decode_installer_frame bs = Some f"
    using assms by (auto simp: decode_installer_response_def split: option.splits)
  show "length bs = kInstallerResponseSize" using f by (cases "length bs = kInstallerResponseSize") (simp_all add: decode_installer_frame_def)
  show "bytes_at 0 8 bs = kInstallerMagic" using f by (cases "bytes_at 0 8 bs = kInstallerMagic") (simp_all add: decode_installer_frame_def)
qed

lemmas encoded_response_length = decoded_response_header(1)

lemma encoded_response_sent:
  assumes "installer_response_acceptable r"
  shows "hd (encode_installer_response r) \<noteq> 0"
proof -
  have "decode_installer_response (encode_installer_response r) = Some r"
    by (rule installer_response_codec.decode_encode [OF assms])
  note header = decoded_response_header [OF this]
  have "bytes_at 0 8 (encode_installer_response r) = kInstallerMagic" "encode_installer_response r \<noteq> []"
    using header by (auto simp: kInstallerResponseSize_def)
  moreover have "byte_of CHR ''L'' \<noteq> 0" by (simp add: byte_of_def)
  ultimately show ?thesis
    by (cases "encode_installer_response r") (auto simp: bytes_at_def kInstallerMagic_def bytes_of_def)
qed

lemma last_request_id: "unat (- 1 :: u64) = 2 ^ 64 - 1"
  by (simp add: unsigned_minus_1_eq_mask mask_eq_exp_minus_1)

section \<open>Interface: the session at the other end\<close>

text \<open>It answers, if at all, a request it could read, with a response to it.\<close>

locale installer_channel =
  fixes serve :: "'s \<Rightarrow> bytes \<Rightarrow> bytes option \<times> 's"
  assumes served: "serve s packet = (Some bs, s') \<Longrightarrow>
    \<exists>q r. decode_installer_request packet = Some q \<and> decode_installer_response bs = Some r \<and> answers q r"
begin

lemma installer_exchange_served:
  assumes "serve s (encode_installer_request q) = (Some bs, s')" "0 \<le> ik_descriptor c"
  shows "\<exists>r. installer_exchange serve q c s = (Some r, s') \<and> decode_installer_response bs = Some r \<and> answers q r \<and> installer_request_acceptable q"
proof -
  obtain q' r where q: "decode_installer_request (encode_installer_request q) = Some q'" "decode_installer_response bs = Some r" "answers q' r"
    using served [OF assms(1)] by blast
  have nonempty: "installer_request_acceptable q"
    by (rule encode_request_acceptable [OF q(1)])
  then have "q' = q" using q(1) by (simp add: installer_request_codec.decode_encode)
  moreover have "length bs = kInstallerResponseSize"
    by (rule encoded_response_length [OF q(2)])
  ultimately show ?thesis using assms q nonempty by (simp add: installer_exchange_def answers_def)
qed

text \<open>Success is the answer of the session to this request.\<close>

lemma mutate_success:
  assumes "mutate serve command token (c, s) = ((True, detail), c', s')"
  shows "\<exists>bs r. serve s (encode_installer_request (request command 0 token c)) = (Some bs, s') \<and>
    decode_installer_response bs = Some r \<and> answers (request command 0 token c) r \<and> ir_status r = Status_ready \<and> ir_detail r = detail \<and>
    installer_request_acceptable (request command 0 token c)"
proof -
  define q where "q = request command 0 token c"
  obtain r where r: "installer_exchange serve q c s = (Some r, s')" "ir_status r = Status_ready" "ir_detail r = detail"
    using assms by (auto simp: mutate_def ask_def q_def split: prod.splits option.splits if_splits)
  obtain bs where bs: "serve s (encode_installer_request q) = (Some bs, s')" and fd: "0 \<le> ik_descriptor c"
    using r(1) by (auto simp: installer_exchange_def split: if_splits prod.splits option.splits)
  show ?thesis using installer_exchange_served [OF bs fd] r bs by (auto simp: q_def)
qed

text \<open>Entries that are served without a change of state are collected in order, up to the first that is not.\<close>

lemma collect_served:
  assumes "\<And>id i. id \<noteq> 0 \<Longrightarrow> i < length entries \<Longrightarrow>
      (let q = \<lparr>iq_command = command, iq_request_id = id, iq_index = word_of_nat i, iq_token = []\<rparr> in
       if ok i then \<exists>bs r. serve s (encode_installer_request q) = (Some bs, s) \<and> decode_installer_response bs = Some r \<and>
         ir_status r = Status_ready \<and> entry r = entries ! i
       else serve s (encode_installer_request q) = (None, s))"
    and "0 \<le> ik_descriptor c" "0 < unat (ik_next_request_id c)" "unat (ik_next_request_id c) + n < 2 ^ 64 - 1" "k + n = length entries"
  shows "\<exists>c'. collect serve command entry changed n (word_of_nat k) (take k entries) (c, s) =
    (if \<forall>i. k \<le> i \<and> i < length entries \<longrightarrow> ok i then Inr entries else Inl changed, c', s)"
  using assms(2-)
proof (induction n arbitrary: k c)
  case 0
  then show ?case by simp
next
  case (Suc n)
  have id: "ik_next_request_id c \<noteq> 0" "ik_next_request_id c \<noteq> - 1"
    using Suc.prems(2,3) last_request_id by auto
  define q where "q = request command (word_of_nat k) [] c"
  define c' where "c' = c\<lparr>ik_next_request_id := ik_next_request_id c + 1\<rparr>"
  have entry: "if ok k then \<exists>bs r. serve s (encode_installer_request q) = (Some bs, s) \<and> decode_installer_response bs = Some r \<and>
         ir_status r = Status_ready \<and> entry r = entries ! k
       else serve s (encode_installer_request q) = (None, s)"
    using assms(1) [OF id(1), of k] Suc.prems(4) unfolding q_def request_def Let_def by linarith
  show ?case
  proof (cases "ok k")
    case False
    then have "installer_exchange serve q c s = (None, s)" using entry Suc.prems(1) by (simp add: installer_exchange_def)
    then show ?thesis using False id(2) Suc.prems(4) by (auto simp: ask_def exhausted_def q_def [symmetric])
  next
    case True
    then obtain bs r where bs: "serve s (encode_installer_request q) = (Some bs, s)"
      "decode_installer_response bs = Some r" "ir_status r = Status_ready" "entry r = entries ! k"
      using entry by auto
    have "installer_exchange serve q c s = (Some r, s)" using installer_exchange_served [OF bs(1) Suc.prems(1)] bs(2) by auto
    moreover have "unat (ik_next_request_id c') = unat (ik_next_request_id c) + 1"
      using id(2) unatSuc [of "ik_next_request_id c"] by (simp add: c'_def add.commute) (metis add.commute eq_neg_iff_add_eq_0)
    then have "\<exists>c''. collect serve command entry changed n (word_of_nat (Suc k)) (take (Suc k) entries) (c', s) =
        (if \<forall>i. Suc k \<le> i \<and> i < length entries \<longrightarrow> ok i then Inr entries else Inl changed, c'', s)"
      using Suc.prems by (intro Suc.IH) (simp_all add: c'_def)
    moreover have "(\<forall>i. k \<le> i \<and> i < length entries \<longrightarrow> ok i) \<longleftrightarrow> (\<forall>i. Suc k \<le> i \<and> i < length entries \<longrightarrow> ok i)"
      using True Suc_le_eq le_eq_less_or_eq by auto
    ultimately show ?thesis
      using bs id(2) Suc.prems(4)
      by (auto simp: ask_def exhausted_def q_def [symmetric] c'_def take_Suc_conv_app_nth add.commute)
  qed
qed

end

section \<open>The service of the session daemon\<close>

interpretation installer_service: installer_channel "handle_installer_request env profile calls" for env profile calls
  by unfold_locales (metis handled_request)

text \<open>A response the channel can carry is sent.\<close>

lemma handled_acceptable:
  assumes "installer_request_acceptable q" "installer_reply env profile calls q m = (r, m')" "ic_sent calls"
  shows "handle_installer_request env profile calls m (encode_installer_request q) =
    (if installer_response_acceptable r then Some (encode_installer_response r) else None, m')"
proof -
  have q: "decode_installer_request (encode_installer_request q) = Some q"
    by (rule installer_request_codec.decode_encode [OF assms(1)])
  have a: "answers q r" by (rule reply_answers [OF assms(2)])
  have "hd (encode_installer_response r) \<noteq> 0 \<longleftrightarrow> installer_response_acceptable r"
    using encoded_acceptable [of r] encoded_response_sent [of r] a by (auto simp: answers_def)
  then show ?thesis using q assms(2,3) by (simp add: handle_installer_request_def ic_sent_def Let_def)
qed

text \<open>The two answers of a scan of the inbox.\<close>

lemma scan_details: "is_status (scan_official_inbox env ctx store) = Inbox_ready \<or> is_status (scan_official_inbox env ctx store) = Inbox_empty \<Longrightarrow>
    is_detail (scan_official_inbox env ctx store) = (if is_status (scan_official_inbox env ctx store) = Inbox_empty then ''INBOX_EMPTY'' else ''INBOX_READY'')"
  by (auto simp: scan_official_inbox_def scan_failure_def split: prod.splits if_splits)

lemma scan_length:
  assumes "scan_official_inbox env ctx store = scan" "is_status scan = Inbox_ready \<or> is_status scan = Inbox_empty"
  shows "length (is_candidates scan) \<le> 128"
proof -
  obtain status cs where raw: "raw_candidates env ctx store = (status, cs)" by fastforce
  have s: "status = Inbox_ready \<or> status = Inbox_empty" "is_candidates scan = map rc_public cs"
    using assms raw by (auto simp: scan_official_inbox_def scan_failure_def split: if_splits)
  have "length (unique_tokens xs) \<le> length xs" for xs by (induction xs rule: unique_tokens.induct) auto
  moreover have "length (List.map_filter f xs) \<le> length xs" for f and xs :: "string list"
    by (induction xs) (auto simp: map_filter_simps split: option.split)
  moreover define found where "found = List.map_filter (\<lambda>name. raw_candidate_of env ctx (pl_world store) (bx_file (pl_inbox store) name))
      (sort (bx_listing (pl_inbox store)))"
  moreover have "cs = [] \<or> cs = unique_tokens (sort_key rc_token found)"
    using raw by (auto simp: raw_candidates_def Let_def found_def split: if_splits)
  ultimately have "length cs \<le> length (bx_listing (pl_inbox store))" by (metis bot_nat_0.extremum le_trans length_sort list.size(3))
  then show ?thesis using raw_candidates_ok(3) [OF raw s(1)] s(2) by (simp add: kMaximumInboxEntries_def)
qed

lemma scan_answer_acceptable:
  assumes "scan_official_inbox env ctx store = scan" "is_status scan = Inbox_ready \<or> is_status scan = Inbox_empty" "ik_next_request_id c \<noteq> 0"
  defines "r \<equiv> installer_answer (request Inst_scan 0 [] c) (installer_status_for (is_status scan)) (is_detail scan)"
  shows "installer_response_acceptable (if is_status scan = Inbox_ready then r\<lparr>ir_count := n\<rparr> else r)"
proof -
  have "valid_text ''INBOX_READY'' 256 False" "valid_text ''INBOX_EMPTY'' 256 False" by (simp_all add: valid_text_def code_def)
  then have "valid_text (is_detail scan) 256 False" using scan_details [of env ctx store] assms(1,2) by auto
  then show ?thesis
    using assms(2,3) by (auto simp: r_def installer_response_acceptable_def installer_answer_def request_def response_candidate_def
        response_installed_def count_command_def)
qed

lemma candidate_answer_acceptable:
  fixes number :: u64 and index shown
  assumes "number \<noteq> 0"
  defines "q \<equiv> \<lparr>iq_command = Inst_candidate, iq_request_id = number, iq_index = index, iq_token = []\<rparr>"
  shows "installer_response_acceptable ((installer_answer q Status_ready (cd_detail shown))\<lparr>ir_candidate := shown\<rparr>) \<longleftrightarrow> valid_candidate shown"
  using assms by (auto simp: installer_response_acceptable_def installer_answer_def response_candidate_def response_installed_def
      valid_candidate_def kDetailLimit_def)

section \<open>Properties\<close>

text \<open>C6. What the installer program shows is what the session finds, while its answers arrive: its scan gives the status and every candidate of the
  inbox in their order, one for each digest of a readable file and each judged as the installation would judge
  it; but when one of the candidates cannot be shown, because the verifier refused its file, it shows none.\<close>

theorem inbox_shown:
  assumes "prepare_application_storage (ic_prepare calls) (mg_store m) = (Inbox_ready, mg_store m)" "ic_sent calls"
    and "0 \<le> ik_descriptor c" "ik_next_request_id c \<noteq> 0" "unat (ik_next_request_id c) + 130 < 2 ^ 64"
    and "scan_official_inbox env (installer_policy profile) (mg_store m) = scan" "is_status scan \<in> {Inbox_ready, Inbox_empty}"
  shows "(\<exists>c'. client_scan (handle_installer_request env profile calls) (c, m) =
      (if list_all valid_candidate (is_candidates scan) then scan
       else \<lparr>is_status = Inbox_io_error, is_detail = ''INSTALLER_CANDIDATE_CHANGED'', is_candidates = []\<rparr>, c', m)) \<and>
    sorted_wrt (<) (map cd_token (is_candidates scan)) \<and>
    (\<forall>bs d. readable_package env (pl_inbox (mg_store m)) bs d \<longrightarrow> hex_of_bytes d \<in> cd_token ` set (is_candidates scan)) \<and>
    (\<forall>x \<in> set (is_candidates scan). \<exists>bs d. readable_package env (pl_inbox (mg_store m)) bs d \<and>
       describes env (installer_policy profile) (pl_world (mg_store m)) bs d x)"
proof -
  let ?serve = "handle_installer_request env profile calls"
  have status: "is_status scan = Inbox_ready \<or> is_status scan = Inbox_empty" using assms(7) by auto
  define entries where "entries = is_candidates scan"
  define r where "r = (let a = installer_answer (request Inst_scan 0 [] c) (installer_status_for (is_status scan)) (is_detail scan)
      in if is_status scan = Inbox_ready then a\<lparr>ir_count := word_of_nat (length entries)\<rparr> else a)"
  define c' where "c' = c\<lparr>ik_next_request_id := ik_next_request_id c + 1\<rparr>"
  have same: "m\<lparr>mg_store := mg_store m\<rparr> = m" by simp
  have id: "ik_next_request_id c \<noteq> - 1" using assms(5) last_request_id by auto
  have q: "installer_request_acceptable (request Inst_scan 0 [] c)"
    using assms(4) by (simp add: installer_request_acceptable_def request_def token_command_def)
  have reply: "installer_reply env profile calls (request Inst_scan 0 [] c) m = (r, m)"
    using assms(1,6) by (simp add: installer_reply_def inbox_reply_def request_def installed_command_def Let_def r_def entries_def)
  have acceptable: "installer_response_acceptable r"
    using scan_answer_acceptable [OF assms(6) status assms(4)] by (simp add: r_def Let_def)
  have served: "?serve m (encode_installer_request (request Inst_scan 0 [] c)) = (Some (encode_installer_response r), m)"
    using handled_acceptable [OF q reply assms(2)] acceptable by simp
  have asked: "ask ?serve Inst_scan 0 [] (c, m) = (Some r, c', m)"
    using installer_service.installer_exchange_served [OF served assms(3)] installer_response_codec.decode_encode [OF acceptable]
    by (auto simp: ask_def c'_def)
  have bound: "length entries \<le> 128" using scan_length [OF assms(6) status] by (simp add: entries_def)
  have count: "unat (word_of_nat (length entries) :: u32) = length entries" using bound by (simp add: unat_of_nat)
  have "unat (ik_next_request_id c') = unat (ik_next_request_id c) + 1"
    using id unatSuc [of "ik_next_request_id c"] by (simp add: c'_def add.commute) (metis add.commute eq_neg_iff_add_eq_0)
  then have next_id: "0 < unat (ik_next_request_id c')" "unat (ik_next_request_id c') + length entries < 2 ^ 64 - 1"
    using bound assms(5) by simp_all
  have entry: "let q = \<lparr>iq_command = Inst_candidate, iq_request_id = id, iq_index = word_of_nat i, iq_token = []\<rparr> in
       if valid_candidate (entries ! i) then \<exists>bs r. ?serve m (encode_installer_request q) = (Some bs, m) \<and>
         decode_installer_response bs = Some r \<and> ir_status r = Status_ready \<and> ir_candidate r = entries ! i
       else ?serve m (encode_installer_request q) = (None, m)"
    if "id \<noteq> 0" "i < length entries" for id :: u64 and i
  proof -
    define q where "q = \<lparr>iq_command = Inst_candidate, iq_request_id = id, iq_index = word_of_nat i, iq_token = []\<rparr>"
    define a where "a = (installer_answer q Status_ready (cd_detail (entries ! i)))\<lparr>ir_candidate := entries ! i\<rparr>"
    have q: "installer_request_acceptable q"
      using that(1) by (simp add: q_def installer_request_acceptable_def token_command_def index_command_def)
    have index: "unat (word_of_nat i :: u32) = i" using that(2) bound by (simp add: unat_of_nat)
    have ready: "is_status scan = Inbox_ready"
      using status that(2) scan_candidates(4) [OF assms(6) status] by (auto simp: entries_def)
    have reply: "installer_reply env profile calls q m = (a, m)"
      using assms(1,6) ready that(2) index
      by (simp add: installer_reply_def inbox_reply_def installed_command_def Let_def a_def q_def entries_def)
    have "installer_response_acceptable a \<longleftrightarrow> valid_candidate (entries ! i)"
      using candidate_answer_acceptable [OF that(1)] by (simp add: a_def q_def)
    then have "?serve m (encode_installer_request q) =
        (if valid_candidate (entries ! i) then Some (encode_installer_response a) else None, m)"
      and "valid_candidate (entries ! i) \<Longrightarrow> decode_installer_response (encode_installer_response a) = Some a"
      using handled_acceptable [OF q reply assms(2)] installer_response_codec.decode_encode [of a] by simp_all
    then show ?thesis by (simp add: q_def [symmetric]) (simp add: a_def installer_answer_def)
  qed
  obtain c'' where collected: "collect ?serve Inst_candidate ir_candidate ''INSTALLER_CANDIDATE_CHANGED'' (length entries) 0 [] (c', m) =
      (if \<forall>i. i < length entries \<longrightarrow> valid_candidate (entries ! i) then Inr entries else Inl ''INSTALLER_CANDIDATE_CHANGED'', c'', m)"
    using installer_service.collect_served [where entries = entries and env = env and profile = profile and calls = calls and s = m
        and command = Inst_candidate and ok = "\<lambda>i. valid_candidate (entries ! i)" and entry = ir_candidate and c = c'
        and n = "length entries" and k = 0 and changed = "''INSTALLER_CANDIDATE_CHANGED''"] entry next_id assms(3)
    by (auto simp: c'_def)
  have valid: "(\<forall>i. i < length entries \<longrightarrow> valid_candidate (entries ! i)) \<longleftrightarrow> list_all valid_candidate entries"
    by (simp add: list_all_length)
  have "\<exists>c'. client_scan ?serve (c, m) =
      (if list_all valid_candidate entries then scan
       else \<lparr>is_status = Inbox_io_error, is_detail = ''INSTALLER_CANDIDATE_CHANGED'', is_candidates = []\<rparr>, c', m)"
  proof (cases "is_status scan = Inbox_ready")
    case True
    then have r': "ir_status r = Status_ready" "ir_count r = word_of_nat (length entries)" "ir_detail r = is_detail scan"
      by (simp_all add: r_def installer_answer_def Let_def)
    have "\<not> 128 < ir_count r" using count bound by (simp add: r'(2) word_less_nat_alt)
    moreover have "scan = \<lparr>is_status = Inbox_ready, is_detail = is_detail scan, is_candidates = entries\<rparr>"
      using True by (simp add: entries_def)
    ultimately show ?thesis
      using id asked collected r' count by (simp add: client_scan_def exhausted_def valid)
  next
    case False
    then have empty: "entries = []" "is_status scan = Inbox_empty"
      using status scan_candidates(4) [OF assms(6) status] by (auto simp: entries_def)
    then have "ir_status r = Status_empty" "ir_detail r = is_detail scan" by (simp_all add: r_def installer_answer_def Let_def)
    moreover have "scan = \<lparr>is_status = Inbox_empty, is_detail = is_detail scan, is_candidates = []\<rparr>"
      using empty by (simp add: entries_def)
    ultimately show ?thesis using id asked empty by (simp add: client_scan_def exhausted_def)
  qed
  then show ?thesis unfolding entries_def using scan_candidates [OF assms(6) status] by blast
qed

text \<open>What an installation leaves.\<close>

definition package_installed ::
    "install_environment \<Rightarrow> policy_context \<Rightarrow> string \<Rightarrow> platform_store \<Rightarrow> platform_store \<Rightarrow> bool" where
  "package_installed env ctx token store store' \<longleftrightarrow>
    (\<exists>bs d v app s t. readable_package env (pl_inbox store) bs d \<and> token = hex_of_bytes d \<and>
    v = trust_verify (en_trust env) (en_parse env) (en_crypto env) bs \<and> app = pm_app_id (pv_manifest v) \<and>
    installable env ctx (pl_world store) v d \<and>
    loaded_state (en_state_root env) app (en_crypto env) (wo_state (pl_world store')) = Some s \<and>
    rs_current_release s = pm_release_counter (pv_manifest v) \<and> rs_current_digest s = d \<and>
    ar_releases (pr_app (wo_payload (pl_world store')) app) (release_name_of (pm_release_counter (pv_manifest v))) = Some t \<and>
    (release_complete bs d (pv_payload_start v) (pm_files (pv_manifest v)) t \<or> release_package_matches t bs d) \<and>
    (\<forall>other. other \<noteq> app \<longrightarrow> pr_app (wo_payload (pl_world store')) other = pr_app (wo_payload (pl_world store)) other \<and>
      (\<forall>u. loaded_state (en_state_root env) other (en_crypto env) (wo_state (pl_world store)) = Some u \<longrightarrow>
           loaded_state (en_state_root env) other (en_crypto env) (wo_state (pl_world store')) = Some u)))"

text \<open>C3. When the installer program reports an installation as done, the session installed what the token names: a file of
  the inbox has the token as its digest, the verifier accepts exactly these bytes, the application is not part of
  the platform and the policy allows it; the stored state then names this release with this digest as current,
  its release directory is the complete package, and the releases and the state of every other application are
  untouched.\<close>

theorem reported_install_exact:
  assumes "mutate (handle_installer_request env profile calls) Inst_install token (c, m) = ((True, detail), c', m')"
    and "prepare_application_storage (ic_prepare calls) (mg_store m) = (prepared, store)"
    and "\<And>app. loaded_state (en_state_root env) app (en_crypto env) (wo_state (pl_world store)) \<noteq> None \<or> no_slots app (wo_state (pl_world store))"
  shows "prepared = Inbox_ready \<and> package_installed env (installer_policy profile) token store (mg_store m')"
proof -
  define q where "q = request Inst_install 0 token c"
  have command: "iq_command q = Inst_install" "iq_token q = token" by (simp_all add: q_def request_def)
  obtain bs r where s: "handle_installer_request env profile calls m (encode_installer_request q) = (Some bs, m')"
    "decode_installer_response bs = Some r" "ir_status r = Status_ready" "installer_request_acceptable q"
    using installer_service.mutate_success [OF assms(1)] by (auto simp: q_def)
  obtain q' r' where h: "decode_installer_request (encode_installer_request q) = Some q'" "installer_reply env profile calls q' m = (r', m')"
    "decode_installer_response bs = Some r'"
    by (rule handled_request [OF s(1)])
  have "q' = q" "r' = r" using h(1,3) s(2) installer_request_codec.decode_encode [OF s(4)] by simp_all
  then have reply: "installer_reply env profile calls q m = (r, m')" using h(2) by simp
  have ready: "prepared = Inbox_ready"
  proof (rule ccontr)
    assume "prepared \<noteq> Inbox_ready"
    then have "ir_status r = installer_status_for prepared"
      using reply assms(2) by (auto simp: installer_reply_def installer_answer_def Let_def)
    then show False using s(3) \<open>prepared \<noteq> Inbox_ready\<close> by (cases prepared) simp_all
  qed
  obtain result store' where install: "install_official_inbox_candidate env (installer_policy profile) token (ic_install calls) store = (result, store')"
    by fastforce
  have r: "ir_status r = installer_status_for (ii_status result)" "mg_store m' = store'"
    using reply assms(2) ready install command by (auto simp: installer_reply_def installer_answer_def Let_def)
  have "ii_status result = Inbox_ready" using r(1) s(3) by (cases "ii_status result") simp_all
  then have "ii_ok result"
    using install by (auto simp: install_official_inbox_candidate_def ii_ok_def Let_def split: if_splits option.splits prod.splits)
  then show ?thesis
    using inbox_install_exact [OF install _ assms(3)] ready unfolding package_installed_def r(2) by blast
qed

end
