(* ===== verification/Client_Sample.thy ===== *)
theory Client_Sample
  imports Installer_Client App_Control Session_Sample
begin

text \<open>The installer program with the inbox sample, and a request of the desktop to its session.\<close>

definition inbox_managed :: managed where
  "inbox_managed = sample_managed\<lparr>mg_store := inbox_store\<rparr>"

definition sample_client :: installer_client where
  "sample_client = \<lparr>ik_descriptor = 5, ik_next_request_id = 1\<rparr>"

lemma inbox_prepared: "prepare_application_storage (ic_prepare good_calls) (mg_store inbox_managed) = (Inbox_ready, mg_store inbox_managed)"
  by (simp add: prepare_application_storage_def inbox_managed_def inbox_store_def empty_world_def sample_inbox_def ensure_root_def)

lemma inbox_shown_witness:
  "sample_token \<in> cd_token ` set (is_candidates (scan_official_inbox sample_environment (installer_policy sample_session) inbox_store)) \<and>
   (\<exists>c'. client_scan (handle_installer_request sample_environment sample_session good_calls) (sample_client, inbox_managed) =
     (if list_all valid_candidate (is_candidates (scan_official_inbox sample_environment (installer_policy sample_session) inbox_store))
      then scan_official_inbox sample_environment (installer_policy sample_session) inbox_store
      else \<lparr>is_status = Inbox_io_error, is_detail = ''INSTALLER_CANDIDATE_CHANGED'', is_candidates = []\<rparr>, c', inbox_managed))"
proof -
  obtain c where "raw_candidates sample_environment (installer_policy sample_session) inbox_store = (Inbox_ready, [c])"
    by (rule sample_raw_candidates)
  then have ready: "is_status (scan_official_inbox sample_environment (installer_policy sample_session) (mg_store inbox_managed)) \<in> {Inbox_ready, Inbox_empty}"
    by (simp add: scan_official_inbox_def inbox_managed_def)
  have client: "0 \<le> ik_descriptor sample_client" "ik_next_request_id sample_client \<noteq> 0"
    "unat (ik_next_request_id sample_client) + 130 < 2 ^ 64" "ic_sent good_calls"
    by (simp_all add: sample_client_def good_calls_def ic_sent_def)
  note shown = inbox_shown [OF inbox_prepared client(4,1-3) refl ready]
  have "readable_package sample_environment (pl_inbox inbox_store) sample_package (replicate 64 2)"
    using sample_read by (simp add: readable_package_def inbox_store_def sample_inbox_verified) (simp add: sample_inbox_def)
  moreover have "mg_store inbox_managed = inbox_store" by (simp add: inbox_managed_def)
  ultimately show ?thesis using shown unfolding sample_token_def by metis
qed

lemma installed_detail: "install_official_package env ctx bs faults w = (r, w') \<Longrightarrow> in_ok r \<Longrightarrow> valid_text (in_detail r) 256 False"
proof -
  assume i: "install_official_package env ctx bs faults w = (r, w')" "in_ok r"
  then have "in_detail r \<in> {''INSTALLER_INSTALLED'', ''INSTALLER_ALREADY_INSTALLED'', ''INSTALLER_INSTALLED_STATE_DEGRADED''}"
    by (auto simp: install_official_package_def install_loaded_def in_ok_def Let_def split: option.splits if_splits prod.splits)
  then show ?thesis by (auto simp: valid_text_def code_def)
qed

lemma reported_install_exact_witness:
  "\<exists>detail c' m'. mutate (handle_installer_request sample_environment sample_session good_calls) Inst_install sample_token
      (sample_client, inbox_managed) = ((True, detail), c', m') \<and>
    package_installed sample_environment (installer_policy sample_session) sample_token inbox_store (mg_store m')"
proof -
  obtain c where c: "raw_candidates sample_environment (installer_policy sample_session) inbox_store = (Inbox_ready, [c])"
    "rc_bytes c = sample_package" "rc_verification c = sample_verification" "cd_installable (rc_public c)" "rc_token c = sample_token"
    by (rule sample_raw_candidates)
  obtain r w' where i: "install_official_package sample_environment (installer_policy sample_session) sample_package no_faults
      empty_world = (r, w')" "in_ok r" using sample_installed by blast
  obtain result store' where inst: "install_official_inbox_candidate sample_environment (installer_policy sample_session)
      sample_token no_faults inbox_store = (result, store')" by fastforce
  have result: "ii_status result = Inbox_ready" "ii_detail result = in_detail r"
    using inst c i sample_token_valid
    by (auto simp: install_official_inbox_candidate_def sample_manifest_fields sample_ids inbox_store_def)
  define q where "q = request Inst_install 0 sample_token sample_client"
  have q: "installer_request_acceptable q" "iq_command q = Inst_install" "iq_token q = sample_token"
    by (simp_all add: q_def request_def sample_client_def installer_request_acceptable_def token_command_def index_command_def sample_token_valid)
  define a where "a = installer_answer q Status_ready (in_detail r)"
  have reply: "installer_reply sample_environment sample_session good_calls q inbox_managed = (a, inbox_managed\<lparr>mg_store := store'\<rparr>)"
    using inst result q(2,3) by (simp add: installer_reply_def inbox_prepared a_def Let_def) (simp add: inbox_managed_def good_calls_def)
  have acceptable: "installer_response_acceptable a"
    using installed_detail [OF i] q(1)
    by (simp add: a_def installer_answer_def installer_response_acceptable_def installer_request_acceptable_def response_candidate_def
        response_installed_def q(2))
  have sent: "ic_sent good_calls" by (simp add: good_calls_def ic_sent_def)
  have served: "handle_installer_request sample_environment sample_session good_calls inbox_managed (encode_installer_request q) =
      (Some (encode_installer_response a), inbox_managed\<lparr>mg_store := store'\<rparr>)"
    using handled_acceptable [OF q(1) reply sent] acceptable by simp
  have fd: "0 \<le> ik_descriptor sample_client" by (simp add: sample_client_def)
  have exchanged: "installer_exchange (handle_installer_request sample_environment sample_session good_calls) q sample_client inbox_managed =
      (Some a, inbox_managed\<lparr>mg_store := store'\<rparr>)"
    using installer_service.installer_exchange_served [OF served fd] installer_response_codec.decode_encode [OF acceptable] by auto
  have "\<not> exhausted sample_client" by (simp add: exhausted_def sample_client_def)
  then obtain c' where m: "mutate (handle_installer_request sample_environment sample_session good_calls) Inst_install sample_token
      (sample_client, inbox_managed) = ((True, in_detail r), c', inbox_managed\<lparr>mg_store := store'\<rparr>)"
    using exchanged by (simp add: mutate_def ask_def q_def [symmetric]) (simp add: a_def installer_answer_def)
  have slots: "loaded_state (en_state_root sample_environment) app (en_crypto sample_environment) (wo_state (pl_world (mg_store inbox_managed))) \<noteq> None \<or>
      no_slots app (wo_state (pl_world (mg_store inbox_managed)))" for app
    by (simp add: inbox_managed_def inbox_store_def empty_world_def no_slots_def)
  have "mg_store inbox_managed = inbox_store" by (simp add: inbox_managed_def)
  then show ?thesis using reported_install_exact [OF m inbox_prepared slots] m by auto
qed


lemma requests_carried_out_witness:
  "\<exists>packet. make_request None True (new_app_control (program_environment sample_profile app_desktop
        \<lparr>pp_limits = pm_limits platform_manifest, pp_private_storage = False, pp_uid = 7, pp_gid = 7\<rparr> sample_descriptors No_notice))
      (Request_launch app_game2048) = Some (True, Some packet) \<and>
    control_step app_desktop (quiet_round\<lparr>po_control := Some packet\<rparr>) (new_foreground\<lparr>fg_ready := True\<rparr>, first_session) =
      (requests Action_launch app_game2048 (new_foreground\<lparr>fg_ready := True\<rparr>), first_session)"
proof -
  define c where "c = new_app_control (program_environment sample_profile app_desktop
        \<lparr>pp_limits = pm_limits platform_manifest, pp_private_storage = False, pp_uid = 7, pp_gid = 7\<rparr> sample_descriptors No_notice)"
  have fds: "3 \<le> ds_control sample_descriptors" "ds_control sample_descriptors \<le> int_max_value"
    by (simp_all add: sample_descriptors_def int_max_value_def)
  obtain sent packet where made: "make_request None True c (Request_launch app_game2048) = Some (sent, packet)"
    by (simp add: make_request_def) (metis prod.exhaust)
  have valid: "valid_session_app_id app_game2048" by code_simp
  have granted: "request_granted app_desktop True (Request_launch app_game2048)"
    by (simp add: request_granted_def launchable_def built_in_program_path_def) (simp add: app_desktop_def app_game2048_def)
  obtain g' s' where step: "control_step app_desktop (quiet_round\<lparr>po_control := packet\<rparr>) (new_foreground\<lparr>fg_ready := True\<rparr>, first_session) = (g', s')"
    by fastforce
  have "sent \<and> packet \<noteq> None \<and> s' = first_session \<and> g' = requests Action_launch app_game2048 (new_foreground\<lparr>fg_ready := True\<rparr>)"
    using requests_carried_out [OF c_def fds made, of quiet_round "new_foreground\<lparr>fg_ready := True\<rparr>" first_session] valid granted step
    by simp
  then show ?thesis using made step by (auto simp: c_def)
qed

end
