(* ===== verification/Manager_Removal.thy ===== *)
theory Manager_Removal
  imports Directory_Removal Launcher
begin

text \<open>
  How the manager removes the platform (\<open>manager/native/src/Manager/Manager.cpp\<close>, first part): the check of the
  published status, the removal of a tree under limits of its own, and the cleanup of the directories that
  earlier removals left. Trees, directories and the outcomes of the system calls are as in
  \<open>Directory_Removal\<close>, the small files of root as in \<open>Launcher\<close>.
\<close>

section \<open>The status of the session\<close>

definition read_trusted_file :: "root_file option \<Rightarrow> nat \<Rightarrow> string option" where
  "read_trusted_file input maximum =
     (case input of None \<Rightarrow> None
      | Some f \<Rightarrow>
        if \<not> rf_regular f \<or> rf_uid f \<noteq> 0 \<or> rf_mode f AND 18 \<noteq> 0 \<or> rf_contents f = [] \<or> maximum < length (rf_contents f)
        then None
        else if rf_reads f then Some (rf_contents f) else None)"

text \<open>What \<open>lstat\<close> and \<open>open\<close> find at the path of the status.\<close>

datatype status_entry = No_status_file | Unknown_status_file | Status_file "root_file option"

definition occurs_in :: "string \<Rightarrow> string \<Rightarrow> bool" where
  "occurs_in p t \<longleftrightarrow> list_ex (\<lambda>i. take (length p) (drop i t) = p) [0..<Suc (length t)]"

definition stopped_line :: string where
  "stopped_line = ''STATE=stopped'' @ [newline]"

definition session_removal_allowed :: "status_entry \<Rightarrow> bool" where
  "session_removal_allowed e =
     (case e of
        No_status_file \<Rightarrow> True
      | Unknown_status_file \<Rightarrow> False
      | Status_file input \<Rightarrow>
        (case read_trusted_file input 4096 of None \<Rightarrow> False | Some t \<Rightarrow> occurs_in stopped_line t))"

section \<open>Removal of a tree\<close>

definition kRemovalNodeLimit :: nat where "kRemovalNodeLimit = 100000"
definition kRemovalDepthLimit :: nat where "kRemovalDepthLimit = 32"

function (sequential) remove_contents ::
    "removal_calls \<Rightarrow> (string \<times> raw_node) list \<Rightarrow> nat \<Rightarrow> nat \<Rightarrow> bool \<times> (string \<times> raw_node) list \<times> nat"
  and remove_listed ::
    "removal_calls \<Rightarrow> (string \<times> raw_node) list \<Rightarrow> nat \<Rightarrow> nat \<Rightarrow> bool \<times> (string \<times> raw_node) list \<times> nat" where
  "remove_contents calls es depth nodes =
     (if kRemovalDepthLimit < depth then (False, es, nodes)
      else if \<not> rm_list calls nodes then (False, es, nodes)
      else remove_listed calls es depth nodes)"
| "remove_listed calls [] depth nodes = (rm_finish calls nodes, [], nodes)"
| "remove_listed calls ((name, node) # es) depth nodes =
     (if kRemovalNodeLimit < Suc nodes then (False, (name, node) # es, Suc nodes)
      else if \<not> rm_stat calls (Suc nodes) then (False, (name, node) # es, Suc nodes)
      else case node of
        Raw_directory trusted children \<Rightarrow>
          if \<not> trusted then (False, (name, node) # es, Suc nodes)
          else (case remove_contents calls children (Suc depth) (Suc nodes) of (removed, rest, later) \<Rightarrow>
            if \<not> removed \<or> \<not> rm_unlink calls (Suc nodes)
            then (False, (name, Raw_directory trusted rest) # es, later)
            else remove_listed calls es depth later)
      | Raw_file \<Rightarrow>
          if \<not> rm_unlink calls (Suc nodes) then (False, (name, node) # es, Suc nodes)
          else remove_listed calls es depth (Suc nodes))"
  by pat_completeness auto
termination
  by (relation "measure (case_sum (\<lambda>(calls, es, depth, nodes). 2 * entries_size es + 1) (\<lambda>(calls, es, depth, nodes). 2 * entries_size es))")
    (auto simp: node_size_pos)

section \<open>Tombstones of the platform\<close>

definition removed_prefix :: string where
  "removed_prefix = ''.lvgl-platform-removed-''"

text \<open>A name the cleanup passes over, and one it accepts.\<close>

definition other_name :: "string \<Rightarrow> bool" where
  "other_name name \<longleftrightarrow> length name \<le> length removed_prefix \<or> take (length removed_prefix) name \<noteq> removed_prefix"

definition removed_name :: "string \<Rightarrow> bool" where
  "removed_name name \<longleftrightarrow> length name = length removed_prefix + 24 \<and> list_all is_hex_lower (drop (length removed_prefix) name)"

text \<open>The calls of the pass: those on each tombstone, by its name, and the end of the listing with the sync.\<close>

record cleanup_calls =
  cu_listed :: bool
  cu_removal :: "string \<Rightarrow> removal_calls"
  cu_finish :: bool

fun cleanup_removed :: "cleanup_calls \<Rightarrow> (string \<times> (string \<times> raw_node) list option) list \<Rightarrow> nat
       \<Rightarrow> bool \<times> (string \<times> (string \<times> raw_node) list option) list" where
  "cleanup_removed calls [] nodes = (cu_finish calls, [])"
| "cleanup_removed calls ((name, contents) # es) nodes =
     (if other_name name then map_prod id ((#) (name, contents)) (cleanup_removed calls es nodes)
      else if \<not> removed_name name then (False, (name, contents) # es)
      else case contents of None \<Rightarrow> (False, (name, contents) # es)
      | Some children \<Rightarrow>
        case remove_contents (cu_removal calls name) children 0 nodes of (removed, rest, later) \<Rightarrow>
          if \<not> removed \<or> \<not> rm_rmdir (cu_removal calls name) later then (False, (name, Some rest) # es)
          else cleanup_removed calls es later)"

definition cleanup_removal_tombstones ::
    "cleanup_calls \<Rightarrow> (string \<times> (string \<times> raw_node) list option) list
       \<Rightarrow> bool \<times> (string \<times> (string \<times> raw_node) list option) list" where
  "cleanup_removal_tombstones calls es = (if \<not> cu_listed calls then (False, es) else cleanup_removed calls es 0)"

section \<open>What the status says\<close>

lemma occurs_in_iff: "occurs_in p t \<longleftrightarrow> (\<exists>xs ys. t = xs @ p @ ys)"
proof
  assume "occurs_in p t"
  then obtain i where "take (length p) (drop i t) = p" by (auto simp: occurs_in_def list_ex_iff)
  then have "t = take i t @ p @ drop (length p) (drop i t)" by (metis append_take_drop_id)
  then show "\<exists>xs ys. t = xs @ p @ ys" by blast
next
  assume "\<exists>xs ys. t = xs @ p @ ys"
  then obtain xs ys where "t = xs @ p @ ys" by blast
  then have "length xs \<in> set [0..<Suc (length t)] \<and> take (length p) (drop (length xs) t) = p" by simp
  then show "occurs_in p t" unfolding occurs_in_def list_ex_iff by blast
qed

lemma append_Cons_eq_iff_first: "x \<notin> set xs \<Longrightarrow> x \<notin> set ys \<Longrightarrow> xs @ x # us = ys @ x # vs \<Longrightarrow> xs = ys \<and> us = vs"
  by (induction xs arbitrary: ys) (auto simp: Cons_eq_append_conv)

text \<open>A line that occurs in a document ends one of its lines.\<close>

lemma occurs_in_document:
  assumes "newline \<notin> set p" "\<forall>(k, v)\<in>set kvs. newline \<notin> set k \<and> newline \<notin> set v"
  shows "occurs_in (p @ [newline]) (profile_document kvs) \<longleftrightarrow> (\<exists>(k, v)\<in>set kvs. \<exists>xs. k @ equals # v = xs @ p)"
  using assms(2)
proof (induction kvs)
  case Nil
  then show ?case by (simp add: profile_document_def occurs_in_iff)
next
  case (Cons kv kvs)
  obtain k v where kv: "kv = (k, v)" by fastforce
  define l where "l = k @ equals # v"
  define rest where "rest = profile_document kvs"
  have l: "newline \<notin> set l" using Cons.prems by (auto simp: kv l_def equals_def newline_def)
  have doc: "profile_document (kv # kvs) = l @ newline # rest"
    by (simp add: profile_document_def profile_line_def kv l_def rest_def)
  have "occurs_in (p @ [newline]) (l @ newline # rest) \<longleftrightarrow> (\<exists>xs. l = xs @ p) \<or> occurs_in (p @ [newline]) rest"
  proof
    assume "occurs_in (p @ [newline]) (l @ newline # rest)"
    then obtain xs ys where at: "l @ newline # rest = xs @ p @ newline # ys" by (auto simp: occurs_in_iff)
    show "(\<exists>xs. l = xs @ p) \<or> occurs_in (p @ [newline]) rest"
    proof (cases "newline \<in> set xs")
      case True
      then obtain a b where xs: "xs = a @ newline # b" "newline \<notin> set a" using split_list_first by metis
      then have "l @ newline # rest = a @ newline # (b @ p @ newline # ys)" using at by simp
      then have "rest = b @ (p @ [newline]) @ ys"
        using append_Cons_eq_iff_first [OF l xs(2)] by simp
      then show ?thesis unfolding occurs_in_iff by blast
    next
      case False
      then have "newline \<notin> set (xs @ p)" using assms(1) by simp
      moreover have "l @ newline # rest = (xs @ p) @ newline # ys" using at by simp
      ultimately have "l = xs @ p" using append_Cons_eq_iff_first [OF l] by blast
      then show ?thesis by blast
    qed
  next
    assume "(\<exists>xs. l = xs @ p) \<or> occurs_in (p @ [newline]) rest"
    then show "occurs_in (p @ [newline]) (l @ newline # rest)"
    proof
      assume "\<exists>xs. l = xs @ p"
      then obtain xs where "l @ newline # rest = xs @ (p @ [newline]) @ rest" by auto
      then show ?thesis unfolding occurs_in_iff by blast
    next
      assume "occurs_in (p @ [newline]) rest"
      then obtain xs ys where "rest = xs @ (p @ [newline]) @ ys" by (auto simp: occurs_in_iff)
      then have "l @ newline # rest = (l @ newline # xs) @ (p @ [newline]) @ ys" by simp
      then show ?thesis unfolding occurs_in_iff by blast
    qed
  qed
  with Cons show ?case unfolding doc by (auto simp: kv l_def rest_def)
qed

lemma number_no_newline: "newline \<notin> set (dec_string n)"
  using dec_string_digits [of n] by (auto simp: list_all_iff is_digit_def code_def newline_def)

lemma number_no_equals: "equals \<notin> set (dec_string n)"
  using dec_string_digits [of n] by (auto simp: list_all_iff is_digit_def code_def equals_def)

text \<open>The manager finds the line exactly in the documents of a stopped session.\<close>

lemma stopped_line_published:
  assumes "publishable s"
  shows "occurs_in stopped_line (encode_session_status s) \<longleftrightarrow> ss_state s = Session_stopped"
proof -
  have values_ok: "\<forall>(k, v)\<in>set (status_fields s). newline \<notin> set k \<and> newline \<notin> set v"
    by (cases "ss_state s") (simp_all add: status_fields_def dec_string_int_def number_no_newline [unfolded newline_def] newline_def)
  have plain: "\<forall>(k, v)\<in>set (status_fields s). equals \<notin> set k \<and> equals \<notin> set v"
    by (cases "ss_state s") (simp_all add: status_fields_def dec_string_int_def number_no_equals [unfolded equals_def] equals_def)
  have tail: "(\<exists>ys. k = ys @ ''STATE'') \<longleftrightarrow> 5 \<le> length k \<and> drop (length k - 5) k = ''STATE''" for k :: string
    by (auto intro: exI [of _ "take (length k - 5) k"]) (metis append_take_drop_id)
  have suffix: "(\<exists>xs. k @ equals # v = xs @ ''STATE=stopped'') \<longleftrightarrow> (\<exists>ys. k = ys @ ''STATE'') \<and> v = ''stopped''"
    if "equals \<notin> set k \<and> equals \<notin> set v" for k v
  proof
    assume "\<exists>xs. k @ equals # v = xs @ ''STATE=stopped''"
    then obtain xs where "k @ equals # v = (xs @ ''STATE'') @ equals # ''stopped''" by (auto simp: equals_def)
    then have "k = xs @ ''STATE'' \<and> v = ''stopped''" using append_Cons_eq_iff [of equals k v "xs @ ''STATE''" "''stopped''"] that by blast
    then show "(\<exists>ys. k = ys @ ''STATE'') \<and> v = ''stopped''" by blast
  next
    assume "(\<exists>ys. k = ys @ ''STATE'') \<and> v = ''stopped''"
    then show "\<exists>xs. k @ equals # v = xs @ ''STATE=stopped''" by (auto simp: equals_def)
  qed
  have same: "(case x of (k, v) \<Rightarrow> \<exists>xs. k @ equals # v = xs @ ''STATE=stopped'') \<longleftrightarrow>
      (case x of (k, v) \<Rightarrow> (5 \<le> length k \<and> drop (length k - 5) k = ''STATE'') \<and> v = ''stopped'')"
    if x: "x \<in> set (status_fields s)" for x
  proof -
    obtain k v where kv: "x = (k, v)" by fastforce
    then have "equals \<notin> set k \<and> equals \<notin> set v" using plain x by blast
    from suffix [OF this] show ?thesis by (simp only: kv prod.case tail)
  qed
  have "occurs_in stopped_line (encode_session_status s) \<longleftrightarrow>
      (\<exists>(k, v)\<in>set (status_fields s). \<exists>xs. k @ equals # v = xs @ ''STATE=stopped'')"
    using occurs_in_document [of "''STATE=stopped''" "status_fields s", OF _ values_ok] assms
    by (simp add: stopped_line_def encode_session_status_def newline_def)
  also have "\<dots> \<longleftrightarrow> (\<exists>(k, v)\<in>set (status_fields s). (5 \<le> length k \<and> drop (length k - 5) k = ''STATE'') \<and> v = ''stopped'')"
    using same by (intro bex_cong) auto
  also have "\<dots> \<longleftrightarrow> ss_state s = Session_stopped"
    by (cases "ss_state s") (simp_all add: status_fields_def)
  finally show ?thesis .
qed

section \<open>What a removal leaves\<close>

text \<open>The levels of directories below a listing.\<close>

fun node_depth :: "raw_node \<Rightarrow> nat"
  and entries_depth :: "(string \<times> raw_node) list \<Rightarrow> nat" where
  "node_depth Raw_file = 0"
| "node_depth (Raw_directory trusted es) = Suc (entries_depth es)"
| "entries_depth [] = 0"
| "entries_depth ((name, node) # es) = max (node_depth node) (entries_depth es)"

text \<open>A tree that is too deep is not removed, and is still too deep.\<close>

definition still_deep :: "nat \<Rightarrow> bool \<times> (string \<times> raw_node) list \<times> nat \<Rightarrow> bool" where
  "still_deep depth result \<longleftrightarrow> \<not> fst result \<and> kRemovalDepthLimit < depth + entries_depth (fst (snd result))"

lemma deep_stays:
  "kRemovalDepthLimit < depth + entries_depth es \<Longrightarrow> still_deep depth (remove_contents calls es depth nodes)"
  "kRemovalDepthLimit < depth + entries_depth es \<Longrightarrow> depth \<le> kRemovalDepthLimit \<Longrightarrow>
     still_deep depth (remove_listed calls es depth nodes)"
proof (induction calls es depth nodes and calls es depth nodes rule: remove_contents_remove_listed.induct)
  case (1 calls es depth nodes)
  then show ?case by (simp add: still_deep_def)
next
  case (2 calls depth nodes)
  then show ?case by simp
next
  case (3 calls name node es depth nodes)
  consider "kRemovalNodeLimit < Suc nodes \<or> \<not> rm_stat calls (Suc nodes)"
    | (plain) "\<not> kRemovalNodeLimit < Suc nodes" "rm_stat calls (Suc nodes)" "node = Raw_file"
    | (dir) trusted children where "\<not> kRemovalNodeLimit < Suc nodes" "rm_stat calls (Suc nodes)" "node = Raw_directory trusted children"
    by (cases node) auto
  then show ?case
  proof cases
    case 1
    then show ?thesis using 3(4) by (auto simp: still_deep_def)
  next
    case plain
    have "still_deep depth (remove_listed calls es depth (Suc nodes))" if "rm_unlink calls (Suc nodes)"
      using 3(1) [OF plain(1)] plain that 3(4,5) by simp
    then show ?thesis using 3(4) plain by (auto simp: still_deep_def)
  next
    case dir
    obtain removed rest later where c: "remove_contents calls children (Suc depth) (Suc nodes) = (removed, rest, later)"
      by (metis prod_cases3)
    have child: "\<not> removed \<and> kRemovalDepthLimit < depth + 1 + entries_depth rest"
      if "kRemovalDepthLimit < depth + 1 + entries_depth children" trusted
      using 3(2) [OF dir(1) _ dir(3)] dir(2) that unfolding c [symmetric]
      by (simp add: still_deep_def c del: remove_contents.simps)
    have rest: "still_deep depth (remove_listed calls es depth later)"
      if "kRemovalDepthLimit < depth + entries_depth es" trusted removed "rm_unlink calls (Suc nodes)"
      using 3(3) [OF dir(1) _ dir(3) _ c [symmetric] refl] dir(2) that 3(5) by simp
    show ?thesis
    proof (cases "trusted \<and> removed \<and> rm_unlink calls (Suc nodes)")
      case True
      then have "\<not> kRemovalDepthLimit < depth + 1 + entries_depth children" using child by blast
      then have "kRemovalDepthLimit < depth + entries_depth es" using 3(4) dir(3) by auto
      then show ?thesis using rest True dir c by simp
    next
      case False
      then show ?thesis using 3(4) dir c child by (auto simp: still_deep_def max_def simp del: remove_contents.simps split: if_splits)
    qed
  qed
qed

text \<open>Within the limits, and when no call fails, all of a trusted tree is removed.\<close>

fun trusted_node :: "raw_node \<Rightarrow> bool"
  and trusted_entries :: "(string \<times> raw_node) list \<Rightarrow> bool" where
  "trusted_node Raw_file \<longleftrightarrow> True"
| "trusted_node (Raw_directory trusted es) \<longleftrightarrow> trusted \<and> trusted_entries es"
| "trusted_entries [] \<longleftrightarrow> True"
| "trusted_entries ((name, node) # es) \<longleftrightarrow> trusted_node node \<and> trusted_entries es"

lemma removed_within_limits:
  "calls_succeed calls \<Longrightarrow> trusted_entries es \<Longrightarrow> depth + entries_depth es \<le> kRemovalDepthLimit \<Longrightarrow>
     nodes + entries_size es \<le> kRemovalNodeLimit \<Longrightarrow> remove_contents calls es depth nodes = (True, [], nodes + entries_size es)"
  "calls_succeed calls \<Longrightarrow> trusted_entries es \<Longrightarrow> depth + entries_depth es \<le> kRemovalDepthLimit \<Longrightarrow>
     nodes + entries_size es \<le> kRemovalNodeLimit \<Longrightarrow> remove_listed calls es depth nodes = (True, [], nodes + entries_size es)"
proof (induction calls es depth nodes and calls es depth nodes rule: remove_contents_remove_listed.induct)
  case (1 calls es depth nodes)
  then show ?case by (simp add: calls_succeed_def)
next
  case (2 calls depth nodes)
  then show ?case by (simp add: calls_succeed_def)
next
  case (3 calls name node es depth nodes)
  note calls = 3(4) [unfolded calls_succeed_def]
  have room: "\<not> kRemovalNodeLimit < Suc nodes" using 3(7) node_size_pos [of node] by simp
  show ?case
  proof (cases node)
    case Raw_file
    then show ?thesis using 3(1) [OF room] 3(4-7) calls room by simp
  next
    case (Raw_directory trusted children)
    have "remove_contents calls children (Suc depth) (Suc nodes) = (True, [], Suc nodes + entries_size children)"
      using 3(2) [OF room _ Raw_directory] 3(4-7) calls Raw_directory by simp
    moreover have "remove_listed calls es depth (Suc nodes + entries_size children) =
        (True, [], Suc nodes + entries_size children + entries_size es)"
      using 3(3) [OF room _ Raw_directory _ calculation [symmetric] refl] 3(4-7) calls Raw_directory by simp
    ultimately show ?thesis using 3(5) calls room Raw_directory by simp
  qed
qed

text \<open>A tombstone whose tree is too deep makes every cleanup fail, and stays.\<close>

definition deep_tombstone :: "(string \<times> (string \<times> raw_node) list option) list \<Rightarrow> bool" where
  "deep_tombstone es \<longleftrightarrow> list_ex (\<lambda>(name, contents). \<not> other_name name \<and>
     (case contents of None \<Rightarrow> False | Some children \<Rightarrow> kRemovalDepthLimit < entries_depth children)) es"

lemma deep_tombstone_stays:
  assumes "deep_tombstone es"
  shows "\<not> fst (cleanup_removed calls es nodes) \<and> deep_tombstone (snd (cleanup_removed calls es nodes))"
  using assms
proof (induction es arbitrary: nodes)
  case Nil
  then show ?case by (simp add: deep_tombstone_def)
next
  case (Cons e es)
  obtain name contents where e: "e = (name, contents)" by fastforce
  show ?case
  proof (cases "\<not> other_name name \<and> removed_name name \<and> contents \<noteq> None")
    case False
    obtain cleaned rest where r: "cleanup_removed calls es nodes = (cleaned, rest)" by fastforce
    show ?thesis
    proof (cases "other_name name")
      case True
      then have "deep_tombstone es" using Cons.prems by (simp add: e deep_tombstone_def)
      then have "\<not> cleaned \<and> deep_tombstone rest" using Cons.IH [of nodes] r by simp
      then show ?thesis using True by (simp add: e r deep_tombstone_def)
    next
      case other: False
      then show ?thesis using Cons.prems False by (auto simp: e)
    qed
  next
    case True
    then obtain children where children: "contents = Some children" by auto
    obtain removed rest later where r: "remove_contents (cu_removal calls name) children 0 nodes = (removed, rest, later)"
      by (metis prod_cases3)
    have deep: "\<not> removed \<and> kRemovalDepthLimit < entries_depth rest" if "kRemovalDepthLimit < entries_depth children"
      using deep_stays(1) [of 0 children "cu_removal calls name" nodes] that r by (simp add: still_deep_def)
    show ?thesis
      using Cons.prems Cons.IH [of later] deep True
      by (auto simp: e children r deep_tombstone_def simp del: remove_contents.simps)
  qed
qed

end
