(* ===== verification/Manager.thy ===== *)
theory Manager
  imports Manager_Removal Inbox_Service Active_Release
begin

text \<open>
  The manager of the platform (\<open>manager/native/src/Manager/Manager.cpp\<close>): it carries the signed package of the
  platform, installs it into \<open>/userdisk/apps/lvgl-platform\<close> with the policy state beside it, makes the link
  \<open>current\<close> name the release, and removes the platform when no session is running. The disk is the state of the
  model; the directories of the platform and of its policy are the payload and the state of an installation
  (\<open>Package_Installer\<close>), whose roots the environment names. What each call that changes the disk yields is an
  argument; the calls that only read it find what is there.
\<close>

section \<open>State\<close>

definition kPlatformRoot :: string where "kPlatformRoot = ''/userdisk/apps/lvgl-platform''"
definition kPolicyRoot :: string where "kPolicyRoot = ''/userdisk/apps/lvgl-platform-policy''"
definition kPlatformAppId :: string where "kPlatformAppId = ''top.lvgl.platform''"

datatype current_entry = Current_absent | Current_link string | Current_other

text \<open>
  The parent directory is trusted or not; its other entries are listed as for the cleanup. The flag says whether
  a path leads through directories that are not trusted.
\<close>

record platform_disk =
  dk_parent_trusted :: bool
  dk_entries :: "(string \<times> (string \<times> raw_node) list option) list"
  dk_world :: install_world
  dk_current :: current_entry
  dk_applications :: platform_store
  dk_untrusted_paths :: bool

record manager_snapshot =
  ms_success :: bool
  ms_available :: bool
  ms_payload_available :: bool
  ms_installed :: bool
  ms_repair_required :: bool
  ms_update_available :: bool
  ms_busy :: bool
  ms_current_version :: string
  ms_payload_version :: string
  ms_profile_id :: string
  ms_code :: string
  ms_detail :: string

definition new_snapshot :: manager_snapshot where
  "new_snapshot = \<lparr>ms_success = False, ms_available = False, ms_payload_available = False, ms_installed = False,
     ms_repair_required = False, ms_update_available = False, ms_busy = False, ms_current_version = [],
     ms_payload_version = [], ms_profile_id = [], ms_code = ''MANAGER_UNAVAILABLE'', ms_detail = []\<rparr>"

datatype manager_operation = Manager_install | Manager_repair | Manager_upgrade | Manager_remove

record manager =
  ma_crypto :: bool
  ma_busy :: bool

text \<open>What the build embeds: the package and the versions.\<close>

record manager_build =
  mb_package :: bytes
  mb_platform_version :: string
  mb_sdk_abi :: string

definition reported :: "string \<Rightarrow> string \<Rightarrow> manager_snapshot \<Rightarrow> manager_snapshot" where
  "reported result_code detail s = s\<lparr>ms_code := result_code, ms_detail := detail\<rparr>"

section \<open>The embedded package\<close>

definition verify_build_and_payload ::
    "install_environment \<Rightarrow> manager_build \<Rightarrow> manager \<Rightarrow> manager_snapshot \<Rightarrow> (bool \<times> manager_snapshot) \<times> package_verification option" where
  "verify_build_and_payload env build m s =
     (let s = s\<lparr>ms_profile_id := ''personal-unbound'', ms_payload_available := (mb_package build \<noteq> [])\<rparr> in
      if \<not> ms_payload_available s \<or> \<not> ma_crypto m \<or> en_trust env = None
      then ((False, reported ''MANAGER_BUILD_UNPROVISIONED'' ''official trust root or signed platform payload is absent'' s), None)
      else let v = trust_verify (en_trust env) (en_parse env) (en_crypto env) (mb_package build) in
      if \<not> pv_ok v \<or> pm_app_id (pv_manifest v) \<noteq> kPlatformAppId \<or> pm_entry (pv_manifest v) \<noteq> ''bin/lvgl-sessiond''
      then ((False, reported ''MANAGER_PAYLOAD_REJECTED''
               (if pv_detail v = [] then ''platform payload is invalid'' else pv_detail v) s), Some v)
      else ((True, reported ''MANAGER_READY'' ''official payload verified for personal unbound use''
               (s\<lparr>ms_payload_version := pm_version (pv_manifest v), ms_available := True\<rparr>)), Some v))"

section \<open>The disk\<close>

definition release_directory_exists :: "platform_disk \<Rightarrow> u64 \<Rightarrow> bool" where
  "release_directory_exists d release =
     (let fs = wo_payload (dk_world d); a = pr_app fs kPlatformAppId;
          path = [pr_root fs, pr_apps fs, ar_dir a, ar_releases_dir a]
      in release \<noteq> 0 \<and> (list_all (\<lambda>p. p = Dir_trusted) path \<or> dk_untrusted_paths d \<and> Dir_absent \<notin> set path) \<and>
         ar_releases a (release_name_of release) \<noteq> None)"

definition link_target :: "current_entry \<Rightarrow> string option" where
  "link_target e = (case e of Current_link target \<Rightarrow> Some target | _ \<Rightarrow> None)"

definition current_link_matches :: "platform_disk \<Rightarrow> u64 \<Rightarrow> bool" where
  "current_link_matches d release =
     (case link_target (dk_current d) of None \<Rightarrow> False
      | Some target \<Rightarrow>
        let seen = take 255 target in
        if seen = [] then False else seen = ''apps/'' @ kPlatformAppId @ ''/releases/'' @ release_name_of release)"

record activate_calls =
  av_open :: bool
  av_stat :: bool
  av_random :: "bytes option"
  av_symlink :: bool
  av_rename :: bool
  av_sync :: bool

text \<open>The temporary link is gone after both outcomes of the rename; its random name is never used again.\<close>

definition activate_release :: "activate_calls \<Rightarrow> u64 \<Rightarrow> platform_disk \<Rightarrow> bool \<times> platform_disk" where
  "activate_release calls release d =
     (if \<not> av_open calls \<or> pr_root (wo_payload (dk_world d)) \<noteq> Dir_trusted \<or> \<not> release_directory_exists d release then (False, d)
      else if (case dk_current d of Current_absent \<Rightarrow> \<not> av_stat calls | Current_link _ \<Rightarrow> \<not> av_stat calls | Current_other \<Rightarrow> True)
      then (False, d)
      else if av_random calls = None then (False, d)
      else let target = ''apps/'' @ kPlatformAppId @ ''/releases/'' @ release_name_of release in
      if \<not> av_symlink calls \<or> \<not> av_rename calls then (False, d)
      else (av_sync calls, d\<lparr>dk_current := Current_link target\<rparr>))"

text \<open>
  \<open>ensureOwnedRoot\<close>: whether \<open>mkdirat\<close> makes the directory or says that there is one, and whether the directory
  opens and the parent can be synced.
\<close>

definition ensure_owned_root :: "bool \<times> bool \<Rightarrow> dir_state \<Rightarrow> bool \<times> dir_state" where
  "ensure_owned_root calls e =
     (if \<not> fst calls then (False, e)
      else let e = (if e = Dir_absent then Dir_trusted else e)
      in (e = Dir_trusted \<and> snd calls, e))"

section \<open>Inspection\<close>

definition inspect_unlocked :: "install_environment \<Rightarrow> manager_build \<Rightarrow> manager \<Rightarrow> platform_disk \<Rightarrow> manager_snapshot" where
  "inspect_unlocked env build m d =
     (case verify_build_and_payload env build m (new_snapshot\<lparr>ms_busy := ma_busy m\<rparr>) of ((_, s), v) \<Rightarrow>
      let fs = wo_state (dk_world d) in
      if \<not> ma_crypto m \<or> sd_root fs = Dir_absent then s
      else if sd_root fs \<noteq> Dir_trusted
      then (reported ''MANAGER_POLICY_ROOT_UNTRUSTED'' ''anti-rollback policy root is untrusted'' s)
             \<lparr>ms_repair_required := True, ms_available := False\<rparr>
      else let state = load_release_state (en_state_root env) kPlatformAppId (en_crypto env) fs in
      if st_status state = Store_not_found then s
      else if st_status state \<noteq> Store_loaded \<and> st_status state \<noteq> Store_loaded_degraded
      then (reported (if st_status state = Store_uninitialized then ''MANAGER_POLICY_REPAIR_REQUIRED'' else st_detail state)
              ''anti-rollback state requires repair'' s)\<lparr>ms_repair_required := True\<rparr>
      else
        let release = rs_current_release (dr_state (sr_decoded (st_selected state)));
            installed = release_directory_exists d release;
            repair = (st_status state = Store_loaded_degraded \<or> \<not> installed \<or> \<not> current_link_matches d release);
            s = s\<lparr>ms_installed := installed, ms_current_version := ''release '' @ dec_string (unat release),
                  ms_repair_required := repair,
                  ms_update_available := (ms_available s \<and> (case v of None \<Rightarrow> False
                    | Some v \<Rightarrow> release < pm_release_counter (pv_manifest v)))\<rparr>
        in if repair
           then reported ''MANAGER_REPAIR_REQUIRED'' ''payload, activation pointer, or redundant policy state needs repair'' s
           else s)"

section \<open>Installation, repair and upgrade\<close>

record install_calls =
  il_cleanup :: cleanup_calls
  il_platform :: "bool \<times> bool"
  il_policy :: "bool \<times> bool"
  il_prepare :: "(bool \<times> bool) \<times> (bool \<times> bool) \<times> (bool \<times> bool)"
  il_faults :: "stage_faults \<times> store_faults"
  il_activate :: activate_calls

text \<open>The roots, established one after the other until one cannot be.\<close>

definition ensure_platform_root :: "bool \<times> bool \<Rightarrow> platform_disk \<Rightarrow> bool \<times> platform_disk" where
  "ensure_platform_root calls d =
     (case ensure_owned_root calls (pr_root (wo_payload (dk_world d))) of
        (ok, e) \<Rightarrow> (ok, d\<lparr>dk_world := (dk_world d)\<lparr>wo_payload := (wo_payload (dk_world d))\<lparr>pr_root := e\<rparr>\<rparr>\<rparr>))"

definition ensure_policy_root :: "bool \<times> bool \<Rightarrow> platform_disk \<Rightarrow> bool \<times> platform_disk" where
  "ensure_policy_root calls d =
     (case ensure_owned_root calls (sd_root (wo_state (dk_world d))) of
        (ok, e) \<Rightarrow> (ok, d\<lparr>dk_world := (dk_world d)\<lparr>wo_state := (wo_state (dk_world d))\<lparr>sd_root := e\<rparr>\<rparr>\<rparr>))"

definition establish_roots :: "install_calls \<Rightarrow> platform_disk \<Rightarrow> bool \<times> platform_disk" where
  "establish_roots calls d =
     (if \<not> dk_parent_trusted d then (False, d)
      else case cleanup_removal_tombstones (il_cleanup calls) (dk_entries d) of (cleaned, es) \<Rightarrow>
      let d = d\<lparr>dk_entries := es\<rparr> in
      if \<not> cleaned then (False, d)
      else case ensure_platform_root (il_platform calls) d of (ok, d) \<Rightarrow>
      if \<not> ok then (False, d)
      else case ensure_policy_root (il_policy calls) d of (ok, d) \<Rightarrow>
      if \<not> ok then (False, d)
      else case prepare_application_storage (il_prepare calls) (dk_applications d) of (status, apps) \<Rightarrow>
      (status = Inbox_ready, d\<lparr>dk_applications := apps\<rparr>))"

definition manager_policy :: "manager_build \<Rightarrow> policy_context" where
  "manager_policy build = \<lparr>pc_platform_version = mb_platform_version build, pc_sdk_abi = mb_sdk_abi build,
     pc_profile_id = [], pc_machine = [],
     pc_allowed_capabilities = [''platform.display'', ''platform.input'', ''platform.install'', ''platform.session'']\<rparr>"

definition install_code :: "manager_operation \<Rightarrow> string" where
  "install_code operation =
     (if operation = Manager_install then ''MANAGER_INSTALLED''
      else if operation = Manager_repair then ''MANAGER_REPAIRED'' else ''MANAGER_UPGRADED'')"

definition install_unlocked ::
    "install_environment \<Rightarrow> manager_build \<Rightarrow> install_calls \<Rightarrow> manager_operation \<Rightarrow> manager \<Rightarrow> platform_disk
       \<Rightarrow> manager_snapshot \<times> platform_disk" where
  "install_unlocked env build calls operation m d =
     (case verify_build_and_payload env build m new_snapshot of ((ok, s), _) \<Rightarrow>
      if \<not> ok then (s, d)
      else case establish_roots calls d of (ok, d) \<Rightarrow>
      if \<not> ok
      then (reported ''MANAGER_ROOT_REJECTED''
              ''fixed platform, policy, application, or inbox roots cannot be established safely'' (s\<lparr>ms_available := False\<rparr>), d)
      else case install_official_package env (manager_policy build) (mb_package build) (il_faults calls) (dk_world d) of (r, w) \<Rightarrow>
      let d = d\<lparr>dk_world := w\<rparr>;
          refused = (\<lambda>d. (reported (if in_ok r then ''MANAGER_ACTIVATION_FAILED'' else in_detail r)
            (if in_ok r then ''atomic current release activation failed'' else in_detail r) (s\<lparr>ms_available := False\<rparr>), d))
      in if \<not> in_ok r then refused d
      else case in_active_state r of None \<Rightarrow> refused d
      | Some active \<Rightarrow>
        if rs_app_id active \<noteq> kPlatformAppId then refused d
        else case activate_release (il_activate calls) (rs_current_release active) d of (activated, d) \<Rightarrow>
        if \<not> activated then refused d
        else ((reported (install_code operation)
                (if in_status r = Installed_state_degraded then ''payload installed; policy redundancy is degraded''
                 else ''official platform transaction committed'') (inspect_unlocked env build m d))\<lparr>ms_success := True\<rparr>, d))"

section \<open>Removal\<close>

record remove_platform_calls =
  rx_status :: status_entry
  rx_open :: bool
  rx_contents :: "(string \<times> raw_node) list"
  rx_random :: "bytes option"
  rx_rename :: bool
  rx_renamed_sync :: bool
  rx_removal :: removal_calls
  rx_rmdir :: bool
  rx_final_sync :: bool

text \<open>Nothing of the platform is left at its path.\<close>

definition platform_gone :: payload_root where
  "platform_gone = \<lparr>pr_root = Dir_absent, pr_apps = Dir_absent,
     pr_app = (\<lambda>_. \<lparr>ar_dir = Dir_absent, ar_releases_dir = Dir_absent, ar_releases = (\<lambda>_. None)\<rparr>)\<rparr>"

definition remove_unlocked ::
    "install_environment \<Rightarrow> manager_build \<Rightarrow> remove_platform_calls \<Rightarrow> manager \<Rightarrow> platform_disk
       \<Rightarrow> manager_snapshot \<times> platform_disk" where
  "remove_unlocked env build calls m d =
     (let s = inspect_unlocked env build m d in
      if \<not> ms_available s
      then (reported ''MANAGER_REMOVE_UNAUTHORIZED'' ''this manager build is not authorized for removal'' s, d)
      else if \<not> ms_installed s
      then (reported ''MANAGER_NOT_INSTALLED'' ''no owned platform payload is installed'' s, d)
      else if \<not> session_removal_allowed (rx_status calls)
      then (reported ''MANAGER_SESSION_ACTIVE'' ''a trusted stopped-session state is required before payload removal'' s, d)
      else if \<not> dk_parent_trusted d \<or> \<not> rx_open calls \<or> pr_root (wo_payload (dk_world d)) \<noteq> Dir_trusted
      then (reported ''MANAGER_ROOT_REJECTED'' ''platform root is not an owned safe directory'' s, d)
      else case rx_random calls of
        None \<Rightarrow> (reported ''MANAGER_RANDOM_UNAVAILABLE'' ''secure removal transaction name could not be generated'' s, d)
      | Some random \<Rightarrow>
        let tombstone = removed_prefix @ hex_of_bytes random;
            isolation = reported ''MANAGER_REMOVE_ISOLATION_FAILED'' ''payload could not be isolated for removal'' s
        in if tombstone \<in> fst ` set (dk_entries d) \<or> \<not> rx_rename calls then (isolation, d)
        else
          let others = dk_entries d;
              d = d\<lparr>dk_world := (dk_world d)\<lparr>wo_payload := platform_gone\<rparr>, dk_current := Current_absent,
                    dk_entries := others @ [(tombstone, Some (rx_contents calls))]\<rparr>
          in if \<not> rx_renamed_sync calls then (isolation, d)
          else case remove_contents (rx_removal calls) (rx_contents calls) 0 0 of (removed, rest, _) \<Rightarrow>
            let d = d\<lparr>dk_entries := (if removed \<and> rx_rmdir calls then others else others @ [(tombstone, Some rest)])\<rparr>
            in if \<not> removed \<or> \<not> rx_rmdir calls \<or> \<not> rx_final_sync calls
               then ((reported ''MANAGER_REMOVE_CLEANUP_DEFERRED'' ''payload was deactivated; isolated cleanup requires repair'' s)
                       \<lparr>ms_installed := False, ms_repair_required := True\<rparr>, d)
               else ((reported ''MANAGER_REMOVED'' ''platform payload removed; anti-rollback policy and manager retained''
                        (inspect_unlocked env build m d))
                       \<lparr>ms_installed := False, ms_repair_required := False, ms_success := True\<rparr>, d))"

section \<open>Operations\<close>

record manager_calls =
  mc_install :: install_calls
  mc_remove :: remove_platform_calls

definition execute_operation ::
    "install_environment \<Rightarrow> manager_build \<Rightarrow> manager_calls \<Rightarrow> manager_operation \<Rightarrow> manager \<times> platform_disk
       \<Rightarrow> manager_snapshot \<times> manager \<times> platform_disk" where
  "execute_operation env build calls operation x =
     (case x of (m, d) \<Rightarrow>
      if ma_busy m
      then (reported ''MANAGER_BUSY'' ''another fixed manager transaction is active'' (inspect_unlocked env build m d), m, d)
      else let m = m\<lparr>ma_busy := True\<rparr>;
               result = (if operation = Manager_remove then remove_unlocked env build (mc_remove calls) m d
                         else install_unlocked env build (mc_install calls) operation m d)
        in ((fst result)\<lparr>ms_busy := False\<rparr>, m\<lparr>ma_busy := False\<rparr>, snd result))"

text \<open>One operation, with the reads of the stored states that work meanwhile.\<close>

definition manager_step ::
    "install_environment \<Rightarrow> manager \<times> platform_disk
       \<Rightarrow> (string \<Rightarrow> slot_reads) \<times> manager_build \<times> manager_calls \<times> manager_operation \<Rightarrow> manager \<times> platform_disk" where
  "manager_step env x e =
     (case x of (m, d) \<Rightarrow> case e of (reads, build, calls, operation) \<Rightarrow>
      case execute_operation env build calls operation (m, d\<lparr>dk_world := hide_world reads (dk_world d)\<rparr>) of (_, m', d') \<Rightarrow>
      (m', d'\<lparr>dk_world := restore_world reads (dk_world d) (dk_world d')\<rparr>))"

section \<open>The policy state\<close>

lemma world_newer_same_state: "wo_state w' = wo_state w \<Longrightarrow> world_newer env app w w'"
  by (simp add: world_newer_def release_ratchet.newer_refl)

lemma ensure_policy_newer:
  "world_newer env app (dk_world d) (dk_world (snd (ensure_policy_root calls d)))"
proof (cases "sd_root (wo_state (dk_world d)) = Dir_trusted")
  case True
  then have "wo_state (dk_world (snd (ensure_policy_root calls d))) = wo_state (dk_world d)"
    by (cases "wo_state (dk_world d)") (simp add: ensure_policy_root_def ensure_owned_root_def Let_def)
  then show ?thesis by (rule world_newer_same_state)
next
  case False
  then have "loaded_state (en_state_root env) app (en_crypto env) (wo_state (dk_world d)) = None"
    by (cases "loaded_state (en_state_root env) app (en_crypto env) (wo_state (dk_world d))")
      (auto simp: loaded_state_iff store_open_def)
  then show ?thesis by (simp add: world_newer_def state_newer_def)
qed

lemma establish_newer: "world_newer env app (dk_world d) (dk_world (snd (establish_roots calls d)))"
proof -
  define d1 where "d1 = d\<lparr>dk_entries := snd (cleanup_removal_tombstones (il_cleanup calls) (dk_entries d))\<rparr>"
  define d2 where "d2 = snd (ensure_platform_root (il_platform calls) d1)"
  have same: "wo_state (dk_world d2) = wo_state (dk_world d)"
    by (simp add: d2_def d1_def ensure_platform_root_def split: prod.split)
  have "dk_world (snd (establish_roots calls d)) \<in>
      {dk_world d, dk_world d2, dk_world (snd (ensure_policy_root (il_policy calls) d2))}"
    by (simp add: establish_roots_def d2_def d1_def Let_def split: prod.split)
  moreover have "world_newer env app (dk_world d) (dk_world (snd (ensure_policy_root (il_policy calls) d2)))"
    by (rule install_ratchet.newer_trans [OF world_newer_same_state [OF same] ensure_policy_newer])
  ultimately show ?thesis
    using world_newer_same_state [OF same] install_ratchet.newer_refl by (elim insertE) simp_all
qed

lemma activate_release_world: "dk_world (snd (activate_release calls release d)) = dk_world d"
  by (simp add: activate_release_def Let_def)

text \<open>The ways an installation by the manager ends.\<close>

lemma install_unlocked_cases:
  fixes env build calls operation m d
  defines "d1 \<equiv> snd (establish_roots calls d)"
  obtains (refused) s where "install_unlocked env build calls operation m d = (s, d)" "\<not> ms_success s"
  | (rejected) s where "install_unlocked env build calls operation m d = (s, d1)" "\<not> ms_success s"
  | (attempted) s d' r w active where "install_unlocked env build calls operation m d = (s, d')"
      "fst (establish_roots calls d)" "fst (fst (verify_build_and_payload env build m new_snapshot))"
      "install_official_package env (manager_policy build) (mb_package build) (il_faults calls) (dk_world d1) = (r, w)"
      "dk_world d' = w" "dk_entries d' = dk_entries d1" "dk_applications d' = dk_applications d1"
      "ms_success s \<Longrightarrow> in_ok r \<and> in_active_state r = Some active \<and> rs_app_id active = kPlatformAppId \<and>
         activate_release (il_activate calls) (rs_current_release active) (d1\<lparr>dk_world := w\<rparr>) = (True, d')"
proof -
  obtain ok s v where b: "verify_build_and_payload env build m new_snapshot = ((ok, s), v)" by (metis prod.exhaust)
  have fresh: "\<not> ms_success s"
    using b by (auto simp: verify_build_and_payload_def Let_def new_snapshot_def reported_def split: if_splits)
  obtain established where e: "establish_roots calls d = (established, d1)" by (metis d1_def prod.collapse)
  obtain r w where r: "install_official_package env (manager_policy build) (mb_package build) (il_faults calls) (dk_world d1) = (r, w)"
    by fastforce
  note i = install_unlocked_def [of env build calls operation m d, unfolded b prod.case e r Let_def]
  show thesis
  proof (cases "ok \<and> established")
    case False
    then consider "\<not> ok" | "ok" "\<not> established" by blast
    then show ?thesis
    proof cases
      case 1
      then show ?thesis by (intro refused [of s]) (simp_all add: i fresh)
    next
      case 2
      obtain s' d' where result: "install_unlocked env build calls operation m d = (s', d')" by fastforce
      then have "d' = d1" "\<not> ms_success s'" using 2 fresh by (auto simp: i reported_def)
      then show ?thesis using rejected result by simp
    qed
  next
    case True
    let ?d = "d1\<lparr>dk_world := w\<rparr>"
    obtain activated d2 where a: "activate_release (il_activate calls) (rs_current_release (the (in_active_state r))) ?d = (activated, d2)"
      by fastforce
    have d2: "dk_world d2 = w" "dk_entries d2 = dk_entries d1" "dk_applications d2 = dk_applications d1"
      using a by (auto simp: activate_release_def Let_def split: if_splits)
    obtain s' d' where result: "install_unlocked env build calls operation m d = (s', d')" by fastforce
    show ?thesis
    proof (cases "in_ok r \<and> in_active_state r \<noteq> None \<and> rs_app_id (the (in_active_state r)) = kPlatformAppId")
      case good: True
      then obtain active where active: "in_active_state r = Some active" by auto
      have "d' = d2" "ms_success s' \<Longrightarrow> activated"
        using result good active a True fresh by (auto simp: i reported_def split: if_splits)
      then show ?thesis
        using attempted [OF result _ _ r, of active] e b True good active a d2 by simp
    next
      case False
      then have "d' = ?d" "\<not> ms_success s'"
        using result True fresh by (auto simp: i reported_def split: if_splits option.splits)
      then show ?thesis using attempted [OF result _ _ r] e b True by simp
    qed
  qed
qed

lemma install_newer: "world_newer env app (dk_world d) (dk_world (snd (install_unlocked env build calls operation m d)))"
proof (cases rule: install_unlocked_cases [of env build calls operation m d])
  case (attempted s d' r w active)
  note newer = install_state_newer [of env app "dk_world (snd (establish_roots calls d))" "manager_policy build"
      "mb_package build" "il_faults calls", unfolded attempted(4) snd_conv]
  then have "world_newer env app (dk_world (snd (establish_roots calls d))) w" unfolding world_newer_def .
  then show ?thesis
    using install_ratchet.newer_trans [OF establish_newer] attempted(1,5) by simp
qed (simp_all add: install_ratchet.newer_refl establish_newer)

text \<open>Removal leaves the policy state and the applications alone.\<close>

lemma remove_keeps:
  "wo_state (dk_world (snd (remove_unlocked env build calls m d))) = wo_state (dk_world d)"
  "dk_applications (snd (remove_unlocked env build calls m d)) = dk_applications d"
  by (simp_all add: remove_unlocked_def Let_def split: prod.split option.split)

lemma execute_newer:
  assumes "execute_operation env build calls operation (m, d) = (s, m', d')"
  shows "world_newer env app (dk_world d) (dk_world d')"
proof -
  let ?m = "m\<lparr>ma_busy := True\<rparr>"
  have "d' = d \<or> d' = snd (remove_unlocked env build (mc_remove calls) ?m d) \<or>
      d' = snd (install_unlocked env build (mc_install calls) operation ?m d)"
    using assms by (auto simp: execute_operation_def Let_def split: if_splits)
  then show ?thesis
    using install_newer [of env app d build "mc_install calls" operation ?m]
      world_newer_same_state [OF remove_keeps(1) [of env build "mc_remove calls" ?m d]] install_ratchet.newer_refl
    by auto
qed

lemma manager_step_newer:
  assumes "slot_reads_work (fst e app)"
  shows "world_newer env app (dk_world (snd x)) (dk_world (snd (manager_step env x e)))"
proof -
  obtain m d where x: "x = (m, d)" by fastforce
  obtain reads build calls operation where e: "e = (reads, build, calls, operation)" by (metis prod.exhaust)
  obtain s m' d' where r: "execute_operation env build calls operation (m, d\<lparr>dk_world := hide_world reads (dk_world d)\<rparr>) = (s, m', d')"
    by (metis prod.exhaust)
  show ?thesis
    using world_newer_seen [where reads = reads and w = "dk_world d", OF _ execute_newer [OF r, of app, simplified]] assms
    by (simp add: manager_step_def x e r)
qed

interpretation manager_ratchet: ratchet "manager_step env" "\<lambda>_. True"
  "\<lambda>x y. world_newer env app (dk_world (snd x)) (dk_world (snd y))" "\<lambda>e. slot_reads_work (fst e app)" for env app
  by unfold_locales (auto intro: install_ratchet.newer_refl install_ratchet.newer_trans manager_step_newer)

end
