(* ===== verification/Manager_Properties.thy ===== *)
theory Manager_Properties
  imports Manager
begin

text \<open>
  What the manager promises: which release the session daemon finds after an installation, that the platform is
  removed only when no session runs, that its policy state never goes back, and what happens to a tree that is
  too deep for the removal.
\<close>

section \<open>The daemon that starts from the disk\<close>

text \<open>What the session daemon sees when it is executed through the link \<open>current\<close>.\<close>

definition daemon_started :: "platform_disk \<Rightarrow> string option \<Rightarrow> platform_system" where
  "daemon_started d hardware =
     (let fs = wo_payload (dk_world d); a = pr_app fs kPlatformAppId; link = link_target (dk_current d) in
      \<lparr>ps_self_exe = map_option (\<lambda>target. kPlatformRoot @ ''/'' @ target @ kSessiondSuffix) link,
       ps_current = link,
       ps_directory = (\<lambda>path.
         if take (length kReleasePrefix) path = kReleasePrefix \<and> pr_root fs = Dir_trusted \<and> pr_apps fs = Dir_trusted \<and>
            ar_dir a = Dir_trusted \<and> ar_releases_dir a = Dir_trusted
         then ar_releases a (drop (length kReleasePrefix) path) else None),
       ps_machine = hardware\<rparr>)"

text \<open>The signed profile of a package, as the daemon reads and checks it.\<close>

definition signed_profile :: "string option \<Rightarrow> bytes \<Rightarrow> package_verification \<Rightarrow> string + session_profile" where
  "signed_profile hardware package v =
     (case find (\<lambda>f. pf_path f = ''profile.env'') (pm_files (pv_manifest v)) of
        None \<Rightarrow> Inl ''SESSION_PROFILE_NOT_SIGNED''
      | Some f \<Rightarrow>
        if 4096 < pf_size f then Inl ''SESSION_PROFILE_NOT_SIGNED''
        else case parse_session_profile (profile_bytes package v f) of
          Inl detail \<Rightarrow> Inl detail
        | Inr profile \<Rightarrow>
          if \<not> package_supports_session_profile (pv_manifest v) profile then Inl ''SESSION_PROFILE_PACKAGE_MISMATCH''
          else if hardware \<noteq> Some (sp_machine profile) then Inl ''SESSION_MACHINE_MISMATCH''
          else Inr profile)"

lemma zero_digit_code: "of_char CHR ''0'' = (48 :: nat)"
  by simp

lemma dec_string_leading: "0 < n \<Longrightarrow> hd (dec_string n) \<noteq> CHR ''0''"
proof (induction n rule: dec_string.induct)
  case (1 n)
  show ?case
  proof (cases "n < 10")
    case True
    have "of_char (char_of (48 + n) :: char) = 48 + n" using True by simp
    then have "char_of (48 + n) \<noteq> CHR ''0''" using 1(2) by (metis add_cancel_left_right nat_less_le zero_digit_code)
    then show ?thesis using True by (subst dec_string.simps) simp
  next
    case False
    then have "hd (dec_string (n div 10)) \<noteq> CHR ''0''" using 1(1) by simp
    then show ?thesis
      using False dec_string_digits [of "n div 10"] by (subst dec_string.simps) simp
  qed
qed

lemma release_name_length: "length (release_name_of release) \<le> 20"
proof -
  have "unat release < 2 ^ 64" using unsigned_less [of release, where 'a = nat] by simp
  then show ?thesis unfolding release_name_of_def by (intro dec_string_length) simp_all
qed

definition release_target :: "u64 \<Rightarrow> string" where
  "release_target release = ''apps/'' @ kPlatformAppId @ ''/releases/'' @ release_name_of release"

lemma release_target_eq: "release_target release = ''apps/top.lvgl.platform/releases/'' @ release_name_of release"
  by (simp add: release_target_def kPlatformAppId_def)

lemma release_path_eq: "kPlatformRoot @ ''/'' @ release_target release = kReleasePrefix @ release_name_of release"
  by (simp add: release_target_eq kPlatformRoot_def kReleasePrefix_def)

text \<open>The daemon finds the release that the link names.\<close>

lemma self_release_from_link:
  assumes "release \<noteq> 0"
  shows "resolve_self_release (Some (kPlatformRoot @ ''/'' @ release_target release @ kSessiondSuffix)) (Some (release_target release)) =
    Some (kReleasePrefix @ release_name_of release, release)"
proof -
  define name where "name = release_name_of release"
  define self where "self = kReleasePrefix @ name @ kSessiondSuffix"
  have self: "kPlatformRoot @ ''/'' @ release_target release @ kSessiondSuffix = self"
    using release_path_eq [of release] by (simp add: self_def name_def)
  have lengths: "length kReleasePrefix = 61" "length kSessiondSuffix = 18" by code_simp+
  have pos: "0 < unat release" using assms by (simp add: unat_gt_0)
  have name: "name \<noteq> []" "length name \<le> 20" "list_all is_digit name" "digits_value name = unat release" "hd name \<noteq> CHR ''0''"
    using release_name_length [of release] dec_string_digits [of "unat release"] dec_string_value [of "unat release"]
      dec_string_leading [OF pos] by (simp_all add: name_def release_name_of_def)
  have parts: "take 1023 self = self" "self \<noteq> []" "\<not> length self \<le> 61 + 18" "take 61 self = kReleasePrefix"
    "drop (length self - 18) self = kSessiondSuffix" "take (length self - 61 - 18) (drop 61 self) = name"
    "take (length self - 18) self = kReleasePrefix @ name"
    using lengths name(1,2) by (simp_all add: self_def)
  have link: "active_link_matches (Some (release_target release)) release"
    using release_name_length [of release] by (simp add: active_link_matches_def release_target_eq)
  have "unat release < 2 ^ 64" using unsigned_less [of release, where 'a = nat] by simp
  then show ?thesis
    unfolding self resolve_self_release_def Let_def option.case lengths
    using parts name link pos by (simp add: name_def)
qed

text \<open>Verification of the release the link names, when its directory holds the package.\<close>

lemma daemon_verifies:
  fixes env d package
  defines "v \<equiv> trust_verify (en_trust env) (en_parse env) (en_crypto env) package"
  defines "release \<equiv> pm_release_counter (pv_manifest v)"
  assumes v: "pv_ok v"
    and link: "dk_current d = Current_link (release_target release)"
    and tree: "open_release (wo_payload (dk_world d)) kPlatformAppId release = Some t"
    and copy: "t package_name = Some (File mode package)" "mode AND 146 = 0"
  shows "verify_active_release (daemon_started d hardware) env =
    (if \<not> installed_files_match t package v then Inl ''SESSION_RELEASE_VERIFICATION_FAILED''
     else case signed_profile hardware package v of Inl detail \<Rightarrow> Inl detail
       | Inr profile \<Rightarrow> Inr \<lparr>vr_directory = t, vr_counter = release, vr_verification = v, vr_profile = profile\<rparr>)"
proof -
  note p = trusted_package [OF v [unfolded v_def], folded v_def]
  have self: "resolve_self_release (ps_self_exe (daemon_started d hardware)) (ps_current (daemon_started d hardware)) =
      Some (kReleasePrefix @ release_name_of release, release)"
    using self_release_from_link [of release] p(6) by (simp add: daemon_started_def Let_def link link_target_def release_def)
  have directory: "ps_directory (daemon_started d hardware) (kReleasePrefix @ release_name_of release) = Some t"
    using tree by (simp add: daemon_started_def Let_def open_release_def split: if_splits)
  have "session_split_path ''.package.lvapp'' = package_name" by code_simp
  then have "open_release_file t ''.package.lvapp'' = Some (File mode package)"
    using copy by (simp add: open_release_file_def package_name_def)
  then have read: "read_all (open_release_file t ''.package.lvapp'') kSessionMaximumPackageSize = Some package"
    using p copy by (simp add: read_all_def)
  have accepted: "(\<not> pv_ok v \<or> pv_development v \<or> \<not> pv_signature_verified v \<or> pm_release_counter (pv_manifest v) \<noteq> release \<or>
      \<not> installed_files_match t package v) = (\<not> installed_files_match t package v)"
    using v p by (simp add: release_def)
  show ?thesis
    unfolding verify_active_release_def self directory option.case prod.case read v_def [symmetric] Let_def accepted
    using p(1) by (auto simp: signed_profile_def daemon_started_def Let_def split: option.split sum.split)
qed

section \<open>Staging into the platform\<close>

lemma staged_release_opens:
  assumes "stage_verified_release store_root bs v d faults fs = (r, fs')" "staged_ok r"
  shows "open_release fs' (pm_app_id (pv_manifest v)) (pm_release_counter (pv_manifest v)) =
    ar_releases (pr_app fs' (pm_app_id (pv_manifest v))) (release_name_of (pm_release_counter (pv_manifest v)))"
proof -
  obtain fs1 opened where o: "open_releases (sg_directories faults) (pm_app_id (pv_manifest v)) fs = (fs1, opened)" by fastforce
  have dirs: "pr_root fs1 = pr_root fs" "opened \<Longrightarrow> pr_apps fs1 = Dir_trusted \<and>
      ar_dir (pr_app fs1 (pm_app_id (pv_manifest v))) = Dir_trusted \<and>
      ar_releases_dir (pr_app fs1 (pm_app_id (pv_manifest v))) = Dir_trusted"
    using o by (auto simp: open_releases_def open_directory_def Let_def split: prod.splits dir_state.splits dir_open.splits if_splits)
  show ?thesis
    using assms dirs unfolding stage_verified_release_def Let_def o prod.case
    by (auto split: if_splits option.splits sum.splits rename_outcome.splits simp: staged_def staged_ok_def
        open_release_def set_release_def unpack_files_errors)
qed

section \<open>An installation that is reported\<close>

lemma built_package:
  assumes "fst (fst (verify_build_and_payload env build m s0))"
  defines "v \<equiv> trust_verify (en_trust env) (en_parse env) (en_crypto env) (mb_package build)"
  shows "pv_ok v" "pm_app_id (pv_manifest v) = kPlatformAppId" "pm_entry (pv_manifest v) = ''bin/lvgl-sessiond''"
    "snd (verify_build_and_payload env build m s0) = Some v"
  using assms(1) by (auto simp: verify_build_and_payload_def Let_def v_def split: if_splits)

lemma inspected_unsuccessful: "\<not> ms_success (inspect_unlocked env build m d)"
  by (auto simp: inspect_unlocked_def verify_build_and_payload_def reported_def new_snapshot_def Let_def split: prod.splits if_splits)

lemma establish_keeps:
  "ar_releases (pr_app (wo_payload (dk_world (snd (establish_roots calls d)))) app) = ar_releases (pr_app (wo_payload (dk_world d)) app)"
  "sd_application (wo_state (dk_world (snd (establish_roots calls d)))) = sd_application (wo_state (dk_world d))"
  by (auto simp: establish_roots_def ensure_platform_root_def ensure_policy_root_def Let_def split: prod.splits if_splits)

text \<open>The world before the package is installed, the result, and the activation.\<close>

lemma reported_installation:
  fixes env build calls operation m d
  defines "v \<equiv> trust_verify (en_trust env) (en_parse env) (en_crypto env) (mb_package build)"
  defines "w1 \<equiv> dk_world (snd (establish_roots (mc_install calls) d))"
  assumes "execute_operation env build calls operation (m, d) = (s, m', d')" "ms_success s" "operation \<noteq> Manager_remove"
  obtains r where
    "install_official_package env (manager_policy build) (mb_package build) (il_faults (mc_install calls)) w1 = (r, dk_world d')"
    "in_ok r" "pv_ok v" "pm_app_id (pv_manifest v) = kPlatformAppId"
    "dk_current d' = Current_link (release_target (pm_release_counter (pv_manifest v)))"
proof -
  let ?m = "m\<lparr>ma_busy := True\<rparr>"
  have idle: "\<not> ma_busy m"
    using assms(3,4) inspected_unsuccessful [of env build m d] by (auto simp: execute_operation_def reported_def)
  obtain s' where i: "install_unlocked env build (mc_install calls) operation ?m d = (s', d')" "ms_success s'"
    using assms(3-5) idle by (cases "install_unlocked env build (mc_install calls) operation ?m d")
      (auto simp: execute_operation_def Let_def)
  show thesis
  proof (cases rule: install_unlocked_cases [of env build "mc_install calls" operation ?m d])
    case (attempted s2 d2 r w active)
    then have r: "in_ok r" "in_active_state r = Some active" "rs_app_id active = kPlatformAppId"
      "activate_release (il_activate (mc_install calls)) (rs_current_release active)
         ((snd (establish_roots (mc_install calls) d))\<lparr>dk_world := w\<rparr>) = (True, d')" and d2: "d2 = d'"
      using i by auto
    note b = built_package [OF attempted(3), folded v_def]
    have current: "dk_current d' = Current_link (release_target (rs_current_release active))"
      using r(4) by (auto simp: activate_release_def release_target_def Let_def split: if_splits)
    have "rs_current_release active = pm_release_counter (pv_manifest v)"
    proof (cases rule: install_cases [of env "manager_policy build" "mb_package build" "il_faults (mc_install calls)" w1])
      case (untouched r2 w2)
      then show ?thesis using attempted(4) r(1) by (simp add: w1_def)
    next
      case (committed r2 w2 digest next_state)
      then have "next_state = active" using attempted(4) r(2) by (simp add: w1_def)
      then show ?thesis using activation_current(1) [OF committed(4)] by (simp add: v_def)
    qed
    then show ?thesis using that attempted(4,5) r(1) b(1,2) current d2 by (simp add: w1_def)
  qed (use i in simp_all)
qed

text \<open>C39. When the manager reports an installation, a repair or an upgrade as done, and its stored policy state could be
  loaded or it had none, the policy state names the release of its package as current and the link \<open>current\<close> names
  its directory. The session daemon started through the link then runs from this release, and accepts it exactly
  when the files there are those of the package and its signed profile is acceptable on this machine. A release
  that was not there before is complete; one that was there is left as it was, so a repair does not repair files
  that were changed: only the stored copy of the package is compared.\<close>

theorem installed_platform_runs:
  fixes env build hardware d d'
  defines "v \<equiv> trust_verify (en_trust env) (en_parse env) (en_crypto env) (mb_package build)"
  defines "release \<equiv> pm_release_counter (pv_manifest v)"
  assumes finished: "execute_operation env build calls operation (m, d) = (s, m', d')" "ms_success s" "operation \<noteq> Manager_remove"
    and stored: "loaded_state (en_state_root env) kPlatformAppId (en_crypto env) (wo_state (dk_world d)) \<noteq> None \<or>
      no_slots kPlatformAppId (wo_state (dk_world d))"
  shows "\<exists>t. dk_current d' = Current_link (release_target release) \<and>
    map_option rs_current_release (loaded_state (en_state_root env) kPlatformAppId (en_crypto env) (wo_state (dk_world d'))) = Some release \<and>
    open_release (wo_payload (dk_world d')) kPlatformAppId release = Some t \<and>
    (case ar_releases (pr_app (wo_payload (dk_world d)) kPlatformAppId) (release_name_of release) of
       None \<Rightarrow> installed_files_match t (mb_package build) v | Some before \<Rightarrow> t = before) \<and>
    verify_active_release (daemon_started d' hardware) env =
      (if \<not> installed_files_match t (mb_package build) v then Inl ''SESSION_RELEASE_VERIFICATION_FAILED''
       else case signed_profile hardware (mb_package build) v of Inl detail \<Rightarrow> Inl detail
         | Inr profile \<Rightarrow> Inr \<lparr>vr_directory = t, vr_counter = release, vr_verification = v, vr_profile = profile\<rparr>)"
proof -
  define w1 where "w1 = dk_world (snd (establish_roots (mc_install calls) d))"
  obtain r where r: "install_official_package env (manager_policy build) (mb_package build) (il_faults (mc_install calls)) w1 = (r, dk_world d')"
    "in_ok r" and v: "pv_ok v" "pm_app_id (pv_manifest v) = kPlatformAppId"
    and link: "dk_current d' = Current_link (release_target release)"
    by (rule reported_installation [OF finished, folded v_def, folded w1_def release_def]) blast
  have sane: "no_slots kPlatformAppId (wo_state w1)"
    if none: "loaded_state (en_state_root env) kPlatformAppId (en_crypto env) (wo_state w1) = None"
  proof -
    have "world_newer env kPlatformAppId (dk_world d) w1" unfolding w1_def by (rule establish_newer)
    then have "loaded_state (en_state_root env) kPlatformAppId (en_crypto env) (wo_state (dk_world d)) = None"
      using none by (auto simp: world_newer_def state_newer_def split: option.splits)
    then show ?thesis using stored by (simp add: no_slots_def w1_def establish_keeps)
  qed
  obtain digest current storage payload next_state where i: "sha512 (en_crypto env) (mb_package build) = Some digest"
    "current = loaded_state (en_state_root env) kPlatformAppId (en_crypto env) (wo_state w1)"
    and stage: "stage_verified_release (en_payload_root env) (mb_package build) v digest (fst (il_faults (mc_install calls))) (wo_payload w1) =
        (storage, payload)" "staged_ok storage" "wo_payload (dk_world d') = payload"
    and act: "activation_state_for v digest current = Some next_state"
    and state: "wo_state (dk_world d') = snd (persist_release_state (en_state_root env) next_state (en_crypto env)
        (snd (il_faults (mc_install calls))) (wo_state w1))"
      "st_ok (fst (persist_release_state (en_state_root env) next_state (en_crypto env)
        (snd (il_faults (mc_install calls))) (wo_state w1)))"
    by (rule install_okD [OF r, folded v_def, unfolded v(2)]) blast
  have "loaded_state (en_state_root env) kPlatformAppId (en_crypto env) (wo_state (dk_world d')) = Some next_state"
    unfolding state(1) using act state(2) sane i(2) v(2) by (intro activation_committed [of v digest]) (simp_all add: sha512_length [OF i(1)])
  then have current_release: "map_option rs_current_release (loaded_state (en_state_root env) kPlatformAppId (en_crypto env)
      (wo_state (dk_world d'))) = Some release"
    using activation_current(1) [OF act] by (simp add: release_def)
  define before where "before = ar_releases (pr_app (wo_payload (dk_world d)) kPlatformAppId) (release_name_of release)"
  have old: "ar_releases (pr_app (wo_payload w1) kPlatformAppId) (release_name_of release) = before"
    by (simp add: before_def w1_def establish_keeps)
  note atomic = stage_atomic [OF stage(1), unfolded Let_def, unfolded v(2), folded release_def, unfolded old]
  note opens = staged_release_opens [OF stage(1,2), unfolded v(2), folded release_def]
  note p = trusted_package [OF v(1) [unfolded v_def], folded v_def]
  obtain t mode where t: "open_release payload kPlatformAppId release = Some t" "t package_name = Some (File mode (mb_package build))"
    "mode AND 146 = 0" "case before of None \<Rightarrow> installed_files_match t (mb_package build) v | Some b \<Rightarrow> t = b"
  proof (cases "so_status storage = Staged_committed")
    case True
    note c = stage_committed [OF stage(1) True, unfolded v(2), folded release_def]
    obtain t where t: "open_release payload kPlatformAppId release = Some t"
      "release_openable (mb_package build) (pv_payload_start v) (pm_files (pv_manifest v)) t" using c(1) by blast
    have "installed_files_match t (mb_package build) v"
      using t(2) p(8) c(2) released_matches [of "mb_package build" "pv_payload_start v" t]
      unfolding installed_files_match_def release_openable_def list_all_iff Let_def by auto
    then show thesis using that [of t 256] t atomic True by (simp add: release_openable_def)
  next
    case False
    then have "so_status storage = Staged_already_present" using stage(2) by (simp add: staged_ok_def)
    then obtain t where t: "before = Some t" "ar_releases (pr_app payload kPlatformAppId) (release_name_of release) = Some t"
      "release_package_matches t (mb_package build) digest" using atomic by auto
    then obtain mode where "t package_name = Some (File mode (mb_package build))" "mode AND 146 = 0"
      by (auto simp: release_package_matches_def split: option.splits node.splits)
    then show thesis using that [of t mode] t opens by simp
  qed
  show ?thesis
    using daemon_verifies [of env "mb_package build" d' t mode hardware, folded v_def, folded release_def, OF v(1) link _ t(2,3)]
      link current_release t(1,4) stage(3) unfolding before_def [symmetric] by auto
qed

section \<open>No way back\<close>

text \<open>However often the platform was installed, repaired, upgraded and removed, with whatever packages and
  failures, as long as the stored policy state could be read: a package that the manager then reports as installed comes from the signer of the stored policy state, is not older than
  any release that state has seen, not of an older security epoch, and not another package of the same number.\<close>

theorem manager_never_downgrades:
  fixes env build es x
  defines "v \<equiv> trust_verify (en_trust env) (en_parse env) (en_crypto env) (mb_package build)"
  assumes "loaded_state (en_state_root env) kPlatformAppId (en_crypto env) (wo_state (dk_world (snd x))) = Some t"
    and "\<forall>e \<in> set es. slot_reads_work (fst e kPlatformAppId)"
    and "execute_operation env build calls operation (foldl (manager_step env) x es) = (s, m', d')" "ms_success s"
      "operation \<noteq> Manager_remove"
  shows "pm_signing_key_id (pv_manifest v) = rs_signing_key_id t \<and> rs_high_release t \<le> pm_release_counter (pv_manifest v) \<and>
    rs_high_security_epoch t \<le> pm_security_epoch (pv_manifest v) \<and>
    (pm_release_counter (pv_manifest v) = rs_high_release t \<longrightarrow> sha512 (en_crypto env) (mb_package build) = Some (rs_high_digest t))"
proof -
  obtain m d where x: "foldl (manager_step env) x es = (m, d)" by fastforce
  define w1 where "w1 = dk_world (snd (establish_roots (mc_install calls) d))"
  obtain r where r: "install_official_package env (manager_policy build) (mb_package build) (il_faults (mc_install calls)) w1 = (r, dk_world d')"
    "in_ok r" and v: "pv_ok v" "pm_app_id (pv_manifest v) = kPlatformAppId"
    by (rule reported_installation [OF assms(4) [unfolded x] assms(5,6), folded v_def, folded w1_def]) blast
  have "world_newer env kPlatformAppId (dk_world (snd x)) (dk_world d)"
    using manager_ratchet.run_newer [where s = x and env = env and app = kPlatformAppId and es = es] assms(3) by (simp add: x)
  then have "world_newer env kPlatformAppId (dk_world (snd x)) w1"
    unfolding w1_def by (rule install_ratchet.newer_trans [OF _ establish_newer])
  then obtain u where u: "loaded_state (en_state_root env) kPlatformAppId (en_crypto env) (wo_state w1) = Some u" "state_le t u"
    using assms(2) by (auto simp: world_newer_def state_newer_def split: option.splits)
  obtain digest where digest: "sha512 (en_crypto env) (mb_package build) = Some digest"
    "pd_status (evaluate_install_policy v digest (manager_policy build) (Some (high_water_from u))) = Policy_allowed"
    by (rule install_okD [OF r, folded v_def, unfolded v(2) u(1)]) auto
  then have "pm_signing_key_id (pv_manifest v) = rs_signing_key_id u \<and> rs_high_release u \<le> pm_release_counter (pv_manifest v) \<and>
      rs_high_security_epoch u \<le> pm_security_epoch (pv_manifest v) \<and>
      (pm_release_counter (pv_manifest v) = rs_high_release u \<longrightarrow> digest = rs_high_digest u)"
    by (auto simp: evaluate_install_policy_def Let_def decision_def high_water_from_def split: if_splits)
  then show ?thesis using u(2) digest(1) by (auto simp: state_le_def)
qed

section \<open>Removal\<close>

lemma stage_keeps_root: "pr_root (snd (stage_verified_release store_root bs v d faults fs)) = pr_root fs"
proof -
  obtain fs1 opened where o: "open_releases (sg_directories faults) (pm_app_id (pv_manifest v)) fs = (fs1, opened)" by fastforce
  have "pr_root fs1 = pr_root fs"
    using o by (auto simp: open_releases_def open_directory_def Let_def split: prod.splits dir_state.splits dir_open.splits if_splits)
  then show ?thesis
    unfolding stage_verified_release_def Let_def o prod.case
    by (auto split: option.split sum.split rename_outcome.split simp: set_release_def)
qed

lemma install_keeps_root: "pr_root (wo_payload (snd (install_official_package env ctx bs faults w))) = pr_root (wo_payload w)"
proof -
  have staged: "pr_root payload = pr_root (wo_payload w)"
    if "stage_verified_release store_root bs v d f (wo_payload w) = (storage, payload)" for store_root v d f storage payload
    using stage_keeps_root [of store_root bs v d f "wo_payload w"] that by simp
  show ?thesis
    by (auto simp: install_official_package_def install_loaded_def Let_def split: prod.split option.split dest: staged)
qed

lemma establish_root_present:
  "pr_root (wo_payload (dk_world d)) \<noteq> Dir_absent \<Longrightarrow> pr_root (wo_payload (dk_world (snd (establish_roots calls d)))) \<noteq> Dir_absent"
  by (auto simp: establish_roots_def ensure_platform_root_def ensure_policy_root_def ensure_owned_root_def Let_def
      split: prod.splits if_splits)

lemma install_root_present:
  assumes "pr_root (wo_payload (dk_world d)) \<noteq> Dir_absent"
  shows "pr_root (wo_payload (dk_world (snd (install_unlocked env build calls operation m d)))) \<noteq> Dir_absent"
proof (cases rule: install_unlocked_cases [of env build calls operation m d])
  case (attempted s d' r w active)
  have "pr_root (wo_payload w) = pr_root (wo_payload (dk_world (snd (establish_roots calls d))))"
    using install_keeps_root [of env "manager_policy build" "mb_package build" "il_faults calls"
        "dk_world (snd (establish_roots calls d))"] unfolding attempted(4) snd_conv .
  then show ?thesis using attempted(1,5) establish_root_present [OF assms] by simp
qed (use assms establish_root_present [OF assms] in simp_all)

lemma available_built:
  "ms_available (inspect_unlocked env build m d) \<Longrightarrow> fst (fst (verify_build_and_payload env build m (new_snapshot\<lparr>ms_busy := ma_busy m\<rparr>)))"
  by (auto simp: inspect_unlocked_def verify_build_and_payload_def reported_def new_snapshot_def Let_def split: prod.splits if_splits)

text \<open>The ways a removal ends.\<close>

lemma remove_unlocked_cases:
  fixes env build calls m d
  defines "s0 \<equiv> inspect_unlocked env build m d"
  obtains (kept) s where "remove_unlocked env build calls m d = (s, d)" "\<not> ms_success s"
  | (isolated) s d' tombstone random where "remove_unlocked env build calls m d = (s, d')"
      "ms_available s0" "ms_installed s0" "session_removal_allowed (rx_status calls)"
      "rx_random calls = Some random" "tombstone = removed_prefix @ hex_of_bytes random"
      "wo_payload (dk_world d') = platform_gone" "dk_current d' = Current_absent"
      "dk_entries d' = dk_entries d \<and> fst (remove_contents (rx_removal calls) (rx_contents calls) 0 0) \<or>
       \<not> ms_success s \<and> (dk_entries d' = dk_entries d @ [(tombstone, Some (rx_contents calls))] \<or>
         dk_entries d' = dk_entries d @ [(tombstone, Some (fst (snd (remove_contents (rx_removal calls) (rx_contents calls) 0 0))))])"
proof -
  have fresh: "\<not> ms_success s0" by (simp add: s0_def inspected_unsuccessful)
  obtain s' d' where result: "remove_unlocked env build calls m d = (s', d')" by fastforce
  note i = remove_unlocked_def [of env build calls m d, unfolded Let_def, folded s0_def]
  define stays where "stays \<longleftrightarrow> \<not> ms_available s0 \<or> \<not> ms_installed s0 \<or> \<not> session_removal_allowed (rx_status calls) \<or>
    \<not> dk_parent_trusted d \<or> \<not> rx_open calls \<or> pr_root (wo_payload (dk_world d)) \<noteq> Dir_trusted \<or> rx_random calls = None \<or>
    (removed_prefix @ hex_of_bytes (the (rx_random calls)) \<in> fst ` set (dk_entries d) \<or> \<not> rx_rename calls)"
  show thesis
  proof (cases stays)
    case True
    then have "d' = d \<and> \<not> ms_success s'"
      using result fresh by (auto simp: i stays_def reported_def split: if_splits option.splits)
    then show ?thesis using kept result by blast
  next
    case False
    then obtain random where random: "rx_random calls = Some random" by (auto simp: stays_def)
    obtain removed rest later where c: "remove_contents (rx_removal calls) (rx_contents calls) 0 0 = (removed, rest, later)"
      by (metis prod_cases3)
    show ?thesis
      by (rule isolated [OF result _ _ _ random refl])
        (use False random result fresh c in \<open>auto simp: i stays_def reported_def split: if_splits\<close>)
  qed
qed

text \<open>Only a removal takes the platform away, and only when this build carries an accepted package, no status of a session is
  published or the published one is of a session that has stopped. It takes the whole platform at once, and leaves the
  policy state and the applications as they were; when it is reported as done, nothing of it is left behind.\<close>

theorem platform_removed_only_stopped:
  assumes "execute_operation env build calls operation (m, d) = (s, m', d')"
    and "pr_root (wo_payload (dk_world d)) \<noteq> Dir_absent" "pr_root (wo_payload (dk_world d')) = Dir_absent"
  shows "operation = Manager_remove \<and> pv_ok (trust_verify (en_trust env) (en_parse env) (en_crypto env) (mb_package build)) \<and>
    (case rx_status (mc_remove calls) of No_status_file \<Rightarrow> True | Unknown_status_file \<Rightarrow> False
     | Status_file f \<Rightarrow> \<exists>contents. read_trusted_file f 4096 = Some contents \<and>
         (\<forall>p. publishable p \<and> contents = encode_session_status p \<longrightarrow> ss_state p = Session_stopped)) \<and>
    wo_payload (dk_world d') = platform_gone \<and> dk_current d' = Current_absent \<and>
    wo_state (dk_world d') = wo_state (dk_world d) \<and> dk_applications d' = dk_applications d \<and>
    (ms_success s \<longrightarrow> dk_entries d' = dk_entries d)"
proof -
  let ?m = "m\<lparr>ma_busy := True\<rparr>"
  have idle: "\<not> ma_busy m" using assms by (auto simp: execute_operation_def)
  have op: "operation = Manager_remove"
    using assms idle install_root_present [OF assms(2), of env build "mc_install calls" operation ?m]
    by (auto simp: execute_operation_def Let_def split: if_splits)
  then obtain s1 where r: "remove_unlocked env build (mc_remove calls) ?m d = (s1, d')" "ms_success s = ms_success s1"
    using assms(1) idle by (cases "remove_unlocked env build (mc_remove calls) ?m d") (auto simp: execute_operation_def Let_def)
  note keeps = remove_keeps [of env build "mc_remove calls" ?m d, unfolded r(1) snd_conv]
  show ?thesis
  proof (cases rule: remove_unlocked_cases [of env build "mc_remove calls" ?m d])
    case (kept s2)
    then show ?thesis using r assms(2,3) by simp
  next
    case (isolated s2 d2 tombstone random)
    then have d2: "d2 = d'" "s2 = s1" using r by simp_all
    have status: "case rx_status (mc_remove calls) of No_status_file \<Rightarrow> True | Unknown_status_file \<Rightarrow> False
     | Status_file f \<Rightarrow> \<exists>contents. read_trusted_file f 4096 = Some contents \<and>
         (\<forall>p. publishable p \<and> contents = encode_session_status p \<longrightarrow> ss_state p = Session_stopped)"
      using isolated(4) stopped_line_published by (auto simp: session_removal_allowed_def split: status_entry.splits option.splits)
    show ?thesis
      using op status keeps isolated(7-) built_package(1) [OF available_built [OF isolated(2)]] d2 r(2) by auto
  qed
qed

section \<open>Trees that are too deep\<close>

lemma establish_deep:
  assumes "deep_tombstone (dk_entries d)"
  shows "\<not> fst (establish_roots calls d) \<and> deep_tombstone (dk_entries (snd (establish_roots calls d))) \<and>
    dk_world (snd (establish_roots calls d)) = dk_world d"
  using assms deep_tombstone_stays [OF assms, of "il_cleanup calls" 0]
  by (auto simp: establish_roots_def cleanup_removal_tombstones_def Let_def split: prod.splits)

definition blocked :: "manager \<times> platform_disk \<Rightarrow> bool" where
  "blocked x \<longleftrightarrow> deep_tombstone (dk_entries (snd x)) \<and> wo_payload (dk_world (snd x)) = platform_gone"

lemma blocked_stays:
  assumes "blocked (m, d)" "execute_operation env build calls operation (m, d) = (s, m', d')"
  shows "\<not> ms_success s \<and> blocked (m', d')"
proof -
  let ?m = "m\<lparr>ma_busy := True\<rparr>"
  have gone: "wo_payload (dk_world d) = platform_gone" and deep: "deep_tombstone (dk_entries d)"
    using assms(1) by (simp_all add: blocked_def)
  have absent: "\<not> release_directory_exists d release" for release
    by (simp add: release_directory_exists_def gone platform_gone_def Let_def)
  have install: "\<not> ms_success (fst (install_unlocked env build (mc_install calls) operation ?m d)) \<and>
      blocked (m', snd (install_unlocked env build (mc_install calls) operation ?m d))"
    using establish_deep [OF deep, of "mc_install calls"] gone deep
    by (cases rule: install_unlocked_cases [of env build "mc_install calls" operation ?m d]) (auto simp: blocked_def)
  have "\<not> ms_installed (inspect_unlocked env build ?m d)"
    by (auto simp: inspect_unlocked_def verify_build_and_payload_def reported_def new_snapshot_def Let_def absent split: prod.splits if_splits)
  then have remove: "\<not> ms_success (fst (remove_unlocked env build (mc_remove calls) ?m d)) \<and>
      snd (remove_unlocked env build (mc_remove calls) ?m d) = d"
    by (cases rule: remove_unlocked_cases [of env build "mc_remove calls" ?m d]) auto
  show ?thesis
    using assms install remove inspected_unsuccessful [of env build m d]
    by (auto simp: execute_operation_def Let_def blocked_def reported_def split: if_splits)
qed

text \<open>A platform whose tree is deeper than the limit of the removal can be removed only once: its directory is renamed, the
  removal stops in it and is reported as deferred, and from then on every installation, repair and upgrade fails, because
  the cleanup of what was left behind fails at the same depth. The paths a package may have are deep enough for this.\<close>

theorem deep_platform_blocks_manager:
  assumes "execute_operation env build calls Manager_remove (m, d) = (s, x)"
    and "wo_payload (dk_world (snd x)) \<noteq> wo_payload (dk_world d)"
    and "kRemovalDepthLimit < entries_depth (rx_contents (mc_remove calls))"
    and "\<forall>random. rx_random (mc_remove calls) = Some random \<longrightarrow> length random = 12"
  shows "\<not> ms_success s \<and>
    \<not> ms_success (fst (execute_operation env later_build later_calls operation (foldl (manager_step env) x es))) \<and>
    (\<exists>path. valid_path path \<and> kRemovalDepthLimit < 3 + length (split_path path))"
proof -
  let ?m = "m\<lparr>ma_busy := True\<rparr>"
  obtain m' d' where x: "x = (m', d')" by fastforce
  have idle: "\<not> ma_busy m" using assms(1,2) by (auto simp: execute_operation_def x)
  then obtain s1 where r: "remove_unlocked env build (mc_remove calls) ?m d = (s1, d')" "ms_success s = ms_success s1"
    using assms(1) by (cases "remove_unlocked env build (mc_remove calls) ?m d") (auto simp: execute_operation_def Let_def x)
  have deep: "\<not> fst (remove_contents (rx_removal (mc_remove calls)) (rx_contents (mc_remove calls)) 0 0) \<and>
      kRemovalDepthLimit < entries_depth (fst (snd (remove_contents (rx_removal (mc_remove calls)) (rx_contents (mc_remove calls)) 0 0)))"
    using deep_stays(1) [of 0 "rx_contents (mc_remove calls)" "rx_removal (mc_remove calls)" 0] assms(3) by (simp add: still_deep_def)
  have "\<not> ms_success s \<and> blocked x"
  proof (cases rule: remove_unlocked_cases [of env build "mc_remove calls" ?m d])
    case (kept s2)
    then show ?thesis using r assms(2) by (simp add: x)
  next
    case (isolated s2 d2 tombstone random)
    then have d2: "d2 = d'" "s2 = s1" using r by simp_all
    have "length (hex_of_bytes random) = 24"
      using assms(4) isolated(5) by (simp add: hex_of_bytes_def length_concat comp_def sum_list_triv)
    then have "\<not> other_name tombstone" by (simp add: isolated(6) other_name_def)
    then show ?thesis
      using isolated(7,9) deep assms(3) r(2) by (auto simp: x d2 blocked_def deep_tombstone_def)
  qed
  moreover have "blocked (foldl (manager_step env) x es)" if "blocked x" for x
    using that
  proof (induction es arbitrary: x)
    case (Cons e es)
    obtain m d where x: "x = (m, d)" by fastforce
    obtain reads build calls operation where e: "e = (reads, build, calls, operation)" by (metis prod.exhaust)
    let ?d = "d\<lparr>dk_world := hide_world reads (dk_world d)\<rparr>"
    obtain s m' d' where r: "execute_operation env build calls operation (m, ?d) = (s, m', d')" by (metis prod.exhaust)
    have "blocked (m, ?d)" using Cons.prems by (simp add: x blocked_def hide_world_def)
    then show ?case using Cons.IH blocked_stays [OF _ r] by (simp add: manager_step_def x e r blocked_def restore_world_def)
  qed simp
  moreover have "valid_path (concat (replicate 30 ''a/'') @ ''a'') \<and>
      kRemovalDepthLimit < 3 + length (split_path (concat (replicate 30 ''a/'') @ ''a''))" by code_simp
  ultimately show ?thesis
    using blocked_stays by (metis prod.collapse)
qed

end
