(* ===== verification/Manager_Sample.thy ===== *)
theory Manager_Sample
  imports Manager_Properties Platform_Sample Installer_Sample
begin

text \<open>
  The manager on concrete disks, with the platform package of \<open>Platform_Sample\<close>: a platform whose state survived its
  removal is installed again, an installed one is removed, and one that is too deep is not.
\<close>

definition manager_environment :: install_environment where
  "manager_environment = platform_environment\<lparr>en_payload_root := kPlatformRoot, en_state_root := kPolicyRoot\<rparr>"

definition sample_build :: manager_build where
  "sample_build = \<lparr>mb_package = platform_package, mb_platform_version = pm_minimum_platform_version platform_manifest,
     mb_sdk_abi = pm_sdk_abi platform_manifest\<rparr>"

definition platform_state :: release_state where
  "platform_state = no_state\<lparr>rs_app_id := ''top.lvgl.platform'', rs_signing_key_id := concat (replicate 16 ''01''),
     rs_generation := 1, rs_current_release := 7, rs_high_release := 7,
     rs_current_digest := replicate 64 2, rs_high_digest := replicate 64 2\<rparr>"

definition platform_policy :: state_root where
  "platform_policy = \<lparr>sd_root = Dir_trusted, sd_apps = Dir_trusted, sd_application = (\<lambda>_.
     \<lparr>ad_dir = Dir_trusted, ad_slot_a = Slot_bytes (er_bytes (encode_release_state platform_state sample_crypto)),
      ad_slot_b = Slot_missing\<rparr>)\<rparr>"

lemma platform_state_fields:
  "storable_state sample_crypto platform_state" "rs_app_id platform_state = kPlatformAppId" "rs_current_release platform_state = 7"
  "rs_high_release platform_state = 7" "rs_current_digest platform_state = replicate 64 2" "safe_app_id kPlatformAppId"
  by code_simp+

lemma platform_manifest_more:
  "map_option (\<lambda>m. (pm_sdk_abi m, pm_minimum_platform_version m, pm_capabilities m, pm_security_epoch m)) (parse_manifest platform_document) =
     Some (''1.0'', ''1.0.0'', [], 0)"
  by code_simp

lemma platform_manifest_policy:
  "pm_sdk_abi platform_manifest = ''1.0''" "pm_minimum_platform_version platform_manifest = ''1.0.0''"
  "pm_capabilities platform_manifest = []" "pm_security_epoch platform_manifest = 0"
  using platform_manifest_more by (auto simp: platform_manifest_def)

lemma platform_policy_loaded:
  "loaded_state kPolicyRoot kPlatformAppId sample_crypto platform_policy = Some platform_state"
proof -
  have "slots_of kPlatformAppId platform_policy = (er_bytes (encode_release_state platform_state sample_crypto), [])"
    using encoded_slot(2) [OF platform_state_fields(1)]
    by (simp add: slots_of_def platform_policy_def read_slot_def slot_contents_def)
  moreover have "store_open kPolicyRoot kPlatformAppId platform_policy"
    by (simp add: store_open_def platform_policy_def kPolicyRoot_def slash_def)
  ultimately show ?thesis
    using encoded_slot(3) [OF platform_state_fields(1)] decode_empty [of sample_crypto] platform_state_fields(2,6)
    by (simp add: loaded_state_iff select_release_state_def Let_def sr_ok_def dr_ok_def)
qed

lemma platform_activated:
  "activation_state_for platform_verification (replicate 64 2) (Some platform_state) = Some platform_state"
proof -
  have "valid_state platform_state" "\<not> zero_digest (replicate 64 2)" by code_simp+
  moreover have "hex_of_bytes (replicate 16 1) = concat (replicate 16 ''01'')" by code_simp
  ultimately show ?thesis
    by (simp add: activation_state_for_def Let_def platform_verification_def pv_ok_def platform_manifest_fields
        platform_manifest_policy) (simp add: platform_state_def no_state_def)
qed

lemma platform_allowed:
  "evaluate_install_policy platform_verification (replicate 64 2) (manager_policy sample_build) (Some (high_water_from platform_state)) =
     decision Policy_allowed ''POLICY_INSTALL_ALLOWED''"
proof -
  have "version_at_least ''1.0.0'' ''1.0.0''" by code_simp
  moreover have "hex_of_bytes (replicate 16 1) = concat (replicate 16 ''01'')" by code_simp
  ultimately show ?thesis
    by (simp add: evaluate_install_policy_def Let_def platform_verification_def pv_ok_def platform_manifest_fields
        platform_manifest_policy manager_policy_def sample_build_def high_water_from_def) (simp add: platform_state_def no_state_def)
qed

section \<open>Installing again after a removal\<close>

definition removed_disk :: platform_disk where
  "removed_disk = \<lparr>dk_parent_trusted = True, dk_entries = [(''lvgl-apps'', None)],
     dk_world = \<lparr>wo_payload = platform_gone, wo_state = platform_policy\<rparr>, dk_current = Current_absent,
     dk_applications = inbox_store, dk_untrusted_paths = False\<rparr>"

definition sample_install :: install_calls where
  "sample_install = \<lparr>il_cleanup = \<lparr>cu_listed = True, cu_removal = \<lambda>_. good_removal, cu_finish = True\<rparr>, il_platform = (True, True), il_policy = (True, True),
     il_prepare = ((True, True), (True, True), (True, True)), il_faults = no_faults,
     il_activate = \<lparr>av_open = True, av_stat = True, av_random = Some (replicate 12 5), av_symlink = True, av_rename = True, av_sync = True\<rparr>\<rparr>"

definition sample_remove :: "(string \<times> raw_node) list \<Rightarrow> remove_platform_calls" where
  "sample_remove contents = \<lparr>rx_status = No_status_file, rx_open = True, rx_contents = contents, rx_random = Some (replicate 12 5),
     rx_rename = True, rx_renamed_sync = True, rx_removal = good_removal, rx_rmdir = True, rx_final_sync = True\<rparr>"

definition sample_operations :: manager_calls where
  "sample_operations = \<lparr>mc_install = sample_install, mc_remove = sample_remove []\<rparr>"

definition idle_manager :: manager where
  "idle_manager = \<lparr>ma_crypto = True, ma_busy = False\<rparr>"

definition new_platform :: payload_root where
  "new_platform = platform_gone\<lparr>pr_root := Dir_trusted\<rparr>"

lemma platform_staged:
  "\<exists>payload. stage_verified_release kPlatformRoot platform_package platform_verification (replicate 64 2)
     (fst no_faults) new_platform =
   (\<lparr>so_status = Staged_committed, so_detail = ''STORAGE_RELEASE_COMMITTED'',
      so_release_path = release_path_of kPlatformRoot kPlatformAppId ''7''\<rparr>, payload)"
proof -
  have "safe_component ''top.lvgl.platform''" by code_simp
  moreover have "release_name_of 7 = ''7''" by code_simp
  moreover have "split_path ''bin/lvgl-desktop'' = [''bin'', ''lvgl-desktop'']" "split_path ''bin/lvgl-sessiond'' = [''bin'', ''lvgl-sessiond'']"
    "split_path ''profile.env'' = [''profile.env'']" by code_simp+
  moreover have "platform_package \<noteq> []" using length_platform_package by auto
  ultimately show ?thesis
    by (simp add: stage_verified_release_def Let_def platform_verification_def pv_ok_def platform_manifest_fields slash_def
        length_platform_package no_faults_def new_platform_def platform_gone_def open_releases_def open_directory_def platform_files_def
        create_file_def create_exclusive_def create_package_copy_def package_name_def marker_name_def ensure_directory_def
        kPlatformRoot_def kPlatformAppId_def)
qed

lemma platform_trusted_environment:
  "trust_verify (en_trust manager_environment) (en_parse manager_environment) (en_crypto manager_environment) platform_package =
     platform_verification" "en_trust manager_environment \<noteq> None" "en_crypto manager_environment = sample_crypto"
  "en_payload_root manager_environment = kPlatformRoot" "en_state_root manager_environment = kPolicyRoot"
  using platform_trusted by (simp_all add: manager_environment_def platform_environment_def)

lemma platform_installed:
  "\<exists>r w'. install_official_package manager_environment (manager_policy sample_build) platform_package no_faults
     \<lparr>wo_payload = new_platform, wo_state = platform_policy\<rparr> = (r, w') \<and> in_ok r \<and> in_active_state r = Some platform_state \<and>
     open_release (wo_payload w') kPlatformAppId 7 \<noteq> None"
proof -
  obtain payload where st: "stage_verified_release kPlatformRoot platform_package platform_verification (replicate 64 2)
      (fst no_faults) new_platform = (\<lparr>so_status = Staged_committed, so_detail = ''STORAGE_RELEASE_COMMITTED'',
        so_release_path = release_path_of kPlatformRoot kPlatformAppId ''7''\<rparr>, payload)"
    using platform_staged by blast
  have app: "pm_app_id (pv_manifest platform_verification) = kPlatformAppId" "pm_release_counter (pv_manifest platform_verification) = 7"
    "pv_ok platform_verification"
    by (simp_all add: platform_verification_def platform_manifest_fields kPlatformAppId_def pv_ok_def)
  have opened: "open_release payload kPlatformAppId 7 \<noteq> None"
    using stage_committed(1) [OF st] by (auto simp: app)
  have load: "st_status (load_release_state kPolicyRoot kPlatformAppId sample_crypto platform_policy) = Store_loaded \<or>
      st_status (load_release_state kPolicyRoot kPlatformAppId sample_crypto platform_policy) = Store_loaded_degraded"
    "dr_state (sr_decoded (st_selected (load_release_state kPolicyRoot kPlatformAppId sample_crypto platform_policy))) = platform_state"
    using loaded_status [OF platform_policy_loaded] by auto
  have p: "st_status (fst (persist_release_state kPolicyRoot platform_state sample_crypto (snd no_faults) platform_policy)) = Store_written"
    using encoded_slot(1,4) [OF platform_state_fields(1)] platform_state_fields(2,6)
    by (simp add: persist_release_state_def Let_def no_faults_def platform_policy_def open_store_def
        open_directory_def slash_def store_result_def kPolicyRoot_def)
  obtain stored fs where pe: "persist_release_state kPolicyRoot platform_state sample_crypto (snd no_faults) platform_policy = (stored, fs)"
    by fastforce
  show ?thesis
    using st load p pe platform_activated platform_allowed opened
    unfolding install_official_package_def Let_def platform_trusted_environment(1)
    unfolding platform_trusted_environment(3-5) app sample_sha512
    by (simp add: install_loaded_def platform_trusted_environment(2-) app Let_def staged_ok_def st_ok_def decision_def in_ok_def)
qed

lemma manager_prepared: "fst (prepare_application_storage ((True, True), (True, True), (True, True)) inbox_store) = Inbox_ready"
  by code_simp

lemma removed_names: "other_name ''lvgl-apps''" "(''lvgl-apps'', None :: (string \<times> raw_node) list option) \<in> set (dk_entries removed_disk)"
  by (code_simp, simp add: removed_disk_def)

lemma sample_reinstalled:
  "\<exists>s m d. execute_operation manager_environment sample_build sample_operations Manager_repair (idle_manager, removed_disk) = (s, m, d) \<and>
     ms_success s"
proof -
  let ?m = "idle_manager\<lparr>ma_busy := True\<rparr>"
  have app: "pm_app_id (pv_manifest platform_verification) = kPlatformAppId" "pm_entry (pv_manifest platform_verification) = ''bin/lvgl-sessiond''"
    "pv_ok platform_verification"
    by (simp_all add: platform_verification_def platform_manifest_fields kPlatformAppId_def pv_ok_def)
  have "platform_package \<noteq> []" using length_platform_package by auto
  then obtain s where b: "verify_build_and_payload manager_environment sample_build ?m new_snapshot = ((True, s), Some platform_verification)"
    using platform_trusted_environment
    by (simp add: verify_build_and_payload_def sample_build_def Let_def idle_manager_def app)
  obtain d1 where e: "establish_roots sample_install removed_disk = (True, d1)"
    "dk_world d1 = \<lparr>wo_payload = new_platform, wo_state = platform_policy\<rparr>" "dk_current d1 = Current_absent"
    using manager_prepared
    by (cases "prepare_application_storage ((True, True), (True, True), (True, True)) inbox_store")
      (simp add: establish_roots_def sample_install_def removed_disk_def cleanup_removal_tombstones_def removed_names(1)
        good_removal_def ensure_platform_root_def ensure_policy_root_def ensure_owned_root_def Let_def platform_gone_def
        new_platform_def platform_policy_def)
  obtain r w where r: "install_official_package manager_environment (manager_policy sample_build) platform_package no_faults
      (dk_world d1) = (r, w)" "in_ok r" "in_active_state r = Some platform_state" "open_release (wo_payload w) kPlatformAppId 7 \<noteq> None"
    using platform_installed e(2) by auto
  have exists: "release_directory_exists (d1\<lparr>dk_world := w\<rparr>) 7" "pr_root (wo_payload w) = Dir_trusted"
    using r(4) by (auto simp: release_directory_exists_def Let_def open_release_def split: if_splits)
  then obtain d2 where a: "activate_release (il_activate sample_install) 7 (d1\<lparr>dk_world := w\<rparr>) = (True, d2)"
    by (simp add: activate_release_def sample_install_def e(3) Let_def)
  have parts: "mb_package sample_build = platform_package" "il_faults sample_install = no_faults"
    by (simp_all add: sample_build_def sample_install_def)
  have "ms_success (fst (install_unlocked manager_environment sample_build sample_install Manager_repair ?m removed_disk))"
    using r(2,3) platform_state_fields(2,3)
    unfolding install_unlocked_def b prod.case e(1) parts r(1) Let_def by (simp add: a)
  then show ?thesis
    by (cases "install_unlocked manager_environment sample_build sample_install Manager_repair ?m removed_disk")
      (simp add: execute_operation_def Let_def sample_operations_def idle_manager_def)
qed

lemma installed_platform_runs_witness:
  "\<exists>d t. verify_active_release (daemon_started d (Some ''armv7l'')) manager_environment =
     Inr \<lparr>vr_directory = t, vr_counter = 7, vr_verification = platform_verification, vr_profile = sample_profile\<rparr>"
proof -
  obtain s m d where s: "execute_operation manager_environment sample_build sample_operations Manager_repair (idle_manager, removed_disk) =
      (s, m, d)" "ms_success s" using sample_reinstalled by blast
  have stored: "loaded_state (en_state_root manager_environment) kPlatformAppId (en_crypto manager_environment)
      (wo_state (dk_world removed_disk)) \<noteq> None"
    using platform_policy_loaded by (simp add: platform_trusted_environment removed_disk_def)
  have before: "ar_releases (pr_app (wo_payload (dk_world removed_disk)) kPlatformAppId) name = None" for name
    by (simp add: removed_disk_def platform_gone_def)
  have package: "mb_package sample_build = platform_package" by (simp add: sample_build_def)
  have profile: "signed_profile (Some ''armv7l'') platform_package platform_verification = Inr sample_profile"
  proof -
    define f where "f = platform_files ! 2"
    have f: "find (\<lambda>f. pf_path f = ''profile.env'') platform_files = Some f" "pf_size f = 320" "pf_offset f = 6"
      by (simp_all add: platform_files_def f_def)
    have "profile_bytes platform_package platform_verification f = platform_profile"
      by (simp add: profile_bytes_def platform_verification_def f platform_payload)
    moreover have "package_supports_session_profile (platform_manifest\<lparr>pm_files := platform_files\<rparr>) sample_profile"
      by (simp add: package_supports_session_profile_def platform_manifest_fields sample_profile_def)
    ultimately show ?thesis
      by (simp add: signed_profile_def platform_verification_def f platform_profile_parsed) (simp add: sample_profile_def)
  qed
  have counter: "pm_release_counter (pv_manifest platform_verification) = 7"
    by (simp add: platform_verification_def platform_manifest_fields)
  have "\<exists>t. verify_active_release (daemon_started d (Some ''armv7l'')) manager_environment =
      Inr \<lparr>vr_directory = t, vr_counter = 7, vr_verification = platform_verification, vr_profile = sample_profile\<rparr>"
    using installed_platform_runs [OF s, of "Some ''armv7l''"] stored before profile
    by (auto simp: package platform_trusted_environment(1) counter)
  then show ?thesis by blast
qed

end
