(* ===== verification/Spec2Isabelle.thy ===== *)
theory Spec2Isabelle
  imports Package_Installer Package_Sample App_Registry Touch_Router Installer_Protocol Storage_Protocol
    Session_Control Game_Persistence Storage_Broker Session_Profile Application_Release Application_Sample Active_Release Platform_Sample
    Launcher Launcher_Sample Inbox_Service Inbox_Sample Installer_Service Installer_Sample Program_Start Session_Supervisor Session_Sample
    Device_Profile Environment Runtime_Sandbox Runtime_Display Input_Backend Drm_Backend Drm_Present Runtime_Sample Focus_Timer
    App_Control Installer_Client Client_Sample Manager_Properties Manager_Sample
begin

text \<open>Verification of the Pen-LVGL platform.\<close>

section \<open>Properties\<close>

text \<open>C31. Every format of the platform is canonical: touch frames on a screen, control messages, storage and
  installer requests and responses, and the application registry are decoded exactly when the bytes are
  what the encoder writes for an acceptable message, which is then the result.\<close>

theorem wire_formats_canonical:
  "(decoded_touch_frame width height bs = Some f \<longleftrightarrow> valid_touch_frame f width height \<and> encode_touch_frame f = bs) \<and>
   (decode_session_control bs = Some c \<longleftrightarrow> control_acceptable c \<and> encode_session_control c = bs) \<and>
   (decode_storage_request bs = Some sq \<longleftrightarrow> storage_request_acceptable sq \<and> encode_storage_request sq = bs) \<and>
   (decode_storage_response bs = Some sp \<longleftrightarrow> storage_response_acceptable sp \<and> encode_storage_response sp = bs) \<and>
   (decode_installer_request bs = Some iq \<longleftrightarrow> installer_request_acceptable iq \<and> encode_installer_request iq = bs) \<and>
   (decode_installer_response bs = Some ip \<longleftrightarrow> installer_response_acceptable ip \<and> encode_installer_response ip = bs) \<and>
   (rd_ok (decode_application_registry bs) \<and> rd_applications (decode_application_registry bs) = as \<longleftrightarrow>
      registry_acceptable as \<and> rd_bytes (encode_application_registry as) = bs)"
  by (intro conjI touch_wire_format control_wire_format storage_wire_format [THEN conjunct1] storage_wire_format [THEN conjunct2]
      installer_wire_format [THEN conjunct1] installer_wire_format [THEN conjunct2] registry_format)

end
